(* ===== verification/Qn_Prelude.thy ===== *)
theory Qn_Prelude
  imports Main "HOL-Library.Word"
begin

text \<open>
  Shared vocabulary of the development: the fixed-width integers of the C++ sources, the
  outcome type of the fallible functions, and the generic facts on lists, sums and words
  that the component theories rely on.

  A C++ function of the library can end in four ways, and the outcome type has one
  constructor for each: \<open>Inr v\<close> is a normal return (\<open>Ok(v)\<close>), \<open>Inl (Failed e)\<close> is a
  returned \<open>Err(e)\<close>, \<open>Inl AssertionFailed\<close> is a thrown exception, of \<open>QN_ASSERT\<close>
  (\<open>qn::_assertionFail\<close>) or of a vector asked for more than its maximum size, and \<open>Inl OutOfBounds\<close> marks a read or write outside of an object,
  which has undefined behaviour in C++.
\<close>

unbundle bit_operations_syntax

type_synonym u8 = "8 word"
type_synonym u16 = "16 word"
type_synonym u32 = "32 word"
type_synonym u64 = "64 word"
type_synonym byte = "8 word"
type_synonym bytes = "8 word list"

section \<open>Outcomes of fallible functions\<close>

datatype 'e failure = Failed 'e | AssertionFailed | OutOfBounds

type_synonym ('e, 'a) outcome = "'e failure + 'a"

abbreviation Ok :: "'a \<Rightarrow> ('e, 'a) outcome" where
  "Ok \<equiv> Inr"

abbreviation Err :: "'e \<Rightarrow> ('e, 'a) outcome" where
  "Err e \<equiv> Inl (Failed e)"

named_theorems outcome_simps \<open>rewriting of the outcome combinators\<close>

text \<open>The unwrapping macros (\<open>GEODE_UNWRAP\<close>, \<open>ARC_UNWRAP\<close>, \<open>ARC_CO_UNWRAP\<close>): an error
  leaves the function, a value goes on.\<close>

definition unwrap :: "('e, 'a) outcome \<Rightarrow> ('a \<Rightarrow> ('e, 'b) outcome) \<Rightarrow> ('e, 'b) outcome" where
  "unwrap r k = (case r of Inl e \<Rightarrow> Inl e | Inr v \<Rightarrow> k v)"

lemma unwrap_simps [simp, outcome_simps]:
  "unwrap (Inl e) k = Inl e"
  "unwrap (Inr v) k = k v"
  by (simp_all add: unwrap_def)

lemma unwrap_eq_Inr [outcome_simps]:
  "unwrap r k = Inr b \<longleftrightarrow> (\<exists>a. r = Inr a \<and> k a = Inr b)"
  by (cases r) (auto simp: unwrap_def)

lemma unwrap_eq_Inl [outcome_simps]:
  "unwrap r k = Inl e \<longleftrightarrow> r = Inl e \<or> (\<exists>a. r = Inr a \<and> k a = Inl e)"
  by (cases r) (auto simp: unwrap_def)

lemma unwrap_assoc: "unwrap (unwrap r f) g = unwrap r (\<lambda>a. unwrap (f a) g)"
  by (cases r) auto

lemma unwrap_if: "unwrap (if c then a else b) k = (if c then unwrap a k else unwrap b k)"
  by simp

lemma unwrap_cong [fundef_cong]:
  "r = r' \<Longrightarrow> (\<And>v. r' = Inr v \<Longrightarrow> k v = k' v) \<Longrightarrow> unwrap r k = unwrap r' k'"
  by (cases r') auto

text \<open>\<open>Result::mapErr\<close> on the returned error.\<close>

definition mapErr :: "('e \<Rightarrow> 'f) \<Rightarrow> ('e, 'a) outcome \<Rightarrow> ('f, 'a) outcome" where
  "mapErr f r = (case r of Inr v \<Rightarrow> Inr v
     | Inl (Failed e) \<Rightarrow> Inl (Failed (f e))
     | Inl AssertionFailed \<Rightarrow> Inl AssertionFailed
     | Inl OutOfBounds \<Rightarrow> Inl OutOfBounds)"

lemma mapErr_simps [simp, outcome_simps]:
  "mapErr f (Inr v) = Inr v"
  "mapErr f (Inl (Failed e)) = Inl (Failed (f e))"
  "mapErr f (Inl AssertionFailed) = Inl AssertionFailed"
  "mapErr f (Inl OutOfBounds) = Inl OutOfBounds"
  by (simp_all add: mapErr_def)

lemma mapErr_eq_Inr [simp]: "mapErr f r = Inr v \<longleftrightarrow> r = Inr v"
  by (auto simp: mapErr_def split: sum.splits failure.splits)

text \<open>\<open>QN_ASSERT\<close>.\<close>

definition qn_assert :: "bool \<Rightarrow> ('e, 'a) outcome \<Rightarrow> ('e, 'a) outcome" where
  "qn_assert c r = (if c then r else Inl AssertionFailed)"

lemma qn_assert_simps [simp, outcome_simps]:
  "qn_assert True r = r"
  "qn_assert False r = Inl AssertionFailed"
  by (simp_all add: qn_assert_def)

lemma qn_assert_eq_Inr [simp]: "qn_assert c r = Inr v \<longleftrightarrow> c \<and> r = Inr v"
  by (simp add: qn_assert_def)

text \<open>A read of element \<open>i\<close> of an array or vector.\<close>

definition at :: "'a list \<Rightarrow> nat \<Rightarrow> ('e, 'a) outcome" where
  "at xs i = (if i < length xs then Inr (xs ! i) else Inl OutOfBounds)"

lemma at_Inr [simp]: "at xs i = Inr x \<longleftrightarrow> i < length xs \<and> x = xs ! i"
  by (auto simp: at_def)

lemma at_in [simp]: "i < length xs \<Longrightarrow> at xs i = Inr (xs ! i)"
  by (simp add: at_def)

text \<open>\<open>isOk r\<close> for a normal return, and the absence of undefined behaviour.\<close>

definition isOk :: "('e, 'a) outcome \<Rightarrow> bool" where
  "isOk r = (case r of Inr _ \<Rightarrow> True | Inl _ \<Rightarrow> False)"

definition in_bounds :: "('e, 'a) outcome \<Rightarrow> bool" where
  "in_bounds r = (case r of Inl OutOfBounds \<Rightarrow> False | _ \<Rightarrow> True)"

lemma isOk_simps [simp]: "isOk (Inr v)" "\<not> isOk (Inl e)"
  by (simp_all add: isOk_def)

lemma in_bounds_simps [simp]:
  "in_bounds (Inr v)" "in_bounds (Inl (Failed e))" "in_bounds (Inl AssertionFailed)"
  "\<not> in_bounds (Inl OutOfBounds)"
  by (simp_all add: in_bounds_def)

lemma in_bounds_unwrap:
  "in_bounds r \<Longrightarrow> (\<And>v. r = Inr v \<Longrightarrow> in_bounds (k v)) \<Longrightarrow> in_bounds (unwrap r k)"
  by (cases r) (auto simp: in_bounds_def)

lemma in_bounds_mapErr [simp]: "in_bounds (mapErr f r) = in_bounds r"
  by (auto simp: in_bounds_def mapErr_def split: sum.splits failure.splits)

section \<open>Lists\<close>

text \<open>\<open>find_if\<close>, the removal of the first match (\<open>erase(it)\<close> after a linear search), and the
  overwriting of a block of a buffer (\<open>memcpy(dst + off, src, n)\<close>).\<close>

definition memcpy_at :: "'a list \<Rightarrow> nat \<Rightarrow> 'a list \<Rightarrow> 'a list" where
  "memcpy_at dst off src = take off dst @ src @ drop (off + length src) dst"

lemma length_memcpy_at [simp]:
  "off + length src \<le> length dst \<Longrightarrow> length (memcpy_at dst off src) = length dst"
  by (simp add: memcpy_at_def)

lemma memcpy_at_nth:
  assumes "off + length src \<le> length dst" and "i < length dst"
  shows "memcpy_at dst off src ! i =
           (if off \<le> i \<and> i < off + length src then src ! (i - off) else dst ! i)"
proof -
  have len: "length (take off dst) = off"
    using assms by simp
  show ?thesis
  proof (cases "i < off")
    case True
    then show ?thesis
      using assms len by (simp add: memcpy_at_def nth_append)
  next
    case ge: False
    show ?thesis
    proof (cases "i < off + length src")
      case True
      then have "i - off < length src"
        using ge by arith
      then show ?thesis
        using True ge len by (simp add: memcpy_at_def nth_append)
    next
      case False
      then have "\<not> i - off < length src"
        by arith
      then have "memcpy_at dst off src ! i
                   = drop (off + length src) dst ! (i - off - length src)"
        using False ge len by (simp add: memcpy_at_def nth_append)
      also have "\<dots> = dst ! (off + length src + (i - off - length src))"
        using assms False by (intro nth_drop) simp
      also have "off + length src + (i - off - length src) = i"
        using False ge by simp
      finally show ?thesis
        using False by simp
    qed
  qed
qed

fun remove_first :: "('a \<Rightarrow> bool) \<Rightarrow> 'a list \<Rightarrow> 'a list" where
  "remove_first P [] = []"
| "remove_first P (x # xs) = (if P x then xs else x # remove_first P xs)"

lemma remove_first_none [simp]: "\<forall>x\<in>set xs. \<not> P x \<Longrightarrow> remove_first P xs = xs"
  by (induction xs) auto

lemma set_remove_first_subset: "set (remove_first P xs) \<subseteq> set xs"
  by (induction xs) auto

lemma length_remove_first:
  "length (remove_first P xs) = (if \<exists>x\<in>set xs. P x then length xs - 1 else length xs)"
proof (induction xs)
  case (Cons x xs)
  then show ?case by (cases xs) auto
qed simp

lemma length_remove_first_le [simp]: "length (remove_first P xs) \<le> length xs"
  by (induction xs) auto

lemma length_remove_first_less [termination_simp]:
  "find P xs = Some x \<Longrightarrow> length (remove_first P xs) < length xs"
  by (induction xs) (auto split: if_splits)

lemma remove_first_filter:
  "distinct (map f xs) \<Longrightarrow> remove_first (\<lambda>x. f x = k) xs = filter (\<lambda>x. f x \<noteq> k) xs"
proof (induction xs)
  case Nil
  then show ?case by simp
next
  case (Cons x xs)
  show ?case
  proof (cases "f x = k")
    case True
    then have "\<forall>y\<in>set xs. f y \<noteq> k"
      using Cons.prems by (auto simp: image_iff)
    then have "filter (\<lambda>x. f x \<noteq> k) xs = xs"
      by simp
    with True show ?thesis
      by simp
  next
    case False
    with Cons show ?thesis by simp
  qed
qed

lemma take_append_exact [simp]: "length xs = n \<Longrightarrow> take n (xs @ ys) = xs"
  by simp

lemma drop_append_exact [simp]: "length xs = n \<Longrightarrow> drop n (xs @ ys) = ys"
  by simp

section \<open>Words\<close>

lemma unat_u16_less [simp]: "unat (x :: u16) < 65536"
  using unsigned_less [of x] by simp

lemma unat_u32_less [simp]: "unat (x :: u32) < 4294967296"
  using unsigned_less [of x] by simp

lemma unat_u8_less [simp]: "unat (x :: u8) < 256"
  using unsigned_less [of x] by simp

lemma unat_of_nat_u16: "n < 65536 \<Longrightarrow> unat (of_nat n :: u16) = n"
  by (simp add: unat_of_nat)

lemma unat_of_nat_u32: "n < 4294967296 \<Longrightarrow> unat (of_nat n :: u32) = n"
  by (simp add: unat_of_nat)

end
