(* ===== verification/Dbuf.thy ===== *)
theory Dbuf
  imports Qn_Prelude
begin

text \<open>
  The interface of the third-party package \<open>dbuf\<close>, whose sources are not part of the
  repository: \<open>dbuf::ByteReader\<close> and \<open>dbuf::ByteWriter\<close>.  Every definition of the
  development that parses or builds a byte string takes the operations it calls as an
  argument: a record \<open>byte_reader\<close> over an abstract reader state, a record
  \<open>byte_writer\<close> over an abstract writer state.  What the code relies on is stated by
  locales: a reader consumes its bytes from the front and fails when too few are left, a
  writer appends, and the fixed-width numbers it writes are the ones the reader returns
  (the record \<open>byte_codec\<close>, whose byte order is left open).  The reference instance at the
  end (a list of bytes, least significant byte first, the order of the bytes in
  \<open>tests/QunetMessage.cpp\<close>) shows that the laws can hold together and is what concrete
  inputs are evaluated with.
\<close>

record byte_codec =
  put16 :: "u16 \<Rightarrow> bytes"
  get16 :: "bytes \<Rightarrow> u16"
  put32 :: "u32 \<Rightarrow> bytes"
  get32 :: "bytes \<Rightarrow> u32"
  put64 :: "u64 \<Rightarrow> bytes"
  get64 :: "bytes \<Rightarrow> u64"
  getBool :: "byte \<Rightarrow> bool"

record 'r byte_reader =
  br_open :: "bytes \<Rightarrow> 'r"
  br_readU8 :: "'r \<Rightarrow> (string, u8 \<times> 'r) outcome"
  br_readU16 :: "'r \<Rightarrow> (string, u16 \<times> 'r) outcome"
  br_readU32 :: "'r \<Rightarrow> (string, u32 \<times> 'r) outcome"
  br_readI32 :: "'r \<Rightarrow> (string, u32 \<times> 'r) outcome"
  br_readU64 :: "'r \<Rightarrow> (string, u64 \<times> 'r) outcome"
  br_readBool :: "'r \<Rightarrow> (string, bool \<times> 'r) outcome"
  br_readBytes :: "'r \<Rightarrow> nat \<Rightarrow> (string, bytes \<times> 'r) outcome"
  br_readString :: "'r \<Rightarrow> (string, bytes \<times> 'r) outcome"
  br_skip :: "'r \<Rightarrow> nat \<Rightarrow> (string, 'r) outcome"
  br_readToEnd :: "'r \<Rightarrow> bytes \<times> 'r"
  br_remainingSize :: "'r \<Rightarrow> nat"

record 'w byte_writer =
  bw_new :: 'w
  bw_writeU8 :: "'w \<Rightarrow> u8 \<Rightarrow> 'w"
  bw_writeU16 :: "'w \<Rightarrow> u16 \<Rightarrow> 'w"
  bw_writeU32 :: "'w \<Rightarrow> u32 \<Rightarrow> 'w"
  bw_writeU64 :: "'w \<Rightarrow> u64 \<Rightarrow> 'w"
  bw_writeBytes :: "'w \<Rightarrow> bytes \<Rightarrow> 'w"
  bw_written :: "'w \<Rightarrow> bytes"
  bw_position :: "'w \<Rightarrow> nat"
  bw_setPosition :: "'w \<Rightarrow> nat \<Rightarrow> 'w"
  bw_performAt :: "'w \<Rightarrow> nat \<Rightarrow> ('w \<Rightarrow> 'w) \<Rightarrow> (string, 'w) outcome"

section \<open>The laws the library relies on\<close>

locale codec_laws =
  fixes C :: byte_codec
  assumes len16 [simp]: "length (put16 C x) = 2"
    and len32 [simp]: "length (put32 C y) = 4"
    and len64 [simp]: "length (put64 C z) = 8"
    and get_put16 [simp]: "get16 C (put16 C x) = x"
    and get_put32 [simp]: "get32 C (put32 C y) = y"
    and get_put64 [simp]: "get64 C (put64 C z) = z"

locale byte_reader_laws =
  fixes R :: "'r byte_reader" and C :: byte_codec
    and rest :: "'r \<Rightarrow> bytes" and adv :: "'r \<Rightarrow> nat \<Rightarrow> 'r"
  assumes rest_open [simp]: "rest (br_open R bs) = bs"
    and rest_adv [simp]: "n \<le> length (rest r) \<Longrightarrow> rest (adv r n) = drop n (rest r)"
    and readU8: "1 \<le> length (rest r) \<Longrightarrow> br_readU8 R r = Inr (hd (rest r), adv r 1)"
    and readU8_short: "length (rest r) < 1 \<Longrightarrow> \<exists>e. br_readU8 R r = Inl (Failed e)"
    and readU16: "2 \<le> length (rest r) \<Longrightarrow>
      br_readU16 R r = Inr (get16 C (take 2 (rest r)), adv r 2)"
    and readU16_short: "length (rest r) < 2 \<Longrightarrow> \<exists>e. br_readU16 R r = Inl (Failed e)"
    and readU32: "4 \<le> length (rest r) \<Longrightarrow>
      br_readU32 R r = Inr (get32 C (take 4 (rest r)), adv r 4)"
    and readU32_short: "length (rest r) < 4 \<Longrightarrow> \<exists>e. br_readU32 R r = Inl (Failed e)"
    and readI32: "4 \<le> length (rest r) \<Longrightarrow>
      br_readI32 R r = Inr (get32 C (take 4 (rest r)), adv r 4)"
    and readI32_short: "length (rest r) < 4 \<Longrightarrow> \<exists>e. br_readI32 R r = Inl (Failed e)"
    and readU64: "8 \<le> length (rest r) \<Longrightarrow>
      br_readU64 R r = Inr (get64 C (take 8 (rest r)), adv r 8)"
    and readU64_short: "length (rest r) < 8 \<Longrightarrow> \<exists>e. br_readU64 R r = Inl (Failed e)"
    and readBool: "1 \<le> length (rest r) \<Longrightarrow>
      br_readBool R r = Inr (getBool C (hd (rest r)), adv r 1)"
    and readBool_short: "length (rest r) < 1 \<Longrightarrow> \<exists>e. br_readBool R r = Inl (Failed e)"
    and readBytes: "n \<le> length (rest r) \<Longrightarrow>
      br_readBytes R r n = Inr (take n (rest r), adv r n)"
    and readBytes_short: "length (rest r) < n \<Longrightarrow> \<exists>e. br_readBytes R r n = Inl (Failed e)"
    and skip: "n \<le> length (rest r) \<Longrightarrow> br_skip R r n = Inr (adv r n)"
    and skip_short: "length (rest r) < n \<Longrightarrow> \<exists>e. br_skip R r n = Inl (Failed e)"
    and readToEnd [simp]: "br_readToEnd R r = (rest r, adv r (length (rest r)))"
    and remainingSize [simp]: "br_remainingSize R r = length (rest r)"
begin

text \<open>With the error replaced by a constant, as the message decoder does (\<open>MAP_UNWRAP\<close>),
  every reading operation is a function of the remaining bytes.\<close>

lemma mapErr_short: "\<exists>e. r = Inl (Failed e) \<Longrightarrow> mapErr (\<lambda>_. c) r = Inl (Failed c)"
  by auto

lemma map_readU8: "mapErr (\<lambda>_. c) (br_readU8 R r) =
  (if 1 \<le> length (rest r) then Inr (hd (rest r), adv r 1) else Inl (Failed c))"
  using readU8_short [of r] by (cases "rest r") (auto simp: readU8)

lemma map_readU16: "mapErr (\<lambda>_. c) (br_readU16 R r) =
  (if 2 \<le> length (rest r) then Inr (get16 C (take 2 (rest r)), adv r 2) else Inl (Failed c))"
  using readU16_short [of r] by (auto simp: readU16)

lemma map_readU32: "mapErr (\<lambda>_. c) (br_readU32 R r) =
  (if 4 \<le> length (rest r) then Inr (get32 C (take 4 (rest r)), adv r 4) else Inl (Failed c))"
  using readU32_short [of r] by (auto simp: readU32)

lemma map_readU64: "mapErr (\<lambda>_. c) (br_readU64 R r) =
  (if 8 \<le> length (rest r) then Inr (get64 C (take 8 (rest r)), adv r 8) else Inl (Failed c))"
  using readU64_short [of r] by (auto simp: readU64)

lemma map_readBool: "mapErr (\<lambda>_. c) (br_readBool R r) =
  (if 1 \<le> length (rest r) then Inr (getBool C (hd (rest r)), adv r 1) else Inl (Failed c))"
  using readBool_short [of r] by (cases "rest r") (auto simp: readBool)

lemma map_readBytes: "mapErr (\<lambda>_. c) (br_readBytes R r n) =
  (if n \<le> length (rest r) then Inr (take n (rest r), adv r n) else Inl (Failed c))"
  using readBytes_short [of r n] by (auto simp: readBytes)

lemma map_skip: "mapErr (\<lambda>_. c) (br_skip R r n) =
  (if n \<le> length (rest r) then Inr (adv r n) else Inl (Failed c))"
  using skip_short [of r n] by (auto simp: skip)

lemmas map_reads = map_readU8 map_readU16 map_readU32 map_readU64 map_readBool map_readBytes
  map_skip

lemmas reads = readU8 readU16 readU32 readI32 readU64 readBool readBytes skip

end

text \<open>A string is read as a 16-bit length followed by that many bytes: the layout that
  \<open>lengthForNonDataMessage\<close> assumes for the strings of the failure messages.\<close>

locale byte_reader_string_laws = byte_reader_laws R C rest adv
  for R :: "'r byte_reader" and C :: byte_codec
    and rest :: "'r \<Rightarrow> bytes" and adv :: "'r \<Rightarrow> nat \<Rightarrow> 'r" +
  assumes readString:
    "2 \<le> length (rest r) \<Longrightarrow> unat (get16 C (take 2 (rest r))) + 2 \<le> length (rest r) \<Longrightarrow>
       br_readString R r = Inr (take (unat (get16 C (take 2 (rest r)))) (drop 2 (rest r)),
                                adv r (unat (get16 C (take 2 (rest r))) + 2))"

locale byte_writer_laws =
  fixes W :: "'w byte_writer" and C :: byte_codec
  assumes new_written [simp]: "bw_written W (bw_new W) = []"
    and new_position [simp]: "bw_position W (bw_new W) = 0"
    and writeU8_written [simp]: "bw_position W w = length (bw_written W w) \<Longrightarrow>
      bw_written W (bw_writeU8 W w b) = bw_written W w @ [b]"
    and writeU8_position [simp]: "bw_position W (bw_writeU8 W w b) = bw_position W w + 1"
    and writeU16_written [simp]: "bw_position W w = length (bw_written W w) \<Longrightarrow>
      bw_written W (bw_writeU16 W w x) = bw_written W w @ put16 C x"
    and writeU16_position [simp]: "bw_position W (bw_writeU16 W w x) = bw_position W w + 2"
    and writeU32_written [simp]: "bw_position W w = length (bw_written W w) \<Longrightarrow>
      bw_written W (bw_writeU32 W w y) = bw_written W w @ put32 C y"
    and writeU32_position [simp]: "bw_position W (bw_writeU32 W w y) = bw_position W w + 4"
    and writeU64_written [simp]: "bw_position W w = length (bw_written W w) \<Longrightarrow>
      bw_written W (bw_writeU64 W w z) = bw_written W w @ put64 C z"
    and writeU64_position [simp]: "bw_position W (bw_writeU64 W w z) = bw_position W w + 8"
    and writeBytes_written [simp]: "bw_position W w = length (bw_written W w) \<Longrightarrow>
      bw_written W (bw_writeBytes W w bs) = bw_written W w @ bs"
    and writeBytes_position [simp]:
      "bw_position W (bw_writeBytes W w bs) = bw_position W w + length bs"
    and setPosition_written [simp]: "bw_written W (bw_setPosition W w n) = bw_written W w"
    and setPosition_position [simp]: "n \<le> length (bw_written W w) \<Longrightarrow>
      bw_position W (bw_setPosition W w n) = n"
    and performAt_U8: "pos < length (bw_written W w) \<Longrightarrow>
      \<exists>w'. bw_performAt W w pos (\<lambda>v. bw_writeU8 W v b) = Inr w'
         \<and> bw_written W w' = memcpy_at (bw_written W w) pos [b]
         \<and> bw_position W w' = bw_position W w"
    and performAt_U32: "pos + 4 \<le> length (bw_written W w) \<Longrightarrow>
      \<exists>w'. bw_performAt W w pos (\<lambda>v. bw_writeU32 W v y) = Inr w'
         \<and> bw_written W w' = memcpy_at (bw_written W w) pos (put32 C y)
         \<and> bw_position W w' = bw_position W w"

locale dbuf_laws =
  codec_laws C + byte_reader_laws R C rest adv + byte_writer_laws W C
  for C :: byte_codec and R :: "'r byte_reader"
    and rest :: "'r \<Rightarrow> bytes" and adv :: "'r \<Rightarrow> nat \<Rightarrow> 'r"
    and W :: "'w byte_writer"
begin

text \<open>A writer that is positioned at its end appends (\<open>appends w bs\<close>: it holds \<open>bs\<close> and is
  positioned behind them).\<close>

definition holds :: "'w \<Rightarrow> bytes \<Rightarrow> bool" where
  "holds w bs \<longleftrightarrow> bw_written W w = bs \<and> bw_position W w = length bs"

lemma holds_new [simp]: "holds (bw_new W) []"
  by (simp add: holds_def)

lemma holds_write:
  assumes "holds w bs"
  shows holds_writeU8: "holds (bw_writeU8 W w b) (bs @ [b])"
    and holds_writeU16: "holds (bw_writeU16 W w x) (bs @ put16 C x)"
    and holds_writeU32: "holds (bw_writeU32 W w y) (bs @ put32 C y)"
    and holds_writeU64: "holds (bw_writeU64 W w z) (bs @ put64 C z)"
    and holds_writeBytes: "holds (bw_writeBytes W w cs) (bs @ cs)"
  using assms by (simp_all add: holds_def)

lemma holds_writtenD: "holds w bs \<Longrightarrow> bw_written W w = bs"
  by (simp add: holds_def)

end

section \<open>The reference instance\<close>

fun put_le :: "nat \<Rightarrow> 'a::len word \<Rightarrow> bytes" where
  "put_le 0 x = []"
| "put_le (Suc n) x = ucast x # put_le n (drop_bit 8 x)"

fun get_le :: "bytes \<Rightarrow> 'a::len word" where
  "get_le [] = 0"
| "get_le (b # bs) = ucast b OR push_bit 8 (get_le bs)"

lemma length_put_le [simp]: "length (put_le n x) = n"
  by (induction n arbitrary: x) auto

lemma get_put_le: "get_le (put_le n x) = take_bit (8 * n) x"
proof (induction n arbitrary: x)
  case 0
  then show ?case by simp
next
  case (Suc n)
  show ?case
    by (rule bit_word_eqI)
      (auto simp: Suc.IH bit_or_iff bit_push_bit_iff bit_ucast_iff bit_take_bit_iff
         bit_drop_bit_eq)
qed

definition le_codec :: byte_codec where
  "le_codec = \<lparr>put16 = put_le 2, get16 = get_le, put32 = put_le 4, get32 = get_le,
     put64 = put_le 8, get64 = get_le, getBool = (\<lambda>b. b \<noteq> 0)\<rparr>"

definition list_take :: "nat \<Rightarrow> (bytes \<Rightarrow> 'a) \<Rightarrow> bytes \<Rightarrow> (string, 'a \<times> bytes) outcome" where
  "list_take n f r = (if n \<le> length r then Inr (f (take n r), drop n r)
                      else Inl (Failed ''not enough data''))"

definition list_reader :: "bytes byte_reader" where
  "list_reader = \<lparr>br_open = (\<lambda>bs. bs),
     br_readU8 = list_take 1 hd,
     br_readU16 = list_take 2 get_le,
     br_readU32 = list_take 4 get_le,
     br_readI32 = list_take 4 get_le,
     br_readU64 = list_take 8 get_le,
     br_readBool = list_take 1 (\<lambda>bs. hd bs \<noteq> 0),
     br_readBytes = (\<lambda>r n. list_take n (\<lambda>bs. bs) r),
     br_readString = (\<lambda>r. unwrap (list_take 2 get_le r)
        (\<lambda>(n :: u16, r'). list_take (unat n) (\<lambda>bs. bs) r')),
     br_skip = (\<lambda>r n. unwrap (list_take n (\<lambda>bs. bs) r) (\<lambda>(_, r'). Inr r')),
     br_readToEnd = (\<lambda>r. (r, [])),
     br_remainingSize = length\<rparr>"

type_synonym list_writer_state = "bytes \<times> nat"

definition list_put :: "list_writer_state \<Rightarrow> bytes \<Rightarrow> list_writer_state" where
  "list_put w bs = (memcpy_at (fst w) (snd w) bs, snd w + length bs)"

definition list_writer :: "list_writer_state byte_writer" where
  "list_writer = \<lparr>bw_new = ([], 0),
     bw_writeU8 = (\<lambda>w b. list_put w [b]),
     bw_writeU16 = (\<lambda>w x. list_put w (put_le 2 x)),
     bw_writeU32 = (\<lambda>w x. list_put w (put_le 4 x)),
     bw_writeU64 = (\<lambda>w x. list_put w (put_le 8 x)),
     bw_writeBytes = list_put,
     bw_written = fst,
     bw_position = snd,
     bw_setPosition = (\<lambda>w n. (fst w, if n \<le> length (fst w) then n else snd w)),
     bw_performAt = (\<lambda>w pos f. if pos \<le> length (fst w)
        then Inr (fst (f (fst w, pos)), snd w) else Inl (Failed ''out of range''))\<rparr>"

definition list_rest :: "bytes \<Rightarrow> bytes" where
  "list_rest r = r"

definition list_adv :: "bytes \<Rightarrow> nat \<Rightarrow> bytes" where
  "list_adv r n = drop n r"

interpretation le: codec_laws le_codec
  by unfold_locales
    (simp_all add: le_codec_def get_put_le take_bit_word_eq_self)

interpretation list_rd: byte_reader_string_laws list_reader le_codec list_rest list_adv
  by unfold_locales
    (auto simp: list_rest_def list_adv_def list_reader_def le_codec_def list_take_def hd_conv_nth take_hd_drop
       hd_take add.commute)

lemma memcpy_at_end [simp]: "memcpy_at bs (length bs) cs = bs @ cs"
  by (simp add: memcpy_at_def)

interpretation list_wr: byte_writer_laws list_writer le_codec
  by unfold_locales
    (auto simp: list_writer_def list_put_def le_codec_def)

interpretation ref: dbuf_laws le_codec list_reader list_rest list_adv list_writer
  by unfold_locales

lemmas list_codec_defs = list_reader_def list_writer_def list_take_def list_put_def
  le_codec_def memcpy_at_def

end
