(* ===== verification/Protocol.thy ===== *)
theory Protocol
  imports Dbuf
begin

text \<open>
  The protocol constants of \<open>include/qunet/protocol/constants.hpp\<close> and the error texts of
  \<open>src/protocol/errors.cpp\<close>.  A constant keeps its C++ name and width; the \<open>size_t\<close> masks
  are applied to the header byte, so they are bytes here.
\<close>

record ProtocolVersion =
  pv_major :: u16
  pv_minor :: u16

definition ProtocolVersion_isCompatibleWith :: "ProtocolVersion \<Rightarrow> ProtocolVersion \<Rightarrow> bool" where
  "ProtocolVersion_isCompatibleWith v other \<longleftrightarrow> pv_major v = pv_major other"

definition PROTOCOL_VERSION :: ProtocolVersion where
  "PROTOCOL_VERSION = \<lparr>pv_major = 1, pv_minor = 2\<rparr>"

definition MSG_PING :: u8 where [simp]: "MSG_PING = 1"
definition MSG_PONG :: u8 where [simp]: "MSG_PONG = 2"
definition MSG_KEEPALIVE :: u8 where [simp]: "MSG_KEEPALIVE = 3"
definition MSG_KEEPALIVE_RESPONSE :: u8 where [simp]: "MSG_KEEPALIVE_RESPONSE = 4"
definition MSG_HANDSHAKE_START :: u8 where [simp]: "MSG_HANDSHAKE_START = 5"
definition MSG_HANDSHAKE_FINISH :: u8 where [simp]: "MSG_HANDSHAKE_FINISH = 6"
definition MSG_HANDSHAKE_FAILURE :: u8 where [simp]: "MSG_HANDSHAKE_FAILURE = 7"
definition MSG_CLIENT_CLOSE :: u8 where [simp]: "MSG_CLIENT_CLOSE = 8"
definition MSG_SERVER_CLOSE :: u8 where [simp]: "MSG_SERVER_CLOSE = 9"
definition MSG_CLIENT_RECONNECT :: u8 where [simp]: "MSG_CLIENT_RECONNECT = 10"
definition MSG_CONNECTION_ERROR :: u8 where [simp]: "MSG_CONNECTION_ERROR = 11"
definition MSG_QDB_CHUNK_REQUEST :: u8 where [simp]: "MSG_QDB_CHUNK_REQUEST = 12"
definition MSG_QDB_CHUNK_RESPONSE :: u8 where [simp]: "MSG_QDB_CHUNK_RESPONSE = 13"
definition MSG_RECONNECT_SUCCESS :: u8 where [simp]: "MSG_RECONNECT_SUCCESS = 14"
definition MSG_RECONNECT_FAILURE :: u8 where [simp]: "MSG_RECONNECT_FAILURE = 15"
definition MSG_CONNECTION_CONTROL :: u8 where [simp]: "MSG_CONNECTION_CONTROL = 16"
definition MSG_PADDING :: u8 where [simp]: "MSG_PADDING = 127"
definition MSG_DATA :: u8 where [simp]: "MSG_DATA = 0x80"
definition MSG_DATA_MASK :: u8 where [simp]: "MSG_DATA_MASK = MSG_DATA"
definition MSG_DATA_BIT_COMPRESSION_1 :: nat where [simp]: "MSG_DATA_BIT_COMPRESSION_1 = 0"
definition MSG_DATA_BOUNDARY_MASK :: u8 where [simp]: "MSG_DATA_BOUNDARY_MASK = 8"
definition MSG_DATA_RELIABILITY_MASK :: u8 where [simp]: "MSG_DATA_RELIABILITY_MASK = 16"
definition MSG_DATA_FRAGMENTATION_MASK :: u8 where [simp]: "MSG_DATA_FRAGMENTATION_MASK = 32"
definition MSG_DATA_LAST_FRAGMENT_MASK :: u16 where
  [simp]: "MSG_DATA_LAST_FRAGMENT_MASK = 0x8000"
definition MSG_ZSTD_COMPRESSION_LEVEL :: int where [simp]: "MSG_ZSTD_COMPRESSION_LEVEL = 2"

definition PROTO_TCP :: u8 where [simp]: "PROTO_TCP = 1"
definition PROTO_UDP :: u8 where [simp]: "PROTO_UDP = 2"
definition PROTO_QUIC :: u8 where [simp]: "PROTO_QUIC = 3"
definition PROTO_WEBSOCKET :: u8 where [simp]: "PROTO_WEBSOCKET = 4"

definition QUNET_CONNCTL_SET_MTU :: u16 where [simp]: "QUNET_CONNCTL_SET_MTU = 1"
definition QUNET_CONNCTL_PMTUD_PROBE :: u16 where [simp]: "QUNET_CONNCTL_PMTUD_PROBE = 0x40"

definition DEFAULT_PORT :: u16 where [simp]: "DEFAULT_PORT = 4340"
definition UDP_MAX_ALLOWED_MTU :: nat where [simp]: "UDP_MAX_ALLOWED_MTU = 1400"
definition UDP_SAFE_MTU :: nat where [simp]: "UDP_SAFE_MTU = 1200"

section \<open>Error texts\<close>

definition messageForConnectionError :: "int \<Rightarrow> string" where
  "messageForConnectionError code =
     (if code = 1 then ''Fragmentation not allowed''
      else if code = 2 then ''Requested QDB chunk is too long''
      else if code = 3 then ''Requested QDB chunk is invalid (offset/length are out of bounds)''
      else if code = 4 then ''Client requested a QDB chunk but a QDB isn't available''
      else if code = 5 then ''Protocol violation: client send a malformed zero-length message''
      else if code = 6 then ''Protocol violation: client sent a stream message that exceeds the maximum allowed length''
      else if code = 7 then ''Internal server error''
      else if code = 8 then ''Server is shutting down''
      else if code = 9 then ''Rate limit exceeded, client sent too many messages in a short period''
      else [])"

definition messageForServerCloseError :: "int \<Rightarrow> string" where
  "messageForServerCloseError code = messageForConnectionError code"

definition messageForHandshakeError :: "int \<Rightarrow> string" where
  "messageForHandshakeError code =
     (if code = 1 then ''Client qunet version is too old''
      else if code = 2 then ''Client qunet version is too new''
      else if code = 3 then ''Reconnect failed, unknown connection ID''
      else if code = 4 then ''Duplicate connection detected from the same address''
      else [])"

lemma messageForConnectionError_empty:
  "messageForConnectionError code = [] \<longleftrightarrow> code < 1 \<or> 9 < code"
  by (auto simp: messageForConnectionError_def)

lemma messageForHandshakeError_empty:
  "messageForHandshakeError code = [] \<longleftrightarrow> code < 1 \<or> 4 < code"
  by (auto simp: messageForHandshakeError_def)

end
