(* ===== verification/Messages.thy ===== *)
theory Messages
  imports Protocol
begin

text \<open>
  The message structures of \<open>include/qunet/socket/message/messages.hpp\<close> and \<open>meta.hpp\<close>, the
  variant \<open>QunetMessage\<close>, and the encoder and decoder of every message kind.  The encoders
  take the writer operations \<open>W\<close> and a writer state, the decoders the reader operations \<open>R\<close>
  and a reader state.  The C array \<open>acks[8]\<close> of a reliability header is the list of its
  initialised elements.
\<close>

section \<open>Structures\<close>

datatype CompressionType = CT_None | CT_Zstd | CT_ZstdNoDict | CT_Lz4

fun CompressionType_value :: "CompressionType \<Rightarrow> u8" where
  "CompressionType_value CT_None = 0"
| "CompressionType_value CT_Zstd = 1"
| "CompressionType_value CT_ZstdNoDict = 2"
| "CompressionType_value CT_Lz4 = 3"

fun CompressionType_format :: "CompressionType \<Rightarrow> string" where
  "CompressionType_format CT_None = ''None''"
| "CompressionType_format CT_Zstd = ''Zstd''"
| "CompressionType_format CT_ZstdNoDict = ''Zstd (no dict)''"
| "CompressionType_format CT_Lz4 = ''Lz4''"

record CompressionHeader =
  ch_type :: CompressionType
  ch_uncompressedSize :: u32

record ReliabilityHeader =
  rh_messageId :: u16
  rh_ackCount :: nat
  rh_acks :: "u16 list"

record FragmentationHeader =
  fh_messageId :: u16
  fh_fragmentIndex :: u16
  fh_lastFragment :: bool

record QunetMessageMeta =
  mm_type :: u8
  mm_compressionHeader :: "CompressionHeader option"
  mm_reliabilityHeader :: "ReliabilityHeader option"
  mm_fragmentationHeader :: "FragmentationHeader option"
  mm_data :: bytes
  mm_dataOffset :: nat

record HandshakeStartMessage =
  hs_protocolVersion :: ProtocolVersion
  hs_fragLimit :: u16
  hs_qdbHash :: bytes

record QdbData =
  qd_uncompressedSize :: u32
  qd_compressedSize :: u32
  qd_chunkOffset :: u32
  qd_chunkSize :: u32
  qd_chunkData :: bytes

record HandshakeFinishMessage =
  hf_connectionId :: u64
  hf_qdbData :: "QdbData option"

record HandshakeFailureMessage =
  hx_errorCode :: u32
  hx_errorMessage :: bytes

record ServerCloseMessage =
  sc_errorCode :: u32
  sc_errorMessage :: bytes

datatype ConnectionControlMessage = PMTUDProbe bytes | SetMTU u16

record DataMessage =
  dm_data :: bytes
  dm_compHeader :: "CompressionHeader option"
  dm_relHeader :: "ReliabilityHeader option"

datatype QunetMessage =
    KeepaliveMessage u64
  | KeepaliveResponseMessage u64 bytes
  | HandshakeStart HandshakeStartMessage
  | HandshakeFinish HandshakeFinishMessage
  | HandshakeFailure HandshakeFailureMessage
  | ClientCloseMessage
  | ServerClose ServerCloseMessage
  | ClientReconnectMessage u64
  | ConnectionErrorMessage u32
  | ReconnectSuccessMessage
  | ReconnectFailureMessage
  | ConnectionControl ConnectionControlMessage
  | PaddingMessage
  | Data DataMessage

fun is_DataMessage :: "QunetMessage \<Rightarrow> bool" where
  "is_DataMessage (Data _) = True"
| "is_DataMessage _ = False"

section \<open>Error texts of the received messages\<close>

text \<open>A \<open>std::string\<close> is a sequence of bytes; \<open>fmt\<close> is the decimal rendering of a code, done by
  the \<open>fmt\<close> package.  \<open>message()\<close> overwrites the stored text of an unknown code.\<close>

definition chars_of :: "string \<Rightarrow> bytes" where
  "chars_of = map of_char"

definition HandshakeFailureMessage_message ::
    "(u32 \<Rightarrow> string) \<Rightarrow> HandshakeFailureMessage \<Rightarrow> bytes \<times> HandshakeFailureMessage" where
  "HandshakeFailureMessage_message fmt m =
     (if hx_errorCode m = 0 then (hx_errorMessage m, m)
      else let err = messageForHandshakeError (sint (hx_errorCode m)) in
        if err = [] then
          let m' = m\<lparr>hx_errorMessage :=
                 chars_of (''Unknown handshake error code: '' @ fmt (hx_errorCode m))\<rparr>
          in (hx_errorMessage m', m')
        else (chars_of err, m))"

definition ServerCloseMessage_message ::
    "(u32 \<Rightarrow> string) \<Rightarrow> ServerCloseMessage \<Rightarrow> bytes \<times> ServerCloseMessage" where
  "ServerCloseMessage_message fmt m =
     (if sc_errorCode m = 0 then (sc_errorMessage m, m)
      else let err = messageForServerCloseError (sint (sc_errorCode m)) in
        if err = [] then
          let m' = m\<lparr>sc_errorMessage :=
                 chars_of (''Unknown server close error code: '' @ fmt (sc_errorCode m))\<rparr>
          in (sc_errorMessage m', m')
        else (chars_of err, m))"

text \<open>The text of an unknown connection error code is a function-local \<open>static thread_local\<close>:
  it is built once per thread.  The first argument is that variable (\<open>None\<close> before its
  initialisation); the result carries its new value.\<close>

definition ConnectionErrorMessage_message ::
    "(u32 \<Rightarrow> string) \<Rightarrow> bytes option \<Rightarrow> u32 \<Rightarrow> bytes \<times> bytes option" where
  "ConnectionErrorMessage_message fmt cached errorCode =
     (let err = messageForConnectionError (sint errorCode) in
      if err = [] then
        let message = (case cached of
              None \<Rightarrow> chars_of (''Unknown server close error code: '' @ fmt errorCode)
            | Some m \<Rightarrow> m)
        in (message, Some message)
      else (chars_of err, cached))"

section \<open>Encoders\<close>

definition KeepaliveMessage_encode :: "'w byte_writer \<Rightarrow> u64 \<Rightarrow> 'w \<Rightarrow> (string, 'w) outcome" where
  "KeepaliveMessage_encode W timestamp w = Ok (bw_writeU8 W (bw_writeU64 W w timestamp) 0)"

definition HandshakeStartMessage_encode ::
    "'w byte_writer \<Rightarrow> HandshakeStartMessage \<Rightarrow> 'w \<Rightarrow> (string, 'w) outcome" where
  "HandshakeStartMessage_encode W m w =
     (let w = bw_writeU16 W w (pv_major (hs_protocolVersion m));
          w = bw_writeU16 W w (pv_minor (hs_protocolVersion m));
          w = bw_writeU16 W w (hs_fragLimit m)
      in Ok (bw_writeBytes W w (hs_qdbHash m)))"

definition ClientCloseMessage_encode :: "'w byte_writer \<Rightarrow> 'w \<Rightarrow> (string, 'w) outcome" where
  "ClientCloseMessage_encode W w = Ok (bw_writeU8 W w 0)"

definition ClientReconnectMessage_encode ::
    "'w byte_writer \<Rightarrow> u64 \<Rightarrow> 'w \<Rightarrow> (string, 'w) outcome" where
  "ClientReconnectMessage_encode W connectionId w = Ok (bw_writeU64 W w connectionId)"

definition ConnectionErrorMessage_encode ::
    "'w byte_writer \<Rightarrow> u32 \<Rightarrow> 'w \<Rightarrow> (string, 'w) outcome" where
  "ConnectionErrorMessage_encode W errorCode w = Ok (bw_writeU32 W w errorCode)"

fun ConnectionControlMessage_encode ::
    "'w byte_writer \<Rightarrow> ConnectionControlMessage \<Rightarrow> 'w \<Rightarrow> (string, 'w) outcome" where
  "ConnectionControlMessage_encode W (SetMTU mtu) w =
     Ok (bw_writeU16 W (bw_writeU8 W w (ucast QUNET_CONNCTL_SET_MTU)) mtu)"
| "ConnectionControlMessage_encode W (PMTUDProbe bs) w =
     (let w = bw_writeU8 W w (ucast QUNET_CONNCTL_PMTUD_PROBE);
          w = bw_writeU16 W w (of_nat (length bs))
      in Ok (bw_writeBytes W w bs))"

definition DataMessage_encode :: "'w byte_writer \<Rightarrow> DataMessage \<Rightarrow> 'w \<Rightarrow> (string, 'w) outcome" where
  "DataMessage_encode W m w = Ok (bw_writeBytes W w (dm_data m))"

text \<open>\<open>QunetMessage::encode\<close> visits the variant; \<open>QN_NO_ENCODE\<close> kinds fail an assertion.\<close>

fun QunetMessage_encode :: "'w byte_writer \<Rightarrow> QunetMessage \<Rightarrow> 'w \<Rightarrow> (string, 'w) outcome" where
  "QunetMessage_encode W (KeepaliveMessage t) w = KeepaliveMessage_encode W t w"
| "QunetMessage_encode W (HandshakeStart m) w = HandshakeStartMessage_encode W m w"
| "QunetMessage_encode W ClientCloseMessage w = ClientCloseMessage_encode W w"
| "QunetMessage_encode W (ClientReconnectMessage c) w = ClientReconnectMessage_encode W c w"
| "QunetMessage_encode W (ConnectionErrorMessage c) w = ConnectionErrorMessage_encode W c w"
| "QunetMessage_encode W (ConnectionControl m) w = ConnectionControlMessage_encode W m w"
| "QunetMessage_encode W (Data m) w = DataMessage_encode W m w"
| "QunetMessage_encode W (KeepaliveResponseMessage _ _) w = Inl AssertionFailed"
| "QunetMessage_encode W (HandshakeFinish _) w = Inl AssertionFailed"
| "QunetMessage_encode W (HandshakeFailure _) w = Inl AssertionFailed"
| "QunetMessage_encode W (ServerClose _) w = Inl AssertionFailed"
| "QunetMessage_encode W ReconnectSuccessMessage w = Inl AssertionFailed"
| "QunetMessage_encode W ReconnectFailureMessage w = Inl AssertionFailed"
| "QunetMessage_encode W PaddingMessage w = Inl AssertionFailed"

lemmas encode_defs = KeepaliveMessage_encode_def HandshakeStartMessage_encode_def
  ClientCloseMessage_encode_def ClientReconnectMessage_encode_def
  ConnectionErrorMessage_encode_def DataMessage_encode_def

section \<open>Decoders\<close>

definition KeepaliveMessage_decode ::
    "'r byte_reader \<Rightarrow> 'r \<Rightarrow> (string, QunetMessage \<times> 'r) outcome" where
  "KeepaliveMessage_decode R r =
     unwrap (br_readU64 R r) (\<lambda>(timestamp, r).
     unwrap (br_readU8 R r) (\<lambda>(flags, r).
     Ok (KeepaliveMessage timestamp, r)))"

definition KeepaliveResponseMessage_decode ::
    "'r byte_reader \<Rightarrow> 'r \<Rightarrow> (string, QunetMessage \<times> 'r) outcome" where
  "KeepaliveResponseMessage_decode R r =
     unwrap (br_readU64 R r) (\<lambda>(timestamp, r).
     unwrap (br_readU16 R r) (\<lambda>(dataSize, r).
     if 0 < dataSize then
       unwrap (br_readBytes R r (unat dataSize)) (\<lambda>(bs, r).
       Ok (KeepaliveResponseMessage timestamp bs, r))
     else Ok (KeepaliveResponseMessage timestamp [], r)))"

definition HandshakeFinishMessage_decode ::
    "'r byte_reader \<Rightarrow> 'r \<Rightarrow> (string, QunetMessage \<times> 'r) outcome" where
  "HandshakeFinishMessage_decode R r =
     unwrap (br_readU64 R r) (\<lambda>(connectionId, r).
     unwrap (br_readBool R r) (\<lambda>(hasQdb, r).
     if hasQdb then
       unwrap (br_readU32 R r) (\<lambda>(uncompressedSize, r).
       unwrap (br_readU32 R r) (\<lambda>(compressedSize, r).
       unwrap (br_readU32 R r) (\<lambda>(chunkOffset, r).
       unwrap (br_readU32 R r) (\<lambda>(chunkSize, r).
       unwrap (if 0 < chunkSize then br_readBytes R r (unat chunkSize) else Ok ([], r))
         (\<lambda>(chunkData, r).
       Ok (HandshakeFinish \<lparr>hf_connectionId = connectionId,
             hf_qdbData = Some \<lparr>qd_uncompressedSize = uncompressedSize,
               qd_compressedSize = compressedSize, qd_chunkOffset = chunkOffset,
               qd_chunkSize = chunkSize, qd_chunkData = chunkData\<rparr>\<rparr>, r))))))
     else Ok (HandshakeFinish \<lparr>hf_connectionId = connectionId, hf_qdbData = None\<rparr>, r)))"

definition HandshakeFailureMessage_decode ::
    "'r byte_reader \<Rightarrow> 'r \<Rightarrow> (string, QunetMessage \<times> 'r) outcome" where
  "HandshakeFailureMessage_decode R r =
     unwrap (br_readU32 R r) (\<lambda>(errorCode, r).
     if errorCode = 0 then
       unwrap (br_readString R r) (\<lambda>(s, r).
       Ok (HandshakeFailure \<lparr>hx_errorCode = errorCode, hx_errorMessage = s\<rparr>, r))
     else Ok (HandshakeFailure \<lparr>hx_errorCode = errorCode, hx_errorMessage = []\<rparr>, r))"

definition ServerCloseMessage_decode ::
    "'r byte_reader \<Rightarrow> 'r \<Rightarrow> (string, QunetMessage \<times> 'r) outcome" where
  "ServerCloseMessage_decode R r =
     unwrap (br_readU32 R r) (\<lambda>(errorCode, r).
     if errorCode = 0 then
       unwrap (br_readString R r) (\<lambda>(s, r).
       Ok (ServerClose \<lparr>sc_errorCode = errorCode, sc_errorMessage = s\<rparr>, r))
     else Ok (ServerClose \<lparr>sc_errorCode = errorCode, sc_errorMessage = []\<rparr>, r))"

definition ConnectionErrorMessage_decode ::
    "'r byte_reader \<Rightarrow> 'r \<Rightarrow> (string, QunetMessage \<times> 'r) outcome" where
  "ConnectionErrorMessage_decode R r =
     unwrap (br_readU32 R r) (\<lambda>(errorCode, r). Ok (ConnectionErrorMessage errorCode, r))"

text \<open>The 16-bit code is stored in a \<open>uint8_t\<close> before the switch.\<close>

definition ConnectionControlMessage_decode ::
    "'r byte_reader \<Rightarrow> 'r \<Rightarrow> (string, QunetMessage \<times> 'r) outcome" where
  "ConnectionControlMessage_decode R r =
     unwrap (br_readU16 R r) (\<lambda>(code, r).
     let type = (ucast code :: u8) in
     if (ucast type :: u16) = QUNET_CONNCTL_SET_MTU then
       unwrap (br_readU16 R r) (\<lambda>(mtu, r). Ok (ConnectionControl (SetMTU mtu), r))
     else if (ucast type :: u16) = QUNET_CONNCTL_PMTUD_PROBE then
       unwrap (br_readU16 R r) (\<lambda>(sz, r).
       unwrap (br_readBytes R r (unat sz)) (\<lambda>(bs, r).
       Ok (ConnectionControl (PMTUDProbe bs), r)))
     else Err ''Unknown connection control message type'')"

definition DataMessage_decode ::
    "'r byte_reader \<Rightarrow> 'r \<Rightarrow> (string, QunetMessage \<times> 'r) outcome" where
  "DataMessage_decode R r =
     (case br_readToEnd R r of (bs, r) \<Rightarrow>
        Ok (Data \<lparr>dm_data = bs, dm_compHeader = None, dm_relHeader = None\<rparr>, r))"

lemmas decode_defs = KeepaliveMessage_decode_def KeepaliveResponseMessage_decode_def
  HandshakeFinishMessage_decode_def HandshakeFailureMessage_decode_def
  ServerCloseMessage_decode_def ConnectionErrorMessage_decode_def
  ConnectionControlMessage_decode_def DataMessage_decode_def

end
