(* ===== verification/Qunet_Message.thy ===== *)
theory Qunet_Message
  imports Messages
begin

text \<open>
  \<open>src/socket/message/QunetMessage.cpp\<close>: the message header, the decoding of a message in two
  stages (\<open>decodeMeta\<close> delimits the message and reads the optional headers, \<open>decodeWithMeta\<close>
  parses the body of a control message), and the iterator over the messages batched in one
  datagram.  Debug assertions (\<open>QN_DEBUG_ASSERT\<close>) are those of a release build: no code.
\<close>

datatype MessageDecodeError = InvalidMessageType | InvalidData | InvalidConnCtlCode | NotEnoughData

fun MessageDecodeError_message :: "MessageDecodeError \<Rightarrow> string" where
  "MessageDecodeError_message InvalidMessageType = ''Invalid message type''"
| "MessageDecodeError_message InvalidData = ''Invalid data in message''"
| "MessageDecodeError_message InvalidConnCtlCode = ''Invalid connection control code''"
| "MessageDecodeError_message NotEnoughData = ''Not enough data to decode message''"

section \<open>Headers\<close>

fun typeStr :: "QunetMessage \<Rightarrow> string" where
  "typeStr (KeepaliveMessage _) = ''KeepaliveMessage''"
| "typeStr (KeepaliveResponseMessage _ _) = ''KeepaliveResponseMessage''"
| "typeStr (HandshakeStart _) = ''HandshakeStartMessage''"
| "typeStr (HandshakeFinish _) = ''HandshakeFinishMessage''"
| "typeStr (HandshakeFailure _) = ''HandshakeFailureMessage''"
| "typeStr ClientCloseMessage = ''ClientCloseMessage''"
| "typeStr (ServerClose _) = ''ServerCloseMessage''"
| "typeStr (ClientReconnectMessage _) = ''ClientReconnectMessage''"
| "typeStr (ConnectionErrorMessage _) = ''ConnectionErrorMessage''"
| "typeStr ReconnectSuccessMessage = ''ReconnectSuccessMessage''"
| "typeStr ReconnectFailureMessage = ''ReconnectFailureMessage''"
| "typeStr (ConnectionControl _) = ''ConnectionControlMessage''"
| "typeStr (Data _) = ''DataMessage''"
| "typeStr PaddingMessage = ''UnknownMessageType''"

fun headerByte :: "QunetMessage \<Rightarrow> ('e, u8) outcome" where
  "headerByte (Data _) = Ok MSG_DATA"
| "headerByte (KeepaliveMessage _) = Ok MSG_KEEPALIVE"
| "headerByte (KeepaliveResponseMessage _ _) = Ok MSG_KEEPALIVE_RESPONSE"
| "headerByte (HandshakeStart _) = Ok MSG_HANDSHAKE_START"
| "headerByte (HandshakeFinish _) = Ok MSG_HANDSHAKE_FINISH"
| "headerByte (HandshakeFailure _) = Ok MSG_HANDSHAKE_FAILURE"
| "headerByte ClientCloseMessage = Ok MSG_CLIENT_CLOSE"
| "headerByte (ServerClose _) = Ok MSG_SERVER_CLOSE"
| "headerByte (ClientReconnectMessage _) = Ok MSG_CLIENT_RECONNECT"
| "headerByte (ConnectionErrorMessage _) = Ok MSG_CONNECTION_ERROR"
| "headerByte (ConnectionControl _) = Ok MSG_CONNECTION_CONTROL"
| "headerByte ReconnectSuccessMessage = Inl AssertionFailed"
| "headerByte ReconnectFailureMessage = Inl AssertionFailed"
| "headerByte PaddingMessage = Inl AssertionFailed"

definition encodeControlHeader ::
    "'w byte_writer \<Rightarrow> QunetMessage \<Rightarrow> u64 \<Rightarrow> 'w \<Rightarrow> (string, 'w) outcome" where
  "encodeControlHeader W m connectionId w =
     unwrap (headerByte m) (\<lambda>hb.
     let w = bw_writeU8 W w hb in
     Ok (if connectionId \<noteq> 0 then bw_writeU64 W w connectionId else w))"

definition encodeControlMsg ::
    "'w byte_writer \<Rightarrow> QunetMessage \<Rightarrow> u64 \<Rightarrow> 'w \<Rightarrow> (string, 'w) outcome" where
  "encodeControlMsg W m connectionId w =
     unwrap (encodeControlHeader W m connectionId w) (\<lambda>w. QunetMessage_encode W m w)"

text \<open>The loop over the acknowledged ids, bounded by the count and by 8.\<close>

fun writeAcks :: "'w byte_writer \<Rightarrow> u16 list \<Rightarrow> nat \<Rightarrow> nat \<Rightarrow> 'w \<Rightarrow> (string, 'w) outcome" where
  "writeAcks W acks n 0 w = Ok w"
| "writeAcks W acks n (Suc k) w =
     unwrap (at acks n) (\<lambda>a. writeAcks W acks (Suc n) k (bw_writeU16 W w a))"

definition encodeDataHeader ::
    "'w byte_writer \<Rightarrow> QunetMessage \<Rightarrow> u64 \<Rightarrow> bool \<Rightarrow> 'w \<Rightarrow> (string, 'w) outcome" where
  "encodeDataHeader W m connectionId omitHeaders w =
     (case m of Data msg \<Rightarrow>
        let hdr = MSG_DATA;
            hdr = (if \<not> omitHeaders then
                     (let hdr = (case dm_compHeader msg of None \<Rightarrow> hdr
                        | Some ch \<Rightarrow> hdr OR push_bit MSG_DATA_BIT_COMPRESSION_1
                            (CompressionType_value (ch_type ch)))
                      in (case dm_relHeader msg of None \<Rightarrow> hdr
                        | Some _ \<Rightarrow> hdr OR MSG_DATA_RELIABILITY_MASK))
                   else hdr);
            w = bw_writeU8 W w hdr
        in if \<not> omitHeaders then
             let w = (case dm_compHeader msg of None \<Rightarrow> w
                      | Some ch \<Rightarrow> bw_writeU32 W w (ch_uncompressedSize ch));
                 w = (if connectionId \<noteq> 0 then bw_writeU64 W w connectionId else w)
             in (case dm_relHeader msg of None \<Rightarrow> Ok w
                 | Some rh \<Rightarrow>
                   let w = bw_writeU16 W w (rh_messageId rh);
                       w = bw_writeU16 W w (of_nat (rh_ackCount rh))
                   in writeAcks W (rh_acks rh) 0 (min (rh_ackCount rh) 8) w)
           else Ok (if connectionId \<noteq> 0 then bw_writeU64 W w connectionId else w)
      | _ \<Rightarrow> Inl AssertionFailed)"

section \<open>Decoding the body of a control message\<close>

text \<open>\<open>MAP_UNWRAP\<close>: any reader error becomes \<open>InvalidData\<close>.\<close>

abbreviation MAP_UNWRAP ::
    "(string, 'a) outcome \<Rightarrow> ('a \<Rightarrow> (MessageDecodeError, 'b) outcome) \<Rightarrow>
     (MessageDecodeError, 'b) outcome" where
  "MAP_UNWRAP r k \<equiv> unwrap (mapErr (\<lambda>_. InvalidData) r) k"

definition decodeWithMeta ::
    "'r byte_reader \<Rightarrow> QunetMessageMeta \<Rightarrow> (MessageDecodeError, QunetMessage) outcome" where
  "decodeWithMeta R meta =
     (let msgType = mm_type meta in
      if msgType AND MSG_DATA_MASK \<noteq> 0 then Err InvalidMessageType
      else
        let reader = br_open R (mm_data meta);
            run = (\<lambda>d. MAP_UNWRAP (d R reader) (\<lambda>(m, _). Ok m))
        in if msgType = MSG_KEEPALIVE then run KeepaliveMessage_decode
           else if msgType = MSG_KEEPALIVE_RESPONSE then run KeepaliveResponseMessage_decode
           else if msgType = MSG_HANDSHAKE_FINISH then run HandshakeFinishMessage_decode
           else if msgType = MSG_HANDSHAKE_FAILURE then run HandshakeFailureMessage_decode
           else if msgType = MSG_SERVER_CLOSE then run ServerCloseMessage_decode
           else if msgType = MSG_CONNECTION_ERROR then run ConnectionErrorMessage_decode
           else if msgType = MSG_RECONNECT_SUCCESS then Ok ReconnectSuccessMessage
           else if msgType = MSG_RECONNECT_FAILURE then Ok ReconnectFailureMessage
           else if msgType = MSG_CONNECTION_CONTROL then run ConnectionControlMessage_decode
           else if msgType = MSG_PADDING then Ok PaddingMessage
           else Err InvalidMessageType)"

section \<open>Delimiting a message\<close>

text \<open>The length of the body of a control message.  Where the C++ adds an \<open>int\<close> literal to a
  \<open>uint32_t\<close> length, the sum is a \<open>uint32_t\<close> and wraps; the 16-bit lengths are promoted.\<close>

definition lengthOfText ::
    "'r byte_reader \<Rightarrow> 'r \<Rightarrow> (MessageDecodeError, nat) outcome" where
  "lengthOfText R reader =
     MAP_UNWRAP (br_readU32 R reader) (\<lambda>(code, reader).
     if code = 0 then
       MAP_UNWRAP (br_readU16 R reader) (\<lambda>(len, reader).
       MAP_UNWRAP (br_skip R reader (unat len)) (\<lambda>_.
       Ok (4 + (2 + unat len))))
     else Ok 4)"

definition lengthForNonDataMessage ::
    "'r byte_reader \<Rightarrow> 'r \<Rightarrow> u8 \<Rightarrow> (MessageDecodeError, nat) outcome" where
  "lengthForNonDataMessage R reader hb =
     qn_assert (pv_major PROTOCOL_VERSION = 1 \<and> pv_minor PROTOCOL_VERSION = 2)
     (if hb = MSG_PING then Ok 5
      else if hb = MSG_PONG then
        MAP_UNWRAP (br_skip R reader 4) (\<lambda>reader.
        MAP_UNWRAP (br_readU8 R reader) (\<lambda>(protocols, reader).
        MAP_UNWRAP (br_skip R reader (3 * unat protocols)) (\<lambda>reader.
        MAP_UNWRAP (br_readU16 R reader) (\<lambda>(dataLen, reader).
        MAP_UNWRAP (br_skip R reader (unat dataLen)) (\<lambda>_.
        Ok (4 + (1 + 3 * unat protocols) + (2 + unat dataLen)))))))
      else if hb = MSG_KEEPALIVE then Ok 9
      else if hb = MSG_KEEPALIVE_RESPONSE then
        MAP_UNWRAP (br_skip R reader 8) (\<lambda>reader.
        MAP_UNWRAP (br_readU16 R reader) (\<lambda>(dataLen, reader).
        MAP_UNWRAP (br_skip R reader (unat dataLen)) (\<lambda>_.
        Ok (8 + (2 + unat dataLen)))))
      else if hb = MSG_HANDSHAKE_START then Ok (2 + 2 + 2 + 16)
      else if hb = MSG_HANDSHAKE_FINISH then
        MAP_UNWRAP (br_skip R reader 8) (\<lambda>reader.
        MAP_UNWRAP (br_readBool R reader) (\<lambda>(hasQdb, reader).
        if hasQdb then
          MAP_UNWRAP (br_skip R reader 12) (\<lambda>reader.
          MAP_UNWRAP (br_readU32 R reader) (\<lambda>(len, reader).
          MAP_UNWRAP (br_skip R reader (unat len)) (\<lambda>_.
          Ok (8 + 1 + 12 + unat (4 + len)))))
        else Ok (8 + 1)))
      else if hb = MSG_HANDSHAKE_FAILURE then lengthOfText R reader
      else if hb = MSG_CLIENT_CLOSE then Ok 1
      else if hb = MSG_SERVER_CLOSE then lengthOfText R reader
      else if hb = MSG_CLIENT_RECONNECT then Ok 8
      else if hb = MSG_CONNECTION_ERROR then Ok 4
      else if hb = MSG_QDB_CHUNK_REQUEST then Ok 8
      else if hb = MSG_QDB_CHUNK_RESPONSE then
        MAP_UNWRAP (br_skip R reader 4) (\<lambda>reader.
        MAP_UNWRAP (br_readU32 R reader) (\<lambda>(len, reader).
        MAP_UNWRAP (br_skip R reader (unat len)) (\<lambda>_.
        Ok (unat (4 + 4 + len)))))
      else if hb = MSG_RECONNECT_SUCCESS then Ok 0
      else if hb = MSG_RECONNECT_FAILURE then Ok 0
      else if hb = MSG_CONNECTION_CONTROL then
        MAP_UNWRAP (br_readU16 R reader) (\<lambda>(code, reader).
        if code = QUNET_CONNCTL_SET_MTU then
          MAP_UNWRAP (br_skip R reader 2) (\<lambda>_. Ok (2 + 2))
        else if code = QUNET_CONNCTL_PMTUD_PROBE then
          MAP_UNWRAP (br_readU16 R reader) (\<lambda>(len, reader).
          MAP_UNWRAP (br_skip R reader (unat len)) (\<lambda>_.
          Ok (2 + (2 + unat len))))
        else Err InvalidConnCtlCode)
      else if hb = MSG_PADDING then Ok (br_remainingSize R reader)
      else Err InvalidMessageType)"

fun readAcks :: "'r byte_reader \<Rightarrow> nat \<Rightarrow> 'r \<Rightarrow> (MessageDecodeError, u16 list \<times> 'r) outcome" where
  "readAcks R 0 r = Ok ([], r)"
| "readAcks R (Suc n) r =
     MAP_UNWRAP (br_readU16 R r) (\<lambda>(a, r).
     unwrap (readAcks R n r) (\<lambda>(as, r). Ok (a # as, r)))"

definition compressionOf :: "u8 \<Rightarrow> CompressionType" where
  "compressionOf msgType =
     (let v = drop_bit MSG_DATA_BIT_COMPRESSION_1 msgType AND 3 in
      if v = 1 then CT_Zstd else if v = 2 then CT_ZstdNoDict else if v = 3 then CT_Lz4
      else CT_None)"

definition decodeDataMeta ::
    "'r byte_reader \<Rightarrow> u8 \<Rightarrow> nat \<Rightarrow> 'r \<Rightarrow> (MessageDecodeError, QunetMessageMeta) outcome" where
  "decodeDataMeta R msgType dataStart reader =
     (let fragmented = msgType AND MSG_DATA_FRAGMENTATION_MASK \<noteq> 0;
          reliable = msgType AND MSG_DATA_RELIABILITY_MASK \<noteq> 0;
          hasBoundary = msgType AND MSG_DATA_BOUNDARY_MASK \<noteq> 0;
          compressionType = compressionOf msgType
      in
      unwrap (if compressionType \<noteq> CT_None then
                MAP_UNWRAP (br_readU32 R reader) (\<lambda>(sz, reader).
                Ok (Some \<lparr>ch_type = compressionType, ch_uncompressedSize = sz\<rparr>,
                    dataStart + 4, reader))
              else Ok (None, dataStart, reader)) (\<lambda>(comp, dataOffset, reader).
      unwrap (if reliable then
                MAP_UNWRAP (br_readU16 R reader) (\<lambda>(messageId, reader).
                MAP_UNWRAP (br_readU16 R reader) (\<lambda>(ackCount, reader).
                unwrap (readAcks R (min (unat ackCount) 8) reader) (\<lambda>(acks, reader).
                Ok (Some \<lparr>rh_messageId = messageId, rh_ackCount = unat ackCount, rh_acks = acks\<rparr>,
                    dataOffset + (4 + unat ackCount * 2), reader))))
              else Ok (None, dataOffset, reader)) (\<lambda>(rel, dataOffset, reader).
      unwrap (if fragmented then
                MAP_UNWRAP (br_readU16 R reader) (\<lambda>(messageId, reader).
                MAP_UNWRAP (br_readU16 R reader) (\<lambda>(fragmentIndex, reader).
                Ok (Some \<lparr>fh_messageId = messageId,
                      fh_fragmentIndex = fragmentIndex AND 0x7FFF,
                      fh_lastFragment = (fragmentIndex AND 0x8000 \<noteq> 0)\<rparr>,
                    dataOffset + 4, reader)))
              else Ok (None, dataOffset, reader)) (\<lambda>(frag, dataOffset, reader).
      unwrap (if hasBoundary then
                MAP_UNWRAP (br_readU16 R reader) (\<lambda>(b, reader).
                Ok (Some b, dataOffset + 2, reader))
              else Ok (None, dataOffset, reader)) (\<lambda>(boundary, dataOffset, reader).
      let body = fst (br_readToEnd R reader);
          meta = \<lparr>mm_type = MSG_DATA, mm_compressionHeader = comp, mm_reliabilityHeader = rel,
                  mm_fragmentationHeader = frag, mm_data = body, mm_dataOffset = dataOffset\<rparr>
      in (case boundary of
            None \<Rightarrow> Ok meta
          | Some b \<Rightarrow> if length body < unat b then Err InvalidData
                      else Ok (meta\<lparr>mm_data := take (unat b) body\<rparr>)))))))"

definition decodeMeta ::
    "'r byte_reader \<Rightarrow> bytes \<Rightarrow> bool \<Rightarrow> bool \<Rightarrow> (MessageDecodeError, QunetMessageMeta) outcome" where
  "decodeMeta R data udpHeaders udpConnId =
     qn_assert (data \<noteq> [])
     (let msgType = hd data;
          dataStart = (if udpConnId then 9 else 1)
      in if length data < dataStart then Err NotEnoughData
         else
           let body = drop dataStart data;
               reader = br_open R body
           in if msgType AND MSG_DATA_MASK = 0 then
                unwrap (lengthForNonDataMessage R reader msgType) (\<lambda>dataSize.
                if length body < dataSize then Err NotEnoughData
                else Ok \<lparr>mm_type = msgType, mm_compressionHeader = None,
                         mm_reliabilityHeader = None, mm_fragmentationHeader = None,
                         mm_data = take dataSize body, mm_dataOffset = dataStart\<rparr>)
              else decodeDataMeta R msgType dataStart reader)"

section \<open>Messages batched in a datagram\<close>

record QunetUdpMessageIter =
  it_data :: bytes
  it_pos :: nat
  it_eof :: bool
  it_server :: bool

definition QunetUdpMessageIter_new :: "bytes \<Rightarrow> bool \<Rightarrow> QunetUdpMessageIter" where
  "QunetUdpMessageIter_new data server =
     \<lparr>it_data = data, it_pos = 0, it_eof = False, it_server = server\<rparr>"

definition QunetUdpMessageIter_next ::
    "'r byte_reader \<Rightarrow> QunetUdpMessageIter \<Rightarrow>
     (MessageDecodeError, QunetMessageMeta) outcome option \<times> QunetUdpMessageIter" where
  "QunetUdpMessageIter_next R it =
     (if it_eof it \<or> length (it_data it) \<le> it_pos it then (None, it)
      else
        let data = drop (it_pos it) (it_data it);
            expectConnId = (it_pos it = 0 \<and> it_server it)
        in case decodeMeta R data True expectConnId of
             Inl e \<Rightarrow> (Some (Inl e), it)
           | Inr meta \<Rightarrow>
               (Some (Ok meta),
                it\<lparr>it_pos := it_pos it + (mm_dataOffset meta + length (mm_data meta))\<rparr>))"

end
