(* ===== verification/Message_Codec.thy ===== *)
theory Message_Codec
  imports Qunet_Message
begin

text \<open>
  The wire format of the messages: what the encoders write, what the decoders read back, and
  where the two disagree.  The layout is stated once (\<open>wire_comp\<close>, \<open>wire_rel\<close>,
  \<open>wire_frag\<close>) and both sides are proved against it under the laws of the byte codec.
\<close>

section \<open>The layout of a data message\<close>

definition header_bits :: "CompressionHeader option \<Rightarrow> bool \<Rightarrow> bool \<Rightarrow> u8" where
  "header_bits cmp rel frag =
     MSG_DATA OR (case cmp of None \<Rightarrow> 0 | Some ch \<Rightarrow> CompressionType_value (ch_type ch))
     OR (if rel then MSG_DATA_RELIABILITY_MASK else 0)
     OR (if frag then MSG_DATA_FRAGMENTATION_MASK else 0)"

definition wire_comp :: "byte_codec \<Rightarrow> CompressionHeader option \<Rightarrow> bytes" where
  "wire_comp C cmp = (case cmp of None \<Rightarrow> [] | Some ch \<Rightarrow> put32 C (ch_uncompressedSize ch))"

definition sent_acks :: "ReliabilityHeader \<Rightarrow> u16 list" where
  "sent_acks rh = take (min (rh_ackCount rh) 8) (rh_acks rh)"

definition wire_rel :: "byte_codec \<Rightarrow> ReliabilityHeader option \<Rightarrow> bytes" where
  "wire_rel C rel = (case rel of None \<Rightarrow> []
     | Some rh \<Rightarrow> put16 C (rh_messageId rh) @ put16 C (of_nat (rh_ackCount rh))
                  @ concat (map (put16 C) (sent_acks rh)))"

definition frag_word :: "FragmentationHeader \<Rightarrow> u16" where
  "frag_word fh = fh_fragmentIndex fh OR (if fh_lastFragment fh then MSG_DATA_LAST_FRAGMENT_MASK else 0)"

definition wire_frag :: "byte_codec \<Rightarrow> FragmentationHeader option \<Rightarrow> bytes" where
  "wire_frag C frag = (case frag of None \<Rightarrow> []
     | Some fh \<Rightarrow> put16 C (fh_messageId fh) @ put16 C (frag_word fh))"

definition wire_conn :: "byte_codec \<Rightarrow> u64 \<Rightarrow> bytes" where
  "wire_conn C connectionId = (if connectionId = 0 then [] else put64 C connectionId)"

text \<open>Well-formed headers: a compression header names a compression, a reliability header has
  as many acknowledgements as it counts (a 16-bit number), a fragment index leaves the top bit
  free.\<close>

definition wf_comp :: "CompressionHeader option \<Rightarrow> bool" where
  "wf_comp cmp = (case cmp of None \<Rightarrow> True | Some ch \<Rightarrow> ch_type ch \<noteq> CT_None)"

definition wf_rel :: "ReliabilityHeader option \<Rightarrow> bool" where
  "wf_rel rel = (case rel of None \<Rightarrow> True
     | Some rh \<Rightarrow> rh_ackCount rh < 65536 \<and> min (rh_ackCount rh) 8 \<le> length (rh_acks rh))"

definition wf_frag :: "FragmentationHeader option \<Rightarrow> bool" where
  "wf_frag frag = (case frag of None \<Rightarrow> True | Some fh \<Rightarrow> fh_fragmentIndex fh < 0x8000)"

definition acked_rel :: "ReliabilityHeader option \<Rightarrow> ReliabilityHeader option" where
  "acked_rel rel = map_option (\<lambda>rh. rh\<lparr>rh_acks := sent_acks rh\<rparr>) rel"

definition claimed_len :: "CompressionHeader option \<Rightarrow> ReliabilityHeader option \<Rightarrow>
    FragmentationHeader option \<Rightarrow> nat" where
  "claimed_len cmp rel frag =
     (if cmp = None then 0 else 4)
     + (case rel of None \<Rightarrow> 0 | Some rh \<Rightarrow> 4 + rh_ackCount rh * 2)
     + (if frag = None then 0 else 4)"

lemmas wf_defs = wf_comp_def wf_rel_def wf_frag_def
lemmas wire_defs = wire_comp_def wire_rel_def wire_frag_def

lemma length_sent_acks:
  "wf_rel (Some rh) \<Longrightarrow> length (sent_acks rh) = min (rh_ackCount rh) 8"
  by (simp add: wf_rel_def sent_acks_def)

lemma header_bits_data: "header_bits cmp rel frag AND MSG_DATA_MASK \<noteq> 0"
  by (cases cmp; cases "ch_type (the cmp)"; cases rel; cases frag)
    (simp_all add: header_bits_def)

lemma header_bits_rel: "header_bits cmp rel frag AND MSG_DATA_RELIABILITY_MASK \<noteq> 0 \<longleftrightarrow> rel"
  by (cases cmp; cases "ch_type (the cmp)"; cases rel; cases frag)
    (simp_all add: header_bits_def)

lemma header_bits_frag: "header_bits cmp rel frag AND MSG_DATA_FRAGMENTATION_MASK \<noteq> 0 \<longleftrightarrow> frag"
  by (cases cmp; cases "ch_type (the cmp)"; cases rel; cases frag)
    (simp_all add: header_bits_def)

lemma header_bits_boundary: "header_bits cmp rel frag AND MSG_DATA_BOUNDARY_MASK = 0"
  by (cases cmp; cases "ch_type (the cmp)"; cases rel; cases frag)
    (simp_all add: header_bits_def)

lemma header_bits_comp:
  "compressionOf (header_bits cmp rel frag)
     = (case cmp of None \<Rightarrow> CT_None | Some ch \<Rightarrow> ch_type ch)"
  by (cases cmp; cases "ch_type (the cmp)"; cases rel; cases frag)
    (simp_all add: header_bits_def compressionOf_def)

lemmas header_bits_simps = header_bits_data header_bits_rel header_bits_frag
  header_bits_boundary header_bits_comp

lemma mask15_self:
  assumes "x < (0x8000 :: u16)"
  shows "x AND 0x7FFF = x"
proof -
  have m: "(0x7FFF :: u16) = mask 15"
    by (simp add: mask_eq_exp_minus_1)
  have "take_bit 15 (unat x) = unat x"
    using assms by (simp add: take_bit_nat_eq_self_iff word_less_nat_alt)
  then have "take_bit 15 x = x"
    by (metis unsigned_take_bit_eq word_unat_eq_iff)
  then show ?thesis
    by (simp add: m flip: take_bit_eq_mask)
qed

lemma frag_word_index:
  assumes "fh_fragmentIndex fh < 0x8000"
  shows "frag_word fh AND 0x7FFF = fh_fragmentIndex fh"
  using mask15_self [OF assms] by (simp add: frag_word_def bit.conj_disj_distrib2)

lemma frag_word_last:
  assumes "fh_fragmentIndex fh < 0x8000"
  shows "frag_word fh AND 0x8000 \<noteq> 0 \<longleftrightarrow> fh_lastFragment fh"
proof -
  have "fh_fragmentIndex fh AND 0x8000 = (fh_fragmentIndex fh AND 0x7FFF) AND 0x8000"
    using mask15_self [OF assms] by simp
  also have "\<dots> = 0"
    by (simp add: and.assoc)
  finally show ?thesis
    by (simp add: frag_word_def bit.conj_disj_distrib2)
qed

section \<open>The two branches of decodeMeta\<close>

lemma decodeMeta_control:
  assumes "b AND MSG_DATA_MASK = 0" "length conn = (if c then 8 else 0)"
  shows "decodeMeta R (b # conn @ body) u c =
     unwrap (lengthForNonDataMessage R (br_open R body) b) (\<lambda>n.
       if length body < n then Err NotEnoughData
       else Ok \<lparr>mm_type = b, mm_compressionHeader = None, mm_reliabilityHeader = None,
                mm_fragmentationHeader = None, mm_data = take n body,
                mm_dataOffset = 1 + length conn\<rparr>)"
proof -
  have start: "(if c then 9 else 1) = 1 + length conn"
    using assms(2) by simp
  have len: "\<not> length (b # conn @ body) < 1 + length conn"
    and drp: "drop (1 + length conn) (b # conn @ body) = body"
    by simp_all
  show ?thesis
    by (simp only: decodeMeta_def Let_def start len drp assms(1) list.sel list.distinct
        qn_assert_simps simp_thms if_False if_True)
qed

lemma decodeMeta_data:
  assumes "b AND MSG_DATA_MASK \<noteq> 0" "length conn = (if c then 8 else 0)"
  shows "decodeMeta R (b # conn @ body) u c = decodeDataMeta R b (1 + length conn) (br_open R body)"
proof -
  have start: "(if c then 9 else 1) = 1 + length conn"
    using assms(2) by simp
  have len: "\<not> length (b # conn @ body) < 1 + length conn"
    and drp: "drop (1 + length conn) (b # conn @ body) = body"
    by simp_all
  show ?thesis
    using assms(1)
    by (simp only: decodeMeta_def Let_def start len drp list.sel list.distinct
        qn_assert_simps simp_thms if_False)
qed

lemma lengthForNonData_simps:
  "lengthForNonDataMessage R r 3 = Ok 9"
  "lengthForNonDataMessage R r 5 = Ok 22"
  "lengthForNonDataMessage R r 8 = Ok 1"
  "lengthForNonDataMessage R r 10 = Ok 8"
  "lengthForNonDataMessage R r 11 = Ok 4"
  "lengthForNonDataMessage R r 127 = Ok (br_remainingSize R r)"
  by (simp_all add: lengthForNonDataMessage_def PROTOCOL_VERSION_def)

lemma lengthForNonData_connctl:
  "lengthForNonDataMessage R reader 16 =
     MAP_UNWRAP (br_readU16 R reader) (\<lambda>(code, reader).
        if code = QUNET_CONNCTL_SET_MTU then
          MAP_UNWRAP (br_skip R reader 2) (\<lambda>_. Ok (2 + 2))
        else if code = QUNET_CONNCTL_PMTUD_PROBE then
          MAP_UNWRAP (br_readU16 R reader) (\<lambda>(len, reader).
          MAP_UNWRAP (br_skip R reader (unat len)) (\<lambda>_.
          Ok (2 + (2 + unat len))))
        else Err InvalidConnCtlCode)"
  by (simp add: lengthForNonDataMessage_def PROTOCOL_VERSION_def)

section \<open>Decoding the layout\<close>

context dbuf_laws
begin

lemma readAcks_wire:
  "rest r = concat (map (put16 C) as) @ suf \<Longrightarrow>
     \<exists>r'. readAcks R (length as) r = Inr (as, r') \<and> rest r' = suf"
proof (induction as arbitrary: r)
  case Nil
  then show ?case by simp
next
  case (Cons a as)
  then have rd: "mapErr (\<lambda>_. InvalidData) (br_readU16 R r) = Inr (a, adv r 2)"
    by (simp add: map_readU16)
  have "rest (adv r 2) = concat (map (put16 C) as) @ suf"
    using Cons.prems by simp
  then obtain r' where "readAcks R (length as) (adv r 2) = Inr (as, r')" "rest r' = suf"
    using Cons.IH by blast
  with rd show ?case by simp
qed

lemma decodeDataMeta_wire:
  assumes r: "rest r = wire_comp C cmp @ wire_rel C rel @ wire_frag C frag @ body"
    and wf: "wf_comp cmp" "wf_rel rel" "wf_frag frag"
  shows "decodeDataMeta R (header_bits cmp (rel \<noteq> None) (frag \<noteq> None)) start r =
     Ok \<lparr>mm_type = MSG_DATA, mm_compressionHeader = cmp, mm_reliabilityHeader = acked_rel rel,
         mm_fragmentationHeader = frag, mm_data = body,
         mm_dataOffset = start + claimed_len cmp rel frag\<rparr>"
proof -
  let ?hb = "header_bits cmp (rel \<noteq> None) (frag \<noteq> None)"
  obtain r1 where
    s1: "(if compressionOf ?hb \<noteq> CT_None then
            MAP_UNWRAP (br_readU32 R r) (\<lambda>(sz, reader).
            Ok (Some \<lparr>ch_type = compressionOf ?hb, ch_uncompressedSize = sz\<rparr>, start + 4, reader))
          else Ok (None, start, r))
         = Ok (cmp, start + claimed_len cmp None None, r1)"
    and r1: "rest r1 = wire_rel C rel @ wire_frag C frag @ body"
  proof (cases cmp)
    case None
    then show thesis
      using that [of r] r by (simp add: header_bits_comp claimed_len_def wire_comp_def)
  next
    case (Some ch)
    then show thesis
      using that [of "adv r 4"] r wf(1)
      by (simp add: header_bits_comp claimed_len_def wire_comp_def map_readU32 wf_comp_def)
  qed
  obtain r2 where
    s2: "(if rel \<noteq> None then
            MAP_UNWRAP (br_readU16 R r1) (\<lambda>(messageId, reader).
            MAP_UNWRAP (br_readU16 R reader) (\<lambda>(ackCount, reader).
            unwrap (readAcks R (min (unat ackCount) 8) reader) (\<lambda>(acks, reader).
            Ok (Some \<lparr>rh_messageId = messageId, rh_ackCount = unat ackCount, rh_acks = acks\<rparr>,
                n + (4 + unat ackCount * 2), reader))))
          else Ok (None, n, r1))
         = Ok (acked_rel rel, n + claimed_len None rel None, r2)"
    and r2: "rest r2 = wire_frag C frag @ body" for n
  proof (cases rel)
    case None
    then show thesis
      using that [of r1] r1 by (simp add: claimed_len_def acked_rel_def wire_rel_def)
  next
    case (Some rh)
    have n: "unat (of_nat (rh_ackCount rh) :: u16) = rh_ackCount rh"
      using wf(2) Some by (simp add: wf_rel_def unat_of_nat_u16)
    have l: "length (sent_acks rh) = min (rh_ackCount rh) 8"
      using wf(2) Some by (simp add: length_sent_acks)
    have "rest (adv (adv r1 2) 2) = concat (map (put16 C) (sent_acks rh)) @ wire_frag C frag @ body"
      using r1 Some by (simp add: wire_rel_def)
    then obtain r' where ra: "readAcks R (length (sent_acks rh)) (adv (adv r1 2) 2) = Inr (sent_acks rh, r')"
      and rr: "rest r' = wire_frag C frag @ body"
      using readAcks_wire by blast
    show thesis
      using that [of r'] ra rr Some r1 n l
      by (simp add: claimed_len_def acked_rel_def wire_rel_def map_readU16)
  qed
  obtain r3 where
    s3: "(if frag \<noteq> None then
            MAP_UNWRAP (br_readU16 R r2) (\<lambda>(messageId, reader).
            MAP_UNWRAP (br_readU16 R reader) (\<lambda>(fragmentIndex, reader).
            Ok (Some \<lparr>fh_messageId = messageId, fh_fragmentIndex = fragmentIndex AND 0x7FFF,
                  fh_lastFragment = (fragmentIndex AND 0x8000 \<noteq> 0)\<rparr>, n + 4, reader)))
          else Ok (None, n, r2))
         = Ok (frag, n + claimed_len None None frag, r3)"
    and r3: "rest r3 = body" for n
  proof (cases frag)
    case None
    then show thesis
      using that [of r2] r2 by (simp add: claimed_len_def wire_frag_def)
  next
    case (Some fh)
    then have "fh_fragmentIndex fh < 0x8000"
      using wf(3) by (simp add: wf_frag_def)
    then show thesis
      using that [of "adv (adv r2 2) 2"] r2 Some
      by (simp add: claimed_len_def wire_frag_def map_readU16 frag_word_index frag_word_last)
  qed
  have b: "\<not> ?hb AND MSG_DATA_BOUNDARY_MASK \<noteq> 0"
    by (simp only: header_bits_boundary simp_thms)
  have "decodeDataMeta R ?hb start r =
     Ok \<lparr>mm_type = MSG_DATA, mm_compressionHeader = cmp, mm_reliabilityHeader = acked_rel rel,
         mm_fragmentationHeader = frag, mm_data = rest r3,
         mm_dataOffset = start + claimed_len cmp None None + claimed_len None rel None
                         + claimed_len None None frag\<rparr>"
    by (simp only: decodeDataMeta_def Let_def header_bits_rel header_bits_frag s1 s2 s3 b
        if_False unwrap_simps prod.case option.case readToEnd fst_conv)
  then show ?thesis
    using r3 by (simp add: claimed_len_def)
qed


lemma decodeMeta_wire:
  assumes wf: "wf_comp cmp" "wf_rel rel" "wf_frag frag"
    and conn: "length conn = (if c then 8 else 0)"
  shows "decodeMeta R (header_bits cmp (rel \<noteq> None) (frag \<noteq> None)
            # conn @ wire_comp C cmp @ wire_rel C rel @ wire_frag C frag @ body) u c =
     Ok \<lparr>mm_type = MSG_DATA, mm_compressionHeader = cmp, mm_reliabilityHeader = acked_rel rel,
         mm_fragmentationHeader = frag, mm_data = body,
         mm_dataOffset = 1 + length conn + claimed_len cmp rel frag\<rparr>"
proof -
  have "decodeDataMeta R (header_bits cmp (rel \<noteq> None) (frag \<noteq> None)) (1 + length conn)
          (br_open R (wire_comp C cmp @ wire_rel C rel @ wire_frag C frag @ body)) =
     Ok \<lparr>mm_type = MSG_DATA, mm_compressionHeader = cmp, mm_reliabilityHeader = acked_rel rel,
         mm_fragmentationHeader = frag, mm_data = body,
         mm_dataOffset = 1 + length conn + claimed_len cmp rel frag\<rparr>"
    by (rule decodeDataMeta_wire) (simp_all add: wf)
  then show ?thesis
    by (simp only: decodeMeta_data [OF header_bits_data conn])
qed

section \<open>What the encoders write\<close>

lemma writeAcks_holds:
  "holds w bs \<Longrightarrow> n + k \<le> length acks \<Longrightarrow>
   \<exists>w'. writeAcks W acks n k w = Inr w'
      \<and> holds w' (bs @ concat (map (put16 C) (take k (drop n acks))))"
proof (induction k arbitrary: n w bs)
  case 0
  then show ?case by simp
next
  case (Suc k)
  have "holds (bw_writeU16 W w (acks ! n)) (bs @ put16 C (acks ! n))"
    using Suc.prems(1) by (rule holds_writeU16)
  moreover have "Suc n + k \<le> length acks"
    using Suc.prems(2) by simp
  ultimately obtain w' where w':
    "writeAcks W acks (Suc n) k (bw_writeU16 W w (acks ! n)) = Inr w'"
    "holds w' ((bs @ put16 C (acks ! n)) @ concat (map (put16 C) (take k (drop (Suc n) acks))))"
    using Suc.IH by blast
  have "take (Suc k) (drop n acks) = acks ! n # take k (drop (Suc n) acks)"
    using Suc.prems(2) by (simp add: Cons_nth_drop_Suc [symmetric])
  with w' Suc.prems(2) show ?case
    by simp
qed

lemma encodeDataHeader_holds:
  assumes w: "holds w bs" and wf: "wf_rel (dm_relHeader m)"
  shows "\<exists>w'. encodeDataHeader W (Data m) cid False w = Inr w'
     \<and> holds w' (bs @ header_bits (dm_compHeader m) (dm_relHeader m \<noteq> None) False
          # wire_comp C (dm_compHeader m) @ wire_conn C cid @ wire_rel C (dm_relHeader m))"
proof -
  let ?hb = "header_bits (dm_compHeader m) (dm_relHeader m \<noteq> None) False"
  let ?b1 = "bs @ [?hb]"
  let ?b2 = "?b1 @ wire_comp C (dm_compHeader m)"
  let ?b3 = "?b2 @ wire_conn C cid"
  define w1 where "w1 = bw_writeU8 W w ?hb"
  define w2 where "w2 = (case dm_compHeader m of None \<Rightarrow> w1
                      | Some ch \<Rightarrow> bw_writeU32 W w1 (ch_uncompressedSize ch))"
  define w3 where "w3 = (if cid \<noteq> 0 then bw_writeU64 W w2 cid else w2)"
  have h1: "holds w1 ?b1"
    unfolding w1_def by (rule holds_writeU8) (rule w)
  have h2: "holds w2 ?b2"
    using h1 holds_writeU32 [OF h1]
    by (auto simp: w2_def wire_comp_def split: option.split)
  have h3: "holds w3 ?b3"
    using h2 holds_writeU64 [OF h2] by (auto simp: w3_def wire_conn_def)
  have enc: "encodeDataHeader W (Data m) cid False w =
     (case dm_relHeader m of None \<Rightarrow> Ok w3
        | Some rh \<Rightarrow> writeAcks W (rh_acks rh) 0 (min (rh_ackCount rh) 8)
            (bw_writeU16 W (bw_writeU16 W w3 (rh_messageId rh)) (of_nat (rh_ackCount rh))))"
    by (cases "dm_compHeader m"; cases "dm_relHeader m")
      (simp_all add: encodeDataHeader_def w3_def w2_def w1_def header_bits_def Let_def
        or.assoc)
  show ?thesis
  proof (cases "dm_relHeader m")
    case None
    then show ?thesis
      using enc h3 by (simp add: wire_rel_def)
  next
    case (Some rh)
    have h4: "holds (bw_writeU16 W (bw_writeU16 W w3 (rh_messageId rh)) (of_nat (rh_ackCount rh)))
            ((?b3 @ put16 C (rh_messageId rh)) @ put16 C (of_nat (rh_ackCount rh)))"
      by (intro holds_writeU16 h3)
    have "0 + min (rh_ackCount rh) 8 \<le> length (rh_acks rh)"
      using wf Some by (simp add: wf_rel_def)
    from writeAcks_holds [OF h4 this] show ?thesis
      using enc Some by (auto simp: wire_rel_def sent_acks_def)
  qed
qed

lemma encodeDataHeader_omit:
  assumes "holds w bs"
  shows "\<exists>w'. encodeDataHeader W (Data m) cid True w = Inr w'
     \<and> holds w' (bs @ MSG_DATA # wire_conn C cid)"
  using holds_writeU8 [OF assms, of MSG_DATA]
    holds_writeU64 [OF holds_writeU8 [OF assms, of MSG_DATA], of cid]
  by (simp add: encodeDataHeader_def wire_conn_def)

end


section \<open>Properties of the codec\<close>

text \<open>Headers as the transport builds them: at most eight acknowledgements, all present.\<close>

definition sendable_rel :: "ReliabilityHeader option \<Rightarrow> bool" where
  "sendable_rel rel = (case rel of None \<Rightarrow> True
     | Some rh \<Rightarrow> rh_ackCount rh \<le> 8 \<and> rh_ackCount rh \<le> length (rh_acks rh))"

lemma sendable_wf_rel: "sendable_rel rel \<Longrightarrow> wf_rel rel"
  by (auto simp: sendable_rel_def wf_rel_def split: option.splits)

context dbuf_laws
begin

lemma length_concat_put16 [simp]: "length (concat (map (put16 C) as)) = 2 * length as"
  by (induction as) auto

lemma length_wire:
  assumes "sendable_rel rel"
  shows "length (wire_comp C cmp) + length (wire_rel C rel) + length (wire_frag C frag)
           = claimed_len cmp rel frag"
  using assms
  by (cases cmp; cases rel; cases frag)
    (simp_all add: wire_defs claimed_len_def sendable_rel_def sent_acks_def)

lemma data_roundtrip:
  assumes wf: "wf_comp (dm_compHeader m)" "sendable_rel (dm_relHeader m)"
    and layout: "cid = 0 \<or> dm_compHeader m = None"
  shows "\<exists>w. encodeDataHeader W (Data m) cid False (bw_new W) = Ok w \<and>
     decodeMeta R (bw_written W (bw_writeBytes W w (dm_data m))) udp (cid \<noteq> 0) =
       Ok \<lparr>mm_type = MSG_DATA, mm_compressionHeader = dm_compHeader m,
           mm_reliabilityHeader = acked_rel (dm_relHeader m), mm_fragmentationHeader = None,
           mm_data = dm_data m,
           mm_dataOffset = length (bw_written W w)\<rparr> \<and>
     bw_written W (bw_writeBytes W w (dm_data m)) = bw_written W w @ dm_data m"
proof -
  let ?c = "dm_compHeader m" and ?r = "dm_relHeader m"
  obtain w where enc: "encodeDataHeader W (Data m) cid False (bw_new W) = Inr w"
    and h: "holds w ([] @ header_bits ?c (?r \<noteq> None) False
               # wire_comp C ?c @ wire_conn C cid @ wire_rel C ?r)"
    using encodeDataHeader_holds [OF holds_new sendable_wf_rel [OF wf(2)], of cid] by blast
  have wr: "bw_written W (bw_writeBytes W w (dm_data m)) = bw_written W w @ dm_data m"
    using h by (simp add: holds_def)
  have swap: "bw_written W w @ dm_data m =
      header_bits ?c (?r \<noteq> None) False
        # wire_conn C cid @ wire_comp C ?c @ wire_rel C ?r @ wire_frag C None @ dm_data m"
    using layout h by (auto simp: holds_def wire_comp_def wire_conn_def wire_frag_def)
  have conn: "length (wire_conn C cid) = (if cid \<noteq> 0 then 8 else 0)"
    by (simp add: wire_conn_def)
  have len: "length (bw_written W w) = 1 + length (wire_conn C cid) + claimed_len ?c ?r None"
    using length_wire [OF wf(2), of ?c None] h by (simp add: holds_def wire_frag_def)
  have wff: "wf_frag None"
    by (simp add: wf_frag_def)
  have "decodeMeta R (bw_written W w @ dm_data m) udp (cid \<noteq> 0) =
       Ok \<lparr>mm_type = MSG_DATA, mm_compressionHeader = ?c, mm_reliabilityHeader = acked_rel ?r,
           mm_fragmentationHeader = None, mm_data = dm_data m,
           mm_dataOffset = 1 + length (wire_conn C cid) + claimed_len ?c ?r None\<rparr>"
    using decodeMeta_wire [OF wf(1) sendable_wf_rel [OF wf(2)] wff conn, of "dm_data m" udp]
    by (simp only: swap simp_thms)
  with enc len wr show ?thesis
    by simp
qed

lemma ackCount_overrun:
  assumes "wf_comp cmp" "wf_rel (Some rh)" "wf_frag frag" "8 < rh_ackCount rh"
  shows "\<exists>meta. decodeMeta R (header_bits cmp True (frag \<noteq> None)
             # wire_comp C cmp @ wire_rel C (Some rh) @ wire_frag C frag @ body) udp False = Ok meta
     \<and> mm_data meta = body
     \<and> mm_dataOffset meta + length (mm_data meta)
         = length (header_bits cmp True (frag \<noteq> None)
             # wire_comp C cmp @ wire_rel C (Some rh) @ wire_frag C frag @ body)
           + 2 * (rh_ackCount rh - 8)"
proof -
  have l: "length (sent_acks rh) = 8"
    using length_sent_acks [OF assms(2)] assms(4) by simp
  have "length (wire_comp C cmp) + length (wire_rel C (Some rh)) + length (wire_frag C frag)
          + 2 * (rh_ackCount rh - 8) = claimed_len cmp (Some rh) frag"
    using assms(4) l
    by (cases cmp; cases frag) (simp_all add: wire_defs claimed_len_def)
  then show ?thesis
    using decodeMeta_wire [OF assms(1-3), of "[]" False body udp] by simp
qed

lemma compressed_conn_mismatch:
  assumes "dm_compHeader m = Some ch" "ch_type ch \<noteq> CT_None" "dm_relHeader m = None" "cid \<noteq> 0"
  shows "\<exists>w meta. encodeDataHeader W (Data m) cid False (bw_new W) = Ok w \<and>
     decodeMeta R (bw_written W (bw_writeBytes W w (dm_data m))) udp True = Ok meta \<and>
     mm_compressionHeader meta
       = Some (ch\<lparr>ch_uncompressedSize := get32 C (drop 4 (put64 C cid))\<rparr>)"
proof -
  obtain w where enc: "encodeDataHeader W (Data m) cid False (bw_new W) = Inr w"
    and h: "holds w ([] @ header_bits (Some ch) False False # wire_comp C (Some ch) @ wire_conn C cid)"
    using encodeDataHeader_holds [OF holds_new, of m cid] assms
    by (auto simp: wf_rel_def wire_rel_def)
  let ?split = "put32 C (ch_uncompressedSize ch) @ take 4 (put64 C cid)"
  have dec: "decodeMeta R (header_bits (Some ch) False False # ?split @ drop 4 (put64 C cid)
                 @ dm_data m) udp True
     = decodeDataMeta R (header_bits (Some ch) False False) 9
         (br_open R (drop 4 (put64 C cid) @ dm_data m))"
    using decodeMeta_data [OF header_bits_data, of ?split True R "Some ch" False False
        "drop 4 (put64 C cid) @ dm_data m" udp] by simp
  have "compressionOf (header_bits (Some ch) False False) = ch_type ch"
    by (simp add: header_bits_comp)
  moreover have "header_bits (Some ch) False False AND 16 = 0"
    "header_bits (Some ch) False False AND 32 = 0" "header_bits (Some ch) False False AND 8 = 0"
    using header_bits_rel [of "Some ch" False False] header_bits_frag [of "Some ch" False False]
      header_bits_boundary [of "Some ch" False False] by simp_all
  ultimately have "\<exists>meta. decodeDataMeta R (header_bits (Some ch) False False) 9
         (br_open R (drop 4 (put64 C cid) @ dm_data m)) = Ok meta
      \<and> mm_compressionHeader meta
          = Some (ch\<lparr>ch_uncompressedSize := get32 C (drop 4 (put64 C cid))\<rparr>)"
    using assms(2) by (simp add: decodeDataMeta_def map_readU32 Let_def)
  moreover have "bw_written W (bw_writeBytes W w (dm_data m)) =
     header_bits (Some ch) False False # ?split @ drop 4 (put64 C cid) @ dm_data m"
    using h assms(4) by (simp add: holds_def wire_comp_def wire_conn_def)
  ultimately show ?thesis
    using enc dec by auto
qed

lemma connection_control_unreadable:
  "\<exists>w. encodeControlMsg W (ConnectionControl (SetMTU mtu)) 0 (bw_new W) = Ok w \<and>
     \<not> isOk (decodeMeta R (bw_written W w) udp False)"
proof -
  let ?w = "bw_writeU16 W (bw_writeU8 W (bw_writeU8 W (bw_new W) 16) 1) mtu"
  have h: "bw_written W ?w = 16 # 1 # put16 C mtu"
    by simp
  have "decodeMeta R (16 # [] @ (1 # put16 C mtu)) udp False =
     unwrap (lengthForNonDataMessage R (br_open R (1 # put16 C mtu)) 16) (\<lambda>n.
       if length (1 # put16 C mtu) < n then Err NotEnoughData
       else Ok \<lparr>mm_type = 16, mm_compressionHeader = None, mm_reliabilityHeader = None,
                mm_fragmentationHeader = None, mm_data = take n (1 # put16 C mtu),
                mm_dataOffset = 1 + length ([] :: bytes)\<rparr>)"
    by (rule decodeMeta_control) simp_all
  then have "\<not> isOk (decodeMeta R (16 # 1 # put16 C mtu) udp False)"
    by (simp add: lengthForNonData_connctl map_readU16 map_skip)
  then show ?thesis
    using h by (simp add: encodeControlMsg_def encodeControlHeader_def)
qed


text \<open>The control messages a client can write, with the body the encoder produces.\<close>

lemma encodeControlMsg_body:
  assumes "headerByte m = (Ok hb :: (string, u8) outcome)"
    and enc: "\<And>w bs. holds w bs \<Longrightarrow> \<exists>w'. QunetMessage_encode W m w = Ok w' \<and> holds w' (bs @ body)"
  shows "\<exists>w. encodeControlMsg W m cid (bw_new W) = Ok w \<and> holds w (hb # wire_conn C cid @ body)"
proof -
  have h1: "holds (bw_writeU8 W (bw_new W) hb) ([] @ [hb])"
    by (rule holds_writeU8) simp
  define w where "w = (if cid \<noteq> 0 then bw_writeU64 W (bw_writeU8 W (bw_new W) hb) cid
                       else bw_writeU8 W (bw_new W) hb)"
  have "holds w ([hb] @ wire_conn C cid)"
    using h1 holds_writeU64 [OF h1] by (auto simp: w_def wire_conn_def)
  from enc [OF this] obtain w' where "QunetMessage_encode W m w = Ok w'"
    "holds w' (([hb] @ wire_conn C cid) @ body)"
    by blast
  then show ?thesis
    using assms(1) by (auto simp: encodeControlMsg_def encodeControlHeader_def w_def Let_def)
qed

lemma encode_bodies:
  assumes "holds w bs"
  shows "\<exists>w'. QunetMessage_encode W (KeepaliveMessage t) w = Ok w' \<and> holds w' (bs @ put64 C t @ [0])"
    and "\<exists>w'. QunetMessage_encode W (HandshakeStart hs) w = Ok w' \<and>
          holds w' (bs @ put16 C (pv_major (hs_protocolVersion hs))
            @ put16 C (pv_minor (hs_protocolVersion hs)) @ put16 C (hs_fragLimit hs)
            @ hs_qdbHash hs)"
    and "\<exists>w'. QunetMessage_encode W ClientCloseMessage w = Ok w' \<and> holds w' (bs @ [0])"
    and "\<exists>w'. QunetMessage_encode W (ClientReconnectMessage c) w = Ok w' \<and> holds w' (bs @ put64 C c)"
    and "\<exists>w'. QunetMessage_encode W (ConnectionErrorMessage e) w = Ok w' \<and> holds w' (bs @ put32 C e)"
  using assms by (simp_all add: encode_defs holds_def Let_def)


lemma control_framing:
  assumes hb: "headerByte m = (Ok hb :: (string, u8) outcome)" "hb AND MSG_DATA_MASK = 0"
    and enc: "\<And>w bs. holds w bs \<Longrightarrow> \<exists>w'. QunetMessage_encode W m w = Ok w' \<and> holds w' (bs @ body)"
    and len: "\<And>r. lengthForNonDataMessage R r hb = Ok (length body)"
  shows "\<exists>w. encodeControlMsg W m cid (bw_new W) = Ok w \<and>
     decodeMeta R (bw_written W w @ pad) udp (cid \<noteq> 0) =
       Ok \<lparr>mm_type = hb, mm_compressionHeader = None, mm_reliabilityHeader = None,
           mm_fragmentationHeader = None, mm_data = body,
           mm_dataOffset = length (bw_written W w) - length body\<rparr>
     \<and> bw_written W w = hb # wire_conn C cid @ body"
proof -
  obtain w where w: "encodeControlMsg W m cid (bw_new W) = Ok w"
    and h: "holds w (hb # wire_conn C cid @ body)"
    using encodeControlMsg_body [OF hb(1) enc] by blast
  have conn: "length (wire_conn C cid) = (if cid \<noteq> 0 then 8 else 0)"
    by (simp add: wire_conn_def)
  have "decodeMeta R (hb # wire_conn C cid @ body @ pad) udp (cid \<noteq> 0) =
       Ok \<lparr>mm_type = hb, mm_compressionHeader = None, mm_reliabilityHeader = None,
           mm_fragmentationHeader = None, mm_data = body,
           mm_dataOffset = 1 + length (wire_conn C cid)\<rparr>"
    by (simp add: decodeMeta_control [OF hb(2) conn] len)
  then show ?thesis
    using w h by (simp add: holds_def)
qed

text \<open>The bodies of the two messages of a client that the decoder knows.\<close>

lemma decode_client_bodies:
  "mm_type meta = 3 \<Longrightarrow> mm_data meta = put64 C t @ [0] \<Longrightarrow> decodeWithMeta R meta = Ok (KeepaliveMessage t)"
  "mm_type meta = 11 \<Longrightarrow> mm_data meta = put32 C e \<Longrightarrow> decodeWithMeta R meta = Ok (ConnectionErrorMessage e)"
  by (simp_all add: decodeWithMeta_def decode_defs readU64 readU32 readU8)

end

text \<open>The messages a client sends outside of the data stream, and the fixed size of the hash.\<close>

fun client_control :: "QunetMessage \<Rightarrow> bool" where
  "client_control (KeepaliveMessage _) = True"
| "client_control (HandshakeStart hs) = (length (hs_qdbHash hs) = 16)"
| "client_control ClientCloseMessage = True"
| "client_control (ClientReconnectMessage _) = True"
| "client_control (ConnectionErrorMessage _) = True"
| "client_control _ = False"

text \<open>C9 (roundtrip).  A data message encoded without fragmentation, with the connection id or
  without, is decoded to the same compression header, reliability header and payload, and the
  decoder's data offset is the number of header bytes written.  The
  message must not be compressed when the connection has an id: the two sides then disagree on the order of
  the headers (\<open>QunetMessage.cpp:62\<close>), see \<open>compressed_message_with_connection_id\<close>.\<close>

theorem data_message_roundtrip:
  assumes "dbuf_laws C R rest adv W"
    and "wf_comp (dm_compHeader m)" and "sendable_rel (dm_relHeader m)"
    and "cid = 0 \<or> dm_compHeader m = None"
  shows "\<exists>w. encodeDataHeader W (Data m) cid False (bw_new W) = Ok w \<and>
     decodeMeta R (bw_written W (bw_writeBytes W w (dm_data m))) udp (cid \<noteq> 0) =
       Ok \<lparr>mm_type = MSG_DATA, mm_compressionHeader = dm_compHeader m,
           mm_reliabilityHeader = acked_rel (dm_relHeader m), mm_fragmentationHeader = None,
           mm_data = dm_data m, mm_dataOffset = length (bw_written W w)\<rparr> \<and>
     bw_written W (bw_writeBytes W w (dm_data m)) = bw_written W w @ dm_data m"
  using dbuf_laws.data_roundtrip [OF assms] .

theorem data_message_roundtrip_witness:
  "\<exists>w. encodeDataHeader list_writer (Data \<lparr>dm_data = [1, 2, 3], dm_compHeader = None,
       dm_relHeader = Some \<lparr>rh_messageId = 7, rh_ackCount = 2, rh_acks = [5, 6, 0, 0, 0, 0, 0, 0]\<rparr>\<rparr>)
       9 False (bw_new list_writer) = Ok w \<and>
     decodeMeta list_reader (bw_written list_writer (bw_writeBytes list_writer w [1, 2, 3])) True True =
       Ok \<lparr>mm_type = MSG_DATA, mm_compressionHeader = None,
           mm_reliabilityHeader = Some \<lparr>rh_messageId = 7, rh_ackCount = 2, rh_acks = [5, 6]\<rparr>,
           mm_fragmentationHeader = None, mm_data = [1, 2, 3],
           mm_dataOffset = length (bw_written list_writer w)\<rparr>"
  using data_message_roundtrip [OF ref.dbuf_laws_axioms, where cid = 9 and udp = True
      and m = "\<lparr>dm_data = [1, 2, 3], dm_compHeader = None, dm_relHeader = Some
        \<lparr>rh_messageId = 7, rh_ackCount = 2, rh_acks = [5, 6, 0, 0, 0, 0, 0, 0]\<rparr>\<rparr>"]
  by (auto simp: wf_comp_def sendable_rel_def acked_rel_def sent_acks_def)

text \<open>C33 (roundtrip).  What a client writes as a keepalive, handshake start, close, reconnect or connection
  error, followed by any bytes (the padding of a datagram), is delimited by \<open>decodeMeta\<close> as exactly the
  written message: for these types the length table of the decoder agrees with the encoders.
  \<open>decodeWithMeta\<close> then gives back a keepalive and a connection error as they were, and refuses the other
  three, which only a server reads.  (A connection control message is not among them: its length is
  misread, \<open>connection_control_not_decodable\<close>.)\<close>

theorem control_message_framing:
  assumes "dbuf_laws C R rest adv W" and "client_control m"
  shows "\<exists>w meta. encodeControlMsg W m cid (bw_new W) = Ok w \<and>
     decodeMeta R (bw_written W w @ pad) udp (cid \<noteq> 0) = Ok meta \<and>
     headerByte m = (Ok (mm_type meta) :: (string, u8) outcome) \<and>
     mm_data meta = drop (mm_dataOffset meta) (bw_written W w) \<and>
     mm_dataOffset meta + length (mm_data meta) = length (bw_written W w) \<and>
     decodeWithMeta R meta = (case m of KeepaliveMessage _ \<Rightarrow> Ok m | ConnectionErrorMessage _ \<Rightarrow> Ok m
       | _ \<Rightarrow> Err InvalidMessageType)"
proof -
  note frame = dbuf_laws.control_framing [OF assms(1), of m _ _ cid pad udp]
  note bodies = dbuf_laws.encode_bodies [OF assms(1)]
  note decoded = dbuf_laws.decode_client_bodies [OF assms(1)]
  note len = codec_laws.len64 codec_laws.len32 codec_laws.len16
  have C: "codec_laws C"
    using assms(1) by (rule dbuf_laws.axioms)
  have refused: "decodeWithMeta R meta = Err InvalidMessageType" if "mm_type meta \<in> {5, 8, 10}" for meta
    using that by (auto simp: decodeWithMeta_def)
  have fin: ?thesis if "\<exists>w. encodeControlMsg W m cid (bw_new W) = Ok w \<and>
     decodeMeta R (bw_written W w @ pad) udp (cid \<noteq> 0) =
       Ok \<lparr>mm_type = hb, mm_compressionHeader = None, mm_reliabilityHeader = None,
           mm_fragmentationHeader = None, mm_data = body,
           mm_dataOffset = length (bw_written W w) - length body\<rparr>
     \<and> bw_written W w = hb # wire_conn C cid @ body"
     and "headerByte m = (Ok hb :: (string, u8) outcome)"
     and "\<And>meta. mm_type meta = hb \<Longrightarrow> mm_data meta = body \<Longrightarrow> decodeWithMeta R meta =
       (case m of KeepaliveMessage _ \<Rightarrow> Ok m | ConnectionErrorMessage _ \<Rightarrow> Ok m | _ \<Rightarrow> Err InvalidMessageType)"
     for hb body
    using that by auto
  show ?thesis
  proof (cases m)
    case (KeepaliveMessage t)
    show ?thesis
      by (rule fin, rule frame [of 3 "put64 C t @ [0]"])
        (simp_all add: KeepaliveMessage bodies lengthForNonData_simps len [OF C] decoded del: QunetMessage_encode.simps)
  next
    case (HandshakeStart hs)
    show ?thesis
      by (rule fin, rule frame [of 5 "put16 C (pv_major (hs_protocolVersion hs)) @ put16 C (pv_minor (hs_protocolVersion hs))
          @ put16 C (hs_fragLimit hs) @ hs_qdbHash hs"])
        (use assms(2) in \<open>simp_all add: HandshakeStart bodies lengthForNonData_simps len [OF C] refused del: QunetMessage_encode.simps\<close>)
  next
    case ClientCloseMessage
    show ?thesis
      by (rule fin, rule frame [of 8 "[0]"])
        (simp_all add: ClientCloseMessage bodies lengthForNonData_simps len [OF C] refused
          del: QunetMessage_encode.simps)
  next
    case (ClientReconnectMessage c)
    show ?thesis
      by (rule fin, rule frame [of 10 "put64 C c"])
        (simp_all add: ClientReconnectMessage bodies lengthForNonData_simps len [OF C] refused
          del: QunetMessage_encode.simps)
  next
    case (ConnectionErrorMessage e)
    show ?thesis
      by (rule fin, rule frame [of 11 "put32 C e"])
        (simp_all add: ConnectionErrorMessage bodies lengthForNonData_simps len [OF C] decoded del: QunetMessage_encode.simps)
  qed (use assms(2) in simp_all)
qed

theorem control_message_framing_witness:
  "\<exists>w meta. encodeControlMsg list_writer (KeepaliveMessage 77) 5 (bw_new list_writer) = Ok w \<and>
     decodeMeta list_reader (bw_written list_writer w @ [127, 0, 0]) True True = Ok meta \<and>
     mm_data meta = drop (mm_dataOffset meta) (bw_written list_writer w) \<and>
     mm_dataOffset meta + length (mm_data meta) = length (bw_written list_writer w) \<and>
     decodeWithMeta list_reader meta = Ok (KeepaliveMessage 77)"
  using control_message_framing [OF ref.dbuf_laws_axioms, of "KeepaliveMessage 77" 5 "[127, 0, 0]" True]
  by auto

text \<open>A data message that announces more than 8 acknowledgements is decoded without an
  error although only 8 of them are read, but the reported data offset still counts every
  announced acknowledgement, so it lies beyond the real one by two bytes for each id that was not
  read: offset and payload together reach past the end of the datagram.\<close>

theorem data_offset_overruns:
  assumes "dbuf_laws C R rest adv W" and "wf_comp cmp" and "wf_rel (Some rh)" and "wf_frag frag"
    and "8 < rh_ackCount rh"
  shows "\<exists>meta. decodeMeta R (header_bits cmp True (frag \<noteq> None)
             # wire_comp C cmp @ wire_rel C (Some rh) @ wire_frag C frag @ body) udp False = Ok meta
     \<and> mm_data meta = body
     \<and> mm_dataOffset meta + length (mm_data meta)
         = length (header_bits cmp True (frag \<noteq> None)
             # wire_comp C cmp @ wire_rel C (Some rh) @ wire_frag C frag @ body)
           + 2 * (rh_ackCount rh - 8)"
  using dbuf_laws.ackCount_overrun [OF assms] .

theorem data_offset_overruns_witness:
  "\<exists>meta. decodeMeta list_reader (header_bits None True False
       # wire_comp le_codec None @ wire_rel le_codec (Some \<lparr>rh_messageId = 1, rh_ackCount = 20,
           rh_acks = replicate 8 3\<rparr>) @ wire_frag le_codec None @ [42]) True False = Ok meta
     \<and> mm_data meta = [42] \<and> mm_dataOffset meta + 1 = 22 + 24"
  using data_offset_overruns [OF ref.dbuf_laws_axioms, where cmp = None and frag = None
      and rh = "\<lparr>rh_messageId = 1, rh_ackCount = 20, rh_acks = replicate 8 3\<rparr>" and body = "[42]"
      and udp = True]
  by (auto simp: wf_defs wire_defs sent_acks_def length_concat sum_list_replicate le.len16)

text \<open>With a connection id, the header of a compressed message cannot be read back: the
  encoder puts the uncompressed size before the connection id, the decoder skips eight bytes
  first, and takes the second half of the connection id as the uncompressed size.\<close>

theorem compressed_message_with_connection_id:
  assumes "dbuf_laws C R rest adv W"
    and "dm_compHeader m = Some ch" and "ch_type ch \<noteq> CT_None" and "dm_relHeader m = None"
    and "cid \<noteq> 0"
  shows "\<exists>w meta. encodeDataHeader W (Data m) cid False (bw_new W) = Ok w \<and>
     decodeMeta R (bw_written W (bw_writeBytes W w (dm_data m))) udp True = Ok meta \<and>
     mm_compressionHeader meta
       = Some (ch\<lparr>ch_uncompressedSize := get32 C (drop 4 (put64 C cid))\<rparr>)"
  using dbuf_laws.compressed_conn_mismatch [OF assms] .

theorem compressed_message_with_connection_id_witness:
  "\<exists>w meta. encodeDataHeader list_writer (Data \<lparr>dm_data = [1, 2], dm_compHeader =
        Some \<lparr>ch_type = CT_Lz4, ch_uncompressedSize = 500\<rparr>, dm_relHeader = None\<rparr>) 9 False
        (bw_new list_writer) = Ok w \<and>
     decodeMeta list_reader (bw_written list_writer (bw_writeBytes list_writer w [1, 2])) True True
        = Ok meta \<and>
     mm_compressionHeader meta = Some \<lparr>ch_type = CT_Lz4, ch_uncompressedSize = 0\<rparr>"
proof -
  have "get32 le_codec (drop 4 (put64 le_codec 9)) = 0"
    by code_simp
  then show ?thesis
    using compressed_message_with_connection_id [OF ref.dbuf_laws_axioms, where udp = True
        and cid = 9 and m = "\<lparr>dm_data = [1, 2], dm_compHeader =
        Some \<lparr>ch_type = CT_Lz4, ch_uncompressedSize = 500\<rparr>, dm_relHeader = None\<rparr>"
        and ch = "\<lparr>ch_type = CT_Lz4, ch_uncompressedSize = 500\<rparr>"]
    by simp
qed

text \<open>A connection control message cannot be read back: the code is written as one byte
  and read as two, so that \<open>decodeMeta\<close> rejects the library's own encoding of \<open>SetMTU\<close>.\<close>

theorem connection_control_not_decodable:
  assumes "dbuf_laws C R rest adv W"
  shows "\<exists>w. encodeControlMsg W (ConnectionControl (SetMTU mtu)) 0 (bw_new W) = Ok w \<and>
     \<not> isOk (decodeMeta R (bw_written W w) udp False)"
  using dbuf_laws.connection_control_unreadable [OF assms] .

theorem connection_control_not_decodable_witness:
  "\<exists>w. encodeControlMsg list_writer (ConnectionControl (SetMTU 1200)) 0 (bw_new list_writer) = Ok w \<and>
     \<not> isOk (decodeMeta list_reader (bw_written list_writer w) True False)"
  using connection_control_not_decodable [OF ref.dbuf_laws_axioms] .

section \<open>Iterating over a datagram\<close>

lemma decodeDataMeta_offset:
  "decodeDataMeta R b start r = Ok meta \<Longrightarrow> start \<le> mm_dataOffset meta"
  by (auto simp: decodeDataMeta_def Let_def unwrap_eq_Inr split: if_splits prod.splits option.splits)

lemma decodeMeta_offset: "decodeMeta R data u c = Ok meta \<Longrightarrow> 1 \<le> mm_dataOffset meta"
  by (auto simp: decodeMeta_def Let_def unwrap_eq_Inr dest: decodeDataMeta_offset split: if_splits)


lemma next_stuck:
  "(\<nexists>meta. fst (QunetUdpMessageIter_next R it) = Some (Ok meta)) \<Longrightarrow>
     snd (QunetUdpMessageIter_next R it) = it"
  by (auto simp: QunetUdpMessageIter_next_def Let_def split: sum.splits if_splits)

lemma next_advances:
  "QunetUdpMessageIter_next R it = (Some (Ok meta), it') \<Longrightarrow>
     it_pos it < it_pos it' \<and> it_data it' = it_data it \<and> it_pos it < length (it_data it)"
  by (auto simp: QunetUdpMessageIter_next_def Let_def dest: decodeMeta_offset
      split: sum.splits if_splits)

lemma next_iterated:
  fixes R :: "'r byte_reader"
  defines "run \<equiv> \<lambda>n it. ((snd \<circ> QunetUdpMessageIter_next R) ^^ n) it"
  shows "(\<nexists>meta. fst (QunetUdpMessageIter_next R (run n it)) = Some (Ok meta)) \<or>
     n \<le> it_pos (run n it) \<and> it_data (run n it) = it_data it"
proof (induction n)
  case 0
  then show ?case by (simp add: run_def)
next
  case (Suc n)
  let ?it = "run n it"
  have step: "run (Suc n) it = snd (QunetUdpMessageIter_next R ?it)"
    by (simp add: run_def)
  show ?case
  proof (cases "\<exists>meta. fst (QunetUdpMessageIter_next R ?it) = Some (Ok meta)")
    case True
    then obtain meta it' where nx: "QunetUdpMessageIter_next R ?it = (Some (Ok meta), it')"
      by (metis prod.collapse)
    with Suc True have "n \<le> it_pos ?it \<and> it_data ?it = it_data it"
      by auto
    with next_advances [OF nx] nx step show ?thesis
      by auto
  next
    case False
    then show ?thesis
      using next_stuck [OF False] step by simp
  qed
qed

text \<open>C35 (termination).  The iteration over the messages of a datagram ends: every message that is
  returned moves the position forward by at least one byte, so that after at most as many
  messages as the datagram has bytes no further message is returned.\<close>

theorem datagram_iteration_ends:
  assumes "length data \<le> n"
  shows "fst (QunetUdpMessageIter_next R
     (((snd \<circ> QunetUdpMessageIter_next R) ^^ n) (QunetUdpMessageIter_new data server)))
     \<noteq> Some (Ok meta)"
proof
  assume ok: "fst (QunetUdpMessageIter_next R
     (((snd \<circ> QunetUdpMessageIter_next R) ^^ n) (QunetUdpMessageIter_new data server)))
     = Some (Ok meta)"
  let ?it = "((snd \<circ> QunetUdpMessageIter_next R) ^^ n) (QunetUdpMessageIter_new data server)"
  from next_iterated [of R n "QunetUdpMessageIter_new data server"] ok
  have "n \<le> it_pos ?it" "it_data ?it = data"
    by (auto simp: QunetUdpMessageIter_new_def)
  moreover have "it_pos ?it < length (it_data ?it)"
    using next_advances ok by (metis prod.collapse)
  ultimately show False
    using assms by simp
qed

theorem datagram_iteration_ends_witness:
  "\<nexists>meta. fst (QunetUdpMessageIter_next list_reader
     (((snd \<circ> QunetUdpMessageIter_next list_reader) ^^ 2) (QunetUdpMessageIter_new [14, 15] False)))
     = Some (Ok meta)"
  using datagram_iteration_ends [of "[14, 15]" 2 list_reader False] by simp

end
