(* ===== verification/Message_Ids.thy ===== *)
theory Message_Ids
  imports Qn_Prelude
begin

text \<open>
  The interface of a 16-bit message id counter: \<open>FragmentStore::nextMessageId\<close> and
  \<open>ReliableStore::nextMessageId\<close> both hand out a current value and move it on, the one by a
  plain increment that wraps to 0, the other skipping 0.  What the sender relies on is that ids
  are not handed out again while earlier messages are still in flight.
\<close>

section \<open>The interface\<close>

locale id_counter =
  fixes next_id :: "'s \<Rightarrow> u16 \<times> 's" and cur :: "'s \<Rightarrow> u16" and bump :: "u16 \<Rightarrow> u16"
  assumes next_value: "fst (next_id s) = cur s"
    and next_moves: "cur (snd (next_id s)) = bump (cur s)"
begin

fun draw :: "nat \<Rightarrow> 's \<Rightarrow> u16 list \<times> 's" where
  "draw 0 s = ([], s)"
| "draw (Suc n) s = (let (i, s) = next_id s; (is, s) = draw n s in (i # is, s))"

lemma draw_ids: "fst (draw n s) = map (\<lambda>j. (bump ^^ j) (cur s)) [0..<n]"
proof (induction n arbitrary: s)
  case (Suc n)
  have "fst (draw (Suc n) s) = cur s # map (\<lambda>j. (bump ^^ j) (bump (cur s))) [0..<n]"
    by (simp add: Let_def case_prod_beta Suc next_value next_moves)
  also have "\<dots> = map (\<lambda>j. (bump ^^ j) (cur s)) (0 # map Suc [0..<n])"
    by (simp add: funpow_swap1)
  also have "0 # map Suc [0..<n] = [0..<Suc n]"
    by (simp add: map_Suc_upt upt_conv_Cons del: upt_Suc)
  finally show ?case .
qed simp

lemma draw_distinct:
  assumes "inj_on (\<lambda>j. (bump ^^ j) (cur s)) {0..<n}"
  shows "distinct (fst (draw n s))"
  using assms by (simp add: draw_ids distinct_map)

end

section \<open>The two ways to move on\<close>

definition bump_wrap :: "u16 \<Rightarrow> u16" where
  "bump_wrap i = i + 1"

definition bump_skip0 :: "u16 \<Rightarrow> u16" where
  "bump_skip0 i = (if i + 1 = 0 then 1 else i + 1)"

lemma bump_wrap_iter: "(bump_wrap ^^ n) i = i + of_nat n"
  by (induction n) (simp_all add: bump_wrap_def)

lemma bump_wrap_inj: "inj_on (\<lambda>j. (bump_wrap ^^ j) i) {0..<65536}"
proof (rule inj_onI)
  fix x y :: nat
  assume "x \<in> {0..<65536}" "y \<in> {0..<65536}" and eq: "(bump_wrap ^^ x) i = (bump_wrap ^^ y) i"
  then have "(of_nat x :: u16) = of_nat y" "x < 65536" "y < 65536"
    by (simp_all add: bump_wrap_iter)
  then show "x = y"
    using unat_of_nat_u16 [of x] unat_of_nat_u16 [of y] by metis
qed

lemma bump_skip0_value:
  assumes "i \<noteq> 0"
  shows "unat (bump_skip0 i) = unat i mod 65535 + 1"
proof (cases "i + 1 = 0")
  case True
  then have "i = -1"
    by (simp only: eq_neg_iff_add_eq_0)
  then have "unat i = 65535"
    by (simp add: unsigned_minus_1_eq_mask mask_eq_exp_minus_1)
  then show ?thesis
    using True by (simp add: bump_skip0_def)
next
  case False
  then have plus: "unat (i + 1) = unat i + 1"
    by (simp add: unatSuc add.commute)
  then have "unat i < 65535"
    using unat_u16_less [of "i + 1"] by linarith
  then show ?thesis
    using plus False by (simp add: bump_skip0_def)
qed

lemma bump_skip0_nonzero: "bump_skip0 i \<noteq> 0"
  by (simp add: bump_skip0_def)

lemma bump_skip0_iter_nonzero: "i \<noteq> 0 \<Longrightarrow> (bump_skip0 ^^ n) i \<noteq> 0"
  by (cases n) (simp_all add: bump_skip0_nonzero)

lemma bump_skip0_iter:
  assumes "i \<noteq> 0"
  shows "unat ((bump_skip0 ^^ n) i) = (unat i - 1 + n) mod 65535 + 1"
proof (induction n)
  case 0
  have "0 < unat i" "unat i < 65536"
    using assms by (simp_all add: unat_gt_0)
  then have "unat i - 1 < 65535" "unat i - 1 + 1 = unat i"
    by linarith+
  then show ?case
    by simp
next
  case (Suc n)
  have "unat ((bump_skip0 ^^ Suc n) i) = unat ((bump_skip0 ^^ n) i) mod 65535 + 1"
    using bump_skip0_value [OF bump_skip0_iter_nonzero [OF assms]] by simp
  also have "\<dots> = ((unat i - 1 + n) mod 65535 + 1) mod 65535 + 1"
    by (simp only: Suc)
  also have "\<dots> = (unat i - 1 + Suc n) mod 65535 + 1"
    by (simp add: mod_simps)
  finally show ?case .
qed

lemma bump_skip0_inj:
  assumes "i \<noteq> 0"
  shows "inj_on (\<lambda>j. (bump_skip0 ^^ j) i) {0..<65535}"
proof (rule inj_onI)
  fix x y :: nat
  assume xy: "x \<in> {0..<65535}" "y \<in> {0..<65535}"
    and eq: "(bump_skip0 ^^ x) i = (bump_skip0 ^^ y) i"
  let ?a = "unat i - 1"
  have "(?a + x) mod 65535 = (?a + y) mod 65535"
    using eq bump_skip0_iter [OF assms, of x] bump_skip0_iter [OF assms, of y] by simp
  then obtain q r where "?a + x + 65535 * q = ?a + y + 65535 * r"
    unfolding nat_mod_eq_iff by blast
  then have "x + 65535 * q = y + 65535 * r"
    by linarith
  then have "x mod 65535 = y mod 65535"
    unfolding nat_mod_eq_iff by blast
  with xy show "x = y"
    by simp
qed

end
