(* ===== verification/Transport_Error.thy ===== *)
theory Transport_Error
  imports Qunet_Message
begin

text \<open>
  The errors of the transports (\<open>include/qunet/socket/transport/Error.hpp\<close>) and of the
  compressors (\<open>include/qunet/compression/Error.hpp\<close>), with their texts.  The errors of
  third-party packages (sockets, TLS, WebSockets) are carried as the text they format to, those of
  ngtcp2 as their code with the text that \<open>ngtcp2_strerror\<close> gives to it.
\<close>

datatype DecompressorError =
    DE_NotInitialized | DE_AlreadyInitialized | DE_InvalidDictionary | DE_DecompressionFailed
  | DE_SizeMismatch

datatype CompressorError =
    CE_NotInitialized | CE_AlreadyInitialized | CE_InvalidDictionary | CE_CompressionFailed

fun CompressorError_message :: "CompressorError \<Rightarrow> string" where
  "CompressorError_message CE_NotInitialized = ''Compressor not initialized''"
| "CompressorError_message CE_AlreadyInitialized = ''Compressor already initialized''"
| "CompressorError_message CE_InvalidDictionary = ''Invalid dictionary for compressor''"
| "CompressorError_message CE_CompressionFailed = ''Compression failed''"

fun DecompressorError_message :: "DecompressorError \<Rightarrow> string" where
  "DecompressorError_message DE_NotInitialized = ''Decompressor not initialized''"
| "DecompressorError_message DE_AlreadyInitialized = ''Decompressor already initialized''"
| "DecompressorError_message DE_InvalidDictionary = ''Invalid dictionary for decompressor''"
| "DecompressorError_message DE_DecompressionFailed = ''Decompression failed''"
| "DecompressorError_message DE_SizeMismatch = ''Decompressed size does not match expected size''"

datatype CustomCode =
    ConnectionTimedOut | HandshakeTimedOut | NotImplemented | UnexpectedMessage | MessageTooLong
  | ZeroLengthMessage | NoBufferSpace | CongestionLimited | DefragmentationError | TooUnreliable
  | InvalidQunetDatabase | InvalidArgument | ReconnectFailed | TimedOut | Closed | Cancelled | Other

fun CustomKind_message :: "CustomCode \<Rightarrow> string" where
  "CustomKind_message NotImplemented = ''Not implemented''"
| "CustomKind_message ConnectionTimedOut = ''Connection timed out''"
| "CustomKind_message HandshakeTimedOut = ''Qunet handshake timed out''"
| "CustomKind_message UnexpectedMessage = ''Unexpected message received''"
| "CustomKind_message MessageTooLong = ''Message too long''"
| "CustomKind_message ZeroLengthMessage = ''Zero length message received''"
| "CustomKind_message NoBufferSpace = ''No buffer space available''"
| "CustomKind_message CongestionLimited = ''Congestion limited, cannot send data right now''"
| "CustomKind_message DefragmentationError =
     ''Defragmentation error, message could not be reassembled''"
| "CustomKind_message TooUnreliable = ''Transport is too unreliable, too many lost messages''"
| "CustomKind_message InvalidQunetDatabase = ''Invalid Qunet database, cannot decode''"
| "CustomKind_message InvalidArgument = ''Invalid argument''"
| "CustomKind_message ReconnectFailed = ''Reconnect failed, server rejected the attempt''"
| "CustomKind_message TimedOut = ''Operation timed out''"
| "CustomKind_message Closed =
     ''Operation cannot be performed because the connection is already closed''"
| "CustomKind_message Cancelled = ''Connection cancelled''"
| "CustomKind_message Other = ''Unknown transport error''"

datatype QuicError = QuicError (qe_code: int) (qe_text: string)

definition QuicError_ok :: "QuicError \<Rightarrow> bool" where
  "QuicError_ok err = (qe_code err = 0)"

definition QuicError_message :: "QuicError \<Rightarrow> string" where
  "QuicError_message err = qe_text err"

datatype TransportError =
    TE_Qsox string
  | TE_Quic QuicError
  | TE_Tls string
  | TE_Ws string
  | TE_String string
  | TE_HandshakeFailure string
  | TE_Decode MessageDecodeError
  | TE_Compressor CompressorError
  | TE_Decompressor DecompressorError
  | CustomKind CustomCode

type_synonym 'a TransportResult = "(TransportError, 'a) outcome"

fun TransportError_message :: "TransportError \<Rightarrow> string" where
  "TransportError_message (TE_Qsox err) = ''Socket error: '' @ err"
| "TransportError_message (TE_Quic err) = ''QUIC error: '' @ QuicError_message err"
| "TransportError_message (TE_Tls err) = ''TLS error: '' @ err"
| "TransportError_message (TE_Ws err) = ''WS error: '' @ err"
| "TransportError_message (TE_String err) = err"
| "TransportError_message (TE_HandshakeFailure reason) = ''Handshake failed: '' @ reason"
| "TransportError_message (TE_Decode err) = ''Error decoding message: '' @ MessageDecodeError_message err"
| "TransportError_message (TE_Compressor err) = ''Compression error: '' @ CompressorError_message err"
| "TransportError_message (TE_Decompressor err) =
     ''Decompression error: '' @ DecompressorError_message err"
| "TransportError_message (CustomKind code) = CustomKind_message code"

lemma CustomKind_message_inj: "CustomKind_message c = CustomKind_message d \<Longrightarrow> c = d"
  by (cases c; cases d; simp)

section \<open>The clock and single-precision numbers\<close>

text \<open>
  \<open>asp::time::Duration\<close> and \<open>asp::time::Instant\<close> belong to a third-party package and
  the deadlines of the retransmission are computed with \<open>float\<close>s; the operations the code
  uses are the fields of a record over an abstract duration \<open>'d\<close>, instant \<open>'i\<close> and
  number \<open>'f\<close>.  A reading of the clock (\<open>Instant::now()\<close>, \<open>elapsed()\<close>) is an argument
  of the function that reads it.
\<close>

record ('d, 'i, 'f) time_ops =
  tm_between :: "'i \<Rightarrow> 'i \<Rightarrow> 'd"
  tm_less :: "'d \<Rightarrow> 'd \<Rightarrow> bool"
  tm_minus :: "'d \<Rightarrow> 'd \<Rightarrow> 'd"
  tm_plus :: "'d \<Rightarrow> 'd \<Rightarrow> 'd"
  tm_divide :: "'d \<Rightarrow> nat \<Rightarrow> 'd"
  tm_zero :: 'd
  tm_isZero :: "'d \<Rightarrow> bool"
  tm_infinite :: 'd
  tm_fromSecs :: "nat \<Rightarrow> 'd"
  tm_fromMillis :: "nat \<Rightarrow> 'd"
  tm_fromMicros :: "u64 \<Rightarrow> 'd"
  tm_fromNanos :: "u64 \<Rightarrow> 'd"
  tm_micros :: "'d \<Rightarrow> u64"
  tm_millisF :: "'d \<Rightarrow> 'f"
  tm_fromMillisF :: "'f \<Rightarrow> 'd"
  fl_dec :: "nat \<Rightarrow> nat \<Rightarrow> 'f"
  fl_ofSize :: "nat \<Rightarrow> 'f"
  fl_plus :: "'f \<Rightarrow> 'f \<Rightarrow> 'f"
  fl_times :: "'f \<Rightarrow> 'f \<Rightarrow> 'f"
  fl_divide :: "'f \<Rightarrow> 'f \<Rightarrow> 'f"
  fl_ofInt :: "int \<Rightarrow> 'f"
  fl_less :: "'f \<Rightarrow> 'f \<Rightarrow> bool"
  tm_millis :: "'d \<Rightarrow> int"
  tm_nanos :: "'d \<Rightarrow> u64"

definition tm_min :: "('d, 'i, 'f) time_ops \<Rightarrow> 'd \<Rightarrow> 'd \<Rightarrow> 'd" where
  "tm_min T a b = (if tm_less T b a then b else a)"

definition fl_max :: "('d, 'i, 'f) time_ops \<Rightarrow> 'f \<Rightarrow> 'f \<Rightarrow> 'f" where
  "fl_max T a b = (if fl_less T a b then b else a)"

text \<open>\<open>elapsed()\<close> of an instant at the clock reading \<open>now\<close>.\<close>

definition tm_elapsed :: "('d, 'i, 'f) time_ops \<Rightarrow> 'i \<Rightarrow> 'i \<Rightarrow> 'd" where
  "tm_elapsed T now i = tm_between T i now"

text \<open>An instance on natural numbers (nanoseconds, and milli-units for the numbers), with
  subtraction cut off at zero; the largest 64-bit number stands for the infinite duration.\<close>

definition nat_time :: "(nat, nat, nat) time_ops" where
  "nat_time = \<lparr>
     tm_between = (\<lambda>i now. now - i), tm_less = (<), tm_minus = (-), tm_plus = (+),
     tm_divide = (div), tm_zero = 0, tm_isZero = (\<lambda>d. d = 0),
     tm_infinite = 18446744073709551615, tm_fromSecs = (\<lambda>n. n * 1000000000),
     tm_fromMillis = (\<lambda>n. n * 1000000), tm_fromMicros = (\<lambda>w. unat w * 1000),
     tm_fromNanos = unat, tm_micros = (\<lambda>d. of_nat (d div 1000)), tm_millisF = (\<lambda>d. d div 1000),
     tm_fromMillisF = (\<lambda>f. f * 1000), fl_dec = (\<lambda>n k. n * 1000 div 10 ^ k),
     fl_ofSize = (\<lambda>n. n * 1000), fl_plus = (+), fl_times = (\<lambda>a b. a * b div 1000),
     fl_divide = (\<lambda>a b. a * 1000 div b), fl_ofInt = (\<lambda>i. nat i * 1000), fl_less = (<),
     tm_millis = (\<lambda>d. int (d div 1000000)), tm_nanos = of_nat\<rparr>"

lemma nat_time_simps [simp]:
  "tm_between nat_time i now = now - i"
  "tm_less nat_time a b = (a < b)"
  "tm_minus nat_time a b = a - b"
  "tm_isZero nat_time a = (a = 0)"
  "tm_plus nat_time a b = a + b"
  "tm_divide nat_time a n = a div n"
  "tm_zero nat_time = 0"
  "fl_divide nat_time f g = f * 1000 div g"
  "fl_ofInt nat_time j = nat j * 1000"
  "tm_fromSecs nat_time n = n * 1000000000"
  "tm_fromMillis nat_time n = n * 1000000"
  "tm_fromMicros nat_time w = unat w * 1000"
  "tm_fromNanos nat_time w = unat w"
  "tm_micros nat_time d = of_nat (d div 1000)"
  "tm_millisF nat_time d = d div 1000"
  "tm_fromMillisF nat_time f = f * 1000"
  "fl_dec nat_time n k = n * 1000 div 10 ^ k"
  "fl_ofSize nat_time n = n * 1000"
  "fl_plus nat_time f g = f + g"
  "fl_times nat_time f g = f * g div 1000"
  "fl_less nat_time f g = (f < g)"
  "tm_infinite nat_time = 18446744073709551615"
  "tm_millis nat_time d = int (d div 1000000)"
  "tm_nanos nat_time d = of_nat d"
  by (simp_all add: nat_time_def)

end
