(* ===== verification/Fragment_Store.thy ===== *)
theory Fragment_Store
  imports Transport_Error Message_Ids "HOL-Library.Multiset"
begin

text \<open>
  Reassembly of fragmented messages (\<open>udp/FragmentStore.hpp\<close>, \<open>udp/FragmentStore.cpp\<close>).
  The store maps a fragmented message's id to the fragments received so far.  A
  \<open>std::unordered_map\<close> is a finite map together with an order in which a loop visits it: the
  order is an argument \<open>ord\<close> of the operations that iterate, of which the theorems only use that
  it enumerates the keys present.
\<close>

section \<open>State and operations\<close>

record Fragment =
  fr_index :: u16
  fr_data :: bytes

record 'i FragMessage =
  fm_messageId :: u16
  fm_receivedAt :: 'i
  fm_totalFragmentCount :: u64
  fm_fragments :: "Fragment list"
  fm_compressionHeader :: "CompressionHeader option"
  fm_reliabilityHeader :: "ReliabilityHeader option"

type_synonym 'i frag_map = "u16 \<rightharpoonup> 'i FragMessage"

record 'i FragmentStore =
  fs_messages :: "'i frag_map"
  fs_nextMessageId :: u16

definition FragmentStore_new :: "'i FragmentStore" where
  "FragmentStore_new = \<lparr>fs_messages = Map.empty, fs_nextMessageId = 1\<rparr>"

text \<open>The entry that \<open>m_messages[id]\<close> creates; its \<open>receivedAt\<close> is overwritten before it is
  read.\<close>

definition FragMessage_new :: "'i \<Rightarrow> 'i FragMessage" where
  "FragMessage_new now = \<lparr>fm_messageId = 0, fm_receivedAt = now, fm_totalFragmentCount = -1,
     fm_fragments = [], fm_compressionHeader = None, fm_reliabilityHeader = None\<rparr>"

text \<open>The loop of \<open>reassemble\<close> that looks for skipped indices and adds up the sizes.\<close>

fun reassemble_size :: "Fragment list \<Rightarrow> nat \<Rightarrow> nat \<Rightarrow> nat TransportResult" where
  "reassemble_size [] expectedIndex totalSize = Ok totalSize"
| "reassemble_size (f # fs) expectedIndex totalSize =
     (if unat (fr_index f) \<noteq> expectedIndex then Err (CustomKind DefragmentationError)
      else reassemble_size fs (Suc expectedIndex) (totalSize + length (fr_data f)))"

text \<open>The loop that copies the fragments one after the other.\<close>

fun reassemble_copy :: "Fragment list \<Rightarrow> nat \<Rightarrow> bytes \<Rightarrow> (nat \<times> bytes) TransportResult" where
  "reassemble_copy [] cur out = Ok (cur, out)"
| "reassemble_copy (f # fs) cur out =
     qn_assert (cur + length (fr_data f) \<le> length out)
       (reassemble_copy fs (cur + length (fr_data f)) (memcpy_at out cur (fr_data f)))"

definition reassemble :: "'i FragMessage \<Rightarrow> QunetMessageMeta option TransportResult" where
  "reassemble msg =
     (let fragments = sort_key fr_index (fm_fragments msg) in
      unwrap (reassemble_size fragments 0 0) (\<lambda>totalSize.
      unwrap (reassemble_copy fragments 0 (replicate totalSize 0)) (\<lambda>(cur, out).
      qn_assert (cur = length out)
        (Ok (Some \<lparr>mm_type = 0, mm_compressionHeader = fm_compressionHeader msg,
                   mm_reliabilityHeader = fm_reliabilityHeader msg,
                   mm_fragmentationHeader = None, mm_data = out, mm_dataOffset = 0\<rparr>)))))"

definition EXPIRY :: "('d, 'i, 'f) time_ops \<Rightarrow> 'd" where
  "EXPIRY T = tm_fromSecs T 10"

text \<open>The loop of \<open>processStored\<close> over the keys in iteration order.\<close>

fun processStored_loop :: "('d, 'i, 'f) time_ops \<Rightarrow> 'i \<Rightarrow> u16 list \<Rightarrow> 'i FragmentStore \<Rightarrow>
    QunetMessageMeta option TransportResult \<times> 'i FragmentStore" where
  "processStored_loop T now [] st = (Ok None, st)"
| "processStored_loop T now (k # ks) st =
     (case fs_messages st k of
        None \<Rightarrow> processStored_loop T now ks st
      | Some msg \<Rightarrow>
          let erased = st\<lparr>fs_messages := (fs_messages st)(k := None)\<rparr> in
          if fm_totalFragmentCount msg = of_nat (length (fm_fragments msg)) then
            (reassemble msg, erased)
          else if tm_less T (EXPIRY T) (tm_elapsed T now (fm_receivedAt msg)) then
            processStored_loop T now ks erased
          else processStored_loop T now ks st)"

definition processStored :: "('d, 'i, 'f) time_ops \<Rightarrow> ('i frag_map \<Rightarrow> u16 list) \<Rightarrow> 'i \<Rightarrow>
    'i FragmentStore \<Rightarrow> QunetMessageMeta option TransportResult \<times> 'i FragmentStore" where
  "processStored T ord now st = processStored_loop T now (ord (fs_messages st)) st"

text \<open>The entry of a message id as \<open>processFragment\<close> finds or creates it, and the entry with a
  fragment added.\<close>

definition fragEntry :: "'i \<Rightarrow> u16 \<Rightarrow> 'i FragmentStore \<Rightarrow> 'i FragMessage" where
  "fragEntry now key st =
     (let fmsg = (case fs_messages st key of None \<Rightarrow> FragMessage_new now | Some m \<Rightarrow> m) in
      if fm_fragments fmsg = [] then fmsg\<lparr>fm_receivedAt := now, fm_messageId := key\<rparr> else fmsg)"

definition addFragment ::
    "FragmentationHeader \<Rightarrow> QunetMessageMeta \<Rightarrow> 'i FragMessage \<Rightarrow> 'i FragMessage" where
  "addFragment frh message fmsg =
     (let fmsg = (if fh_lastFragment frh
                  then fmsg\<lparr>fm_totalFragmentCount := of_nat (unat (fh_fragmentIndex frh) + 1)\<rparr>
                  else fmsg);
          fmsg = fmsg\<lparr>fm_fragments := fm_fragments fmsg @
                   [\<lparr>fr_index = fh_fragmentIndex frh, fr_data = mm_data message\<rparr>]\<rparr>;
          fmsg = (case mm_compressionHeader message of None \<Rightarrow> fmsg
                  | Some ch \<Rightarrow> fmsg\<lparr>fm_compressionHeader := Some ch\<rparr>)
      in (case mm_reliabilityHeader message of None \<Rightarrow> fmsg
          | Some rh \<Rightarrow> fmsg\<lparr>fm_reliabilityHeader := Some rh\<rparr>))"

definition processFragment :: "('d, 'i, 'f) time_ops \<Rightarrow> ('i frag_map \<Rightarrow> u16 list) \<Rightarrow> 'i \<Rightarrow>
    'i FragmentStore \<Rightarrow> QunetMessageMeta \<Rightarrow>
    QunetMessageMeta option TransportResult \<times> 'i FragmentStore" where
  "processFragment T ord now st message =
     (case mm_fragmentationHeader message of
        None \<Rightarrow> (Inl AssertionFailed, st)
      | Some frh \<Rightarrow>
          let key = fh_messageId frh;
              fmsg = fragEntry now key st
          in if find (\<lambda>f. fr_index f = fh_fragmentIndex frh) (fm_fragments fmsg) \<noteq> None then
               (Ok None, st\<lparr>fs_messages := (fs_messages st)(key \<mapsto> fmsg)\<rparr>)
             else
               processStored T ord now
                 (st\<lparr>fs_messages := (fs_messages st)(key \<mapsto> addFragment frh message fmsg)\<rparr>))"

definition FragmentStore_nextMessageId :: "'i FragmentStore \<Rightarrow> u16 \<times> 'i FragmentStore" where
  "FragmentStore_nextMessageId st =
     (fs_nextMessageId st, st\<lparr>fs_nextMessageId := fs_nextMessageId st + 1\<rparr>)"

section \<open>Reassembling a complete message\<close>

lemma reassemble_size_eq:
  "reassemble_size fs e t =
     (if map (unat \<circ> fr_index) fs = [e..<e + length fs]
      then Ok (t + sum_list (map (length \<circ> fr_data) fs))
      else Err (CustomKind DefragmentationError))"
proof (induction fs arbitrary: e t)
  case (Cons f fs)
  have "[e..<e + length (f # fs)] = e # [Suc e..<Suc e + length fs]"
    using upt_conv_Cons [of e "e + length (f # fs)"] by simp
  then show ?case
    using Cons.IH [of "Suc e" "t + length (fr_data f)"] by (simp add: o_def)
qed simp

lemma memcpy_at_extend:
  assumes "cur + length src \<le> length out"
  shows "take (cur + length src) (memcpy_at out cur src) = take cur out @ src"
  using assms by (simp add: memcpy_at_def)

lemma reassemble_copy_eq:
  "cur + sum_list (map (length \<circ> fr_data) fs) = length out \<Longrightarrow>
     reassemble_copy fs cur out = Ok (length out, take cur out @ concat (map fr_data fs))"
proof (induction fs arbitrary: cur out)
  case (Cons f fs)
  then have le: "cur + length (fr_data f) \<le> length out"
    by simp
  then have "reassemble_copy fs (cur + length (fr_data f)) (memcpy_at out cur (fr_data f))
     = Ok (length out, take (cur + length (fr_data f)) (memcpy_at out cur (fr_data f))
         @ concat (map fr_data fs))"
    using Cons by simp
  then show ?case
    using le by (simp add: memcpy_at_extend)
qed simp

text \<open>The result of \<open>reassemble\<close> in one equation: neither assertion can fail, and the message is
  the concatenation of the fragments in the order of their indices.\<close>

lemma reassemble_eq:
  "reassemble msg =
     (let fragments = sort_key fr_index (fm_fragments msg) in
      if map (unat \<circ> fr_index) fragments = [0..<length fragments]
      then Ok (Some \<lparr>mm_type = 0, mm_compressionHeader = fm_compressionHeader msg,
                     mm_reliabilityHeader = fm_reliabilityHeader msg,
                     mm_fragmentationHeader = None, mm_data = concat (map fr_data fragments),
                     mm_dataOffset = 0\<rparr>)
      else Err (CustomKind DefragmentationError))"
proof -
  let ?f = "sort_key fr_index (fm_fragments msg)"
  let ?n = "sum_list (map (length \<circ> fr_data) ?f)"
  have "reassemble_copy ?f 0 (replicate ?n 0) = Ok (?n, concat (map fr_data ?f))"
    using reassemble_copy_eq [of 0 ?f "replicate ?n 0"] by simp
  moreover have "length (concat (map fr_data ?f)) = ?n"
    by (simp add: length_concat o_def)
  ultimately show ?thesis
    by (simp add: reassemble_def reassemble_size_eq Let_def)
qed

lemma sorted_distinct_unique:
  fixes xs :: "nat list"
  assumes "sorted xs" "distinct xs" "set xs = {0..<n}"
  shows "xs = [0..<n]"
  using assms by (metis sorted_distinct_set_unique sorted_upt distinct_upt set_upt)

lemma reassemble_permuted:
  assumes d: "distinct js" "set js = {0..<n}" "n \<le> 65536"
    and f: "fm_fragments msg = map (\<lambda>i. \<lparr>fr_index = of_nat i, fr_data = ps ! i\<rparr>) js"
    and n: "length ps = n"
  shows "reassemble msg =
     Ok (Some \<lparr>mm_type = 0, mm_compressionHeader = fm_compressionHeader msg,
               mm_reliabilityHeader = fm_reliabilityHeader msg, mm_fragmentationHeader = None,
               mm_data = concat ps, mm_dataOffset = 0\<rparr>)"
proof -
  let ?F = "\<lambda>i. \<lparr>fr_index = of_nat i :: u16, fr_data = ps ! i\<rparr>"
  have small: "unat (of_nat i :: u16) = i" if "i \<in> set js" for i
    using that d by (simp add: unat_of_nat_u16)
  have "mset js = mset [0..<n]"
    using set_eq_iff_mset_eq_distinct [OF d(1) distinct_upt, of 0 n] d(2) by simp
  then have "mset (fm_fragments msg) = mset (map ?F [0..<n])"
    by (simp add: f)
  moreover have "sorted (map fr_index (map ?F [0..<n]))"
    using d(3) by (auto simp: sorted_iff_nth_mono word_le_nat_alt unat_of_nat_u16)
  moreover have "inj_on fr_index (set (fm_fragments msg))"
    by (auto simp: f inj_on_def) (metis small)+
  ultimately have S: "sort_key fr_index (fm_fragments msg) = map ?F [0..<n]"
    by (intro sort_key_inj_key_eq)
  have "map (\<lambda>x. unat (of_nat x :: u16)) [0..<n] = [0..<n]"
    using d(3) by (intro map_idI) (simp add: unat_of_nat_u16)
  moreover have "map ((!) ps) [0..<n] = ps"
    using map_nth [of ps] n by simp
  ultimately show ?thesis
    using S by (simp add: reassemble_eq Let_def o_def)
qed


section \<open>The invariant of the store\<close>

definition complete :: "'i FragMessage \<Rightarrow> bool" where
  "complete m \<longleftrightarrow> fm_totalFragmentCount m = of_nat (length (fm_fragments m))"

definition expired :: "('d, 'i, 'f) time_ops \<Rightarrow> 'i \<Rightarrow> 'i FragMessage \<Rightarrow> bool" where
  "expired T now m \<longleftrightarrow> tm_less T (EXPIRY T) (tm_elapsed T now (fm_receivedAt m))"

definition entry_ok :: "u16 \<Rightarrow> 'i FragMessage \<Rightarrow> bool" where
  "entry_ok k m \<longleftrightarrow> fm_messageId m = k \<and> fm_fragments m \<noteq> [] \<and>
     distinct (map fr_index (fm_fragments m))"

text \<open>Between two calls every entry belongs to its key, has fragments with different indices, and
  is incomplete.\<close>

definition fs_inv :: "'i FragmentStore \<Rightarrow> bool" where
  "fs_inv st \<longleftrightarrow> (\<forall>k m. fs_messages st k = Some m \<longrightarrow> entry_ok k m \<and> \<not> complete m)"

text \<open>What the hash map's iteration order must give: every key once.\<close>

definition visits_all :: "('i frag_map \<Rightarrow> u16 list) \<Rightarrow> bool" where
  "visits_all ord \<longleftrightarrow> (\<forall>m. set (ord m) = dom m)"

definition keeps_fresh ::
    "('d, 'i, 'f) time_ops \<Rightarrow> 'i \<Rightarrow> u16 set \<Rightarrow> 'i FragmentStore \<Rightarrow> 'i FragmentStore \<Rightarrow> bool" where
  "keeps_fresh T now A st st' \<longleftrightarrow>
     (\<forall>k m. fs_messages st' k = Some m \<longrightarrow> fs_messages st k = Some m) \<and>
     fs_nextMessageId st' = fs_nextMessageId st \<and>
     (\<forall>k m. k \<notin> A \<and> fs_messages st k = Some m \<and> \<not> expired T now m \<longrightarrow>
        fs_messages st' k = Some m)"

lemma keeps_freshI:
  assumes "\<And>k m. fs_messages st' k = Some m \<Longrightarrow> fs_messages st k = Some m"
    and "fs_nextMessageId st' = fs_nextMessageId st"
    and "\<And>k m. k \<notin> A \<Longrightarrow> fs_messages st k = Some m \<Longrightarrow> \<not> expired T now m \<Longrightarrow>
           fs_messages st' k = Some m"
  shows "keeps_fresh T now A st st'"
  unfolding keeps_fresh_def using assms by blast

lemma keeps_freshD:
  assumes "keeps_fresh T now A st st'"
  shows "fs_messages st' k = Some m \<Longrightarrow> fs_messages st k = Some m"
    and "fs_nextMessageId st' = fs_nextMessageId st"
    and "k \<notin> A \<Longrightarrow> fs_messages st k = Some m \<Longrightarrow> \<not> expired T now m \<Longrightarrow> fs_messages st' k = Some m"
  using assms unfolding keeps_fresh_def by blast+

lemma keeps_fresh_refl [simp]: "keeps_fresh T now A st st"
  by (rule keeps_freshI) auto

lemma keeps_fresh_erase:
  assumes "keeps_fresh T now A (st\<lparr>fs_messages := (fs_messages st)(k := None)\<rparr>) st'"
    and "k \<in> A \<or> (\<forall>m. fs_messages st k = Some m \<longrightarrow> expired T now m)"
  shows "keeps_fresh T now A st st'"
proof (rule keeps_freshI)
  show "fs_messages st j = Some m" if "fs_messages st' j = Some m" for j m
    using keeps_freshD(1) [OF assms(1) that] by (simp split: if_splits)
  show "fs_nextMessageId st' = fs_nextMessageId st"
    using keeps_freshD(2) [OF assms(1)] by simp
  show "fs_messages st' j = Some m"
    if "j \<notin> A" "fs_messages st j = Some m" "\<not> expired T now m" for j m
  proof -
    have "j \<noteq> k"
      using that assms(2) by auto
    then show ?thesis
      using keeps_freshD(3) [OF assms(1), of j m] that by simp
  qed
qed

lemma processStored_loop_none:
  "(\<And>k m. fs_messages st k = Some m \<Longrightarrow> \<not> complete m) \<Longrightarrow>
     \<exists>st'. processStored_loop T now ks st = (Ok None, st') \<and> keeps_fresh T now {} st st'"
proof (induction ks arbitrary: st)
  case (Cons k ks)
  show ?case
  proof (cases "fs_messages st k")
    case None
    then show ?thesis
      using Cons by simp
  next
    case (Some m)
    let ?e = "st\<lparr>fs_messages := (fs_messages st)(k := None)\<rparr>"
    have inc: "fm_totalFragmentCount m \<noteq> of_nat (length (fm_fragments m))"
      using Cons.prems [OF Some] by (simp add: complete_def)
    have ih: "\<exists>st'. processStored_loop T now ks ?e = (Ok None, st') \<and> keeps_fresh T now {} ?e st'"
      by (rule Cons.IH) (use Cons.prems in \<open>simp split: if_splits\<close>)
    show ?thesis
    proof (cases "expired T now m")
      case True
      then have "processStored_loop T now (k # ks) st = processStored_loop T now ks ?e"
        using Some inc by (simp add: expired_def Let_def)
      then show ?thesis
        using ih keeps_fresh_erase [of T now "{}" st k] True Some by fastforce
    next
      case False
      then have "processStored_loop T now (k # ks) st = processStored_loop T now ks st"
        using Some inc by (simp add: expired_def Let_def)
      then show ?thesis
        using Cons.IH [OF Cons.prems] by simp
    qed
  qed
qed simp

lemma processStored_loop_complete:
  "fs_messages st k0 = Some m0 \<Longrightarrow> complete m0 \<Longrightarrow> k0 \<in> set ks \<Longrightarrow>
     (\<And>k m. fs_messages st k = Some m \<Longrightarrow> k \<noteq> k0 \<Longrightarrow> \<not> complete m) \<Longrightarrow>
     \<exists>st'. processStored_loop T now ks st = (reassemble m0, st') \<and>
       keeps_fresh T now {k0} st st' \<and> fs_messages st' k0 = None"
proof (induction ks arbitrary: st)
  case (Cons k ks)
  let ?e = "st\<lparr>fs_messages := (fs_messages st)(k := None)\<rparr>"
  show ?case
  proof (cases "k = k0")
    case True
    have "keeps_fresh T now {k0} st ?e"
      by (rule keeps_fresh_erase [where k = k]) (simp_all add: True)
    then show ?thesis
      using Cons.prems True by (simp add: complete_def Let_def)
  next
    case ne: False
    show ?thesis
    proof (cases "fs_messages st k")
      case None
      then show ?thesis
        using Cons ne by simp
    next
      case (Some m)
      have inc: "fm_totalFragmentCount m \<noteq> of_nat (length (fm_fragments m))"
        using Cons.prems(4) [OF Some ne] by (simp add: complete_def)
      have ih: "\<exists>st'. processStored_loop T now ks ?e = (reassemble m0, st') \<and>
          keeps_fresh T now {k0} ?e st' \<and> fs_messages st' k0 = None"
        using Cons.prems ne by (intro Cons.IH) (auto split: if_splits)
      show ?thesis
      proof (cases "expired T now m")
        case True
        then have "processStored_loop T now (k # ks) st = processStored_loop T now ks ?e"
          using Some inc by (simp add: expired_def Let_def)
        then show ?thesis
          using ih keeps_fresh_erase [of T now "{k0}" st k] True Some by fastforce
      next
        case False
        then have "processStored_loop T now (k # ks) st = processStored_loop T now ks st"
          using Some inc by (simp add: expired_def Let_def)
        then show ?thesis
          using Cons.IH [of st] Cons.prems ne by auto
      qed
    qed
  qed
qed simp


text \<open>One call of \<open>processFragment\<close>: a duplicate changes nothing; otherwise the result is decided
  by the entry of the fragment's own message, in whatever order the map is visited.\<close>

lemma find_index: "find (\<lambda>f. fr_index f = i) fs \<noteq> None \<longleftrightarrow> i \<in> fr_index ` set fs"
  by (auto simp: find_None_iff)

lemma fragEntry_fragments:
  assumes "fs_inv st"
  shows "fm_fragments (fragEntry now k st) =
     (case fs_messages st k of None \<Rightarrow> [] | Some m \<Rightarrow> fm_fragments m)"
  by (simp add: fragEntry_def FragMessage_new_def Let_def split: option.splits)

lemma fragEntry_present:
  assumes "fs_inv st" "fs_messages st k = Some m"
  shows "fragEntry now k st = m"
  using assms by (simp add: fragEntry_def fs_inv_def entry_ok_def)

lemma addFragment_fragments [simp]:
  "fm_fragments (addFragment frh message e) =
     fm_fragments e @ [\<lparr>fr_index = fh_fragmentIndex frh, fr_data = mm_data message\<rparr>]"
  "fm_messageId (addFragment frh message e) = fm_messageId e"
  "fm_receivedAt (addFragment frh message e) = fm_receivedAt e"
  by (simp_all add: addFragment_def Let_def split: option.splits)

lemma processFragment_duplicate:
  assumes inv: "fs_inv st" and frh: "mm_fragmentationHeader message = Some frh"
    and m: "fs_messages st (fh_messageId frh) = Some m"
    and dup: "fh_fragmentIndex frh \<in> fr_index ` set (fm_fragments m)"
  shows "processFragment T ord now st message = (Ok None, st)"
proof -
  have "(fs_messages st)(fh_messageId frh \<mapsto> m) = fs_messages st"
    using m by (simp add: map_upd_triv)
  then show ?thesis
    using dup frh fragEntry_present [OF inv m]
    by (simp add: processFragment_def Let_def find_index [unfolded not_None_eq])
qed

lemma fs_inv_keeps:
  assumes "keeps_fresh T now A st1 st'"
    and "\<And>k m. fs_messages st1 k = Some m \<Longrightarrow> fs_messages st' k = Some m \<Longrightarrow>
           entry_ok k m \<and> \<not> complete m"
  shows "fs_inv st'"
  unfolding fs_inv_def using keeps_freshD(1) [OF assms(1)] assms(2) by blast

lemma processFragment_new:
  assumes inv: "fs_inv st" and ord: "visits_all ord"
    and frh: "mm_fragmentationHeader message = Some frh"
    and key: "key = fh_messageId frh"
    and nodup: "fh_fragmentIndex frh \<notin> fr_index ` set (fm_fragments (fragEntry now key st))"
    and new: "new = addFragment frh message (fragEntry now key st)"
  shows "\<exists>st'. processFragment T ord now st message =
            (if complete new then reassemble new else Ok None, st') \<and>
          keeps_fresh T now (if complete new then {key} else {})
            (st\<lparr>fs_messages := (fs_messages st)(key \<mapsto> new)\<rparr>) st' \<and>
          (complete new \<longrightarrow> fs_messages st' key = None) \<and> fs_inv st'"
proof -
  let ?st1 = "st\<lparr>fs_messages := (fs_messages st)(key \<mapsto> new)\<rparr>"
  have run: "processFragment T ord now st message
      = processStored_loop T now (ord (fs_messages ?st1)) ?st1"
    using nodup frh key
    by (simp add: processFragment_def processStored_def Let_def find_index [unfolded not_None_eq] new)
  have mem: "key \<in> set (ord (fs_messages ?st1))"
    using ord by (simp add: visits_all_def)
  have other: "entry_ok k m \<and> \<not> complete m" if "fs_messages ?st1 k = Some m" "k \<noteq> key" for k m
    using inv that by (simp add: fs_inv_def)
  have newok: "entry_ok key new"
  proof (cases "fs_messages st key")
    case None
    then show ?thesis
      by (simp add: new entry_ok_def fragEntry_def FragMessage_new_def)
  next
    case (Some m)
    then have "entry_ok key m" "fragEntry now key st = m"
      using inv fragEntry_present [OF inv Some] by (simp_all add: fs_inv_def)
    then show ?thesis
      using nodup by (simp add: new entry_ok_def)
  qed
  show ?thesis
  proof (cases "complete new")
    case True
    obtain st' where st': "processStored_loop T now (ord (fs_messages ?st1)) ?st1 = (reassemble new, st')"
      "keeps_fresh T now {key} ?st1 st'" "fs_messages st' key = None"
      using processStored_loop_complete [of ?st1 key new "ord (fs_messages ?st1)" T now] True mem other
      by auto
    have "fs_inv st'"
      by (rule fs_inv_keeps [OF st'(2)]) (use other st'(3) in \<open>metis option.distinct(1)\<close>)
    with st' run True show ?thesis
      by auto
  next
    case False
    have all: "entry_ok k m \<and> \<not> complete m" if "fs_messages ?st1 k = Some m" for k m
    proof (cases "k = key")
      case True
      then show ?thesis
        using that newok False by simp
    next
      case False
      then show ?thesis
        using other that by blast
    qed
    then obtain st' where st': "processStored_loop T now (ord (fs_messages ?st1)) ?st1 = (Ok None, st')"
      "keeps_fresh T now {} ?st1 st'"
      using processStored_loop_none [of ?st1] by blast
    have "fs_inv st'"
      by (rule fs_inv_keeps [OF st'(2)]) (rule all)
    with st' run False show ?thesis
      by auto
  qed
qed


section \<open>Reassembly under reordering, duplication and interleaving\<close>

text \<open>Fragment \<open>i\<close> of a message with id \<open>k\<close> and the pieces \<open>ps\<close>: only the first fragment
  carries the compression and reliability headers, only the last one is marked as last.\<close>

definition is_fragment :: "u16 \<Rightarrow> CompressionHeader option \<Rightarrow> ReliabilityHeader option \<Rightarrow>
    bytes list \<Rightarrow> nat \<Rightarrow> QunetMessageMeta \<Rightarrow> bool" where
  "is_fragment k cmp rel ps i meta \<longleftrightarrow> i < length ps \<and>
     mm_fragmentationHeader meta = Some \<lparr>fh_messageId = k, fh_fragmentIndex = of_nat i,
       fh_lastFragment = (Suc i = length ps)\<rparr> \<and>
     mm_data meta = ps ! i \<and>
     mm_compressionHeader meta = (if i = 0 then cmp else None) \<and>
     mm_reliabilityHeader meta = (if i = 0 then rel else None)"

definition of_message :: "u16 \<Rightarrow> QunetMessageMeta \<Rightarrow> bool" where
  "of_message k meta = (case mm_fragmentationHeader meta of None \<Rightarrow> False
     | Some frh \<Rightarrow> fh_messageId frh = k)"

definition index_of :: "QunetMessageMeta \<Rightarrow> nat" where
  "index_of meta = (case mm_fragmentationHeader meta of None \<Rightarrow> 0
     | Some frh \<Rightarrow> unat (fh_fragmentIndex frh))"

text \<open>A sequence of arrivals, each with the clock reading at which it is processed.\<close>

fun receiveFragments :: "('d, 'i, 'f) time_ops \<Rightarrow> ('i frag_map \<Rightarrow> u16 list) \<Rightarrow>
    'i FragmentStore \<Rightarrow> ('i \<times> QunetMessageMeta) list \<Rightarrow>
    QunetMessageMeta option TransportResult list \<times> 'i FragmentStore" where
  "receiveFragments T ord st [] = ([], st)"
| "receiveFragments T ord st ((now, m) # evs) =
     (let (r, st1) = processFragment T ord now st m;
          (rs, st2) = receiveFragments T ord st1 evs
      in (r # rs, st2))"

definition arrived :: "u16 \<Rightarrow> ('i \<times> QunetMessageMeta) list \<Rightarrow> nat set" where
  "arrived k evs = index_of ` {m \<in> snd ` set evs. of_message k m}"

text \<open>The entry of message \<open>k\<close> when exactly the fragments \<open>S\<close> of it have arrived.\<close>

definition collected :: "u16 \<Rightarrow> CompressionHeader option \<Rightarrow> ReliabilityHeader option \<Rightarrow>
    bytes list \<Rightarrow> 'i set \<Rightarrow> nat set \<Rightarrow> 'i FragMessage \<Rightarrow> bool" where
  "collected k cmp rel ps clk S m \<longleftrightarrow>
     (\<exists>js. distinct js \<and> set js = S \<and>
        fm_fragments m = map (\<lambda>i. \<lparr>fr_index = of_nat i, fr_data = ps ! i\<rparr>) js) \<and>
     fm_totalFragmentCount m = (if length ps - 1 \<in> S then of_nat (length ps) else -1) \<and>
     fm_compressionHeader m = (if 0 \<in> S then cmp else None) \<and>
     fm_reliabilityHeader m = (if 0 \<in> S then rel else None) \<and>
     fm_receivedAt m \<in> clk"

definition holds_partial :: "u16 \<Rightarrow> CompressionHeader option \<Rightarrow> ReliabilityHeader option \<Rightarrow>
    bytes list \<Rightarrow> 'i set \<Rightarrow> nat set \<Rightarrow> 'i FragmentStore \<Rightarrow> bool" where
  "holds_partial k cmp rel ps clk S st \<longleftrightarrow>
     (if S = {} then fs_messages st k = None
      else \<exists>m. fs_messages st k = Some m \<and> collected k cmp rel ps clk S m)"

lemma unat_of_nat_u64: "a < 65537 \<Longrightarrow> unat (of_nat a :: u64) = a"
  by (simp add: unat_of_nat)

lemma of_nat_u64_eq: "a < 65537 \<Longrightarrow> b < 65537 \<Longrightarrow> (of_nat a :: u64) = of_nat b \<longleftrightarrow> a = b"
  using unat_of_nat_u64 [of a] unat_of_nat_u64 [of b] by metis

lemma of_nat_u64_minus1: "a < 65537 \<Longrightarrow> (of_nat a :: u64) \<noteq> -1"
proof
  assume a: "a < 65537" and eq: "(of_nat a :: u64) = -1"
  have "unat (-1 :: u64) = 2 ^ 64 - 1"
    by (simp add: unsigned_minus_1_eq_mask mask_eq_exp_minus_1)
  then show False
    using a eq unat_of_nat_u64 [OF a] by simp
qed

lemma addFragment_headers:
  "fm_totalFragmentCount (addFragment frh message e) =
     (if fh_lastFragment frh then of_nat (unat (fh_fragmentIndex frh) + 1)
      else fm_totalFragmentCount e)"
  "fm_compressionHeader (addFragment frh message e) =
     (case mm_compressionHeader message of None \<Rightarrow> fm_compressionHeader e | Some ch \<Rightarrow> Some ch)"
  "fm_reliabilityHeader (addFragment frh message e) =
     (case mm_reliabilityHeader message of None \<Rightarrow> fm_reliabilityHeader e | Some rh \<Rightarrow> Some rh)"
  by (simp_all add: addFragment_def Let_def split: option.splits)

lemma collected_complete:
  assumes "collected k cmp rel ps clk S m" "S \<subseteq> {0..<length ps}" "S \<noteq> {}"
    and "length ps \<le> 65536"
  shows "complete m \<longleftrightarrow> S = {0..<length ps}"
proof -
  obtain js where js: "distinct js" "set js = S"
    "fm_fragments m = map (\<lambda>i. \<lparr>fr_index = of_nat i, fr_data = ps ! i\<rparr>) js"
    using assms(1) by (auto simp: collected_def)
  then have len: "length (fm_fragments m) = card S"
    using distinct_card by fastforce
  have card: "card S \<le> length ps"
    using card_mono [OF _ assms(2)] by simp
  show ?thesis
  proof (cases "length ps - 1 \<in> S")
    case True
    then have "fm_totalFragmentCount m = of_nat (length ps)"
      using assms(1) by (simp add: collected_def)
    then have "complete m \<longleftrightarrow> length ps = card S"
      using len card assms(4) of_nat_u64_eq [of "length ps" "card S"] by (simp add: complete_def)
    then show ?thesis
      using assms(2) card_subset_eq [of "{0..<length ps}" S] by auto
  next
    case False
    then have "fm_totalFragmentCount m = -1"
      using assms(1) by (simp add: collected_def)
    moreover have "S \<noteq> {0..<length ps}"
      using False assms(2,3) by auto
    ultimately show ?thesis
      using len card assms(4) of_nat_u64_minus1 [of "card S"] by (auto simp: complete_def)
  qed
qed

lemma collected_add_entry:
  assumes fr: "is_fragment k cmp rel ps i meta" "mm_fragmentationHeader meta = Some frh"
    and small: "length ps \<le> 65536" and "i \<notin> S"
    and js: "distinct js" "set js = S"
      "fm_fragments e = map (\<lambda>i. \<lparr>fr_index = of_nat i, fr_data = ps ! i\<rparr>) js"
    and e: "fm_totalFragmentCount e = (if length ps - 1 \<in> S then of_nat (length ps) else -1)"
      "fm_compressionHeader e = (if 0 \<in> S then cmp else None)"
      "fm_reliabilityHeader e = (if 0 \<in> S then rel else None)" "fm_receivedAt e \<in> clk"
  shows "collected k cmp rel ps clk (insert i S) (addFragment frh meta e)"
proof -
  have frh: "frh = \<lparr>fh_messageId = k, fh_fragmentIndex = of_nat i, fh_lastFragment = (Suc i = length ps)\<rparr>"
    and d: "mm_data meta = ps ! i" "mm_compressionHeader meta = (if i = 0 then cmp else None)"
    "mm_reliabilityHeader meta = (if i = 0 then rel else None)" and i: "i < length ps"
    using fr by (auto simp: is_fragment_def)
  have "unat (of_nat i :: u16) = i"
    using i small by (simp add: unat_of_nat_u16)
  then have "fm_totalFragmentCount (addFragment frh meta e) =
     (if Suc i = length ps then of_nat (length ps) else fm_totalFragmentCount e)"
    by (cases "i + 1 = length ps")
      (simp_all only: addFragment_headers frh FragmentationHeader.select_convs Suc_eq_plus1
        if_True if_False simp_thms)
  then have tot: "fm_totalFragmentCount (addFragment frh meta e) =
     (if length ps - 1 \<in> insert i S then of_nat (length ps) else -1)"
    using e(1) i by (auto simp del: of_nat_Suc)
  have frs: "\<exists>js. distinct js \<and> set js = insert i S \<and> fm_fragments (addFragment frh meta e)
     = map (\<lambda>i. \<lparr>fr_index = of_nat i, fr_data = ps ! i\<rparr>) js"
    using js d assms(4) frh by (intro exI [of _ "js @ [i]"]) simp
  have "fm_compressionHeader (addFragment frh meta e) = (if 0 \<in> insert i S then cmp else None)"
    "fm_reliabilityHeader (addFragment frh meta e) = (if 0 \<in> insert i S then rel else None)"
    using e d assms(4) by (auto simp: addFragment_headers split: option.splits)
  with tot frs e(4) show ?thesis
    by (simp add: collected_def)
qed

lemma collected_add:
  assumes "holds_partial k cmp rel ps clk S st" "fs_inv st" "length ps \<le> 65536"
    and "is_fragment k cmp rel ps i meta" "i \<notin> S" "now \<in> clk"
    and "mm_fragmentationHeader meta = Some frh"
  shows "collected k cmp rel ps clk (insert i S) (addFragment frh meta (fragEntry now k st))"
proof (cases "S = {}")
  case True
  then have "fs_messages st k = None"
    using assms(1) by (simp add: holds_partial_def)
  then have "fragEntry now k st = (FragMessage_new now)\<lparr>fm_receivedAt := now, fm_messageId := k\<rparr>"
    by (simp add: fragEntry_def FragMessage_new_def)
  then show ?thesis
    using assms(5,6) True
    by (intro collected_add_entry [OF assms(4,7,3), where js = "[]"])
      (simp_all add: FragMessage_new_def)
next
  case False
  then obtain m where m: "fs_messages st k = Some m" "collected k cmp rel ps clk S m"
    using assms(1) by (auto simp: holds_partial_def)
  then obtain js where js: "distinct js" "set js = S"
    "fm_fragments m = map (\<lambda>i. \<lparr>fr_index = of_nat i, fr_data = ps ! i\<rparr>) js"
    by (auto simp: collected_def)
  show ?thesis
    unfolding fragEntry_present [OF assms(2) m(1)]
    by (rule collected_add_entry [OF assms(4,7,3,5) js]) (use m(2) in \<open>simp_all add: collected_def\<close>)
qed


lemma partial_index:
  assumes "holds_partial k cmp rel ps clk S st" "fs_inv st" "S \<subseteq> {0..<length ps}"
    and "length ps \<le> 65536" "i < length ps"
  shows "of_nat i \<in> fr_index ` set (fm_fragments (fragEntry now k st)) \<longleftrightarrow> i \<in> S"
proof (cases "S = {}")
  case True
  then show ?thesis
    using assms(1) by (simp add: holds_partial_def fragEntry_fragments [OF assms(2)])
next
  case False
  then obtain m js where m: "fs_messages st k = Some m"
    and js: "set js = S" "fm_fragments m = map (\<lambda>i. \<lparr>fr_index = of_nat i, fr_data = ps ! i\<rparr>) js"
    using assms(1) by (auto simp: holds_partial_def collected_def)
  have "(of_nat i :: u16) = of_nat j \<longleftrightarrow> i = j" if "j \<in> S" for j
  proof -
    have "i < 65536" "j < 65536"
      using that assms(3-5) by auto
    then show ?thesis
      using unat_of_nat_u16 [of i] unat_of_nat_u16 [of j] by metis
  qed
  then show ?thesis
    using js m by (auto simp: fragEntry_fragments [OF assms(2)] image_iff)
qed

text \<open>No entry grows stale between the clock readings \<open>clk\<close>; an arrival is a fragment read at such
  a time, and if its id is \<open>k\<close> it is one of the fragments of the message.\<close>

definition timely :: "('d, 'i, 'f) time_ops \<Rightarrow> 'i set \<Rightarrow> bool" where
  "timely T clk \<longleftrightarrow> (\<forall>t\<in>clk. \<forall>now\<in>clk. \<not> tm_less T (EXPIRY T) (tm_elapsed T now t))"

definition arrival :: "u16 \<Rightarrow> CompressionHeader option \<Rightarrow> ReliabilityHeader option \<Rightarrow>
    bytes list \<Rightarrow> 'i set \<Rightarrow> 'i \<times> QunetMessageMeta \<Rightarrow> bool" where
  "arrival k cmp rel ps clk ev \<longleftrightarrow> fst ev \<in> clk \<and> mm_fragmentationHeader (snd ev) \<noteq> None \<and>
     (of_message k (snd ev) \<longrightarrow> is_fragment k cmp rel ps (index_of (snd ev)) (snd ev))"

lemma collected_fresh:
  "timely T clk \<Longrightarrow> collected k cmp rel ps clk S m \<Longrightarrow> now \<in> clk \<Longrightarrow> \<not> expired T now m"
  by (auto simp: collected_def expired_def timely_def)

lemma own_fragment:
  assumes ord: "visits_all ord" and size: "length ps \<le> 65536" and clk: "timely T clk"
    and inv: "fs_inv st" and part: "holds_partial k cmp rel ps clk S st"
    and S: "S \<subseteq> {0..<length ps}" "S \<noteq> {0..<length ps}"
    and ev: "arrival k cmp rel ps clk (now, meta)" "of_message k meta"
  obtains st' where
    "insert (index_of meta) S \<noteq> {0..<length ps} \<Longrightarrow>
       processFragment T ord now st meta = (Ok None, st') \<and> fs_inv st' \<and>
       holds_partial k cmp rel ps clk (insert (index_of meta) S) st'"
    and "insert (index_of meta) S = {0..<length ps} \<Longrightarrow>
       processFragment T ord now st meta =
         (Ok (Some \<lparr>mm_type = 0, mm_compressionHeader = cmp, mm_reliabilityHeader = rel,
            mm_fragmentationHeader = None, mm_data = concat ps, mm_dataOffset = 0\<rparr>), st')
       \<and> fs_inv st' \<and> fs_messages st' k = None"
proof -
  let ?i = "index_of meta"
  let ?S = "insert ?i S"
  have fr: "is_fragment k cmp rel ps ?i meta" and now: "now \<in> clk"
    using ev by (auto simp: arrival_def)
  then obtain frh where frh: "mm_fragmentationHeader meta = Some frh" and i: "?i < length ps"
    by (auto simp: is_fragment_def)
  have key: "k = fh_messageId frh" and idx: "fh_fragmentIndex frh = of_nat ?i"
    using fr frh by (auto simp: is_fragment_def)
  have sub: "?S \<subseteq> {0..<length ps}"
    using S i by auto
  note pidx = partial_index [OF part inv S(1) size i, of now]
  show thesis
  proof (cases "?i \<in> S")
    case True
    then have "S \<noteq> {}"
      by auto
    then obtain m where m: "fs_messages st k = Some m"
      using part by (auto simp: holds_partial_def)
    have "fh_fragmentIndex frh \<in> fr_index ` set (fm_fragments m)"
      using pidx True idx fragEntry_present [OF inv m] by simp
    then have "processFragment T ord now st meta = (Ok None, st)"
      using m key by (intro processFragment_duplicate [OF inv frh, of m]) auto
    with True inv part S(2) show thesis
      by (intro that [of st]) (simp_all add: insert_absorb)
  next
    case new: False
    let ?new = "addFragment frh meta (fragEntry now k st)"
    have coll: "collected k cmp rel ps clk ?S ?new"
      using collected_add [OF part inv size fr new now frh] .
    have comp: "complete ?new \<longleftrightarrow> ?S = {0..<length ps}"
      using collected_complete [OF coll sub _ size] by simp
    have "fh_fragmentIndex frh \<notin> fr_index ` set (fm_fragments (fragEntry now k st))"
      using pidx new idx by simp
    from processFragment_new [OF inv ord frh key this refl, of T] obtain st' where
      run: "processFragment T ord now st meta
              = (if complete ?new then reassemble ?new else Ok None, st')"
      and keep: "keeps_fresh T now (if complete ?new then {k} else {})
            (st\<lparr>fs_messages := (fs_messages st)(k \<mapsto> ?new)\<rparr>) st'"
      and gone: "complete ?new \<longrightarrow> fs_messages st' k = None" and inv': "fs_inv st'"
      by blast
    obtain js where js: "distinct js" "set js = ?S"
      "fm_fragments ?new = map (\<lambda>i. \<lparr>fr_index = of_nat i, fr_data = ps ! i\<rparr>) js"
      using coll by (auto simp: collected_def)
    have partial: "holds_partial k cmp rel ps clk ?S st'" if "\<not> complete ?new"
    proof -
      have "fs_messages st' k = Some ?new"
        using keeps_freshD(3) [OF keep, of k ?new] that collected_fresh [OF clk coll now] by simp
      with coll show ?thesis
        by (auto simp: holds_partial_def)
    qed
    have whole: "reassemble ?new = Ok (Some \<lparr>mm_type = 0, mm_compressionHeader = cmp,
        mm_reliabilityHeader = rel, mm_fragmentationHeader = None, mm_data = concat ps,
        mm_dataOffset = 0\<rparr>)" if "?S = {0..<length ps}"
    proof -
      have "0 \<in> ?S"
        using that i by auto
      then show ?thesis
        using reassemble_permuted [OF js(1) _ size js(3) refl] js(2) that coll
        by (simp add: collected_def)
    qed
    show thesis
      by (rule that [of st']) (use run partial whole gone inv' comp in auto)
  qed
qed

lemma foreign_fragment:
  assumes ord: "visits_all ord" and clk: "timely T clk"
    and inv: "fs_inv st" and part: "holds_partial k cmp rel ps clk S st"
    and ev: "arrival k cmp rel ps clk (now, meta)" "\<not> of_message k meta"
  obtains r st' where "processFragment T ord now st meta = (r, st')" "fs_inv st'"
    "holds_partial k cmp rel ps clk S st'"
proof -
  obtain frh where frh: "mm_fragmentationHeader meta = Some frh" and ne: "fh_messageId frh \<noteq> k"
    and now: "now \<in> clk"
    using ev by (auto simp: arrival_def of_message_def)
  let ?key = "fh_messageId frh"
  let ?e = "fragEntry now ?key st"
  let ?new = "addFragment frh meta ?e"
  show thesis
  proof (cases "fh_fragmentIndex frh \<in> fr_index ` set (fm_fragments ?e)")
    case True
    then obtain m where m: "fs_messages st ?key = Some m"
      by (cases "fs_messages st ?key") (auto simp: fragEntry_fragments [OF inv])
    have "processFragment T ord now st meta = (Ok None, st)"
      using processFragment_duplicate [OF inv frh m] True fragEntry_present [OF inv m] by simp
    then show thesis
      using that inv part by blast
  next
    case False
    from processFragment_new [OF inv ord frh refl False refl, of T] obtain st' where
      run: "processFragment T ord now st meta
              = (if complete ?new then reassemble ?new else Ok None, st')"
      and keep: "keeps_fresh T now (if complete ?new then {?key} else {})
            (st\<lparr>fs_messages := (fs_messages st)(?key \<mapsto> ?new)\<rparr>) st'" and inv': "fs_inv st'"
      by blast
    have "holds_partial k cmp rel ps clk S st'"
    proof (cases "S = {}")
      case True
      then have "fs_messages st k = None"
        using part by (simp add: holds_partial_def)
      then have "fs_messages st' k = None"
        using keeps_freshD(1) [OF keep, of k] ne by (cases "fs_messages st' k") auto
      with True show ?thesis
        by (simp add: holds_partial_def)
    next
      case S: False
      then obtain m where m: "fs_messages st k = Some m" "collected k cmp rel ps clk S m"
        using part by (auto simp: holds_partial_def)
      then have "fs_messages st' k = Some m"
        using keeps_freshD(3) [OF keep, of k m] collected_fresh [OF clk m(2) now] ne by simp
      with m S show ?thesis
        by (auto simp: holds_partial_def)
    qed
    with run inv' that show thesis
      by blast
  qed
qed


lemma receiveFragments_Cons:
  assumes "processFragment T ord now st m = (r, st1)"
  shows "receiveFragments T ord st ((now, m) # evs) =
     (r # fst (receiveFragments T ord st1 evs), snd (receiveFragments T ord st1 evs))"
  using assms by (simp add: case_prod_beta)

lemma length_receiveFragments [simp]:
  "length (fst (receiveFragments T ord st evs)) = length evs"
proof (induction evs arbitrary: st)
  case (Cons ev evs)
  obtain now m where [simp]: "ev = (now, m)"
    by (cases ev)
  show ?case
    using Cons.IH [of "snd (processFragment T ord now st m)"] by (simp add: case_prod_beta Let_def)
qed simp

lemma receiveFragments_append:
  "receiveFragments T ord st (xs @ ys) =
     (fst (receiveFragments T ord st xs)
        @ fst (receiveFragments T ord (snd (receiveFragments T ord st xs)) ys),
      snd (receiveFragments T ord (snd (receiveFragments T ord st xs)) ys))"
  by (induction xs arbitrary: st) (auto simp: case_prod_beta Let_def split: prod.splits)

lemma arrived_Cons:
  "arrived k ((now, m) # evs) =
     (if of_message k m then insert (index_of m) (arrived k evs) else arrived k evs)"
proof -
  have "{x \<in> snd ` set ((now, m) # evs). of_message k x} =
    (if of_message k m then insert m {x \<in> snd ` set evs. of_message k x}
     else {x \<in> snd ` set evs. of_message k x})"
    by auto
  then show ?thesis
    by (simp add: arrived_def)
qed

lemma arrived_Nil: "arrived k [] = {}"
  by (simp add: arrived_def)

lemma incomplete_arrivals:
  assumes ord: "visits_all ord" and size: "length ps \<le> 65536" and clk: "timely T clk"
  shows "fs_inv st \<Longrightarrow> holds_partial k cmp rel ps clk S st \<Longrightarrow>
     \<forall>ev\<in>set evs. arrival k cmp rel ps clk ev \<Longrightarrow>
     S \<union> arrived k evs \<subset> {0..<length ps} \<Longrightarrow>
     fs_inv (snd (receiveFragments T ord st evs)) \<and>
     holds_partial k cmp rel ps clk (S \<union> arrived k evs) (snd (receiveFragments T ord st evs)) \<and>
     (\<forall>j<length evs. of_message k (snd (evs ! j)) \<longrightarrow>
        fst (receiveFragments T ord st evs) ! j = Ok None)"
proof (induction evs arbitrary: st S)
  case Nil
  then show ?case by (simp add: arrived_def)
next
  case (Cons ev evs)
  obtain now m where ev: "ev = (now, m)"
    by (cases ev)
  have arr: "arrival k cmp rel ps clk (now, m)" and rest: "\<forall>ev\<in>set evs. arrival k cmp rel ps clk ev"
    using Cons.prems(3) ev by simp_all
  have S: "S \<subseteq> {0..<length ps}" "S \<noteq> {0..<length ps}"
    using Cons.prems(4) by auto
  let ?S = "if of_message k m then insert (index_of m) S else S"
  have un: "S \<union> arrived k (ev # evs) = ?S \<union> arrived k evs"
    by (simp add: ev arrived_Cons)
  obtain r st1 where run: "processFragment T ord now st m = (r, st1)" and inv1: "fs_inv st1"
    and part1: "holds_partial k cmp rel ps clk ?S st1" and r: "of_message k m \<Longrightarrow> r = Ok None"
  proof (cases "of_message k m")
    case True
    have "insert (index_of m) S \<noteq> {0..<length ps}"
      using Cons.prems(4) True un by auto
    then show thesis
      using own_fragment [OF ord size clk Cons.prems(1,2) S arr True] that True by metis
  next
    case False
    then show thesis
      using foreign_fragment [OF ord clk Cons.prems(1,2) arr False] that by auto
  qed
  have "?S \<union> arrived k evs \<subset> {0..<length ps}"
    using Cons.prems(4) un by simp
  note ih = Cons.IH [OF inv1 part1 rest this]
  show ?case
    unfolding ev receiveFragments_Cons [OF run]
    using ih r un by (auto simp: ev nth_Cons' less_Suc_eq_0_disj)
qed

lemma fragments_reassembled:
  assumes "visits_all ord" and "length ps \<le> 65536" and "timely T clk"
    and "fs_inv st" and "fs_messages st k = None"
    and "\<forall>ev\<in>set (evs @ [(now, m)]). arrival k cmp rel ps clk ev"
    and "of_message k m" and "arrived k evs \<subset> {0..<length ps}"
    and "arrived k (evs @ [(now, m)]) = {0..<length ps}"
  shows "\<exists>rs st'. receiveFragments T ord st (evs @ [(now, m)]) =
       (rs @ [Ok (Some \<lparr>mm_type = 0, mm_compressionHeader = cmp, mm_reliabilityHeader = rel,
                mm_fragmentationHeader = None, mm_data = concat ps, mm_dataOffset = 0\<rparr>)], st') \<and>
     length rs = length evs \<and>
     (\<forall>j<length evs. of_message k (snd (evs ! j)) \<longrightarrow> rs ! j = Ok None) \<and>
     fs_messages st' k = None \<and> fs_inv st'"
proof -
  let ?st = "snd (receiveFragments T ord st evs)"
  have p0: "holds_partial k cmp rel ps clk {} st"
    using assms(5) by (simp add: holds_partial_def)
  have inc: "fs_inv ?st \<and> holds_partial k cmp rel ps clk ({} \<union> arrived k evs) ?st \<and>
     (\<forall>j<length evs. of_message k (snd (evs ! j)) \<longrightarrow>
        fst (receiveFragments T ord st evs) ! j = Ok None)"
    using assms(6,8) by (intro incomplete_arrivals [OF assms(1-4) p0]) auto
  have last: "insert (index_of m) (arrived k evs) = {0..<length ps}"
    using assms(7,9) by (auto simp: arrived_def)
  have arr: "arrival k cmp rel ps clk (now, m)"
    using assms(6) by simp
  obtain st' where "processFragment T ord now ?st m =
         (Ok (Some \<lparr>mm_type = 0, mm_compressionHeader = cmp, mm_reliabilityHeader = rel,
            mm_fragmentationHeader = None, mm_data = concat ps, mm_dataOffset = 0\<rparr>), st')
       \<and> fs_inv st' \<and> fs_messages st' k = None"
    using own_fragment [OF assms(1-3), of ?st k cmp rel "arrived k evs" now m] inc assms(7,8) arr last
    by (metis psubset_imp_subset psubset_eq sup_bot_left)
  then show ?thesis
    using inc by (simp add: receiveFragments_append)
qed

text \<open>C3 (functional).  Reassembly of a fragmented message: whatever the order in which its fragments
  arrive, with any of them duplicated before the message is complete and with fragments of other
  messages in between, and whatever order the hash map is visited in, the fragment that completes
  the message returns the concatenation of all pieces with the headers of the first fragment, the
  earlier fragments return nothing, and the entry is gone afterwards.\<close>

theorem fragments_reassemble:
  assumes "visits_all ord" and "length ps \<le> 65536" and "timely T clk"
    and "fs_inv st" and "fs_messages st k = None"
    and "\<forall>ev\<in>set (evs @ [(now, m)]). arrival k cmp rel ps clk ev"
    and "of_message k m" and "arrived k evs \<subset> {0..<length ps}"
    and "arrived k (evs @ [(now, m)]) = {0..<length ps}"
  shows "\<exists>rs st'. receiveFragments T ord st (evs @ [(now, m)]) =
       (rs @ [Ok (Some \<lparr>mm_type = 0, mm_compressionHeader = cmp, mm_reliabilityHeader = rel,
                mm_fragmentationHeader = None, mm_data = concat ps, mm_dataOffset = 0\<rparr>)], st') \<and>
     length rs = length evs \<and>
     (\<forall>j<length evs. of_message k (snd (evs ! j)) \<longrightarrow> rs ! j = Ok None) \<and>
     fs_messages st' k = None \<and> fs_inv st'"
  by (rule fragments_reassembled [OF assms])


definition hash_order :: "'i frag_map \<Rightarrow> u16 list" where
  "hash_order m = sorted_list_of_set (dom m)"

lemma visits_all_hash_order: "visits_all hash_order"
  by (simp add: visits_all_def hash_order_def)

theorem fragments_reassemble_witness:
  "\<exists>rs st'. receiveFragments nat_time hash_order FragmentStore_new
       ([(100, \<lparr>mm_type = MSG_DATA, mm_compressionHeader = None, mm_reliabilityHeader = None,
               mm_fragmentationHeader = Some \<lparr>fh_messageId = 5, fh_fragmentIndex = 1,
                 fh_lastFragment = True\<rparr>, mm_data = [3], mm_dataOffset = 5\<rparr>),
         (200, \<lparr>mm_type = MSG_DATA, mm_compressionHeader = None, mm_reliabilityHeader = None,
               mm_fragmentationHeader = Some \<lparr>fh_messageId = 6, fh_fragmentIndex = 0,
                 fh_lastFragment = True\<rparr>, mm_data = [9, 9], mm_dataOffset = 5\<rparr>)]
        @ [(300, \<lparr>mm_type = MSG_DATA, mm_compressionHeader = None,
               mm_reliabilityHeader = Some \<lparr>rh_messageId = 4, rh_ackCount = 0, rh_acks = []\<rparr>,
               mm_fragmentationHeader = Some \<lparr>fh_messageId = 5, fh_fragmentIndex = 0,
                 fh_lastFragment = False\<rparr>, mm_data = [1, 2], mm_dataOffset = 5\<rparr>)]) =
       (rs @ [Ok (Some \<lparr>mm_type = 0, mm_compressionHeader = None,
                mm_reliabilityHeader = Some \<lparr>rh_messageId = 4, rh_ackCount = 0, rh_acks = []\<rparr>,
                mm_fragmentationHeader = None, mm_data = [1, 2, 3], mm_dataOffset = 0\<rparr>)], st')
     \<and> length rs = 2 \<and> rs ! 0 = Ok None \<and> fs_messages st' 5 = None"
proof -
  let ?m1 = "\<lparr>mm_type = MSG_DATA, mm_compressionHeader = None, mm_reliabilityHeader = None,
               mm_fragmentationHeader = Some \<lparr>fh_messageId = 5, fh_fragmentIndex = 1,
                 fh_lastFragment = True\<rparr>, mm_data = [3], mm_dataOffset = 5\<rparr>"
  let ?m2 = "\<lparr>mm_type = MSG_DATA, mm_compressionHeader = None, mm_reliabilityHeader = None,
               mm_fragmentationHeader = Some \<lparr>fh_messageId = 6, fh_fragmentIndex = 0,
                 fh_lastFragment = True\<rparr>, mm_data = [9, 9], mm_dataOffset = 5\<rparr>"
  let ?m3 = "\<lparr>mm_type = MSG_DATA, mm_compressionHeader = None,
               mm_reliabilityHeader = Some \<lparr>rh_messageId = 4, rh_ackCount = 0, rh_acks = []\<rparr>,
               mm_fragmentationHeader = Some \<lparr>fh_messageId = 5, fh_fragmentIndex = 0,
                 fh_lastFragment = False\<rparr>, mm_data = [1, 2], mm_dataOffset = 5\<rparr>"
  let ?evs = "[(100 :: nat, ?m1), (200, ?m2)]"
  have "\<exists>rs st'. receiveFragments nat_time hash_order FragmentStore_new
      (?evs @ [(300, ?m3)]) =
       (rs @ [Ok (Some \<lparr>mm_type = 0, mm_compressionHeader = None,
          mm_reliabilityHeader = Some \<lparr>rh_messageId = 4, rh_ackCount = 0, rh_acks = []\<rparr>,
          mm_fragmentationHeader = None, mm_data = concat [[1, 2], [3]], mm_dataOffset = 0\<rparr>)], st') \<and>
     length rs = length ?evs \<and>
     (\<forall>j<length ?evs.
        of_message 5 (snd (?evs ! j)) \<longrightarrow> rs ! j = Ok None) \<and>
     fs_messages st' 5 = None \<and> fs_inv st'"
    by (rule fragments_reassemble [OF visits_all_hash_order, where clk = "{100, 200, 300}"])
      (auto simp: arrived_Cons arrived_Nil atLeastLessThanSuc timely_def EXPIRY_def tm_elapsed_def fs_inv_def FragmentStore_new_def
        arrival_def of_message_def is_fragment_def index_of_def psubset_eq)
  then show ?thesis
    by (auto simp: of_message_def)
qed

text \<open>Reassembly never fails an assertion, and it succeeds exactly when the indices
  of the collected fragments are \<open>0 .. n - 1\<close>; then the output has as many bytes as the
  fragments together.\<close>

theorem reassemble_total:
  "(\<exists>meta. reassemble msg = Ok (Some meta) \<and>
      mset (map (unat \<circ> fr_index) (fm_fragments msg)) = mset [0..<length (fm_fragments msg)] \<and>
      length (mm_data meta) = sum_list (map (length \<circ> fr_data) (fm_fragments msg)))
   \<or> (reassemble msg = Err (CustomKind DefragmentationError) \<and>
      mset (map (unat \<circ> fr_index) (fm_fragments msg)) \<noteq> mset [0..<length (fm_fragments msg)])"
proof -
  let ?s = "sort_key fr_index (fm_fragments msg)"
  let ?ix = "map (unat \<circ> fr_index)"
  have m: "mset (?ix ?s) = mset (?ix (fm_fragments msg))"
    by simp
  have "sorted (map fr_index ?s)"
    by (rule sorted_sort_key)
  then have "sorted (?ix ?s)"
    by (simp add: sorted_iff_nth_mono word_le_nat_alt)
  then have "?ix ?s = [0..<length ?s]" if "mset (?ix ?s) = mset [0..<length ?s]"
    using properties_for_sort [OF that] properties_for_sort [OF refl sorted_upt, of 0 "length ?s"]
    by simp
  then have iff: "?ix ?s = [0..<length ?s]
      \<longleftrightarrow> mset (?ix (fm_fragments msg)) = mset [0..<length (fm_fragments msg)]"
    by (metis m length_sort)
  have "length (concat (map fr_data ?s)) = sum_mset (mset (map (length \<circ> fr_data) ?s))"
    by (simp only: length_concat map_map o_def sum_mset_sum_list)
  also have "\<dots> = sum_list (map (length \<circ> fr_data) (fm_fragments msg))"
    by (simp flip: sum_mset_sum_list)
  finally show ?thesis
    using iff by (auto simp: reassemble_eq Let_def)
qed

lemma processStored_loop_sub:
  assumes "processStored_loop T now ks st = (r, st')" and "fs_messages st' k = Some m"
  shows "fs_messages st k = Some m"
  using assms
proof (induction ks arbitrary: st)
  case (Cons a ks)
  have erased: "fs_messages st k = Some m"
    if "processStored_loop T now ks (st\<lparr>fs_messages := (fs_messages st)(a := None)\<rparr>) = (r, st')"
    using Cons.IH [OF that Cons.prems(2)] by (simp split: if_splits)
  show ?case
    using Cons erased by (auto simp: Let_def split: option.splits if_splits)
qed simp

lemma processStored_loop_fresh:
  assumes "processStored_loop T now ks st = (Ok None, st')" and "k \<in> set ks" and "fs_messages st' k = Some m"
  shows "\<not> expired T now m"
  using assms
proof (induction ks arbitrary: st)
  case (Cons j ks)
  have whole: "reassemble x \<noteq> Ok None" for x
    by (simp add: reassemble_eq Let_def)
  have there: "fs_messages st k = Some m"
    using processStored_loop_sub [OF Cons.prems(1,3)] .
  show ?case
  proof (cases "j = k")
    case True
    then show ?thesis
      using Cons.prems there whole processStored_loop_sub [of T now ks "st\<lparr>fs_messages := (fs_messages st)(k := None)\<rparr>"]
      by (fastforce simp: Let_def expired_def split: if_splits)
  next
    case False
    then show ?thesis
      using Cons whole by (auto simp: Let_def split: option.splits if_splits)
  qed
qed simp

text \<open>C18 (invariant).  Every call keeps the store well formed: entries under their own id, with
  distinct fragment indices, and none of them complete.  A call that stores a new fragment and
  completes no message drops every expired entry, and no call drops the entry of another message
  that has not expired.  (After a duplicate, and when a message is completed, the code leaves expired
  entries for a later call.)\<close>

theorem processFragment_invariant:
  assumes "fs_inv st" and "visits_all ord"
  shows "fs_inv (snd (processFragment T ord now st message)) \<and>
    (\<forall>frh st'. mm_fragmentationHeader message = Some frh \<and>
       fh_fragmentIndex frh \<notin> fr_index ` set (fm_fragments (fragEntry now (fh_messageId frh) st)) \<and>
       processFragment T ord now st message = (Ok None, st') \<longrightarrow>
       (\<forall>k m. fs_messages st' k = Some m \<longrightarrow> \<not> expired T now m)) \<and>
    (\<forall>frh k m. mm_fragmentationHeader message = Some frh \<and> k \<noteq> fh_messageId frh \<and>
       fs_messages st k = Some m \<and> \<not> expired T now m \<longrightarrow>
       fs_messages (snd (processFragment T ord now st message)) k = Some m)"
proof (cases "mm_fragmentationHeader message")
  case None
  then show ?thesis
    using assms by (simp add: processFragment_def)
next
  case (Some frh)
  let ?e = "fragEntry now (fh_messageId frh) st"
  show ?thesis
  proof (cases "fh_fragmentIndex frh \<in> fr_index ` set (fm_fragments ?e)")
    case True
    then obtain m where m: "fs_messages st (fh_messageId frh) = Some m"
      by (cases "fs_messages st (fh_messageId frh)") (auto simp: fragEntry_fragments [OF assms(1)])
    then show ?thesis
      using processFragment_duplicate [OF assms(1) Some m, of T ord now] True fragEntry_present [OF assms(1) m] assms Some
      by simp
  next
    case False
    let ?st1 = "st\<lparr>fs_messages := (fs_messages st)(fh_messageId frh \<mapsto> addFragment frh message ?e)\<rparr>"
    have run: "processFragment T ord now st message = processStored_loop T now (ord (fs_messages ?st1)) ?st1"
      using False Some by (simp add: processFragment_def processStored_def Let_def find_index [unfolded not_None_eq])
    have all: "set (ord (fs_messages ?st1)) = dom (fs_messages ?st1)"
      using assms(2) by (simp add: visits_all_def)
    have fresh: "\<not> expired T now m" if "processFragment T ord now st message = (Ok None, st')" "fs_messages st' k = Some m"
      for st' k m
    proof -
      note there = that(1) [unfolded run]
      have "fs_messages ?st1 k = Some m"
        by (rule processStored_loop_sub [OF there that(2)])
      then have "k \<in> set (ord (fs_messages ?st1))"
        unfolding all by (rule domI)
      then show ?thesis
        by (rule processStored_loop_fresh [OF there _ that(2)])
    qed
    from processFragment_new [OF assms Some refl False refl, of T] obtain st' where
      st': "snd (processFragment T ord now st message) = st'" "fs_inv st'"
      and kept: "keeps_fresh T now (if complete (addFragment frh message ?e) then {fh_messageId frh} else {}) ?st1 st'"
      by auto
    have "fs_messages st' k = Some m" if "k \<noteq> fh_messageId frh" "fs_messages st k = Some m" "\<not> expired T now m" for k m
      using keeps_freshD(3) [OF kept, of k m] that by simp
    then show ?thesis
      using st' fresh Some by auto
  qed
qed

theorem processFragment_invariant_witness:
  "fs_inv (snd (processFragment nat_time hash_order 7 FragmentStore_new
     \<lparr>mm_type = MSG_DATA, mm_compressionHeader = None, mm_reliabilityHeader = None,
      mm_fragmentationHeader = Some \<lparr>fh_messageId = 5, fh_fragmentIndex = 1, fh_lastFragment = True\<rparr>,
      mm_data = [3], mm_dataOffset = 5\<rparr>))"
  by (rule processFragment_invariant [OF _ visits_all_hash_order, THEN conjunct1])
    (simp add: fs_inv_def FragmentStore_new_def)


section \<open>Ids of fragmented messages\<close>

interpretation frag_ids: id_counter FragmentStore_nextMessageId fs_nextMessageId bump_wrap
  by unfold_locales (simp_all add: FragmentStore_nextMessageId_def bump_wrap_def)

lemma fragment_ids_distinct: "n \<le> 65536 \<Longrightarrow> distinct (fst (frag_ids.draw n st))"
  by (rule frag_ids.draw_distinct, rule inj_on_subset [OF bump_wrap_inj]) auto

end
