(* ===== verification/Reliable_Store.thy ===== *)
theory Reliable_Store
  imports Transport_Error Message_Ids
begin

text \<open>
  The reliability layer of the UDP transport (\<open>udp/ReliableStore.hpp\<close>,
  \<open>udp/ReliableStore.cpp\<close>): acknowledgement and retransmission of the messages sent, in-order
  delivery of the messages received.
\<close>

section \<open>State\<close>

record 'i UnackedRemoteMessage =
  ur_messageId :: u16
  ur_receivedAt :: 'i

record 'i UnackedLocalMessage =
  ul_messageId :: u16
  ul_msg :: QunetMessage
  ul_sentAt :: 'i
  ul_retransmitAttempts :: nat

record 'i StoredOutOfOrderMessage =
  so_meta :: QunetMessageMeta
  so_receivedAt :: 'i

record 'i ReliableStore =
  rs_remoteUnacked :: "'i UnackedRemoteMessage list"
  rs_remoteOutOfOrder :: "'i StoredOutOfOrderMessage list"
  rs_remoteDelayedQueue :: "QunetMessageMeta list"
  rs_nextRemoteId :: u16
  rs_nextLocalId :: u16
  rs_localUnacked :: "'i UnackedLocalMessage list"
  rs_avgRttMicros :: u64

definition ReliableStore_new :: "'i ReliableStore" where
  "ReliableStore_new = \<lparr>rs_remoteUnacked = [], rs_remoteOutOfOrder = [], rs_remoteDelayedQueue = [],
     rs_nextRemoteId = 1, rs_nextLocalId = 1, rs_localUnacked = [], rs_avgRttMicros = 0\<rparr>"

text \<open>\<open>meta.reliabilityHeader->messageId\<close>; only messages with a reliability header are stored.\<close>

definition relId :: "QunetMessageMeta \<Rightarrow> u16" where
  "relId meta = (case mm_reliabilityHeader meta of None \<Rightarrow> 0 | Some h \<Rightarrow> rh_messageId h)"

section \<open>Incoming messages\<close>

text \<open>A message id is recorded for acknowledgement; a stored message that is now the next expected
  one moves to the delayed queue, which records its id in turn.\<close>

function (sequential) pushRemoteUnacked :: "'i \<Rightarrow> 'i ReliableStore \<Rightarrow> 'i ReliableStore"
  and pushRemoteUnackedWithId :: "'i \<Rightarrow> u16 \<Rightarrow> bool \<Rightarrow> 'i ReliableStore \<Rightarrow> 'i ReliableStore"
  and maybeRestoreRemote :: "'i \<Rightarrow> 'i ReliableStore \<Rightarrow> 'i ReliableStore" where
  "pushRemoteUnacked now st =
     (let idn = rs_nextRemoteId st;
          st = st\<lparr>rs_nextRemoteId := idn + 1\<rparr>;
          st = (if rs_nextRemoteId st = 0 then st\<lparr>rs_nextRemoteId := 1\<rparr> else st)
      in pushRemoteUnackedWithId now idn False st)"
| "pushRemoteUnackedWithId now messageId dupe st =
     (if dupe \<and> (\<exists>msg\<in>set (rs_remoteUnacked st). ur_messageId msg = messageId) then st
      else
        let msg = \<lparr>ur_messageId = messageId, ur_receivedAt = now\<rparr>
        in maybeRestoreRemote now (st\<lparr>rs_remoteUnacked := rs_remoteUnacked st @ [msg]\<rparr>))"
| "maybeRestoreRemote now st =
     (case find (\<lambda>msg. relId (so_meta msg) = rs_nextRemoteId st) (rs_remoteOutOfOrder st) of
        None \<Rightarrow> st
      | Some msg \<Rightarrow> pushRemoteUnacked now
          (st\<lparr>rs_remoteDelayedQueue := rs_remoteDelayedQueue st @ [so_meta msg],
              rs_remoteOutOfOrder := remove_first
                (\<lambda>msg. relId (so_meta msg) = rs_nextRemoteId st) (rs_remoteOutOfOrder st)\<rparr>))"
  by pat_completeness auto
termination
  by (relation "measure (\<lambda>x. case x of
        Inl (now, st) \<Rightarrow> 3 * length (rs_remoteOutOfOrder st) + 2
      | Inr (Inl (now, mid, dupe, st)) \<Rightarrow> 3 * length (rs_remoteOutOfOrder st) + 1
      | Inr (Inr (now, st)) \<Rightarrow> 3 * length (rs_remoteOutOfOrder st))")
    (auto dest: length_remove_first_less)

definition pushRemoteDuplicate :: "'i \<Rightarrow> u16 \<Rightarrow> 'i ReliableStore \<Rightarrow> 'i ReliableStore" where
  "pushRemoteDuplicate now messageId st = pushRemoteUnackedWithId now messageId True st"

definition storeRemoteOutOfOrder ::
    "'i \<Rightarrow> QunetMessageMeta \<Rightarrow> 'i ReliableStore \<Rightarrow> unit TransportResult \<times> 'i ReliableStore" where
  "storeRemoteOutOfOrder now meta st =
     (if 32 \<le> length (rs_remoteOutOfOrder st) then (Err (CustomKind TooUnreliable), st)
      else if \<exists>msg\<in>set (rs_remoteOutOfOrder st). relId (so_meta msg) = relId meta then (Ok (), st)
      else (Ok (), st\<lparr>rs_remoteOutOfOrder := rs_remoteOutOfOrder st
                       @ [\<lparr>so_meta = meta, so_receivedAt = now\<rparr>]\<rparr>))"

definition ackLocal :: "u16 \<Rightarrow> 'i ReliableStore \<Rightarrow> 'i ReliableStore" where
  "ackLocal messageId st =
     st\<lparr>rs_localUnacked := remove_first (\<lambda>m. ul_messageId m = messageId) (rs_localUnacked st)\<rparr>"

text \<open>The loop \<open>for i < ackCount\<close>; \<open>acks\<close> is the array, of which \<open>decodeMeta\<close> fills the first
  entries.\<close>

fun processAcks_loop :: "u16 list \<Rightarrow> nat \<Rightarrow> nat \<Rightarrow> 'i ReliableStore \<Rightarrow>
    unit TransportResult \<times> 'i ReliableStore" where
  "processAcks_loop acks i 0 st = (Ok (), st)"
| "processAcks_loop acks i (Suc n) st =
     (case at acks i of
        Inl e \<Rightarrow> (Inl e, st)
      | Inr a \<Rightarrow> processAcks_loop acks (Suc i) n (ackLocal a st))"

definition processAcks ::
    "ReliabilityHeader \<Rightarrow> 'i ReliableStore \<Rightarrow> unit TransportResult \<times> 'i ReliableStore" where
  "processAcks header st = processAcks_loop (rh_acks header) 0 (rh_ackCount header) st"

definition handleIncoming ::
    "'i \<Rightarrow> QunetMessageMeta \<Rightarrow> 'i ReliableStore \<Rightarrow> bool TransportResult \<times> 'i ReliableStore" where
  "handleIncoming now message st =
     (case mm_reliabilityHeader message of
        None \<Rightarrow> (Inl AssertionFailed, st)
      | Some rlh \<Rightarrow>
          (case processAcks rlh st of
             (Inl e, st) \<Rightarrow> (Inl e, st)
           | (Inr _, st) \<Rightarrow>
               if rh_messageId rlh = 0 then (Ok True, st)
               else
                 let next = rs_nextRemoteId st;
                     isDuplicate = (rh_messageId rlh < next \<and>
                       int (unat next) - int (unat (rh_messageId rlh)) < 16384);
                     isOutOfOrder = (\<not> isDuplicate \<and> rh_messageId rlh \<noteq> next)
                 in if isDuplicate then
                      (Ok False, pushRemoteDuplicate now (rh_messageId rlh) st)
                    else if isOutOfOrder then
                      (case storeRemoteOutOfOrder now message st of
                         (Inl e, st) \<Rightarrow> (Inl e, st)
                       | (Inr _, st) \<Rightarrow> (Ok False, st))
                    else (Ok True, pushRemoteUnacked now st)))"

definition hasDelayedMessage :: "'i ReliableStore \<Rightarrow> bool" where
  "hasDelayedMessage st = (rs_remoteDelayedQueue st \<noteq> [])"

definition popDelayedMessage :: "'i ReliableStore \<Rightarrow> QunetMessageMeta option \<times> 'i ReliableStore" where
  "popDelayedMessage st =
     (case rs_remoteDelayedQueue st of
        [] \<Rightarrow> (None, st)
      | meta # rest \<Rightarrow> (Some meta, st\<lparr>rs_remoteDelayedQueue := rest\<rparr>))"

section \<open>Outgoing messages\<close>

definition ReliableStore_nextMessageId :: "'i ReliableStore \<Rightarrow> u16 \<times> 'i ReliableStore" where
  "ReliableStore_nextMessageId st =
     (let idn = rs_nextLocalId st;
          st = st\<lparr>rs_nextLocalId := idn + 1\<rparr>;
          st = (if rs_nextLocalId st = 0 then st\<lparr>rs_nextLocalId := 1\<rparr> else st)
      in (idn, st))"

fun setOutgoingAcks_loop :: "nat \<Rightarrow> nat \<Rightarrow> ReliabilityHeader \<Rightarrow> 'i ReliableStore \<Rightarrow>
    ReliabilityHeader \<times> 'i ReliableStore" where
  "setOutgoingAcks_loop i 0 header st = (header, st)"
| "setOutgoingAcks_loop i (Suc n) header st =
     (case rs_remoteUnacked st of
        [] \<Rightarrow> (header, st)
      | msg # rest \<Rightarrow>
          setOutgoingAcks_loop (Suc i) n
            (header\<lparr>rh_acks := (rh_acks header)[i := ur_messageId msg],
                    rh_ackCount := rh_ackCount header + 1\<rparr>)
            (st\<lparr>rs_remoteUnacked := rest\<rparr>))"

definition setOutgoingAcks ::
    "ReliabilityHeader \<Rightarrow> 'i ReliableStore \<Rightarrow> ReliabilityHeader \<times> 'i ReliableStore" where
  "setOutgoingAcks header st = setOutgoingAcks_loop 0 8 (header\<lparr>rh_ackCount := 0\<rparr>) st"

text \<open>\<open>msg.as<DataMessage>().relHeader->messageId\<close>.\<close>

definition localRelId :: "QunetMessage \<Rightarrow> u16" where
  "localRelId msg = (case msg of Data m \<Rightarrow>
      (case dm_relHeader m of None \<Rightarrow> 0 | Some h \<Rightarrow> rh_messageId h) | _ \<Rightarrow> 0)"

definition pushLocalUnacked ::
    "'i \<Rightarrow> QunetMessage \<Rightarrow> 'i ReliableStore \<Rightarrow> unit TransportResult \<times> 'i ReliableStore" where
  "pushLocalUnacked now msg st =
     (if 64 \<le> length (rs_localUnacked st) then (Err (CustomKind TooUnreliable), st)
      else (Ok (), st\<lparr>rs_localUnacked := rs_localUnacked st @
              [\<lparr>ul_messageId = localRelId msg, ul_msg = msg, ul_sentAt = now,
                ul_retransmitAttempts = 0\<rparr>]\<rparr>))"

definition calcAckDeadline :: "('d, 'i, 'f) time_ops \<Rightarrow> 'd" where
  "calcAckDeadline T = tm_fromMillis T 50"

definition calcRetransmissionDeadline ::
    "('d, 'i, 'f) time_ops \<Rightarrow> nat \<Rightarrow> 'i ReliableStore \<Rightarrow> 'd" where
  "calcRetransmissionDeadline T nthAttempt st =
     (let rtt = tm_fromMicros T (rs_avgRttMicros st);
          rtt = (if tm_isZero T rtt then tm_fromMillis T 200 else rtt);
          ackDelay = calcAckDeadline T;
          base = fl_max T (fl_plus T (fl_times T (tm_millisF T rtt) (fl_dec T 16 1))
                    (tm_millisF T ackDelay)) (fl_dec T 175 0);
          mult = max 1 (min 6 nthAttempt)
      in tm_fromMillisF T (fl_times T base (fl_ofSize T mult)))"

definition ReliableStore_untilTimerExpiry ::
    "('d, 'i, 'f) time_ops \<Rightarrow> 'i \<Rightarrow> 'i ReliableStore \<Rightarrow> 'd" where
  "ReliableStore_untilTimerExpiry T now st =
     (let expiry = tm_infinite T in
      if rs_localUnacked st = [] \<and> rs_remoteUnacked st = [] then expiry
      else
        let ackDelay = calcAckDeadline T;
            expiry = foldl (\<lambda>expiry msg. tm_min T expiry
              (tm_minus T (calcRetransmissionDeadline T (ul_retransmitAttempts msg) st)
                 (tm_elapsed T now (ul_sentAt msg)))) expiry (rs_localUnacked st)
        in foldl (\<lambda>expiry msg. tm_min T expiry
              (tm_minus T ackDelay (tm_elapsed T now (ur_receivedAt msg)))) expiry
              (rs_remoteUnacked st))"

definition updateRtt :: "u64 \<Rightarrow> 'i ReliableStore \<Rightarrow> 'i ReliableStore" where
  "updateRtt rttMicros st = st\<lparr>rs_avgRttMicros := rttMicros\<rparr>"

text \<open>The loop of \<open>maybeRetransmit\<close> over the queue; the message returned is the one to send
  again.\<close>

fun maybeRetransmit_loop :: "('d, 'i, 'f) time_ops \<Rightarrow> 'i \<Rightarrow> 'i ReliableStore \<Rightarrow>
    'i UnackedLocalMessage list \<Rightarrow>
    QunetMessage option TransportResult \<times> 'i UnackedLocalMessage list" where
  "maybeRetransmit_loop T now st [] = (Ok None, [])"
| "maybeRetransmit_loop T now st (msg # rest) =
     (if \<not> tm_less T (tm_elapsed T now (ul_sentAt msg))
             (calcRetransmissionDeadline T (ul_retransmitAttempts msg) st) then
        let msg' = msg\<lparr>ul_sentAt := now, ul_retransmitAttempts := ul_retransmitAttempts msg + 1\<rparr> in
        (if 10 \<le> ul_retransmitAttempts msg then Err (CustomKind TooUnreliable)
         else Ok (Some (ul_msg msg)), msg' # rest)
      else
        let (r, rest) = maybeRetransmit_loop T now st rest in (r, msg # rest))"

definition maybeRetransmit :: "('d, 'i, 'f) time_ops \<Rightarrow> 'i \<Rightarrow> 'i ReliableStore \<Rightarrow>
    QunetMessage option TransportResult \<times> 'i ReliableStore" where
  "maybeRetransmit T now st =
     (let (r, queue) = maybeRetransmit_loop T now st (rs_localUnacked st)
      in (r, st\<lparr>rs_localUnacked := queue\<rparr>))"

definition hasUrgentOutgoingAcks :: "('d, 'i, 'f) time_ops \<Rightarrow> 'i \<Rightarrow> 'i ReliableStore \<Rightarrow> bool" where
  "hasUrgentOutgoingAcks T now st =
     (let ackDelay = calcAckDeadline T in
      \<exists>msg\<in>set (rs_remoteUnacked st).
        \<not> tm_less T (tm_elapsed T now (ur_receivedAt msg)) ackDelay)"


section \<open>In-order delivery\<close>

text \<open>The payload of message \<open>i\<close> of the peer is \<open>sent i\<close>; a received message carries it when
  its id is \<open>i\<close> and the contents agree.  The acknowledgements may differ between
  retransmissions.\<close>

definition content :: "QunetMessageMeta \<Rightarrow> CompressionHeader option \<times> bytes" where
  "content meta = (mm_compressionHeader meta, mm_data meta)"

definition acks_ok :: "QunetMessageMeta \<Rightarrow> bool" where
  "acks_ok meta = (case mm_reliabilityHeader meta of None \<Rightarrow> False
     | Some h \<Rightarrow> rh_ackCount h \<le> length (rh_acks h))"

definition carries :: "(nat \<Rightarrow> CompressionHeader option \<times> bytes) \<Rightarrow> nat \<Rightarrow> QunetMessageMeta \<Rightarrow> bool" where
  "carries sent i meta \<longleftrightarrow> relId meta = of_nat i \<and> content meta = sent i"

definition stored_ids :: "'i ReliableStore \<Rightarrow> nat set" where
  "stored_ids st = (\<lambda>m. unat (relId (so_meta m))) ` set (rs_remoteOutOfOrder st)"

text \<open>\<open>n\<close> messages are consumed in order; what is stored is later than that, up to \<open>M\<close>.\<close>

definition rel_mid ::
    "(nat \<Rightarrow> CompressionHeader option \<times> bytes) \<Rightarrow> nat \<Rightarrow> nat \<Rightarrow> 'i ReliableStore \<Rightarrow> bool" where
  "rel_mid sent M n st \<longleftrightarrow> n \<le> M \<and> M \<le> 65534 \<and> rs_nextRemoteId st = of_nat (n + 1) \<and>
     distinct (map (relId \<circ> so_meta) (rs_remoteOutOfOrder st)) \<and>
     (\<forall>m\<in>set (rs_remoteOutOfOrder st). \<exists>i. n < i \<and> i \<le> M \<and> carries sent i (so_meta m))"

definition rel_inv ::
    "(nat \<Rightarrow> CompressionHeader option \<times> bytes) \<Rightarrow> nat \<Rightarrow> nat \<Rightarrow> 'i ReliableStore \<Rightarrow> bool" where
  "rel_inv sent M n st \<longleftrightarrow> rel_mid sent M n st \<and> n + 1 \<notin> stored_ids st \<and>
     rs_remoteDelayedQueue st = []"

lemmas restore_simps [simp del] = pushRemoteUnacked.simps pushRemoteUnackedWithId.simps
  maybeRestoreRemote.simps

lemma pushRemoteUnacked_eq:
  "pushRemoteUnacked now st = maybeRestoreRemote now
     (st\<lparr>rs_nextRemoteId := bump_skip0 (rs_nextRemoteId st),
         rs_remoteUnacked := rs_remoteUnacked st
           @ [\<lparr>ur_messageId = rs_nextRemoteId st, ur_receivedAt = now\<rparr>]\<rparr>)"
  by (simp add: pushRemoteUnacked.simps pushRemoteUnackedWithId.simps Let_def bump_skip0_def)

lemma restore_unfold:
  "maybeRestoreRemote now st =
     (case find (\<lambda>msg. relId (so_meta msg) = rs_nextRemoteId st) (rs_remoteOutOfOrder st) of
        None \<Rightarrow> st
      | Some msg \<Rightarrow> maybeRestoreRemote now
          (st\<lparr>rs_remoteDelayedQueue := rs_remoteDelayedQueue st @ [so_meta msg],
              rs_remoteOutOfOrder := remove_first
                (\<lambda>msg. relId (so_meta msg) = rs_nextRemoteId st) (rs_remoteOutOfOrder st),
              rs_nextRemoteId := bump_skip0 (rs_nextRemoteId st),
              rs_remoteUnacked := rs_remoteUnacked st
                @ [\<lparr>ur_messageId = rs_nextRemoteId st, ur_receivedAt = now\<rparr>]\<rparr>))"
  by (subst maybeRestoreRemote.simps) (simp add: pushRemoteUnacked_eq split: option.split)

lemma bump_of_nat: "n < 65534 \<Longrightarrow> bump_skip0 (of_nat (n + 1)) = of_nat (n + 2)"
proof -
  assume n: "n < 65534"
  have "unat (of_nat (n + 2) :: u16) = n + 2"
    using n by (intro unat_of_nat_u16) simp
  then have "(of_nat (n + 2) :: u16) \<noteq> 0"
    by (metis add_eq_0_iff_both_eq_0 unat_0 zero_neq_numeral)
  moreover have "(of_nat (n + 1) :: u16) + 1 = of_nat (n + 2)"
    by simp
  ultimately show ?thesis
    by (simp only: bump_skip0_def if_False)
qed

lemma rel_mid_id:
  assumes "rel_mid sent M n st" "m \<in> set (rs_remoteOutOfOrder st)"
  obtains i where "n < i" "i \<le> M" "carries sent i (so_meta m)" "unat (relId (so_meta m)) = i"
proof -
  obtain i where i: "n < i" "i \<le> M" "carries sent i (so_meta m)" and "M \<le> 65534"
    using assms by (auto simp: rel_mid_def)
  then have "unat (relId (so_meta m)) = i"
    by (simp add: carries_def unat_of_nat_u16)
  with i that show thesis by blast
qed

lemma rel_mid_next:
  assumes "rel_mid sent M n st"
  shows "relId (so_meta m) = rs_nextRemoteId st \<longleftrightarrow> unat (relId (so_meta m)) = n + 1"
proof -
  have "unat (rs_nextRemoteId st) = n + 1"
    using assms unat_of_nat_u16 [of "n + 1"] by (simp add: rel_mid_def)
  then show ?thesis
    by (metis word_unat_eq_iff)
qed

lemma restore_none:
  assumes "rel_mid sent M n st"
  shows "find (\<lambda>msg. relId (so_meta msg) = rs_nextRemoteId st) (rs_remoteOutOfOrder st) = None
     \<longleftrightarrow> n + 1 \<notin> stored_ids st"
  by (auto simp: find_None_iff stored_ids_def rel_mid_next [OF assms] image_iff)

lemma restore_some:
  assumes mid: "rel_mid sent M n st"
    and found: "find (\<lambda>msg. relId (so_meta msg) = rs_nextRemoteId st) (rs_remoteOutOfOrder st) = Some msg"
    and st1: "rs_remoteOutOfOrder st1 = remove_first
       (\<lambda>msg. relId (so_meta msg) = rs_nextRemoteId st) (rs_remoteOutOfOrder st)"
       "rs_nextRemoteId st1 = bump_skip0 (rs_nextRemoteId st)"
  shows "rel_mid sent M (n + 1) st1" "content (so_meta msg) = sent (n + 1)"
    "stored_ids st1 = stored_ids st - {n + 1}" "n + 1 \<in> stored_ids st"
proof -
  let ?ooo = "rs_remoteOutOfOrder st"
  have inl: "msg \<in> set ?ooo" and idn: "unat (relId (so_meta msg)) = n + 1"
    using found rel_mid_next [OF mid] by (auto simp: find_Some_iff)
  obtain i where "i \<le> M" "carries sent i (so_meta msg)" "i = n + 1"
    using rel_mid_id [OF mid inl] idn by metis
  then show "content (so_meta msg) = sent (n + 1)"
    by (simp add: carries_def)
  show "n + 1 \<in> stored_ids st"
    unfolding stored_ids_def using inl idn by (metis image_eqI)
  have nM: "n + 1 \<le> M"
    using \<open>i \<le> M\<close> \<open>i = n + 1\<close> by simp
  have d: "distinct (map (relId \<circ> so_meta) ?ooo)"
    using mid by (simp add: rel_mid_def)
  have rem: "rs_remoteOutOfOrder st1
      = filter (\<lambda>m. (relId \<circ> so_meta) m \<noteq> rs_nextRemoteId st) ?ooo"
    using remove_first_filter [OF d, of "rs_nextRemoteId st"] st1(1) by (simp add: o_def)
  have later: "\<exists>i. n + 1 < i \<and> i \<le> M \<and> carries sent i (so_meta m)"
    if "m \<in> set (rs_remoteOutOfOrder st1)" for m
  proof -
    have m: "m \<in> set ?ooo" "unat (relId (so_meta m)) \<noteq> n + 1"
      using that rem rel_mid_next [OF mid, of m] by auto
    from rel_mid_id [OF mid m(1)] obtain i where "n < i" "i \<le> M" "carries sent i (so_meta m)"
      "unat (relId (so_meta m)) = i"
      by blast
    with m(2) show ?thesis
      by (intro exI [of _ i]) auto
  qed
  have "rs_nextRemoteId st1 = of_nat (n + 1 + 1)"
    using st1(2) mid bump_of_nat [of n] nM by (simp add: rel_mid_def)
  then show "rel_mid sent M (n + 1) st1"
    using mid nM later d by (simp add: rel_mid_def rem distinct_map_filter)
  show "stored_ids st1 = stored_ids st - {n + 1}"
    using rel_mid_next [OF mid] by (auto simp: stored_ids_def rem image_iff)
qed


text \<open>The result of restoring: the run of stored messages that directly follow the consumed ones
  moves to the delayed queue, in order, and nothing else changes on the receiving side.\<close>

definition restored ::
    "(nat \<Rightarrow> CompressionHeader option \<times> bytes) \<Rightarrow> nat \<Rightarrow> nat \<Rightarrow> nat \<Rightarrow> 'i ReliableStore \<Rightarrow>
     'i ReliableStore \<Rightarrow> bool" where
  "restored sent M n n' st st' \<longleftrightarrow> n \<le> n' \<and> rel_mid sent M n' st' \<and> n' + 1 \<notin> stored_ids st' \<and>
     map content (rs_remoteDelayedQueue st') =
       map content (rs_remoteDelayedQueue st) @ map sent [n + 1..<n' + 1] \<and>
     stored_ids st' = stored_ids st - {n + 1..n'} \<and> {n + 1..n'} \<subseteq> stored_ids st"

lemma restoredD:
  assumes "restored sent M n n' st st'"
  shows "n \<le> n'" "rel_mid sent M n' st'" "n' + 1 \<notin> stored_ids st'"
    "map content (rs_remoteDelayedQueue st') =
       map content (rs_remoteDelayedQueue st) @ map sent [n + 1..<n' + 1]"
    "stored_ids st' = stored_ids st - {n + 1..n'}" "{n + 1..n'} \<subseteq> stored_ids st"
  using assms unfolding restored_def by blast+

lemma restored_step:
  assumes n': "restored sent M (n + 1) n' st1 st'"
    and ids: "stored_ids st1 = stored_ids st - {n + 1}" "n + 1 \<in> stored_ids st"
    and del: "map content (rs_remoteDelayedQueue st1)
       = map content (rs_remoteDelayedQueue st) @ [sent (n + 1)]"
  shows "restored sent M n n' st st'"
proof -
  have le: "n + 1 \<le> n'"
    using n' by (simp add: restored_def)
  then have "[n + 1..<n' + 1] = (n + 1) # [n + 1 + 1..<n' + 1]"
    using upt_conv_Cons [of "n + 1" "n' + 1"] by (simp del: upt_Suc)
  then have "map content (rs_remoteDelayedQueue st') =
       map content (rs_remoteDelayedQueue st) @ map sent [n + 1..<n' + 1]"
    using n' del by (simp add: restored_def del: upt_Suc)
  moreover have "{n + 1..n'} = insert (n + 1) {n + 1 + 1..n'}"
    using le by auto
  then have "stored_ids st' = stored_ids st - {n + 1..n'}" "{n + 1..n'} \<subseteq> stored_ids st"
    using restoredD(5,6) [OF n'] ids by auto
  moreover have "n \<le> n'"
    using le by simp
  moreover note restoredD(2,3) [OF n']
  ultimately show ?thesis
    unfolding restored_def by blast
qed

lemma restore_run:
  "rel_mid sent M n st \<Longrightarrow> \<exists>n'. restored sent M n n' st (maybeRestoreRemote now st)"
proof (induction "length (rs_remoteOutOfOrder st)" arbitrary: st n rule: less_induct)
  case less
  let ?P = "\<lambda>msg. relId (so_meta msg) = rs_nextRemoteId st"
  show ?case
  proof (cases "find ?P (rs_remoteOutOfOrder st)")
    case None
    then have "n + 1 \<notin> stored_ids st"
      using restore_none [OF less.prems] by simp
    then show ?thesis
      using None less.prems restore_unfold [of now st]
      by (intro exI [of _ n]) (simp add: restored_def)
  next
    case (Some msg)
    let ?st1 = "st\<lparr>rs_remoteDelayedQueue := rs_remoteDelayedQueue st @ [so_meta msg],
        rs_remoteOutOfOrder := remove_first ?P (rs_remoteOutOfOrder st),
        rs_nextRemoteId := bump_skip0 (rs_nextRemoteId st),
        rs_remoteUnacked := rs_remoteUnacked st
          @ [\<lparr>ur_messageId = rs_nextRemoteId st, ur_receivedAt = now\<rparr>]\<rparr>"
    have run: "maybeRestoreRemote now st = maybeRestoreRemote now ?st1"
      using Some restore_unfold [of now st] by simp
    note step = restore_some [OF less.prems Some, of ?st1, simplified]
    have "length (rs_remoteOutOfOrder ?st1) < length (rs_remoteOutOfOrder st)"
      using length_remove_first_less [OF Some] by simp
    from less.hyps [OF this, of "n + 1"] step(1) obtain n' where
      n': "restored sent M (n + 1) n' ?st1 (maybeRestoreRemote now ?st1)"
      by auto
    have "restored sent M n n' st (maybeRestoreRemote now ?st1)"
      by (rule restored_step [OF n']) (use step in simp_all)
    then show ?thesis
      using run by auto
  qed
qed


text \<open>What the transport hands on for one incoming message: the message itself when it is accepted,
  and then the delayed ones, popped until the queue is empty.\<close>

fun drainDelayed :: "nat \<Rightarrow> 'i ReliableStore \<Rightarrow> QunetMessageMeta list \<times> 'i ReliableStore" where
  "drainDelayed 0 st = ([], st)"
| "drainDelayed (Suc n) st =
     (case popDelayedMessage st of
        (None, st) \<Rightarrow> ([], st)
      | (Some m, st) \<Rightarrow> let (ms, st) = drainDelayed n st in (m # ms, st))"

definition rel_receive :: "'i \<Rightarrow> QunetMessageMeta \<Rightarrow> 'i ReliableStore \<Rightarrow>
    QunetMessageMeta list TransportResult \<times> 'i ReliableStore" where
  "rel_receive now meta st =
     (case handleIncoming now meta st of
        (Inl e, st) \<Rightarrow> (Inl e, st)
      | (Inr accepted, st) \<Rightarrow>
          let (ms, st) = drainDelayed (length (rs_remoteDelayedQueue st)) st
          in (Ok ((if accepted then [meta] else []) @ ms), st))"

lemma drainDelayed_all:
  "length (rs_remoteDelayedQueue st) \<le> n \<Longrightarrow>
     drainDelayed n st = (rs_remoteDelayedQueue st, st\<lparr>rs_remoteDelayedQueue := []\<rparr>)"
proof (induction n arbitrary: st)
  case (Suc n)
  then show ?case
    by (cases "rs_remoteDelayedQueue st") (simp_all add: popDelayedMessage_def)
qed simp

lemma rel_frame [simp]:
  "rel_mid sent M n (st\<lparr>rs_localUnacked := q\<rparr>) = rel_mid sent M n st"
  "stored_ids (st\<lparr>rs_localUnacked := q\<rparr>) = stored_ids st"
  "rel_mid sent M n (st\<lparr>rs_remoteUnacked := u\<rparr>) = rel_mid sent M n st"
  "stored_ids (st\<lparr>rs_remoteUnacked := u\<rparr>) = stored_ids st"
  "rel_mid sent M n (st\<lparr>rs_remoteDelayedQueue := d\<rparr>) = rel_mid sent M n st"
  "stored_ids (st\<lparr>rs_remoteDelayedQueue := d\<rparr>) = stored_ids st"
  "stored_ids (st\<lparr>rs_nextRemoteId := i\<rparr>) = stored_ids st"
  by (simp_all add: rel_mid_def stored_ids_def)

lemma processAcks_ok:
  "i + n \<le> length acks \<Longrightarrow> \<exists>q. processAcks_loop acks i n st = (Ok (), st\<lparr>rs_localUnacked := q\<rparr>)"
proof (induction n arbitrary: i st)
  case 0
  show ?case
    by (intro exI [of _ "rs_localUnacked st"]) simp
next
  case (Suc n)
  then obtain q where "processAcks_loop acks (Suc i) n (ackLocal (acks ! i) st)
      = (Ok (), (ackLocal (acks ! i) st)\<lparr>rs_localUnacked := q\<rparr>)"
    by fastforce
  then show ?case
    using Suc.prems by (auto simp: ackLocal_def)
qed

lemma duplicate_pushes:
  assumes "find (\<lambda>msg. relId (so_meta msg) = rs_nextRemoteId st) (rs_remoteOutOfOrder st) = None"
  shows "\<exists>u. pushRemoteDuplicate now i st = st\<lparr>rs_remoteUnacked := u\<rparr>"
proof -
  have "maybeRestoreRemote now (st\<lparr>rs_remoteUnacked := u\<rparr>) = st\<lparr>rs_remoteUnacked := u\<rparr>" for u
    using assms restore_unfold [of now "st\<lparr>rs_remoteUnacked := u\<rparr>"] by simp
  then show ?thesis
    by (auto simp: pushRemoteDuplicate_def pushRemoteUnackedWithId.simps Let_def
        intro: exI [of _ "rs_remoteUnacked st"])
qed

definition progress ::
    "(nat \<Rightarrow> CompressionHeader option \<times> bytes) \<Rightarrow> nat \<Rightarrow> nat \<Rightarrow> nat set \<Rightarrow> 'i ReliableStore \<Rightarrow>
     QunetMessageMeta list \<Rightarrow> nat \<Rightarrow> 'i ReliableStore \<Rightarrow> bool" where
  "progress sent M n new st ms n' st' \<longleftrightarrow> n \<le> n' \<and> rel_inv sent M n' st' \<and>
     map content ms = map sent [n + 1..<n' + 1] \<and>
     {1..n'} \<union> stored_ids st' = {1..n} \<union> stored_ids st \<union> new"

lemma progressD:
  assumes "progress sent M n new st ms n' st'"
  shows "n \<le> n'" "rel_inv sent M n' st'" "map content ms = map sent [n + 1..<n' + 1]"
    "{1..n'} \<union> stored_ids st' = {1..n} \<union> stored_ids st \<union> new"
  using assms unfolding progress_def by blast+

lemma rel_mid_advance:
  assumes "rel_mid sent M n st" "n + 1 \<notin> stored_ids st" "n + 1 \<le> M"
  shows "rel_mid sent M (n + 1) (st\<lparr>rs_nextRemoteId := bump_skip0 (rs_nextRemoteId st)\<rparr>)"
proof -
  have "\<exists>i. n + 1 < i \<and> i \<le> M \<and> carries sent i (so_meta m)"
    if m: "m \<in> set (rs_remoteOutOfOrder st)" for m
  proof -
    obtain i where "n < i" "i \<le> M" "carries sent i (so_meta m)" "unat (relId (so_meta m)) = i"
      using rel_mid_id [OF assms(1) m] by blast
    moreover have "unat (relId (so_meta m)) \<noteq> n + 1"
      using assms(2) m unfolding stored_ids_def by (metis image_eqI)
    ultimately show ?thesis
      by (intro exI [of _ i]) auto
  qed
  moreover have "bump_skip0 (rs_nextRemoteId st) = of_nat (n + 1 + 1)"
    using assms bump_of_nat [of n] by (simp add: rel_mid_def)
  ultimately show ?thesis
    using assms by (simp add: rel_mid_def)
qed

lemma store_step:
  assumes mid: "rel_mid sent M n st" and c: "carries sent i meta" and i: "n + 1 < i" "i \<le> M"
    and run: "storeRemoteOutOfOrder now meta st = (r, st')"
  shows "(r = Err (CustomKind TooUnreliable) \<and> 32 \<le> length (rs_remoteOutOfOrder st)) \<or>
     (r = Ok () \<and> rel_mid sent M n st' \<and> stored_ids st' = insert i (stored_ids st) \<and>
      rs_remoteDelayedQueue st' = rs_remoteDelayedQueue st)"
proof -
  have M: "M \<le> 65534"
    using mid by (simp add: rel_mid_def)
  have ui: "unat (relId meta) = i"
    using c i M by (simp add: carries_def unat_of_nat_u16)
  have mem: "(\<exists>msg\<in>set (rs_remoteOutOfOrder st). relId (so_meta msg) = relId meta) \<longleftrightarrow> i \<in> stored_ids st"
    by (auto simp: stored_ids_def image_iff word_unat_eq_iff ui)
  consider "32 \<le> length (rs_remoteOutOfOrder st)"
    | "length (rs_remoteOutOfOrder st) < 32" "i \<in> stored_ids st"
    | "length (rs_remoteOutOfOrder st) < 32" "i \<notin> stored_ids st"
    by linarith
  then show ?thesis
  proof cases
    case 1
    then show ?thesis
      using run by (auto simp: storeRemoteOutOfOrder_def)
  next
    case 2
    then have "r = Ok ()" "st' = st"
      using run mem by (auto simp: storeRemoteOutOfOrder_def)
    then show ?thesis
      using mid 2 by (simp add: insert_absorb)
  next
    case 3
    then have st': "r = Ok ()" "st' = st\<lparr>rs_remoteOutOfOrder := rs_remoteOutOfOrder st
         @ [\<lparr>so_meta = meta, so_receivedAt = now\<rparr>]\<rparr>"
      using run mem by (auto simp: storeRemoteOutOfOrder_def)
    have "relId meta \<notin> (relId \<circ> so_meta) ` set (rs_remoteOutOfOrder st)"
      using 3 mem by auto
    then have "rel_mid sent M n st'"
      using mid c i st' by (auto simp: rel_mid_def)
    moreover have "stored_ids st' = insert i (stored_ids st)"
      by (simp add: st' stored_ids_def ui)
    ultimately show ?thesis
      using st' by simp
  qed
qed

lemma rel_receive_step:
  assumes inv: "rel_inv sent M n st" and c: "carries sent i meta" "acks_ok meta"
    and i: "1 \<le> i" "i \<le> M" "M < i + 16383"
  shows "rel_receive now meta st = (r, st') \<Longrightarrow>
     (r = Err (CustomKind TooUnreliable) \<and> 32 \<le> length (rs_remoteOutOfOrder st)) \<or>
     (\<exists>ms n'. r = Ok ms \<and> progress sent M n {i} st ms n' st')"
proof -
  assume run: "rel_receive now meta st = (r, st')"
  obtain h where h: "mm_reliabilityHeader meta = Some h" "rh_ackCount h \<le> length (rh_acks h)"
    using c(2) by (auto simp: acks_ok_def split: option.splits)
  have hid: "rh_messageId h = of_nat i"
    using c(1) h by (simp add: carries_def relId_def)
  have mid: "rel_mid sent M n st" and none: "n + 1 \<notin> stored_ids st"
    and del: "rs_remoteDelayedQueue st = []"
    using inv by (simp_all add: rel_inv_def)
  have nM: "n \<le> M" "M \<le> 65534" and nxt: "rs_nextRemoteId st = of_nat (n + 1)"
    using mid by (simp_all add: rel_mid_def)
  have ui: "unat (of_nat i :: u16) = i" and un: "unat (of_nat (n + 1) :: u16) = n + 1"
    using i nM by (simp_all only: unat_of_nat_u16)
  have i0: "(of_nat i :: u16) \<noteq> 0"
    using ui i by (metis not_one_le_zero unat_0)
  have dupl: "(of_nat i < (of_nat (n + 1) :: u16) \<and>
      int (unat (of_nat (n + 1) :: u16)) - int (unat (of_nat i :: u16)) < 16384) \<longleftrightarrow> i \<le> n"
    using i nM by (auto simp only: word_less_nat_alt ui un)
  have lt: "of_nat i < (of_nat (n + 1) :: u16) \<longleftrightarrow> i \<le> n"
    by (auto simp only: word_less_nat_alt ui un)
  have eq: "(of_nat i :: u16) = of_nat (n + 1) \<longleftrightarrow> i = n + 1"
    using ui un by metis
  obtain q where acks: "processAcks h st = (Ok (), st\<lparr>rs_localUnacked := q\<rparr>)"
    using processAcks_ok [of 0 "rh_ackCount h" "rh_acks h" st] h by (auto simp: processAcks_def)
  let ?st = "st\<lparr>rs_localUnacked := q\<rparr>"
  note hi = handleIncoming_def [of now meta st, unfolded h(1) option.case acks hid prod.case sum.case]
  consider "i \<le> n" | "i = n + 1" | "n + 1 < i"
    by linarith
  then show ?thesis
  proof cases
    case 1
    have "find (\<lambda>msg. relId (so_meta msg) = rs_nextRemoteId ?st) (rs_remoteOutOfOrder ?st) = None"
      using restore_none [OF mid] none by simp
    then obtain u where u: "pushRemoteDuplicate now (of_nat i) ?st = ?st\<lparr>rs_remoteUnacked := u\<rparr>"
      using duplicate_pushes [of ?st now "of_nat i"] by blast
    then have "handleIncoming now meta st = (Ok False, ?st\<lparr>rs_remoteUnacked := u\<rparr>)"
      using hi i0 dupl 1 nxt by (simp add: Let_def del: of_nat_add of_nat_Suc)
    then have "r = Ok [] \<and> st' = ?st\<lparr>rs_remoteUnacked := u\<rparr>"
      using run del by (simp add: rel_receive_def)
    moreover have "progress sent M n {i} st [] n (?st\<lparr>rs_remoteUnacked := u\<rparr>)"
      using inv 1 i del by (auto simp: progress_def rel_inv_def)
    ultimately show ?thesis
      by blast
  next
    case 2
    let ?st2 = "?st\<lparr>rs_nextRemoteId := bump_skip0 (rs_nextRemoteId st), rs_remoteUnacked :=
       rs_remoteUnacked st @ [\<lparr>ur_messageId = rs_nextRemoteId st, ur_receivedAt = now\<rparr>]\<rparr>"
    let ?st3 = "maybeRestoreRemote now ?st2"
    have mid2: "rel_mid sent M (n + 1) ?st2"
      using rel_mid_advance [of sent M n ?st] mid none i 2 by simp
    then obtain n' where n': "restored sent M (n + 1) n' ?st2 ?st3"
      using restore_run [OF mid2, of now] by blast
    have "handleIncoming now meta st = (Ok True, ?st3)"
      using hi i0 dupl eq 2 nxt pushRemoteUnacked_eq [of now ?st]
      by (simp add: Let_def del: of_nat_add of_nat_Suc)
    then have r: "r = Ok (meta # rs_remoteDelayedQueue ?st3)"
      and st': "st' = ?st3\<lparr>rs_remoteDelayedQueue := []\<rparr>"
      using run by (simp_all add: rel_receive_def drainDelayed_all)
    note n'D = restoredD [OF n']
    have "[n + 1..<n' + 1] = (n + 1) # [n + 1 + 1..<n' + 1]"
      using n'D(1) upt_conv_Cons [of "n + 1" "n' + 1"] by (simp del: upt_Suc)
    then have "map content (meta # rs_remoteDelayedQueue ?st3) = map sent [n + 1..<n' + 1]"
      using n'D(4) c(1) 2 del by (simp add: carries_def del: upt_Suc)
    moreover have "{1..n'} \<union> stored_ids ?st3 = {1..n} \<union> stored_ids st \<union> {i}"
    proof -
      have "{1..n'} = {1..n} \<union> {n + 1} \<union> {n + 1 + 1..n'}"
        using n'D(1) by auto
      moreover have "{n + 1 + 1..n'} \<subseteq> stored_ids st" "stored_ids ?st3 = stored_ids st - {n + 1 + 1..n'}"
        using n'D(5,6) by simp_all
      ultimately show ?thesis
        using 2 by blast
    qed
    moreover have "rel_inv sent M n' st'"
      using n'D(2,3) by (simp add: rel_inv_def st')
    moreover have "stored_ids st' = stored_ids ?st3" "n \<le> n'"
      using n'D(1) by (simp_all add: st')
    ultimately have "progress sent M n {i} st (meta # rs_remoteDelayedQueue ?st3) n' st'"
      unfolding progress_def by simp
    then show ?thesis
      using r by blast
  next
    case 3
    obtain r0 st0 where so: "storeRemoteOutOfOrder now meta ?st = (r0, st0)"
      by (cases "storeRemoteOutOfOrder now meta ?st")
    have "handleIncoming now meta st = (case storeRemoteOutOfOrder now meta ?st of
        (Inl e, st) \<Rightarrow> (Inl e, st) | (Inr _, st) \<Rightarrow> (Ok False, st))"
      using hi i0 lt eq 3 nxt by (simp add: Let_def del: of_nat_add of_nat_Suc)
    moreover have "rel_mid sent M n ?st"
      using mid by simp
    from store_step [OF this c(1) 3 i(2) so]
    have "(r0 = Err (CustomKind TooUnreliable) \<and> 32 \<le> length (rs_remoteOutOfOrder st)) \<or>
       (r0 = Ok () \<and> rel_mid sent M n st0 \<and> stored_ids st0 = insert i (stored_ids st) \<and>
        rs_remoteDelayedQueue st0 = [])"
      using del by simp
    moreover have "progress sent M n {i} st [] n st0" if "rel_mid sent M n st0"
      "stored_ids st0 = insert i (stored_ids st)" "rs_remoteDelayedQueue st0 = []"
      using that none 3 by (auto simp: progress_def rel_inv_def)
    ultimately show ?thesis
      using run so by (auto simp: rel_receive_def)
  qed
qed


fun rel_receives :: "('i \<times> QunetMessageMeta) list \<Rightarrow> 'i ReliableStore \<Rightarrow>
    QunetMessageMeta list TransportResult \<times> 'i ReliableStore" where
  "rel_receives [] st = (Ok [], st)"
| "rel_receives ((now, meta) # evs) st =
     (case rel_receive now meta st of
        (Inl e, st) \<Rightarrow> (Inl e, st)
      | (Inr ms, st) \<Rightarrow>
          (case rel_receives evs st of
             (Inl e, st) \<Rightarrow> (Inl e, st)
           | (Inr ms', st) \<Rightarrow> (Ok (ms @ ms'), st)))"

definition arrives ::
    "(nat \<Rightarrow> CompressionHeader option \<times> bytes) \<Rightarrow> nat \<Rightarrow> nat \<Rightarrow> QunetMessageMeta \<Rightarrow> bool" where
  "arrives sent M i meta \<longleftrightarrow>
     1 \<le> i \<and> i \<le> M \<and> M < i + 16383 \<and> carries sent i meta \<and> acks_ok meta"

lemma rel_receives_run:
  assumes "list_all2 (\<lambda>i ev. arrives sent M i (snd ev)) ids evs"
    and "rel_inv sent M n st" and "rel_receives evs st = (r, st')"
  shows "r = Err (CustomKind TooUnreliable) \<or>
     (\<exists>ms n'. r = Ok ms \<and> progress sent M n (set ids) st ms n' st')"
  using assms
proof (induction evs arbitrary: ids n st r st' rule: list.induct)
  case Nil
  have "ids = []"
    using Nil.prems(1) by simp
  moreover have "r = Ok []" "st' = st"
    using Nil.prems(3) by auto
  ultimately have "progress sent M n (set ids) st [] n st'" "r = Ok []"
    using Nil.prems(2) by (auto simp: progress_def)
  then show ?case
    by blast
next
  case (Cons ev evs)
  obtain now meta where ev: "ev = (now, meta)"
    by (cases ev)
  from Cons.prems(1) obtain i js where js: "ids = i # js" "arrives sent M i meta"
    "list_all2 (\<lambda>i ev. arrives sent M i (snd ev)) js evs"
    by (auto simp: ev list_all2_Cons2)
  obtain r1 st1 where r1: "rel_receive now meta st = (r1, st1)"
    by (cases "rel_receive now meta st")
  have "r1 = Err (CustomKind TooUnreliable) \<or> (\<exists>ms n1. r1 = Ok ms \<and> progress sent M n {i} st ms n1 st1)"
    using rel_receive_step [OF Cons.prems(2) _ _ _ _ _ r1, of i] js(2) by (auto simp: arrives_def)
  then show ?case
  proof
    assume "r1 = Err (CustomKind TooUnreliable)"
    then show ?thesis
      using Cons.prems(3) r1 ev by simp
  next
    assume "\<exists>ms n1. r1 = Ok ms \<and> progress sent M n {i} st ms n1 st1"
    then obtain ms n1 where ms: "r1 = Ok ms" and p1: "progress sent M n {i} st ms n1 st1"
      by blast
    obtain r2 st2 where r2: "rel_receives evs st1 = (r2, st2)"
      by (cases "rel_receives evs st1")
    have "r2 = Err (CustomKind TooUnreliable) \<or>
        (\<exists>ms' n2. r2 = Ok ms' \<and> progress sent M n1 (set js) st1 ms' n2 st2)"
      using Cons.IH [OF js(3) progressD(2) [OF p1] r2] .
    moreover have "progress sent M n (set ids) st (ms @ ms') n2 st2"
      if "progress sent M n1 (set js) st1 ms' n2 st2" for ms' n2
    proof -
      have "[n + 1..<n2 + 1] = [n + 1..<n1 + 1] @ [n1 + 1..<n2 + 1]"
        using progressD(1) [OF p1] progressD(1) [OF that]
          upt_add_eq_append [of "n + 1" "n1 + 1" "n2 - n1"] by (simp del: upt_Suc)
      then have "map content (ms @ ms') = map sent [n + 1..<n2 + 1]"
        using progressD(3) [OF p1] progressD(3) [OF that] by (simp del: upt_Suc)
      moreover have "{1..n2} \<union> stored_ids st2 = {1..n} \<union> stored_ids st \<union> set ids"
        using progressD(4) [OF p1] progressD(4) [OF that] js(1) by auto
      moreover have "n \<le> n2"
        using progressD(1) [OF p1] progressD(1) [OF that] by simp
      ultimately show ?thesis
        using progressD(2) [OF that] unfolding progress_def by blast
    qed
    ultimately show ?thesis
      using Cons.prems(3) r1 ms r2 ev by auto blast
  qed
qed

text \<open>C2 (functional).  Reliable delivery is in order and exactly once: whatever sequence of the peer's
  messages arrives (reordered, duplicated, with gaps), as long as no id wraps around and
  duplicates are less than 16384 behind, the messages handed on continue the sent sequence
  without gap or repetition, unless the connection is given up as too unreliable; and once every
  message up to the last has arrived, all of them have been handed on.\<close>

theorem reliable_in_order_delivery:
  assumes "list_all2 (\<lambda>i ev. arrives sent M i (snd ev)) ids evs"
    and "rel_inv sent M n st" and "rel_receives evs st = (r, st')"
  shows "r = Err (CustomKind TooUnreliable) \<or>
     (\<exists>ms n'. r = Ok ms \<and> n \<le> n' \<and> rel_inv sent M n' st' \<and>
        map content ms = map sent [n + 1..<n' + 1] \<and>
        ({n + 1..M} \<subseteq> set ids \<longrightarrow> n' = M))"
proof (cases "r = Err (CustomKind TooUnreliable)")
  case False
  then obtain ms n' where ms: "r = Ok ms" and p: "progress sent M n (set ids) st ms n' st'"
    using rel_receives_run [OF assms] by blast
  have "n' = M" if all: "{n + 1..M} \<subseteq> set ids"
  proof (rule ccontr)
    assume ne: "n' \<noteq> M"
    have "n' \<le> M" "n \<le> n'" "n' + 1 \<notin> stored_ids st'"
      using p by (simp_all add: progress_def rel_inv_def rel_mid_def)
    then have "n' + 1 \<in> {n + 1..M}"
      using ne by simp
    then have "n' + 1 \<in> set ids"
      using all by blast
    then have "n' + 1 \<in> {1..n'} \<union> stored_ids st'"
      using p unfolding progress_def by blast
    then show False
      using \<open>n' + 1 \<notin> stored_ids st'\<close> by simp
  qed
  with ms p show ?thesis
    by (auto simp: progress_def)
qed simp


definition rel_meta :: "u16 \<Rightarrow> bytes \<Rightarrow> QunetMessageMeta" where
  "rel_meta i bs = \<lparr>mm_type = MSG_DATA, mm_compressionHeader = None,
     mm_reliabilityHeader = Some \<lparr>rh_messageId = i, rh_ackCount = 0, rh_acks = []\<rparr>,
     mm_fragmentationHeader = None, mm_data = bs, mm_dataOffset = 5\<rparr>"

theorem reliable_in_order_delivery_witness:
  "\<exists>ms st'. rel_receives [(0 :: nat, rel_meta 2 [20]), (1, rel_meta 2 [20]), (2, rel_meta 1 [10]),
        (3, rel_meta 1 [10]), (4, rel_meta 3 [30])] ReliableStore_new = (Ok ms, st') \<and>
     map mm_data ms = [[10], [20], [30]]"
proof -
  let ?evs = "[(0 :: nat, rel_meta 2 [20]), (1, rel_meta 2 [20]), (2, rel_meta 1 [10]),
        (3, rel_meta 1 [10]), (4, rel_meta 3 [30])]"
  let ?sent = "\<lambda>i. (None :: CompressionHeader option, [of_nat (10 * i) :: u8])"
  obtain r st' where run: "rel_receives ?evs ReliableStore_new = (r, st')"
    by (cases "rel_receives ?evs (ReliableStore_new :: nat ReliableStore)")
  have arr: "list_all2 (\<lambda>i ev. arrives ?sent 3 i (snd ev)) [2, 2, 1, 1, 3] ?evs"
    by (simp add: arrives_def carries_def acks_ok_def relId_def content_def rel_meta_def)
  have inv: "rel_inv ?sent 3 0 (ReliableStore_new :: nat ReliableStore)"
    by (simp add: rel_inv_def rel_mid_def stored_ids_def ReliableStore_new_def)
  have ok: "r \<noteq> Err (CustomKind TooUnreliable)"
    using run by (auto simp: rel_receive_def handleIncoming_def rel_meta_def ReliableStore_new_def
        processAcks_def storeRemoteOutOfOrder_def relId_def restore_simps pushRemoteDuplicate_def
        popDelayedMessage_def Let_def)
  have all: "{0 + 1..3} \<subseteq> set [2, 2, 1, 1, 3 :: nat]"
    by auto
  obtain ms n' where "r = Ok ms" "map content ms = map ?sent [0 + 1..<n' + 1]" "n' = 3"
    using reliable_in_order_delivery [OF arr inv run] ok all by blast
  moreover have "map mm_data ms = map (snd \<circ> content) ms"
    by (simp add: content_def)
  ultimately have "map mm_data ms = [[10], [20], [30]]"
    by (simp only: map_map [symmetric]) (simp add: upt_rec)
  moreover have "rel_receives ?evs ReliableStore_new = (Ok ms, st')"
    using run \<open>r = Ok ms\<close> by (simp only:)
  ultimately show ?thesis
    by (intro exI [of _ ms] exI [of _ st'] conjI)
qed

section \<open>Limits\<close>

text \<open>The ids that wait for an acknowledgement, and the messages that wait for the user: those stored out of
  order will still join either queue.\<close>

definition acks_due :: "'i ReliableStore \<Rightarrow> nat" where
  "acks_due st = length (rs_remoteUnacked st) + length (rs_remoteOutOfOrder st)"

definition held_back :: "'i ReliableStore \<Rightarrow> nat" where
  "held_back st = length (rs_remoteDelayedQueue st) + length (rs_remoteOutOfOrder st)"

lemma restore_moves:
  "acks_due (maybeRestoreRemote now st) = acks_due st \<and> held_back (maybeRestoreRemote now st) = held_back st"
proof (induction "length (rs_remoteOutOfOrder st)" arbitrary: st rule: less_induct)
  case less
  let ?P = "\<lambda>msg. relId (so_meta msg) = rs_nextRemoteId st"
  show ?case
  proof (cases "find ?P (rs_remoteOutOfOrder st)")
    case None
    then show ?thesis
      using restore_unfold [of now st] by simp
  next
    case (Some msg)
    let ?st1 = "st\<lparr>rs_remoteDelayedQueue := rs_remoteDelayedQueue st @ [so_meta msg],
        rs_remoteOutOfOrder := remove_first ?P (rs_remoteOutOfOrder st),
        rs_nextRemoteId := bump_skip0 (rs_nextRemoteId st),
        rs_remoteUnacked := rs_remoteUnacked st
          @ [\<lparr>ur_messageId = rs_nextRemoteId st, ur_receivedAt = now\<rparr>]\<rparr>"
    have run: "maybeRestoreRemote now st = maybeRestoreRemote now ?st1"
      using Some restore_unfold [of now st] by simp
    have lt: "length (rs_remoteOutOfOrder ?st1) < length (rs_remoteOutOfOrder st)"
      using length_remove_first_less [OF Some] by simp
    have "Suc (length (remove_first ?P (rs_remoteOutOfOrder st))) = length (rs_remoteOutOfOrder st)"
      using Some find_None_iff [of ?P "rs_remoteOutOfOrder st"]
      by (auto simp: length_remove_first dest: length_pos_if_in_set)
    then show ?thesis
      using less [OF lt] unfolding run by (simp add: acks_due_def held_back_def)
  qed
qed

lemma restore_frame:
  "length (rs_remoteOutOfOrder (maybeRestoreRemote now st)) \<le> length (rs_remoteOutOfOrder st) \<and>
   rs_localUnacked (maybeRestoreRemote now st) = rs_localUnacked st \<and>
   rs_nextLocalId (maybeRestoreRemote now st) = rs_nextLocalId st \<and>
   rs_avgRttMicros (maybeRestoreRemote now st) = rs_avgRttMicros st \<and>
   (rs_nextRemoteId st \<noteq> 0 \<longrightarrow> rs_nextRemoteId (maybeRestoreRemote now st) \<noteq> 0)"
proof (induction "length (rs_remoteOutOfOrder st)" arbitrary: st rule: less_induct)
  case less
  let ?P = "\<lambda>msg. relId (so_meta msg) = rs_nextRemoteId st"
  show ?case
  proof (cases "find ?P (rs_remoteOutOfOrder st)")
    case None
    then show ?thesis
      using restore_unfold [of now st] by simp
  next
    case (Some msg)
    let ?st1 = "st\<lparr>rs_remoteDelayedQueue := rs_remoteDelayedQueue st @ [so_meta msg],
        rs_remoteOutOfOrder := remove_first ?P (rs_remoteOutOfOrder st),
        rs_nextRemoteId := bump_skip0 (rs_nextRemoteId st),
        rs_remoteUnacked := rs_remoteUnacked st
          @ [\<lparr>ur_messageId = rs_nextRemoteId st, ur_receivedAt = now\<rparr>]\<rparr>"
    have run: "maybeRestoreRemote now st = maybeRestoreRemote now ?st1"
      using Some restore_unfold [of now st] by simp
    have lt: "length (rs_remoteOutOfOrder ?st1) < length (rs_remoteOutOfOrder st)"
      using length_remove_first_less [OF Some] by simp
    show ?thesis
      using less [OF lt] lt unfolding run by (simp add: bump_skip0_nonzero)
  qed
qed

text \<open>The well-formedness of the store: at most 32 messages wait out of order, at most 64 wait for an
  acknowledgement, and neither counter is 0.\<close>

definition rs_inv :: "'i ReliableStore \<Rightarrow> bool" where
  "rs_inv st \<longleftrightarrow> length (rs_remoteOutOfOrder st) \<le> 32 \<and> length (rs_localUnacked st) \<le> 64 \<and>
     rs_nextRemoteId st \<noteq> 0 \<and> rs_nextLocalId st \<noteq> 0"

lemma pushRemoteUnacked_inv: "rs_inv st \<Longrightarrow> rs_inv (pushRemoteUnacked now st)"
proof -
  assume inv: "rs_inv st"
  let ?st1 = "st\<lparr>rs_nextRemoteId := bump_skip0 (rs_nextRemoteId st), rs_remoteUnacked :=
      rs_remoteUnacked st @ [\<lparr>ur_messageId = rs_nextRemoteId st, ur_receivedAt = now\<rparr>]\<rparr>"
  show "rs_inv (pushRemoteUnacked now st)"
    using inv restore_frame [of now ?st1] unfolding pushRemoteUnacked_eq
    by (auto simp: rs_inv_def bump_skip0_nonzero)
qed

lemma pushRemoteDuplicate_inv: "rs_inv st \<Longrightarrow> rs_inv (pushRemoteDuplicate now i st)"
proof -
  assume inv: "rs_inv st"
  let ?st1 = "st\<lparr>rs_remoteUnacked := rs_remoteUnacked st @ [\<lparr>ur_messageId = i, ur_receivedAt = now\<rparr>]\<rparr>"
  have "rs_inv (maybeRestoreRemote now ?st1)"
    using inv restore_frame [of now ?st1] by (auto simp: rs_inv_def)
  then show "rs_inv (pushRemoteDuplicate now i st)"
    using inv by (simp add: pushRemoteDuplicate_def pushRemoteUnackedWithId.simps Let_def)
qed

lemma processAcks_loop_inv: "rs_inv st \<Longrightarrow> rs_inv (snd (processAcks_loop acks i n st))"
proof (induction n arbitrary: i st)
  case (Suc n)
  have "rs_inv (ackLocal a st)" for a
    using Suc.prems order_trans [OF length_remove_first_le]
    by (auto simp: rs_inv_def ackLocal_def)
  then show ?case
    using Suc by (simp split: sum.splits)
qed simp

lemma handleIncoming_inv:
  assumes "rs_inv st"
  shows "rs_inv (snd (handleIncoming now message st))"
proof (cases "mm_reliabilityHeader message")
  case None
  then show ?thesis
    using assms by (simp add: handleIncoming_def)
next
  case (Some h)
  obtain r st1 where p: "processAcks h st = (r, st1)"
    by (cases "processAcks h st")
  then have inv1: "rs_inv st1"
    using processAcks_loop_inv [OF assms, of "rh_acks h" 0 "rh_ackCount h"]
    by (simp add: processAcks_def)
  moreover have "rs_inv (snd (storeRemoteOutOfOrder now message st1))"
    using inv1 by (simp add: storeRemoteOutOfOrder_def rs_inv_def)
  ultimately show ?thesis
    using Some p
    by (auto simp: handleIncoming_def Let_def pushRemoteUnacked_inv pushRemoteDuplicate_inv
        split: sum.splits prod.splits if_splits)
qed


lemma maybeRetransmit_loop_length:
  "length (snd (maybeRetransmit_loop T now st q)) = length q"
  by (induction q) (auto simp: Let_def case_prod_beta)

lemma setOutgoingAcks_loop_frame:
  "\<exists>u. snd (setOutgoingAcks_loop i n h st) = st\<lparr>rs_remoteUnacked := u\<rparr>"
proof (induction n arbitrary: i h st)
  case 0
  show ?case
    by (intro exI [of _ "rs_remoteUnacked st"]) simp
next
  case (Suc n)
  show ?case
  proof (cases "rs_remoteUnacked st")
    case Nil
    then show ?thesis
      by (intro exI [of _ "[]"]) simp
  next
    case (Cons msg rest)
    then show ?thesis
      using Suc [of "Suc i" _ "st\<lparr>rs_remoteUnacked := rest\<rparr>"] by simp
  qed
qed

lemma setOutgoingAcks_loop_drops:
  "length (rs_remoteUnacked (snd (setOutgoingAcks_loop i n h st))) = length (rs_remoteUnacked st) - n"
  by (induction n arbitrary: i h st) (auto split: list.split)

lemma processAcks_loop_counts:
  "acks_due (snd (processAcks_loop acks i n st)) = acks_due st \<and> held_back (snd (processAcks_loop acks i n st)) = held_back st"
  by (induction n arbitrary: i st) (auto simp: ackLocal_def acks_due_def held_back_def split: sum.splits)

lemma handleIncoming_counts:
  "acks_due (snd (handleIncoming now message st)) \<le> acks_due st + 1 \<and>
   held_back (snd (handleIncoming now message st)) \<le> held_back st + 1"
proof (cases "mm_reliabilityHeader message")
  case None
  then show ?thesis
    by (simp add: handleIncoming_def)
next
  case (Some h)
  obtain r st1 where p: "processAcks h st = (r, st1)"
    by (cases "processAcks h st")
  then have same: "acks_due st1 = acks_due st" "held_back st1 = held_back st"
    using processAcks_loop_counts [of "rh_acks h" 0 "rh_ackCount h" st] by (simp_all add: processAcks_def)
  have "acks_due (pushRemoteUnacked now st1) = acks_due st1 + 1" "held_back (pushRemoteUnacked now st1) = held_back st1"
    unfolding pushRemoteUnacked_eq by (simp_all add: restore_moves) (simp_all add: acks_due_def held_back_def)
  moreover have "acks_due (pushRemoteDuplicate now i st1) \<le> acks_due st1 + 1" "held_back (pushRemoteDuplicate now i st1) = held_back st1"
    for i
    unfolding pushRemoteDuplicate_def pushRemoteUnackedWithId.simps Let_def
    by (simp_all add: restore_moves) (auto simp: acks_due_def held_back_def)
  moreover have "acks_due (snd (storeRemoteOutOfOrder now message st1)) \<le> acks_due st1 + 1"
    "held_back (snd (storeRemoteOutOfOrder now message st1)) \<le> held_back st1 + 1"
    by (simp_all add: storeRemoteOutOfOrder_def acks_due_def held_back_def)
  ultimately show ?thesis
    using Some p same by (auto simp: handleIncoming_def Let_def split: sum.splits prod.splits)
qed



section \<open>Acknowledgements\<close>

lemma setOutgoingAcks_loop_spec:
  "i + n \<le> length (rh_acks h) \<Longrightarrow> rh_ackCount h = i \<Longrightarrow>
   setOutgoingAcks_loop i n h st = (h', st') \<Longrightarrow>
     rh_ackCount h' = i + min n (length (rs_remoteUnacked st)) \<and>
     length (rh_acks h') = length (rh_acks h) \<and> rh_messageId h' = rh_messageId h \<and>
     take (i + min n (length (rs_remoteUnacked st))) (rh_acks h')
       = take i (rh_acks h) @ map ur_messageId (take n (rs_remoteUnacked st)) \<and>
     st' = st\<lparr>rs_remoteUnacked := drop n (rs_remoteUnacked st)\<rparr>"
proof (induction n arbitrary: i h st)
  case (Suc n)
  show ?case
  proof (cases "rs_remoteUnacked st")
    case Nil
    then show ?thesis
      using Suc.prems by auto
  next
    case (Cons msg rest)
    let ?h = "h\<lparr>rh_acks := (rh_acks h)[i := ur_messageId msg], rh_ackCount := rh_ackCount h + 1\<rparr>"
    let ?st = "st\<lparr>rs_remoteUnacked := rest\<rparr>"
    have "setOutgoingAcks_loop (Suc i) n ?h ?st = (h', st')"
      using Suc.prems(3) Cons by simp
    moreover have "take (Suc i) ((rh_acks h)[i := ur_messageId msg])
        = take i (rh_acks h) @ [ur_messageId msg]"
      using Suc.prems(1) by (simp add: take_Suc_conv_app_nth)
    ultimately show ?thesis
      using Suc.IH [of "Suc i" ?h ?st] Suc.prems Cons by simp
  qed
qed auto

text \<open>C36 (functional).  The acknowledgements put on an outgoing message are the ids of the oldest (at
  most 8) messages awaiting one, in order, and exactly these leave the queue: every received
  message is acknowledged once, and the count never exceeds the array.\<close>

theorem outgoing_acks:
  assumes "length (rh_acks header) = 8" and "setOutgoingAcks header st = (header', st')"
  shows "rh_ackCount header' = min 8 (length (rs_remoteUnacked st)) \<and>
     length (rh_acks header') = 8 \<and> rh_messageId header' = rh_messageId header \<and>
     take (rh_ackCount header') (rh_acks header') @ map ur_messageId (rs_remoteUnacked st')
       = map ur_messageId (rs_remoteUnacked st) \<and>
     st' = st\<lparr>rs_remoteUnacked := drop 8 (rs_remoteUnacked st)\<rparr>"
proof -
  have spec: "rh_ackCount header' = min 8 (length (rs_remoteUnacked st)) \<and>
     length (rh_acks header') = 8 \<and> rh_messageId header' = rh_messageId header \<and>
     take (min 8 (length (rs_remoteUnacked st))) (rh_acks header')
       = map ur_messageId (take 8 (rs_remoteUnacked st)) \<and>
     st' = st\<lparr>rs_remoteUnacked := drop 8 (rs_remoteUnacked st)\<rparr>"
    using setOutgoingAcks_loop_spec [of 0 8 "header\<lparr>rh_ackCount := 0\<rparr>" st header' st'] assms
    by (simp add: setOutgoingAcks_def)
  moreover have "map ur_messageId (take 8 (rs_remoteUnacked st))
      @ map ur_messageId (drop 8 (rs_remoteUnacked st)) = map ur_messageId (rs_remoteUnacked st)"
    by (simp flip: map_append)
  ultimately show ?thesis
    by simp
qed

theorem outgoing_acks_witness:
  "rh_ackCount (fst (setOutgoingAcks \<lparr>rh_messageId = 0, rh_ackCount = 0, rh_acks = replicate 8 0\<rparr>
     (ReliableStore_new\<lparr>rs_remoteUnacked := [\<lparr>ur_messageId = 4, ur_receivedAt = 0 :: nat\<rparr>]\<rparr>))) = 1"
  using outgoing_acks [of "\<lparr>rh_messageId = 0, rh_ackCount = 0, rh_acks = replicate 8 0\<rparr>"
      "ReliableStore_new\<lparr>rs_remoteUnacked := [\<lparr>ur_messageId = 4, ur_receivedAt = 0 :: nat\<rparr>]\<rparr>",
      OF _ prod.collapse [symmetric]]
  by simp

lemma processAcks_out_of_bounds:
  "length acks < i + n \<Longrightarrow> i \<le> length acks \<Longrightarrow>
     fst (processAcks_loop acks i n st) = Inl OutOfBounds"
  by (induction n arbitrary: i st) (auto simp: at_def)

text \<open>An incoming reliability header that announces more acknowledgements than the array
  of 8 holds makes \<open>handleIncoming\<close> read outside of the array, whatever the state of the
  store.\<close>

theorem incoming_acks_overrun:
  assumes "mm_reliabilityHeader message = Some rh" and "length (rh_acks rh) = 8"
    and "8 < rh_ackCount rh"
  shows "fst (handleIncoming now message st) = Inl OutOfBounds"
proof -
  obtain st1 where "processAcks rh st = (Inl OutOfBounds, st1)"
    using processAcks_out_of_bounds [of "rh_acks rh" 0 "rh_ackCount rh" st] assms
    by (cases "processAcks rh st") (auto simp: processAcks_def)
  then show ?thesis
    using assms(1) by (simp add: handleIncoming_def)
qed

theorem incoming_acks_overrun_witness:
  "fst (handleIncoming (0 :: nat) \<lparr>mm_type = MSG_DATA, mm_compressionHeader = None,
     mm_reliabilityHeader = Some \<lparr>rh_messageId = 1, rh_ackCount = 9, rh_acks = replicate 8 3\<rparr>,
     mm_fragmentationHeader = None, mm_data = [], mm_dataOffset = 0\<rparr> ReliableStore_new)
   = Inl OutOfBounds"
  by (rule incoming_acks_overrun [where rh = "\<lparr>rh_messageId = 1, rh_ackCount = 9,
        rh_acks = replicate 8 3\<rparr>"]) simp_all

text \<open>After the remote counter has wrapped from 65535 to 1, a retransmitted copy of a
  message from before the wrap is not recognised as a duplicate: it is stored as a message from
  the future and is not acknowledged again.\<close>

theorem duplicate_after_wrap_is_stored:
  assumes "rs_nextRemoteId st = 1" and "1 < i" and "length (rs_remoteOutOfOrder st) < 32"
    and "\<forall>m\<in>set (rs_remoteOutOfOrder st). relId (so_meta m) \<noteq> i"
  shows "handleIncoming now (rel_meta i bs) st =
     (Ok False, st\<lparr>rs_remoteOutOfOrder := rs_remoteOutOfOrder st
         @ [\<lparr>so_meta = rel_meta i bs, so_receivedAt = now\<rparr>]\<rparr>)"
proof -
  have "i \<noteq> 0" "i \<noteq> 1" "\<not> i < 1"
    using assms(2) by auto
  then show ?thesis
    using assms
    by (simp add: handleIncoming_def rel_meta_def processAcks_def storeRemoteOutOfOrder_def relId_def
        Let_def)
qed

theorem duplicate_after_wrap_is_stored_witness:
  "rs_nextRemoteId (pushRemoteUnacked (0 :: nat) (ReliableStore_new\<lparr>rs_nextRemoteId := 65535\<rparr>)) = 1 \<and>
   rs_remoteOutOfOrder (snd (handleIncoming (0 :: nat) (rel_meta 65535 [1])
      (pushRemoteUnacked 0 (ReliableStore_new\<lparr>rs_nextRemoteId := 65535\<rparr>)))) \<noteq> []"
proof -
  let ?st = "pushRemoteUnacked (0 :: nat) (ReliableStore_new\<lparr>rs_nextRemoteId := 65535\<rparr>)"
  have st: "rs_nextRemoteId ?st = 1" "rs_remoteOutOfOrder ?st = []"
    by (simp_all add: restore_simps Let_def ReliableStore_new_def)
  then show ?thesis
    using duplicate_after_wrap_is_stored [of ?st 65535 0 "[1]"] by simp
qed


section \<open>Message ids\<close>

interpretation rel_ids: id_counter ReliableStore_nextMessageId rs_nextLocalId bump_skip0
  by unfold_locales (simp_all add: ReliableStore_nextMessageId_def bump_skip0_def Let_def)

fun drawRelIds :: "nat \<Rightarrow> 'i ReliableStore \<Rightarrow> u16 list" where
  "drawRelIds 0 st = []"
| "drawRelIds (Suc n) st =
     (let (i, st) = ReliableStore_nextMessageId st in i # drawRelIds n st)"

lemma drawRelIds_draw: "drawRelIds n st = fst (rel_ids.draw n st)"
  by (induction n arbitrary: st) (simp_all add: case_prod_beta Let_def)

text \<open>The ids given to reliable messages are never 0 (which marks a message that
  only carries acknowledgements), and 65535 consecutive ids are all different.\<close>

theorem reliable_ids:
  assumes "rs_nextLocalId st \<noteq> 0" and "n \<le> 65535"
  shows "distinct (drawRelIds n st) \<and> 0 \<notin> set (drawRelIds n st)"
proof
  have "inj_on (\<lambda>j. (bump_skip0 ^^ j) (rs_nextLocalId st)) {0..<n}"
    using bump_skip0_inj [OF assms(1)] by (rule inj_on_subset) (use assms(2) in auto)
  then show "distinct (drawRelIds n st)"
    unfolding drawRelIds_draw by (rule rel_ids.draw_distinct)
  show "0 \<notin> set (drawRelIds n st)"
    using bump_skip0_iter_nonzero [OF assms(1)] by (auto simp: drawRelIds_draw rel_ids.draw_ids)
qed

theorem reliable_ids_witness:
  "distinct (drawRelIds 3 (ReliableStore_new\<lparr>rs_nextLocalId := 65534\<rparr> :: nat ReliableStore)) \<and>
   0 \<notin> set (drawRelIds 3 (ReliableStore_new\<lparr>rs_nextLocalId := 65534\<rparr> :: nat ReliableStore)) \<and>
   drawRelIds 3 (ReliableStore_new\<lparr>rs_nextLocalId := 65534\<rparr> :: nat ReliableStore) = [65534, 65535, 1]"
  using reliable_ids [of "ReliableStore_new\<lparr>rs_nextLocalId := 65534\<rparr> :: nat ReliableStore" 3]
  by (simp add: ReliableStore_nextMessageId_def ReliableStore_new_def numeral_3_eq_3)

section \<open>Retransmission\<close>

definition due :: "('d, 'i, 'f) time_ops \<Rightarrow> 'i \<Rightarrow> 'i ReliableStore \<Rightarrow> 'i UnackedLocalMessage \<Rightarrow> bool" where
  "due T now st msg \<longleftrightarrow> \<not> tm_less T (tm_elapsed T now (ul_sentAt msg))
             (calcRetransmissionDeadline T (ul_retransmitAttempts msg) st)"

definition resent :: "'i \<Rightarrow> 'i UnackedLocalMessage \<Rightarrow> 'i UnackedLocalMessage" where
  "resent now msg = msg\<lparr>ul_sentAt := now, ul_retransmitAttempts := ul_retransmitAttempts msg + 1\<rparr>"

lemma maybeRetransmit_loop_eq:
  "maybeRetransmit_loop T now st q =
     (case dropWhile (\<lambda>m. \<not> due T now st m) q of
        [] \<Rightarrow> (Ok None, q)
      | msg # rest \<Rightarrow>
          (if 10 \<le> ul_retransmitAttempts msg then Err (CustomKind TooUnreliable)
           else Ok (Some (ul_msg msg)),
           takeWhile (\<lambda>m. \<not> due T now st m) q @ resent now msg # rest))"
proof (induction q)
  case (Cons a q)
  show ?case
  proof (cases "due T now st a")
    case True
    then show ?thesis
      by (simp add: due_def resent_def Let_def)
  next
    case False
    then have "maybeRetransmit_loop T now st (a # q)
        = (let (r, rest) = maybeRetransmit_loop T now st q in (r, a # rest))"
      by (simp add: due_def)
    then show ?thesis
      using False Cons.IH
      by (cases "dropWhile (\<lambda>m. \<not> due T now st m) q")
        (simp_all del: dropWhile_eq_Nil_conv maybeRetransmit_loop.simps)
  qed
qed simp

text \<open>C32 (functional).  \<open>maybeRetransmit\<close> picks the first unacknowledged message whose deadline has
  passed, counts the attempt and restarts its timer; a message is sent again at most 10 times,
  after that the transport is given up.  When no message is due, nothing changes.\<close>

theorem retransmission_limit:
  "maybeRetransmit T now st =
     (case dropWhile (\<lambda>m. \<not> due T now st m) (rs_localUnacked st) of
        [] \<Rightarrow> (Ok None, st)
      | msg # rest \<Rightarrow>
          (if ul_retransmitAttempts msg < 10 then Ok (Some (ul_msg msg))
           else Err (CustomKind TooUnreliable),
           st\<lparr>rs_localUnacked := takeWhile (\<lambda>m. \<not> due T now st m) (rs_localUnacked st)
                 @ resent now msg # rest\<rparr>))"
  by (cases "dropWhile (\<lambda>m. \<not> due T now st m) (rs_localUnacked st)")
    (simp_all add: maybeRetransmit_def maybeRetransmit_loop_eq del: dropWhile_eq_Nil_conv)

lemma due_frame [simp]: "due T now (st\<lparr>rs_localUnacked := q\<rparr>) m = due T now st m"
  by (simp add: due_def calcRetransmissionDeadline_def)

definition due_count :: "('d, 'i, 'f) time_ops \<Rightarrow> 'i \<Rightarrow> 'i ReliableStore \<Rightarrow> nat" where
  "due_count T now st = length (filter (due T now st) (rs_localUnacked st))"

text \<open>The loop that retransmits until nothing is due makes progress: each message
  returned lowers the number of due messages, when a message sent at this very instant is not yet
  due, so the loop ends after at most as many rounds as there are unacknowledged messages.\<close>

theorem retransmission_progress:
  assumes "maybeRetransmit T now st = (Ok (Some m), st')"
    and "\<And>k. tm_less T (tm_elapsed T now now) (calcRetransmissionDeadline T k st)"
  shows "due_count T now st' < due_count T now st"
proof -
  let ?nd = "\<lambda>m. \<not> due T now st m"
  let ?q = "rs_localUnacked st"
  obtain msg rest where d: "dropWhile ?nd ?q = msg # rest"
    and st': "st' = st\<lparr>rs_localUnacked := takeWhile ?nd ?q @ resent now msg # rest\<rparr>"
    using assms(1) by (auto simp: maybeRetransmit_def maybeRetransmit_loop_eq split: list.splits)
  have q: "?q = takeWhile ?nd ?q @ msg # rest"
    using d by (metis takeWhile_dropWhile_id)
  have "due T now st msg"
    using d by (metis hd_dropWhile list.distinct(1) list.sel(1))
  then have old: "due_count T now st
      = length (filter (due T now st) (takeWhile ?nd ?q)) + 1 + length (filter (due T now st) rest)"
    using arg_cong [OF q, of "\<lambda>q. length (filter (due T now st) q)"]
    by (simp add: due_count_def)
  have "\<not> due T now st (resent now msg)"
    using assms(2) by (simp add: due_def resent_def)
  moreover have "due T now st' = due T now st"
    by (rule ext) (simp add: st')
  ultimately have "due_count T now st'
      = length (filter (due T now st) (takeWhile ?nd ?q)) + length (filter (due T now st) rest)"
    by (simp add: due_count_def st')
  with old show ?thesis
    by simp
qed

theorem retransmission_progress_witness:
  "due_count nat_time 1000000000 (snd (maybeRetransmit nat_time 1000000000
      (ReliableStore_new\<lparr>rs_localUnacked := [\<lparr>ul_messageId = 1, ul_msg = ClientCloseMessage,
         ul_sentAt = 0, ul_retransmitAttempts = 2\<rparr>]\<rparr>)))
   < due_count nat_time 1000000000 (ReliableStore_new\<lparr>rs_localUnacked :=
       [\<lparr>ul_messageId = 1, ul_msg = ClientCloseMessage, ul_sentAt = 0, ul_retransmitAttempts = 2\<rparr>]\<rparr>)"
proof -
  let ?st = "ReliableStore_new\<lparr>rs_localUnacked := [\<lparr>ul_messageId = 1, ul_msg = ClientCloseMessage,
         ul_sentAt = 0 :: nat, ul_retransmitAttempts = 2\<rparr>]\<rparr>"
  have "fst (maybeRetransmit nat_time 1000000000 ?st) = Ok (Some ClientCloseMessage)"
    by (simp add: maybeRetransmit_def calcRetransmissionDeadline_def calcAckDeadline_def
        tm_elapsed_def fl_max_def ReliableStore_new_def Let_def)
  then obtain st' where run: "maybeRetransmit nat_time 1000000000 ?st
      = (Ok (Some ClientCloseMessage), st')"
    by (metis prod.collapse)
  have "tm_less nat_time (tm_elapsed nat_time 1000000000 1000000000)
      (calcRetransmissionDeadline nat_time k ?st)" for k
    by (simp add: calcRetransmissionDeadline_def calcAckDeadline_def
        tm_elapsed_def fl_max_def ReliableStore_new_def Let_def)
  from retransmission_progress [OF run this] show ?thesis
    by (simp add: run)
qed

end
