(* ===== verification/Sliding_Buffer.thy ===== *)
theory Sliding_Buffer
  imports Qn_Prelude
begin

text \<open>
  The growing read/write buffer of the library (\<open>include/qunet/util/SlidingBuffer.hpp\<close>).
  Its promise is that of a byte queue, stated as a locale: what is written is read back in the
  same order.  The positions are natural numbers; where the C++ adds or multiplies values of type
  \<open>size_t\<close>, the result is taken modulo \<open>2 ^ 64\<close>.
\<close>

section \<open>The contract of a byte queue\<close>

text \<open>\<open>inv\<close> is the well-formedness of a queue, \<open>contents\<close> the bytes it holds.  A write either takes all
  bytes or refuses them and changes nothing; the result is an option because a write may fail to
  return.\<close>

locale byte_queue =
  fixes inv :: "'s \<Rightarrow> bool" and contents :: "'s \<Rightarrow> bytes" and room :: "'s \<Rightarrow> nat \<Rightarrow> bool"
    and wr :: "'s \<Rightarrow> bytes \<Rightarrow> (bool \<times> 's) option" and rd :: "'s \<Rightarrow> nat \<Rightarrow> bytes \<times> 's"
  assumes write_returns: "inv s \<Longrightarrow> room s (length bs) \<Longrightarrow> \<exists>ok s'. wr s bs = Some (ok, s')"
    and write_ok: "inv s \<Longrightarrow> room s (length bs) \<Longrightarrow> wr s bs = Some (True, s') \<Longrightarrow>
          inv s' \<and> contents s' = contents s @ bs"
    and write_full: "inv s \<Longrightarrow> room s (length bs) \<Longrightarrow> wr s bs = Some (False, s') \<Longrightarrow> s' = s"
    and read_front: "inv s \<Longrightarrow> rd s n = (bs, s') \<Longrightarrow>
          inv s' \<and> bs = take n (contents s) \<and> contents s' = drop n (contents s)"
begin

lemma write_read:
  assumes "inv s" "contents s = []" "room s (length bs)" "wr s bs = Some (True, s1)"
    and "rd s1 (length bs) = (out, s2)"
  shows "out = bs \<and> contents s2 = [] \<and> inv s2"
  using write_ok [OF assms(1,3,4)] read_front [OF _ assms(5)] assms(2) by simp

lemma read_read:
  assumes "inv s" "rd s m = (xs, s1)" "rd s1 n = (ys, s2)"
  shows "xs @ ys = take (m + n) (contents s) \<and> contents s2 = drop (m + n) (contents s)"
  using read_front [OF assms(1,2)] read_front [OF _ assms(3)]
  by (simp add: take_add add.commute)

end

section \<open>The buffer\<close>

record SlidingBuffer =
  sb_data :: bytes
  sb_maxSize :: nat
  sb_writePos :: nat
  sb_readPos :: nat

definition SlidingBuffer_new :: "nat \<Rightarrow> nat \<Rightarrow> SlidingBuffer" where
  "SlidingBuffer_new initialSize maxSize =
     \<lparr>sb_data = replicate initialSize 0, sb_maxSize = maxSize, sb_writePos = 0, sb_readPos = 0\<rparr>"

text \<open>\<open>std::vector::resize\<close>.\<close>

definition vector_resize :: "nat \<Rightarrow> bytes \<Rightarrow> bytes" where
  "vector_resize n xs = take n xs @ replicate (n - length xs) 0"

text \<open>The doubling loop; it need not end.\<close>

partial_function (option) growTo :: "nat \<Rightarrow> nat \<Rightarrow> nat option" where
  "growTo current needed =
     (if current < needed then growTo (current * 2 mod 2 ^ 64) needed else Some current)"

text \<open>\<open>1 << 31\<close> is an \<open>int\<close>, the smallest one; compared with a \<open>size_t\<close> it is \<open>2 ^ 64 - 2 ^ 31\<close>.\<close>

definition resizeLimit :: nat where
  "resizeLimit = 2 ^ 64 - 2 ^ 31"

definition resizeToFit :: "SlidingBuffer \<Rightarrow> nat \<Rightarrow> (bool \<times> SlidingBuffer) option" where
  "resizeToFit b needed =
     (if resizeLimit \<le> needed then Some (False, b)
      else Option.bind (growTo (length (sb_data b)) needed) (\<lambda>current.
        if sb_maxSize b < current then Some (False, b)
        else Some (True, b\<lparr>sb_data := vector_resize current (sb_data b)\<rparr>)))"

definition SlidingBuffer_write :: "SlidingBuffer \<Rightarrow> bytes \<Rightarrow> (bool \<times> SlidingBuffer) option" where
  "SlidingBuffer_write b data =
     (let len = length data;
          remSpace = length (sb_data b) - sb_writePos b;
          copy = (\<lambda>b. (True, b\<lparr>sb_data := memcpy_at (sb_data b) (sb_writePos b) data,
                               sb_writePos := sb_writePos b + len\<rparr>))
      in if len = 0 then Some (True, b)
         else if remSpace < len then
           Option.bind (resizeToFit b ((sb_writePos b + len) mod 2 ^ 64)) (\<lambda>(ok, b).
             if \<not> ok then Some (False, b) else Some (copy b))
         else Some (copy b))"

definition canRead :: "SlidingBuffer \<Rightarrow> nat" where
  "canRead b = sb_writePos b - sb_readPos b"

definition canWrite :: "SlidingBuffer \<Rightarrow> nat" where
  "canWrite b = length (sb_data b) - sb_writePos b"

definition canWriteMax :: "SlidingBuffer \<Rightarrow> nat" where
  "canWriteMax b = nat ((int (sb_maxSize b) - int (sb_writePos b)) mod 2 ^ 64)"

text \<open>\<open>read\<close> returns the bytes copied out (with a null pointer they are skipped).\<close>

definition SlidingBuffer_read :: "SlidingBuffer \<Rightarrow> nat \<Rightarrow> bytes \<times> SlidingBuffer" where
  "SlidingBuffer_read b len =
     (let toRead = min len (canRead b) in
      if toRead = 0 then ([], b)
      else
        let out = take toRead (drop (sb_readPos b) (sb_data b));
            b = b\<lparr>sb_readPos := sb_readPos b + toRead\<rparr>;
            b = (if sb_readPos b = sb_writePos b then b\<lparr>sb_readPos := 0, sb_writePos := 0\<rparr> else b)
        in (out, b))"

section \<open>Growing\<close>

lemma growTo_enough:
  "0 < current \<Longrightarrow> needed \<le> 2 ^ 63 \<Longrightarrow>
     \<exists>c. growTo current needed = Some c \<and> needed \<le> c \<and> current \<le> c \<and>
         (current < needed \<longrightarrow> c < 2 * needed)"
proof (induction "needed - current" arbitrary: current rule: less_induct)
  case less
  show ?case
  proof (cases "current < needed")
    case True
    then have nowrap: "current * 2 mod 2 ^ 64 = current * 2"
      using less.prems by simp
    obtain c where c: "growTo (current * 2) needed = Some c" "needed \<le> c" "current * 2 \<le> c"
      "current * 2 < needed \<longrightarrow> c < 2 * needed"
      using less.hyps [of "current * 2"] less.prems True by fastforce
    have "c < 2 * needed"
    proof (cases "current * 2 < needed")
      case False
      then have "growTo (current * 2) needed = Some (current * 2)"
        by (subst growTo.simps) simp
      then show ?thesis
        using c(1) True by simp
    qed (use c(4) in simp)
    then show ?thesis
      using c True nowrap by (subst growTo.simps) auto
  next
    case False
    then show ?thesis
      by (subst growTo.simps) simp
  qed
qed

lemma growTo_nonzero:
  assumes "growTo current needed = Some c"
  shows "0 < current \<or> needed = 0"
proof (rule growTo.raw_induct [OF _ assms, where P = "\<lambda>cur n c. 0 < cur \<or> n = 0"])
  fix grow :: "nat \<Rightarrow> nat \<Rightarrow> nat option" and cur n c
  assume ih: "\<And>cur n c. grow cur n = Some c \<Longrightarrow> 0 < cur \<or> n = 0"
    and run: "(if cur < n then grow (cur * 2 mod 2 ^ 64) n else Some cur) = Some c"
  show "0 < cur \<or> n = 0"
    using run ih [of 0 n c] by (cases "cur = 0") (auto split: if_splits)
qed

section \<open>The buffer is a byte queue\<close>

definition sb_inv :: "SlidingBuffer \<Rightarrow> bool" where
  "sb_inv b \<longleftrightarrow> sb_readPos b \<le> sb_writePos b \<and> sb_writePos b \<le> length (sb_data b) \<and>
     sb_data b \<noteq> []"

definition sb_contents :: "SlidingBuffer \<Rightarrow> bytes" where
  "sb_contents b = drop (sb_readPos b) (take (sb_writePos b) (sb_data b))"

text \<open>A write of \<open>n\<close> bytes whose end stays within the largest object a program can have.\<close>

definition sb_room :: "SlidingBuffer \<Rightarrow> nat \<Rightarrow> bool" where
  "sb_room b n \<longleftrightarrow> sb_writePos b + n \<le> 2 ^ 63"

lemma sb_contents_copy:
  assumes "sb_inv b" "sb_writePos b + length bs \<le> length (sb_data b)"
  shows "sb_inv (b\<lparr>sb_data := memcpy_at (sb_data b) (sb_writePos b) bs,
                   sb_writePos := sb_writePos b + length bs\<rparr>) \<and>
    sb_contents (b\<lparr>sb_data := memcpy_at (sb_data b) (sb_writePos b) bs,
                   sb_writePos := sb_writePos b + length bs\<rparr>) = sb_contents b @ bs"
proof -
  have "memcpy_at (sb_data b) (sb_writePos b) bs \<noteq> []"
    using assms length_memcpy_at [OF assms(2)] by (metis length_0_conv sb_inv_def)
  then show ?thesis
    using assms by (simp add: sb_inv_def sb_contents_def memcpy_at_def)
qed

lemma length_vector_resize [simp]: "length (vector_resize n xs) = n"
  by (simp add: vector_resize_def)

lemma sb_resized:
  assumes "sb_inv b" "length (sb_data b) \<le> c"
  shows "sb_inv (b\<lparr>sb_data := vector_resize c (sb_data b)\<rparr>) \<and>
    sb_contents (b\<lparr>sb_data := vector_resize c (sb_data b)\<rparr>) = sb_contents b"
proof -
  have "vector_resize c (sb_data b) \<noteq> []"
    using assms length_vector_resize [of c "sb_data b"]
    by (metis le_zero_eq length_0_conv sb_inv_def)
  then show ?thesis
    using assms by (simp add: sb_inv_def sb_contents_def vector_resize_def)
qed

lemma resizeToFit_cases:
  assumes "sb_inv b" "needed \<le> 2 ^ 63"
  obtains c where "growTo (length (sb_data b)) needed = Some c" "needed \<le> c"
    "length (sb_data b) \<le> c" "length (sb_data b) < needed \<longrightarrow> c < 2 * needed"
    "resizeToFit b needed = Some (if sb_maxSize b < c then (False, b)
       else (True, b\<lparr>sb_data := vector_resize c (sb_data b)\<rparr>))"
proof -
  have "0 < length (sb_data b)"
    using assms by (simp add: sb_inv_def)
  from growTo_enough [OF this assms(2)] obtain c where c: "growTo (length (sb_data b)) needed = Some c"
    "needed \<le> c" "length (sb_data b) \<le> c" "length (sb_data b) < needed \<longrightarrow> c < 2 * needed"
    by blast
  have "\<not> resizeLimit \<le> needed"
    using assms(2) by (simp add: resizeLimit_def)
  then have "resizeToFit b needed = Some (if sb_maxSize b < c then (False, b)
       else (True, b\<lparr>sb_data := vector_resize c (sb_data b)\<rparr>))"
    using c by (simp add: resizeToFit_def)
  with c that show thesis
    by blast
qed

lemma SlidingBuffer_write_spec:
  assumes inv: "sb_inv b" and room: "sb_room b (length bs)"
  shows "\<exists>ok b'. SlidingBuffer_write b bs = Some (ok, b') \<and>
     (ok \<longrightarrow> sb_inv b' \<and> sb_contents b' = sb_contents b @ bs) \<and> (\<not> ok \<longrightarrow> b' = b)"
proof (cases "bs = []")
  case True
  then show ?thesis
    using inv by (intro exI [of _ True] exI [of _ b]) (simp add: SlidingBuffer_write_def)
next
  case ne: False
  show ?thesis
  proof (cases "length (sb_data b) - sb_writePos b < length bs")
    case True
    let ?n = "sb_writePos b + length bs"
    have n: "?n mod 2 ^ 64 = ?n" "?n \<le> 2 ^ 63"
      using room by (simp_all add: sb_room_def)
    obtain c where c: "?n \<le> c" "length (sb_data b) \<le> c"
      and r: "resizeToFit b ?n = Some (if sb_maxSize b < c then (False, b)
         else (True, b\<lparr>sb_data := vector_resize c (sb_data b)\<rparr>))"
      using resizeToFit_cases [OF inv n(2)] by metis
    let ?b = "b\<lparr>sb_data := vector_resize c (sb_data b)\<rparr>"
    have "sb_inv ?b" "sb_contents ?b = sb_contents b"
      using sb_resized [OF inv c(2)] by simp_all
    moreover have "sb_writePos ?b + length bs \<le> length (sb_data ?b)"
      using c(1) by simp
    ultimately show ?thesis
      using sb_contents_copy [of ?b bs] ne True n r
      by (auto simp: SlidingBuffer_write_def Let_def)
  next
    case False
    then have "sb_writePos b + length bs \<le> length (sb_data b)"
      using inv unfolding sb_inv_def by linarith
    then show ?thesis
      using sb_contents_copy [OF inv] ne False
      by (intro exI [of _ True]) (simp add: SlidingBuffer_write_def Let_def)
  qed
qed

lemma SlidingBuffer_read_spec:
  assumes inv: "sb_inv b" and run: "SlidingBuffer_read b n = (bs, b')"
  shows "sb_inv b' \<and> bs = take n (sb_contents b) \<and> sb_contents b' = drop n (sb_contents b)"
proof -
  have len: "length (sb_contents b) = canRead b"
    using inv by (simp add: sb_inv_def sb_contents_def canRead_def)
  show ?thesis
  proof (cases "min n (canRead b) = 0")
    case True
    then have "bs = []" "b' = b"
      using run by (simp_all add: SlidingBuffer_read_def)
    moreover have "n = 0 \<or> sb_contents b = []"
      using True len by (auto simp: min_def split: if_splits)
    ultimately show ?thesis
      using inv by auto
  next
    case False
    then show ?thesis
      using run inv
      by (auto simp: SlidingBuffer_read_def Let_def sb_inv_def sb_contents_def canRead_def take_drop
          min_def add.commute split: if_splits)
  qed
qed

interpretation sliding: byte_queue sb_inv sb_contents sb_room SlidingBuffer_write SlidingBuffer_read
proof
  fix s :: SlidingBuffer and bs :: bytes and s'
  assume a: "sb_inv s" "sb_room s (length bs)"
  note spec = SlidingBuffer_write_spec [OF a]
  show "\<exists>ok s'. SlidingBuffer_write s bs = Some (ok, s')"
    using spec by blast
  show "sb_inv s' \<and> sb_contents s' = sb_contents s @ bs" if "SlidingBuffer_write s bs = Some (True, s')"
    using spec that by auto
  show "s' = s" if "SlidingBuffer_write s bs = Some (False, s')"
    using spec that by auto
next
  fix s :: SlidingBuffer and n bs s'
  assume "sb_inv s" "SlidingBuffer_read s n = (bs, s')"
  then show "sb_inv s' \<and> bs = take n (sb_contents s) \<and> sb_contents s' = drop n (sb_contents s)"
    by (rule SlidingBuffer_read_spec)
qed


text \<open>C21 (refinement).  The sliding buffer is a byte queue: a write that is accepted appends its bytes,
  a refused write changes nothing, and every read returns the oldest bytes; so bytes come out in
  the order in which they went in, over growing and resetting of the buffer.  A write always
  returns.\<close>

theorem sliding_buffer_fifo:
  assumes "sb_inv b" and "sb_room b (length xs)"
  shows "\<exists>ok b1. SlidingBuffer_write b xs = Some (ok, b1) \<and> (\<not> ok \<longrightarrow> b1 = b) \<and>
     (let (ys, b2) = SlidingBuffer_read b1 m; (zs, b3) = SlidingBuffer_read b2 n;
          bytes = sb_contents b @ (if ok then xs else [])
      in ys @ zs = take (m + n) bytes \<and> sb_contents b3 = drop (m + n) bytes)"
proof -
  obtain ok b1 where w: "SlidingBuffer_write b xs = Some (ok, b1)"
    using sliding.write_returns [OF assms] by blast
  obtain ys b2 zs b3 where r: "SlidingBuffer_read b1 m = (ys, b2)" "SlidingBuffer_read b2 n = (zs, b3)"
    by (metis surj_pair)
  have full: "\<not> ok \<longrightarrow> b1 = b"
    using sliding.write_full [OF assms, of b1] w by simp
  then have "sb_inv b1 \<and> sb_contents b1 = sb_contents b @ (if ok then xs else [])"
    using sliding.write_ok [OF assms, of b1] assms(1) w by (cases ok) simp_all
  with full show ?thesis
    using w r sliding.read_read [OF _ r] by (intro exI [of _ ok] exI [of _ b1]) simp
qed

theorem sliding_buffer_fifo_witness:
  "\<exists>b1. SlidingBuffer_write (SlidingBuffer_new 4 16) [1, 2, 3] = Some (True, b1) \<and>
     (let (ys, b2) = SlidingBuffer_read b1 2; (zs, b3) = SlidingBuffer_read b2 5
      in ys @ zs = [1, 2, 3] \<and> sb_contents b3 = [])"
proof -
  let ?b = "SlidingBuffer_new 4 16"
  have w: "fst (the (SlidingBuffer_write ?b [1, 2, 3]))"
    by (simp add: SlidingBuffer_new_def SlidingBuffer_write_def memcpy_at_def eval_nat_numeral)
  have inv: "sb_inv ?b" "sb_room ?b (length [1, 2, 3 :: u8])" "sb_contents ?b = []"
    by (simp_all add: sb_inv_def sb_room_def sb_contents_def SlidingBuffer_new_def)
  show ?thesis
    using sliding_buffer_fifo [OF inv(1,2), of 2 5] w inv(3) by (auto simp: case_prod_beta Let_def)
qed

text \<open>The guard against buffers of 2 GiB and more never applies below \<open>2 ^ 64 - 2 ^ 31\<close>:
  \<open>1 << 31\<close> is negative as an \<open>int\<close>, so a buffer whose maximum allows it does grow to 2 GiB and
  beyond.\<close>

theorem two_gib_guard_is_void:
  assumes "sb_inv b" and "2 ^ 31 \<le> needed" and "needed \<le> 2 ^ 63" and "length (sb_data b) < needed"
    and "2 * needed \<le> sb_maxSize b"
  shows "\<exists>b'. resizeToFit b needed = Some (True, b') \<and> 2 ^ 31 \<le> length (sb_data b')"
proof -
  obtain c where "needed \<le> c" "length (sb_data b) < needed \<longrightarrow> c < 2 * needed"
    and r: "resizeToFit b needed = Some (if sb_maxSize b < c then (False, b)
       else (True, b\<lparr>sb_data := vector_resize c (sb_data b)\<rparr>))"
    using resizeToFit_cases [OF assms(1,3)] by metis
  then show ?thesis
    using assms by auto
qed

theorem two_gib_guard_is_void_witness:
  "\<exists>b'. resizeToFit (SlidingBuffer_new 1 (2 ^ 33)) (2 ^ 31) = Some (True, b') \<and>
     2 ^ 31 \<le> length (sb_data b')"
  by (rule two_gib_guard_is_void) (simp_all add: sb_inv_def SlidingBuffer_new_def)

text \<open>A buffer created with the initial size 0 never returns from its first write:
  the doubling loop does not leave 0.\<close>

theorem empty_buffer_write_diverges:
  assumes "bs \<noteq> []" and "length bs < resizeLimit"
  shows "SlidingBuffer_write (SlidingBuffer_new 0 maxSize) bs = None"
proof -
  have "length bs mod 2 ^ 64 = length bs"
    using assms(2) by (simp add: resizeLimit_def)
  moreover have "growTo 0 (length bs) = None"
    using growTo_nonzero [of 0 "length bs"] assms(1) by (cases "growTo 0 (length bs)") auto
  ultimately show ?thesis
    using assms by (simp add: SlidingBuffer_write_def SlidingBuffer_new_def resizeToFit_def)
qed

theorem empty_buffer_write_diverges_witness:
  "SlidingBuffer_write (SlidingBuffer_new 0 1024) [7] = None"
  by (rule empty_buffer_write_diverges) (simp_all add: resizeLimit_def)

end
