(* ===== verification/Two_Span_Source.thy ===== *)
theory Two_Span_Source
  imports Qn_Prelude
begin

text \<open>
  Reading from two adjacent spans as if they were one (\<open>include/qunet/util/TwoSpanSource.hpp\<close>).
  The contract of a byte source is a locale, and the two-span source is shown to meet it with the
  concatenation of its spans.  Sums of type \<open>size_t\<close> are taken modulo \<open>2 ^ 64\<close>; a copy that would
  leave a span is \<open>OutOfBounds\<close>.
\<close>

section \<open>The contract of a byte source\<close>

locale byte_source =
  fixes inv :: "'s \<Rightarrow> bool" and ahead :: "'s \<Rightarrow> bytes"
    and rd :: "'s \<Rightarrow> nat \<Rightarrow> (string, bytes \<times> 's) outcome"
    and sk :: "'s \<Rightarrow> nat \<Rightarrow> (string, 's) outcome" and limit :: nat
  assumes read_enough: "inv s \<Longrightarrow> n < limit \<Longrightarrow> n \<le> length (ahead s) \<Longrightarrow>
      \<exists>s'. rd s n = Inr (take n (ahead s), s') \<and> inv s' \<and> ahead s' = drop n (ahead s)"
    and read_short: "inv s \<Longrightarrow> n < limit \<Longrightarrow> length (ahead s) < n \<Longrightarrow> \<exists>e. rd s n = Inl (Failed e)"
    and skip_enough: "inv s \<Longrightarrow> n < limit \<Longrightarrow> n \<le> length (ahead s) \<Longrightarrow>
      \<exists>s'. sk s n = Inr s' \<and> inv s' \<and> ahead s' = drop n (ahead s)"
    and skip_short: "inv s \<Longrightarrow> n < limit \<Longrightarrow> length (ahead s) < n \<Longrightarrow> \<exists>e. sk s n = Inl (Failed e)"
begin

lemma read_in_pieces:
  assumes "inv s" "m + n < limit" "m + n \<le> length (ahead s)"
  shows "\<exists>xs ys s1 s2. rd s m = Inr (xs, s1) \<and> rd s1 n = Inr (ys, s2) \<and>
     xs @ ys = take (m + n) (ahead s) \<and> ahead s2 = drop (m + n) (ahead s)"
proof -
  obtain s1 where s1: "rd s m = Inr (take m (ahead s), s1)" "inv s1" "ahead s1 = drop m (ahead s)"
    using read_enough [OF assms(1), of m] assms by auto
  moreover have "n < limit" "n \<le> length (ahead s1)"
    using s1(3) assms by auto
  then obtain s2 where "rd s1 n = Inr (take n (ahead s1), s2)" "ahead s2 = drop n (ahead s1)"
    using read_enough [OF s1(2), of n] by blast
  ultimately show ?thesis
    by (auto simp: take_add add.commute)
qed

lemma skip_then_read:
  assumes "inv s" "m + n < limit" "m + n \<le> length (ahead s)"
  shows "\<exists>s1 s2. sk s m = Inr s1 \<and> rd s1 n = Inr (take n (drop m (ahead s)), s2)"
proof -
  obtain s1 where s1: "sk s m = Inr s1" "inv s1" "ahead s1 = drop m (ahead s)"
    using skip_enough [OF assms(1), of m] assms by auto
  moreover have "n < limit" "n \<le> length (ahead s1)"
    using s1(3) assms by auto
  ultimately show ?thesis
    using read_enough [OF s1(2), of n] by auto
qed

lemma never_out_of_bounds:
  assumes "inv s" "n < limit"
  shows "in_bounds (rd s n)"
  using read_enough [OF assms] read_short [OF assms] by (cases "n \<le> length (ahead s)") auto

end

section \<open>The source\<close>

record TwoSpanSource =
  ts_first :: bytes
  ts_second :: bytes
  ts_pos :: nat

definition TwoSpanSource_new :: "bytes \<Rightarrow> bytes \<Rightarrow> TwoSpanSource" where
  "TwoSpanSource_new first second = \<lparr>ts_first = first, ts_second = second, ts_pos = 0\<rparr>"

definition ts_totalSize :: "TwoSpanSource \<Rightarrow> nat" where
  "ts_totalSize s = length (ts_first s) + length (ts_second s)"

text \<open>\<open>memcpy(buf, span.data() + off, n)\<close>.\<close>

definition copy_from :: "bytes \<Rightarrow> nat \<Rightarrow> nat \<Rightarrow> ('e, bytes) outcome" where
  "copy_from span off n =
     (if off + n \<le> length span then Inr (take n (drop off span)) else Inl OutOfBounds)"

definition TwoSpanSource_read ::
    "TwoSpanSource \<Rightarrow> nat \<Rightarrow> (string, bytes \<times> TwoSpanSource) outcome" where
  "TwoSpanSource_read s sz =
     (if ts_totalSize s < (ts_pos s + sz) mod 2 ^ 64 then Err ''Not enough data to read''
      else
        unwrap (if ts_pos s < length (ts_first s) then
                  let firstSize = min sz (length (ts_first s) - ts_pos s) in
                  unwrap (copy_from (ts_first s) (ts_pos s) firstSize) (\<lambda>buf.
                  Ok (buf, s\<lparr>ts_pos := ts_pos s + firstSize\<rparr>, sz - firstSize))
                else Ok ([], s, sz)) (\<lambda>(buf, s, sz).
        if 0 < sz then
          let off = ts_pos s - length (ts_first s) in
          unwrap (copy_from (ts_second s) off sz) (\<lambda>buf2.
          Ok (buf @ buf2, s\<lparr>ts_pos := ts_pos s + sz\<rparr>))
        else Ok (buf, s)))"

definition TwoSpanSource_skip :: "TwoSpanSource \<Rightarrow> nat \<Rightarrow> (string, TwoSpanSource) outcome" where
  "TwoSpanSource_skip s sz =
     (if ts_totalSize s < (ts_pos s + sz) mod 2 ^ 64 then Err ''Not enough data to skip''
      else Ok (s\<lparr>ts_pos := (ts_pos s + sz) mod 2 ^ 64\<rparr>))"

definition TwoSpanSource_setPosition ::
    "TwoSpanSource \<Rightarrow> nat \<Rightarrow> (string, TwoSpanSource) outcome" where
  "TwoSpanSource_setPosition s pos =
     (if ts_totalSize s \<le> pos then Err ''Position out of bounds''
      else Ok (s\<lparr>ts_pos := pos\<rparr>))"

section \<open>The source reads the concatenation\<close>

definition ts_inv :: "TwoSpanSource \<Rightarrow> bool" where
  "ts_inv s \<longleftrightarrow> ts_pos s \<le> ts_totalSize s \<and> ts_totalSize s < 2 ^ 63"

definition ts_ahead :: "TwoSpanSource \<Rightarrow> bytes" where
  "ts_ahead s = drop (ts_pos s) (ts_first s @ ts_second s)"

lemma ts_nowrap: "ts_inv s \<Longrightarrow> n < 2 ^ 63 \<Longrightarrow> (ts_pos s + n) mod 2 ^ 64 = ts_pos s + n"
  by (simp add: ts_inv_def)

lemma length_ts_ahead: "length (ts_ahead s) = ts_totalSize s - ts_pos s"
  by (simp add: ts_ahead_def ts_totalSize_def)

lemma ts_fits: "ts_inv s \<Longrightarrow> n \<le> length (ts_ahead s) \<longleftrightarrow> ts_pos s + n \<le> ts_totalSize s"
  unfolding length_ts_ahead ts_inv_def by linarith

lemma ts_move:
  assumes "ts_inv s" "n \<le> length (ts_ahead s)"
  shows "ts_inv (s\<lparr>ts_pos := ts_pos s + n\<rparr>) \<and>
    ts_ahead (s\<lparr>ts_pos := ts_pos s + n\<rparr>) = drop n (ts_ahead s)"
proof -
  have "ts_pos s + n \<le> ts_totalSize s"
    using assms ts_fits by blast
  then show ?thesis
    using assms(1) by (simp add: ts_inv_def ts_totalSize_def ts_ahead_def add.commute del: drop_append)
qed

lemma TwoSpanSource_read_enough:
  assumes inv: "ts_inv s" and n: "n < 2 ^ 63" "n \<le> length (ts_ahead s)"
  shows "TwoSpanSource_read s n = Ok (take n (ts_ahead s), s\<lparr>ts_pos := ts_pos s + n\<rparr>)"
proof -
  let ?f = "length (ts_first s)"
  have fits: "ts_pos s + n \<le> ts_totalSize s"
    using ts_fits [OF inv] n(2) by blast
  then have guard: "\<not> ts_totalSize s < (ts_pos s + n) mod 2 ^ 64"
    using ts_nowrap [OF inv n(1)] by simp
  consider "?f \<le> ts_pos s" | "ts_pos s < ?f" "ts_pos s + n \<le> ?f" | "ts_pos s < ?f" "?f < ts_pos s + n"
    by linarith
  then show ?thesis
  proof cases
    case 1
    then show ?thesis
      using guard fits by (auto simp: TwoSpanSource_read_def copy_from_def ts_ahead_def ts_totalSize_def)
  next
    case 2
    then show ?thesis
      using guard by (auto simp: TwoSpanSource_read_def copy_from_def ts_ahead_def)
  next
    case 3
    then have m: "min n (?f - ts_pos s) = ?f - ts_pos s" "0 < n - (?f - ts_pos s)"
      by simp_all
    show ?thesis
      using guard fits 3 m
      by (simp add: TwoSpanSource_read_def copy_from_def ts_ahead_def ts_totalSize_def Let_def)
  qed
qed

lemma TwoSpanSource_short:
  assumes "ts_inv s" "n < 2 ^ 63" "length (ts_ahead s) < n"
  shows "TwoSpanSource_read s n = Err ''Not enough data to read''"
    and "TwoSpanSource_skip s n = Err ''Not enough data to skip''"
  using assms(3) ts_fits [OF assms(1), of n] ts_nowrap [OF assms(1,2)]
  by (simp_all add: TwoSpanSource_read_def TwoSpanSource_skip_def)

lemma TwoSpanSource_skip_enough:
  assumes "ts_inv s" "n < 2 ^ 63" "n \<le> length (ts_ahead s)"
  shows "TwoSpanSource_skip s n = Ok (s\<lparr>ts_pos := ts_pos s + n\<rparr>)"
  using assms(3) ts_fits [OF assms(1), of n] ts_nowrap [OF assms(1,2)]
  by (simp add: TwoSpanSource_skip_def)

interpretation two_span: byte_source ts_inv ts_ahead TwoSpanSource_read TwoSpanSource_skip "2 ^ 63"
  by unfold_locales
    (auto simp: TwoSpanSource_read_enough TwoSpanSource_skip_enough TwoSpanSource_short
      dest: ts_move)

text \<open>C37 (equivalence).  Reading from the two spans is reading from their concatenation, also across the
  boundary and in several pieces, and it never leaves a span.\<close>

theorem two_span_reads_concatenation:
  assumes "length (xs @ ys) < 2 ^ 63" and "m + n \<le> length (xs @ ys)"
  shows "\<exists>as bs s1 s2. TwoSpanSource_read (TwoSpanSource_new xs ys) m = Ok (as, s1) \<and>
     TwoSpanSource_read s1 n = Ok (bs, s2) \<and> as @ bs = take (m + n) (xs @ ys) \<and>
     ts_ahead s2 = drop (m + n) (xs @ ys)"
  using two_span.read_in_pieces [of "TwoSpanSource_new xs ys" m n] assms
  by (simp add: ts_inv_def ts_ahead_def ts_totalSize_def TwoSpanSource_new_def)

theorem two_span_reads_concatenation_witness:
  "\<exists>as bs s1 s2. TwoSpanSource_read (TwoSpanSource_new [1, 2] [3, 4, 5]) 1 = Ok (as, s1) \<and>
     TwoSpanSource_read s1 3 = Ok (bs, s2) \<and> as @ bs = [1, 2, 3, 4] \<and> ts_ahead s2 = [5]"
  using two_span_reads_concatenation [of "[1, 2]" "[3, 4, 5]" 1 3] by simp

text \<open>A request so large that position and size together wrap around passes the bounds
  check: a source that has moved on from its start by \<open>k\<close> bytes and is asked for \<open>2 ^ 64 - k\<close>
  bytes copies outside of the spans.\<close>

theorem two_span_wrapped_read:
  assumes "ts_inv s" and "0 < ts_pos s"
  shows "TwoSpanSource_read s (2 ^ 64 - ts_pos s) = Inl OutOfBounds"
proof -
  let ?n = "2 ^ 64 - ts_pos s" and ?f = "length (ts_first s)"
  have pos: "ts_pos s \<le> ts_totalSize s" "ts_totalSize s < 2 ^ 63"
    using assms by (simp_all add: ts_inv_def)
  have wrap: "(ts_pos s + ?n) mod 2 ^ 64 = 0"
    using pos by simp
  show ?thesis
  proof (cases "ts_pos s < ?f")
    case True
    have "?f - ts_pos s \<le> ?n" "0 < ?n - (?f - ts_pos s)"
      "\<not> ?n - (?f - ts_pos s) \<le> length (ts_second s)"
      using pos True unfolding ts_totalSize_def by simp_all
    moreover from this(1) have "min ?n (?f - ts_pos s) = ?f - ts_pos s"
      by (rule min_absorb2)
    ultimately show ?thesis
      using True wrap by (simp add: TwoSpanSource_read_def copy_from_def Let_def)
  next
    case False
    have "0 < ?n" "\<not> ts_pos s - ?f + ?n \<le> length (ts_second s)"
      using pos False unfolding ts_totalSize_def by simp_all
    then show ?thesis
      using False wrap by (simp add: TwoSpanSource_read_def copy_from_def Let_def)
  qed
qed

theorem two_span_wrapped_read_witness:
  "TwoSpanSource_read \<lparr>ts_first = [1, 2], ts_second = [3], ts_pos = 1\<rparr> (2 ^ 64 - 1) = Inl OutOfBounds"
  using two_span_wrapped_read [of "\<lparr>ts_first = [1, 2], ts_second = [3], ts_pos = 1\<rparr>"]
  by (simp add: ts_inv_def ts_totalSize_def)

end
