(* ===== verification/Padding.thy ===== *)
theory Padding
  imports Message_Codec
begin

text \<open>
  Padding of small datagrams (\<open>src/socket/transport/udp/Padding.hpp\<close>): the generator of the
  padding bytes and the padding message.  The seeds come from \<open>std::random_device\<close> and are
  arguments; the bytes of a 64-bit number in memory are given by \<open>raw\<close>.
\<close>

record QunetPadRNG =
  pr_x :: u64
  pr_y :: u64
  pr_z :: u64

definition QunetPadRNG_new :: "u32 \<Rightarrow> u32 \<Rightarrow> u32 \<Rightarrow> QunetPadRNG" where
  "QunetPadRNG_new a b c = \<lparr>pr_x = ucast a, pr_y = ucast b, pr_z = ucast c\<rparr>"

definition pad_rotl :: "u64 \<Rightarrow> nat \<Rightarrow> u64" where
  "pad_rotl x k = push_bit k x OR drop_bit (64 - k) x"

definition QunetPadRNG_next :: "QunetPadRNG \<Rightarrow> u64 \<times> QunetPadRNG" where
  "QunetPadRNG_next r =
     (let xp = pr_x r; yp = pr_y r; zp = pr_z r
      in (xp, \<lparr>pr_x = 15241094284759029579 * zp, pr_y = pad_rotl (yp - xp) 12,
               pr_z = pad_rotl (zp - yp) 44\<rparr>))"

definition MINIMUM_UDP_PAYLOAD :: nat where
  "MINIMUM_UDP_PAYLOAD = 22"

function writePaddingBytes_loop :: "'w byte_writer \<Rightarrow> (u64 \<Rightarrow> bytes) \<Rightarrow> nat \<Rightarrow> nat \<Rightarrow>
    QunetPadRNG \<Rightarrow> 'w \<Rightarrow> QunetPadRNG \<times> 'w" where
  "writePaddingBytes_loop W raw bytes filled rng w =
     (if filled < bytes then
        let (rand, rng) = QunetPadRNG_next rng;
            toWrite = min 8 (bytes - filled)
        in writePaddingBytes_loop W raw bytes (filled + toWrite) rng
             (bw_writeBytes W w (take toWrite (raw rand)))
      else (rng, w))"
  by pat_completeness auto
termination
  by (relation "measure (\<lambda>(W, raw, bytes, filled, rng, w). bytes - filled)") auto

definition writePaddingBytes :: "'w byte_writer \<Rightarrow> (u64 \<Rightarrow> bytes) \<Rightarrow> nat \<Rightarrow>
    QunetPadRNG \<Rightarrow> 'w \<Rightarrow> QunetPadRNG \<times> 'w" where
  "writePaddingBytes W raw bytes rng w = writePaddingBytes_loop W raw bytes 0 rng w"

definition writePadMessage :: "'w byte_writer \<Rightarrow> (u64 \<Rightarrow> bytes) \<Rightarrow> nat \<Rightarrow>
    QunetPadRNG \<Rightarrow> 'w \<Rightarrow> (string, QunetPadRNG \<times> 'w) outcome" where
  "writePadMessage W raw bytes rng w =
     qn_assert (0 < bytes)
       (Ok (writePaddingBytes W raw (bytes - 1) rng (bw_writeU8 W w MSG_PADDING)))"

definition padMessageToMinimum :: "'w byte_writer \<Rightarrow> (u64 \<Rightarrow> bytes) \<Rightarrow>
    QunetPadRNG \<Rightarrow> 'w \<Rightarrow> (string, QunetPadRNG \<times> 'w) outcome" where
  "padMessageToMinimum W raw rng w =
     (let w = bw_setPosition W w (length (bw_written W w));
          pos = bw_position W w
      in if pos < MINIMUM_UDP_PAYLOAD then writePadMessage W raw (MINIMUM_UDP_PAYLOAD - pos) rng w
         else Ok (rng, w))"

declare writePaddingBytes_loop.simps [simp del]

section \<open>What the padding looks like\<close>

lemma pad_rotl_inj:
  assumes "0 < k" "k < 64" "pad_rotl x k = pad_rotl y k"
  shows "x = y"
proof (rule bit_word_eqI)
  fix n
  assume "n < LENGTH(64)"
  then have n: "n < 64" by simp
  have rot: "bit (pad_rotl z k) ((n + k) mod 64) = bit z n" for z :: u64
  proof (cases "n + k < 64")
    case True
    then have "(n + k) mod 64 = n + k"
      by simp
    moreover have "\<not> bit z (n + k + (64 - k))"
      using assms(1,2) by (auto dest: bit_imp_le_length)
    ultimately show ?thesis
      using True by (simp add: pad_rotl_def bit_or_iff bit_push_bit_iff bit_drop_bit_eq add.commute)
  next
    case False
    then have "(n + k) mod 64 = n + k - 64"
      using n assms(2) by (simp add: mod_if)
    moreover have "n + k - 64 < k" "64 - k + (n + k - 64) = n"
      using False n assms(2) by linarith+
    ultimately show ?thesis
      by (simp add: pad_rotl_def bit_or_iff bit_push_bit_iff bit_drop_bit_eq)
  qed
  show "bit x n = bit y n"
    using rot [of x] rot [of y] assms(3) by simp
qed

context dbuf_laws
begin

lemma writePaddingBytes_loop_holds:
  assumes raw: "\<And>x. length (raw x) = 8"
  shows "holds w bs \<Longrightarrow> filled \<le> bytes \<Longrightarrow>
     \<exists>rng' w' pad. writePaddingBytes_loop W raw bytes filled rng w = (rng', w') \<and>
       holds w' (bs @ pad) \<and> length pad = bytes - filled"
proof (induction "bytes - filled" arbitrary: filled rng w bs rule: less_induct)
  case less
  show ?case
  proof (cases "filled < bytes")
    case True
    let ?t = "min 8 (bytes - filled)"
    obtain rand rng1 where nx: "QunetPadRNG_next rng = (rand, rng1)"
      by (cases "QunetPadRNG_next rng")
    let ?c = "take ?t (raw rand)"
    have len: "length ?c = ?t"
      using raw by simp
    have "holds (bw_writeBytes W w ?c) (bs @ ?c)"
      using less.prems(1) by (rule holds_writeBytes)
    moreover have "bytes - (filled + ?t) < bytes - filled" "filled + ?t \<le> bytes"
      using True by auto
    ultimately obtain rng' w' pad where ih:
      "writePaddingBytes_loop W raw bytes (filled + ?t) rng1 (bw_writeBytes W w ?c) = (rng', w')"
      "holds w' ((bs @ ?c) @ pad)" "length pad = bytes - (filled + ?t)"
      using less.hyps by blast
    have "writePaddingBytes_loop W raw bytes filled rng w = (rng', w')"
      using ih(1) True nx by (subst writePaddingBytes_loop.simps) simp
    moreover have "length (?c @ pad) = bytes - filled"
      using len ih(3) \<open>filled + ?t \<le> bytes\<close> by simp
    ultimately show ?thesis
      using ih(2) by (metis append.assoc)
  next
    case False
    then show ?thesis
      using less.prems by (subst writePaddingBytes_loop.simps) (auto intro: exI [of _ "[]"])
  qed
qed

lemma padMessageToMinimum_holds:
  assumes raw: "\<And>x. length (raw x) = 8" and w: "bw_written W w = bs"
  shows "\<exists>rng' w' pad. padMessageToMinimum W raw rng w = Ok (rng', w') \<and>
     bw_written W w' = bs @ pad \<and> length (bs @ pad) = max (length bs) MINIMUM_UDP_PAYLOAD \<and>
     (pad = [] \<or> hd pad = MSG_PADDING)"
proof -
  let ?w = "bw_setPosition W w (length bs)"
  have hw: "holds ?w bs"
    using w by (simp add: holds_def)
  then have pos: "bw_position W ?w = length bs"
    by (simp add: holds_def)
  show ?thesis
  proof (cases "length bs < MINIMUM_UDP_PAYLOAD")
    case True
    have "holds (bw_writeU8 W ?w MSG_PADDING) (bs @ [MSG_PADDING])"
      using hw by (rule holds_writeU8)
    from writePaddingBytes_loop_holds [where raw = raw, OF raw this, of 0 "MINIMUM_UDP_PAYLOAD - length bs - 1" rng]
    obtain rng' w' pad where
      "writePaddingBytes W raw (MINIMUM_UDP_PAYLOAD - length bs - 1) rng
         (bw_writeU8 W ?w MSG_PADDING) = (rng', w')"
      "holds w' ((bs @ [MSG_PADDING]) @ pad)" "length pad = MINIMUM_UDP_PAYLOAD - length bs - 1"
      by (auto simp: writePaddingBytes_def)
    then show ?thesis
      using True pos w
      by (intro exI [of _ rng'] exI [of _ w'] exI [of _ "MSG_PADDING # pad"])
        (simp add: padMessageToMinimum_def writePadMessage_def holds_def)
  next
    case False
    then show ?thesis
      using pos w hw by (simp add: padMessageToMinimum_def holds_def)
  qed
qed

end

text \<open>Padding a written message makes the datagram at least 22 bytes long by appending
  one padding message, or nothing when it is long enough; a decoder that reaches the padding
  delimits all of it as one message of type \<open>MSG_PADDING\<close>.\<close>

theorem padding_reaches_minimum:
  assumes "dbuf_laws C R rest adv W" and "\<And>x. length (raw x) = 8"
  shows "\<exists>rng' w' pad. padMessageToMinimum W raw rng w = Ok (rng', w') \<and>
     bw_written W w' = bw_written W w @ pad \<and>
     length (bw_written W w') = max (length (bw_written W w)) MINIMUM_UDP_PAYLOAD \<and>
     (pad = [] \<or>
      (\<exists>meta. decodeMeta R pad udp False = Ok meta \<and> mm_type meta = MSG_PADDING \<and>
         1 + length (mm_data meta) = length pad))"
proof -
  obtain rng' w' pad where p: "padMessageToMinimum W raw rng w = Ok (rng', w')"
    "bw_written W w' = bw_written W w @ pad"
    "length (bw_written W w @ pad) = max (length (bw_written W w)) MINIMUM_UDP_PAYLOAD"
    "pad = [] \<or> hd pad = MSG_PADDING"
    using dbuf_laws.padMessageToMinimum_holds [where raw = raw, OF assms refl] by blast
  have "\<exists>meta. decodeMeta R pad udp False = Ok meta \<and> mm_type meta = MSG_PADDING \<and>
         1 + length (mm_data meta) = length pad" if ne: "pad \<noteq> []"
  proof -
    obtain cs where pad: "pad = 127 # [] @ cs"
      using ne p(4) by (cases pad) auto
    have "br_remainingSize R (br_open R cs) = length cs"
      using dbuf_laws.axioms(2) [OF assms(1)] by (simp add: byte_reader_laws.remainingSize
          byte_reader_laws.rest_open)
    then show ?thesis
      unfolding pad
      by (subst decodeMeta_control) (simp_all add: lengthForNonData_simps)
  qed
  then show ?thesis
    using p by auto
qed

theorem padding_reaches_minimum_witness:
  "\<exists>rng' w' pad. padMessageToMinimum list_writer (put_le 8) (QunetPadRNG_new 1 2 3)
       (bw_writeU8 list_writer (bw_new list_writer) MSG_CLIENT_CLOSE) = Ok (rng', w') \<and>
     bw_written list_writer w' = [MSG_CLIENT_CLOSE] @ pad \<and> length (bw_written list_writer w') = 22"
  using padding_reaches_minimum [OF ref.dbuf_laws_axioms, of "put_le 8" "QunetPadRNG_new 1 2 3"
      "bw_writeU8 list_writer (bw_new list_writer) MSG_CLIENT_CLOSE" True]
  by (auto simp: MINIMUM_UDP_PAYLOAD_def)

lemma pad_multiplier_inverse: "(4888251478366616163 :: u64) * (15241094284759029579 * z) = z"
proof -
  have "(4888251478366616163 :: u64) * 15241094284759029579 = 1"
    by simp
  then show ?thesis
    by (simp only: mult.assoc [symmetric] mult_1_left)
qed

text \<open>The padding generator never loses state: the multiplier is odd and the
  rotations are bijections, so that different states have different successors.\<close>

theorem padding_generator_injective:
  assumes "snd (QunetPadRNG_next r) = snd (QunetPadRNG_next s)"
  shows "r = s"
proof -
  have x: "15241094284759029579 * pr_z r = 15241094284759029579 * pr_z s"
    and y: "pad_rotl (pr_y r - pr_x r) 12 = pad_rotl (pr_y s - pr_x s) 12"
    and z: "pad_rotl (pr_z r - pr_y r) 44 = pad_rotl (pr_z s - pr_y s) 44"
    using assms by (simp_all add: QunetPadRNG_next_def Let_def)
  have "pr_z r = pr_z s"
    using arg_cong [OF x, of "\<lambda>v. 4888251478366616163 * v"] by (simp only: pad_multiplier_inverse)
  moreover have "pr_y r = pr_y s"
    using pad_rotl_inj [OF _ _ z] calculation by simp
  moreover have "pr_x r = pr_x s"
    using pad_rotl_inj [OF _ _ y] calculation by simp
  ultimately show ?thesis
    by simp
qed

theorem padding_generator_injective_witness:
  "snd (QunetPadRNG_next (QunetPadRNG_new 1 2 3)) \<noteq> snd (QunetPadRNG_next (QunetPadRNG_new 1 2 4))"
proof
  assume "snd (QunetPadRNG_next (QunetPadRNG_new 1 2 3)) = snd (QunetPadRNG_next (QunetPadRNG_new 1 2 4))"
  from padding_generator_injective [OF this] show False
    by (simp add: QunetPadRNG_new_def)
qed

end
