(* ===== verification/Stat_Tracker.thy ===== *)
theory Stat_Tracker
  imports Transport_Error
begin

text \<open>
  Network statistics (\<open>util/StatTracker.hpp\<close>, \<open>util/StatTracker.cpp\<close>): the log of packets and
  messages that the transports keep, and the snapshots computed from it.  Counts and sizes are
  natural numbers.  The order in which the map of acknowledged ids is visited is the argument
  \<open>ord\<close>.
\<close>

section \<open>The log\<close>

datatype MessageType = MT_HandshakeStart | MT_HandshakeFinish | MT_HandshakeFailure | MT_Data

record 'i Packet =
  pk_timestamp :: 'i
  pk_bytes :: nat
  pk_up :: bool

record ('d, 'i) StatMessage =
  sm_timestamp :: 'i
  sm_type :: MessageType
  sm_bytes :: nat
  sm_up :: bool
  sm_compressedBytes :: "nat option"
  sm_compressionTime :: 'd
  sm_relHeader :: "ReliabilityHeader option"

record ('d, 'i) StatTracker =
  tr_startedAt :: 'i
  tr_connectedAt :: "'i option"
  tr_handshakeFinishedAt :: "'i option"
  tr_packets :: "'i Packet list"
  tr_messages :: "('d, 'i) StatMessage list"
  tr_enabled :: bool

definition StatTracker_new :: "'i \<Rightarrow> ('d, 'i) StatTracker" where
  "StatTracker_new t0 = \<lparr>tr_startedAt = t0, tr_connectedAt = None, tr_handshakeFinishedAt = None,
     tr_packets = [], tr_messages = [], tr_enabled = True\<rparr>"

definition setEnabled :: "bool \<Rightarrow> ('d, 'i) StatTracker \<Rightarrow> ('d, 'i) StatTracker" where
  "setEnabled enable tr = tr\<lparr>tr_enabled := enable\<rparr>"

definition onStartedConnection :: "'i \<Rightarrow> ('d, 'i) StatTracker \<Rightarrow> ('d, 'i) StatTracker" where
  "onStartedConnection now tr = tr\<lparr>tr_startedAt := now\<rparr>"

definition onConnected :: "'i \<Rightarrow> ('d, 'i) StatTracker \<Rightarrow> ('d, 'i) StatTracker" where
  "onConnected now tr = tr\<lparr>tr_connectedAt := Some now\<rparr>"

definition onUpPacket :: "'i \<Rightarrow> nat \<Rightarrow> ('d, 'i) StatTracker \<Rightarrow> ('d, 'i) StatTracker" where
  "onUpPacket now bytes tr =
     (if \<not> tr_enabled tr then tr
      else tr\<lparr>tr_packets := tr_packets tr @ [\<lparr>pk_timestamp = now, pk_bytes = bytes, pk_up = True\<rparr>]\<rparr>)"

definition onDownPacket :: "'i \<Rightarrow> nat \<Rightarrow> ('d, 'i) StatTracker \<Rightarrow> ('d, 'i) StatTracker" where
  "onDownPacket now bytes tr =
     (if \<not> tr_enabled tr then tr
      else tr\<lparr>tr_packets := tr_packets tr @ [\<lparr>pk_timestamp = now, pk_bytes = bytes, pk_up = False\<rparr>]\<rparr>)"

definition onMessage :: "'i \<Rightarrow> u8 \<Rightarrow> bool \<Rightarrow> nat \<Rightarrow> nat option \<Rightarrow> 'd \<Rightarrow> ReliabilityHeader option \<Rightarrow>
    ('d, 'i) StatTracker \<Rightarrow> ('d, 'i) StatTracker" where
  "onMessage now header up bytes compressedBytes compressionTime relHeader tr =
     (if \<not> tr_enabled tr then tr
      else tr\<lparr>tr_messages := tr_messages tr @
        [\<lparr>sm_timestamp = now, sm_type = MT_Data, sm_bytes = bytes, sm_up = up,
          sm_compressedBytes = compressedBytes, sm_compressionTime = compressionTime,
          sm_relHeader = relHeader\<rparr>]\<rparr>)"

definition onUpMessage :: "'i \<Rightarrow> u8 \<Rightarrow> nat \<Rightarrow> nat option \<Rightarrow> 'd \<Rightarrow> ReliabilityHeader option \<Rightarrow>
    ('d, 'i) StatTracker \<Rightarrow> ('d, 'i) StatTracker" where
  "onUpMessage now header bytes compressedBytes compressionTime relHeader tr =
     onMessage now header True bytes compressedBytes compressionTime relHeader tr"

definition onDownMessage :: "'i \<Rightarrow> u8 \<Rightarrow> nat \<Rightarrow> nat option \<Rightarrow> 'd \<Rightarrow> ReliabilityHeader option \<Rightarrow>
    ('d, 'i) StatTracker \<Rightarrow> ('d, 'i) StatTracker" where
  "onDownMessage now header bytes compressedBytes compressionTime relHeader tr =
     onMessage now header False bytes compressedBytes compressionTime relHeader tr"

section \<open>Snapshots\<close>

text \<open>The figures kept for each direction (each pair of fields \<open>xUp\<close>, \<open>xDown\<close> of \<open>StatSnapshot\<close>
  is a field of one \<open>DirStats\<close> for each direction; an entry of the log only changes the figures
  of its own direction, so that the loops run once over each), and those of the reliability
  layer.  \<open>avgPacketSize\<close> is None where the code divides by zero.\<close>

record 'f DirStats =
  ds_bytes :: nat
  ds_messages :: nat
  ds_packets :: nat
  ds_minPacketSize :: nat
  ds_maxPacketSize :: nat
  ds_compressed :: nat
  ds_compAvgRatio :: 'f
  ds_compSavedBytes :: int
  ds_compSavedPercent :: 'f
  ds_reliable :: nat

record ('d, 'f) StatSnapshot =
  sn_period :: 'd
  sn_up :: "'f DirStats"
  sn_down :: "'f DirStats"
  sn_upRetransmissions :: nat
  sn_upUnacked :: nat
  sn_downUnknownAcks :: nat
  sn_minAckDelay :: 'd
  sn_maxAckDelay :: 'd
  sn_avgAckDelay :: 'd

definition SMAX :: nat where
  "SMAX = 2 ^ 64 - 1"

definition DirStats_new :: "('d, 'i, 'f) time_ops \<Rightarrow> 'f DirStats" where
  "DirStats_new T = \<lparr>ds_bytes = 0, ds_messages = 0, ds_packets = 0, ds_minPacketSize = SMAX,
     ds_maxPacketSize = 0, ds_compressed = 0, ds_compAvgRatio = fl_dec T 0 0, ds_compSavedBytes = 0,
     ds_compSavedPercent = fl_dec T 0 0, ds_reliable = 0\<rparr>"

definition avgPacketSize :: "'f DirStats \<Rightarrow> nat option" where
  "avgPacketSize d = (if ds_packets d = 0 then None else Some (ds_bytes d div ds_packets d))"

text \<open>The scan backwards from the end of a log for the entries of the period.\<close>

definition recent :: "('d, 'i, 'f) time_ops \<Rightarrow> 'i \<Rightarrow> 'd \<Rightarrow> ('a \<Rightarrow> 'i) \<Rightarrow> 'a list \<Rightarrow> 'a list" where
  "recent T now period stamp xs =
     (if tm_isZero T period then xs
      else rev (takeWhile (\<lambda>x. \<not> tm_less T period (tm_between T (stamp x) now)) (rev xs)))"

definition countMessage :: "('d, 'i, 'f) time_ops \<Rightarrow> ('d, 'i) StatMessage \<Rightarrow> 'f DirStats \<Rightarrow> 'f DirStats" where
  "countMessage T msg d =
     (let d = d\<lparr>ds_messages := ds_messages d + 1\<rparr>;
          d = (case sm_compressedBytes msg of
                 None \<Rightarrow> d
               | Some c \<Rightarrow> if 0 < sm_bytes msg then
                   d\<lparr>ds_compressed := ds_compressed d + 1,
                     ds_compAvgRatio := fl_plus T (ds_compAvgRatio d)
                       (fl_divide T (fl_ofSize T c) (fl_ofSize T (sm_bytes msg))),
                     ds_compSavedBytes := ds_compSavedBytes d + (int (sm_bytes msg) - int c)\<rparr>
                   else d)
      in (case sm_relHeader msg of None \<Rightarrow> d | Some _ \<Rightarrow> d\<lparr>ds_reliable := ds_reliable d + 1\<rparr>))"

definition countPacket :: "'i Packet \<Rightarrow> 'f DirStats \<Rightarrow> 'f DirStats" where
  "countPacket p d =
     (let d = d\<lparr>ds_packets := ds_packets d + 1, ds_bytes := ds_bytes d + pk_bytes p\<rparr>
      in if pk_bytes p < ds_minPacketSize d then d\<lparr>ds_minPacketSize := pk_bytes p\<rparr>
         else if ds_maxPacketSize d < pk_bytes p then d\<lparr>ds_maxPacketSize := pk_bytes p\<rparr>
         else d)"

definition finishDir :: "('d, 'i, 'f) time_ops \<Rightarrow> 'f DirStats \<Rightarrow> 'f DirStats" where
  "finishDir T d =
     (let d = (if ds_minPacketSize d = SMAX then d\<lparr>ds_minPacketSize := 0\<rparr> else d)
      in d\<lparr>ds_compAvgRatio := fl_divide T (ds_compAvgRatio d) (fl_ofSize T (ds_compressed d)),
           ds_compSavedPercent := fl_divide T (fl_ofInt T (ds_compSavedBytes d))
             (fl_ofInt T (int (ds_bytes d) + ds_compSavedBytes d))\<rparr>)"

text \<open>The send and acknowledgement times of each id (\<open>acks\<close>) and the ids sent (\<open>outIds\<close>).\<close>

type_synonym 'i ack_map = "u16 \<rightharpoonup> ('i option \<times> 'i option)"

definition ack_entry :: "'i ack_map \<Rightarrow> u16 \<Rightarrow> 'i option \<times> 'i option" where
  "ack_entry acks i = (case acks i of None \<Rightarrow> (None, None) | Some p \<Rightarrow> p)"

fun recordAcks :: "'i \<Rightarrow> u16 list \<Rightarrow> nat \<Rightarrow> nat \<Rightarrow> 'i ack_map \<Rightarrow> ('e, 'i ack_map) outcome" where
  "recordAcks ts as i 0 acks = Ok acks"
| "recordAcks ts as i (Suc n) acks =
     unwrap (at as i) (\<lambda>idn.
       let (sent, target) = ack_entry acks idn
       in recordAcks ts as (Suc i) n
            (acks(idn \<mapsto> (sent, case target of None \<Rightarrow> Some ts | Some t \<Rightarrow> Some t))))"

definition countRel :: "('d, 'i) StatMessage \<Rightarrow> nat \<times> u16 set \<times> 'i ack_map \<Rightarrow>
    ('e, nat \<times> u16 set \<times> 'i ack_map) outcome" where
  "countRel msg acc =
     (case sm_relHeader msg of
        None \<Rightarrow> Ok acc
      | Some hdr \<Rightarrow>
          (let (retr, outIds, acks) = acc;
               (retr, outIds, acks) =
                 (if sm_up msg \<and> rh_messageId hdr \<noteq> 0 then
                    if rh_messageId hdr \<in> outIds then (retr + 1, outIds, acks)
                    else (retr, insert (rh_messageId hdr) outIds,
                          acks(rh_messageId hdr \<mapsto>
                            (Some (sm_timestamp msg), snd (ack_entry acks (rh_messageId hdr)))))
                  else (retr, outIds, acks))
           in unwrap (if \<not> sm_up msg \<and> 0 < rh_ackCount hdr
                      then recordAcks (sm_timestamp msg) (rh_acks hdr) 0 (rh_ackCount hdr) acks
                      else Ok acks) (\<lambda>acks. Ok (retr, outIds, acks))))"

fun countRels :: "('d, 'i) StatMessage list \<Rightarrow> nat \<times> u16 set \<times> 'i ack_map \<Rightarrow>
    ('e, nat \<times> u16 set \<times> 'i ack_map) outcome" where
  "countRels [] acc = Ok acc"
| "countRels (m # ms) acc = unwrap (countRel m acc) (countRels ms)"

text \<open>The loop over the collected ids; the last component is the number of measured delays.\<close>

fun countAcks :: "('d, 'i, 'f) time_ops \<Rightarrow> ('i option \<times> 'i option) list \<Rightarrow>
    nat \<times> nat \<times> 'd \<times> 'd \<times> 'd \<times> nat \<Rightarrow> nat \<times> nat \<times> 'd \<times> 'd \<times> 'd \<times> nat" where
  "countAcks T [] acc = acc"
| "countAcks T ((msgAt, ackAt) # ps) (unknown, unacked, mn, mx, sm, n) =
     countAcks T ps
       (case msgAt of
          None \<Rightarrow> (unknown + 1, unacked, mn, mx, sm, n)
        | Some s \<Rightarrow>
            (case ackAt of
               None \<Rightarrow> (unknown, unacked + 1, mn, mx, sm, n)
             | Some a \<Rightarrow>
                 let delay = tm_between T s a
                 in (unknown, unacked, if tm_less T delay mn then delay else mn,
                     if tm_less T mx delay then delay else mx, tm_plus T sm delay, n + 1)))"

definition countRelStats :: "('d, 'i, 'f) time_ops \<Rightarrow> ('i ack_map \<Rightarrow> u16 list) \<Rightarrow>
    ('d, 'i) StatMessage list \<Rightarrow> ('d, 'f) StatSnapshot \<Rightarrow> ('e, ('d, 'f) StatSnapshot) outcome" where
  "countRelStats T ord messages snap =
     unwrap (countRels messages (sn_upRetransmissions snap, {}, Map.empty)) (\<lambda>(retr, outIds, acks).
     let (unknown, unacked, mn, mx, sm, n) =
           countAcks T (map (ack_entry acks) (ord acks))
             (sn_downUnknownAcks snap, sn_upUnacked snap, tm_infinite T, sn_maxAckDelay snap,
              sn_avgAckDelay snap, 0)
     in Ok (snap\<lparr>sn_upRetransmissions := retr, sn_downUnknownAcks := unknown, sn_upUnacked := unacked,
             sn_maxAckDelay := mx,
             sn_minAckDelay := (if n = 0 then tm_zero T else mn),
             sn_avgAckDelay := (if n = 0 then tm_zero T else tm_divide T sm n)\<rparr>))"

definition snapshot :: "('d, 'i, 'f) time_ops \<Rightarrow> ('i ack_map \<Rightarrow> u16 list) \<Rightarrow> 'i \<Rightarrow> 'd \<Rightarrow>
    ('d, 'i) StatTracker \<Rightarrow> ('e, ('d, 'f) StatSnapshot) outcome" where
  "snapshot T ord now period tr =
     (let packets = recent T now period pk_timestamp (tr_packets tr);
          messages = recent T now period sm_timestamp (tr_messages tr);
          snap = \<lparr>sn_period = (if tm_isZero T period then tm_between T (tr_startedAt tr) now else period),
                  sn_up = fold (countMessage T) (filter sm_up messages) (DirStats_new T),
                  sn_down = fold (countMessage T) (filter (\<lambda>m. \<not> sm_up m) messages) (DirStats_new T),
                  sn_upRetransmissions = 0, sn_upUnacked = 0, sn_downUnknownAcks = 0,
                  sn_minAckDelay = tm_zero T, sn_maxAckDelay = tm_zero T, sn_avgAckDelay = tm_zero T\<rparr>
      in unwrap (countRelStats T ord messages snap) (\<lambda>snap.
         Ok (snap\<lparr>sn_up := finishDir T (fold countPacket (filter pk_up packets) (sn_up snap)),
                  sn_down := finishDir T (fold countPacket (filter (\<lambda>p. \<not> pk_up p) packets)
                    (sn_down snap))\<rparr>)))"

record ('d, 'f) StatWholeSnapshot = "('d, 'f) StatSnapshot" +
  sw_connectionLifetime :: 'd
  sw_tookToConnect :: 'd
  sw_tookToHandshake :: 'd

definition snapshotFull :: "('d, 'i, 'f) time_ops \<Rightarrow> ('i ack_map \<Rightarrow> u16 list) \<Rightarrow> 'i \<Rightarrow>
    ('d, 'i) StatTracker \<Rightarrow> ('e, ('d, 'f) StatWholeSnapshot) outcome" where
  "snapshotFull T ord now tr =
     unwrap (snapshot T ord now (tm_zero T) tr) (\<lambda>snap.
     Ok (StatSnapshot.extend snap
       \<lparr>sw_connectionLifetime = tm_elapsed T now (tr_startedAt tr),
        sw_tookToConnect = (case tr_connectedAt tr of None \<Rightarrow> tm_zero T
           | Some c \<Rightarrow> tm_between T (tr_startedAt tr) c),
        sw_tookToHandshake = (case tr_connectedAt tr of None \<Rightarrow> tm_zero T
           | Some c \<Rightarrow> (case tr_handshakeFinishedAt tr of None \<Rightarrow> tm_zero T
              | Some h \<Rightarrow> tm_between T c h))\<rparr>))"


section \<open>What the figures are\<close>

lemma countPackets:
  fixes d :: "'f DirStats"
  shows "ds_packets (fold countPacket ps d) = ds_packets d + length ps \<and>
    ds_bytes (fold countPacket ps d) = ds_bytes d + sum_list (map pk_bytes ps) \<and>
    ds_minPacketSize (fold countPacket ps d) = Min (insert (ds_minPacketSize d) (pk_bytes ` set ps)) \<and>
    ds_messages (fold countPacket ps d) = ds_messages d \<and>
    ds_reliable (fold countPacket ps d) = ds_reliable d"
proof (induction ps arbitrary: d)
  case (Cons p ps)
  have step: "ds_packets (countPacket p d) = ds_packets d + 1"
    "ds_bytes (countPacket p d) = ds_bytes d + pk_bytes p"
    "ds_minPacketSize (countPacket p d) = min (ds_minPacketSize d) (pk_bytes p)"
    "ds_messages (countPacket p d) = ds_messages d" "ds_reliable (countPacket p d) = ds_reliable d"
    by (simp_all add: countPacket_def Let_def min_def)
  have "Min (insert (ds_minPacketSize d) (insert (pk_bytes p) (pk_bytes ` set ps)))
      = Min (insert (min (ds_minPacketSize d) (pk_bytes p)) (pk_bytes ` set ps))"
    by (cases "set ps = {}") (simp_all add: min.assoc)
  then show ?case
    using Cons [of "countPacket p d"] step by simp
qed simp

lemma countMessages:
  fixes d :: "'f DirStats"
  shows "ds_messages (fold (countMessage T) ms d) = ds_messages d + length ms \<and>
    ds_reliable (fold (countMessage T) ms d)
      = ds_reliable d + length (filter (\<lambda>m. sm_relHeader m \<noteq> None) ms) \<and>
    ds_packets (fold (countMessage T) ms d) = ds_packets d \<and>
    ds_bytes (fold (countMessage T) ms d) = ds_bytes d \<and>
    ds_minPacketSize (fold (countMessage T) ms d) = ds_minPacketSize d \<and>
    ds_maxPacketSize (fold (countMessage T) ms d) = ds_maxPacketSize d"
proof (induction ms arbitrary: d)
  case (Cons m ms)
  have "ds_messages (countMessage T m d) = ds_messages d + 1"
    "ds_reliable (countMessage T m d) = (if sm_relHeader m = None then ds_reliable d else ds_reliable d + 1)"
    "ds_packets (countMessage T m d) = ds_packets d" "ds_bytes (countMessage T m d) = ds_bytes d"
    "ds_minPacketSize (countMessage T m d) = ds_minPacketSize d"
    "ds_maxPacketSize (countMessage T m d) = ds_maxPacketSize d"
    by (auto simp: countMessage_def Let_def split: option.split)
  then show ?case
    using Cons [of "countMessage T m d"] by simp
qed simp

lemma countRelStats_dirs:
  "countRelStats T ord ms snap = Ok snap' \<Longrightarrow> sn_up snap' = sn_up snap \<and> sn_down snap' = sn_down snap"
  by (auto simp: countRelStats_def unwrap_eq_Inr Let_def case_prod_beta)

lemma recent_zero: "tm_isZero T period \<Longrightarrow> recent T now period stamp xs = xs"
  by (simp add: recent_def)

lemma finishDir_simps [simp]:
  "ds_packets (finishDir T d) = ds_packets d" "ds_bytes (finishDir T d) = ds_bytes d"
  "ds_messages (finishDir T d) = ds_messages d" "ds_reliable (finishDir T d) = ds_reliable d"
  "ds_maxPacketSize (finishDir T d) = ds_maxPacketSize d"
  "ds_minPacketSize (finishDir T d) = (if ds_minPacketSize d = SMAX then 0 else ds_minPacketSize d)"
  by (simp_all add: finishDir_def Let_def)

lemma snapshot_dirs:
  assumes "snapshot T ord now period tr = Ok snap"
  shows "sn_up snap = finishDir T (fold countPacket
      (filter pk_up (recent T now period pk_timestamp (tr_packets tr)))
      (fold (countMessage T) (filter sm_up (recent T now period sm_timestamp (tr_messages tr)))
        (DirStats_new T)))"
    and "sn_down snap = finishDir T (fold countPacket
      (filter (\<lambda>p. \<not> pk_up p) (recent T now period pk_timestamp (tr_packets tr)))
      (fold (countMessage T) (filter (\<lambda>m. \<not> sm_up m) (recent T now period sm_timestamp (tr_messages tr)))
        (DirStats_new T)))"
  using assms by (auto simp: snapshot_def Let_def unwrap_eq_Inr dest!: countRelStats_dirs)

text \<open>An all-time snapshot counts exactly what was logged: for each direction the
  packets, their bytes, the messages and the reliable messages, and the smallest packet.\<close>

theorem snapshot_counts:
  assumes "snapshot T ord now period tr = Ok snap" and "tm_isZero T period"
    and "\<forall>p\<in>set (tr_packets tr). pk_bytes p < SMAX"
  shows "ds_packets (sn_up snap) + ds_packets (sn_down snap) = length (tr_packets tr) \<and>
     ds_bytes (sn_up snap) = sum_list (map pk_bytes (filter pk_up (tr_packets tr))) \<and>
     ds_bytes (sn_down snap) = sum_list (map pk_bytes (filter (\<lambda>p. \<not> pk_up p) (tr_packets tr))) \<and>
     ds_messages (sn_up snap) + ds_messages (sn_down snap) = length (tr_messages tr) \<and>
     ds_reliable (sn_up snap) = length (filter (\<lambda>m. sm_up m \<and> sm_relHeader m \<noteq> None) (tr_messages tr)) \<and>
     (\<forall>p\<in>set (tr_packets tr). pk_up p \<longrightarrow> ds_minPacketSize (sn_up snap) \<le> pk_bytes p)"
proof -
  note dirs = snapshot_dirs [OF assms(1)]
  note rec = recent_zero [OF assms(2)]
  have mn: "ds_minPacketSize (sn_up snap) \<le> pk_bytes p"
    if "p \<in> set (tr_packets tr)" "pk_up p" for p
  proof -
    let ?S = "insert SMAX (pk_bytes ` set (filter pk_up (tr_packets tr)))"
    have "ds_minPacketSize (sn_up snap) \<le> Min ?S"
      unfolding dirs rec by (simp add: countPackets countMessages DirStats_new_def)
    also have "\<dots> \<le> pk_bytes p"
      using that by (intro Min_le) auto
    finally show ?thesis .
  qed
  show ?thesis
    using mn unfolding dirs rec
    by (simp add: countPackets countMessages DirStats_new_def sum_length_filter_compl conj_commute)
qed

definition sample_tracker :: "(nat, nat) StatTracker" where
  "sample_tracker = onDownPacket 7 40 (onUpPacket 5 100 (StatTracker_new 0))"

lemma sample_snapshot:
  "\<exists>snap. snapshot nat_time (\<lambda>_. []) 9 0 sample_tracker = (Ok snap :: (string, _) outcome)"
  by (simp add: snapshot_def sample_tracker_def onDownPacket_def onUpPacket_def StatTracker_new_def
      recent_def countRelStats_def Let_def)

theorem snapshot_counts_witness:
  "\<exists>snap. snapshot nat_time (\<lambda>_. []) 9 0 sample_tracker = (Ok snap :: (string, _) outcome) \<and>
     ds_packets (sn_up snap) + ds_packets (sn_down snap) = 2 \<and> ds_bytes (sn_up snap) = 100 \<and>
     ds_bytes (sn_down snap) = 40"
proof -
  obtain snap where s: "snapshot nat_time (\<lambda>_. []) 9 0 sample_tracker = (Ok snap :: (string, _) outcome)"
    using sample_snapshot by blast
  have "\<forall>p\<in>set (tr_packets sample_tracker). pk_bytes p < SMAX"
    by (simp add: sample_tracker_def onDownPacket_def onUpPacket_def StatTracker_new_def SMAX_def)
  from snapshot_counts [OF s _ this] s show ?thesis
    by (simp add: sample_tracker_def onDownPacket_def onUpPacket_def StatTracker_new_def)
qed

text \<open>The largest packet size is wrong whenever the largest packet was also the smallest one
  seen until then: a direction with a single packet always reports the maximum 0.\<close>

theorem single_packet_max_is_zero:
  assumes "snapshot T ord now period tr = Ok snap" and "tm_isZero T period"
    and "tr_packets tr = [\<lparr>pk_timestamp = t, pk_bytes = n, pk_up = True\<rparr>]" and "0 < n" and "n < SMAX"
  shows "ds_minPacketSize (sn_up snap) = n \<and> ds_maxPacketSize (sn_up snap) = 0"
  using assms(2-5) unfolding snapshot_dirs [OF assms(1)]
  by (simp add: recent_def countPacket_def countMessages DirStats_new_def Let_def)


theorem single_packet_max_is_zero_witness:
  "\<exists>snap. snapshot nat_time (\<lambda>_. []) 9 0 (onUpPacket 5 100 (StatTracker_new 0))
       = (Ok snap :: (string, _) outcome) \<and>
     ds_minPacketSize (sn_up snap) = 100 \<and> ds_maxPacketSize (sn_up snap) = 0"
proof -
  obtain snap where s: "snapshot nat_time (\<lambda>_. []) 9 0 (onUpPacket 5 100 (StatTracker_new 0))
      = (Ok snap :: (string, _) outcome)"
    by (simp add: snapshot_def onUpPacket_def StatTracker_new_def recent_def countRelStats_def Let_def)
  have "tr_packets (onUpPacket 5 100 (StatTracker_new 0))
      = [\<lparr>pk_timestamp = 5, pk_bytes = 100, pk_up = True\<rparr>]"
    by (simp add: onUpPacket_def StatTracker_new_def)
  from single_packet_max_is_zero [OF s _ this] s show ?thesis
    by (simp add: SMAX_def)
qed

end
