(* ===== verification/Compression.thy ===== *)
theory Compression
  imports Transport_Error
begin

text \<open>
  The compressors (\<open>include/qunet/compression\<close>, \<open>src/compression\<close>).  Zstandard and LZ4 are
  third-party packages: the calls the wrappers make are the fields of the records \<open>zstd_ops\<close> and
  \<open>lz4_ops\<close>, and what the library relies on is stated by the locales \<open>zstd_laws\<close> and
  \<open>lz4_laws\<close>.  A call that reports an error is None.
\<close>

section \<open>The packages\<close>

record ('cd, 'dd) zstd_ops =
  z_createCCtx :: bool
  z_createDCtx :: bool
  z_createCDict :: "bytes \<Rightarrow> int \<Rightarrow> 'cd option"
  z_createDDict :: "bytes \<Rightarrow> 'dd option"
  z_compress_usingCDict :: "'cd \<Rightarrow> bytes \<Rightarrow> nat \<Rightarrow> bytes option"
  z_compressCCtx :: "int \<Rightarrow> bytes \<Rightarrow> nat \<Rightarrow> bytes option"
  z_decompress_usingDDict :: "'dd \<Rightarrow> bytes \<Rightarrow> nat \<Rightarrow> bytes option"
  z_decompressDCtx :: "bytes \<Rightarrow> nat \<Rightarrow> bytes option"
  z_compressBound :: "nat \<Rightarrow> nat"

text \<open>The LZ4 functions take \<open>int\<close> sizes and return the number of bytes written, or a value that
  is not positive; the second component is what they write.\<close>

record lz4_ops =
  l_compress_default :: "bytes \<Rightarrow> int \<Rightarrow> int \<Rightarrow> int \<times> bytes"
  l_decompress_safe :: "bytes \<Rightarrow> int \<Rightarrow> int \<Rightarrow> int \<times> bytes"
  l_compressBound :: "int \<Rightarrow> int"

text \<open>The conversion of a \<open>size_t\<close> argument to \<open>int\<close>.\<close>

definition int_of_size :: "nat \<Rightarrow> int" where
  "int_of_size n = sint (of_nat n :: u32)"

lemma int_of_size_small: "n < 2 ^ 31 \<Longrightarrow> int_of_size n = int n"
proof -
  assume n: "n < 2 ^ 31"
  then have "signed_take_bit 31 (int n) = int n"
    by (intro signed_take_bit_int_eq_self) simp_all
  then show ?thesis
    by (simp add: int_of_size_def signed_of_nat)
qed

section \<open>ZstdCompressor and ZstdDecompressor\<close>

record 'cd ZstdCompressor =
  zc_ctx :: bool
  zc_dict :: "'cd option"
  zc_level :: int

record 'dd ZstdDecompressor =
  zd_ctx :: bool
  zd_dict :: "'dd option"

definition ZstdCompressor_new :: "'cd ZstdCompressor" where
  "ZstdCompressor_new = \<lparr>zc_ctx = False, zc_dict = None, zc_level = 0\<rparr>"

definition ZstdDecompressor_new :: "'dd ZstdDecompressor" where
  "ZstdDecompressor_new = \<lparr>zd_ctx = False, zd_dict = None\<rparr>"

text \<open>The move assignment: the source is left without context and dictionary.\<close>

definition ZstdCompressor_move :: "'cd ZstdCompressor \<Rightarrow> 'cd ZstdCompressor \<times> 'cd ZstdCompressor" where
  "ZstdCompressor_move other = (other, other\<lparr>zc_ctx := False, zc_dict := None\<rparr>)"

definition ZstdDecompressor_move ::
    "'dd ZstdDecompressor \<Rightarrow> 'dd ZstdDecompressor \<times> 'dd ZstdDecompressor" where
  "ZstdDecompressor_move other = (other, other\<lparr>zd_ctx := False, zd_dict := None\<rparr>)"

definition ZstdCompressor_init :: "('cd, 'dd) zstd_ops \<Rightarrow> int \<Rightarrow> 'cd ZstdCompressor \<Rightarrow>
    (CompressorError, unit) outcome \<times> 'cd ZstdCompressor" where
  "ZstdCompressor_init Z level c =
     (if zc_ctx c then (Err CE_AlreadyInitialized, c)
      else let c = c\<lparr>zc_ctx := z_createCCtx Z, zc_level := level\<rparr>
           in (qn_assert (zc_ctx c) (Ok ()), c))"

definition ZstdCompressor_initWithDictionary :: "('cd, 'dd) zstd_ops \<Rightarrow> bytes \<Rightarrow> int \<Rightarrow>
    'cd ZstdCompressor \<Rightarrow> (CompressorError, unit) outcome \<times> 'cd ZstdCompressor" where
  "ZstdCompressor_initWithDictionary Z data level c =
     (case ZstdCompressor_init Z level c of
        (Inl e, c) \<Rightarrow> (Inl e, c)
      | (Inr _, c) \<Rightarrow>
          let c = c\<lparr>zc_dict := z_createCDict Z data level\<rparr>
          in (if zc_dict c = None then Err CE_InvalidDictionary else Ok (), c))"

text \<open>\<open>compress\<close> with a destination of \<open>cap\<close> bytes returns the bytes written there.\<close>

definition ZstdCompressor_compress :: "('cd, 'dd) zstd_ops \<Rightarrow> 'cd ZstdCompressor \<Rightarrow> bytes \<Rightarrow> nat \<Rightarrow>
    bool \<Rightarrow> (CompressorError, bytes) outcome" where
  "ZstdCompressor_compress Z c src cap noDict =
     (if \<not> zc_ctx c then Err CE_NotInitialized
      else
        (case (case zc_dict c of
                 Some d \<Rightarrow> if \<not> noDict then z_compress_usingCDict Z d src cap
                           else z_compressCCtx Z (zc_level c) src cap
               | None \<Rightarrow> z_compressCCtx Z (zc_level c) src cap) of
           None \<Rightarrow> Err CE_CompressionFailed
         | Some out \<Rightarrow> Ok out))"

definition ZstdDecompressor_init :: "('cd, 'dd) zstd_ops \<Rightarrow> 'dd ZstdDecompressor \<Rightarrow>
    (DecompressorError, unit) outcome \<times> 'dd ZstdDecompressor" where
  "ZstdDecompressor_init Z d =
     (if zd_ctx d then (Err DE_AlreadyInitialized, d)
      else let d = d\<lparr>zd_ctx := z_createDCtx Z\<rparr> in (qn_assert (zd_ctx d) (Ok ()), d))"

definition ZstdDecompressor_initWithDictionary :: "('cd, 'dd) zstd_ops \<Rightarrow> bytes \<Rightarrow>
    'dd ZstdDecompressor \<Rightarrow> (DecompressorError, unit) outcome \<times> 'dd ZstdDecompressor" where
  "ZstdDecompressor_initWithDictionary Z data d =
     (case ZstdDecompressor_init Z d of
        (Inl e, d) \<Rightarrow> (Inl e, d)
      | (Inr _, d) \<Rightarrow>
          let d = d\<lparr>zd_dict := z_createDDict Z data\<rparr>
          in (if zd_dict d = None then Err DE_InvalidDictionary else Ok (), d))"

definition ZstdDecompressor_decompress :: "('cd, 'dd) zstd_ops \<Rightarrow> 'dd ZstdDecompressor \<Rightarrow> bytes \<Rightarrow>
    nat \<Rightarrow> bool \<Rightarrow> (DecompressorError, bytes) outcome" where
  "ZstdDecompressor_decompress Z d src dstSize noDict =
     (if \<not> zd_ctx d then Err DE_NotInitialized
      else
        (case (case zd_dict d of
                 Some dict \<Rightarrow> if \<not> noDict then z_decompress_usingDDict Z dict src dstSize
                              else z_decompressDCtx Z src dstSize
               | None \<Rightarrow> z_decompressDCtx Z src dstSize) of
           None \<Rightarrow> Err DE_DecompressionFailed
         | Some out \<Rightarrow> if dstSize \<noteq> length out then Err DE_SizeMismatch else Ok out))"

section \<open>Lz4Compressor and Lz4Decompressor\<close>

definition Lz4Compressor_compress :: "lz4_ops \<Rightarrow> bytes \<Rightarrow> nat \<Rightarrow> (CompressorError, bytes) outcome" where
  "Lz4Compressor_compress L src dstSize =
     (let (dsize, dst) = l_compress_default L src (int_of_size (length src)) (int_of_size dstSize)
      in if dsize \<le> 0 then Err CE_CompressionFailed else Ok (take (nat dsize) dst))"

text \<open>A destination buffer of \<open>n\<close> zero bytes after \<open>dst\<close> has been written to its start.\<close>

definition fill_buffer :: "nat \<Rightarrow> bytes \<Rightarrow> bytes" where
  "fill_buffer n dst = take n (dst @ replicate n 0)"

lemma length_fill_buffer [simp]: "length (fill_buffer n dst) = n"
  by (simp add: fill_buffer_def)

lemma fill_buffer_exact [simp]: "length dst = n \<Longrightarrow> fill_buffer n dst = dst"
  by (simp add: fill_buffer_def)

definition Lz4Decompressor_decompress ::
    "lz4_ops \<Rightarrow> bytes \<Rightarrow> nat \<Rightarrow> (DecompressorError, bytes) outcome" where
  "Lz4Decompressor_decompress L src dstSize =
     (let (dsize, dst) = l_decompress_safe L src (int_of_size (length src)) (int_of_size dstSize)
      in if dsize < 0 then Err DE_DecompressionFailed
         else if nat dsize \<noteq> dstSize then Err DE_SizeMismatch
         else Ok (fill_buffer dstSize dst))"

definition Lz4Compressor_compressBound :: "lz4_ops \<Rightarrow> nat \<Rightarrow> nat" where
  "Lz4Compressor_compressBound L srcSize = nat (l_compressBound L (int_of_size srcSize) mod 2 ^ 64)"

definition ZstdCompressor_compressBound :: "('cd, 'dd) zstd_ops \<Rightarrow> nat \<Rightarrow> nat" where
  "ZstdCompressor_compressBound Z srcSize = z_compressBound Z srcSize"

section \<open>What the packages promise\<close>

text \<open>A destination of the documented bound is always enough, and decompressing what was compressed
  (with the dictionary made from the same data) gives the original back when there is room for
  it.\<close>

locale zstd_laws =
  fixes Z :: "('cd, 'dd) zstd_ops"
  assumes createCCtx: "z_createCCtx Z" and createDCtx: "z_createDCtx Z"
    and compress_bound: "z_compressBound Z (length src) \<le> cap \<Longrightarrow> \<exists>c. z_compressCCtx Z l src cap = Some c"
    and compress_dict_bound: "z_compressBound Z (length src) \<le> cap \<Longrightarrow>
      \<exists>c. z_compress_usingCDict Z cd src cap = Some c"
    and decompress: "z_compressCCtx Z l src cap = Some c \<Longrightarrow> length src \<le> n \<Longrightarrow>
      z_decompressDCtx Z c n = Some src"
    and decompress_dict: "z_createCDict Z data l = Some cd \<Longrightarrow> z_createDDict Z data = Some dd \<Longrightarrow>
      z_compress_usingCDict Z cd src cap = Some c \<Longrightarrow> length src \<le> n \<Longrightarrow>
      z_decompress_usingDDict Z dd c n = Some src"
begin

text \<open>A compressor and a decompressor match when both are initialised, with the dictionaries of the
  same data or with none.\<close>

definition matching :: "'cd ZstdCompressor \<Rightarrow> 'dd ZstdDecompressor \<Rightarrow> bool" where
  "matching c d \<longleftrightarrow> zc_ctx c \<and> zd_ctx d \<and>
     (zc_dict c = None \<and> zd_dict d = None \<or>
      (\<exists>data l cd dd. zc_dict c = Some cd \<and> zd_dict d = Some dd \<and>
         z_createCDict Z data l = Some cd \<and> z_createDDict Z data = Some dd))"

lemma init_matching:
  "matching (snd (ZstdCompressor_init Z l ZstdCompressor_new)) (snd (ZstdDecompressor_init Z ZstdDecompressor_new))"
  by (simp add: matching_def ZstdCompressor_init_def ZstdDecompressor_init_def ZstdCompressor_new_def
      ZstdDecompressor_new_def createCCtx createDCtx)

lemma initWithDictionary_matching:
  assumes "ZstdCompressor_initWithDictionary Z data l ZstdCompressor_new = (Ok (), c)"
    and "ZstdDecompressor_initWithDictionary Z data ZstdDecompressor_new = (Ok (), d)"
  shows "matching c d"
  using assms
  by (auto simp: matching_def ZstdCompressor_initWithDictionary_def ZstdDecompressor_initWithDictionary_def
      ZstdCompressor_init_def ZstdDecompressor_init_def ZstdCompressor_new_def ZstdDecompressor_new_def
      createCCtx createDCtx split: if_splits) blast+

lemma zstd_roundtrip:
  assumes "matching c d" "z_compressBound Z (length src) \<le> cap"
  shows "\<exists>out. ZstdCompressor_compress Z c src cap noDict = Ok out \<and>
     ZstdDecompressor_decompress Z d out (length src) noDict = Ok src"
proof -
  obtain p q where p: "z_compressCCtx Z (zc_level c) src cap = Some p"
    and q: "\<And>cd. z_compress_usingCDict Z cd src cap = Some (q cd)"
    using compress_bound [OF assms(2)] compress_dict_bound [OF assms(2)] by metis
  have dp: "z_decompressDCtx Z p (length src) = Some src"
    using decompress [OF p] by simp
  show ?thesis
    using assms(1) p q dp decompress_dict [OF _ _ q, of _ _ _ _ "length src"]
    by (auto simp: matching_def ZstdCompressor_compress_def ZstdDecompressor_decompress_def)
qed

end

locale lz4_laws =
  fixes L :: lz4_ops
  assumes lz4_bound: "0 \<le> i \<Longrightarrow> i < 2 ^ 30 \<Longrightarrow> 0 \<le> l_compressBound L i \<and> l_compressBound L i < 2 ^ 31"
    and lz4_compress: "0 < n \<Longrightarrow> n = length src \<Longrightarrow> n < 2 ^ 31 \<Longrightarrow> l_compressBound L (int n) \<le> cap \<Longrightarrow>
      \<exists>k dst. l_compress_default L src (int n) cap = (k, dst) \<and> 0 < k \<and> nat k \<le> length dst \<and> k < 2 ^ 31"
    and lz4_decompress: "l_compress_default L src m cap = (k, dst) \<Longrightarrow> 0 < k \<Longrightarrow> k < 2 ^ 31 \<Longrightarrow>
      m = int (length src) \<Longrightarrow>
      l_decompress_safe L (take (nat k) dst) k m = (m, src)"
begin

lemma lz4_roundtrip:
  assumes "src \<noteq> []" "length src < 2 ^ 30" "cap = Lz4Compressor_compressBound L (length src)"
  shows "\<exists>out. Lz4Compressor_compress L src cap = Ok out \<and>
     Lz4Decompressor_decompress L out (length src) = Ok src"
proof -
  have b: "0 \<le> l_compressBound L (int (length src))" "l_compressBound L (int (length src)) < 2 ^ 31"
    using lz4_bound [of "int (length src)"] assms(2) by simp_all
  then have cap: "int cap = l_compressBound L (int (length src))"
    using assms(2,3) by (simp add: Lz4Compressor_compressBound_def int_of_size_small)
  then have "int_of_size cap = int cap"
    using b by (intro int_of_size_small) simp
  obtain k dst where k: "l_compress_default L src (int (length src)) (int cap) = (k, dst)"
    "0 < k" "nat k \<le> length dst" "k < 2 ^ 31"
    using lz4_compress [of "length src" src "int cap"] assms cap by auto
  have "int_of_size (nat k) = k"
    using int_of_size_small [of "nat k"] k by simp
  then show ?thesis
    using k lz4_decompress [OF k(1,2,4) refl] assms \<open>int_of_size cap = int cap\<close>
    by (simp add: Lz4Compressor_compress_def Lz4Decompressor_decompress_def int_of_size_small)
qed

end

section \<open>Reference instances\<close>

text \<open>Codecs that store the bytes as they are show that the laws can hold.\<close>

definition stored_zstd :: "(bytes, bytes) zstd_ops" where
  "stored_zstd = \<lparr>z_createCCtx = True, z_createDCtx = True, z_createCDict = (\<lambda>d _. Some d),
     z_createDDict = Some, z_compress_usingCDict = (\<lambda>_ src cap. if length src \<le> cap then Some src else None),
     z_compressCCtx = (\<lambda>_ src cap. if length src \<le> cap then Some src else None),
     z_decompress_usingDDict = (\<lambda>_ src n. if length src \<le> n then Some src else None),
     z_decompressDCtx = (\<lambda>src n. if length src \<le> n then Some src else None),
     z_compressBound = (\<lambda>n. n)\<rparr>"

definition stored_lz4 :: lz4_ops where
  "stored_lz4 = \<lparr>l_compress_default = (\<lambda>src n cap. if n \<le> cap \<and> n = int (length src) then (n, src) else (0, [])),
     l_decompress_safe = (\<lambda>src n cap. if int (length src) \<le> cap then (int (length src), src) else (-1, [])),
     l_compressBound = (\<lambda>n. n)\<rparr>"

interpretation stored_z: zstd_laws stored_zstd
  by unfold_locales (auto simp: stored_zstd_def split: if_splits)

interpretation stored_l: lz4_laws stored_lz4
  by unfold_locales (auto simp: stored_lz4_def split: if_splits)

lemma decompressed_size_exact:
  "ZstdDecompressor_decompress Z d src n noDict = Ok out \<Longrightarrow> length out = n"
  by (auto simp: ZstdDecompressor_decompress_def split: if_splits option.splits)

lemma lz4_decompressed_size_exact:
  "Lz4Decompressor_decompress L src n = Ok out \<Longrightarrow> length out = n"
  by (auto simp: Lz4Decompressor_decompress_def split: if_splits prod.splits)

end
