(* ===== verification/Qunet_Database.thy ===== *)
theory Qunet_Database
  imports Message_Codec
begin

text \<open>
  The database a server sends at the handshake (\<open>include/qunet/database/QunetDatabase.hpp\<close>,
  \<open>src/database/QunetDatabase.cpp\<close>).  The hash function (BLAKE3) is the argument \<open>hashf\<close>.
  Values of type \<open>uint32_t\<close> and \<open>size_t\<close> are words, with the wrap-around of the code's sums and
  differences.
\<close>

section \<open>Errors and data\<close>

datatype DatabaseErrorCode = UnsupportedVersion | InvalidHeader | SectionSizeInvalid | ZstdDictTooLarge

datatype DatabaseDecodeError = DB_String string | DB_Custom DatabaseErrorCode

fun DatabaseErrorCode_message :: "DatabaseErrorCode \<Rightarrow> string" where
  "DatabaseErrorCode_message UnsupportedVersion = ''Unsupported Qunet database version''"
| "DatabaseErrorCode_message InvalidHeader = ''Invalid Qunet database header''"
| "DatabaseErrorCode_message SectionSizeInvalid = ''Section size is invalid''"
| "DatabaseErrorCode_message ZstdDictTooLarge = ''Zstd dictionary section is too large''"

fun DatabaseDecodeError_message :: "DatabaseDecodeError \<Rightarrow> string" where
  "DatabaseDecodeError_message (DB_String e) = e"
| "DatabaseDecodeError_message (DB_Custom c) = DatabaseErrorCode_message c"

definition QUNET_DATABASE_VERSION :: u16 where
  "QUNET_DATABASE_VERSION = 1"

definition DB_MAGIC :: bytes where
  "DB_MAGIC = [0xa3, 0xdb, 0xdb, 0x11]"

record QunetDatabase =
  qdb_zstdDict :: "bytes option"
  qdb_zstdLevel :: int
  qdb_hash :: bytes

definition QunetDatabase_new :: QunetDatabase where
  "QunetDatabase_new = \<lparr>qdb_zstdDict = None, qdb_zstdLevel = 0, qdb_hash = []\<rparr>"

record SectionHeader =
  sh_type :: u16
  sh_options :: u16
  sh_offset :: u32
  sh_size :: u32

section \<open>Decoding\<close>

abbreviation DB_UNWRAP :: "(string, 'a) outcome \<Rightarrow> ('a \<Rightarrow> (DatabaseDecodeError, 'b) outcome) \<Rightarrow>
    (DatabaseDecodeError, 'b) outcome" where
  "DB_UNWRAP r k \<equiv> unwrap (mapErr DB_String r) k"

definition roundUpTo16 :: "u64 \<Rightarrow> u64" where
  "roundUpTo16 v = (v + 15) AND NOT 15"

definition decodeZstdDictSection :: "'r byte_reader \<Rightarrow> u64 \<Rightarrow> 'r \<Rightarrow> QunetDatabase \<Rightarrow>
    (DatabaseDecodeError, QunetDatabase) outcome" where
  "decodeZstdDictSection R sz reader db =
     (if 1024 * 1024 < sz then Err (DB_Custom ZstdDictTooLarge)
      else DB_UNWRAP (br_readI32 R reader) (\<lambda>(level, reader).
        Ok (db\<lparr>qdb_zstdLevel := sint level, qdb_zstdDict := Some (fst (br_readToEnd R reader))\<rparr>)))"

definition decodeSection :: "'r byte_reader \<Rightarrow> u16 \<Rightarrow> u64 \<Rightarrow> 'r \<Rightarrow> QunetDatabase \<Rightarrow>
    (DatabaseDecodeError, QunetDatabase) outcome" where
  "decodeSection R ty sz reader db =
     (if ty = 3 then decodeZstdDictSection R sz reader db else Ok db)"

fun readSectionHeaders :: "'r byte_reader \<Rightarrow> nat \<Rightarrow> 'r \<Rightarrow>
    (DatabaseDecodeError, SectionHeader list \<times> 'r) outcome" where
  "readSectionHeaders R 0 reader = Ok ([], reader)"
| "readSectionHeaders R (Suc n) reader =
     DB_UNWRAP (br_readU16 R reader) (\<lambda>(ty, reader).
     DB_UNWRAP (br_readU16 R reader) (\<lambda>(options, reader).
     DB_UNWRAP (br_readU32 R reader) (\<lambda>(offset, reader).
     DB_UNWRAP (br_readU32 R reader) (\<lambda>(sz, reader).
     if sz = 0 \<or> offset = 0 then Err (DB_Custom SectionSizeInvalid)
     else unwrap (readSectionHeaders R n reader) (\<lambda>(hs, reader).
       Ok (\<lparr>sh_type = ty, sh_options = options, sh_offset = offset, sh_size = sz\<rparr> # hs, reader))))))"

text \<open>\<open>section.offset + section.size\<close> is a \<open>uint32_t\<close>; the rest of the computation is \<open>size_t\<close>.\<close>

definition sectionEnd :: "u64 \<Rightarrow> SectionHeader \<Rightarrow> u64" where
  "sectionEnd sectionsBegin s = ucast (sh_offset s + sh_size s) - sectionsBegin"

fun bufferSize :: "u64 \<Rightarrow> SectionHeader list \<Rightarrow> u64 \<Rightarrow> u64" where
  "bufferSize sectionsBegin [] sz = sz"
| "bufferSize sectionsBegin (s # ss) sz =
     bufferSize sectionsBegin ss (if sz < sectionEnd sectionsBegin s then sectionEnd sectionsBegin s else sz)"

text \<open>\<open>span.subspan(begin, n)\<close>.\<close>

definition subspan :: "bytes \<Rightarrow> u64 \<Rightarrow> u64 \<Rightarrow> ('e, bytes) outcome" where
  "subspan buf begin n =
     (if unat begin \<le> length buf \<and> unat n \<le> length buf - unat begin
      then Ok (take (unat n) (drop (unat begin) buf)) else Inl OutOfBounds)"

fun decodeSections :: "'r byte_reader \<Rightarrow> bytes \<Rightarrow> u64 \<Rightarrow> SectionHeader list \<Rightarrow> QunetDatabase \<Rightarrow>
    (DatabaseDecodeError, QunetDatabase) outcome" where
  "decodeSections R buf sectionsBegin [] db = Ok db"
| "decodeSections R buf sectionsBegin (s # ss) db =
     (let begin = ucast (sh_offset s) - sectionsBegin;
          endp = begin + ucast (sh_size s)
      in unwrap (subspan buf begin (endp - begin)) (\<lambda>sectionData.
         unwrap (decodeSection R (sh_type s) (ucast (sh_size s)) (br_open R sectionData) db) (\<lambda>db.
         decodeSections R buf sectionsBegin ss db)))"

text \<open>The largest size of a \<open>std::vector<uint8_t>\<close>.\<close>

definition vector_max_size :: u64 where
  "vector_max_size = 0x7FFFFFFFFFFFFFFF"

definition QunetDatabase_decodeReader :: "'r byte_reader \<Rightarrow> 'r \<Rightarrow>
    (DatabaseDecodeError, QunetDatabase) outcome" where
  "QunetDatabase_decodeReader R reader =
     DB_UNWRAP (br_readBytes R reader 4) (\<lambda>(magic, reader).
     if magic \<noteq> DB_MAGIC then Err (DB_Custom InvalidHeader)
     else DB_UNWRAP (br_readU16 R reader) (\<lambda>(version, reader).
     if version \<noteq> QUNET_DATABASE_VERSION then Err (DB_Custom UnsupportedVersion)
     else DB_UNWRAP (br_readU16 R reader) (\<lambda>(sectionCount, reader).
     unwrap (readSectionHeaders R (unat sectionCount) reader) (\<lambda>(headers, reader).
     let headerSize = 4 + 2 + 2 + ucast sectionCount * 12;
         padding = roundUpTo16 headerSize - headerSize
     in DB_UNWRAP (br_skip R reader (unat padding)) (\<lambda>reader.
        let sectionsBegin = headerSize + padding;
            total = bufferSize sectionsBegin headers 0
        in qn_assert (total \<le> vector_max_size)
           (DB_UNWRAP (br_readBytes R reader (unat total)) (\<lambda>(dataBuffer, reader).
            decodeSections R dataBuffer sectionsBegin headers QunetDatabase_new))))))) "

definition QunetDatabase_decode :: "'r byte_reader \<Rightarrow> (bytes \<Rightarrow> bytes) \<Rightarrow> bytes \<Rightarrow>
    (DatabaseDecodeError, QunetDatabase) outcome" where
  "QunetDatabase_decode R hashf data =
     unwrap (QunetDatabase_decodeReader R (br_open R data)) (\<lambda>qdb.
     Ok (qdb\<lparr>qdb_hash := take 16 (hashf data)\<rparr>))"

definition getHash :: "QunetDatabase \<Rightarrow> bytes" where
  "getHash db = qdb_hash db"

section \<open>The file format\<close>

text \<open>A database with one section: header, padding to 32 bytes, and the section at offset \<open>off\<close>.\<close>

definition qdb_file :: "byte_codec \<Rightarrow> u16 \<Rightarrow> u32 \<Rightarrow> u32 \<Rightarrow> bytes \<Rightarrow> bytes" where
  "qdb_file C ty off sz body =
     DB_MAGIC @ put16 C QUNET_DATABASE_VERSION @ put16 C 1 @
     (put16 C ty @ put16 C 0 @ put32 C off @ put32 C sz) @ replicate 12 0 @ body"

lemma ucast_u32_u64: "unat (ucast (x :: u32) :: u64) = unat x"
  by (simp add: unsigned_ucast_eq take_bit_nat_eq_self_iff order.strict_trans1 [OF less_imp_le [OF unat_u32_less]])

lemma ucast_plus_u32:
  assumes "unat x + unat y < 2 ^ 32"
  shows "(ucast (x + y :: u32) :: u64) = ucast x + ucast y"
proof -
  have "unat (ucast (x + y) :: u64) = unat x + unat y"
    using assms by (simp add: ucast_u32_u64 unat_add_lem [THEN iffD1])
  moreover have "unat (ucast x + ucast y :: u64) = unat x + unat y"
    using assms by (simp add: unat_word_ariths ucast_u32_u64)
  ultimately show ?thesis
    by (simp add: word_unat_eq_iff)
qed

context dbuf_laws
begin

lemma qdb_header:
  assumes "sz \<noteq> 0" "off \<noteq> 0" and tot: "tot = ucast (off + sz) - (32 :: u64)"
    and "tot \<le> vector_max_size" and "unat tot \<le> length body"
  shows "QunetDatabase_decodeReader R (br_open R (qdb_file C ty off sz body)) =
     decodeSections R (take (unat tot) body) 32
       [\<lparr>sh_type = ty, sh_options = 0, sh_offset = off, sh_size = sz\<rparr>] QunetDatabase_new"
proof -
  let ?h = "\<lparr>sh_type = ty, sh_options = 0, sh_offset = off, sh_size = sz\<rparr>"
  let ?r0 = "br_open R (qdb_file C ty off sz body)"
  let ?r1 = "adv (adv (adv ?r0 4) 2) 2"
  have r1: "rest ?r1 = (put16 C ty @ put16 C 0 @ put32 C off @ put32 C sz) @ replicate 12 0 @ body"
    by (simp add: qdb_file_def DB_MAGIC_def)
  let ?r2 = "adv (adv (adv (adv ?r1 2) 2) 4) 4"
  have r2: "rest ?r2 = replicate 12 0 @ body"
    using r1 by simp
  have hs: "readSectionHeaders R (Suc 0) ?r1 = Ok ([?h], ?r2)"
    using r1 assms(1,2) by (simp add: reads)
  have sz: "bufferSize 32 [?h] 0 = tot"
    by (simp add: sectionEnd_def tot word_less_nat_alt unat_eq_0)
  have rb: "br_readBytes R (adv ?r2 12) (unat tot) = Ok (take (unat tot) body, adv (adv ?r2 12) (unat tot))"
    using r2 assms(5) by (simp add: readBytes)
  have "br_skip R ?r2 12 = Ok (adv ?r2 12)"
    using r2 by (simp add: skip)
  moreover have "br_readBytes R ?r0 4 = Ok (DB_MAGIC, adv ?r0 4)"
    by (simp add: readBytes qdb_file_def DB_MAGIC_def)
  moreover have "br_readU16 R (adv ?r0 4) = Ok (QUNET_DATABASE_VERSION, adv (adv ?r0 4) 2)"
    by (simp add: readU16 qdb_file_def DB_MAGIC_def)
  moreover have "br_readU16 R (adv (adv ?r0 4) 2) = Ok (1, ?r1)"
    by (simp add: readU16 qdb_file_def DB_MAGIC_def)
  moreover have "roundUpTo16 20 = 32"
    by (simp add: roundUpTo16_def)
  ultimately show ?thesis
    using hs sz rb assms(4) by (simp add: QunetDatabase_decodeReader_def Let_def)
qed


lemma readI32_in_bounds: "in_bounds (br_readI32 R r)"
  using readI32_short [of r] by (cases "4 \<le> length (rest r)") (auto simp: readI32)

lemma decodeSection_in_bounds: "in_bounds (decodeSection R ty sz r db)"
  by (auto simp: decodeSection_def decodeZstdDictSection_def readI32_in_bounds intro!: in_bounds_unwrap)

lemma qdb_decodes:
  assumes "length dict + 4 \<le> 1024 * 1024"
  shows "QunetDatabase_decode R hashf
       (qdb_file C 3 32 (of_nat (length dict + 4)) (put32 C level @ dict)) =
     Ok \<lparr>qdb_zstdDict = Some dict, qdb_zstdLevel = sint level,
         qdb_hash = take 16 (hashf (qdb_file C 3 32 (of_nat (length dict + 4)) (put32 C level @ dict)))\<rparr>"
proof -
  let ?n = "length dict + 4"
  let ?sz = "of_nat ?n :: u32"
  have n: "unat ?sz = ?n"
    using assms by (intro unat_of_nat_u32) simp
  have sz0: "?sz \<noteq> 0"
    using n by (metis add_is_0 unat_0 zero_neq_numeral)
  have "(ucast (32 + ?sz) :: u64) = ucast (32 :: u32) + ucast ?sz"
    by (rule ucast_plus_u32) (use n assms in simp)
  then have tot: "ucast ?sz = ucast (32 + ?sz) - (32 :: u64)"
    by simp
  have un: "unat (ucast ?sz :: u64) = ?n"
    by (simp only: ucast_u32_u64 n)
  have small: "(ucast ?sz :: u64) \<le> vector_max_size" "(ucast ?sz :: u64) \<le> 1024 * 1024"
    using assms by (simp_all only: word_le_nat_alt un) (simp_all add: vector_max_size_def)
  have "QunetDatabase_decodeReader R (br_open R (qdb_file C 3 32 ?sz (put32 C level @ dict))) =
     decodeSections R (take ?n (put32 C level @ dict)) 32
       [\<lparr>sh_type = 3, sh_options = 0, sh_offset = 32, sh_size = ?sz\<rparr>] QunetDatabase_new"
    using qdb_header [OF sz0 _ tot small(1), of "put32 C level @ dict" 3] by (simp only: un) simp
  moreover have "subspan (take ?n (put32 C level @ dict)) 0 (ucast ?sz)
      = (Ok (put32 C level @ dict) :: (DatabaseDecodeError, bytes) outcome)"
    by (simp only: subspan_def un) simp
  ultimately show ?thesis
    using small(2)
    by (simp add: QunetDatabase_decode_def decodeSection_def decodeZstdDictSection_def reads not_less
        QunetDatabase_new_def del: of_nat_add)
qed

lemma qdb_underflow:
  assumes "0 < off" "off < 32"
  shows "QunetDatabase_decode R hashf (qdb_file C ty off (32 - off) body) = Inl OutOfBounds"
proof -
  have sz0: "32 - off \<noteq> 0" and off0: "off \<noteq> 0"
    using assms by auto
  have tot: "(0 :: u64) = ucast (off + (32 - off)) - 32"
    by simp
  have "QunetDatabase_decodeReader R (br_open R (qdb_file C ty off (32 - off) body)) =
     decodeSections R [] 32 [\<lparr>sh_type = ty, sh_options = 0, sh_offset = off, sh_size = 32 - off\<rparr>]
       QunetDatabase_new"
    using qdb_header [OF sz0 off0 tot] by simp
  moreover have "subspan [] (ucast off - (32 :: u64)) n
      = (Inl OutOfBounds :: (DatabaseDecodeError, bytes) outcome)" for n
  proof -
    have "unat (ucast off :: u64) < 32"
      using assms(2) by (simp add: ucast_u32_u64 word_less_nat_alt)
    then have "(ucast off :: u64) - 32 \<noteq> 0"
      by auto
    then show ?thesis
      by (simp add: subspan_def unat_eq_0)
  qed
  ultimately show ?thesis
    by (simp add: QunetDatabase_decode_def Let_def)
qed

lemma decodeSections_in_bounds:
  "(\<forall>s\<in>set hs. sectionsBegin \<le> ucast (sh_offset s) \<and> unat (sh_offset s) + unat (sh_size s) < 2 ^ 32 \<and>
      unat (sectionEnd sectionsBegin s) \<le> length buf) \<Longrightarrow>
   in_bounds (decodeSections R buf sectionsBegin hs db)"
proof (induction hs arbitrary: db)
  case (Cons s hs)
  let ?o = "ucast (sh_offset s) :: u64" and ?n = "ucast (sh_size s) :: u64"
  have ok: "sectionsBegin \<le> ?o" "unat (sh_offset s) + unat (sh_size s) < 2 ^ 32"
    "unat (sectionEnd sectionsBegin s) \<le> length buf"
    using Cons.prems by simp_all
  have "sectionEnd sectionsBegin s = (?o - sectionsBegin) + ?n"
    using ucast_plus_u32 [OF ok(2)] by (simp add: sectionEnd_def)
  moreover have "unat (?o - sectionsBegin) \<le> unat (sh_offset s)"
    using ok(1) by (simp add: unat_sub ucast_u32_u64)
  then have "unat ((?o - sectionsBegin) + ?n) = unat (?o - sectionsBegin) + unat ?n"
    using ok(2) by (simp add: unat_word_ariths ucast_u32_u64)
  ultimately have "unat (?o - sectionsBegin) + unat ?n \<le> length buf"
    using ok(3) by simp
  then have "subspan buf (?o - sectionsBegin) ?n
      = (Ok (take (unat ?n) (drop (unat (?o - sectionsBegin)) buf)) :: (DatabaseDecodeError, _) outcome)"
    by (simp add: subspan_def)
  then show ?case
    using Cons by (simp add: Let_def in_bounds_unwrap decodeSection_in_bounds)
qed simp

end


text \<open>C28 (roundtrip).  A database file with a dictionary section, laid out as the decoder expects it,
  is decoded to its compression level and dictionary, with the first 16 bytes of the hash of the
  whole file.\<close>

theorem qdb_roundtrip:
  assumes "dbuf_laws C R rest adv W" and "length dict + 4 \<le> 1024 * 1024"
  shows "QunetDatabase_decode R hashf
       (qdb_file C 3 32 (of_nat (length dict + 4)) (put32 C level @ dict)) =
     Ok \<lparr>qdb_zstdDict = Some dict, qdb_zstdLevel = sint level,
         qdb_hash = take 16 (hashf (qdb_file C 3 32 (of_nat (length dict + 4)) (put32 C level @ dict)))\<rparr>"
  using dbuf_laws.qdb_decodes [OF assms] .

theorem qdb_roundtrip_witness:
  "QunetDatabase_decode list_reader (\<lambda>_. replicate 32 9)
      (qdb_file le_codec 3 32 6 (put32 le_codec 19 @ [1, 2])) =
     Ok \<lparr>qdb_zstdDict = Some [1, 2], qdb_zstdLevel = 19, qdb_hash = replicate 16 9\<rparr>"
  using qdb_roundtrip [OF ref.dbuf_laws_axioms, of "[1, 2]" "\<lambda>_. replicate 32 9" 19] by simp

text \<open>When no section starts before the end of the headers and no section's end leaves
  32 bits, decoding the sections from a buffer that reaches their ends never leaves the buffer,
  whatever the sections contain.\<close>

theorem qdb_sections_in_bounds:
  assumes "dbuf_laws C R rest adv W"
    and "\<forall>s\<in>set hs. sectionsBegin \<le> ucast (sh_offset s) \<and>
      unat (sh_offset s) + unat (sh_size s) < 2 ^ 32 \<and>
      unat (sectionEnd sectionsBegin s) \<le> length buf"
  shows "in_bounds (decodeSections R buf sectionsBegin hs db)"
  using dbuf_laws.decodeSections_in_bounds [OF assms] .

theorem qdb_sections_in_bounds_witness:
  "in_bounds (decodeSections list_reader [1, 2, 3, 4, 5, 6] 32
     [\<lparr>sh_type = 3, sh_options = 0, sh_offset = 32, sh_size = 5\<rparr>,
      \<lparr>sh_type = 8, sh_options = 0, sh_offset = 36, sh_size = 2\<rparr>] QunetDatabase_new)"
  by (rule qdb_sections_in_bounds [OF ref.dbuf_laws_axioms]) (simp add: sectionEnd_def)

text \<open>A section that claims to start inside the headers makes the decoder take a subspan
  outside of its buffer: with offset \<open>off < 32\<close> and size \<open>32 - off\<close> the buffer is empty and the
  start of the section underflows.\<close>

theorem qdb_offset_underflow:
  assumes "dbuf_laws C R rest adv W" and "0 < off" and "off < 32"
  shows "QunetDatabase_decode R hashf (qdb_file C ty off (32 - off) body) = Inl OutOfBounds"
  using dbuf_laws.qdb_underflow [OF assms] .

theorem qdb_offset_underflow_witness:
  "QunetDatabase_decode list_reader (\<lambda>_. replicate 32 9) (qdb_file le_codec 3 16 16 []) = Inl OutOfBounds"
  using qdb_offset_underflow [OF ref.dbuf_laws_axioms, of 16 "\<lambda>_. replicate 32 9" 3 "[]"] by simp

end
