(* ===== verification/Base_Transport.thy ===== *)
theory Base_Transport
  imports Compression Stat_Tracker Qunet_Database
begin

text \<open>
  What all transports share (\<open>transport/BaseTransport.hpp\<close>, \<open>transport/BaseTransport.cpp\<close>): the
  connection id and size limit, the compressors, the latency estimate and keepalive counters, and
  the last step of decoding a data message.  The smoothing of the latency is computed in double
  precision; its arithmetic is the argument record \<open>double_ops\<close>.
\<close>

section \<open>State\<close>

record SentMessageContext =
  cx_reliable :: bool
  cx_relHeader :: "ReliabilityHeader option"
  cx_originalSize :: nat
  cx_compressedSize :: "nat option"
  cx_tag :: string

definition SentMessageContext_new :: SentMessageContext where
  "SentMessageContext_new = \<lparr>cx_reliable = False, cx_relHeader = None, cx_originalSize = 0,
     cx_compressedSize = None, cx_tag = []\<rparr>"

record ('cd, 'dd, 'd, 'i) BaseTransport =
  bt_tracker :: "('d, 'i) StatTracker"
  bt_connectionId :: u64
  bt_messageSizeLimit :: u64
  bt_zstdCompressor :: "'cd ZstdCompressor"
  bt_zstdDecompressor :: "'dd ZstdDecompressor"
  bt_pingMicros :: u64
  bt_latestRttMicros :: u64
  bt_jitterMicros :: u64
  bt_lastActivity :: "'i option"
  bt_lastKeepalive :: "'i option"
  bt_totalKeepalives :: nat
  bt_totalRttEstimates :: nat
  bt_unackedKeepalives :: nat

definition BaseTransport_new :: "'i \<Rightarrow> ('cd, 'dd, 'd, 'i) BaseTransport" where
  "BaseTransport_new t0 = \<lparr>bt_tracker = StatTracker_new t0, bt_connectionId = 0,
     bt_messageSizeLimit = -1, bt_zstdCompressor = ZstdCompressor_new,
     bt_zstdDecompressor = ZstdDecompressor_new, bt_pingMicros = 0, bt_latestRttMicros = 0,
     bt_jitterMicros = 0, bt_lastActivity = None, bt_lastKeepalive = None, bt_totalKeepalives = 0,
     bt_totalRttEstimates = 0, bt_unackedKeepalives = 0\<rparr>"

definition setConnectionId :: "u64 \<Rightarrow> ('cd, 'dd, 'd, 'i) BaseTransport \<Rightarrow> ('cd, 'dd, 'd, 'i) BaseTransport" where
  "setConnectionId connectionId t = t\<lparr>bt_connectionId := connectionId\<rparr>"

definition setMessageSizeLimit :: "u64 \<Rightarrow> ('cd, 'dd, 'd, 'i) BaseTransport \<Rightarrow> ('cd, 'dd, 'd, 'i) BaseTransport" where
  "setMessageSizeLimit limit t = t\<lparr>bt_messageSizeLimit := limit\<rparr>"

text \<open>\<open>initCompressors\<close>: with the dictionary of the database, or without.\<close>

definition initCompressors :: "('cd, 'dd) zstd_ops \<Rightarrow> QunetDatabase option \<Rightarrow>
    ('cd, 'dd, 'd, 'i) BaseTransport \<Rightarrow> unit TransportResult \<times> ('cd, 'dd, 'd, 'i) BaseTransport" where
  "initCompressors Z qdb t =
     (let (rc, c) = (case Option.bind qdb qdb_zstdDict of
              Some dict \<Rightarrow> ZstdCompressor_initWithDictionary Z dict (qdb_zstdLevel (the qdb)) (bt_zstdCompressor t)
            | None \<Rightarrow> ZstdCompressor_init Z MSG_ZSTD_COMPRESSION_LEVEL (bt_zstdCompressor t));
          t = t\<lparr>bt_zstdCompressor := c\<rparr>
      in case mapErr TE_Compressor rc of
           Inl e \<Rightarrow> (Inl e, t)
         | Inr _ \<Rightarrow>
             let (rd, d) = (case Option.bind qdb qdb_zstdDict of
                   Some dict \<Rightarrow> ZstdDecompressor_initWithDictionary Z dict (bt_zstdDecompressor t)
                 | None \<Rightarrow> ZstdDecompressor_init Z (bt_zstdDecompressor t))
             in (mapErr TE_Decompressor rd, t\<lparr>bt_zstdDecompressor := d\<rparr>))"

section \<open>Timers and latency\<close>

record 'g double_ops =
  db_dec :: "nat \<Rightarrow> nat \<Rightarrow> 'g"
  db_ofU64 :: "u64 \<Rightarrow> 'g"
  db_toU64 :: "'g \<Rightarrow> u64"
  db_plus :: "'g \<Rightarrow> 'g \<Rightarrow> 'g"
  db_minus :: "'g \<Rightarrow> 'g \<Rightarrow> 'g"
  db_times :: "'g \<Rightarrow> 'g \<Rightarrow> 'g"

definition exponentialMovingAverage :: "'g double_ops \<Rightarrow> u64 \<Rightarrow> u64 \<Rightarrow> 'g \<Rightarrow> u64" where
  "exponentialMovingAverage D prev newv alpha =
     db_toU64 D (db_plus D (db_times D alpha (db_ofU64 D newv))
       (db_times D (db_minus D (db_dec D 1 0) alpha) (db_ofU64 D prev)))"

text \<open>\<open>std::abs\<close> of a difference of two \<open>int64_t\<close>.\<close>

definition abs_diff64 :: "u64 \<Rightarrow> u64 \<Rightarrow> u64" where
  "abs_diff64 a b = (if sint (a - b) < 0 then - (a - b) else a - b)"

definition BaseTransport_updateLatency :: "('d, 'i, 'f) time_ops \<Rightarrow> 'g double_ops \<Rightarrow> 'd \<Rightarrow>
    ('cd, 'dd, 'd, 'i) BaseTransport \<Rightarrow> ('cd, 'dd, 'd, 'i) BaseTransport" where
  "BaseTransport_updateLatency T D rtt t =
     (let delta = abs_diff64 (tm_micros T rtt) (bt_latestRttMicros t);
          t = t\<lparr>bt_latestRttMicros := tm_micros T rtt\<rparr>;
          t = (if bt_totalRttEstimates t = 0 then
                 t\<lparr>bt_pingMicros := tm_micros T rtt, bt_jitterMicros := 0\<rparr>
               else
                 t\<lparr>bt_pingMicros := exponentialMovingAverage D (bt_pingMicros t) (tm_micros T rtt) (db_dec D 25 2),
                   bt_jitterMicros := exponentialMovingAverage D (bt_jitterMicros t) delta (db_dec D 8 2)\<rparr>)
      in t\<lparr>bt_totalRttEstimates := bt_totalRttEstimates t + 1\<rparr>)"

definition getLatency :: "('d, 'i, 'f) time_ops \<Rightarrow> ('cd, 'dd, 'd, 'i) BaseTransport \<Rightarrow> 'd" where
  "getLatency T t = tm_fromMicros T (bt_pingMicros t)"

definition getJitter :: "('d, 'i, 'f) time_ops \<Rightarrow> ('cd, 'dd, 'd, 'i) BaseTransport \<Rightarrow> 'd" where
  "getJitter T t = tm_fromMicros T (bt_jitterMicros t)"

definition updateLastActivity :: "'i \<Rightarrow> ('cd, 'dd, 'd, 'i) BaseTransport \<Rightarrow> ('cd, 'dd, 'd, 'i) BaseTransport" where
  "updateLastActivity now t = t\<lparr>bt_lastActivity := Some now\<rparr>"

definition updateLastSentKeepalive :: "'i \<Rightarrow> ('cd, 'dd, 'd, 'i) BaseTransport \<Rightarrow> ('cd, 'dd, 'd, 'i) BaseTransport" where
  "updateLastSentKeepalive now t =
     t\<lparr>bt_lastKeepalive := Some now, bt_totalKeepalives := bt_totalKeepalives t + 1,
       bt_unackedKeepalives := bt_unackedKeepalives t + 1\<rparr>"

definition sinceLastActivity :: "('d, 'i, 'f) time_ops \<Rightarrow> 'i \<Rightarrow> ('cd, 'dd, 'd, 'i) BaseTransport \<Rightarrow> 'd" where
  "sinceLastActivity T now t =
     (case bt_lastActivity t of None \<Rightarrow> tm_infinite T | Some i \<Rightarrow> tm_elapsed T now i)"

definition sinceLastKeepalive :: "('d, 'i, 'f) time_ops \<Rightarrow> 'i \<Rightarrow> ('cd, 'dd, 'd, 'i) BaseTransport \<Rightarrow> 'd" where
  "sinceLastKeepalive T now t =
     (case bt_lastKeepalive t of None \<Rightarrow> tm_infinite T | Some i \<Rightarrow> tm_elapsed T now i)"

definition BaseTransport_untilTimerExpiry :: "('d, 'i, 'f) time_ops \<Rightarrow> 'd" where
  "BaseTransport_untilTimerExpiry T = tm_infinite T"

definition BaseTransport_handleTimerExpiry :: "('cd, 'dd, 'd, 'i) BaseTransport \<Rightarrow> unit TransportResult" where
  "BaseTransport_handleTimerExpiry t =
     (if 5 < bt_unackedKeepalives t then Err (CustomKind TimedOut) else Ok ())"

text \<open>\<open>onIncomingMessage\<close>; \<open>update\<close> is the transport's \<open>updateLatency\<close> and \<open>stamp\<close> the reading of
  the monotonic clock in nanoseconds.\<close>

definition onIncomingMessage :: "('d, 'i, 'f) time_ops \<Rightarrow> ('d \<Rightarrow> 's \<Rightarrow> 's) \<Rightarrow> ('s \<Rightarrow> 's) \<Rightarrow> u64 \<Rightarrow>
    QunetMessage \<Rightarrow> 's \<Rightarrow> 's" where
  "onIncomingMessage T update clearUnacked stamp msg s =
     (case msg of
        KeepaliveResponseMessage ts _ \<Rightarrow>
          clearUnacked (if ts < stamp then update (tm_fromNanos T (stamp - ts)) s else s)
      | _ \<Rightarrow> s)"

definition logOutgoingMessage :: "('d, 'i, 'f) time_ops \<Rightarrow> 'i \<Rightarrow> u8 \<Rightarrow> SentMessageContext \<Rightarrow>
    ('cd, 'dd, 'd, 'i) BaseTransport \<Rightarrow> ('cd, 'dd, 'd, 'i) BaseTransport" where
  "logOutgoingMessage T now hbyte ctx t =
     t\<lparr>bt_tracker := onUpMessage now hbyte (cx_originalSize ctx) (cx_compressedSize ctx) (tm_zero T)
         (cx_relHeader ctx) (bt_tracker t)\<rparr>"

text \<open>The outcome of a poll with a timeout: None is the timeout, otherwise the poll's own result.\<close>

definition pollTimeout :: "unit TransportResult option \<Rightarrow> bool TransportResult" where
  "pollTimeout res =
     (case res of None \<Rightarrow> Ok False | Some inner \<Rightarrow> unwrap inner (\<lambda>_. Ok True))"

section \<open>The last step of decoding a data message\<close>

definition decodePreFinalDataMessage :: "('d, 'i, 'f) time_ops \<Rightarrow> ('cd, 'dd) zstd_ops \<Rightarrow> lz4_ops \<Rightarrow> 'i \<Rightarrow>
    QunetMessageMeta \<Rightarrow> ('cd, 'dd, 'd, 'i) BaseTransport \<Rightarrow>
    QunetMessage TransportResult \<times> ('cd, 'dd, 'd, 'i) BaseTransport" where
  "decodePreFinalDataMessage T Z L now meta t =
     (let done = (\<lambda>bytes. Data \<lparr>dm_data = bytes, dm_compHeader = None, dm_relHeader = None\<rparr>) in
      case mm_compressionHeader meta of
        None \<Rightarrow>
          (Ok (done (mm_data meta)),
           t\<lparr>bt_tracker := onDownMessage now MSG_DATA (length (mm_data meta)) None (tm_zero T)
               (mm_reliabilityHeader meta) (bt_tracker t)\<rparr>)
      | Some ch \<Rightarrow>
          let uncSize = unat (ch_uncompressedSize ch);
              t = t\<lparr>bt_tracker := onDownMessage now MSG_DATA uncSize (Some (length (mm_data meta)))
                     (tm_zero T) (mm_reliabilityHeader meta) (bt_tracker t)\<rparr>
          in (if unat (bt_messageSizeLimit t) < uncSize then Err (CustomKind MessageTooLong)
              else unwrap (case ch_type ch of
                  CT_Zstd \<Rightarrow> mapErr TE_Decompressor
                    (ZstdDecompressor_decompress Z (bt_zstdDecompressor t) (mm_data meta) uncSize False)
                | CT_ZstdNoDict \<Rightarrow> mapErr TE_Decompressor
                    (ZstdDecompressor_decompress Z (bt_zstdDecompressor t) (mm_data meta) uncSize True)
                | CT_Lz4 \<Rightarrow> mapErr TE_Decompressor
                    (Lz4Decompressor_decompress L (mm_data meta) uncSize)
                | CT_None \<Rightarrow> Inl AssertionFailed) (\<lambda>bytes. Ok (done bytes)), t))"

section \<open>Facts\<close>

lemma decodePreFinal_state:
  "\<exists>tr. snd (decodePreFinalDataMessage T Z L now meta t) = t\<lparr>bt_tracker := tr\<rparr>"
  by (auto simp: decodePreFinalDataMessage_def Let_def split: option.split)

text \<open>C31 (safety).  A compressed message whose announced size exceeds the size limit of the connection is
  rejected whatever the decompressors would do with it, so before they are asked; otherwise what
  is delivered has exactly the announced size, which is within the limit.\<close>

theorem decompression_respects_limit:
  fixes t :: "('cd, 'dd, 'd, 'i) BaseTransport"
  assumes "mm_compressionHeader meta = Some ch"
  shows "(unat (bt_messageSizeLimit t) < unat (ch_uncompressedSize ch) \<longrightarrow>
      (\<forall>Z L. fst (decodePreFinalDataMessage T Z L now meta t) = Err (CustomKind MessageTooLong))) \<and>
    (\<forall>Z L m. fst (decodePreFinalDataMessage T Z L now meta t) = Ok m \<longrightarrow>
      (\<exists>bytes. m = Data \<lparr>dm_data = bytes, dm_compHeader = None, dm_relHeader = None\<rparr> \<and>
         length bytes = unat (ch_uncompressedSize ch) \<and> length bytes \<le> unat (bt_messageSizeLimit t)))"
proof (intro conjI impI allI)
  show "fst (decodePreFinalDataMessage T Z L now meta t) = Err (CustomKind MessageTooLong)"
    if "unat (bt_messageSizeLimit t) < unat (ch_uncompressedSize ch)" for Z :: "('cd, 'dd) zstd_ops" and L
    using assms that by (simp add: decodePreFinalDataMessage_def Let_def)
  show "\<exists>bytes. m = Data \<lparr>dm_data = bytes, dm_compHeader = None, dm_relHeader = None\<rparr> \<and>
      length bytes = unat (ch_uncompressedSize ch) \<and> length bytes \<le> unat (bt_messageSizeLimit t)"
    if "fst (decodePreFinalDataMessage T Z L now meta t) = Ok m" for Z :: "('cd, 'dd) zstd_ops" and L m
    using assms that
    by (cases "ch_type ch")
      (auto simp: decodePreFinalDataMessage_def Let_def unwrap_eq_Inr dest: decompressed_size_exact
        lz4_decompressed_size_exact
        split: if_splits)
qed

theorem decompression_respects_limit_witness:
  "\<exists>bytes. length bytes = 2 \<and> fst (decodePreFinalDataMessage nat_time stored_zstd stored_lz4 0
     \<lparr>mm_type = MSG_DATA, mm_compressionHeader = Some \<lparr>ch_type = CT_Lz4, ch_uncompressedSize = 2\<rparr>,
      mm_reliabilityHeader = None, mm_fragmentationHeader = None, mm_data = [7, 8], mm_dataOffset = 5\<rparr>
     (BaseTransport_new 0)) = Ok (Data \<lparr>dm_data = bytes, dm_compHeader = None, dm_relHeader = None\<rparr>)"
proof -
  let ?meta = "\<lparr>mm_type = MSG_DATA, mm_compressionHeader = Some \<lparr>ch_type = CT_Lz4, ch_uncompressedSize = 2\<rparr>,
      mm_reliabilityHeader = None, mm_fragmentationHeader = None, mm_data = [7, 8], mm_dataOffset = 5\<rparr>"
  let ?t = "BaseTransport_new 0 :: (bytes, bytes, nat, nat) BaseTransport"
  have ok: "fst (decodePreFinalDataMessage nat_time stored_zstd stored_lz4 0 ?meta ?t)
      = Ok (Data \<lparr>dm_data = [7, 8], dm_compHeader = None, dm_relHeader = None\<rparr>)"
    by (simp add: decodePreFinalDataMessage_def BaseTransport_new_def Lz4Decompressor_decompress_def
        stored_lz4_def int_of_size_small unsigned_minus_1_eq_mask mask_eq_exp_minus_1 Let_def)
  have "mm_compressionHeader ?meta = Some \<lparr>ch_type = CT_Lz4, ch_uncompressedSize = 2\<rparr>"
    by simp
  from decompression_respects_limit [OF this, THEN conjunct2, THEN spec, THEN spec, THEN spec, THEN mp, OF ok] ok
  show ?thesis
    by auto
qed

end
