(* ===== verification/Effects.thy ===== *)
theory Effects
  imports Transport_Error
begin

text \<open>
  Sequencing of operations on a state.  A step returns its outcome and the state it leaves; the
  state changes made before an error stay.  A computation whose loops may not end is an option:
  None is not returning.  The laws here are what the proofs about coroutines use.
\<close>

section \<open>Steps\<close>

definition step_then ::
    "('e, 'a) outcome \<times> 's \<Rightarrow> ('a \<Rightarrow> 's \<Rightarrow> ('e, 'b) outcome \<times> 's) \<Rightarrow> ('e, 'b) outcome \<times> 's" where
  "step_then m f = (case m of (Inl e, s) \<Rightarrow> (Inl e, s) | (Inr a, s) \<Rightarrow> f a s)"

lemma step_then_simps [simp]:
  "step_then (Inl e, s) f = (Inl e, s)"
  "step_then (Inr a, s) f = f a s"
  by (simp_all add: step_then_def)

lemma step_then_eq_Inr:
  "step_then m f = (Inr b, s') \<longleftrightarrow> (\<exists>a s. m = (Inr a, s) \<and> f a s = (Inr b, s'))"
  by (auto simp: step_then_def split: prod.splits sum.splits)

lemma step_then_cong [fundef_cong]:
  "m = m' \<Longrightarrow> (\<And>a s. m' = (Inr a, s) \<Longrightarrow> f a s = f' a s) \<Longrightarrow> step_then m f = step_then m' f'"
  by (auto simp: step_then_def split: prod.splits sum.splits)

section \<open>Computations that may not return\<close>

definition io_then ::
    "(('e, 'a) outcome \<times> 's) option \<Rightarrow> ('a \<Rightarrow> 's \<Rightarrow> (('e, 'b) outcome \<times> 's) option) \<Rightarrow>
     (('e, 'b) outcome \<times> 's) option" where
  "io_then m f = Option.bind m
     (\<lambda>r. case fst r of Inl e \<Rightarrow> Some (Inl e, snd r) | Inr a \<Rightarrow> f a (snd r))"

lemma io_then_simps [simp]:
  "io_then None f = None"
  "io_then (Some (Inl e, s)) f = Some (Inl e, s)"
  "io_then (Some (Inr a, s)) f = f a s"
  by (simp_all add: io_then_def)

lemma io_then_eq_Inr:
  "io_then m f = Some (Inr b, s') \<longleftrightarrow> (\<exists>a s. m = Some (Inr a, s) \<and> f a s = Some (Inr b, s'))"
  by (cases "fst (the m)"; cases m) (auto simp: io_then_def split: sum.splits)

lemma io_then_returns:
  "m \<noteq> None \<Longrightarrow> (\<And>a s. m = Some (Inr a, s) \<Longrightarrow> f a s \<noteq> None) \<Longrightarrow> io_then m f \<noteq> None"
  by (cases m) (auto simp: io_then_def split: sum.splits)

lemma io_if_returns: "(c \<Longrightarrow> m \<noteq> None) \<Longrightarrow> (if c then m else Some x) \<noteq> None"
  by simp

lemma io_then_mono [partial_function_mono]:
  fixes m :: "_ \<Rightarrow> (('e, 'a) outcome \<times> 's) option"
  assumes "mono_option m" and "\<And>a s. mono_option (\<lambda>g. f a s g)"
  shows "mono_option (\<lambda>g. io_then (m g) (\<lambda>a s. f a s g))"
  unfolding io_then_def
proof (rule bind_mono [OF assms(1)])
  fix r :: "('e, 'a) outcome \<times> 's"
  show "mono_option (\<lambda>g. case fst r of Inl e \<Rightarrow> Some (Inl e, snd r) | Inr a \<Rightarrow> f a (snd r) g)"
    using assms(2) by (cases "fst r") (simp_all add: option.const_mono)
qed

text \<open>\<open>Result::unwrap\<close> on a result that must not be an error.\<close>

definition must :: "(string, 'a) outcome \<Rightarrow> 'a TransportResult" where
  "must r = (case r of Inr v \<Rightarrow> Inr v | Inl OutOfBounds \<Rightarrow> Inl OutOfBounds | Inl _ \<Rightarrow> Inl AssertionFailed)"

lemma must_simps [simp]:
  "must (Inr v) = Inr v"
  "must (Inl AssertionFailed) = Inl AssertionFailed"
  "must (Inl (Failed e)) = Inl AssertionFailed"
  "must (Inl OutOfBounds) = Inl OutOfBounds"
  by (simp_all add: must_def)

section \<open>Computations that keep a part of the state\<close>

definition keeps :: "('s \<Rightarrow> 'x) \<Rightarrow> 'x \<Rightarrow> 'r \<times> 's \<Rightarrow> bool" where
  "keeps S x m \<longleftrightarrow> S (snd m) = x"

definition io_keeps :: "('s \<Rightarrow> 'x) \<Rightarrow> 'x \<Rightarrow> ('r \<times> 's) option \<Rightarrow> bool" where
  "io_keeps S x m \<longleftrightarrow> (\<forall>p. m = Some p \<longrightarrow> keeps S x p)"

named_theorems keeps_intros

lemma keeps_result [simp]: "keeps S x (r, s) \<longleftrightarrow> S s = x"
  by (simp add: keeps_def)

lemma io_keeps_simps [simp]:
  "io_keeps S x None"
  "io_keeps S x (Some p) \<longleftrightarrow> keeps S x p"
  by (simp_all add: io_keeps_def)

lemma keeps_step [keeps_intros]:
  assumes "keeps S x m" and "\<And>a s. S s = x \<Longrightarrow> keeps S x (f a s)"
  shows "keeps S x (step_then m f)"
  using assms by (auto simp: keeps_def step_then_def split: prod.split sum.split)

lemma keeps_io [keeps_intros]:
  assumes "io_keeps S x m" and "\<And>a s. S s = x \<Longrightarrow> io_keeps S x (f a s)"
  shows "io_keeps S x (io_then m f)"
proof (cases m)
  case (Some p)
  obtain r s where p: "p = (r, s)"
    by (cases p)
  then show ?thesis
    using assms Some by (cases r) auto
qed simp

lemma keepsD: "keeps S x m \<Longrightarrow> m = (r, s) \<Longrightarrow> S s = x"
  by simp

lemma io_keepsD: "io_keeps S x m \<Longrightarrow> m = Some (r, s) \<Longrightarrow> S s = x"
  by simp

end
