(* ===== verification/Udp_Transport.thy ===== *)
theory Udp_Transport
  imports Effects Base_Transport Fragment_Store Reliable_Store
    Padding Message_Codec
begin

text \<open>
  The UDP transport (\<open>transport/UdpTransport.hpp\<close>, \<open>transport/UdpTransport.cpp\<close>): sending with
  fragmentation and acknowledgements, receiving with reassembly, ordering and decompression, the
  timers, and the chunked handshake.

  A call gets the reading of the clock as \<open>now\<close> (one reading for a call; the loop of the
  handshake gets one for each round).  The socket is modelled by what it is given and what it
  returns: \<open>en_send\<close> answers the n-th attempt to send, \<open>ut_wire\<close> records the datagrams it accepted,
  and the datagrams received are an argument.  \<open>en_chance\<close> is the n-th answer of the random
  generator that simulates packet loss.
\<close>

section \<open>State\<close>

record ('r, 'w, 'cd, 'dd, 'd, 'i, 'f) qn_env =
  en_time :: "('d, 'i, 'f) time_ops"
  en_zstd :: "('cd, 'dd) zstd_ops"
  en_lz4 :: lz4_ops
  en_reader :: "'r byte_reader"
  en_writer :: "'w byte_writer"
  en_raw :: "u64 \<Rightarrow> bytes"
  en_order :: "'i frag_map \<Rightarrow> u16 list"
  en_chance :: "'f \<Rightarrow> nat \<Rightarrow> bool"
  en_send :: "nat \<Rightarrow> bytes \<Rightarrow> unit TransportResult"

record ('cd, 'dd, 'd, 'i, 'f) UdpTransport =
  ut_base :: "('cd, 'dd, 'd, 'i) BaseTransport"
  ut_relStore :: "'i ReliableStore"
  ut_fragStore :: "'i FragmentStore"
  ut_mtu :: nat
  ut_closed :: bool
  ut_lossSim :: 'f
  ut_activeKeepaliveInterval :: "'d option"
  ut_pendingMessages :: "QunetMessage list"
  ut_padRng :: QunetPadRNG
  ut_attempts :: nat
  ut_wire :: "bytes list"

definition UdpTransport_new :: "'i \<Rightarrow> QunetPadRNG \<Rightarrow> 'f \<Rightarrow> 'd option \<Rightarrow>
    ('cd, 'dd, 'd, 'i, 'f) UdpTransport" where
  "UdpTransport_new t0 rng lossSim interval =
     \<lparr>ut_base = BaseTransport_new t0, ut_relStore = ReliableStore_new,
      ut_fragStore = FragmentStore_new, ut_mtu = UDP_SAFE_MTU, ut_closed = False,
      ut_lossSim = lossSim, ut_activeKeepaliveInterval = interval, ut_pendingMessages = [],
      ut_padRng = rng, ut_attempts = 0, ut_wire = []\<rparr>"

definition UdpTransport_closeSync :: "('cd, 'dd, 'd, 'i, 'f) UdpTransport \<Rightarrow>
    unit TransportResult \<times> ('cd, 'dd, 'd, 'i, 'f) UdpTransport" where
  "UdpTransport_closeSync s = (Ok (), s\<lparr>ut_closed := True\<rparr>)"

definition UdpTransport_isClosed :: "('cd, 'dd, 'd, 'i, 'f) UdpTransport \<Rightarrow> bool" where
  "UdpTransport_isClosed s = ut_closed s"

text \<open>The parts of the state as the base class and the trackers change them.\<close>

definition on_base :: "(('cd, 'dd, 'd, 'i) BaseTransport \<Rightarrow> ('cd, 'dd, 'd, 'i) BaseTransport) \<Rightarrow>
    ('cd, 'dd, 'd, 'i, 'f) UdpTransport \<Rightarrow> ('cd, 'dd, 'd, 'i, 'f) UdpTransport" where
  "on_base g s = s\<lparr>ut_base := g (ut_base s)\<rparr>"

definition on_tracker :: "(('d, 'i) StatTracker \<Rightarrow> ('d, 'i) StatTracker) \<Rightarrow>
    ('cd, 'dd, 'd, 'i, 'f) UdpTransport \<Rightarrow> ('cd, 'dd, 'd, 'i, 'f) UdpTransport" where
  "on_tracker g = on_base (\<lambda>b. b\<lparr>bt_tracker := g (bt_tracker b)\<rparr>)"

section \<open>Sending a datagram\<close>

definition fl_clamp01 :: "('d, 'i, 'f) time_ops \<Rightarrow> 'f \<Rightarrow> 'f" where
  "fl_clamp01 T x = (if fl_less T x (fl_dec T 0 0) then fl_dec T 0 0
     else if fl_less T (fl_dec T 1 0) x then fl_dec T 1 0 else x)"

definition shouldLosePacket :: "('r, 'w, 'cd, 'dd, 'd, 'i, 'f) qn_env \<Rightarrow>
    ('cd, 'dd, 'd, 'i, 'f) UdpTransport \<Rightarrow> bool" where
  "shouldLosePacket E s = en_chance E (fl_clamp01 (en_time E) (ut_lossSim s)) (ut_attempts s)"

text \<open>\<open>if (!shouldLosePacket()) ARC_CO_UNWRAP(co_await m_socket.send(...))\<close>.\<close>

definition socketSend :: "('r, 'w, 'cd, 'dd, 'd, 'i, 'f) qn_env \<Rightarrow> bytes \<Rightarrow>
    ('cd, 'dd, 'd, 'i, 'f) UdpTransport \<Rightarrow> unit TransportResult \<times> ('cd, 'dd, 'd, 'i, 'f) UdpTransport" where
  "socketSend E data s =
     (let lost = shouldLosePacket E s;
          n = ut_attempts s;
          s = s\<lparr>ut_attempts := n + 1\<rparr>
      in if lost then (Ok (), s)
         else case en_send E n data of
             Inl e \<Rightarrow> (Inl e, s)
           | Inr _ \<Rightarrow> (Ok (), s\<lparr>ut_wire := ut_wire s @ [data]\<rparr>))"

section \<open>Fragmentation\<close>

definition relHdrSize :: "DataMessage \<Rightarrow> nat" where
  "relHdrSize msg = (case dm_relHeader msg of None \<Rightarrow> 0 | Some rh \<Rightarrow> 4 + rh_ackCount rh * 2)"

definition compHdrSize :: "DataMessage \<Rightarrow> nat" where
  "compHdrSize msg = (case dm_compHeader msg of None \<Rightarrow> 0 | Some _ \<Rightarrow> 4)"

definition commonHdrSize :: nat where [simp]: "commonHdrSize = 9"
definition fragHdrSize :: nat where [simp]: "fragHdrSize = 4"

definition firstPayloadSize :: "nat \<Rightarrow> DataMessage \<Rightarrow> u64" where
  "firstPayloadSize mtu msg = of_nat mtu - of_nat (relHdrSize msg) - of_nat (compHdrSize msg)
     - of_nat fragHdrSize - of_nat commonHdrSize"

definition restPayloadSize :: "nat \<Rightarrow> u64" where
  "restPayloadSize mtu = of_nat mtu - of_nat fragHdrSize - of_nat commonHdrSize"

definition fragmentDatagram :: "'w byte_writer \<Rightarrow> u64 \<Rightarrow> DataMessage \<Rightarrow> u16 \<Rightarrow> nat \<Rightarrow> bool \<Rightarrow> bytes \<Rightarrow>
    bytes TransportResult" where
  "fragmentDatagram W connectionId msg fragMessageId fragmentIndex isLast chunk =
     (let isFirst = (fragmentIndex = 0) in
      unwrap (must (encodeDataHeader W (Data msg) connectionId (\<not> isFirst) (bw_new W))) (\<lambda>fwriter.
      unwrap (at (bw_written W fwriter) 0) (\<lambda>b.
      let hdrbyte = b OR MSG_DATA_FRAGMENTATION_MASK in
      unwrap (must (bw_performAt W fwriter 0 (\<lambda>writer. bw_writeU8 W writer hdrbyte))) (\<lambda>fwriter.
      let fwriter = bw_writeU16 W fwriter fragMessageId;
          fwriter = bw_writeU16 W fwriter
            (of_nat fragmentIndex OR (if isLast then MSG_DATA_LAST_FRAGMENT_MASK else 0));
          fwriter = bw_writeBytes W fwriter chunk
      in Ok (bw_written W fwriter)))))"

text \<open>The body of the loop over the fragments; the result is the size of the chunk.\<close>

definition sendFragment :: "('r, 'w, 'cd, 'dd, 'd, 'i, 'f) qn_env \<Rightarrow> 'i \<Rightarrow> DataMessage \<Rightarrow> u16 \<Rightarrow> nat \<Rightarrow> nat \<Rightarrow>
    ('cd, 'dd, 'd, 'i, 'f) UdpTransport \<Rightarrow> nat TransportResult \<times> ('cd, 'dd, 'd, 'i, 'f) UdpTransport" where
  "sendFragment E now msg fragMessageId offset fragmentIndex s =
     (let payloadSize = (if fragmentIndex = 0 then firstPayloadSize (ut_mtu s) msg
                         else restPayloadSize (ut_mtu s));
          isLast = (length (dm_data msg) \<le> unat (of_nat offset + payloadSize));
          chunk = take (min (unat payloadSize) (length (dm_data msg) - offset)) (drop offset (dm_data msg))
      in step_then (fragmentDatagram (en_writer E) (bt_connectionId (ut_base s)) msg fragMessageId
                      fragmentIndex isLast chunk, s) (\<lambda>data s.
         step_then (socketSend E data s) (\<lambda>_ s.
         (Ok (length chunk), on_tracker (onUpPacket now (length data)) s))))"

partial_function (option) sendFragments ::
    "('r, 'w, 'cd, 'dd, 'd, 'i, 'f) qn_env \<Rightarrow> 'i \<Rightarrow> DataMessage \<Rightarrow> u16 \<Rightarrow> nat \<Rightarrow> nat \<Rightarrow>
     ('cd, 'dd, 'd, 'i, 'f) UdpTransport \<Rightarrow>
     (unit TransportResult \<times> ('cd, 'dd, 'd, 'i, 'f) UdpTransport) option" where
  "sendFragments E now msg fragMessageId offset fragmentIndex s =
     (if offset < length (dm_data msg) then
        io_then (Some (sendFragment E now msg fragMessageId offset fragmentIndex s)) (\<lambda>n s.
          sendFragments E now msg fragMessageId (offset + n) (fragmentIndex + 1) s)
      else Some (Ok (), s))"

section \<open>Sending a data message\<close>

definition rememberUnacked :: "'i \<Rightarrow> bool \<Rightarrow> DataMessage \<Rightarrow> ('cd, 'dd, 'd, 'i, 'f) UdpTransport \<Rightarrow>
    unit TransportResult \<times> ('cd, 'dd, 'd, 'i, 'f) UdpTransport" where
  "rememberUnacked now isReliable msg s =
     (if isReliable then
        (let (r, st) = pushLocalUnacked now (Data msg) (ut_relStore s) in (r, s\<lparr>ut_relStore := st\<rparr>))
      else (Ok (), s))"

definition doSendUnfragmentedData :: "('r, 'w, 'cd, 'dd, 'd, 'i, 'f) qn_env \<Rightarrow> 'i \<Rightarrow> QunetMessage \<Rightarrow>
    SentMessageContext \<Rightarrow> bool \<Rightarrow> ('cd, 'dd, 'd, 'i, 'f) UdpTransport \<Rightarrow>
    (SentMessageContext TransportResult \<times> ('cd, 'dd, 'd, 'i, 'f) UdpTransport) option" where
  "doSendUnfragmentedData E now message ctx retransmission s =
     (case message of Data msg \<Rightarrow>
        let W = en_writer E;
            isReliable = (case dm_relHeader msg of None \<Rightarrow> False
                          | Some rh \<Rightarrow> rh_messageId rh \<noteq> 0 \<and> \<not> retransmission);
            ctx = ctx\<lparr>cx_relHeader := dm_relHeader msg, cx_reliable := isReliable\<rparr>;
            unfragTotalSize = commonHdrSize + relHdrSize msg + compHdrSize msg + length (dm_data msg)
        in if unfragTotalSize \<le> ut_mtu s then
             Some (
               step_then (must (encodeDataHeader W message (bt_connectionId (ut_base s)) False (bw_new W)), s)
                 (\<lambda>writer s.
               let data = bw_written W (bw_writeBytes W writer (dm_data msg)) in
               step_then (socketSend E data s) (\<lambda>_ s.
               step_then (rememberUnacked now isReliable msg s) (\<lambda>_ s.
               let s = on_base (updateLastActivity now) s;
                   s = on_tracker (onUpPacket now (length data)) s
               in (Ok ctx, s)))))
           else
             let (fragMessageId, st) = FragmentStore_nextMessageId (ut_fragStore s);
                 s = s\<lparr>ut_fragStore := st\<rparr>
             in io_then (sendFragments E now msg fragMessageId 0 0 s) (\<lambda>_ s.
                Some (step_then (rememberUnacked now isReliable msg s) (\<lambda>_ s.
                  (Ok ctx, on_base (updateLastActivity now) s))))
      | _ \<Rightarrow> Some (Inl AssertionFailed, s))"

text \<open>\<open>ReliabilityHeader relHdr{}\<close>.\<close>

definition emptyRelHeader :: ReliabilityHeader where
  "emptyRelHeader = \<lparr>rh_messageId = 0, rh_ackCount = 0, rh_acks = replicate 8 0\<rparr>"

definition takeOutgoingAcks :: "('cd, 'dd, 'd, 'i, 'f) UdpTransport \<Rightarrow>
    ReliabilityHeader \<times> ('cd, 'dd, 'd, 'i, 'f) UdpTransport" where
  "takeOutgoingAcks s =
     (let (relHdr, st) = setOutgoingAcks emptyRelHeader (ut_relStore s)
      in (relHdr, s\<lparr>ut_relStore := st\<rparr>))"

text \<open>A control message: no compression, no fragmentation, no reliability.\<close>

definition sendControl :: "('r, 'w, 'cd, 'dd, 'd, 'i, 'f) qn_env \<Rightarrow> 'i \<Rightarrow> u64 \<Rightarrow> QunetMessage \<Rightarrow>
    ('cd, 'dd, 'd, 'i, 'f) UdpTransport \<Rightarrow> unit TransportResult \<times> ('cd, 'dd, 'd, 'i, 'f) UdpTransport" where
  "sendControl E now stamp message s =
     (let W = en_writer E;
          (message, s) = (case message of
              KeepaliveMessage _ \<Rightarrow> (KeepaliveMessage stamp, on_base (updateLastSentKeepalive now) s)
            | _ \<Rightarrow> (message, s))
      in step_then (mapErr TE_String (encodeControlMsg W message (bt_connectionId (ut_base s)) (bw_new W)), s)
           (\<lambda>writer s.
         step_then (must (padMessageToMinimum W (en_raw E) (ut_padRng s) writer), s) (\<lambda>(rng, writer) s.
         let s = s\<lparr>ut_padRng := rng\<rparr>;
             data = bw_written W writer
         in step_then (socketSend E data s) (\<lambda>_ s.
            let s = on_base (updateLastActivity now) s
            in (Ok (), on_tracker (onUpPacket now (length data)) s)))))"

definition UdpTransport_sendMessage :: "('r, 'w, 'cd, 'dd, 'd, 'i, 'f) qn_env \<Rightarrow> 'i \<Rightarrow> u64 \<Rightarrow> QunetMessage \<Rightarrow>
    SentMessageContext \<Rightarrow> ('cd, 'dd, 'd, 'i, 'f) UdpTransport \<Rightarrow>
    (SentMessageContext TransportResult \<times> ('cd, 'dd, 'd, 'i, 'f) UdpTransport) option" where
  "UdpTransport_sendMessage E now stamp message ctx s =
     (case message of
        Data msg \<Rightarrow>
          let (relHdr, s) = takeOutgoingAcks s;
              (relHdr, s) = (if cx_reliable ctx then
                  (let (n, st) = ReliableStore_nextMessageId (ut_relStore s)
                   in (relHdr\<lparr>rh_messageId := n\<rparr>, s\<lparr>ut_relStore := st\<rparr>))
                else (relHdr, s));
              msg = msg\<lparr>dm_relHeader := (if rh_messageId relHdr \<noteq> 0 \<or> 0 < rh_ackCount relHdr
                        then Some relHdr else None)\<rparr>
          in doSendUnfragmentedData E now (Data msg) ctx False s
      | _ \<Rightarrow> Some (step_then (sendControl E now stamp message s) (\<lambda>_ s. (Ok ctx, s))))"

definition logOutgoing :: "('r, 'w, 'cd, 'dd, 'd, 'i, 'f) qn_env \<Rightarrow> 'i \<Rightarrow> QunetMessage \<Rightarrow> SentMessageContext \<Rightarrow>
    ('cd, 'dd, 'd, 'i, 'f) UdpTransport \<Rightarrow> unit TransportResult \<times> ('cd, 'dd, 'd, 'i, 'f) UdpTransport" where
  "logOutgoing E now msg ctx s =
     step_then (headerByte msg, s) (\<lambda>hb s. (Ok (), on_base (logOutgoingMessage (en_time E) now hb ctx) s))"

text \<open>\<open>BaseTransport::sendMessage(data, reliable)\<close> on this transport: what was sent is logged.\<close>

definition UdpTransport_sendPlain :: "('r, 'w, 'cd, 'dd, 'd, 'i, 'f) qn_env \<Rightarrow> 'i \<Rightarrow> u64 \<Rightarrow> QunetMessage \<Rightarrow> bool \<Rightarrow>
    ('cd, 'dd, 'd, 'i, 'f) UdpTransport \<Rightarrow>
    (unit TransportResult \<times> ('cd, 'dd, 'd, 'i, 'f) UdpTransport) option" where
  "UdpTransport_sendPlain E now stamp data reliable s =
     io_then (UdpTransport_sendMessage E now stamp data (SentMessageContext_new\<lparr>cx_reliable := reliable\<rparr>) s)
       (\<lambda>ctx s. Some (logOutgoing E now data ctx s))"

section \<open>Receiving\<close>

definition clearUnackedKeepalives :: "('cd, 'dd, 'd, 'i, 'f) UdpTransport \<Rightarrow> ('cd, 'dd, 'd, 'i, 'f) UdpTransport" where
  "clearUnackedKeepalives = on_base (\<lambda>b. b\<lparr>bt_unackedKeepalives := 0\<rparr>)"

text \<open>The stages of \<open>processOne\<close> for a data message: reassembly, reliability, decompression.\<close>

definition collectFragment :: "('r, 'w, 'cd, 'dd, 'd, 'i, 'f) qn_env \<Rightarrow> 'i \<Rightarrow> QunetMessageMeta \<Rightarrow>
    ('cd, 'dd, 'd, 'i, 'f) UdpTransport \<Rightarrow>
    QunetMessageMeta option TransportResult \<times> ('cd, 'dd, 'd, 'i, 'f) UdpTransport" where
  "collectFragment E now meta s =
     (case mm_fragmentationHeader meta of
        None \<Rightarrow> (Ok (Some meta), s)
      | Some _ \<Rightarrow>
          (let (r, st) = processFragment (en_time E) (en_order E) now (ut_fragStore s) meta
           in (r, s\<lparr>ut_fragStore := st\<rparr>)))"

definition acceptReliable :: "'i \<Rightarrow> QunetMessageMeta \<Rightarrow> ('cd, 'dd, 'd, 'i, 'f) UdpTransport \<Rightarrow>
    bool TransportResult \<times> ('cd, 'dd, 'd, 'i, 'f) UdpTransport" where
  "acceptReliable now meta s =
     (case mm_reliabilityHeader meta of
        None \<Rightarrow> (Ok True, s)
      | Some _ \<Rightarrow> (let (r, st) = handleIncoming now meta (ut_relStore s) in (r, s\<lparr>ut_relStore := st\<rparr>)))"

definition decodeFinal :: "('r, 'w, 'cd, 'dd, 'd, 'i, 'f) qn_env \<Rightarrow> 'i \<Rightarrow> QunetMessageMeta \<Rightarrow>
    ('cd, 'dd, 'd, 'i, 'f) UdpTransport \<Rightarrow>
    QunetMessage TransportResult \<times> ('cd, 'dd, 'd, 'i, 'f) UdpTransport" where
  "decodeFinal E now meta s =
     (let (r, b) = decodePreFinalDataMessage (en_time E) (en_zstd E) (en_lz4 E) now meta (ut_base s)
      in (r, s\<lparr>ut_base := b\<rparr>))"

definition processOne :: "('r, 'w, 'cd, 'dd, 'd, 'i, 'f) qn_env \<Rightarrow> 'i \<Rightarrow> QunetMessageMeta \<Rightarrow>
    ('cd, 'dd, 'd, 'i, 'f) UdpTransport \<Rightarrow>
    QunetMessage option TransportResult \<times> ('cd, 'dd, 'd, 'i, 'f) UdpTransport" where
  "processOne E now meta s =
     (if mm_type meta \<noteq> MSG_DATA then
        let s = on_tracker (onDownMessage now (mm_type meta) (length (mm_data meta)) None
                  (tm_zero (en_time E)) None) s
        in step_then (mapErr TE_Decode (decodeWithMeta (en_reader E) meta), s) (\<lambda>msg s.
           (Ok (Some msg),
            case msg of KeepaliveResponseMessage _ _ \<Rightarrow> clearUnackedKeepalives s | _ \<Rightarrow> s))
      else
        step_then (collectFragment E now meta s) (\<lambda>recvf s.
        case recvf of
          None \<Rightarrow> (Ok None, s)
        | Some meta \<Rightarrow>
            step_then (acceptReliable now meta s) (\<lambda>accepted s.
            if \<not> accepted then (Ok None, s)
            else step_then (decodeFinal E now meta s) (\<lambda>msg s. (Ok (Some msg), s)))))"

text \<open>The loop over the messages of a datagram: the first message is returned, the others wait.\<close>

function processItems :: "('r, 'w, 'cd, 'dd, 'd, 'i, 'f) qn_env \<Rightarrow> 'i \<Rightarrow> QunetUdpMessageIter \<Rightarrow>
    QunetMessage option \<Rightarrow> ('cd, 'dd, 'd, 'i, 'f) UdpTransport \<Rightarrow>
    QunetMessage option TransportResult \<times> ('cd, 'dd, 'd, 'i, 'f) UdpTransport" where
  "processItems E now iter toReturn s =
     (case QunetUdpMessageIter_next (en_reader E) iter of
        (None, _) \<Rightarrow> (Ok toReturn, s)
      | (Some (Inl e), _) \<Rightarrow> (mapErr TE_Decode (Inl e), s)
      | (Some (Inr meta), iter) \<Rightarrow>
          if mm_type meta = MSG_PADDING then processItems E now iter toReturn s
          else
            (case processOne E now meta s of
               (Inl e, s) \<Rightarrow> (Inl e, s)
             | (Inr None, s) \<Rightarrow> processItems E now iter toReturn s
             | (Inr (Some msg), s) \<Rightarrow>
                 if toReturn = None then processItems E now iter (Some msg) s
                 else processItems E now iter toReturn
                        (s\<lparr>ut_pendingMessages := ut_pendingMessages s @ [msg]\<rparr>)))"
  by pat_completeness auto
termination
  by (relation "measure (\<lambda>(E, now, iter, toReturn, s). length (it_data iter) - it_pos iter)")
    (auto dest!: next_advances [OF sym] intro: diff_less_mono2)

declare processItems.simps [simp del]

text \<open>\<open>receiveMessageInner\<close>: what was queued earlier, then what the reliability layer has restored
  (None when there is neither), and otherwise one datagram of the socket.\<close>

definition receiveQueued :: "('r, 'w, 'cd, 'dd, 'd, 'i, 'f) qn_env \<Rightarrow> 'i \<Rightarrow>
    ('cd, 'dd, 'd, 'i, 'f) UdpTransport \<Rightarrow>
    (QunetMessage TransportResult \<times> ('cd, 'dd, 'd, 'i, 'f) UdpTransport) option" where
  "receiveQueued E now s =
     (case ut_pendingMessages s of
        msg # rest \<Rightarrow> Some (Ok msg, s\<lparr>ut_pendingMessages := rest\<rparr>)
      | [] \<Rightarrow>
          (case popDelayedMessage (ut_relStore s) of
             (Some meta, st) \<Rightarrow> Some (decodeFinal E now meta (s\<lparr>ut_relStore := st\<rparr>))
           | (None, _) \<Rightarrow> None))"

definition receiveDatagram :: "('r, 'w, 'cd, 'dd, 'd, 'i, 'f) qn_env \<Rightarrow> 'i \<Rightarrow> bytes TransportResult \<Rightarrow>
    ('cd, 'dd, 'd, 'i, 'f) UdpTransport \<Rightarrow>
    QunetMessage option TransportResult \<times> ('cd, 'dd, 'd, 'i, 'f) UdpTransport" where
  "receiveDatagram E now recv s =
     step_then (recv, s) (\<lambda>buffer s.
       if buffer = [] then (Err (CustomKind ZeroLengthMessage), s)
       else
         let s = on_tracker (onDownPacket now (length buffer)) s
         in processItems E now (QunetUdpMessageIter_new buffer False) None s)"

text \<open>\<open>receiveMessage\<close> on the sequence of what the socket returns, with the clock readings; the
  first component is None while the call still waits for the socket.\<close>

fun UdpTransport_receiveMessage :: "('r, 'w, 'cd, 'dd, 'd, 'i, 'f) qn_env \<Rightarrow> 'i \<Rightarrow>
    ('i \<times> bytes TransportResult) list \<Rightarrow> ('cd, 'dd, 'd, 'i, 'f) UdpTransport \<Rightarrow>
    QunetMessage TransportResult option \<times> ('i \<times> bytes TransportResult) list
      \<times> ('cd, 'dd, 'd, 'i, 'f) UdpTransport" where
  "UdpTransport_receiveMessage E now recvs s =
     (case receiveQueued E now s of
        Some (r, s) \<Rightarrow> (Some r, recvs, s)
      | None \<Rightarrow>
          (case recvs of
             [] \<Rightarrow> (None, [], s)
           | (now, recv) # recvs \<Rightarrow>
               (case receiveDatagram E now recv s of
                  (Inl e, s) \<Rightarrow> (Some (Inl e), recvs, s)
                | (Inr (Some msg), s) \<Rightarrow> (Some (Ok msg), recvs, s)
                | (Inr None, s) \<Rightarrow> UdpTransport_receiveMessage E now recvs s)))"

declare UdpTransport_receiveMessage.simps [simp del]

section \<open>Timers\<close>

definition untilKeepalive :: "('d, 'i, 'f) time_ops \<Rightarrow> 'i \<Rightarrow> ('cd, 'dd, 'd, 'i, 'f) UdpTransport \<Rightarrow> 'd" where
  "untilKeepalive T now s =
     (let b = ut_base s in
      if 0 < bt_unackedKeepalives b then tm_minus T (tm_fromSecs T 2) (sinceLastActivity T now b)
      else
        let orActive = (\<lambda>dur. case ut_activeKeepaliveInterval s of
              Some i \<Rightarrow> tm_minus T (tm_min T dur i) (sinceLastKeepalive T now b)
            | None \<Rightarrow> tm_minus T dur (sinceLastKeepalive T now b))
        in if bt_totalRttEstimates b = 0 \<or> bt_totalRttEstimates b = 1 then orActive (tm_fromSecs T 3)
           else if bt_totalRttEstimates b = 2 then orActive (tm_fromSecs T 8)
           else if bt_totalRttEstimates b = 3 then orActive (tm_fromSecs T 12)
           else if bt_totalRttEstimates b = 4 then orActive (tm_fromSecs T 20)
           else (case ut_activeKeepaliveInterval s of
               Some i \<Rightarrow> tm_min T (tm_minus T (tm_fromSecs T 30) (sinceLastActivity T now b))
                                  (tm_minus T i (sinceLastKeepalive T now b))
             | None \<Rightarrow> tm_minus T (tm_fromSecs T 30) (sinceLastActivity T now b)))"

definition UdpTransport_untilTimerExpiry :: "('d, 'i, 'f) time_ops \<Rightarrow> 'i \<Rightarrow>
    ('cd, 'dd, 'd, 'i, 'f) UdpTransport \<Rightarrow> 'd" where
  "UdpTransport_untilTimerExpiry T now s =
     tm_min T (ReliableStore_untilTimerExpiry T now (ut_relStore s)) (untilKeepalive T now s)"

definition UdpTransport_updateLatency :: "('d, 'i, 'f) time_ops \<Rightarrow> 'g double_ops \<Rightarrow> 'd \<Rightarrow>
    ('cd, 'dd, 'd, 'i, 'f) UdpTransport \<Rightarrow> ('cd, 'dd, 'd, 'i, 'f) UdpTransport" where
  "UdpTransport_updateLatency T D rtt s =
     (let s = on_base (BaseTransport_updateLatency T D rtt) s
      in s\<lparr>ut_relStore := updateRtt (bt_latestRttMicros (ut_base s)) (ut_relStore s)\<rparr>)"

partial_function (option) retransmitDue :: "('r, 'w, 'cd, 'dd, 'd, 'i, 'f) qn_env \<Rightarrow> 'i \<Rightarrow>
    ('cd, 'dd, 'd, 'i, 'f) UdpTransport \<Rightarrow>
    (unit TransportResult \<times> ('cd, 'dd, 'd, 'i, 'f) UdpTransport) option" where
  "retransmitDue E now s =
     (let (r, st) = maybeRetransmit (en_time E) now (ut_relStore s);
          s = s\<lparr>ut_relStore := st\<rparr>
      in io_then (Some (r, s)) (\<lambda>due s.
         case due of
           None \<Rightarrow> Some (Ok (), s)
         | Some msg \<Rightarrow>
             io_then (doSendUnfragmentedData E now msg SentMessageContext_new True s) (\<lambda>ctx s.
             io_then (Some (logOutgoing E now msg ctx s)) (\<lambda>_ s.
             retransmitDue E now s))))"

definition sendUrgentAcks :: "('r, 'w, 'cd, 'dd, 'd, 'i, 'f) qn_env \<Rightarrow> 'i \<Rightarrow>
    ('cd, 'dd, 'd, 'i, 'f) UdpTransport \<Rightarrow>
    (unit TransportResult \<times> ('cd, 'dd, 'd, 'i, 'f) UdpTransport) option" where
  "sendUrgentAcks E now s =
     (if hasUrgentOutgoingAcks (en_time E) now (ut_relStore s) then
        let (relHdr, s) = takeOutgoingAcks s;
            msg = Data \<lparr>dm_data = [], dm_compHeader = None, dm_relHeader = Some relHdr\<rparr>
        in io_then (doSendUnfragmentedData E now msg SentMessageContext_new False s) (\<lambda>ctx s.
             Some (logOutgoing E now msg ctx s))
      else Some (Ok (), s))"

definition UdpTransport_handleTimerExpiry :: "('r, 'w, 'cd, 'dd, 'd, 'i, 'f) qn_env \<Rightarrow> 'i \<Rightarrow> u64 \<Rightarrow>
    ('cd, 'dd, 'd, 'i, 'f) UdpTransport \<Rightarrow>
    (unit TransportResult \<times> ('cd, 'dd, 'd, 'i, 'f) UdpTransport) option" where
  "UdpTransport_handleTimerExpiry E now stamp s =
     io_then (Some (BaseTransport_handleTimerExpiry (ut_base s), s)) (\<lambda>_ s.
     io_then (retransmitDue E now s) (\<lambda>_ s.
     io_then (sendUrgentAcks E now s) (\<lambda>_ s.
     if tm_isZero (en_time E) (untilKeepalive (en_time E) now s)
     then UdpTransport_sendPlain E now stamp (KeepaliveMessage 0) False s
     else Some (Ok (), s))))"

end
