(* ===== verification/Udp_Sending.thy ===== *)
theory Udp_Sending
  imports Udp_Transport
begin

text \<open>
  What the UDP transport puts on the wire: a message that does not fit the MTU leaves as fragments
  that fit it, the server decodes them as fragments of that message, and in whatever order they
  arrive the receiver's store gives the message back.
\<close>

section \<open>Cutting the payload\<close>

function cut :: "nat \<Rightarrow> bytes \<Rightarrow> bytes list" where
  "cut n xs = (if xs = [] \<or> n = 0 then [] else take n xs # cut n (drop n xs))"
  by pat_completeness auto
termination
  by (relation "measure (\<lambda>(n, xs). length xs)") auto

declare cut.simps [simp del]

lemma cut_Nil [simp]: "cut n [] = []"
  by (simp add: cut.simps)

lemma cut_step: "xs \<noteq> [] \<Longrightarrow> 0 < n \<Longrightarrow> cut n xs = take n xs # cut n (drop n xs)"
  by (subst cut.simps) simp

lemma cut_empty_iff: "0 < n \<Longrightarrow> cut n xs = [] \<longleftrightarrow> xs = []"
  by (subst cut.simps) auto

lemma concat_cut: "0 < n \<Longrightarrow> concat (cut n xs) = xs"
proof (induction n xs rule: cut.induct)
  case (1 n xs)
  then show ?case
    by (cases "xs = []") (simp_all add: cut_step)
qed

lemma length_cut_le: "p \<in> set (cut n xs) \<Longrightarrow> length p \<le> n"
proof (induction n xs rule: cut.induct)
  case (1 n xs)
  then show ?case
    by (subst (asm) cut.simps) (auto split: if_splits)
qed

definition pieces :: "nat \<Rightarrow> nat \<Rightarrow> bytes \<Rightarrow> bytes list" where
  "pieces f r xs = take f xs # cut r (drop f xs)"

section \<open>The datagrams of the fragments\<close>

definition fragComp :: "DataMessage \<Rightarrow> nat \<Rightarrow> CompressionHeader option" where
  "fragComp m i = (if i = 0 then dm_compHeader m else None)"

definition fragRel :: "DataMessage \<Rightarrow> nat \<Rightarrow> ReliabilityHeader option" where
  "fragRel m i = (if i = 0 then dm_relHeader m else None)"

definition wire_fragment :: "byte_codec \<Rightarrow> u64 \<Rightarrow> DataMessage \<Rightarrow> u16 \<Rightarrow> nat \<Rightarrow> bool \<Rightarrow> bytes \<Rightarrow> bytes" where
  "wire_fragment C cid m k i isLast p =
     header_bits (fragComp m i) (fragRel m i \<noteq> None) True
       # wire_comp C (fragComp m i) @ wire_conn C cid @ wire_rel C (fragRel m i)
       @ wire_frag C (Some \<lparr>fh_messageId = k, fh_fragmentIndex = of_nat i, fh_lastFragment = isLast\<rparr>) @ p"

fun wire_fragments :: "byte_codec \<Rightarrow> u64 \<Rightarrow> DataMessage \<Rightarrow> u16 \<Rightarrow> nat \<Rightarrow> bytes list \<Rightarrow> bytes list" where
  "wire_fragments C cid m k i [] = []"
| "wire_fragments C cid m k i (p # ps) =
     wire_fragment C cid m k i (ps = []) p # wire_fragments C cid m k (Suc i) ps"

lemma length_wire_fragments [simp]: "length (wire_fragments C cid m k i ps) = length ps"
  by (induction ps arbitrary: i) auto

lemma nth_wire_fragments:
  "j < length ps \<Longrightarrow> wire_fragments C cid m k i ps ! j
     = wire_fragment C cid m k (i + j) (Suc j = length ps) (ps ! j)"
  by (induction ps arbitrary: i j) (auto simp: nth_Cons split: nat.split)

lemma header_bits_or_frag:
  "header_bits cmp rel False OR MSG_DATA_FRAGMENTATION_MASK = header_bits cmp rel True"
  by (simp add: header_bits_def or.assoc)

lemma header_bits_none: "header_bits None False False = MSG_DATA"
  by (simp add: header_bits_def)

context dbuf_laws
begin

lemma fragmentDatagram_wire:
  assumes "sendable_rel (dm_relHeader m)"
  shows "fragmentDatagram W cid m k i isLast p = Ok (wire_fragment C cid m k i isLast p)"
proof -
  let ?hb = "header_bits (fragComp m i) (fragRel m i \<noteq> None) False"
  let ?body = "wire_comp C (fragComp m i) @ wire_conn C cid @ wire_rel C (fragRel m i)"
  obtain w where enc: "encodeDataHeader W (Data m) cid (\<not> i = 0) (bw_new W) = Inr w"
    and h: "holds w (?hb # ?body)"
  proof (cases "i = 0")
    case True
    then show thesis
      using that encodeDataHeader_holds [OF holds_new sendable_wf_rel [OF assms], of cid]
      by (auto simp: fragComp_def fragRel_def)
  next
    case False
    then show thesis
      using that encodeDataHeader_omit [OF holds_new, of m cid]
      by (auto simp: fragComp_def fragRel_def header_bits_none wire_comp_def wire_rel_def)
  qed
  have wr: "bw_written W w = ?hb # ?body"
    using h by (rule holds_writtenD)
  have "0 < length (bw_written W w)"
    by (simp add: wr)
  from performAt_U8 [OF this, of "?hb OR MSG_DATA_FRAGMENTATION_MASK"] obtain w1
    where p: "bw_performAt W w 0 (\<lambda>v. bw_writeU8 W v (?hb OR MSG_DATA_FRAGMENTATION_MASK)) = Inr w1"
      and w1: "bw_written W w1 = memcpy_at (bw_written W w) 0 [?hb OR MSG_DATA_FRAGMENTATION_MASK]"
      "bw_position W w1 = bw_position W w"
    by blast
  have "holds w1 (header_bits (fragComp m i) (fragRel m i \<noteq> None) True # ?body)"
    using h w1 by (simp add: holds_def memcpy_at_def header_bits_or_frag del: MSG_DATA_FRAGMENTATION_MASK_def)
  then have "holds (bw_writeBytes W (bw_writeU16 W (bw_writeU16 W w1 k)
        (of_nat i OR (if isLast then MSG_DATA_LAST_FRAGMENT_MASK else 0))) p)
      ((((header_bits (fragComp m i) (fragRel m i \<noteq> None) True # ?body) @ put16 C k)
        @ put16 C (of_nat i OR (if isLast then MSG_DATA_LAST_FRAGMENT_MASK else 0))) @ p)"
    by (intro holds_writeBytes holds_writeU16)
  then show ?thesis
    using enc p wr
    by (simp add: fragmentDatagram_def Let_def holds_writtenD wire_fragment_def wire_frag_def frag_word_def
        del: MSG_DATA_FRAGMENTATION_MASK_def)
qed

lemma wire_fragment_decodes:
  assumes "wf_comp (dm_compHeader m)" "sendable_rel (dm_relHeader m)"
    and "cid = 0 \<or> dm_compHeader m = None" and "i < 32768"
  shows "\<exists>off. decodeMeta R (wire_fragment C cid m k i isLast p) udp (cid \<noteq> 0) =
     Ok \<lparr>mm_type = MSG_DATA, mm_compressionHeader = fragComp m i,
         mm_reliabilityHeader = acked_rel (fragRel m i),
         mm_fragmentationHeader = Some \<lparr>fh_messageId = k, fh_fragmentIndex = of_nat i,
           fh_lastFragment = isLast\<rparr>,
         mm_data = p, mm_dataOffset = off\<rparr>"
proof -
  let ?fh = "Some \<lparr>fh_messageId = k, fh_fragmentIndex = of_nat i, fh_lastFragment = isLast\<rparr>"
  have wf: "wf_comp (fragComp m i)" "wf_rel (fragRel m i)" "wf_frag ?fh"
    using assms sendable_wf_rel [OF assms(2)]
    by (auto simp: fragComp_def fragRel_def wf_defs word_less_nat_alt unat_of_nat take_bit_eq_mod)
  have conn: "length (wire_conn C cid) = (if cid \<noteq> 0 then 8 else 0)"
    by (simp add: wire_conn_def)
  have swap: "wire_comp C (fragComp m i) @ wire_conn C cid @ xs
     = wire_conn C cid @ wire_comp C (fragComp m i) @ xs" for xs
    using assms(3) by (auto simp: wire_comp_def wire_conn_def fragComp_def)
  show ?thesis
    using decodeMeta_wire [OF wf conn, of p udp]
    unfolding wire_fragment_def swap by simp
qed

lemma length_wire_fragment:
  assumes "sendable_rel (dm_relHeader m)"
  shows "length (wire_fragment C cid m k i isLast p) \<le>
     (if i = 0 then relHdrSize m + compHdrSize m else 0) + 13 + length p"
  using assms
  by (auto simp: wire_fragment_def wire_defs wire_conn_def fragComp_def fragRel_def relHdrSize_def
      compHdrSize_def sendable_rel_def sent_acks_def split: option.split)

end

section \<open>The loop over the fragments\<close>

text \<open>A socket that accepts every datagram, with the loss simulation off.\<close>

definition lossless :: "('r, 'w, 'cd, 'dd, 'd, 'i, 'f) qn_env \<Rightarrow> bool" where
  "lossless E \<longleftrightarrow> (\<forall>p n. \<not> en_chance E p n) \<and> (\<forall>n d. en_send E n d = Ok ())"

text \<open>The state after the datagrams \<open>ds\<close> went out.\<close>

definition sent_on :: "bytes list \<Rightarrow> ('cd, 'dd, 'd, 'i, 'f) UdpTransport \<Rightarrow>
    ('cd, 'dd, 'd, 'i, 'f) UdpTransport \<Rightarrow> bool" where
  "sent_on ds s s' \<longleftrightarrow> ut_wire s' = ut_wire s @ ds \<and> ut_mtu s' = ut_mtu s \<and>
     ut_relStore s' = ut_relStore s \<and> ut_fragStore s' = ut_fragStore s \<and>
     bt_connectionId (ut_base s') = bt_connectionId (ut_base s)"

lemma sent_on_trans: "sent_on ds s s' \<Longrightarrow> sent_on ds' s' s'' \<Longrightarrow> sent_on (ds @ ds') s s''"
  by (simp add: sent_on_def)

lemma sent_on_refl: "sent_on [] s s"
  by (simp add: sent_on_def)

lemma socketSend_lossless:
  "lossless E \<Longrightarrow> socketSend E data s =
     (Ok (), s\<lparr>ut_attempts := ut_attempts s + 1, ut_wire := ut_wire s @ [data]\<rparr>)"
  by (simp add: lossless_def socketSend_def shouldLosePacket_def Let_def)

lemma unat_of_size: "n < 2 ^ 63 \<Longrightarrow> unat (of_nat n :: u64) = n"
  by (simp add: unat_of_nat)

lemma restPayload_unat:
  assumes "13 < mtu" "mtu < 2 ^ 63"
  shows "unat (restPayloadSize mtu) = mtu - 13"
proof -
  have "restPayloadSize mtu = of_nat (mtu - 13)"
    using assms by (simp add: restPayloadSize_def of_nat_diff)
  then show ?thesis
    using assms(2) by (simp add: unat_of_size)
qed

lemma firstPayload_unat:
  assumes "relHdrSize m + compHdrSize m + 13 < mtu" "mtu < 2 ^ 63"
  shows "unat (firstPayloadSize mtu m) = mtu - 13 - relHdrSize m - compHdrSize m"
proof -
  have "firstPayloadSize mtu m = of_nat (mtu - 13 - relHdrSize m - compHdrSize m)"
    using assms by (simp add: firstPayloadSize_def of_nat_diff)
  then show ?thesis
    using assms(2) by (simp add: unat_of_size)
qed

lemma last_test:
  fixes payload :: u64
  assumes "off < 2 ^ 63" "unat payload < 2 ^ 63"
  shows "unat (of_nat off + payload) = off + unat payload"
proof -
  have "unat (of_nat off :: u64) = off"
    using assms(1) by (simp add: unat_of_size)
  then show ?thesis
    using assms by (subst unat_plus_simple [THEN iffD1]) (simp_all add: no_olen_add_nat)
qed

context dbuf_laws
begin

lemma sendFragment_lossless:
  assumes net: "lossless E" and W: "en_writer E = W" and rel: "sendable_rel (dm_relHeader m)"
    and pay: "unat (if i = 0 then firstPayloadSize (ut_mtu s) m else restPayloadSize (ut_mtu s)) = n"
    and small: "n < 2 ^ 63" "length (dm_data m) < 2 ^ 63" "off < length (dm_data m)"
  shows "\<exists>s'. sendFragment E now m k off i s = (Ok (length (take n (drop off (dm_data m)))), s') \<and>
     sent_on [wire_fragment C (bt_connectionId (ut_base s)) m k i
       (drop n (drop off (dm_data m)) = []) (take n (drop off (dm_data m)))] s s'"
proof -
  have l: "(length (dm_data m) \<le> unat (of_nat off + (if i = 0 then firstPayloadSize (ut_mtu s) m
      else restPayloadSize (ut_mtu s)))) = (drop n (drop off (dm_data m)) = [])"
    using last_test [of off "if i = 0 then firstPayloadSize (ut_mtu s) m else restPayloadSize (ut_mtu s)"]
      pay small by auto
  have t: "take (min n (length (dm_data m) - off)) (drop off (dm_data m)) = take n (drop off (dm_data m))"
    by (simp add: min_def)
  show ?thesis
    unfolding sendFragment_def Let_def l pay t W fragmentDatagram_wire [OF rel]
    by (simp add: socketSend_lossless [OF net] sent_on_def on_tracker_def on_base_def)
qed

lemma sendFragments_rest:
  assumes net: "lossless E" and W: "en_writer E = W" and rel: "sendable_rel (dm_relHeader m)"
    and mtu: "13 < ut_mtu s" "ut_mtu s < 2 ^ 63" and small: "length (dm_data m) < 2 ^ 63"
    and i: "0 < i"
  shows "\<exists>s'. sendFragments E now m k off i s = Some (Ok (), s') \<and>
     sent_on (wire_fragments C (bt_connectionId (ut_base s)) m k i
       (cut (ut_mtu s - 13) (drop off (dm_data m)))) s s'"
  using mtu i
proof (induction "length (dm_data m) - off" arbitrary: off i s rule: less_induct)
  case less
  let ?n = "ut_mtu s - 13" and ?xs = "drop off (dm_data m)"
  show ?case
  proof (cases "off < length (dm_data m)")
    case False
    then show ?thesis
      by (simp add: sendFragments.simps sent_on_refl)
  next
    case True
    have n: "unat (if i = 0 then firstPayloadSize (ut_mtu s) m else restPayloadSize (ut_mtu s)) = ?n"
      using less.prems by (simp add: restPayload_unat)
    have "?n < 2 ^ 63"
      using less.prems(2) by simp
    from sendFragment_lossless [OF net W rel n this small True] obtain s1
      where s1: "sendFragment E now m k off i s = (Ok (length (take ?n ?xs)), s1)"
        and on1: "sent_on [wire_fragment C (bt_connectionId (ut_base s)) m k i (drop ?n ?xs = [])
            (take ?n ?xs)] s s1"
      by blast
    have same: "ut_mtu s1 = ut_mtu s" "bt_connectionId (ut_base s1) = bt_connectionId (ut_base s)"
      using on1 by (simp_all add: sent_on_def)
    have "length (dm_data m) - (off + length (take ?n ?xs)) < length (dm_data m) - off"
      using True less.prems(1) by simp
    from less.hyps [OF this, of s1 "i + 1"] obtain s2
      where s2: "sendFragments E now m k (off + length (take ?n ?xs)) (i + 1) s1 = Some (Ok (), s2)"
        and on2: "sent_on (wire_fragments C (bt_connectionId (ut_base s1)) m k (i + 1)
            (cut (ut_mtu s1 - 13) (drop (off + length (take ?n ?xs)) (dm_data m)))) s1 s2"
      using less.prems same by auto
    have ne: "?xs \<noteq> []" "0 < ?n"
      using True less.prems(1) by simp_all
    have "drop (off + length (take ?n ?xs)) (dm_data m) = drop ?n ?xs"
      by (simp add: min_def add.commute)
    then have "wire_fragments C (bt_connectionId (ut_base s)) m k i (cut ?n ?xs) =
       wire_fragment C (bt_connectionId (ut_base s)) m k i (drop ?n ?xs = []) (take ?n ?xs)
         # wire_fragments C (bt_connectionId (ut_base s1)) m k (i + 1)
             (cut (ut_mtu s1 - 13) (drop (off + length (take ?n ?xs)) (dm_data m)))"
      using ne same by (simp add: cut_step cut_empty_iff)
    then show ?thesis
      using True s1 s2 sent_on_trans [OF on1 on2] by (subst sendFragments.simps) simp
  qed
qed

lemma sendFragments_all:
  assumes net: "lossless E" and W: "en_writer E = W" and rel: "sendable_rel (dm_relHeader m)"
    and mtu: "relHdrSize m + compHdrSize m + 13 < ut_mtu s" "ut_mtu s < 2 ^ 63"
    and small: "length (dm_data m) < 2 ^ 63" and ne: "dm_data m \<noteq> []"
  shows "\<exists>s'. sendFragments E now m k 0 0 s = Some (Ok (), s') \<and>
     sent_on (wire_fragments C (bt_connectionId (ut_base s)) m k 0
       (pieces (ut_mtu s - 13 - relHdrSize m - compHdrSize m) (ut_mtu s - 13) (dm_data m))) s s'"
proof -
  let ?n = "ut_mtu s - 13 - relHdrSize m - compHdrSize m"
  have n: "unat (if (0 :: nat) = 0 then firstPayloadSize (ut_mtu s) m else restPayloadSize (ut_mtu s)) = ?n"
    using mtu by (simp add: firstPayload_unat)
  have "?n < 2 ^ 63" "0 < length (dm_data m)"
    using mtu(2) ne by simp_all
  from sendFragment_lossless [OF net W rel n this(1) small this(2)] obtain s1
    where s1: "sendFragment E now m k 0 0 s = (Ok (length (take ?n (dm_data m))), s1)"
      and on1: "sent_on [wire_fragment C (bt_connectionId (ut_base s)) m k 0 (drop ?n (dm_data m) = [])
          (take ?n (dm_data m))] s s1"
    by auto
  have same: "ut_mtu s1 = ut_mtu s" "bt_connectionId (ut_base s1) = bt_connectionId (ut_base s)"
    using on1 by (simp_all add: sent_on_def)
  have "13 < ut_mtu s1" "ut_mtu s1 < 2 ^ 63"
    using mtu same by simp_all
  from sendFragments_rest [OF net W rel this small, of 1 now k "length (take ?n (dm_data m))"]
  obtain s2 where s2: "sendFragments E now m k (length (take ?n (dm_data m))) 1 s1 = Some (Ok (), s2)"
    and on2: "sent_on (wire_fragments C (bt_connectionId (ut_base s1)) m k 1
        (cut (ut_mtu s1 - 13) (drop (length (take ?n (dm_data m))) (dm_data m)))) s1 s2"
    by auto
  have "drop (length (take ?n (dm_data m))) (dm_data m) = drop ?n (dm_data m)"
    by (simp add: min_def)
  moreover have "0 < ut_mtu s - 13"
    using mtu by simp
  ultimately have "wire_fragments C (bt_connectionId (ut_base s)) m k 0
       (pieces ?n (ut_mtu s - 13) (dm_data m)) =
     wire_fragment C (bt_connectionId (ut_base s)) m k 0 (drop ?n (dm_data m) = []) (take ?n (dm_data m))
       # wire_fragments C (bt_connectionId (ut_base s1)) m k 1
           (cut (ut_mtu s1 - 13) (drop (length (take ?n (dm_data m))) (dm_data m)))"
    using same by (simp add: pieces_def cut_empty_iff)
  then show ?thesis
    using ne s1 s2 sent_on_trans [OF on1 on2] by (subst sendFragments.simps) simp
qed

end

section \<open>From the sender to the receiver\<close>

lemma length_cut_bound: "length xs \<le> b * n \<Longrightarrow> length (cut n xs) \<le> b"
proof (induction n xs arbitrary: b rule: cut.induct)
  case (1 n xs)
  show ?case
  proof (cases "xs = [] \<or> n = 0")
    case True
    then show ?thesis
      by (subst cut.simps) auto
  next
    case False
    then obtain c where b: "b = Suc c"
      using "1.prems" by (cases b) auto
    with 1 False have "length (cut n (drop n xs)) \<le> c"
      by (intro "1.IH") auto
    with False b show ?thesis
      by (simp add: cut_step)
  qed
qed

lemma concat_pieces: "0 < r \<Longrightarrow> concat (pieces f r xs) = xs"
  by (simp add: pieces_def concat_cut)

lemma length_pieces: "length xs \<le> b * r \<Longrightarrow> length (pieces f r xs) \<le> b + 1"
  using length_cut_bound [of "drop f xs" b r] by (simp add: pieces_def)

lemma length_piece:
  assumes "i < length (pieces f r xs)"
  shows "length (pieces f r xs ! i) \<le> (if i = 0 then f else r)"
  using assms length_cut_le [of _ r "drop f xs"]
  by (cases i) (auto simp: pieces_def)

text \<open>Fragments that arrive in the order \<open>js\<close>, each at a time.\<close>

lemma permuted_fragments:
  assumes "visits_all ord" and "timely T clk" and "fs_inv st" and "fs_messages st k = None"
    and ps: "length ps \<le> 65536" "ps \<noteq> []"
    and frag: "\<And>i. i < length ps \<Longrightarrow> is_fragment k cmp rel ps i (f i)"
    and js: "distinct js" "set js = {0..<length ps}" and ts: "length ts = length js" "set ts \<subseteq> clk"
  shows "\<exists>rs st'. receiveFragments T ord st (zip ts (map f js)) = (rs, st') \<and>
     last rs = Ok (Some \<lparr>mm_type = 0, mm_compressionHeader = cmp, mm_reliabilityHeader = rel,
                mm_fragmentationHeader = None, mm_data = concat ps, mm_dataOffset = 0\<rparr>) \<and>
     length rs = length ps \<and> (\<forall>n < length ps - 1. rs ! n = Ok None)"
proof -
  let ?evs = "zip ts (map f js)"
  have ix: "of_message k (f i)" "index_of (f i) = i" if "i < length ps" for i
    using frag [OF that] ps(1) that
    by (auto simp: is_fragment_def of_message_def index_of_def unat_of_nat_u16)
  have len: "length js = length ps"
    using distinct_card [OF js(1)] js(2) by simp
  then have ne: "js \<noteq> []" "ts \<noteq> []"
    using ps(2) ts(1) by auto
  obtain js' j where jj: "js = js' @ [j]"
    using ne(1) by (metis append_butlast_last_id)
  obtain ts' t where tt: "ts = ts' @ [t]"
    using ne(2) by (metis append_butlast_last_id)
  have l: "length ts' = length js'"
    using ts(1) jj tt by simp
  have ev: "?evs = zip ts' (map f js') @ [(t, f j)]"
    using l by (simp add: jj tt)
  have snds: "snd ` set (zip ts' (map f js')) = f ` set js'"
    using l by (metis list.set_map map_snd_zip length_map)
  have fsts: "fst ` set ?evs \<subseteq> clk"
    using ts by (auto dest: set_zip_leftD)
  have small: "\<And>i. i \<in> set js \<Longrightarrow> i < length ps"
    using js(2) by simp
  have j: "j < length ps" and js': "\<And>i. i \<in> set js' \<Longrightarrow> i < length ps"
    using small jj by auto
  have idx: "(index_of \<circ> f) ` set js' = set js'"
    using ix(2) [OF js'] by force
  have "{m \<in> f ` set js'. of_message k m} = f ` set js'"
    using ix(1) [OF js'] by blast
  then have arr': "arrived k (zip ts' (map f js')) = set js'"
    using idx by (simp only: arrived_def snds image_comp)
  have arr: "arrived k (zip ts' (map f js') @ [(t, f j)]) = {0..<length ps}"
  proof -
    have "{m \<in> snd ` set (zip ts' (map f js') @ [(t, f j)]). of_message k m}
       = insert (f j) {m \<in> snd ` set (zip ts' (map f js')). of_message k m}"
      using ix(1) [OF j] by auto
    then have "arrived k (zip ts' (map f js') @ [(t, f j)]) = insert j (set js')"
      using arr' ix(2) [OF j] by (simp add: arrived_def)
    then show ?thesis
      using js(2) jj by simp
  qed
  have sub: "arrived k (zip ts' (map f js')) \<subset> {0..<length ps}"
    using arr' js jj by auto
  have all: "\<forall>ev\<in>set (zip ts' (map f js') @ [(t, f j)]). arrival k cmp rel ps clk ev"
  proof
    fix ev assume e: "ev \<in> set (zip ts' (map f js') @ [(t, f j)])"
    then have "fst ev \<in> clk"
      using fsts ev by (metis image_subset_iff)
    moreover obtain i where "i < length ps" "snd ev = f i"
      using e snds js' j by (auto dest!: set_zip_rightD)
    ultimately show "arrival k cmp rel ps clk ev"
      using frag ix by (auto simp: arrival_def is_fragment_def)
  qed
  obtain rs st' where run: "receiveFragments T ord st ?evs =
       (rs @ [Ok (Some \<lparr>mm_type = 0, mm_compressionHeader = cmp, mm_reliabilityHeader = rel,
                mm_fragmentationHeader = None, mm_data = concat ps, mm_dataOffset = 0\<rparr>)], st')"
    and lr: "length rs = length (zip ts' (map f js'))"
    and none: "\<forall>n<length (zip ts' (map f js')). of_message k (snd (zip ts' (map f js') ! n)) \<longrightarrow> rs ! n = Ok None"
    using fragments_reassembled [OF assms(1) ps(1) assms(2-4) all ix(1) [OF j] sub arr] unfolding ev by blast
  have lens: "length js' = length ps - 1" "length rs = length ps - 1"
    using lr l len jj by simp_all
  have "rs ! n = Ok None" if n: "n < length ps - 1" for n
    using none n l lens ix(1) [OF js'] by simp
  then show ?thesis
    using run lens ps(2) by (auto simp: nth_append)
qed

context dbuf_laws
begin

lemma fragmented_send:
  assumes net: "lossless E" and W: "en_writer E = W"
    and wf: "wf_comp (dm_compHeader m)" and rel: "sendable_rel (dm_relHeader m)"
    and mtu: "relHdrSize m + compHdrSize m + 13 < ut_mtu s" "ut_mtu s \<le> 65535"
    and big: "ut_mtu s < 9 + relHdrSize m + compHdrSize m + length (dm_data m)"
    and room: "length (rs_localUnacked (ut_relStore s)) < 64"
  defines "ps \<equiv> pieces (ut_mtu s - 13 - relHdrSize m - compHdrSize m) (ut_mtu s - 13) (dm_data m)"
  assumes small: "length (dm_data m) < 2 ^ 63"
  shows "\<exists>ctx' s'. doSendUnfragmentedData E now (Data m) ctx re s = Some (Ok ctx', s') \<and>
     ut_wire s' = ut_wire s @ wire_fragments C (bt_connectionId (ut_base s)) m
       (fs_nextMessageId (ut_fragStore s)) 0 ps \<and>
     fs_nextMessageId (ut_fragStore s') = fs_nextMessageId (ut_fragStore s) + 1"
proof -
  let ?s = "s\<lparr>ut_fragStore := (ut_fragStore s)\<lparr>fs_nextMessageId := fs_nextMessageId (ut_fragStore s) + 1\<rparr>\<rparr>"
  have ne: "dm_data m \<noteq> []"
    using mtu(1) big by auto
  have "relHdrSize m + compHdrSize m + 13 < ut_mtu ?s" "ut_mtu ?s < 2 ^ 63"
    using mtu by simp_all
  from sendFragments_all [OF net W rel this small ne, of now "fs_nextMessageId (ut_fragStore s)"]
  obtain s1 where s1: "sendFragments E now m (fs_nextMessageId (ut_fragStore s)) 0 0 ?s = Some (Ok (), s1)"
    and on: "sent_on (wire_fragments C (bt_connectionId (ut_base s)) m
       (fs_nextMessageId (ut_fragStore s)) 0 ps) ?s s1"
    by (auto simp: ps_def)
  have st: "ut_relStore s1 = ut_relStore s"
    "ut_fragStore s1 = (ut_fragStore s)\<lparr>fs_nextMessageId := fs_nextMessageId (ut_fragStore s) + 1\<rparr>"
    "ut_wire s1 = ut_wire s @ wire_fragments C (bt_connectionId (ut_base s)) m
       (fs_nextMessageId (ut_fragStore s)) 0 ps"
    using on by (simp_all add: sent_on_def)
  show ?thesis
    using big s1 st room
    by (auto simp: doSendUnfragmentedData_def FragmentStore_nextMessageId_def rememberUnacked_def
        pushLocalUnacked_def on_base_def Let_def split: option.split)
qed

lemma fragments_sent_and_received:
  assumes net: "lossless E" and W: "en_writer E = W"
    and wf: "wf_comp (dm_compHeader m)" and rel: "sendable_rel (dm_relHeader m)"
    and layout: "bt_connectionId (ut_base s) = 0 \<or> dm_compHeader m = None"
    and mtu: "relHdrSize m + compHdrSize m + 13 < ut_mtu s" "ut_mtu s \<le> 65535"
    and big: "ut_mtu s < 9 + relHdrSize m + compHdrSize m + length (dm_data m)"
    and cnt: "length (dm_data m) \<le> 32767 * (ut_mtu s - 13)"
    and room: "length (rs_localUnacked (ut_relStore s)) < 64"
    and rcv: "visits_all ord" "timely T clk" "fs_inv st"
    and fresh: "fs_messages st (fs_nextMessageId (ut_fragStore s)) = None"
  shows "\<exists>ctx' s' ds. doSendUnfragmentedData E now (Data m) ctx re s = Some (Ok ctx', s') \<and>
     ut_wire s' = ut_wire s @ ds \<and> (\<forall>d\<in>set ds. length d \<le> ut_mtu s) \<and>
     (\<forall>js ts. distinct js \<and> set js = {0..<length ds} \<and> length ts = length js \<and> set ts \<subseteq> clk \<longrightarrow>
       (\<exists>metas rs st'. list_all2 (\<lambda>j meta. decodeMeta R (ds ! j) True (bt_connectionId (ut_base s) \<noteq> 0)
            = Ok meta) js metas \<and>
          receiveFragments T ord st (zip ts metas) = (rs, st') \<and>
          last rs = Ok (Some \<lparr>mm_type = 0, mm_compressionHeader = dm_compHeader m,
            mm_reliabilityHeader = acked_rel (dm_relHeader m), mm_fragmentationHeader = None,
            mm_data = dm_data m, mm_dataOffset = 0\<rparr>)))"
proof -
  define r where "r = ut_mtu s - 13"
  define f where "f = r - relHdrSize m - compHdrSize m"
  define ps where "ps = pieces f r (dm_data m)"
  define k where "k = fs_nextMessageId (ut_fragStore s)"
  define cid where "cid = bt_connectionId (ut_base s)"
  define ds where "ds = wire_fragments C cid m k 0 ps"
  have small: "length (dm_data m) < 2 ^ 63"
    using cnt mtu(2) by simp
  obtain ctx' s' where send: "doSendUnfragmentedData E now (Data m) ctx re s = Some (Ok ctx', s')"
    and wire: "ut_wire s' = ut_wire s @ ds"
    using fragmented_send [OF net W wf rel mtu big room small, of now ctx re]
    unfolding ds_def ps_def f_def r_def k_def cid_def by blast
  have r: "0 < r"
    using mtu(1) by (simp add: r_def)
  have lp: "length ps \<le> 32768" "ps \<noteq> []" "concat ps = dm_data m"
    using length_pieces [of "dm_data m" 32767 r f] cnt concat_pieces [OF r]
    by (simp_all add: ps_def r_def pieces_def)
  have len: "length d \<le> ut_mtu s" if d: "d \<in> set ds" for d
  proof -
    obtain j where j: "j < length ps" "d = wire_fragment C cid m k j (Suc j = length ps) (ps ! j)"
      using d by (auto simp: ds_def in_set_conv_nth nth_wire_fragments)
    have "length (ps ! j) \<le> (if j = 0 then f else r)"
      using j(1) unfolding ps_def by (rule length_piece)
    moreover have "length d \<le> (if j = 0 then relHdrSize m + compHdrSize m else 0) + 13 + length (ps ! j)"
      unfolding j(2) by (rule length_wire_fragment [OF rel])
    moreover have "f + relHdrSize m + compHdrSize m + 13 = ut_mtu s" "r + 13 = ut_mtu s"
      using mtu(1) by (simp_all add: f_def r_def)
    ultimately show ?thesis
      by (simp split: if_splits)
  qed
  define g where "g i = (SOME meta. decodeMeta R (ds ! i) True (cid \<noteq> 0) = Ok meta)" for i
  have dec: "decodeMeta R (ds ! i) True (cid \<noteq> 0) = Ok (g i)"
    and frag: "is_fragment k (dm_compHeader m) (acked_rel (dm_relHeader m)) ps i (g i)"
    if i: "i < length ps" for i
  proof -
    have "i < 32768"
      using i lp(1) by simp
    from wire_fragment_decodes [OF wf rel _ this, of cid k "Suc i = length ps" "ps ! i" True]
    obtain off where o: "decodeMeta R (ds ! i) True (cid \<noteq> 0) =
       Ok \<lparr>mm_type = MSG_DATA, mm_compressionHeader = fragComp m i,
         mm_reliabilityHeader = acked_rel (fragRel m i),
         mm_fragmentationHeader = Some \<lparr>fh_messageId = k, fh_fragmentIndex = of_nat i,
           fh_lastFragment = (Suc i = length ps)\<rparr>, mm_data = ps ! i, mm_dataOffset = off\<rparr>"
      using i layout by (auto simp: ds_def nth_wire_fragments cid_def)
    then show "decodeMeta R (ds ! i) True (cid \<noteq> 0) = Ok (g i)"
      by (simp add: g_def)
    show "is_fragment k (dm_compHeader m) (acked_rel (dm_relHeader m)) ps i (g i)"
      using o i by (simp add: g_def is_fragment_def fragComp_def fragRel_def acked_rel_def)
  qed
  have "\<exists>metas rs st'. list_all2 (\<lambda>j meta. decodeMeta R (ds ! j) True (cid \<noteq> 0) = Ok meta) js metas \<and>
          receiveFragments T ord st (zip ts metas) = (rs, st') \<and>
          last rs = Ok (Some \<lparr>mm_type = 0, mm_compressionHeader = dm_compHeader m,
            mm_reliabilityHeader = acked_rel (dm_relHeader m), mm_fragmentationHeader = None,
            mm_data = dm_data m, mm_dataOffset = 0\<rparr>)"
    if js: "distinct js" "set js = {0..<length ds}" "length ts = length js" "set ts \<subseteq> clk" for js ts
  proof -
    have l: "length ds = length ps"
      by (simp add: ds_def)
    have "length ps \<le> 65536"
      using lp(1) by simp
    from permuted_fragments [OF rcv fresh [folded k_def] this lp(2) frag js(1) _ js(3,4)] js(2)
    have "\<exists>rs st'. receiveFragments T ord st (zip ts (map g js)) = (rs, st') \<and>
       last rs = Ok (Some \<lparr>mm_type = 0, mm_compressionHeader = dm_compHeader m,
                mm_reliabilityHeader = acked_rel (dm_relHeader m),
                mm_fragmentationHeader = None, mm_data = concat ps, mm_dataOffset = 0\<rparr>)"
      by (auto simp: l)
    moreover have "list_all2 (\<lambda>j meta. decodeMeta R (ds ! j) True (cid \<noteq> 0) = Ok meta) js (map g js)"
      using js(2) l by (auto simp: list_all2_conv_all_nth intro!: dec)
    ultimately show ?thesis
      using lp(3) by auto
  qed
  then show ?thesis
    using send wire len unfolding cid_def by blast
qed

end

text \<open>C7 (roundtrip).  A message that does not fit the MTU leaves as datagrams that do, the server
  decodes every one of them, and in whatever order they reach a receiver that has no entry
  under the message's id, the last one to arrive completes the message with its headers and its
  whole payload.  This holds for a message that is not compressed or a connection without an id; with both, the
  first fragment has its headers in an order that the decoder does not read
  (\<open>compressed_message_with_connection_id\<close> in \<open>Message_Codec\<close>).  The fragments fit their index
  (32767), and fewer than 64 reliable messages wait for an acknowledgement.\<close>

theorem fragmented_message_arrives:
  assumes "dbuf_laws C R rest adv W" and "lossless E" and "en_writer E = W"
    and "wf_comp (dm_compHeader m)" and "sendable_rel (dm_relHeader m)"
    and "bt_connectionId (ut_base s) = 0 \<or> dm_compHeader m = None"
    and "relHdrSize m + compHdrSize m + 13 < ut_mtu s" and "ut_mtu s \<le> 65535"
    and "ut_mtu s < 9 + relHdrSize m + compHdrSize m + length (dm_data m)"
    and "length (dm_data m) \<le> 32767 * (ut_mtu s - 13)"
    and "length (rs_localUnacked (ut_relStore s)) < 64"
    and "visits_all ord" and "timely T clk" and "fs_inv st"
    and "fs_messages st (fs_nextMessageId (ut_fragStore s)) = None"
  shows "\<exists>ctx' s' ds. doSendUnfragmentedData E now (Data m) ctx re s = Some (Ok ctx', s') \<and>
     ut_wire s' = ut_wire s @ ds \<and> (\<forall>d\<in>set ds. length d \<le> ut_mtu s) \<and>
     (\<forall>js ts. distinct js \<and> set js = {0..<length ds} \<and> length ts = length js \<and> set ts \<subseteq> clk \<longrightarrow>
       (\<exists>metas rs st'. list_all2 (\<lambda>j meta. decodeMeta R (ds ! j) True (bt_connectionId (ut_base s) \<noteq> 0)
            = Ok meta) js metas \<and>
          receiveFragments T ord st (zip ts metas) = (rs, st') \<and>
          last rs = Ok (Some \<lparr>mm_type = 0, mm_compressionHeader = dm_compHeader m,
            mm_reliabilityHeader = acked_rel (dm_relHeader m), mm_fragmentationHeader = None,
            mm_data = dm_data m, mm_dataOffset = 0\<rparr>)))"
  by (rule dbuf_laws.fragments_sent_and_received [OF assms])

text \<open>An environment for concrete runs: the reference reader and writer, stored compression and a
  socket that accepts everything.\<close>

definition plain_env :: "(bytes, list_writer_state, bytes, bytes, nat, nat, nat) qn_env" where
  "plain_env = \<lparr>en_time = nat_time, en_zstd = stored_zstd, en_lz4 = stored_lz4,
     en_reader = list_reader, en_writer = list_writer, en_raw = put_le 8, en_order = hash_order,
     en_chance = (\<lambda>p n. False), en_send = (\<lambda>n d. Ok ())\<rparr>"

lemma plain_env_simps [simp]:
  "en_time plain_env = nat_time" "en_zstd plain_env = stored_zstd" "en_lz4 plain_env = stored_lz4"
  "en_reader plain_env = list_reader" "en_writer plain_env = list_writer"
  "en_raw plain_env = put_le 8" "en_order plain_env = hash_order"
  "en_chance plain_env p n = False" "en_send plain_env n d = Ok ()"
  by (simp_all add: plain_env_def)

lemma lossless_plain_env: "lossless plain_env"
  by (simp add: lossless_def)

definition plain_udp :: "(bytes, bytes, nat, nat, nat) UdpTransport" where
  "plain_udp = UdpTransport_new 0 \<lparr>pr_x = 1, pr_y = 2, pr_z = 3\<rparr> 0 None"

theorem fragmented_message_arrives_witness:
  "\<exists>ctx' s' ds metas rs st'.
     doSendUnfragmentedData plain_env 0
       (Data \<lparr>dm_data = [1, 2, 3, 4, 5, 6, 7, 8], dm_compHeader = None, dm_relHeader = None\<rparr>)
       SentMessageContext_new False (plain_udp\<lparr>ut_mtu := 15\<rparr>) = Some (Ok ctx', s') \<and>
     ut_wire s' = ds \<and>
     list_all2 (\<lambda>j meta. decodeMeta list_reader (ds ! j) True False = Ok meta) (rev [0..<length ds]) metas \<and>
     receiveFragments nat_time hash_order FragmentStore_new (zip (replicate (length ds) 7) metas) = (rs, st') \<and>
     last rs = Ok (Some \<lparr>mm_type = 0, mm_compressionHeader = None, mm_reliabilityHeader = None,
       mm_fragmentationHeader = None, mm_data = [1, 2, 3, 4, 5, 6, 7, 8], mm_dataOffset = 0\<rparr>)"
proof -
  let ?m = "\<lparr>dm_data = [1, 2, 3, 4, 5, 6, 7, 8], dm_compHeader = None, dm_relHeader = None\<rparr>"
  let ?s = "plain_udp\<lparr>ut_mtu := 15\<rparr>"
  have s: "bt_connectionId (ut_base ?s) = 0" "ut_wire ?s = []" "ut_fragStore ?s = FragmentStore_new"
    "rs_localUnacked (ut_relStore ?s) = []"
    by (simp_all add: plain_udp_def UdpTransport_new_def BaseTransport_new_def ReliableStore_new_def)
  have "\<exists>ctx' s' ds. doSendUnfragmentedData plain_env 0 (Data ?m) SentMessageContext_new False ?s
        = Some (Ok ctx', s') \<and>
     ut_wire s' = ut_wire ?s @ ds \<and> (\<forall>d\<in>set ds. length d \<le> ut_mtu ?s) \<and>
     (\<forall>js ts. distinct js \<and> set js = {0..<length ds} \<and> length ts = length js \<and> set ts \<subseteq> {7} \<longrightarrow>
       (\<exists>metas rs st'. list_all2 (\<lambda>j meta. decodeMeta list_reader (ds ! j) True
              (bt_connectionId (ut_base ?s) \<noteq> 0) = Ok meta) js metas \<and>
          receiveFragments nat_time hash_order FragmentStore_new (zip ts metas) = (rs, st') \<and>
          last rs = Ok (Some \<lparr>mm_type = 0, mm_compressionHeader = dm_compHeader ?m,
            mm_reliabilityHeader = acked_rel (dm_relHeader ?m), mm_fragmentationHeader = None,
            mm_data = dm_data ?m, mm_dataOffset = 0\<rparr>)))"
    by (rule fragmented_message_arrives [OF ref.dbuf_laws_axioms lossless_plain_env])
      (use s in \<open>simp_all add: visits_all_hash_order wf_comp_def sendable_rel_def relHdrSize_def
        compHdrSize_def timely_def EXPIRY_def tm_elapsed_def fs_inv_def FragmentStore_new_def\<close>)
  then obtain ctx' s' ds where 1: "doSendUnfragmentedData plain_env 0 (Data ?m) SentMessageContext_new False ?s
        = Some (Ok ctx', s')" "ut_wire s' = ut_wire ?s @ ds"
    and 2: "\<forall>js ts. distinct js \<and> set js = {0..<length ds} \<and> length ts = length js \<and> set ts \<subseteq> {7} \<longrightarrow>
       (\<exists>metas rs st'. list_all2 (\<lambda>j meta. decodeMeta list_reader (ds ! j) True
              (bt_connectionId (ut_base ?s) \<noteq> 0) = Ok meta) js metas \<and>
          receiveFragments nat_time hash_order FragmentStore_new (zip ts metas) = (rs, st') \<and>
          last rs = Ok (Some \<lparr>mm_type = 0, mm_compressionHeader = dm_compHeader ?m,
            mm_reliabilityHeader = acked_rel (dm_relHeader ?m), mm_fragmentationHeader = None,
            mm_data = dm_data ?m, mm_dataOffset = 0\<rparr>))"
    by blast
  have "distinct (rev [0..<length ds]) \<and> set (rev [0..<length ds]) = {0..<length ds} \<and>
     length (replicate (length ds) (7 :: nat)) = length (rev [0..<length ds]) \<and>
     set (replicate (length ds) (7 :: nat)) \<subseteq> {7}"
    by (simp add: set_replicate_conv_if)
  from 2 [rule_format, OF this] 1 show ?thesis
    using s by (simp add: acked_rel_def)
qed

section \<open>Sending returns\<close>

lemma sendFragment_progress:
  assumes "sendFragment E now m k off i s = (Ok n, s')"
  shows "n = min (unat (if i = 0 then firstPayloadSize (ut_mtu s) m else restPayloadSize (ut_mtu s)))
       (length (dm_data m) - off) \<and> ut_mtu s' = ut_mtu s"
  using assms
  by (auto simp: sendFragment_def socketSend_def step_then_eq_Inr Let_def on_tracker_def on_base_def
      split: if_splits sum.splits)

lemma sendFragments_rest_returns:
  assumes "13 < ut_mtu s" "ut_mtu s < 2 ^ 63" "0 < i"
  shows "sendFragments E now m k off i s \<noteq> None"
  using assms
proof (induction "length (dm_data m) - off" arbitrary: off i s rule: less_induct)
  case less
  have "sendFragments E now m k (off + n) (i + 1) s' \<noteq> None"
    if run: "sendFragment E now m k off i s = (Ok n, s')" and off: "off < length (dm_data m)" for n s'
  proof (rule less.hyps)
    have "n = min (ut_mtu s - 13) (length (dm_data m) - off)" "ut_mtu s' = ut_mtu s"
      using sendFragment_progress [OF run] less.prems by (simp_all add: restPayload_unat)
    then show "length (dm_data m) - (off + n) < length (dm_data m) - off" "13 < ut_mtu s'" "ut_mtu s' < 2 ^ 63" "0 < i + 1"
      using less.prems off by auto
  qed
  then show ?case
    by (subst sendFragments.simps) (intro io_if_returns io_then_returns; simp del: not_None_eq)
qed

lemma sendFragments_returns:
  assumes "13 < ut_mtu s" "ut_mtu s < 2 ^ 63"
  shows "sendFragments E now m k off i s \<noteq> None"
proof -
  have "sendFragments E now m k (off + n) (i + 1) s' \<noteq> None"
    if "sendFragment E now m k off i s = (Ok n, s')" for n s'
    using sendFragment_progress [OF that] assms by (intro sendFragments_rest_returns) auto
  then show ?thesis
    by (subst sendFragments.simps) (intro io_if_returns io_then_returns; simp del: not_None_eq)
qed

lemma doSend_returns:
  assumes "13 < ut_mtu s" "ut_mtu s < 2 ^ 63"
  shows "doSendUnfragmentedData E now msg ctx re s \<noteq> None"
proof (cases msg)
  case (Data m)
  have "sendFragments E now m k 0 0 (s\<lparr>ut_fragStore := st\<rparr>) \<noteq> None" for k st
    using assms by (intro sendFragments_returns) simp_all
  then show ?thesis
    using Data
    by (simp add: doSendUnfragmentedData_def FragmentStore_nextMessageId_def Let_def io_then_returns
        del: not_None_eq)
qed (simp_all add: doSendUnfragmentedData_def)

text \<open>C22 (liveness).  With the MTU of the transport every call that sends a message returns,
  whatever the socket does: the fragments after the first one always carry payload.\<close>

theorem send_returns:
  assumes "ut_mtu s = UDP_SAFE_MTU"
  shows "UdpTransport_sendMessage E now stamp msg ctx s \<noteq> None"
proof (cases msg)
  case (Data m)
  have "doSendUnfragmentedData E now msg' ctx re s' \<noteq> None" if "ut_mtu s' = UDP_SAFE_MTU" for msg' re s'
    using that by (intro doSend_returns) simp_all
  then show ?thesis
    using Data assms
    by (simp add: UdpTransport_sendMessage_def takeOutgoingAcks_def case_prod_beta Let_def)
qed (simp_all add: UdpTransport_sendMessage_def)

theorem send_returns_witness:
  "UdpTransport_sendMessage plain_env 0 5 (KeepaliveMessage 0) SentMessageContext_new plain_udp \<noteq> None"
  by (rule send_returns) (simp add: plain_udp_def UdpTransport_new_def)

end
