(* ===== verification/Udp_Handshake.thy ===== *)
theory Udp_Handshake
  imports Udp_Transport
begin

text \<open>
  The handshake of the UDP transport (\<open>UdpTransport::performHandshake\<close>): the start message is sent
  again every 750 ms, the answer may come in chunks of the compressed database in any order, and
  messages that are not part of the answer are kept for later.

  The loop gets what its environment does: one \<open>HandshakeRound\<close> for every iteration (the clock and
  the outcome of the poll) and the datagrams of the socket.  No result means that the coroutine
  still waits when the rounds or the datagrams are used up.
\<close>

section \<open>Collecting the chunks\<close>

text \<open>The local variables of the loop; of a message in \<open>chunks\<close> only the \<open>qdbData\<close> is read.\<close>

record 'i HandshakeRun =
  hr_lastSentHandshake :: 'i
  hr_sentAttempts :: nat
  hr_chunks :: "QdbData list"
  hr_unexpectedMessages :: "QunetMessage list"
  hr_outMessage :: HandshakeFinishMessage

definition HandshakeRun_new :: "'i \<Rightarrow> 'i HandshakeRun" where
  "HandshakeRun_new now = \<lparr>hr_lastSentHandshake = now, hr_sentAttempts = 1, hr_chunks = [],
     hr_unexpectedMessages = [], hr_outMessage = \<lparr>hf_connectionId = 0, hf_qdbData = None\<rparr>\<rparr>"

text \<open>\<open>memcpy\<close> of \<open>n\<close> bytes of \<open>src\<close> into the buffer.\<close>

definition memcpy_chunk :: "bytes \<Rightarrow> nat \<Rightarrow> bytes \<Rightarrow> nat \<Rightarrow> ('e, bytes) outcome" where
  "memcpy_chunk dst off src n =
     (if off + n \<le> length dst \<and> n \<le> length src then Ok (memcpy_at dst off (take n src))
      else Inl OutOfBounds)"

fun combineChunks_loop :: "u32 \<Rightarrow> QdbData list \<Rightarrow> bytes \<Rightarrow> bytes TransportResult" where
  "combineChunks_loop compressedSize [] combinedData = Ok combinedData"
| "combineChunks_loop compressedSize (c # cs) combinedData =
     qn_assert (length (qd_chunkData c) = unat (qd_chunkSize c))
     (if compressedSize < qd_chunkOffset c \<or> compressedSize < qd_chunkOffset c + qd_chunkSize c
      then Err (TE_HandshakeFailure ''Qdb chunk data out of bounds'')
      else unwrap (memcpy_chunk combinedData (unat (qd_chunkOffset c)) (qd_chunkData c) (unat (qd_chunkSize c)))
             (combineChunks_loop compressedSize cs))"

definition combineChunks :: "u32 \<Rightarrow> QdbData list \<Rightarrow> bytes TransportResult" where
  "combineChunks compressedSize chunks =
     combineChunks_loop compressedSize chunks (replicate (unat compressedSize) 0)"

text \<open>The test for completeness and the result.  The sizes are added as \<open>size_t\<close>.\<close>

definition tryCombine :: "'i HandshakeRun \<Rightarrow> HandshakeFinishMessage option TransportResult" where
  "tryCombine run =
     (case hf_qdbData (hr_outMessage run) of
        None \<Rightarrow> Inl OutOfBounds
      | Some q \<Rightarrow>
          let sizeSum = sum_list (map (\<lambda>c. unat (qd_chunkSize c)) (hr_chunks run)) in
          if sizeSum \<noteq> unat (qd_compressedSize q) then Ok None
          else unwrap (combineChunks (qd_compressedSize q) (hr_chunks run)) (\<lambda>combinedData.
            Ok (Some ((hr_outMessage run)\<lparr>hf_qdbData := Some (q\<lparr>qd_chunkData := combinedData,
                 qd_chunkOffset := 0, qd_chunkSize := qd_compressedSize q\<rparr>)\<rparr>))))"

text \<open>One \<open>HandshakeFinishMessage\<close>: None when more chunks are needed.\<close>

definition onHandshakeFinish :: "HandshakeFinishMessage \<Rightarrow> 'i HandshakeRun \<Rightarrow>
    HandshakeFinishMessage option TransportResult \<times> 'i HandshakeRun" where
  "onHandshakeFinish msg run =
     (case hf_qdbData msg of
        None \<Rightarrow> (Ok (Some msg), run)
      | Some q \<Rightarrow>
          if hr_chunks run = [] then
            let run = run\<lparr>hr_outMessage := \<lparr>hf_connectionId = hf_connectionId msg,
                    hf_qdbData = Some \<lparr>qd_uncompressedSize = qd_uncompressedSize q,
                      qd_compressedSize = qd_compressedSize q, qd_chunkOffset = 0,
                      qd_chunkSize = 0, qd_chunkData = []\<rparr>\<rparr>,
                  hr_chunks := [q]\<rparr>
            in if 1024 * 1024 < unat (qd_compressedSize q)
               then (Err (TE_HandshakeFailure ''Qdb data is too large''), run)
               else (tryCombine run, run)
          else if hf_connectionId msg \<noteq> hf_connectionId (hr_outMessage run) then
            (Err (TE_HandshakeFailure ''Mismatch between connection IDs in handshake chunks''), run)
          else if \<exists>c\<in>set (hr_chunks run). qd_chunkOffset c = qd_chunkOffset q then (Ok None, run)
          else
            let run = run\<lparr>hr_chunks := hr_chunks run @ [q]\<rparr>
            in (tryCombine run, run))"

section \<open>The loop\<close>

record 'i HandshakeRound =
  rd_now :: 'i
  rd_stamp :: u64
  rd_poll :: "unit TransportResult option"

fun handshakeLoop :: "('r, 'w, 'cd, 'dd, 'd, 'i, 'f) qn_env \<Rightarrow> HandshakeStartMessage \<Rightarrow>
    'i HandshakeRound list \<Rightarrow> ('i \<times> bytes TransportResult) list \<Rightarrow> 'i HandshakeRun \<Rightarrow>
    ('cd, 'dd, 'd, 'i, 'f) UdpTransport \<Rightarrow>
    (QunetMessage TransportResult option \<times> ('i \<times> bytes TransportResult) list \<times>
      ('cd, 'dd, 'd, 'i, 'f) UdpTransport) option" where
  "handshakeLoop E hs [] recvs run s = Some (None, recvs, s)"
| "handshakeLoop E hs (r # rounds) recvs run s =
     (let T = en_time E;
          remTimeout = tm_minus T (tm_fromMillis T 750) (tm_elapsed T (rd_now r) (hr_lastSentHandshake run))
      in if tm_isZero T remTimeout then
           (case UdpTransport_sendPlain E (rd_now r) (rd_stamp r) (HandshakeStart hs) False s of
              None \<Rightarrow> None
            | Some (Inl e, s) \<Rightarrow> Some (Some (Inl e), recvs, s)
            | Some (Inr _, s) \<Rightarrow>
                handshakeLoop E hs rounds recvs
                  (run\<lparr>hr_lastSentHandshake := rd_now r, hr_sentAttempts := hr_sentAttempts run + 1\<rparr>) s)
         else
           (case pollTimeout (rd_poll r) of
              Inl e \<Rightarrow> Some (Some (Inl e), recvs, s)
            | Inr hasData \<Rightarrow>
                if \<not> hasData then handshakeLoop E hs rounds recvs run s
                else
                  (case UdpTransport_receiveMessage E (rd_now r) recvs s of
                     (None, recvs, s) \<Rightarrow> Some (None, recvs, s)
                   | (Some (Inl e), recvs, s) \<Rightarrow> Some (Some (Inl e), recvs, s)
                   | (Some (Inr chunkmsg), recvs, s) \<Rightarrow>
                       (case chunkmsg of
                          HandshakeFailure _ \<Rightarrow> Some (Some (Ok chunkmsg), recvs, s)
                        | HandshakeFinish msg \<Rightarrow>
                            (case onHandshakeFinish msg run of
                               (Inl e, run) \<Rightarrow> Some (Some (Inl e), recvs, s)
                             | (Inr None, run) \<Rightarrow> handshakeLoop E hs rounds recvs run s
                             | (Inr (Some outMessage), run) \<Rightarrow>
                                 Some (Some (Ok (HandshakeFinish outMessage)), recvs,
                                       s\<lparr>ut_pendingMessages := hr_unexpectedMessages run\<rparr>))
                        | _ \<Rightarrow>
                            handshakeLoop E hs rounds recvs
                              (run\<lparr>hr_unexpectedMessages := hr_unexpectedMessages run @ [chunkmsg]\<rparr>) s))))"

definition UdpTransport_performHandshake :: "('r, 'w, 'cd, 'dd, 'd, 'i, 'f) qn_env \<Rightarrow> 'i \<Rightarrow> u64 \<Rightarrow>
    HandshakeStartMessage \<Rightarrow> 'i HandshakeRound list \<Rightarrow> ('i \<times> bytes TransportResult) list \<Rightarrow>
    ('cd, 'dd, 'd, 'i, 'f) UdpTransport \<Rightarrow>
    (QunetMessage TransportResult option \<times> ('i \<times> bytes TransportResult) list \<times>
      ('cd, 'dd, 'd, 'i, 'f) UdpTransport) option" where
  "UdpTransport_performHandshake E now stamp hs rounds recvs s =
     (case UdpTransport_sendPlain E now stamp (HandshakeStart hs) False s of
        None \<Rightarrow> None
      | Some (Inl e, s) \<Rightarrow> Some (Some (Inl e), recvs, s)
      | Some (Inr _, s) \<Rightarrow> handshakeLoop E hs rounds recvs (HandshakeRun_new now) s)"

section \<open>Combining the chunks\<close>

text \<open>The messages decoded from the wire carry as many bytes as they announce.\<close>

definition chunk_ok :: "QdbData \<Rightarrow> bool" where
  "chunk_ok c \<longleftrightarrow> length (qd_chunkData c) = unat (qd_chunkSize c)"

lemma combineChunks_in_bounds:
  assumes "\<forall>c\<in>set cs. chunk_ok c \<and> unat (qd_chunkSize c) \<le> 2 ^ 20"
    and "unat sz \<le> 2 ^ 20" and "length buf = unat sz"
  shows "(\<exists>bs. combineChunks_loop sz cs buf = Ok bs \<and> length bs = unat sz) \<or>
     combineChunks_loop sz cs buf = Err (TE_HandshakeFailure ''Qdb chunk data out of bounds'')"
  using assms(1,3)
proof (induction cs arbitrary: buf)
  case (Cons c cs)
  show ?case
  proof (cases "sz < qd_chunkOffset c \<or> sz < qd_chunkOffset c + qd_chunkSize c")
    case True
    then show ?thesis
      using Cons.prems by (simp add: chunk_ok_def)
  next
    case False
    then have "unat (qd_chunkOffset c) \<le> 2 ^ 20"
      using assms(2) by (simp add: word_le_nat_alt not_less)
    then have "unat (qd_chunkOffset c + qd_chunkSize c) = unat (qd_chunkOffset c) + unat (qd_chunkSize c)"
      using Cons.prems by (subst unat_plus_simple [THEN iffD1]) (simp_all add: no_olen_add_nat)
    then have fit: "unat (qd_chunkOffset c) + unat (qd_chunkSize c) \<le> length buf"
      using False Cons.prems by (simp add: word_le_nat_alt not_less)
    then show ?thesis
      using Cons False by (simp add: chunk_ok_def memcpy_chunk_def)
  qed
qed simp

text \<open>The messages of an answer, taken one after the other until something is decided.\<close>

fun collectChunks :: "HandshakeFinishMessage list \<Rightarrow> 'i HandshakeRun \<Rightarrow>
    HandshakeFinishMessage option TransportResult \<times> 'i HandshakeRun" where
  "collectChunks [] run = (Ok None, run)"
| "collectChunks (m # ms) run =
     (case onHandshakeFinish m run of
        (Inr None, run) \<Rightarrow> collectChunks ms run
      | other \<Rightarrow> other)"

definition hs_inv :: "'i HandshakeRun \<Rightarrow> bool" where
  "hs_inv run \<longleftrightarrow> (\<forall>c\<in>set (hr_chunks run). chunk_ok c) \<and>
     (hr_chunks run \<noteq> [] \<longrightarrow>
       (\<exists>q. hf_qdbData (hr_outMessage run) = Some q \<and> unat (qd_compressedSize q) \<le> 2 ^ 20))"

text \<open>What the collection may end with.\<close>

definition safe_verdict :: "HandshakeFinishMessage option TransportResult \<Rightarrow> bool" where
  "safe_verdict r = (case r of
       Inl (Failed (TE_HandshakeFailure _)) \<Rightarrow> True
     | Inl _ \<Rightarrow> False
     | Inr None \<Rightarrow> True
     | Inr (Some out) \<Rightarrow> (case hf_qdbData out of None \<Rightarrow> True
         | Some q \<Rightarrow> length (qd_chunkData q) = unat (qd_compressedSize q) \<and>
             unat (qd_compressedSize q) \<le> 2 ^ 20))"

lemma member_le_sum_list: "x \<in> set xs \<Longrightarrow> (x :: nat) \<le> sum_list xs"
  by (induction xs) auto

lemma tryCombine_safe:
  assumes "hs_inv run" and "hr_chunks run \<noteq> []"
  shows "safe_verdict (tryCombine run)"
proof -
  obtain q where q: "hf_qdbData (hr_outMessage run) = Some q" "unat (qd_compressedSize q) \<le> 2 ^ 20"
    using assms by (auto simp: hs_inv_def)
  show ?thesis
  proof (cases "sum_list (map (\<lambda>c. unat (qd_chunkSize c)) (hr_chunks run)) = unat (qd_compressedSize q)")
    case True
    have "\<forall>c\<in>set (hr_chunks run). chunk_ok c \<and> unat (qd_chunkSize c) \<le> 2 ^ 20"
    proof
      fix c assume c: "c \<in> set (hr_chunks run)"
      then have "unat (qd_chunkSize c) \<le> sum_list (map (\<lambda>c. unat (qd_chunkSize c)) (hr_chunks run))"
        by (intro member_le_sum_list) auto
      then show "chunk_ok c \<and> unat (qd_chunkSize c) \<le> 2 ^ 20"
        using True q(2) assms(1) c by (simp add: hs_inv_def)
    qed
    from combineChunks_in_bounds [OF this q(2), of "replicate (unat (qd_compressedSize q)) 0"]
    show ?thesis
      using True q by (auto simp: tryCombine_def combineChunks_def safe_verdict_def)
  qed (simp add: tryCombine_def q safe_verdict_def)
qed

lemma onHandshakeFinish_safe:
  assumes "hs_inv run" and "\<forall>q. hf_qdbData msg = Some q \<longrightarrow> chunk_ok q"
    and "onHandshakeFinish msg run = (r, run')"
  shows "hf_qdbData msg = None \<and> r = Ok (Some msg) \<or> safe_verdict r \<and> (r = Ok None \<longrightarrow> hs_inv run')"
proof (cases "hf_qdbData msg")
  case (Some q)
  have ok: "chunk_ok q"
    using assms(2) Some by simp
  consider (first) "hr_chunks run = []" | (err) e where "r = Err (TE_HandshakeFailure e)"
    | (same) "r = Ok None" "run' = run"
    | (more) "hr_chunks run \<noteq> []" "run' = run\<lparr>hr_chunks := hr_chunks run @ [q]\<rparr>" "r = tryCombine run'"
    using assms(3) Some by (auto simp: onHandshakeFinish_def Let_def split: if_splits)
  then show ?thesis
  proof cases
    case first
    then have "r = Err (TE_HandshakeFailure ''Qdb data is too large'') \<or>
        r = tryCombine run' \<and> hs_inv run' \<and> hr_chunks run' \<noteq> []"
      using assms(3) Some ok by (auto simp: onHandshakeFinish_def Let_def hs_inv_def split: if_splits)
    then show ?thesis
      using tryCombine_safe [of run'] by (auto simp: safe_verdict_def)
  next
    case more
    then have "hs_inv run'"
      using assms(1) ok by (simp add: hs_inv_def)
    then show ?thesis
      using tryCombine_safe [of run'] more by simp
  qed (use assms(1) in \<open>simp_all add: safe_verdict_def\<close>)
qed (use assms(3) in \<open>simp add: onHandshakeFinish_def\<close>)

lemma chunks_in_bounds:
  assumes "\<forall>m\<in>set msgs. \<forall>q. hf_qdbData m = Some q \<longrightarrow> chunk_ok q" and "hs_inv run"
  shows "(\<exists>m\<in>set msgs. hf_qdbData m = None \<and> fst (collectChunks msgs run) = Ok (Some m)) \<or>
     safe_verdict (fst (collectChunks msgs run))"
  using assms
proof (induction msgs arbitrary: run)
  case Nil
  then show ?case
    by (simp add: safe_verdict_def)
next
  case (Cons m ms)
  obtain r run' where r: "onHandshakeFinish m run = (r, run')"
    by (cases "onHandshakeFinish m run")
  have s: "hf_qdbData m = None \<and> r = Ok (Some m) \<or> safe_verdict r \<and> (r = Ok None \<longrightarrow> hs_inv run')"
    using onHandshakeFinish_safe [OF Cons.prems(2) _ r] Cons.prems(1) by auto
  show ?case
    using Cons.IH [of run'] Cons.prems(1) s r by (auto split: sum.split option.split)
qed

context byte_reader_laws
begin

lemma readBytes_length: "br_readBytes R r n = Inr (bs, r') \<Longrightarrow> length bs = n"
  using readBytes_short [of r n] by (cases "n \<le> length (rest r)") (auto simp: readBytes)

lemma decoded_chunk_ok:
  assumes "HandshakeFinishMessage_decode R r = Ok (HandshakeFinish m, r')" and "hf_qdbData m = Some q"
  shows "chunk_ok q"
  using assms
  by (auto simp: HandshakeFinishMessage_decode_def unwrap_eq_Inr chunk_ok_def word_gt_0 split: if_splits
      dest!: readBytes_length)

end

text \<open>C14 (bounds).  However the chunks of the database that were decoded from datagrams arrive, and
  whatever offsets and sizes they claim, the collection never copies outside of the buffer and
  never fails its assertion: it waits for more, fails with a handshake failure, or delivers
  exactly as many bytes as the first chunk announced, at most 1 MiB.\<close>

theorem handshake_chunks_in_bounds:
  assumes "byte_reader_laws R C rest adv"
    and "\<forall>m\<in>set msgs. hf_qdbData m \<noteq> None \<and>
      (\<exists>r r'. HandshakeFinishMessage_decode R r = Ok (HandshakeFinish m, r'))"
  shows "safe_verdict (fst (collectChunks msgs (HandshakeRun_new now)))"
proof -
  have "\<forall>m\<in>set msgs. \<forall>q. hf_qdbData m = Some q \<longrightarrow> chunk_ok q"
    using assms(2) byte_reader_laws.decoded_chunk_ok [OF assms(1)] by blast
  moreover have "hs_inv (HandshakeRun_new now)"
    by (simp add: hs_inv_def HandshakeRun_new_def)
  ultimately show ?thesis
    using chunks_in_bounds [of msgs "HandshakeRun_new now"] assms(2) by blast
qed

theorem handshake_chunks_in_bounds_witness:
  "safe_verdict (fst (collectChunks [\<lparr>hf_connectionId = 0, hf_qdbData = Some \<lparr>qd_uncompressedSize = 0,
      qd_compressedSize = 2, qd_chunkOffset = 4294967295, qd_chunkSize = 2, qd_chunkData = [1, 2]\<rparr>\<rparr>]
      (HandshakeRun_new (0 :: nat))))"
proof (rule handshake_chunks_in_bounds [OF list_rd.byte_reader_laws_axioms])
  let ?bytes = "put64 le_codec 0 @ [1] @ put32 le_codec 0 @ put32 le_codec 2
    @ put32 le_codec 4294967295 @ put32 le_codec 2 @ [1, 2]"
  have "getBool le_codec 1"
    by (simp add: le_codec_def)
  then have "\<exists>r'. HandshakeFinishMessage_decode list_reader ?bytes =
     Ok (HandshakeFinish \<lparr>hf_connectionId = 0, hf_qdbData = Some \<lparr>qd_uncompressedSize = 0,
      qd_compressedSize = 2, qd_chunkOffset = 4294967295, qd_chunkSize = 2, qd_chunkData = [1, 2]\<rparr>\<rparr>, r')"
    by (simp add: HandshakeFinishMessage_decode_def list_rd.reads list_rest_def list_adv_def)
  then show "\<forall>m\<in>set [\<lparr>hf_connectionId = 0, hf_qdbData = Some \<lparr>qd_uncompressedSize = 0,
      qd_compressedSize = 2, qd_chunkOffset = 4294967295, qd_chunkSize = 2, qd_chunkData = [1, 2]\<rparr>\<rparr>].
      hf_qdbData m \<noteq> None \<and>
      (\<exists>r r'. HandshakeFinishMessage_decode list_reader r = Ok (HandshakeFinish m, r'))"
    by auto
qed

section \<open>The chunks of one database\<close>

definition offset_of :: "bytes list \<Rightarrow> nat \<Rightarrow> nat" where
  "offset_of ps i = length (concat (take i ps))"

lemma offset_Suc: "i < length ps \<Longrightarrow> offset_of ps (Suc i) = offset_of ps i + length (ps ! i)"
  by (simp add: offset_of_def take_Suc_conv_app_nth)

lemma offset_mono: "i \<le> j \<Longrightarrow> offset_of ps i \<le> offset_of ps j"
proof -
  assume "i \<le> j"
  then have "take j ps = take i ps @ take (j - i) (drop i ps)"
    by (metis le_add_diff_inverse take_add)
  then show ?thesis
    by (simp add: offset_of_def)
qed

lemma offset_le: "offset_of ps i \<le> length (concat ps)"
  using offset_mono [of i "max i (length ps)" ps] by (simp add: offset_of_def)

lemma offset_disjoint: "i < j \<Longrightarrow> i < length ps \<Longrightarrow> offset_of ps i + length (ps ! i) \<le> offset_of ps j"
  using offset_Suc [of i ps] offset_mono [of "Suc i" j ps] by simp

lemma offset_piece: "i < length ps \<Longrightarrow> offset_of ps i + length (ps ! i) \<le> length (concat ps)"
  using offset_disjoint [of i "length ps" ps] by (simp add: offset_of_def)

lemma concat_at_offset:
  assumes "i < length ps" "k < length (ps ! i)"
  shows "concat ps ! (offset_of ps i + k) = ps ! i ! k"
proof -
  have "concat ps = concat (take i ps) @ ps ! i @ concat (drop (Suc i) ps)"
    using assms(1) by (metis concat.simps(2) concat_append id_take_nth_drop)
  then show ?thesis
    using assms(2) by (simp add: offset_of_def nth_append)
qed

lemma offset_covers:
  "p < length (concat ps) \<Longrightarrow> \<exists>i < length ps. \<exists>k < length (ps ! i). p = offset_of ps i + k"
proof (induction ps rule: rev_induct)
  case (snoc x ps)
  show ?case
  proof (cases "p < length (concat ps)")
    case True
    then obtain i k where "i < length ps" "k < length (ps ! i)" "p = offset_of ps i + k"
      using snoc.IH by blast
    then show ?thesis
      by (intro exI [of _ i]) (auto simp: nth_append offset_of_def)
  next
    case False
    then show ?thesis
      using snoc.prems by (intro exI [of _ "length ps"]) (auto simp: offset_of_def intro!: exI [of _ "p - length (concat ps)"])
  qed
qed simp

text \<open>Chunk \<open>i\<close> of the compressed database cut into the pieces \<open>ps\<close>.\<close>

definition chunk_of :: "u32 \<Rightarrow> bytes list \<Rightarrow> nat \<Rightarrow> QdbData" where
  "chunk_of u ps i = \<lparr>qd_uncompressedSize = u, qd_compressedSize = of_nat (length (concat ps)),
     qd_chunkOffset = of_nat (offset_of ps i), qd_chunkSize = of_nat (length (ps ! i)),
     qd_chunkData = ps ! i\<rparr>"

definition chunk_msg :: "u64 \<Rightarrow> u32 \<Rightarrow> bytes list \<Rightarrow> nat \<Rightarrow> HandshakeFinishMessage" where
  "chunk_msg cid u ps i = \<lparr>hf_connectionId = cid, hf_qdbData = Some (chunk_of u ps i)\<rparr>"

lemma unat_small: "n \<le> 2 ^ 20 \<Longrightarrow> unat (of_nat n :: u32) = n"
  by (simp add: unat_of_nat)

lemma chunk_words:
  assumes "length (concat ps) \<le> 2 ^ 20" "i < length ps"
  shows "unat (qd_compressedSize (chunk_of u ps i)) = length (concat ps)"
    and "unat (qd_chunkOffset (chunk_of u ps i)) = offset_of ps i"
    and "unat (qd_chunkSize (chunk_of u ps i)) = length (ps ! i)"
    and "unat (qd_chunkOffset (chunk_of u ps i) + qd_chunkSize (chunk_of u ps i))
           = offset_of ps i + length (ps ! i)"
proof -
  have "offset_of ps i + length (ps ! i) \<le> 2 ^ 20"
    using offset_piece [OF assms(2)] assms(1) by simp
  then show "unat (qd_chunkOffset (chunk_of u ps i)) = offset_of ps i"
    "unat (qd_chunkSize (chunk_of u ps i)) = length (ps ! i)"
    "unat (qd_chunkOffset (chunk_of u ps i) + qd_chunkSize (chunk_of u ps i)) = offset_of ps i + length (ps ! i)"
    unfolding chunk_of_def by (simp_all add: unat_small flip: of_nat_add)
  show "unat (qd_compressedSize (chunk_of u ps i)) = length (concat ps)"
    using assms(1) by (simp add: chunk_of_def unat_small)
qed

lemma combine_pieces:
  assumes small: "length (concat ps) \<le> 2 ^ 20" and js: "\<forall>j\<in>set js. j < length ps" "distinct js"
    and buf: "length buf = length (concat ps)"
  shows "\<exists>out. combineChunks_loop (of_nat (length (concat ps))) (map (chunk_of u ps) js) buf = Ok out \<and>
     length out = length (concat ps) \<and>
     (\<forall>i<length ps. \<forall>k<length (ps ! i). out ! (offset_of ps i + k) =
        (if i \<in> set js then ps ! i ! k else buf ! (offset_of ps i + k)))"
  using js buf
proof (induction js arbitrary: buf)
  case (Cons j js)
  have j: "j < length ps"
    using Cons.prems(1) by simp
  note w = chunk_words [OF small j, of u]
  let ?buf = "memcpy_at buf (offset_of ps j) (ps ! j)"
  have fit: "offset_of ps j + length (ps ! j) \<le> length buf"
    using offset_piece [OF j] Cons.prems(3) by simp
  then have lb: "length ?buf = length (concat ps)"
    using Cons.prems(3) by simp
  have test: "\<not> (of_nat (length (concat ps)) < qd_chunkOffset (chunk_of u ps j) \<or>
      of_nat (length (concat ps)) < qd_chunkOffset (chunk_of u ps j) + qd_chunkSize (chunk_of u ps j))"
    using w fit Cons.prems(3) unat_small [OF small] by (simp add: word_less_nat_alt)
  obtain out where out: "combineChunks_loop (of_nat (length (concat ps))) (map (chunk_of u ps) js) ?buf = Ok out"
    "length out = length (concat ps)"
    "\<And>i k. i < length ps \<Longrightarrow> k < length (ps ! i) \<Longrightarrow> out ! (offset_of ps i + k) =
        (if i \<in> set js then ps ! i ! k else ?buf ! (offset_of ps i + k))"
    using Cons.IH [OF _ _ lb] Cons.prems by auto
  have "out ! (offset_of ps i + k) =
     (if i \<in> set (j # js) then ps ! i ! k else buf ! (offset_of ps i + k))"
    if i: "i < length ps" and k: "k < length (ps ! i)" for i k
  proof -
    have p: "offset_of ps i + k < length buf"
      using offset_piece [OF i] k Cons.prems(3) by simp
    have "?buf ! (offset_of ps i + k) = (if i = j then ps ! i ! k else buf ! (offset_of ps i + k))"
      using memcpy_at_nth [OF fit p] offset_disjoint [of i j ps] offset_disjoint [of j i ps] i j k
      by (cases i j rule: linorder_cases) auto
    then show ?thesis
      using out(3) [OF i k] Cons.prems(2) by auto
  qed
  then show ?case
    using out test fit w(2,3) by (simp add: memcpy_chunk_def) (simp add: chunk_of_def)
qed simp

definition collected_chunks :: "u64 \<Rightarrow> u32 \<Rightarrow> bytes list \<Rightarrow> nat set \<Rightarrow> 'i HandshakeRun \<Rightarrow> bool" where
  "collected_chunks cid u ps A run \<longleftrightarrow>
     (\<exists>ds. distinct ds \<and> set ds = A \<and> hr_chunks run = map (chunk_of u ps) ds) \<and>
     (A \<noteq> {} \<longrightarrow> hr_outMessage run = \<lparr>hf_connectionId = cid,
        hf_qdbData = Some \<lparr>qd_uncompressedSize = u, qd_compressedSize = of_nat (length (concat ps)),
          qd_chunkOffset = 0, qd_chunkSize = 0, qd_chunkData = []\<rparr>\<rparr>)"

definition whole_answer :: "u64 \<Rightarrow> u32 \<Rightarrow> bytes \<Rightarrow> HandshakeFinishMessage" where
  "whole_answer cid u blob = \<lparr>hf_connectionId = cid, hf_qdbData = Some \<lparr>qd_uncompressedSize = u,
     qd_compressedSize = of_nat (length blob), qd_chunkOffset = 0,
     qd_chunkSize = of_nat (length blob), qd_chunkData = blob\<rparr>\<rparr>"

lemma piece_sizes: "length (concat ps) = (\<Sum>i\<in>{0..<length ps}. length (ps ! i))"
  by (induction ps rule: rev_induct) (auto simp: nth_append)

lemma tryCombine_pieces:
  assumes small: "length (concat ps) \<le> 2 ^ 20" and ne: "\<forall>p\<in>set ps. p \<noteq> []"
    and A: "A \<noteq> {}" "A \<subseteq> {0..<length ps}" and st: "collected_chunks cid u ps A run"
  shows "tryCombine run = Ok (if A = {0..<length ps} then Some (whole_answer cid u (concat ps)) else None)"
proof -
  obtain ds where ds: "distinct ds" "set ds = A" "hr_chunks run = map (chunk_of u ps) ds"
    using st by (auto simp: collected_chunks_def)
  have lt: "\<forall>j\<in>set ds. j < length ps"
    using ds(2) A(2) by auto
  have "map (\<lambda>c. unat (qd_chunkSize c)) (hr_chunks run) = map (\<lambda>i. length (ps ! i)) ds"
    using lt chunk_words(3) [OF small] by (simp add: ds(3))
  then have sum: "sum_list (map (\<lambda>c. unat (qd_chunkSize c)) (hr_chunks run)) = (\<Sum>i\<in>A. length (ps ! i))"
    using ds(1,2) by (simp add: sum_list_distinct_conv_sum_set)
  show ?thesis
  proof (cases "A = {0..<length ps}")
    case False
    have pos: "0 < length (ps ! i)" if i: "i < length ps" for i
      using ne i by simp
    obtain i where i: "i \<in> {0..<length ps}" "i \<notin> A"
      using False A(2) by blast
    have "(\<Sum>i\<in>A. length (ps ! i)) < length (concat ps)"
      unfolding piece_sizes using A(2) i pos [of i] by (intro sum_strict_mono2) auto
    then show ?thesis
      using sum st A False unat_small [OF small] by (simp add: tryCombine_def collected_chunks_def)
  next
    case True
    obtain out where out: "combineChunks_loop (of_nat (length (concat ps))) (map (chunk_of u ps) ds)
        (replicate (length (concat ps)) 0) = Ok out"
      and lo: "length out = length (concat ps)"
      and nth: "\<And>i k. i < length ps \<Longrightarrow> k < length (ps ! i) \<Longrightarrow> out ! (offset_of ps i + k) =
        (if i \<in> set ds then ps ! i ! k else replicate (length (concat ps)) 0 ! (offset_of ps i + k))"
      using combine_pieces [OF small lt ds(1), of "replicate (length (concat ps)) 0" u] by auto
    have "out = concat ps"
    proof (rule nth_equalityI [OF lo])
      fix p assume "p < length out"
      then obtain i k where "i < length ps" "k < length (ps ! i)" "p = offset_of ps i + k"
        using offset_covers [of p ps] lo by auto
      then show "out ! p = concat ps ! p"
        using nth [of i k] concat_at_offset [of i ps k] ds(2) True by simp
    qed
    then show ?thesis
      using sum st A True out unat_small [OF small] ds(3) piece_sizes [of ps]
      by (simp add: tryCombine_def combineChunks_def collected_chunks_def whole_answer_def)
  qed
qed

lemma chunk_offset_inj:
  assumes small: "length (concat ps) \<le> 2 ^ 20" and ne: "\<forall>p\<in>set ps. p \<noteq> []"
    and ij: "i < length ps" "j < length ps"
  shows "qd_chunkOffset (chunk_of u ps i) = qd_chunkOffset (chunk_of u ps j) \<longleftrightarrow> i = j"
proof
  assume "qd_chunkOffset (chunk_of u ps i) = qd_chunkOffset (chunk_of u ps j)"
  then have eq: "offset_of ps i = offset_of ps j"
    using chunk_words(2) [OF small ij(1), of u] chunk_words(2) [OF small ij(2), of u] by simp
  have "0 < length (ps ! i)" "0 < length (ps ! j)"
    using ne ij by simp_all
  then show "i = j"
    using eq offset_disjoint [of i j ps] offset_disjoint [of j i ps] ij
    by (cases i j rule: linorder_cases) auto
qed simp

lemma onHandshakeFinish_chunk:
  assumes small: "length (concat ps) \<le> 2 ^ 20" and ne: "\<forall>p\<in>set ps. p \<noteq> []"
    and st: "collected_chunks cid u ps A run" and A: "A \<subset> {0..<length ps}" and j: "j < length ps"
  shows "\<exists>run'. onHandshakeFinish (chunk_msg cid u ps j) run =
       (Ok (if insert j A = {0..<length ps} then Some (whole_answer cid u (concat ps)) else None), run') \<and>
     collected_chunks cid u ps (insert j A) run' \<and>
     hr_unexpectedMessages run' = hr_unexpectedMessages run"
proof -
  obtain ds where ds: "distinct ds" "set ds = A" "hr_chunks run = map (chunk_of u ps) ds"
    using st by (auto simp: collected_chunks_def)
  have sub: "insert j A \<noteq> {}" "insert j A \<subseteq> {0..<length ps}"
    using A j by auto
  note combine = tryCombine_pieces [OF small ne sub]
  consider (first) "A = {}" | (dup) "A \<noteq> {}" "j \<in> A" | (new) "A \<noteq> {}" "j \<notin> A"
    by blast
  then show ?thesis
  proof cases
    case first
    let ?run = "run\<lparr>hr_outMessage := \<lparr>hf_connectionId = cid, hf_qdbData = Some
        \<lparr>qd_uncompressedSize = u, qd_compressedSize = of_nat (length (concat ps)), qd_chunkOffset = 0,
         qd_chunkSize = 0, qd_chunkData = []\<rparr>\<rparr>, hr_chunks := [chunk_of u ps j]\<rparr>"
    have on: "collected_chunks cid u ps (insert j A) ?run"
      using first by (auto simp: collected_chunks_def intro!: exI [of _ "[j]"])
    have "onHandshakeFinish (chunk_msg cid u ps j) run = (tryCombine ?run, ?run)"
      using first ds small unat_small [OF small]
      by (simp add: onHandshakeFinish_def chunk_msg_def chunk_of_def Let_def)
    then show ?thesis
      using combine [OF on] on by (intro exI [of _ ?run]) simp
  next
    case dup
    then have "onHandshakeFinish (chunk_msg cid u ps j) run = (Ok None, run)"
      using st ds by (auto simp: onHandshakeFinish_def chunk_msg_def collected_chunks_def)
    then show ?thesis
      using dup st A by (auto simp: insert_absorb)
  next
    case new
    let ?run = "run\<lparr>hr_chunks := hr_chunks run @ [chunk_of u ps j]\<rparr>"
    have on: "collected_chunks cid u ps (insert j A) ?run"
    proof -
      have "distinct (ds @ [j])" "set (ds @ [j]) = insert j A" "hr_chunks ?run = map (chunk_of u ps) (ds @ [j])"
        using new(2) ds by simp_all
      then have "\<exists>es. distinct es \<and> set es = insert j A \<and> hr_chunks ?run = map (chunk_of u ps) es"
        by (intro exI conjI)
      moreover have "hr_outMessage ?run = hr_outMessage run"
        by simp
      ultimately show ?thesis
        using st new(1) unfolding collected_chunks_def by presburger
    qed
    have "qd_chunkOffset (chunk_of u ps i) \<noteq> qd_chunkOffset (chunk_of u ps j)" if "i \<in> set ds" for i
      using that ds(2) A j new(2) chunk_offset_inj [OF small ne, of i j u] by auto
    then have "\<not> (\<exists>c\<in>set (hr_chunks run). qd_chunkOffset c = qd_chunkOffset (chunk_of u ps j))"
      using ds(3) by auto
    moreover have "hr_chunks run \<noteq> []" "hf_connectionId (hr_outMessage run) = cid"
      using new st ds by (auto simp: collected_chunks_def)
    ultimately have "onHandshakeFinish (chunk_msg cid u ps j) run = (tryCombine ?run, ?run)"
      by (simp add: onHandshakeFinish_def chunk_msg_def Let_def)
    then show ?thesis
      using combine [OF on] on by (intro exI [of _ ?run]) simp
  qed
qed

lemma collectChunks_partial:
  assumes small: "length (concat ps) \<le> 2 ^ 20" and ne: "\<forall>p\<in>set ps. p \<noteq> []"
    and "collected_chunks cid u ps A run" and "\<forall>j\<in>set js. j < length ps"
    and "A \<union> set js \<subset> {0..<length ps}"
  shows "\<exists>run'. collectChunks (map (chunk_msg cid u ps) js) run = (Ok None, run') \<and>
     collected_chunks cid u ps (A \<union> set js) run'"
  using assms(3-)
proof (induction js arbitrary: A run)
  case (Cons j js)
  have A: "A \<subset> {0..<length ps}" "j < length ps" "insert j A \<noteq> {0..<length ps}"
    using Cons.prems by auto
  obtain run1 where r1: "onHandshakeFinish (chunk_msg cid u ps j) run = (Ok None, run1)"
    "collected_chunks cid u ps (insert j A) run1"
    using onHandshakeFinish_chunk [OF small ne Cons.prems(1) A(1,2)] A(3) by auto
  have "insert j A \<union> set js \<subset> {0..<length ps}"
    using Cons.prems(3) by auto
  then obtain run' where "collectChunks (map (chunk_msg cid u ps) js) run1 = (Ok None, run')"
    "collected_chunks cid u ps (insert j A \<union> set js) run'"
    using Cons.IH [OF r1(2)] Cons.prems(2) by auto
  then show ?case
    using r1(1) by (auto simp: insert_commute)
qed auto

lemma collectChunks_append:
  "collectChunks (xs @ ys) run =
     (case collectChunks xs run of (Inr None, run) \<Rightarrow> collectChunks ys run | other \<Rightarrow> other)"
  by (induction xs arbitrary: run) (auto split: prod.split sum.split option.split)

text \<open>C13 (functional).  The compressed database reaches the client whole: whatever the order in which
  the chunks of the answer arrive, with duplicates before the last missing one, the handshake
  waits until all have arrived and then has the connection id, the sizes and exactly the bytes
  of the database.\<close>

theorem handshake_chunks_combine:
  assumes "length (concat ps) \<le> 1024 * 1024" and "\<forall>p\<in>set ps. p \<noteq> []"
    and "set (js @ [j]) = {0..<length ps}" and "j \<notin> set js"
  shows "(\<exists>run. collectChunks (map (chunk_msg cid u ps) js) (HandshakeRun_new now) = (Ok None, run)) \<and>
     fst (collectChunks (map (chunk_msg cid u ps) (js @ [j])) (HandshakeRun_new now))
       = Ok (Some (whole_answer cid u (concat ps)))"
proof -
  have small: "length (concat ps) \<le> 2 ^ 20"
    using assms(1) by simp
  have st: "collected_chunks cid u ps {} (HandshakeRun_new now)"
    by (simp add: collected_chunks_def HandshakeRun_new_def)
  have js: "\<forall>i\<in>set js. i < length ps" "{} \<union> set js \<subset> {0..<length ps}" "j < length ps"
    using assms(3,4) by auto
  obtain run where run: "collectChunks (map (chunk_msg cid u ps) js) (HandshakeRun_new now) = (Ok None, run)"
    and on: "collected_chunks cid u ps (set js) run"
    using collectChunks_partial [OF small assms(2) st js(1,2)] by auto
  have "insert j (set js) = {0..<length ps}"
    using assms(3) by auto
  then obtain run' where "onHandshakeFinish (chunk_msg cid u ps j) run
      = (Ok (Some (whole_answer cid u (concat ps))), run')"
    using onHandshakeFinish_chunk [OF small assms(2) on _ js(3)] js(2) by auto
  then show ?thesis
    using run by (simp add: collectChunks_append)
qed

theorem handshake_chunks_combine_witness:
  "fst (collectChunks (map (chunk_msg 7 100 [[1, 2], [3], [4, 5]]) [2, 0, 2, 1]) (HandshakeRun_new (0 :: nat)))
     = Ok (Some (whole_answer 7 100 [1, 2, 3, 4, 5]))"
proof -
  have all: "set ([2, 0, 2] @ [1]) = {0..<length [[1, 2], [3], [4, 5 :: u8]]}"
    by (auto simp: atLeastLessThanSuc)
  show ?thesis
    using handshake_chunks_combine [OF _ _ all, of 7 100 "0 :: nat"]
    by (simp del: collectChunks.simps)
qed

end
