(* ===== verification/Net_Address.thy ===== *)
theory Net_Address
  imports Effects "HOL-Library.Multiset"
begin

text \<open>
  What the connection layer shares with its packages: the protocols a connection can use
  (\<open>socket/Socket.hpp\<close>), socket addresses, decimal numbers and \<open>std::sort\<close> with a comparator.
\<close>

section \<open>Protocols\<close>

datatype ConnectionType = Unknown | Tcp | Udp | Quic | WebSocket | WebSocketTls

fun defaultPort :: "ConnectionType \<Rightarrow> u16" where
  "defaultPort WebSocket = 80"
| "defaultPort WebSocketTls = 443"
| "defaultPort _ = DEFAULT_PORT"

section \<open>Addresses\<close>

text \<open>\<open>qsox::IpAddress\<close> and \<open>qsox::SocketAddress\<close> belong to a third-party package: the operations
  the code uses are the fields of a record over an abstract address \<open>'ip\<close> and socket address
  \<open>'a\<close>.\<close>

record ('ip, 'a) addr_ops =
  ad_make :: "'ip \<Rightarrow> u16 \<Rightarrow> 'a"
  ad_setPort :: "u16 \<Rightarrow> 'a \<Rightarrow> 'a"
  ad_isV4 :: "'a \<Rightarrow> bool"
  ad_isV6 :: "'a \<Rightarrow> bool"
  ad_v4Bits :: "'a \<Rightarrow> u32"
  ad_v6Octets :: "'a \<Rightarrow> bytes"
  ad_toString :: "'a \<Rightarrow> string"
  ad_parseIp :: "string \<Rightarrow> 'ip option"
  ad_isIpv6Text :: "string \<Rightarrow> bool"

text \<open>An instance: an address is its family and its number, and \<open>#\<close> followed by digits is read
  as an address of the fourth version.\<close>

definition sample_addr :: "((bool \<times> nat), (bool \<times> nat) \<times> u16) addr_ops" where
  "sample_addr = \<lparr>ad_make = Pair, ad_setPort = (\<lambda>p a. (fst a, p)), ad_isV4 = (\<lambda>a. \<not> fst (fst a)),
     ad_isV6 = (\<lambda>a. fst (fst a)), ad_v4Bits = (\<lambda>a. of_nat (snd (fst a))),
     ad_v6Octets = (\<lambda>a. [of_nat (snd (fst a))]), ad_toString = (\<lambda>a. ''addr''),
     ad_parseIp = (\<lambda>s. if s \<noteq> [] \<and> hd s = CHR ''#'' then Some (False, length s) else None),
     ad_isIpv6Text = (\<lambda>s. False)\<rparr>"

section \<open>Options\<close>

record 'f ConnectionDebugOptions =
  do_verboseSsl :: bool
  do_verboseQuic :: bool
  do_recordStats :: bool
  do_packetLossSimulation :: 'f

record ('d, 'f) ConnectionOptions =
  co_debug :: "'f ConnectionDebugOptions"
  co_activeKeepaliveInterval :: "'d option"

text \<open>The TLS context is null without TLS.\<close>

record ('a, 'd, 'f, 'x) TransportOptions =
  to_address :: 'a
  to_type :: ConnectionType
  to_timeout :: 'd
  to_hostname :: string
  to_path :: string
  to_connOptions :: "('d, 'f) ConnectionOptions"
  to_tlsContext :: "'x option"
  to_reconnecting :: bool

record OutgoingMessage =
  om_message :: QunetMessage
  om_reliable :: bool
  om_uncompressed :: bool
  om_tag :: string

section \<open>Decimal numbers\<close>

definition digit_char :: "nat \<Rightarrow> char" where
  "digit_char n = char_of (48 + n)"

fun decimal :: "nat \<Rightarrow> string" where
  "decimal n = (if n < 10 then [digit_char n] else decimal (n div 10) @ [digit_char (n mod 10)])"

declare decimal.simps [simp del]

definition is_digit :: "char \<Rightarrow> bool" where
  "is_digit c \<longleftrightarrow> 48 \<le> (of_char c :: nat) \<and> (of_char c :: nat) \<le> 57"

definition digit_value :: "char \<Rightarrow> nat" where
  "digit_value c = of_char c - 48"

definition digits_value :: "string \<Rightarrow> nat" where
  "digits_value s = foldl (\<lambda>v c. 10 * v + digit_value c) 0 s"

text \<open>\<open>std::from_chars\<close> into a \<open>uint16_t\<close>: the longest prefix of digits; no value when there is
  none or it does not fit.  What follows the digits is not looked at.\<close>

definition from_chars_u16 :: "string \<Rightarrow> u16 option" where
  "from_chars_u16 s =
     (let ds = takeWhile is_digit s in
      if ds = [] \<or> 65536 \<le> digits_value ds then None else Some (of_nat (digits_value ds)))"

lemma digit_char_simps [simp]:
  assumes "n < 10"
  shows "is_digit (digit_char n)" and "digit_value (digit_char n) = n"
  using assms by (simp_all add: is_digit_def digit_value_def digit_char_def)

lemma decimal_digits: "c \<in> set (decimal n) \<Longrightarrow> is_digit c"
proof (induction n rule: decimal.induct)
  case (1 n)
  then show ?case
    by (subst (asm) (2) decimal.simps) (auto split: if_splits)
qed

lemma decimal_not_empty [simp]: "decimal n \<noteq> []"
  by (subst decimal.simps) simp

lemma digits_value_decimal [simp]: "digits_value (decimal n) = n"
proof (induction n rule: decimal.induct)
  case (1 n)
  then show ?case
    by (subst decimal.simps) (auto simp: digits_value_def)
qed

lemma from_chars_decimal:
  assumes "n < 65536" and "s = [] \<or> \<not> is_digit (hd s)"
  shows "from_chars_u16 (decimal n @ s) = Some (of_nat n)"
proof -
  have "takeWhile is_digit s = []"
    using assms(2) by (cases s) auto
  then have "takeWhile is_digit (decimal n @ s) = decimal n"
    by (subst takeWhile_append2) (auto simp: decimal_digits)
  then show ?thesis
    using assms(1) by (simp add: from_chars_u16_def)
qed

section \<open>Sorting with a comparator\<close>

text \<open>\<open>std::stable_sort\<close>; \<open>std::sort\<close> may order elements that compare equal in another way.\<close>

fun insort_by :: "('a \<Rightarrow> 'a \<Rightarrow> bool) \<Rightarrow> 'a \<Rightarrow> 'a list \<Rightarrow> 'a list" where
  "insort_by lt x [] = [x]"
| "insort_by lt x (y # ys) = (if lt y x then y # insort_by lt x ys else x # y # ys)"

definition sort_by :: "('a \<Rightarrow> 'a \<Rightarrow> bool) \<Rightarrow> 'a list \<Rightarrow> 'a list" where
  "sort_by lt xs = foldr (insort_by lt) xs []"

lemma set_insort_by [simp]: "set (insort_by lt x xs) = insert x (set xs)"
  by (induction xs) auto

lemma length_insort_by [simp]: "length (insort_by lt x xs) = Suc (length xs)"
  by (induction xs) auto

lemma mset_insort_by [simp]: "mset (insort_by lt x xs) = add_mset x (mset xs)"
  by (induction xs) auto

lemma sort_by_simps [simp]:
  "sort_by lt [] = []"
  "sort_by lt (x # xs) = insort_by lt x (sort_by lt xs)"
  by (simp_all add: sort_by_def)

lemma set_sort_by [simp]: "set (sort_by lt xs) = set xs"
  by (induction xs) auto

lemma length_sort_by [simp]: "length (sort_by lt xs) = length xs"
  by (induction xs) auto

lemma mset_sort_by [simp]: "mset (sort_by lt xs) = mset xs"
  by (induction xs) auto

lemma sort_by_eq_Nil [simp]: "sort_by lt xs = [] \<longleftrightarrow> xs = []"
  by (metis length_0_conv length_sort_by)

text \<open>With a comparator that compares the keys of its arguments the result is sorted and stable.\<close>

lemma sort_by_key:
  fixes k :: "'a \<Rightarrow> 'b::linorder"
  shows "sort_by (\<lambda>a b. k a < k b) xs = sort_key k xs"
proof -
  have "insort_by (\<lambda>a b. k a < k b) x ys = insort_key k x ys" for x ys
    by (induction ys) auto
  then have "insort_by (\<lambda>a b. k a < k b) = insort_key k"
    by blast
  then show ?thesis
    by (simp add: sort_by_def sort_key_def)
qed

end
