(* ===== verification/Url_Parser.thy ===== *)
theory Url_Parser
  imports Net_Address
begin

text \<open>
  Parsing of connection addresses (\<open>src/UrlParser.hpp\<close>): protocol, path, port and host.  The
  texts of IP addresses are recognised by the third-party address type.
\<close>

section \<open>The parser\<close>

datatype UrlParseError = UrlSuccess | UrlInvalidProtocol | UrlInvalidPort

datatype ('ip, 'a) UrlValue =
    UrlIpWithPort 'a
  | UrlIp 'ip
  | UrlDomain string
  | UrlDomainWithPort string u16

record ('ip, 'a) UrlParser =
  up_url :: string
  up_path :: string
  up_proto :: "ConnectionType option"
  up_result :: UrlParseError
  up_value :: "('ip, 'a) UrlValue option"

text \<open>\<open>find\<close> of a text and \<open>find_last_of\<close> a character.\<close>

fun find_text :: "string \<Rightarrow> string \<Rightarrow> nat option" where
  "find_text pat [] = (if pat = [] then Some 0 else None)"
| "find_text pat (x # xs) =
     (if take (length pat) (x # xs) = pat then Some 0 else map_option Suc (find_text pat xs))"

fun find_last_of :: "char \<Rightarrow> string \<Rightarrow> nat option" where
  "find_last_of c [] = None"
| "find_last_of c (x # xs) =
     (case find_last_of c xs of Some i \<Rightarrow> Some (Suc i) | None \<Rightarrow> if x = c then Some 0 else None)"

definition parseProtocol :: "string \<Rightarrow> ConnectionType option" where
  "parseProtocol proto =
     (if proto = ''udp'' then Some Udp
      else if proto = ''tcp'' then Some Tcp
      else if proto = ''quic'' then Some Quic
      else if proto = ''ws'' then Some WebSocket
      else if proto = ''wss'' then Some WebSocketTls
      else if proto = ''qunet'' then Some Unknown
      else None)"

definition parsePath :: "('ip, 'a) UrlParser \<Rightarrow> ('ip, 'a) UrlParser" where
  "parsePath p = (case find_text ''/'' (up_url p) of
       None \<Rightarrow> p
     | Some pathPos \<Rightarrow> p\<lparr>up_path := drop pathPos (up_url p), up_url := take pathPos (up_url p)\<rparr>)"

text \<open>Whether the last colon starts a port.  The character before it is read even when the colon
  is the first.\<close>

definition urlHasPort :: "('ip, 'a) addr_ops \<Rightarrow> string \<Rightarrow> nat \<Rightarrow> ('e, bool) outcome" where
  "urlHasPort A url colonPos =
     (if colonPos = 0 then Inl OutOfBounds
      else unwrap (at url (colonPos - 1)) (\<lambda>c.
        if c = CHR '']'' then Ok True else Ok (\<not> ad_isIpv6Text A url)))"

definition stripBrackets :: "string \<Rightarrow> string" where
  "stripBrackets url =
     (if url \<noteq> [] \<and> hd url = CHR ''['' \<and> last url = CHR '']'' then butlast (tl url) else url)"

definition parseHost :: "('ip, 'a) addr_ops \<Rightarrow> u16 option \<Rightarrow> ('ip, 'a) UrlParser \<Rightarrow> ('ip, 'a) UrlParser" where
  "parseHost A port p =
     (let url = stripBrackets (up_url p) in
      p\<lparr>up_url := url, up_value := Some
        (case ad_parseIp A url of
           Some address \<Rightarrow> (case port of Some pt \<Rightarrow> UrlIpWithPort (ad_make A address pt) | None \<Rightarrow> UrlIp address)
         | None \<Rightarrow> (case port of Some pt \<Rightarrow> UrlDomainWithPort url pt | None \<Rightarrow> UrlDomain url))\<rparr>)"

definition parseAuthority :: "('ip, 'a) addr_ops \<Rightarrow> ('ip, 'a) UrlParser \<Rightarrow>
    ('e, ('ip, 'a) UrlParser) outcome" where
  "parseAuthority A p =
     (case find_last_of CHR '':'' (up_url p) of
        None \<Rightarrow> Ok (parseHost A None p)
      | Some colonPos \<Rightarrow>
          unwrap (urlHasPort A (up_url p) colonPos) (\<lambda>hasPort.
          if \<not> hasPort then Ok (parseHost A None p)
          else (case from_chars_u16 (drop (colonPos + 1) (up_url p)) of
                  None \<Rightarrow> Ok (p\<lparr>up_result := UrlInvalidPort\<rparr>)
                | Some port \<Rightarrow> Ok (parseHost A (Some port) (p\<lparr>up_url := take colonPos (up_url p)\<rparr>)))))"

definition UrlParser_parse :: "('ip, 'a) addr_ops \<Rightarrow> ('ip, 'a) UrlParser \<Rightarrow>
    ('e, ('ip, 'a) UrlParser) outcome" where
  "UrlParser_parse A p =
     (case find_text ''://'' (up_url p) of
        None \<Rightarrow> parseAuthority A (parsePath (p\<lparr>up_proto := Some Unknown\<rparr>))
      | Some protoEnd \<Rightarrow>
          (case parseProtocol (take protoEnd (up_url p)) of
             None \<Rightarrow> Ok (p\<lparr>up_result := UrlInvalidProtocol\<rparr>)
           | Some type \<Rightarrow>
               parseAuthority A (parsePath (p\<lparr>up_url := drop (protoEnd + 3) (up_url p), up_proto := Some type\<rparr>))))"

definition UrlParser_new :: "('ip, 'a) addr_ops \<Rightarrow> string \<Rightarrow> ('e, ('ip, 'a) UrlParser) outcome" where
  "UrlParser_new A url = UrlParser_parse A
     \<lparr>up_url = url, up_path = [], up_proto = None, up_result = UrlSuccess, up_value = None\<rparr>"

section \<open>Finding\<close>

lemma find_text_skip:
  assumes "pat \<noteq> []" and "hd pat \<notin> set xs"
  shows "find_text pat (xs @ pat @ ys) = Some (length xs)"
  using assms(2)
proof (induction xs)
  case Nil
  show ?case
    using assms(1) by (cases pat) simp_all
next
  case (Cons x xs)
  then have "take (length pat) (x # xs @ pat @ ys) \<noteq> pat"
    using assms(1) by (cases pat) auto
  then show ?case
    using Cons by simp
qed

lemma find_text_none: "pat \<noteq> [] \<Longrightarrow> hd pat \<notin> set xs \<Longrightarrow> find_text pat xs = None"
  by (induction xs) (auto simp: take_Cons' hd_conv_nth neq_Nil_conv)

lemma find_last_of_none: "find_last_of c xs = None \<longleftrightarrow> c \<notin> set xs"
  by (induction xs) (auto split: option.splits)

lemma find_last_of_append:
  "c \<notin> set ys \<Longrightarrow> find_last_of c (xs @ c # ys) = Some (length xs)"
  by (induction xs) (auto simp: find_last_of_none [THEN iffD2])

section \<open>Every well-formed address is read back\<close>

fun protocol_text :: "ConnectionType \<Rightarrow> string" where
  "protocol_text Udp = ''udp''"
| "protocol_text Tcp = ''tcp''"
| "protocol_text Quic = ''quic''"
| "protocol_text WebSocket = ''ws''"
| "protocol_text WebSocketTls = ''wss''"
| "protocol_text Unknown = ''qunet''"

definition port_text :: "u16 option \<Rightarrow> string" where
  "port_text port = (case port of None \<Rightarrow> [] | Some p \<Rightarrow> CHR '':'' # decimal (unat p))"

definition url_text :: "ConnectionType \<Rightarrow> string \<Rightarrow> u16 option \<Rightarrow> string \<Rightarrow> string" where
  "url_text type host port path = protocol_text type @ ''://'' @ host @ port_text port @ path"

text \<open>A domain name, and a path with its slash.\<close>

definition host_ok :: "('ip, 'a) addr_ops \<Rightarrow> string \<Rightarrow> bool" where
  "host_ok A host \<longleftrightarrow> host \<noteq> [] \<and> set host \<inter> {CHR '':'', CHR ''/'', CHR ''['', CHR '']''} = {} \<and>
     ad_parseIp A host = None \<and> (\<forall>p. \<not> ad_isIpv6Text A (host @ port_text (Some p)))"

lemma protocol_text_parse [simp]: "parseProtocol (protocol_text type) = Some type"
  by (cases type) (simp_all add: parseProtocol_def)

lemma protocol_text_colon [simp]: "CHR '':'' \<notin> set (protocol_text type)"
  by (cases type) simp_all

lemma port_text_chars:
  "CHR ''/'' \<notin> set (port_text port)" "CHR '':'' \<notin> set (decimal n)"
proof -
  have "c \<notin> set (decimal n)" if "\<not> is_digit c" for c n
    using that decimal_digits by blast
  then show "CHR ''/'' \<notin> set (port_text port)" "CHR '':'' \<notin> set (decimal n)"
    by (auto simp: port_text_def is_digit_def split: option.splits)
qed

lemma parsePath_text:
  assumes "CHR ''/'' \<notin> set url" and "path = [] \<or> hd path = CHR ''/''"
    and "up_url p = url @ path" and "up_path p = []"
  shows "parsePath p = p\<lparr>up_url := url, up_path := path\<rparr>"
proof (cases path)
  case Nil
  then show ?thesis
    using assms by (simp add: parsePath_def find_text_none)
next
  case (Cons c cs)
  then have "find_text ''/'' (url @ path) = Some (length url)"
    using assms find_text_skip [of "''/''" url cs] by simp
  then show ?thesis
    using Cons assms by (simp add: parsePath_def)
qed

text \<open>C29 (roundtrip).  An address put together from a protocol, a domain name, an optional port and
  an optional path is parsed to exactly these parts.\<close>

theorem url_parts_recovered:
  fixes A :: "('ip, 'a) addr_ops"
  assumes "host_ok A host" and "path = [] \<or> hd path = CHR ''/''"
  shows "UrlParser_new A (url_text type host port path) = (Ok :: _ \<Rightarrow> ('e, _) outcome) \<lparr>up_url = host, up_path = path,
     up_proto = Some type, up_result = UrlSuccess,
     up_value = Some (case port of None \<Rightarrow> UrlDomain host | Some p \<Rightarrow> UrlDomainWithPort host p)\<rparr>"
proof -
  define rest where "rest = host @ port_text port @ path"
  have slash: "CHR ''/'' \<notin> set (host @ port_text port)"
    using assms(1) port_text_chars(1) by (auto simp: host_ok_def)
  have strip: "stripBrackets host = host"
    using assms(1) by (cases host) (auto simp: host_ok_def stripBrackets_def)
  have "find_text ''://'' (protocol_text type @ ''://'' @ rest) = Some (length (protocol_text type))"
    using find_text_skip [of "''://''" "protocol_text type" rest] by simp
  then have "(UrlParser_new A (url_text type host port path) :: ('e, _) outcome) =
      parseAuthority A \<lparr>up_url = host @ port_text port, up_path = path, up_proto = Some type,
        up_result = UrlSuccess, up_value = None\<rparr>"
    using parsePath_text [OF slash assms(2), of "\<lparr>up_url = rest, up_path = [], up_proto = Some type,
        up_result = UrlSuccess, up_value = None\<rparr> :: ('ip, 'a) UrlParser"]
    by (simp add: UrlParser_new_def UrlParser_parse_def url_text_def rest_def)
  also have "\<dots> = Ok \<lparr>up_url = host, up_path = path,
     up_proto = Some type, up_result = UrlSuccess,
     up_value = Some (case port of None \<Rightarrow> UrlDomain host | Some p \<Rightarrow> UrlDomainWithPort host p)\<rparr>"
  proof (cases port)
    case None
    then have "find_last_of CHR '':'' host = None"
      using assms(1) by (simp add: host_ok_def find_last_of_none)
    then show ?thesis
      using None assms(1) strip
      by (simp add: parseAuthority_def parseHost_def host_ok_def port_text_def)
  next
    case (Some p)
    define url where "url = host @ port_text (Some p)"
    have parts: "url = host @ CHR '':'' # decimal (unat p)"
      by (simp add: url_def port_text_def)
    then have colon: "find_last_of CHR '':'' url = Some (length host)"
      using port_text_chars(2) by (simp add: find_last_of_append)
    have "last host \<in> set host" "CHR '']'' \<notin> set host"
      using assms(1) by (auto simp: host_ok_def)
    then have "last host \<noteq> CHR '']''"
      by metis
    moreover have ne: "host \<noteq> []"
      using assms(1) by (simp add: host_ok_def)
    ultimately have "url ! (length host - 1) \<noteq> CHR '']''"
      by (simp add: parts nth_append last_conv_nth)
    moreover have "length host - 1 < length url"
      using ne by (simp add: parts)
    moreover have "\<not> ad_isIpv6Text A url"
      using assms(1) by (simp add: url_def host_ok_def)
    ultimately have port: "urlHasPort A url (length host) = (Ok True :: ('e, bool) outcome)"
      using ne by (simp add: urlHasPort_def)
    have digits: "from_chars_u16 (drop (Suc (length host)) url) = Some p" "take (length host) url = host"
      using from_chars_decimal [of "unat p" "[]"] by (simp_all add: parts)
    show ?thesis
      unfolding Some url_def [symmetric]
      using assms(1) strip
      by (simp add: parseAuthority_def colon port digits parseHost_def host_ok_def del: drop_append)
  qed
  finally show ?thesis .
qed

theorem url_parts_recovered_witness:
  "UrlParser_new sample_addr ''ws://example.com:81/chat'' = Ok \<lparr>up_url = ''example.com'', up_path = ''/chat'',
     up_proto = Some WebSocket, up_result = UrlSuccess, up_value = Some (UrlDomainWithPort ''example.com'' 81)\<rparr>"
proof -
  have ok: "host_ok sample_addr ''example.com''"
    by (simp add: host_ok_def sample_addr_def)
  have parts: "url_text WebSocket ''example.com'' (Some 81) ''/chat'' = ''ws://example.com:81/chat''"
    by (simp add: url_text_def port_text_def decimal.simps digit_char_def char_of_def bit_Suc bit_0)
  show ?thesis
    using url_parts_recovered [OF ok, of "''/chat''" WebSocket "Some 81"] parts by simp
qed

section \<open>Malformed addresses\<close>

text \<open>An address that starts with its colon makes the parser read before the text.\<close>

lemma url_leading_colon:
  assumes "CHR '':'' \<notin> set port" "CHR ''/'' \<notin> set port"
  shows "UrlParser_new A (CHR '':'' # port) = (Inl OutOfBounds :: ('e, ('ip, 'a) UrlParser) outcome)"
proof -
  have "find_text ''://'' port = None"
    using assms(1) by (intro find_text_none) auto
  moreover have "take (Suc (Suc 0)) port \<noteq> ''//''"
    using assms(2) by (cases port) auto
  moreover have "find_text ''/'' port = None"
    using assms(2) by (intro find_text_none) auto
  ultimately show ?thesis
    using assms(1) find_last_of_append [of "CHR '':''" port "[]"]
    by (simp add: UrlParser_new_def UrlParser_parse_def parsePath_def parseAuthority_def urlHasPort_def)
qed

text \<open>Text after the digits of a port is ignored.\<close>

lemma url_port_garbage:
  "UrlParser_new sample_addr ''example.com:80abc'' = (Ok \<lparr>up_url = ''example.com'', up_path = [],
     up_proto = Some Unknown, up_result = UrlSuccess,
     up_value = Some (UrlDomainWithPort ''example.com'' 80)\<rparr> :: ('e, _) outcome)"
  by (simp add: UrlParser_new_def UrlParser_parse_def parsePath_def parseAuthority_def urlHasPort_def
      sample_addr_def from_chars_u16_def Let_def is_digit_def digits_value_def digit_value_def
      parseHost_def stripBrackets_def)

end
