(* ===== verification/Pinger.thy ===== *)
theory Pinger
  imports Url_Parser Padding
begin

text \<open>
  The pinger (\<open>Pinger.hpp\<close>, \<open>Pinger.cpp\<close>): pings are sent to addresses, the pongs are matched by
  their id, the protocols of a server are cached, and pings without an answer time out.

  A callback is a token \<open>'cb\<close>; \<open>pg_calls\<close> records the callbacks invoked and what they got.  The
  cache (\<open>asp::Cache\<close>) and the IPv6 form of an address belong to third-party packages.
\<close>

section \<open>State\<close>

record SupportedProtocol =
  sp_protocolId :: u8
  sp_port :: u16

record 'd PingResult =
  pr_pingId :: u32
  pr_responseTime :: 'd
  pr_protocols :: "SupportedProtocol list"
  pr_extraData :: bytes
  pr_timedOut :: bool
  pr_errored :: bool

definition PingResult_new :: "'d \<Rightarrow> u32 \<Rightarrow> 'd PingResult" where
  "PingResult_new zero pingId = \<lparr>pr_pingId = pingId, pr_responseTime = zero, pr_protocols = [],
     pr_extraData = [], pr_timedOut = False, pr_errored = False\<rparr>"

record ('i, 'cb) OutgoingPing =
  op_sentAt :: 'i
  op_callback :: 'cb
  op_pingId :: u32

record 'd CachedPing =
  cp_responseTime :: 'd
  cp_protocols :: "SupportedProtocol list"

record ('a, 'k, 'c, 'd, 'i) pinger_ops =
  po_toV6 :: "'a \<Rightarrow> 'k"
  po_mappedV6 :: "'a \<Rightarrow> 'k"
  po_cacheGet :: "'i \<Rightarrow> 'k \<Rightarrow> 'c \<Rightarrow> 'd CachedPing option"
  po_cacheInsert :: "'i \<Rightarrow> 'k \<Rightarrow> 'd CachedPing \<Rightarrow> 'c \<Rightarrow> 'c"
  po_cacheUpdate :: "'k \<Rightarrow> 'd CachedPing \<Rightarrow> 'c \<Rightarrow> 'c"
  po_instantPlus :: "'i \<Rightarrow> 'd \<Rightarrow> 'i"
  po_instantLess :: "'i \<Rightarrow> 'i \<Rightarrow> bool"
  po_farFuture :: 'i

record ('a, 'c, 'd, 'i, 'cb) Pinger =
  pg_requests :: "('a \<times> 'cb) list"
  pg_socket :: bool
  pg_outgoingPings :: "('i, 'cb) OutgoingPing list"
  pg_nextPingId :: u32
  pg_cache :: 'c
  pg_padRng :: QunetPadRNG
  pg_wire :: "(bytes \<times> 'a) list"
  pg_calls :: "('cb \<times> 'd PingResult) list"

definition Pinger_new :: "'c \<Rightarrow> QunetPadRNG \<Rightarrow> ('a, 'c, 'd, 'i, 'cb) Pinger" where
  "Pinger_new cache rng = \<lparr>pg_requests = [], pg_socket = False, pg_outgoingPings = [],
     pg_nextPingId = 0, pg_cache = cache, pg_padRng = rng, pg_wire = [], pg_calls = []\<rparr>"

definition PING_TIMEOUT :: "('d, 'i, 'f) time_ops \<Rightarrow> 'd" where
  "PING_TIMEOUT T = tm_fromMillis T 1500"

definition toV6 :: "('ip, 'a) addr_ops \<Rightarrow> ('a, 'k, 'c, 'd, 'i) pinger_ops \<Rightarrow> 'a \<Rightarrow> 'k" where
  "toV6 A P addr = (if ad_isV6 A addr then po_toV6 P addr else po_mappedV6 P addr)"

definition invokeCallback :: "'cb \<Rightarrow> 'd PingResult \<Rightarrow> ('a, 'c, 'd, 'i, 'cb) Pinger \<Rightarrow>
    ('a, 'c, 'd, 'i, 'cb) Pinger" where
  "invokeCallback cb result p = p\<lparr>pg_calls := pg_calls p @ [(cb, result)]\<rparr>"

section \<open>Requests\<close>

text \<open>The channel holds 128 requests; a request that finds it full is dropped.\<close>

definition Pinger_ping :: "'a \<Rightarrow> 'cb \<Rightarrow> ('a, 'c, 'd, 'i, 'cb) Pinger \<Rightarrow> ('a, 'c, 'd, 'i, 'cb) Pinger" where
  "Pinger_ping address cb p =
     (if length (pg_requests p) < 128 then p\<lparr>pg_requests := pg_requests p @ [(address, cb)]\<rparr> else p)"

text \<open>\<open>resolveAndPing\<close>: the outcome of the query is \<open>query\<close> for its start and \<open>record\<close> for the answer
  (None as long as it has not come).\<close>

definition resolveAndPing :: "('ip, 'a) addr_ops \<Rightarrow> (string \<Rightarrow> (string, unit) outcome) \<Rightarrow>
    (string \<Rightarrow> (string, 'ip list) outcome option) \<Rightarrow> string \<Rightarrow> u16 \<Rightarrow> 'cb \<Rightarrow>
    ('a, 'c, 'd, 'i, 'cb) Pinger \<Rightarrow> (string, unit) outcome \<times> ('a, 'c, 'd, 'i, 'cb) Pinger" where
  "resolveAndPing A queryA record domain port cb p =
     (case queryA domain of
        Inl (Failed err) \<Rightarrow> (Err (''Failed to query A record for '' @ domain @ '': '' @ err), p)
      | Inl e \<Rightarrow> (Inl e, p)
      | Inr _ \<Rightarrow>
          (case record domain of
             Some (Inr []) \<Rightarrow> (Inl AssertionFailed, p)
           | Some (Inr (addr # _)) \<Rightarrow> (Ok (), Pinger_ping (ad_make A addr port) cb p)
           | _ \<Rightarrow> (Ok (), p)))"

definition pingUrl :: "('ip, 'a) addr_ops \<Rightarrow> (string \<Rightarrow> (string, unit) outcome) \<Rightarrow>
    (string \<Rightarrow> (string, 'ip list) outcome option) \<Rightarrow> string \<Rightarrow> 'cb \<Rightarrow>
    ('a, 'c, 'd, 'i, 'cb) Pinger \<Rightarrow> (string, unit) outcome \<times> ('a, 'c, 'd, 'i, 'cb) Pinger" where
  "pingUrl A queryA record url cb p =
     step_then (UrlParser_new A url, p) (\<lambda>parser p.
       (case up_result parser of
          UrlInvalidProtocol \<Rightarrow> (Err ''Invalid protocol in URL'', p)
        | UrlInvalidPort \<Rightarrow> (Err ''Invalid port in URL'', p)
        | UrlSuccess \<Rightarrow>
            (case up_value parser of
               Some (UrlIpWithPort address) \<Rightarrow> (Ok (), Pinger_ping address cb p)
             | Some (UrlIp ip) \<Rightarrow> (Ok (), Pinger_ping (ad_make A ip (defaultPort Udp)) cb p)
             | Some (UrlDomainWithPort domain port) \<Rightarrow> resolveAndPing A queryA record domain port cb p
             | Some (UrlDomain domain) \<Rightarrow> resolveAndPing A queryA record domain (defaultPort Udp) cb p
             | None \<Rightarrow> (Inl AssertionFailed, p))))"

definition getCached :: "('ip, 'a) addr_ops \<Rightarrow> ('a, 'k, 'c, 'd, 'i) pinger_ops \<Rightarrow> ('d, 'i, 'f) time_ops \<Rightarrow>
    'i \<Rightarrow> 'a \<Rightarrow> ('a, 'c, 'd, 'i, 'cb) Pinger \<Rightarrow> 'd PingResult option" where
  "getCached A P T now address p =
     (case po_cacheGet P now (toV6 A P address) (pg_cache p) of
        None \<Rightarrow> None
      | Some entry \<Rightarrow> Some ((PingResult_new (tm_zero T) 0)
          \<lparr>pr_responseTime := cp_responseTime entry, pr_protocols := cp_protocols entry\<rparr>))"

definition isCached :: "('ip, 'a) addr_ops \<Rightarrow> ('a, 'k, 'c, 'd, 'i) pinger_ops \<Rightarrow> ('d, 'i, 'f) time_ops \<Rightarrow>
    'i \<Rightarrow> 'a \<Rightarrow> ('a, 'c, 'd, 'i, 'cb) Pinger \<Rightarrow> bool" where
  "isCached A P T now address p \<longleftrightarrow> getCached A P T now address p \<noteq> None"

section \<open>The worker\<close>

text \<open>\<open>thrDoPing\<close>: \<open>sent\<close> tells whether the datagram was sent.\<close>

definition thrDoPing :: "('ip, 'a) addr_ops \<Rightarrow> ('a, 'k, 'c, 'd, 'i) pinger_ops \<Rightarrow> ('d, 'i, 'f) time_ops \<Rightarrow>
    'w byte_writer \<Rightarrow> (u64 \<Rightarrow> bytes) \<Rightarrow> 'i \<Rightarrow> bool \<Rightarrow> 'a \<Rightarrow> 'cb \<Rightarrow> ('a, 'c, 'd, 'i, 'cb) Pinger \<Rightarrow>
    ('a, 'c, 'd, 'i, 'cb) Pinger TransportResult" where
  "thrDoPing A P T W raw now sent address cb p =
     (let pingId = pg_nextPingId p + 1;
          p = p\<lparr>pg_nextPingId := pingId\<rparr>;
          writer = bw_writeU8 W (bw_new W) MSG_PING;
          writer = bw_writeU32 W writer pingId;
          writer = bw_writeU8 W writer (if isCached A P T now address p then 1 else 0)
      in unwrap (must (padMessageToMinimum W raw (pg_padRng p) writer)) (\<lambda>(rng, writer).
         let p = p\<lparr>pg_padRng := rng\<rparr> in
         if \<not> sent then
           Ok (invokeCallback cb ((PingResult_new (tm_zero T) pingId)\<lparr>pr_errored := True\<rparr>) p)
         else
           Ok (p\<lparr>pg_wire := pg_wire p @ [(bw_written W writer, address)],
             pg_outgoingPings := pg_outgoingPings p @
               [\<lparr>op_sentAt = now, op_callback = cb, op_pingId = pingId\<rparr>]\<rparr>)))"

fun readProtocols :: "'r byte_reader \<Rightarrow> nat \<Rightarrow> SupportedProtocol list \<Rightarrow> 'r \<Rightarrow>
    (string, SupportedProtocol list \<times> 'r) outcome" where
  "readProtocols R 0 protos reader = Ok (protos, reader)"
| "readProtocols R (Suc n) protos reader =
     unwrap (br_readU8 R reader) (\<lambda>(protocolId, reader).
     unwrap (br_readU16 R reader) (\<lambda>(port, reader).
     readProtocols R n (protos @ [\<lparr>sp_protocolId = protocolId, sp_port = port\<rparr>]) reader))"

definition thrParsePingResponse :: "'r byte_reader \<Rightarrow> ('d, 'i, 'f) time_ops \<Rightarrow> bytes \<Rightarrow>
    (string, 'd PingResult) outcome" where
  "thrParsePingResponse R T data =
     (let reader = br_open R data;
          (code, reader) = (case br_readU8 R reader of Inr v \<Rightarrow> v | Inl _ \<Rightarrow> (0, reader))
      in if code \<noteq> MSG_PONG then Err (''invalid ping response received, code '' @ decimal (unat code))
         else
           unwrap (br_readU32 R reader) (\<lambda>(pingId, reader).
           unwrap (br_readU8 R reader) (\<lambda>(protocolCount, reader).
           unwrap (readProtocols R (unat protocolCount) [] reader) (\<lambda>(protocols, reader).
           unwrap (br_readU16 R reader) (\<lambda>(extraDataSize, reader).
           let result = (PingResult_new (tm_zero T) pingId)\<lparr>pr_protocols := protocols\<rparr> in
           if 0 < extraDataSize then
             unwrap (br_readBytes R reader (unat extraDataSize)) (\<lambda>(extra, reader).
             Ok (result\<lparr>pr_extraData := extra\<rparr>))
           else Ok result)))))"

definition thrDispatchResult :: "('ip, 'a) addr_ops \<Rightarrow> ('a, 'k, 'c, 'd, 'i) pinger_ops \<Rightarrow>
    ('d, 'i, 'f) time_ops \<Rightarrow> 'i \<Rightarrow> 'd PingResult \<Rightarrow> 'a \<Rightarrow> ('a, 'c, 'd, 'i, 'cb) Pinger \<Rightarrow>
    ('a, 'c, 'd, 'i, 'cb) Pinger" where
  "thrDispatchResult A P T now result address p =
     (case find (\<lambda>ping. op_pingId ping = pr_pingId result) (pg_outgoingPings p) of
        None \<Rightarrow> p
      | Some it \<Rightarrow>
          let result = result\<lparr>pr_responseTime := tm_elapsed T now (op_sentAt it)\<rparr>;
              v6 = toV6 A P address;
              cacheEntry = po_cacheGet P now v6 (pg_cache p);
              result = (case cacheEntry of
                  Some entry \<Rightarrow> if pr_protocols result = [] then result\<lparr>pr_protocols := cp_protocols entry\<rparr> else result
                | None \<Rightarrow> result);
              entry = \<lparr>cp_responseTime = pr_responseTime result, cp_protocols = pr_protocols result\<rparr>;
              cache = (case cacheEntry of
                  None \<Rightarrow> po_cacheInsert P now v6 entry (pg_cache p)
                | Some _ \<Rightarrow> po_cacheUpdate P v6 entry (pg_cache p));
              p = invokeCallback (op_callback it) result (p\<lparr>pg_cache := cache\<rparr>)
          in p\<lparr>pg_outgoingPings := remove_first (\<lambda>ping. op_pingId ping = pr_pingId result) (pg_outgoingPings p)\<rparr>)"

text \<open>The loop over the pings; the first argument are those it has passed and kept.\<close>

fun removeTimedOut :: "('d, 'i, 'f) time_ops \<Rightarrow> 'i \<Rightarrow> ('i, 'cb) OutgoingPing list \<Rightarrow>
    ('i, 'cb) OutgoingPing list \<Rightarrow> ('a, 'c, 'd, 'i, 'cb) Pinger \<Rightarrow> ('a, 'c, 'd, 'i, 'cb) Pinger" where
  "removeTimedOut T now kept [] p = p\<lparr>pg_outgoingPings := kept\<rparr>"
| "removeTimedOut T now kept (ping # pings) p =
     (if tm_less T (PING_TIMEOUT T) (tm_elapsed T now (op_sentAt ping)) then
        removeTimedOut T now kept pings
          (invokeCallback (op_callback ping) ((PingResult_new (tm_zero T) (op_pingId ping))\<lparr>pr_timedOut := True\<rparr>) p)
      else removeTimedOut T now (kept @ [ping]) pings p)"

definition thrRemoveTimedOutPings :: "('d, 'i, 'f) time_ops \<Rightarrow> 'i \<Rightarrow> ('a, 'c, 'd, 'i, 'cb) Pinger \<Rightarrow>
    ('a, 'c, 'd, 'i, 'cb) Pinger" where
  "thrRemoveTimedOutPings T now p = removeTimedOut T now [] (pg_outgoingPings p) p"

definition nextPingTimeout :: "('a, 'k, 'c, 'd, 'i) pinger_ops \<Rightarrow> ('d, 'i, 'f) time_ops \<Rightarrow>
    ('a, 'c, 'd, 'i, 'cb) Pinger \<Rightarrow> 'i" where
  "nextPingTimeout P T p =
     foldl (\<lambda>nextTimeout ping.
         let pingTimeout = po_instantPlus P (op_sentAt ping) (PING_TIMEOUT T)
         in if po_instantLess P pingTimeout nextTimeout then pingTimeout else nextTimeout)
       (po_farFuture P) (pg_outgoingPings p)"

definition recreateSocket :: "bool \<Rightarrow> ('a, 'c, 'd, 'i, 'cb) Pinger \<Rightarrow> ('a, 'c, 'd, 'i, 'cb) Pinger" where
  "recreateSocket bound p = (if bound then p\<lparr>pg_socket := True\<rparr> else p)"

text \<open>What the worker waits for: a request (sent or not), a datagram or an error of the socket
  (\<open>reset\<close> is \<open>ConnectionReset\<close>), the next timeout.  Without a socket an iteration only tries to
  create one.  \<open>Submit\<close> is a call of \<open>ping\<close> by a client.\<close>

datatype ('a, 'i, 'cb) PingerEvent =
    Submit 'a 'cb
  | SocketBound bool
  | Request 'i bool
  | Response 'i 'a bytes
  | ReceiveError bool
  | TimeoutReached 'i

record ('ip, 'a, 'k, 'c, 'd, 'i, 'f, 'r, 'w) pinger_env =
  pe_addr :: "('ip, 'a) addr_ops"
  pe_ops :: "('a, 'k, 'c, 'd, 'i) pinger_ops"
  pe_time :: "('d, 'i, 'f) time_ops"
  pe_reader :: "'r byte_reader"
  pe_writer :: "'w byte_writer"
  pe_raw :: "u64 \<Rightarrow> bytes"

fun workerLoop :: "('ip, 'a, 'k, 'c, 'd, 'i, 'f, 'r, 'w) pinger_env \<Rightarrow> ('a, 'i, 'cb) PingerEvent \<Rightarrow>
    ('a, 'c, 'd, 'i, 'cb) Pinger \<Rightarrow> ('a, 'c, 'd, 'i, 'cb) Pinger TransportResult" where
  "workerLoop E (Submit address cb) p = Ok (Pinger_ping address cb p)"
| "workerLoop E (SocketBound bound) p = Ok (if pg_socket p then p else recreateSocket bound p)"
| "workerLoop E (Request now sent) p =
     (if \<not> pg_socket p then Ok p
      else case pg_requests p of
        [] \<Rightarrow> Ok p
      | (address, cb) # rest \<Rightarrow>
          thrDoPing (pe_addr E) (pe_ops E) (pe_time E) (pe_writer E) (pe_raw E) now sent address cb
            (p\<lparr>pg_requests := rest\<rparr>))"
| "workerLoop E (Response now src data) p =
     (if \<not> pg_socket p then Ok p
      else case thrParsePingResponse (pe_reader E) (pe_time E) (take 256 data) of
        Inl _ \<Rightarrow> Ok p
      | Inr result \<Rightarrow> Ok (thrDispatchResult (pe_addr E) (pe_ops E) (pe_time E) now result src p))"
| "workerLoop E (ReceiveError reset) p =
     Ok (if \<not> pg_socket p \<or> reset then p else p\<lparr>pg_socket := False\<rparr>)"
| "workerLoop E (TimeoutReached now) p =
     Ok (if \<not> pg_socket p then p else thrRemoveTimedOutPings (pe_time E) now p)"

section \<open>Every accepted ping is answered at most once\<close>

text \<open>The callbacks that wait, in the channel or for a pong, and those that were invoked.\<close>

definition waiting_pings :: "('a, 'c, 'd, 'i, 'cb) Pinger \<Rightarrow> 'cb multiset" where
  "waiting_pings p = mset (map snd (pg_requests p)) + mset (map op_callback (pg_outgoingPings p))"

definition answered_pings :: "('a, 'c, 'd, 'i, 'cb) Pinger \<Rightarrow> 'cb multiset" where
  "answered_pings p = mset (map fst (pg_calls p))"

definition known_pings :: "('a, 'c, 'd, 'i, 'cb) Pinger \<Rightarrow> 'cb multiset" where
  "known_pings p = waiting_pings p + answered_pings p"

lemmas pings_defs = known_pings_def waiting_pings_def answered_pings_def

lemma mset_remove_first:
  "find P xs = Some x \<Longrightarrow> mset xs = add_mset x (mset (remove_first P xs))"
  by (induction xs) (auto split: if_splits)

lemma mset_remove_first_image:
  assumes "find P xs = Some x"
  shows "image_mset f (mset xs) = add_mset (f x) (image_mset f (mset (remove_first P xs)))"
  using mset_remove_first [OF assms] by simp

lemma dispatch_known: "known_pings (thrDispatchResult A P T now result address p) = known_pings p"
proof (cases "find (\<lambda>ping. op_pingId ping = pr_pingId result) (pg_outgoingPings p)")
  case (Some it)
  have "known_pings (thrDispatchResult A P T now result address p) =
      mset (map snd (pg_requests p)) +
      image_mset op_callback (mset (remove_first (\<lambda>ping. op_pingId ping = pr_pingId result) (pg_outgoingPings p))) +
      add_mset (op_callback it) (mset (map fst (pg_calls p)))"
    using Some
    by (simp add: thrDispatchResult_def Let_def pings_defs invokeCallback_def
        split: option.splits if_splits)
  then show ?thesis
    using mset_remove_first_image [OF Some, of op_callback] by (simp add: pings_defs)
qed (simp add: thrDispatchResult_def)

lemma removeTimedOut_known:
  "known_pings (removeTimedOut T now kept pings p) =
     mset (map snd (pg_requests p)) + mset (map op_callback (kept @ pings)) + answered_pings p"
  by (induction T now kept pings p rule: removeTimedOut.induct)
    (simp_all add: pings_defs invokeCallback_def)

lemma doPing_known:
  assumes "thrDoPing A P T W raw now sent address cb p = Ok p'"
  shows "known_pings p' = add_mset cb (known_pings p)"
  using assms
  by (auto simp: thrDoPing_def Let_def unwrap_eq_Inr pings_defs invokeCallback_def split: if_splits)

definition new_ping :: "('a, 'i, 'cb) PingerEvent \<Rightarrow> ('a, 'c, 'd, 'i, 'cb) Pinger \<Rightarrow> 'cb multiset" where
  "new_ping ev p = (case ev of Submit _ cb \<Rightarrow> if length (pg_requests p) < 128 then {#cb#} else {#} | _ \<Rightarrow> {#})"

lemma workerLoop_known:
  assumes "workerLoop E ev p = Ok p'"
  shows "known_pings p' = new_ping ev p + known_pings p"
proof (cases ev)
  case (Submit address cb)
  then show ?thesis
    using assms by (auto simp: Pinger_ping_def new_ping_def pings_defs)
next
  case (Request now sent)
  show ?thesis
  proof (cases "pg_socket p \<and> pg_requests p \<noteq> []")
    case True
    then obtain address cb rest where req: "pg_requests p = (address, cb) # rest"
      by (cases "pg_requests p") auto
    then show ?thesis
      using assms True Request doPing_known [of "pe_addr E" "pe_ops E" "pe_time E" "pe_writer E" "pe_raw E"
          now sent address cb "p\<lparr>pg_requests := rest\<rparr>" p']
      by (simp add: new_ping_def pings_defs)
  next
    case False
    then show ?thesis
      using assms Request by (cases "pg_requests p") (auto simp: new_ping_def split: if_splits)
  qed
next
  case (Response now src data)
  then show ?thesis
    using assms dispatch_known by (auto simp: new_ping_def split: if_splits sum.splits)
next
  case (TimeoutReached now)
  then show ?thesis
    using assms removeTimedOut_known [of "pe_time E" now "[]" "pg_outgoingPings p" p]
    by (auto simp: new_ping_def thrRemoveTimedOutPings_def pings_defs)
qed (use assms in \<open>auto simp: new_ping_def pings_defs recreateSocket_def split: if_splits\<close>)

text \<open>A run of the pinger, with the callbacks it accepted.\<close>

fun runPinger :: "('ip, 'a, 'k, 'c, 'd, 'i, 'f, 'r, 'w) pinger_env \<Rightarrow> ('a, 'i, 'cb) PingerEvent list \<Rightarrow>
    ('a, 'c, 'd, 'i, 'cb) Pinger \<Rightarrow> ('cb multiset \<times> ('a, 'c, 'd, 'i, 'cb) Pinger) TransportResult" where
  "runPinger E [] p = Ok ({#}, p)"
| "runPinger E (ev # evs) p =
     unwrap (workerLoop E ev p) (\<lambda>p'.
     unwrap (runPinger E evs p') (\<lambda>(accepted, p''). Ok (new_ping ev p + accepted, p'')))"

lemma runPinger_known:
  "runPinger E evs p = Ok (accepted, p') \<Longrightarrow> known_pings p' = accepted + known_pings p"
proof (induction evs arbitrary: p accepted)
  case (Cons ev evs)
  then obtain p1 acc1 where step: "workerLoop E ev p = Ok p1" "runPinger E evs p1 = Ok (acc1, p')"
    "accepted = new_ping ev p + acc1"
    by (auto simp: unwrap_eq_Inr)
  then show ?case
    using Cons.IH [OF step(2)] workerLoop_known [OF step(1)] by simp
qed simp

context dbuf_laws
begin

lemma workerLoop_ok:
  assumes "\<And>x. length (raw x) = 8" and "pe_writer E = W" and "pe_raw E = raw"
  shows "\<exists>p'. workerLoop E ev p = Ok p'"
proof (cases ev)
  case (Request now sent)
  have "\<exists>q'. thrDoPing A P T W raw now sent address cb q = Ok q'" for A P T address cb q
  proof -
    obtain rng' w' pad where pad: "padMessageToMinimum W raw (pg_padRng q)
        (bw_writeU8 W (bw_writeU32 W (bw_writeU8 W (bw_new W) MSG_PING) (pg_nextPingId q + 1))
          (if isCached A P T now address (q\<lparr>pg_nextPingId := pg_nextPingId q + 1\<rparr>) then 1 else 0)) = Ok (rng', w')"
      using padMessageToMinimum_holds [where raw = raw, OF assms(1) refl] by blast
    then show ?thesis
      by (simp add: thrDoPing_def Let_def)
  qed
  then show ?thesis
    using Request assms by (auto split: list.splits)
qed (auto split: sum.splits)

lemma runPinger_ok:
  assumes "\<And>x. length (raw x) = 8" and "pe_writer E = W" and "pe_raw E = raw"
  shows "\<exists>accepted p'. runPinger E evs p = Ok (accepted, p')"
proof (induction evs arbitrary: p)
  case (Cons ev evs)
  obtain p1 where "workerLoop E ev p = Ok p1"
    using workerLoop_ok [where raw = raw, OF assms] by blast
  then show ?case
    using Cons [of p1] by auto
qed simp

end

text \<open>After the timer, no ping waits longer than its timeout.\<close>

lemma removeTimedOut_kept:
  "pg_outgoingPings (removeTimedOut T now kept pings p) =
     kept @ filter (\<lambda>ping. \<not> tm_less T (PING_TIMEOUT T) (tm_elapsed T now (op_sentAt ping))) pings"
  by (induction T now kept pings p rule: removeTimedOut.induct) simp_all

text \<open>C12 (invariant).  The worker of the pinger never fails, and every accepted ping is in exactly one
  place: it waits, or its callback was invoked once (with a pong, an error or a timeout).  A timer
  event leaves no ping waiting for longer than the timeout.\<close>

theorem pings_answered_once:
  assumes "dbuf_laws C (pe_reader E) rest adv (pe_writer E)" and "\<And>x. length (pe_raw E x) = 8"
  shows "(\<exists>accepted p. runPinger E evs (Pinger_new cache rng) = Ok (accepted, p) \<and>
       accepted = waiting_pings p + answered_pings p) \<and>
     (\<forall>p now. \<not> (\<exists>ping\<in>set (pg_outgoingPings (thrRemoveTimedOutPings (pe_time E) now p)).
        tm_less (pe_time E) (PING_TIMEOUT (pe_time E)) (tm_elapsed (pe_time E) now (op_sentAt ping))))"
proof -
  obtain accepted p where run: "runPinger E evs (Pinger_new cache rng) = Ok (accepted, p)"
    using dbuf_laws.runPinger_ok [OF assms refl refl] by blast
  then show ?thesis
    using runPinger_known [OF run]
    by (auto simp: pings_defs Pinger_new_def thrRemoveTimedOutPings_def removeTimedOut_kept)
qed

definition sample_pinger_ops :: "((bool \<times> nat) \<times> u16, (bool \<times> nat) \<times> u16,
    (bool \<times> nat) \<times> u16 \<Rightarrow> nat CachedPing option, nat, nat) pinger_ops" where
  "sample_pinger_ops = \<lparr>po_toV6 = (\<lambda>a. a), po_mappedV6 = (\<lambda>a. ((True, snd (fst a)), snd a)),
     po_cacheGet = (\<lambda>now k c. c k), po_cacheInsert = (\<lambda>now k v c. c(k \<mapsto> v)),
     po_cacheUpdate = (\<lambda>k v c. c(k \<mapsto> v)), po_instantPlus = (+), po_instantLess = (<),
     po_farFuture = 2 ^ 63\<rparr>"

definition sample_pinger :: "((bool \<times> nat), (bool \<times> nat) \<times> u16, (bool \<times> nat) \<times> u16,
    (bool \<times> nat) \<times> u16 \<Rightarrow> nat CachedPing option, nat, nat, nat, bytes, list_writer_state) pinger_env" where
  "sample_pinger = \<lparr>pe_addr = sample_addr, pe_ops = sample_pinger_ops, pe_time = nat_time,
     pe_reader = list_reader, pe_writer = list_writer, pe_raw = put_le 8\<rparr>"

theorem pings_answered_once_witness:
  "\<exists>accepted p. runPinger sample_pinger [SocketBound True, Submit ((False, 1), 4340) ''a'', Request 5 True,
       TimeoutReached 2000000000] (Pinger_new Map.empty (QunetPadRNG_new 1 2 3)) = Ok (accepted, p) \<and>
     accepted = waiting_pings p + answered_pings p"
proof -
  have laws: "dbuf_laws le_codec (pe_reader sample_pinger) list_rest list_adv (pe_writer sample_pinger)"
    using ref.dbuf_laws_axioms by (simp add: sample_pinger_def)
  have raw: "length (pe_raw sample_pinger x) = 8" for x
    by (simp add: sample_pinger_def)
  show ?thesis
    using pings_answered_once [OF laws raw] by (rule conjunct1)
qed

section \<open>Pongs\<close>

definition pong_bytes :: "byte_codec \<Rightarrow> u32 \<Rightarrow> SupportedProtocol list \<Rightarrow> bytes \<Rightarrow> bytes" where
  "pong_bytes C pingId protocols extra =
     MSG_PONG # put32 C pingId @ [of_nat (length protocols)] @
     concat (map (\<lambda>sp. sp_protocolId sp # put16 C (sp_port sp)) protocols) @
     put16 C (of_nat (length extra)) @ extra"

context dbuf_laws
begin

lemma readProtocols_bytes:
  "rest r = concat (map (\<lambda>sp. sp_protocolId sp # put16 C (sp_port sp)) protocols) @ bs \<Longrightarrow>
   \<exists>r'. readProtocols R (length protocols) protos r = Ok (protos @ protocols, r') \<and> rest r' = bs"
proof (induction protocols arbitrary: protos r)
  case (Cons sp protocols)
  have a: "rest (adv r 1) = put16 C (sp_port sp) @
      concat (map (\<lambda>sp. sp_protocolId sp # put16 C (sp_port sp)) protocols) @ bs"
    using Cons.prems by simp
  have b: "rest (adv (adv r 1) 2) = concat (map (\<lambda>sp. sp_protocolId sp # put16 C (sp_port sp)) protocols) @ bs"
    using a by simp
  obtain r' where "readProtocols R (length protocols) (protos @ [sp]) (adv (adv r 1) 2)
      = Ok ((protos @ [sp]) @ protocols, r')" "rest r' = bs"
    using Cons.IH [OF b] by blast
  then show ?case
    using Cons.prems a by (cases sp) (simp add: reads)
qed auto

text \<open>A pong with at most 255 protocols is read back.\<close>

lemma pong_parsed:
  assumes "length protocols \<le> 255" and "length extra < 65536"
  shows "thrParsePingResponse R T (pong_bytes C pingId protocols extra) =
     Ok ((PingResult_new (tm_zero T) pingId)\<lparr>pr_protocols := protocols, pr_extraData := extra\<rparr>)"
proof -
  define bs where "bs = put16 C (of_nat (length extra)) @ extra"
  define ps where "ps = concat (map (\<lambda>sp. sp_protocolId sp # put16 C (sp_port sp)) protocols) @ bs"
  define r0 where "r0 = br_open R (pong_bytes C pingId protocols extra)"
  have r0: "rest r0 = MSG_PONG # put32 C pingId @ [of_nat (length protocols)] @ ps"
    by (simp add: r0_def ps_def bs_def pong_bytes_def)
  then have r1: "rest (adv r0 1) = put32 C pingId @ [of_nat (length protocols)] @ ps"
    by simp
  then have r2: "rest (adv (adv r0 1) 4) = of_nat (length protocols) # ps"
    by simp
  then have r3: "rest (adv (adv (adv r0 1) 4) 1) = ps"
    by simp
  obtain r4 where p: "readProtocols R (length protocols) [] (adv (adv (adv r0 1) 4) 1) = Ok (protocols, r4)"
    and r4: "rest r4 = bs"
    using readProtocols_bytes [of _ protocols bs "[]"] r3 by (auto simp: ps_def)
  have n: "unat (of_nat (length protocols) :: u8) = length protocols"
    "unat (of_nat (length extra) :: u16) = length extra"
    using assms by (simp_all add: unat_of_nat)
  have r5: "rest (adv r4 2) = extra"
    using r4 by (simp add: bs_def)
  have "thrParsePingResponse R T (pong_bytes C pingId protocols extra) =
      unwrap (br_readU16 R r4) (\<lambda>(extraDataSize, reader).
        let result = (PingResult_new (tm_zero T) pingId)\<lparr>pr_protocols := protocols\<rparr> in
        if 0 < extraDataSize then
          unwrap (br_readBytes R reader (unat extraDataSize)) (\<lambda>(extra, reader). Ok (result\<lparr>pr_extraData := extra\<rparr>))
        else Ok result)"
    using r0 r1 r2 p n(1)
    by (simp add: thrParsePingResponse_def r0_def [symmetric] Let_def reads)
  also have "br_readU16 R r4 = Ok (of_nat (length extra), adv r4 2)"
    using r4 by (simp add: reads bs_def)
  finally show ?thesis
    using r5 n(2) by (cases extra) (auto simp: reads Let_def PingResult_new_def word_less_nat_alt)
qed

end

text \<open>The address of a pong is not compared with the address of the ping: the pong of any server
  answers it, and its protocols are cached for the address it came from.\<close>

lemma pong_matched_by_id_only:
  "pg_calls (thrDispatchResult sample_addr sample_pinger_ops nat_time 9
       ((PingResult_new 0 1)\<lparr>pr_protocols := [\<lparr>sp_protocolId = 2, sp_port = 99\<rparr>]\<rparr>) ((False, 66), 1)
       \<lparr>pg_requests = [], pg_socket = True, pg_outgoingPings = [\<lparr>op_sentAt = 5, op_callback = ''a'', op_pingId = 1\<rparr>],
         pg_nextPingId = 1, pg_cache = Map.empty, pg_padRng = QunetPadRNG_new 1 2 3,
         pg_wire = [([], ((False, 7), 1))], pg_calls = []\<rparr>)
     = [(''a'', (PingResult_new 0 1)\<lparr>pr_responseTime := 4, pr_protocols := [\<lparr>sp_protocolId = 2, sp_port = 99\<rparr>]\<rparr>)]"
  by (simp add: thrDispatchResult_def Let_def invokeCallback_def sample_pinger_ops_def PingResult_new_def
      tm_elapsed_def)

end
