(* ===== verification/Connection.thy ===== *)
theory Connection
  imports Pinger
begin

text \<open>
  The state of a connection and the calls on it (\<open>Connection.hpp\<close>, \<open>Connection.cpp\<close>): errors,
  settings, callbacks, the state variable, and what an error or a message does to it.

  The socket is a value \<open>'s\<close> with the operations of \<open>Socket\<close> that are called here.  A callback is
  modelled by whether it is set; \<open>cn_trace\<close> records the callbacks invoked and what they got.
\<close>

section \<open>Errors\<close>

datatype ConnectionErrorCode =
    CC_Success | CC_InvalidProtocol | CC_InvalidPort | CC_InProgress | CC_NotConnected
  | CC_AlreadyConnected | CC_AlreadyClosing | CC_IpProtocolDisabled | CC_ConnectionTypeDisabled
  | CC_NoConnectionTypeFound | CC_NoAddresses | CC_InternalError | CC_TlsInitFailed
  | CC_DnsResolutionFailed | CC_DomainNotFound

datatype 'a ConnectionError =
    OtherError ConnectionErrorCode
  | TransportFailed TransportError
  | AllAddressesFailed "('a \<times> ConnectionType \<times> 'a ConnectionError) list"
  | ServerClosedError string

type_synonym ('a, 'b) ConnectionResult = "('a ConnectionError, 'b) outcome"

fun isOtherError :: "'a ConnectionError \<Rightarrow> bool" where
  "isOtherError (OtherError _) = True"
| "isOtherError _ = False"

fun isTransportError :: "'a ConnectionError \<Rightarrow> bool" where
  "isTransportError (TransportFailed _) = True"
| "isTransportError _ = False"

fun isAllAddressesFailed :: "'a ConnectionError \<Rightarrow> bool" where
  "isAllAddressesFailed (AllAddressesFailed _) = True"
| "isAllAddressesFailed _ = False"

fun isServerClosedError :: "'a ConnectionError \<Rightarrow> bool" where
  "isServerClosedError (ServerClosedError _) = True"
| "isServerClosedError _ = False"

fun getSrvProto :: "ConnectionType \<Rightarrow> string" where
  "getSrvProto Udp = ''_udp''"
| "getSrvProto Tcp = ''_tcp''"
| "getSrvProto Quic = ''_quic''"
| "getSrvProto WebSocket = ''_ws''"
| "getSrvProto WebSocketTls = ''_ws''"
| "getSrvProto Unknown = ''_udp''"

fun connTypeToString :: "ConnectionType \<Rightarrow> string" where
  "connTypeToString Udp = ''udp''"
| "connTypeToString Tcp = ''tcp''"
| "connTypeToString Quic = ''quic''"
| "connTypeToString WebSocket = ''ws''"
| "connTypeToString WebSocketTls = ''ws''"
| "connTypeToString Unknown = ''unknown''"

fun ConnectionErrorCode_message :: "ConnectionErrorCode \<Rightarrow> string" where
  "ConnectionErrorCode_message CC_Success = ''Success''"
| "ConnectionErrorCode_message CC_InvalidProtocol = ''Invalid protocol specified''"
| "ConnectionErrorCode_message CC_InvalidPort = ''Invalid port specified''"
| "ConnectionErrorCode_message CC_InProgress = ''Connection is already in progress''"
| "ConnectionErrorCode_message CC_NotConnected = ''Not connected to a server''"
| "ConnectionErrorCode_message CC_AlreadyConnected = ''Already connected to a server''"
| "ConnectionErrorCode_message CC_AlreadyClosing = ''Connection is already closing''"
| "ConnectionErrorCode_message CC_IpProtocolDisabled =
     ''The used protocol (IPv4/IPv6) is disabled, or both are disabled, connection cannot proceed''"
| "ConnectionErrorCode_message CC_ConnectionTypeDisabled =
     ''The support for the requested connection type is disabled at compile time, cannot proceed''"
| "ConnectionErrorCode_message CC_NoConnectionTypeFound =
     ''Failed to determine a suitable protocol for the connection''"
| "ConnectionErrorCode_message CC_NoAddresses = ''No addresses were given, cannot connect''"
| "ConnectionErrorCode_message CC_InternalError = ''An internal error occurred''"
| "ConnectionErrorCode_message CC_TlsInitFailed = ''Failed to initialize TLS context''"
| "ConnectionErrorCode_message CC_DnsResolutionFailed =
     ''DNS resolution failed (resolver error, see logs for more details)''"
| "ConnectionErrorCode_message CC_DomainNotFound = ''Could not resolve the requested hostname''"

definition ServerClosedError_message :: "string \<Rightarrow> string" where
  "ServerClosedError_message reason = (if reason = [] then ''Server closed the connection'' else reason)"

fun ConnectionError_message :: "('a \<Rightarrow> string) \<Rightarrow> 'a ConnectionError \<Rightarrow> string" where
  "ConnectionError_message addrText (TransportFailed err) = TransportError_message err"
| "ConnectionError_message addrText (ServerClosedError reason) = ServerClosedError_message reason"
| "ConnectionError_message addrText (AllAddressesFailed [(addr, ctype, err)]) =
     ''Failed to connect to '' @ addrText addr @ '' ('' @ connTypeToString ctype @ ''): '' @
     ConnectionError_message addrText err"
| "ConnectionError_message addrText (AllAddressesFailed addresses) =
     ''Failed to connect to all ('' @ decimal (length addresses) @ '') resolved addresses''"
| "ConnectionError_message addrText (OtherError code) = ConnectionErrorCode_message code"

section \<open>State\<close>

datatype ConnectionState =
  Disconnected | DnsResolving | Pinging | Connecting | Connected | Closing | Reconnecting

record ('d, 'f, 'p) ConnectionSettings =
  cs_srvPrefix :: string
  cs_preferredConnType :: ConnectionType
  cs_connOptions :: "('d, 'f) ConnectionOptions"
  cs_preferIpv6 :: bool
  cs_ipv4Enabled :: bool
  cs_ipv6Enabled :: bool
  cs_connTimeout :: 'd
  cs_qdbFolder :: "'p option"

definition ConnectionSettings_new :: "('d, 'i, 'f) time_ops \<Rightarrow> ('d, 'f, 'p) ConnectionSettings" where
  "ConnectionSettings_new T = \<lparr>cs_srvPrefix = ''_qunet'', cs_preferredConnType = Tcp,
     cs_connOptions = \<lparr>co_debug = \<lparr>do_verboseSsl = False, do_verboseQuic = False, do_recordStats = False,
         do_packetLossSimulation = fl_dec T 0 0\<rparr>, co_activeKeepaliveInterval = None\<rparr>,
     cs_preferIpv6 = True, cs_ipv4Enabled = True, cs_ipv6Enabled = True,
     cs_connTimeout = tm_fromSecs T 5, cs_qdbFolder = None\<rparr>"

record 'a ConnectionCallbacks =
  cb_connState :: bool
  cb_data :: bool
  cb_stateReset :: bool
  cb_shouldReconnect :: "('a ConnectionError \<Rightarrow> bool) option"

datatype 'a CallbackEvent =
    StateChanged ConnectionState
  | DataReceived bytes
  | StateWasReset
  | AskedToReconnect "'a ConnectionError"

record 'a ConnectionData =
  cd_address :: "'a option"
  cd_connType :: ConnectionType
  cd_reconnectAttempt :: u16
  cd_tryStatelessReconnect :: bool

definition ConnectionData_new :: "'a ConnectionData" where
  "ConnectionData_new = \<lparr>cd_address = None, cd_connType = Unknown, cd_reconnectAttempt = 0,
     cd_tryStatelessReconnect = False\<rparr>"

text \<open>\<open>cn_disconnectNotified\<close> tells whether the current waiter on \<open>m_disconnectNotify\<close> was
  notified; the channels are queues of at most 2 addresses and 512 messages.\<close>

record ('a, 's, 'd, 'f, 'p, 'x) Connection =
  cn_connState :: ConnectionState
  cn_connectChan :: "string list"
  cn_msgChan :: "OutgoingMessage list"
  cn_connectHostname :: string
  cn_connectPath :: string
  cn_settings :: "('d, 'f, 'p) ConnectionSettings"
  cn_callbacks :: "'a ConnectionCallbacks"
  cn_data :: "'a ConnectionData"
  cn_lastError :: "'a ConnectionError"
  cn_socket :: "'s option"
  cn_tcpTlsContext :: "'x option"
  cn_quicTlsContext :: "'x option"
  cn_disconnectReq :: bool
  cn_disconnectNotified :: bool
  cn_trace :: "'a CallbackEvent list"

definition Connection_create :: "('d, 'i, 'f) time_ops \<Rightarrow> ('a, 's, 'd, 'f, 'p, 'x) Connection" where
  "Connection_create T = \<lparr>cn_connState = Disconnected, cn_connectChan = [], cn_msgChan = [],
     cn_connectHostname = [], cn_connectPath = [], cn_settings = ConnectionSettings_new T,
     cn_callbacks = \<lparr>cb_connState = False, cb_data = False, cb_stateReset = False, cb_shouldReconnect = None\<rparr>,
     cn_data = ConnectionData_new, cn_lastError = OtherError CC_Success, cn_socket = None,
     cn_tcpTlsContext = None, cn_quicTlsContext = None, cn_disconnectReq = False,
     cn_disconnectNotified = False, cn_trace = []\<rparr>"

definition Connection_state :: "('a, 's, 'd, 'f, 'p, 'x) Connection \<Rightarrow> ConnectionState" where
  "Connection_state c = cn_connState c"

definition setState :: "ConnectionState \<Rightarrow> ('a, 's, 'd, 'f, 'p, 'x) Connection \<Rightarrow>
    ('a, 's, 'd, 'f, 'p, 'x) Connection" where
  "setState st c =
     (let prev = cn_connState c;
          c = c\<lparr>cn_connState := st\<rparr>
      in if prev \<noteq> st then
           let c = (if cb_connState (cn_callbacks c) then c\<lparr>cn_trace := cn_trace c @ [StateChanged st]\<rparr> else c)
           in if st = Connected
              then c\<lparr>cn_data := (cn_data c)\<lparr>cd_reconnectAttempt := 0, cd_tryStatelessReconnect := False\<rparr>\<rparr>
              else c
         else c)"

definition resetConnectionState :: "('a, 's, 'd, 'f, 'p, 'x) Connection \<Rightarrow> ('a, 's, 'd, 'f, 'p, 'x) Connection" where
  "resetConnectionState c = c\<lparr>cn_data := ConnectionData_new, cn_disconnectReq := False, cn_socket := None\<rparr>"

text \<open>\<open>success\<close> is the text of \<open>qsox::Error::Success\<close>.\<close>

fun isFatalError :: "string \<Rightarrow> 'a ConnectionError \<Rightarrow> bool" where
  "isFatalError success (ServerClosedError _) = True"
| "isFatalError success (TransportFailed (TE_Qsox err)) \<longleftrightarrow> err \<noteq> success"
| "isFatalError success (TransportFailed terr) \<longleftrightarrow>
     terr = CustomKind ConnectionTimedOut \<or> terr = CustomKind TooUnreliable \<or> terr = CustomKind TimedOut \<or>
     terr = CustomKind Closed \<or> terr = CustomKind Cancelled"
| "isFatalError success (OtherError code) \<longleftrightarrow> code \<noteq> CC_Success"
| "isFatalError success (AllAddressesFailed _) = False"

definition askShouldReconnect :: "'a ConnectionError \<Rightarrow> ('a, 's, 'd, 'f, 'p, 'x) Connection \<Rightarrow>
    bool \<times> ('a, 's, 'd, 'f, 'p, 'x) Connection" where
  "askShouldReconnect err c =
     (case cb_shouldReconnect (cn_callbacks c) of
        Some cb \<Rightarrow> (cb err, c\<lparr>cn_trace := cn_trace c @ [AskedToReconnect err]\<rparr>)
      | None \<Rightarrow> (True, c))"

definition onFatalError :: "'a ConnectionError \<Rightarrow> ('a, 's, 'd, 'f, 'p, 'x) Connection \<Rightarrow>
    ('a, 's, 'd, 'f, 'p, 'x) Connection" where
  "onFatalError err c =
     (let c = c\<lparr>cn_lastError := err\<rparr>;
          state = Connection_state c;
          (shouldReconnect, c) = askShouldReconnect err c
      in if state = Connected \<and> shouldReconnect then setState Reconnecting (c\<lparr>cn_msgChan := []\<rparr>)
         else setState Disconnected (resetConnectionState c))"

definition onConnectionError :: "string \<Rightarrow> 'a ConnectionError \<Rightarrow> ('a, 's, 'd, 'f, 'p, 'x) Connection \<Rightarrow>
    ('a, 's, 'd, 'f, 'p, 'x) Connection" where
  "onConnectionError success err c =
     (if isFatalError success err then onFatalError err c else c\<lparr>cn_lastError := err\<rparr>)"

definition threadCancelConnection :: "('a, 's, 'd, 'f, 'p, 'x) Connection \<Rightarrow>
    ('a, 's, 'd, 'f, 'p, 'x) Connection" where
  "threadCancelConnection c = setState Disconnected (resetConnectionState c)"

text \<open>\<open>fmt\<close> renders an error code.\<close>

fun threadHandleIncomingMessage :: "(u32 \<Rightarrow> string) \<Rightarrow> QunetMessage \<Rightarrow>
    ('a, 's, 'd, 'f, 'p, 'x) Connection \<Rightarrow> ('a, 's, 'd, 'f, 'p, 'x) Connection" where
  "threadHandleIncomingMessage fmt (Data msg) c =
     (if dm_data msg = [] then c
      else if cb_data (cn_callbacks c) then c\<lparr>cn_trace := cn_trace c @ [DataReceived (dm_data msg)]\<rparr>
      else c)"
| "threadHandleIncomingMessage fmt (ServerClose closeMsg) c =
     onFatalError (ServerClosedError (map (\<lambda>b. char_of (unat b)) (fst (ServerCloseMessage_message fmt closeMsg)))) c"
| "threadHandleIncomingMessage fmt _ c = c"

section \<open>Calls of the user\<close>

definition Connection_connect :: "string \<Rightarrow> ('a, 's, 'd, 'f, 'p, 'x) Connection \<Rightarrow>
    ('a, unit) ConnectionResult \<times> ('a, 's, 'd, 'f, 'p, 'x) Connection" where
  "Connection_connect destination c =
     (if Connection_state c = Connected then (Err (OtherError CC_AlreadyConnected), c)
      else if Connection_state c \<noteq> Disconnected then (Err (OtherError CC_InProgress), c)
      else if length (cn_connectChan c) < 2
        then (Ok (), c\<lparr>cn_connectChan := cn_connectChan c @ [destination]\<rparr>)
      else (Err (OtherError CC_InProgress), c))"

definition Connection_disconnect :: "('a, 's, 'd, 'f, 'p, 'x) Connection \<Rightarrow> ('a, 's, 'd, 'f, 'p, 'x) Connection" where
  "Connection_disconnect c = c\<lparr>cn_disconnectReq := True, cn_disconnectNotified := True\<rparr>"

definition setConnectionStateCallback :: "bool \<Rightarrow> ('a, 's, 'd, 'f, 'p, 'x) Connection \<Rightarrow>
    ('a, 's, 'd, 'f, 'p, 'x) Connection" where
  "setConnectionStateCallback callback c = c\<lparr>cn_callbacks := (cn_callbacks c)\<lparr>cb_connState := callback\<rparr>\<rparr>"

definition setDataCallback :: "bool \<Rightarrow> ('a, 's, 'd, 'f, 'p, 'x) Connection \<Rightarrow>
    ('a, 's, 'd, 'f, 'p, 'x) Connection" where
  "setDataCallback callback c = c\<lparr>cn_callbacks := (cn_callbacks c)\<lparr>cb_data := callback\<rparr>\<rparr>"

definition setStateResetCallback :: "bool \<Rightarrow> ('a, 's, 'd, 'f, 'p, 'x) Connection \<Rightarrow>
    ('a, 's, 'd, 'f, 'p, 'x) Connection" where
  "setStateResetCallback callback c = c\<lparr>cn_callbacks := (cn_callbacks c)\<lparr>cb_stateReset := callback\<rparr>\<rparr>"

definition setShouldReconnectCallback :: "('a ConnectionError \<Rightarrow> bool) option \<Rightarrow>
    ('a, 's, 'd, 'f, 'p, 'x) Connection \<Rightarrow> ('a, 's, 'd, 'f, 'p, 'x) Connection" where
  "setShouldReconnectCallback callback c =
     c\<lparr>cn_callbacks := (cn_callbacks c)\<lparr>cb_shouldReconnect := callback\<rparr>\<rparr>"

definition setSrvPrefix :: "string \<Rightarrow> ('a, 's, 'd, 'f, 'p, 'x) Connection \<Rightarrow> ('a, 's, 'd, 'f, 'p, 'x) Connection" where
  "setSrvPrefix pfx c = c\<lparr>cn_settings := (cn_settings c)\<lparr>cs_srvPrefix := pfx\<rparr>\<rparr>"

definition setPreferIpv6 :: "bool \<Rightarrow> ('a, 's, 'd, 'f, 'p, 'x) Connection \<Rightarrow> ('a, 's, 'd, 'f, 'p, 'x) Connection" where
  "setPreferIpv6 preferIpv6 c = c\<lparr>cn_settings := (cn_settings c)\<lparr>cs_preferIpv6 := preferIpv6\<rparr>\<rparr>"

definition setPreferProtocol :: "ConnectionType \<Rightarrow> ('a, 's, 'd, 'f, 'p, 'x) Connection \<Rightarrow>
    ('a, 's, 'd, 'f, 'p, 'x) Connection" where
  "setPreferProtocol type c = c\<lparr>cn_settings := (cn_settings c)\<lparr>cs_preferredConnType := type\<rparr>\<rparr>"

definition setIpv4Enabled :: "bool \<Rightarrow> ('a, 's, 'd, 'f, 'p, 'x) Connection \<Rightarrow> ('a, 's, 'd, 'f, 'p, 'x) Connection" where
  "setIpv4Enabled enabled c = c\<lparr>cn_settings := (cn_settings c)\<lparr>cs_ipv4Enabled := enabled\<rparr>\<rparr>"

definition setIpv6Enabled :: "bool \<Rightarrow> ('a, 's, 'd, 'f, 'p, 'x) Connection \<Rightarrow> ('a, 's, 'd, 'f, 'p, 'x) Connection" where
  "setIpv6Enabled enabled c = c\<lparr>cn_settings := (cn_settings c)\<lparr>cs_ipv6Enabled := enabled\<rparr>\<rparr>"

definition setQdbFolder :: "'p \<Rightarrow> ('a, 's, 'd, 'f, 'p, 'x) Connection \<Rightarrow> ('a, 's, 'd, 'f, 'p, 'x) Connection" where
  "setQdbFolder folder c = c\<lparr>cn_settings := (cn_settings c)\<lparr>cs_qdbFolder := Some folder\<rparr>\<rparr>"

definition setDebugOptions :: "'f ConnectionDebugOptions \<Rightarrow> ('a, 's, 'd, 'f, 'p, 'x) Connection \<Rightarrow>
    ('a, 's, 'd, 'f, 'p, 'x) Connection" where
  "setDebugOptions opts c = c\<lparr>cn_settings := (cn_settings c)
     \<lparr>cs_connOptions := (cs_connOptions (cn_settings c))\<lparr>co_debug := opts\<rparr>\<rparr>\<rparr>"

definition setConnectTimeout :: "'d \<Rightarrow> ('a, 's, 'd, 'f, 'p, 'x) Connection \<Rightarrow> ('a, 's, 'd, 'f, 'p, 'x) Connection" where
  "setConnectTimeout dur c = c\<lparr>cn_settings := (cn_settings c)\<lparr>cs_connTimeout := dur\<rparr>\<rparr>"

definition setActiveKeepaliveInterval :: "'d option \<Rightarrow> ('a, 's, 'd, 'f, 'p, 'x) Connection \<Rightarrow>
    ('a, 's, 'd, 'f, 'p, 'x) Connection" where
  "setActiveKeepaliveInterval interval c = c\<lparr>cn_settings := (cn_settings c)
     \<lparr>cs_connOptions := (cs_connOptions (cn_settings c))\<lparr>co_activeKeepaliveInterval := interval\<rparr>\<rparr>\<rparr>"

definition setTlsContext :: "'x option \<Rightarrow> ('a, 's, 'd, 'f, 'p, 'x) Connection \<Rightarrow> ('a, 's, 'd, 'f, 'p, 'x) Connection" where
  "setTlsContext context c = c\<lparr>cn_tcpTlsContext := context\<rparr>"

definition setQuicTlsContext :: "'x option \<Rightarrow> ('a, 's, 'd, 'f, 'p, 'x) Connection \<Rightarrow> ('a, 's, 'd, 'f, 'p, 'x) Connection" where
  "setQuicTlsContext context c = c\<lparr>cn_quicTlsContext := context\<rparr>"

definition Connection_connecting :: "('a, 's, 'd, 'f, 'p, 'x) Connection \<Rightarrow> bool" where
  "Connection_connecting c \<longleftrightarrow> Connection_state c = Connecting \<or> Connection_state c = DnsResolving \<or>
     Connection_state c = Pinging"

definition Connection_connected :: "('a, 's, 'd, 'f, 'p, 'x) Connection \<Rightarrow> bool" where
  "Connection_connected c \<longleftrightarrow> Connection_state c = Connected"

definition Connection_disconnected :: "('a, 's, 'd, 'f, 'p, 'x) Connection \<Rightarrow> bool" where
  "Connection_disconnected c \<longleftrightarrow> Connection_state c = Disconnected"

definition sendMsgToThread :: "OutgoingMessage \<Rightarrow> ('a, 's, 'd, 'f, 'p, 'x) Connection \<Rightarrow>
    bool \<times> ('a, 's, 'd, 'f, 'p, 'x) Connection" where
  "sendMsgToThread message c =
     (if \<not> Connection_connected c then (False, c)
      else if length (cn_msgChan c) < 512 then (True, c\<lparr>cn_msgChan := cn_msgChan c @ [message]\<rparr>)
      else (False, c))"

definition Connection_sendKeepalive :: "('a, 's, 'd, 'f, 'p, 'x) Connection \<Rightarrow>
    bool \<times> ('a, 's, 'd, 'f, 'p, 'x) Connection" where
  "Connection_sendKeepalive = sendMsgToThread
     \<lparr>om_message = KeepaliveMessage 0, om_reliable = True, om_uncompressed = False, om_tag = []\<rparr>"

definition Connection_sendData :: "bytes \<Rightarrow> bool \<Rightarrow> bool \<Rightarrow> string \<Rightarrow> ('a, 's, 'd, 'f, 'p, 'x) Connection \<Rightarrow>
    bool \<times> ('a, 's, 'd, 'f, 'p, 'x) Connection" where
  "Connection_sendData data reliable uncompressed tag = sendMsgToThread
     \<lparr>om_message = Data \<lparr>dm_data = data, dm_compHeader = None, dm_relHeader = None\<rparr>,
      om_reliable = reliable, om_uncompressed = uncompressed, om_tag = tag\<rparr>"

definition simulateConnectionDrop :: "('a, 's, 'd, 'f, 'p, 'x) Connection \<Rightarrow> ('a, 's, 'd, 'f, 'p, 'x) Connection" where
  "simulateConnectionDrop c = onFatalError (OtherError CC_InternalError) c"

text \<open>What the connection asks its socket for.\<close>

record ('s, 'd, 'sn, 'sw) socket_queries =
  sq_getLatency :: "'s \<Rightarrow> 'd"
  sq_getJitter :: "'s \<Rightarrow> 'd"
  sq_updateLatency :: "'d \<Rightarrow> 's \<Rightarrow> 's"
  sq_snapshot :: "'d \<Rightarrow> 's \<Rightarrow> 'sn"
  sq_snapshotFull :: "'s \<Rightarrow> 'sw"
  sq_noSnapshot :: 'sn
  sq_noWholeSnapshot :: 'sw

definition Connection_getLatency :: "('d, 'i, 'f) time_ops \<Rightarrow> ('s, 'd, 'sn, 'sw) socket_queries \<Rightarrow>
    ('a, 's, 'd, 'f, 'p, 'x) Connection \<Rightarrow> 'd" where
  "Connection_getLatency T Q c =
     (case cn_socket c of Some sock \<Rightarrow> sq_getLatency Q sock | None \<Rightarrow> tm_zero T)"

definition Connection_getJitter :: "('d, 'i, 'f) time_ops \<Rightarrow> ('s, 'd, 'sn, 'sw) socket_queries \<Rightarrow>
    ('a, 's, 'd, 'f, 'p, 'x) Connection \<Rightarrow> 'd" where
  "Connection_getJitter T Q c =
     (case cn_socket c of Some sock \<Rightarrow> sq_getJitter Q sock | None \<Rightarrow> tm_zero T)"

definition Connection_updateLatency :: "('s, 'd, 'sn, 'sw) socket_queries \<Rightarrow> 'd \<Rightarrow>
    ('a, 's, 'd, 'f, 'p, 'x) Connection \<Rightarrow> ('a, 's, 'd, 'f, 'p, 'x) Connection" where
  "Connection_updateLatency Q latency c =
     (case cn_socket c of Some sock \<Rightarrow> c\<lparr>cn_socket := Some (sq_updateLatency Q latency sock)\<rparr> | None \<Rightarrow> c)"

definition statSnapshot :: "('s, 'd, 'sn, 'sw) socket_queries \<Rightarrow> 'd \<Rightarrow>
    ('a, 's, 'd, 'f, 'p, 'x) Connection \<Rightarrow> 'sn" where
  "statSnapshot Q period c =
     (case cn_socket c of Some sock \<Rightarrow> sq_snapshot Q period sock | None \<Rightarrow> sq_noSnapshot Q)"

definition statSnapshotFull :: "('s, 'd, 'sn, 'sw) socket_queries \<Rightarrow>
    ('a, 's, 'd, 'f, 'p, 'x) Connection \<Rightarrow> 'sw" where
  "statSnapshotFull Q c =
     (case cn_socket c of Some sock \<Rightarrow> sq_snapshotFull Q sock | None \<Rightarrow> sq_noWholeSnapshot Q)"

text \<open>\<open>connectWait\<close> before and after it waits; it waits for a change of the state to one of these.\<close>

definition connectWait_start :: "string \<Rightarrow> ('a, 's, 'd, 'f, 'p, 'x) Connection \<Rightarrow>
    ('a, unit) ConnectionResult \<times> ('a, 's, 'd, 'f, 'p, 'x) Connection" where
  "connectWait_start destination c =
     (case Connection_connect destination (setConnectionStateCallback True c) of
        (Inl e, c) \<Rightarrow> (Inl e, setConnectionStateCallback False c)
      | (Inr u, c) \<Rightarrow> (Inr u, c))"

definition connectWait_notified :: "'a CallbackEvent \<Rightarrow> bool" where
  "connectWait_notified ev \<longleftrightarrow> ev = StateChanged Connected \<or> ev = StateChanged Disconnected"

definition connectWait_finish :: "('a, 's, 'd, 'f, 'p, 'x) Connection \<Rightarrow>
    ('a, unit) ConnectionResult \<times> ('a, 's, 'd, 'f, 'p, 'x) Connection" where
  "connectWait_finish c =
     (let c = setConnectionStateCallback False c
      in if Connection_state c = Connected then (Ok (), c) else (Err (cn_lastError c), c))"

end
