(* ===== verification/Connection_Worker.thy ===== *)
theory Connection_Worker
  imports Connection
begin

text \<open>
  The worker of a connection (\<open>Connection::workerThreadLoop\<close> and the \<open>thread...\<close> functions of
  \<open>Connection.cpp\<close>): resolving and ordering the addresses, trying them one after the other,
  the established connection, reconnecting and closing.

  A coroutine is cut at its suspension points.  A \<open>Task\<close> is the point where the worker is
  suspended with the local variables it still needs, a \<open>WorkerEvent\<close> is what resumes it (with
  the outcome of the operation it waited for), and each function below is the code up to the
  next suspension.  Calls of the user come between two such segments.  Release builds are
  modelled: \<open>QN_DEBUG_ASSERT\<close> does nothing.
\<close>

section \<open>Environment\<close>

text \<open>The TLS library: creating a context (the argument: only TLS 1.3), loading the certificates,
  setting the groups.\<close>

record 'x tls_ops =
  xt_createContext :: "bool \<Rightarrow> (string, 'x) outcome"
  xt_loadSystemCACerts :: "'x \<Rightarrow> (string, 'x) outcome"
  xt_setGroups :: "string \<Rightarrow> 'x \<Rightarrow> (string, 'x) outcome"

record ('ip, 'a, 'd, 'i, 'f, 'x) conn_env =
  ve_addr :: "('ip, 'a) addr_ops"
  ve_time :: "('d, 'i, 'f) time_ops"
  ve_absDiff :: "'d \<Rightarrow> 'd \<Rightarrow> 'd"
  ve_instantPlus :: "'i \<Rightarrow> 'd \<Rightarrow> 'i"
  ve_instantLess :: "'i \<Rightarrow> 'i \<Rightarrow> bool"
  ve_tls :: "'x tls_ops"
  ve_tlsSupport :: bool
  ve_quicSupport :: bool
  ve_wsSupport :: bool
  ve_qsoxSuccess :: string
  ve_fmt :: "u32 \<Rightarrow> string"

section \<open>Addresses\<close>

fun octets_less :: "bytes \<Rightarrow> bytes \<Rightarrow> bool" where
  "octets_less xs [] = False"
| "octets_less [] (y # ys) = True"
| "octets_less (x # xs) (y # ys) = (x < y \<or> x = y \<and> octets_less xs ys)"

definition address_less :: "('ip, 'a) addr_ops \<Rightarrow> bool \<Rightarrow> 'a \<Rightarrow> 'a \<Rightarrow> bool" where
  "address_less A preferIpv6 a b =
     (if ad_isV6 A a \<and> \<not> ad_isV6 A b then preferIpv6
      else if \<not> ad_isV6 A a \<and> ad_isV6 A b then \<not> preferIpv6
      else if ad_isV4 A a then ad_v4Bits A a < ad_v4Bits A b
      else octets_less (ad_v6Octets A a) (ad_v6Octets A b))"

definition sortAddresses :: "('ip, 'a) addr_ops \<Rightarrow> 'a list \<Rightarrow> bool \<Rightarrow> 'a list" where
  "sortAddresses A addrs preferIpv6 = sort_by (address_less A preferIpv6) addrs"

text \<open>The answers to the two queries; the addresses of the query that finishes first come first.\<close>

definition fetchIps :: "('ip, 'a) addr_ops \<Rightarrow> u16 \<Rightarrow> bool \<Rightarrow> bool \<Rightarrow> (string, 'ip list) outcome \<Rightarrow>
    (string, 'ip list) outcome \<Rightarrow> bool \<Rightarrow> 'a list" where
  "fetchIps A port ipv4 ipv6 a aaaa aFirst =
     (let found = (\<lambda>enabled res. if \<not> enabled then []
            else (case res of Inr ips \<Rightarrow> map (\<lambda>ip. ad_make A ip port) ips | Inl _ \<Rightarrow> []));
          out4 = found ipv4 a;
          out6 = found ipv6 aaaa
      in if aFirst then out4 @ out6 else out6 @ out4)"

section \<open>Where the worker waits\<close>

record ('a, 'd, 'i) PingRun =
  pn_addrs :: "'a list"
  pn_startedAt :: 'i
  pn_pingResults :: "('a \<times> 'd) list"
  pn_protocols :: "SupportedProtocol list"
  pn_anyResults :: nat

datatype ('a, 'd, 'i, 'f, 'p, 'x) Task =
    AtLoop
  | AwaitUrl
  | AwaitSrv string string ConnectionType "('d, 'f, 'p) ConnectionSettings"
  | AwaitIps string string u16 ConnectionType "('d, 'f, 'p) ConnectionSettings"
  | AwaitPings "('a, 'd, 'i) PingRun"
  | AwaitSocket 'a ConnectionType "('a \<times> ConnectionType) list"
      "('a \<times> ConnectionType \<times> 'a ConnectionError) list" "('a, 'd, 'f, 'x) TransportOptions" "'p option"
  | AwaitEvent
  | AwaitReconnect "('a, 'd, 'f, 'x) TransportOptions" bool 'd
  | AwaitRetry 'd
  | AwaitClose
  | AwaitClosed
  | Crashed

text \<open>A coroutine called by another returns or is suspended.\<close>

datatype ('a, 'd, 'i, 'f, 'p, 'x) Progress =
    Returned "('a, unit) ConnectionResult"
  | Suspended "('a, 'd, 'i, 'f, 'p, 'x) Task"

text \<open>Waiting on \<open>m_disconnectNotify\<close> starts: earlier notifications are gone.\<close>

definition newWaiter :: "('a, 's, 'd, 'f, 'p, 'x) Connection \<Rightarrow> ('a, 's, 'd, 'f, 'p, 'x) Connection" where
  "newWaiter c = c\<lparr>cn_disconnectNotified := False\<rparr>"

section \<open>Trying an address\<close>

definition requiresTls :: "ConnectionType \<Rightarrow> bool" where
  "requiresTls type \<longleftrightarrow> type = Quic \<or> type = WebSocketTls"

definition isSupported :: "('ip, 'a, 'd, 'i, 'f, 'x) conn_env \<Rightarrow> ConnectionType \<Rightarrow> bool" where
  "isSupported E type =
     (if \<not> ve_quicSupport E \<and> type = Quic then False
      else if \<not> ve_wsSupport E \<and> type = WebSocket then False
      else True)"

definition getTlsForConnection :: "('ip, 'a, 'd, 'i, 'f, 'x) conn_env \<Rightarrow> ConnectionType \<Rightarrow>
    ('a, 's, 'd, 'f, 'p, 'x) Connection \<Rightarrow> ('a, 'x option) ConnectionResult" where
  "getTlsForConnection E type c =
     (if type = Quic then
        (if ve_quicSupport E then Ok (cn_quicTlsContext c) else Inl AssertionFailed)
      else if type = WebSocketTls then Ok (cn_tcpTlsContext c)
      else Ok None)"

definition setupQuicContext :: "'x tls_ops \<Rightarrow> 'x \<Rightarrow> (string, 'x) outcome" where
  "setupQuicContext X ctx = xt_setGroups X ''P-384:P-256:X25519'' ctx"

text \<open>The member is assigned before the certificates are loaded.\<close>

definition initTlsContext :: "('ip, 'a, 'd, 'i, 'f, 'x) conn_env \<Rightarrow> ConnectionType \<Rightarrow>
    ('a, 's, 'd, 'f, 'p, 'x) Connection \<Rightarrow> (string, unit) outcome \<times> ('a, 's, 'd, 'f, 'p, 'x) Connection" where
  "initTlsContext E type c =
     (if type = Quic then
        (if ve_quicSupport E then
           (if cn_quicTlsContext c = None then
              step_then (xt_createContext (ve_tls E) True, c) (\<lambda>ctx c.
              let c = c\<lparr>cn_quicTlsContext := Some ctx\<rparr> in
              step_then (xt_loadSystemCACerts (ve_tls E) ctx, c) (\<lambda>ctx c.
              let c = c\<lparr>cn_quicTlsContext := Some ctx\<rparr> in
              step_then (setupQuicContext (ve_tls E) ctx, c) (\<lambda>ctx c.
              (Ok (), c\<lparr>cn_quicTlsContext := Some ctx\<rparr>))))
            else (Ok (), c))
         else (Inl AssertionFailed, c))
      else if cn_tcpTlsContext c = None then
        step_then (xt_createContext (ve_tls E) False, c) (\<lambda>ctx c.
        let c = c\<lparr>cn_tcpTlsContext := Some ctx\<rparr> in
        step_then (xt_loadSystemCACerts (ve_tls E) ctx, c) (\<lambda>ctx c.
        (Ok (), c\<lparr>cn_tcpTlsContext := Some ctx\<rparr>)))
      else (Ok (), c))"

definition makeOptions :: "('ip, 'a, 'd, 'i, 'f, 'x) conn_env \<Rightarrow> 'a \<Rightarrow> ConnectionType \<Rightarrow> bool \<Rightarrow>
    ('a, 's, 'd, 'f, 'p, 'x) Connection \<Rightarrow> ('a, ('a, 'd, 'f, 'x) TransportOptions) ConnectionResult" where
  "makeOptions E addr type reconnect c =
     unwrap (if ve_tlsSupport E then getTlsForConnection E type c else Ok None) (\<lambda>tls.
     Ok \<lparr>to_address = addr, to_type = type, to_timeout = cs_connTimeout (cn_settings c),
       to_hostname = cn_connectHostname c, to_path = cn_connectPath c,
       to_connOptions = cs_connOptions (cn_settings c), to_tlsContext = tls,
       to_reconnecting = reconnect\<rparr>)"

text \<open>\<open>threadConnectSocket\<close> up to the call of \<open>Socket::connect\<close> or \<open>Socket::reconnect\<close>; the latter
  reads the old socket.\<close>

definition threadConnectSocket :: "('ip, 'a, 'd, 'i, 'f, 'x) conn_env \<Rightarrow> 'a \<Rightarrow> ConnectionType \<Rightarrow> bool \<Rightarrow>
    ('a, 's, 'd, 'f, 'p, 'x) Connection \<Rightarrow> ('a, ('a, 'd, 'f, 'x) TransportOptions) ConnectionResult" where
  "threadConnectSocket E addr type reconnect c =
     unwrap (makeOptions E addr type reconnect c) (\<lambda>opts.
     if reconnect \<and> cn_socket c = None then Inl OutOfBounds else Ok opts)"

definition threadEstablishConn :: "('ip, 'a, 'd, 'i, 'f, 'x) conn_env \<Rightarrow> 'a \<Rightarrow> ConnectionType \<Rightarrow>
    ('a, 's, 'd, 'f, 'p, 'x) Connection \<Rightarrow>
    ('a, ('a, 'd, 'f, 'x) TransportOptions) ConnectionResult \<times> ('a, 's, 'd, 'f, 'p, 'x) Connection" where
  "threadEstablishConn E addr type c =
     (if \<not> isSupported E type then (Err (OtherError CC_ConnectionTypeDisabled), c)
      else
        let (tls, c) = (if ve_tlsSupport E \<and> requiresTls type then initTlsContext E type c else (Ok (), c))
        in case tls of
             Inl (Failed _) \<Rightarrow> (Err (OtherError CC_TlsInitFailed), c)
           | Inl AssertionFailed \<Rightarrow> (Inl AssertionFailed, c)
           | Inl OutOfBounds \<Rightarrow> (Inl OutOfBounds, c)
           | Inr _ \<Rightarrow> (threadConnectSocket E addr type False c, c))"

text \<open>The loop of \<open>threadFinalConnect\<close> over the addresses that are left.\<close>

fun connectNext :: "('ip, 'a, 'd, 'i, 'f, 'x) conn_env \<Rightarrow> ('a \<times> ConnectionType) list \<Rightarrow>
    ('a \<times> ConnectionType \<times> 'a ConnectionError) list \<Rightarrow> ('a, 's, 'd, 'f, 'p, 'x) Connection \<Rightarrow>
    ('a, 'd, 'i, 'f, 'p, 'x) Progress \<times> ('a, 's, 'd, 'f, 'p, 'x) Connection" where
  "connectNext E [] errors c =
     (Returned (if errors = [] then Inl AssertionFailed else Err (AllAddressesFailed errors)), c)"
| "connectNext E ((addr, type) # rest) errors c =
     (case threadEstablishConn E addr type c of
        (Inr opts, c) \<Rightarrow> (Suspended (AwaitSocket addr type rest errors opts (cs_qdbFolder (cn_settings c))), c)
      | (Inl (Failed err), c) \<Rightarrow> connectNext E rest (errors @ [(addr, type, err)]) c
      | (Inl AssertionFailed, c) \<Rightarrow> (Returned (Inl AssertionFailed), c)
      | (Inl OutOfBounds, c) \<Rightarrow> (Returned (Inl OutOfBounds), c))"

fun toNum :: "ConnectionType \<Rightarrow> nat option" where
  "toNum Tcp = Some 10"
| "toNum Quic = Some 20"
| "toNum Udp = Some 30"
| "toNum WebSocket = Some 40"
| "toNum WebSocketTls = Some 40"
| "toNum Unknown = None"

definition final_less :: "ConnectionType \<Rightarrow> ('a \<times> ConnectionType) \<Rightarrow> ('a \<times> ConnectionType) \<Rightarrow> bool" where
  "final_less preferred a b =
     (if snd a = preferred \<and> snd b = preferred then False
      else if snd a = preferred then True
      else if snd b = preferred then False
      else the (toNum (snd a)) < the (toNum (snd b)))"

text \<open>The comparator asserts that it meets no unknown type beside the preferred one; a sort of two
  elements or more may show it any of them.\<close>

definition sortFinal :: "ConnectionType \<Rightarrow> ('a \<times> ConnectionType) list \<Rightarrow>
    ('e, ('a \<times> ConnectionType) list) outcome" where
  "sortFinal preferred addrs =
     qn_assert (length addrs < 2 \<or> (\<forall>a\<in>set addrs. snd a = preferred \<or> toNum (snd a) \<noteq> None))
       (Ok (sort_by (final_less preferred) addrs))"

definition threadFinalConnect :: "('ip, 'a, 'd, 'i, 'f, 'x) conn_env \<Rightarrow> ('a \<times> ConnectionType) list \<Rightarrow>
    ('a, 's, 'd, 'f, 'p, 'x) Connection \<Rightarrow>
    ('a, 'd, 'i, 'f, 'p, 'x) Progress \<times> ('a, 's, 'd, 'f, 'p, 'x) Connection" where
  "threadFinalConnect E addrs c =
     (if addrs = [] then (Returned (Inl AssertionFailed), c)
      else
        let c = setState Connecting c in
        case sortFinal (cs_preferredConnType (cn_settings c)) addrs of
          Inl e \<Rightarrow> (Returned (Inl e), c)
        | Inr ordered \<Rightarrow> connectNext E ordered [] c)"

section \<open>Pinging the candidates\<close>

definition PingRun_new :: "'i \<Rightarrow> 'a list \<Rightarrow> ('a, 'd, 'i) PingRun" where
  "PingRun_new now addrs = \<lparr>pn_addrs = addrs, pn_startedAt = now, pn_pingResults = [],
     pn_protocols = [], pn_anyResults = 0\<rparr>"

text \<open>A result of the channel: the index of the address and the answer.\<close>

fun addProtocols :: "SupportedProtocol list \<Rightarrow> SupportedProtocol list \<Rightarrow> SupportedProtocol list" where
  "addProtocols protocols [] = protocols"
| "addProtocols protocols (proto # protos) =
     addProtocols (if \<exists>res\<in>set protocols. sp_protocolId res = sp_protocolId proto then protocols
                   else protocols @ [proto]) protos"

definition onPingResult :: "nat \<Rightarrow> 'd PingResult \<Rightarrow> ('a, 'd, 'i) PingRun \<Rightarrow>
    ('a ConnectionError, ('a, 'd, 'i) PingRun) outcome" where
  "onPingResult i result run =
     (let run = run\<lparr>pn_anyResults := pn_anyResults run + 1\<rparr>
      in if pr_timedOut result \<or> pr_errored result \<or> pr_protocols result = [] then Ok run
         else unwrap (at (pn_addrs run) i) (\<lambda>addr.
           Ok (run\<lparr>pn_pingResults := pn_pingResults run @ [(addr, pr_responseTime result)],
                   pn_protocols := addProtocols (pn_protocols run) (pr_protocols result)\<rparr>)))"

definition ping_less :: "('ip, 'a, 'd, 'i, 'f, 'x) conn_env \<Rightarrow> bool \<Rightarrow> ('a \<times> 'd) \<Rightarrow> ('a \<times> 'd) \<Rightarrow> bool" where
  "ping_less E preferIpv6 a b =
     (let T = ve_time E;
          timeDiff = ve_absDiff E (snd a) (snd b);
          v6 = ad_isV6 (ve_addr E)
      in if tm_less T (tm_fromMillis T 25) timeDiff \<or> v6 (fst a) = v6 (fst b) then tm_less T (snd a) (snd b)
         else if v6 (fst a) \<and> \<not> v6 (fst b) then preferIpv6
         else \<not> preferIpv6)"

definition connTypeOfProtocol :: "u8 \<Rightarrow> ConnectionType option" where
  "connTypeOfProtocol protocolId =
     (if protocolId = PROTO_UDP then Some Udp
      else if protocolId = PROTO_TCP then Some Tcp
      else if protocolId = PROTO_QUIC then Some Quic
      else if protocolId = PROTO_WEBSOCKET then Some WebSocket
      else None)"

definition addressesOf :: "('ip, 'a) addr_ops \<Rightarrow> SupportedProtocol list \<Rightarrow> 'a \<Rightarrow> ('a \<times> ConnectionType) list" where
  "addressesOf A protocols addr =
     concat (map (\<lambda>ty. case connTypeOfProtocol (sp_protocolId ty) of
         None \<Rightarrow> []
       | Some ctype \<Rightarrow> [(ad_setPort A (sp_port ty) addr, ctype)]) protocols)"

definition unpingedAddresses :: "'a list \<Rightarrow> ('a \<times> ConnectionType) list" where
  "unpingedAddresses addrs =
     concat (map (\<lambda>addr. [(addr, Udp), (addr, Tcp), (addr, Quic), (addr, WebSocket)]) addrs)"

text \<open>What follows the loop.\<close>

definition finishPings :: "('ip, 'a, 'd, 'i, 'f, 'x) conn_env \<Rightarrow> ('a, 'd, 'i) PingRun \<Rightarrow>
    ('a, 's, 'd, 'f, 'p, 'x) Connection \<Rightarrow>
    ('a, 'd, 'i, 'f, 'p, 'x) Progress \<times> ('a, 's, 'd, 'f, 'p, 'x) Connection" where
  "finishPings E run c =
     (let finalAddrs =
        (if pn_pingResults run = [] then unpingedAddresses (pn_addrs run)
         else concat (map (\<lambda>p. addressesOf (ve_addr E) (pn_protocols run) (fst p))
           (sort_by (ping_less E (cs_preferIpv6 (cn_settings c))) (pn_pingResults run))))
      in threadFinalConnect E finalAddrs c)"

text \<open>One round of the loop: wait for a result or the deadline, or go on.\<close>

definition pingLoop :: "('ip, 'a, 'd, 'i, 'f, 'x) conn_env \<Rightarrow> 'i \<Rightarrow> ('a, 'd, 'i) PingRun \<Rightarrow>
    ('a, 's, 'd, 'f, 'p, 'x) Connection \<Rightarrow>
    ('a, 'd, 'i, 'f, 'p, 'x) Progress \<times> ('a, 's, 'd, 'f, 'p, 'x) Connection" where
  "pingLoop E now run c =
     (let T = ve_time E;
          deadline = ve_instantPlus E (pn_startedAt run)
            (if pn_pingResults run \<noteq> [] then tm_fromMillis T 50 else tm_fromSecs T 5)
      in if length (pn_addrs run) \<le> pn_anyResults run \<or> \<not> ve_instantLess E now deadline
         then finishPings E run c
         else (Suspended (AwaitPings run), c))"

definition threadPingCandidates :: "('ip, 'a, 'd, 'i, 'f, 'x) conn_env \<Rightarrow> 'i \<Rightarrow> 'a list \<Rightarrow>
    ('a, 's, 'd, 'f, 'p, 'x) Connection \<Rightarrow>
    ('a, 'd, 'i, 'f, 'p, 'x) Progress \<times> ('a, 's, 'd, 'f, 'p, 'x) Connection" where
  "threadPingCandidates E now addrs c = pingLoop E now (PingRun_new now addrs) (setState Pinging c)"

section \<open>From the address of the user to the candidates\<close>

definition threadConnectWithIps :: "('ip, 'a, 'd, 'i, 'f, 'x) conn_env \<Rightarrow> 'i \<Rightarrow> 'a list \<Rightarrow> ConnectionType \<Rightarrow>
    bool \<Rightarrow> ('a, 's, 'd, 'f, 'p, 'x) Connection \<Rightarrow>
    ('a, 'd, 'i, 'f, 'p, 'x) Progress \<times> ('a, 's, 'd, 'f, 'p, 'x) Connection" where
  "threadConnectWithIps E now addrs type preferIpv6 c =
     (if addrs = [] then (Returned (Err (OtherError CC_NoAddresses)), c)
      else
        let addrs = sortAddresses (ve_addr E) addrs preferIpv6
        in if type = Unknown then threadPingCandidates E now addrs c
           else threadFinalConnect E (map (\<lambda>addr. (addr, type)) addrs) c)"

definition threadConnectIp :: "('ip, 'a, 'd, 'i, 'f, 'x) conn_env \<Rightarrow> 'i \<Rightarrow> 'a \<Rightarrow> ConnectionType \<Rightarrow>
    ('a, 's, 'd, 'f, 'p, 'x) Connection \<Rightarrow>
    ('a, 'd, 'i, 'f, 'p, 'x) Progress \<times> ('a, 's, 'd, 'f, 'p, 'x) Connection" where
  "threadConnectIp E now addr type c =
     threadConnectWithIps E now [addr] type (cs_preferIpv6 (cn_settings c))
       (c\<lparr>cn_connectHostname := [], cn_connectPath := []\<rparr>)"

text \<open>\<open>threadConnectDomain\<close> up to its first query.\<close>

definition threadConnectDomain :: "string \<Rightarrow> u16 option \<Rightarrow> ConnectionType \<Rightarrow>
    ('a, 's, 'd, 'f, 'p, 'x) Connection \<Rightarrow>
    ('a, 'd, 'i, 'f, 'p, 'x) Progress \<times> ('a, 's, 'd, 'f, 'p, 'x) Connection" where
  "threadConnectDomain hostname port type c =
     (let c = setState DnsResolving c;
          srvName = cs_srvPrefix (cn_settings c) @ ''.'' @ getSrvProto type @ ''.'' @ hostname
      in case port of
           Some p \<Rightarrow> (Suspended (AwaitIps hostname hostname p type (cn_settings c)), c)
         | None \<Rightarrow> (Suspended (AwaitSrv srvName hostname type (cn_settings c)), c))"

text \<open>The answer to the SRV query: the first endpoint, or the name itself with the default port.\<close>

definition onSrvAnswer :: "string \<Rightarrow> ConnectionType \<Rightarrow> ('d, 'f, 'p) ConnectionSettings \<Rightarrow> (string, (string \<times> u16) list) outcome \<Rightarrow>
    ('a, 's, 'd, 'f, 'p, 'x) Connection \<Rightarrow>
    ('a, 'd, 'i, 'f, 'p, 'x) Progress \<times> ('a, 's, 'd, 'f, 'p, 'x) Connection" where
  "onSrvAnswer hostname type settings res c =
     (case res of
        Inr endpoints \<Rightarrow>
          (case at endpoints 0 of
             Inr (target, port) \<Rightarrow>
               (Suspended (AwaitIps target hostname (if port = 0 then defaultPort type else port) type settings), c)
           | Inl e \<Rightarrow> (Returned (Inl e), c))
      | Inl _ \<Rightarrow> (Suspended (AwaitIps hostname hostname (defaultPort type) type settings), c))"

text \<open>The answers to the A and AAAA queries.  The settings were read when the resolution started.\<close>

definition onIpsAnswer :: "('ip, 'a, 'd, 'i, 'f, 'x) conn_env \<Rightarrow> 'i \<Rightarrow> ('d, 'f, 'p) ConnectionSettings \<Rightarrow>
    string \<Rightarrow> u16 \<Rightarrow> ConnectionType \<Rightarrow> (string, 'ip list) outcome \<Rightarrow> (string, 'ip list) outcome \<Rightarrow> bool \<Rightarrow>
    ('a, 's, 'd, 'f, 'p, 'x) Connection \<Rightarrow>
    ('a, 'd, 'i, 'f, 'p, 'x) Progress \<times> ('a, 's, 'd, 'f, 'p, 'x) Connection" where
  "onIpsAnswer E now settings hostname port type a aaaa aFirst c =
     (let addrs = fetchIps (ve_addr E) port (cs_ipv4Enabled settings) (cs_ipv6Enabled settings) a aaaa aFirst
      in if addrs = [] then (Returned (Err (OtherError CC_DomainNotFound)), c)
         else threadConnectWithIps E now addrs type (cs_preferIpv6 settings) (c\<lparr>cn_connectHostname := hostname\<rparr>))"

definition threadConnect :: "('ip, 'a, 'd, 'i, 'f, 'x) conn_env \<Rightarrow> 'i \<Rightarrow> string \<Rightarrow>
    ('a, 's, 'd, 'f, 'p, 'x) Connection \<Rightarrow>
    ('a, 'd, 'i, 'f, 'p, 'x) Progress \<times> ('a, 's, 'd, 'f, 'p, 'x) Connection" where
  "threadConnect E now url c =
     (case UrlParser_new (ve_addr E) url of
        Inl e \<Rightarrow> (Returned (Inl e), c)
      | Inr parser \<Rightarrow>
          (case up_result parser of
             UrlInvalidProtocol \<Rightarrow> (Returned (Err (OtherError CC_InvalidProtocol)), c)
           | UrlInvalidPort \<Rightarrow> (Returned (Err (OtherError CC_InvalidPort)), c)
           | UrlSuccess \<Rightarrow>
               let c = resetConnectionState c;
                   type = the (up_proto parser);
                   c = c\<lparr>cn_connectPath := up_path parser\<rparr>
               in case up_value parser of
                    Some (UrlIpWithPort addr) \<Rightarrow> threadConnectIp E now addr type c
                  | Some (UrlIp ip) \<Rightarrow> threadConnectIp E now (ad_make (ve_addr E) ip (defaultPort type)) type c
                  | Some (UrlDomainWithPort domain port) \<Rightarrow> threadConnectDomain domain (Some port) type c
                  | Some (UrlDomain domain) \<Rightarrow> threadConnectDomain domain None type c
                  | None \<Rightarrow> (Returned (Inl AssertionFailed), c)))"

text \<open>What the loop does with the outcome of \<open>threadConnect\<close>.\<close>

fun onConnectResult :: "('a, 'd, 'i, 'f, 'p, 'x) Progress \<times> ('a, 's, 'd, 'f, 'p, 'x) Connection \<Rightarrow>
    ('a, 'd, 'i, 'f, 'p, 'x) Task \<times> ('a, 's, 'd, 'f, 'p, 'x) Connection" where
  "onConnectResult (Suspended task, c) = (task, c)"
| "onConnectResult (Returned (Inr _), c) =
     (AtLoop, (setState Connected c)\<lparr>cn_lastError := OtherError CC_Success, cn_msgChan := []\<rparr>)"
| "onConnectResult (Returned (Inl (Failed err)), c) = (AtLoop, (onFatalError err c)\<lparr>cn_msgChan := []\<rparr>)"
| "onConnectResult (Returned (Inl AssertionFailed), c) = (Crashed, c)"
| "onConnectResult (Returned (Inl OutOfBounds), c) = (Crashed, c)"

section \<open>Reconnecting\<close>

definition threadTryReconnect :: "('ip, 'a, 'd, 'i, 'f, 'x) conn_env \<Rightarrow> bool \<Rightarrow>
    ('a, 's, 'd, 'f, 'p, 'x) Connection \<Rightarrow> ('a, ('a, 'd, 'f, 'x) TransportOptions) ConnectionResult" where
  "threadTryReconnect E stateless c =
     (case cd_address (cn_data c) of
        None \<Rightarrow> Inl AssertionFailed
      | Some addr \<Rightarrow>
          qn_assert (cd_connType (cn_data c) \<noteq> Unknown)
            (threadConnectSocket E addr (cd_connType (cn_data c)) (\<not> stateless) c))"

text \<open>The case \<open>Reconnecting\<close> of the loop.  The pause of the attempt 0 changes nothing.\<close>

definition loopReconnecting :: "('ip, 'a, 'd, 'i, 'f, 'x) conn_env \<Rightarrow> ('a, 's, 'd, 'f, 'p, 'x) Connection \<Rightarrow>
    ('a, 'd, 'i, 'f, 'p, 'x) Task \<times> ('a, 's, 'd, 'f, 'p, 'x) Connection" where
  "loopReconnecting E c =
     (if cn_disconnectReq c then (AtLoop, threadCancelConnection c)
      else
        let attempt = cd_reconnectAttempt (cn_data c) + 1;
            c = c\<lparr>cn_data := (cn_data c)\<lparr>cd_reconnectAttempt := attempt\<rparr>\<rparr>;
            tryStateless = cd_tryStatelessReconnect (cn_data c)
        in if 7 \<le> attempt then (AtLoop, threadCancelConnection c)
           else
             let timeout = tm_fromSecs (ve_time E) (if attempt < 3 then 5 else 10)
             in case threadTryReconnect E tryStateless c of
                  Inr opts \<Rightarrow> (AwaitReconnect opts tryStateless timeout, newWaiter c)
                | Inl _ \<Rightarrow> (Crashed, c))"

text \<open>\<open>threadTryReconnect\<close> and \<open>reconnectFut\<close> after the socket answered.\<close>

definition onReconnectResult :: "bool \<Rightarrow> 'd \<Rightarrow> 's TransportResult \<Rightarrow> ('a, 's, 'd, 'f, 'p, 'x) Connection \<Rightarrow>
    ('a, 'd, 'i, 'f, 'p, 'x) Task \<times> ('a, 's, 'd, 'f, 'p, 'x) Connection" where
  "onReconnectResult stateless timeout res c =
     (case res of
        Inr sock \<Rightarrow>
          let c = c\<lparr>cn_socket := Some sock\<rparr>;
              c = (if stateless \<and> cb_stateReset (cn_callbacks c)
                   then c\<lparr>cn_trace := cn_trace c @ [StateWasReset]\<rparr> else c)
          in (AtLoop, setState Connected c)
      | Inl (Failed err) \<Rightarrow>
          if err = CustomKind ReconnectFailed \<and> \<not> stateless then
            (AtLoop, c\<lparr>cn_data := (cn_data c)\<lparr>cd_tryStatelessReconnect := True\<rparr>\<rparr>)
          else (AwaitRetry timeout, c)
      | Inl _ \<Rightarrow> (Crashed, c))"

section \<open>The loop\<close>

definition workerThreadLoop :: "('ip, 'a, 'd, 'i, 'f, 'x) conn_env \<Rightarrow> ('a, 's, 'd, 'f, 'p, 'x) Connection \<Rightarrow>
    ('a, 'd, 'i, 'f, 'p, 'x) Task \<times> ('a, 's, 'd, 'f, 'p, 'x) Connection" where
  "workerThreadLoop E c =
     (case Connection_state c of
        Disconnected \<Rightarrow> (AwaitUrl, c)
      | DnsResolving \<Rightarrow> (AtLoop, setState Disconnected c)
      | Pinging \<Rightarrow> (AtLoop, setState Disconnected c)
      | Connecting \<Rightarrow> (AtLoop, setState Disconnected c)
      | Connected \<Rightarrow>
          if cn_disconnectReq c then (AtLoop, setState Closing c)
          else if cn_socket c = None then (Crashed, c)
          else (AwaitEvent, newWaiter c)
      | Reconnecting \<Rightarrow> loopReconnecting E c
      | Closing \<Rightarrow> if cn_socket c = None then (AtLoop, c) else (AwaitClose, c))"

text \<open>What resumes the worker.  The operations of the socket that were run come with the socket
  they leave; \<open>PingArrived\<close> carries the clock of the next round.  \<open>ReceiveWaits\<close> is a turn in which
  \<open>receiveMessage\<close> reads something but no whole message, and is suspended again.\<close>

datatype ('ip, 'd, 'i, 's) WorkerEvent =
    Start
  | UrlArrived 'i
  | SrvAnswered "(string, (string \<times> u16) list) outcome"
  | IpsAnswered 'i "(string, 'ip list) outcome" "(string, 'ip list) outcome" bool
  | PingArrived 'i nat "'d PingResult"
  | PingDeadline
  | PingsClosed
  | SocketAnswered "'s TransportResult"
  | DisconnectNotified
  | MessageSent 's "unit TransportResult"
  | TimerHandled 's "unit TransportResult"
  | MessageReceived 's "QunetMessage TransportResult"
  | ReceiveWaits 's
  | Woken
  | Slept
  | SocketClosing 's "unit TransportResult"
  | SocketClosed bool

type_synonym ('a, 's, 'd, 'i, 'f, 'p, 'x) World =
  "('a, 'd, 'i, 'f, 'p, 'x) Task \<times> ('a, 's, 'd, 'f, 'p, 'x) Connection"

fun resumeDns :: "('ip, 'a, 'd, 'i, 'f, 'x) conn_env \<Rightarrow> ('ip, 'd, 'i, 's) WorkerEvent \<Rightarrow>
    ('a, 'd, 'i, 'f, 'p, 'x) Task \<Rightarrow> ('a, 's, 'd, 'f, 'p, 'x) Connection \<Rightarrow>
    ('a, 's, 'd, 'i, 'f, 'p, 'x) World option" where
  "resumeDns E (SrvAnswered res) (AwaitSrv srvName hostname type settings) c =
     Some (onConnectResult (onSrvAnswer hostname type settings res c))"
| "resumeDns E (IpsAnswered now a aaaa aFirst) (AwaitIps queried hostname port type settings) c =
     Some (onConnectResult (onIpsAnswer E now settings hostname port type a aaaa aFirst c))"
| "resumeDns E _ _ c = None"

fun resumePings :: "('ip, 'a, 'd, 'i, 'f, 'x) conn_env \<Rightarrow> ('ip, 'd, 'i, 's) WorkerEvent \<Rightarrow>
    ('a, 'd, 'i) PingRun \<Rightarrow> ('a, 's, 'd, 'f, 'p, 'x) Connection \<Rightarrow>
    ('a, 's, 'd, 'i, 'f, 'p, 'x) World option" where
  "resumePings E (PingArrived now i result) run c =
     (case onPingResult i result run of
        Inl e \<Rightarrow> Some (onConnectResult (Returned (Inl e), c))
      | Inr run \<Rightarrow> Some (onConnectResult (pingLoop E now run c)))"
| "resumePings E PingDeadline run c = Some (onConnectResult (finishPings E run c))"
| "resumePings E PingsClosed run c = Some (onConnectResult (finishPings E run c))"
| "resumePings E _ run c = None"

text \<open>\<open>Socket::connect\<close> answered: success ends the loop over the addresses, an error goes on with
  the rest.\<close>

definition onSocketResult :: "('ip, 'a, 'd, 'i, 'f, 'x) conn_env \<Rightarrow> 's TransportResult \<Rightarrow> 'a \<Rightarrow> ConnectionType \<Rightarrow>
    ('a \<times> ConnectionType) list \<Rightarrow> ('a \<times> ConnectionType \<times> 'a ConnectionError) list \<Rightarrow>
    ('a, 's, 'd, 'f, 'p, 'x) Connection \<Rightarrow>
    ('a, 'd, 'i, 'f, 'p, 'x) Progress \<times> ('a, 's, 'd, 'f, 'p, 'x) Connection" where
  "onSocketResult E res addr type rest errors c =
     (case res of
        Inr sock \<Rightarrow>
          (Returned (Ok ()), c\<lparr>cn_socket := Some sock,
             cn_data := (cn_data c)\<lparr>cd_address := Some addr, cd_connType := type\<rparr>\<rparr>)
      | Inl (Failed err) \<Rightarrow> connectNext E rest (errors @ [(addr, type, TransportFailed err)]) c
      | Inl AssertionFailed \<Rightarrow> (Returned (Inl AssertionFailed), c)
      | Inl OutOfBounds \<Rightarrow> (Returned (Inl OutOfBounds), c))"

text \<open>The outcome of an operation of the connected socket.\<close>

definition onSocketOutcome :: "string \<Rightarrow> 'b TransportResult \<Rightarrow>
    ('b \<Rightarrow> ('a, 's, 'd, 'f, 'p, 'x) Connection \<Rightarrow> ('a, 's, 'd, 'f, 'p, 'x) Connection) \<Rightarrow>
    ('a, 's, 'd, 'f, 'p, 'x) Connection \<Rightarrow> ('a, 's, 'd, 'i, 'f, 'p, 'x) World" where
  "onSocketOutcome success res handle c =
     (case res of
        Inr v \<Rightarrow> (AtLoop, handle v c)
      | Inl (Failed err) \<Rightarrow> (AtLoop, onConnectionError success (TransportFailed err) c)
      | Inl _ \<Rightarrow> (Crashed, c))"

text \<open>The branches of the select of an established connection.  They use the socket.\<close>

fun resumeConnected :: "('ip, 'a, 'd, 'i, 'f, 'x) conn_env \<Rightarrow> ('ip, 'd, 'i, 's) WorkerEvent \<Rightarrow>
    ('a, 's, 'd, 'f, 'p, 'x) Connection \<Rightarrow> ('a, 's, 'd, 'i, 'f, 'p, 'x) World option" where
  "resumeConnected E (MessageSent sock res) c =
     (if cn_msgChan c = [] then None
      else if cn_socket c = None then Some (Crashed, c)
      else Some (onSocketOutcome (ve_qsoxSuccess E) res (\<lambda>_ c. c)
             (c\<lparr>cn_msgChan := tl (cn_msgChan c), cn_socket := Some sock\<rparr>)))"
| "resumeConnected E (TimerHandled sock res) c =
     (if cn_socket c = None then Some (Crashed, c)
      else Some (onSocketOutcome (ve_qsoxSuccess E) res (\<lambda>_ c. c) (c\<lparr>cn_socket := Some sock\<rparr>)))"
| "resumeConnected E (MessageReceived sock res) c =
     (if cn_socket c = None then Some (Crashed, c)
      else Some (onSocketOutcome (ve_qsoxSuccess E) res (threadHandleIncomingMessage (ve_fmt E))
             (c\<lparr>cn_socket := Some sock\<rparr>)))"
| "resumeConnected E (ReceiveWaits sock) c =
     (if cn_socket c = None then Some (Crashed, c) else Some (AwaitEvent, c\<lparr>cn_socket := Some sock\<rparr>))"
| "resumeConnected E DisconnectNotified c =
     (if cn_disconnectNotified c then Some (AtLoop, setState Closing c) else None)"
| "resumeConnected E Woken c = Some (AtLoop, c)"
| "resumeConnected E _ c = None"

text \<open>Closing: the result of \<open>close()\<close>, then waiting until the socket is closed.\<close>

fun resumeClose :: "('ip, 'd, 'i, 's) WorkerEvent \<Rightarrow> ('a, 's, 'd, 'f, 'p, 'x) Connection \<Rightarrow>
    ('a, 's, 'd, 'i, 'f, 'p, 'x) World option" where
  "resumeClose (SocketClosing sock res) c =
     (if cn_socket c = None then Some (Crashed, c)
      else let c = c\<lparr>cn_socket := Some sock\<rparr> in
        case res of
          Inr _ \<Rightarrow> Some (AwaitClosed, c)
        | Inl (Failed err) \<Rightarrow> Some (AtLoop, onFatalError (TransportFailed err) c)
        | Inl _ \<Rightarrow> Some (Crashed, c))"
| "resumeClose _ c = None"

fun resumeClosed :: "('ip, 'd, 'i, 's) WorkerEvent \<Rightarrow> ('a, 's, 'd, 'f, 'p, 'x) Connection \<Rightarrow>
    ('a, 's, 'd, 'i, 'f, 'p, 'x) World option" where
  "resumeClosed (SocketClosed closed) c =
     (if cn_socket c = None then Some (Crashed, c)
      else if closed then Some (AtLoop, setState Disconnected (resetConnectionState c))
      else Some (AwaitClosed, c))"
| "resumeClosed _ c = None"

text \<open>A disconnect request cancels an attempt to connect or reconnect.\<close>

definition orCancelled :: "('ip, 'd, 'i, 's) WorkerEvent \<Rightarrow> ('a, 's, 'd, 'i, 'f, 'p, 'x) World option \<Rightarrow>
    ('a, 's, 'd, 'f, 'p, 'x) Connection \<Rightarrow> ('a, 's, 'd, 'i, 'f, 'p, 'x) World option" where
  "orCancelled ev next c =
     (case ev of
        DisconnectNotified \<Rightarrow> if cn_disconnectNotified c then Some (AtLoop, threadCancelConnection c) else None
      | _ \<Rightarrow> next)"

text \<open>One segment of the worker; None when the event does not resume it.\<close>

definition resume :: "('ip, 'a, 'd, 'i, 'f, 'x) conn_env \<Rightarrow> ('ip, 'd, 'i, 's) WorkerEvent \<Rightarrow>
    ('a, 's, 'd, 'i, 'f, 'p, 'x) World \<Rightarrow> ('a, 's, 'd, 'i, 'f, 'p, 'x) World option" where
  "resume E ev w =
     (let c = snd w in
      case fst w of
        AtLoop \<Rightarrow> (case ev of Start \<Rightarrow> Some (workerThreadLoop E c) | _ \<Rightarrow> None)
      | AwaitUrl \<Rightarrow>
          (case ev of
             UrlArrived now \<Rightarrow>
               (case cn_connectChan c of
                  [] \<Rightarrow> None
                | url # rest \<Rightarrow>
                    Some (onConnectResult (threadConnect E now url (newWaiter (c\<lparr>cn_connectChan := rest\<rparr>)))))
           | _ \<Rightarrow> None)
      | AwaitSrv srvName hostname type settings \<Rightarrow>
          orCancelled ev (resumeDns E ev (AwaitSrv srvName hostname type settings) c) c
      | AwaitIps queried hostname port type settings \<Rightarrow>
          orCancelled ev (resumeDns E ev (AwaitIps queried hostname port type settings) c) c
      | AwaitPings run \<Rightarrow> orCancelled ev (resumePings E ev run c) c
      | AwaitSocket addr type rest errors opts qdb \<Rightarrow>
          orCancelled ev
            (case ev of
               SocketAnswered res \<Rightarrow> Some (onConnectResult (onSocketResult E res addr type rest errors c))
             | _ \<Rightarrow> None) c
      | AwaitEvent \<Rightarrow> resumeConnected E ev c
      | AwaitReconnect opts stateless timeout \<Rightarrow>
          orCancelled ev
            (case ev of SocketAnswered res \<Rightarrow> Some (onReconnectResult stateless timeout res c) | _ \<Rightarrow> None) c
      | AwaitRetry timeout \<Rightarrow> orCancelled ev (case ev of Slept \<Rightarrow> Some (AtLoop, c) | _ \<Rightarrow> None) c
      | AwaitClose \<Rightarrow> resumeClose ev c
      | AwaitClosed \<Rightarrow> resumeClosed ev c
      | Crashed \<Rightarrow> None)"

section \<open>The worker and its user\<close>

datatype ('d, 'f, 'p) UserCall =
    Connect string
  | Disconnect
  | Send OutgoingMessage
  | ChangeSettings "('d, 'f, 'p) ConnectionSettings"
  | Drop

fun callUser :: "('d, 'f, 'p) UserCall \<Rightarrow> ('a, 's, 'd, 'f, 'p, 'x) Connection \<Rightarrow>
    ('a, 's, 'd, 'f, 'p, 'x) Connection" where
  "callUser (Connect url) c = snd (Connection_connect url c)"
| "callUser Disconnect c = Connection_disconnect c"
| "callUser (Send message) c = snd (sendMsgToThread message c)"
| "callUser (ChangeSettings settings) c = c\<lparr>cn_settings := settings\<rparr>"
| "callUser Drop c = simulateConnectionDrop c"

datatype ('ip, 'd, 'i, 'f, 'p, 's) Event =
    Worker "('ip, 'd, 'i, 's) WorkerEvent"
  | User "('d, 'f, 'p) UserCall"

fun happen :: "('ip, 'a, 'd, 'i, 'f, 'x) conn_env \<Rightarrow> ('ip, 'd, 'i, 'f, 'p, 's) Event \<Rightarrow>
    ('a, 's, 'd, 'i, 'f, 'p, 'x) World \<Rightarrow> ('a, 's, 'd, 'i, 'f, 'p, 'x) World option" where
  "happen E (Worker ev) w = resume E ev w"
| "happen E (User call) w = Some (fst w, callUser call (snd w))"

text \<open>The worlds a connection can be in after events that satisfy \<open>allowed\<close>.\<close>

inductive reaches :: "('ip, 'a, 'd, 'i, 'f, 'x) conn_env \<Rightarrow>
    (('ip, 'd, 'i, 'f, 'p, 's) Event \<Rightarrow> ('a, 's, 'd, 'i, 'f, 'p, 'x) World \<Rightarrow> bool) \<Rightarrow>
    ('a, 's, 'd, 'i, 'f, 'p, 'x) World \<Rightarrow> ('a, 's, 'd, 'i, 'f, 'p, 'x) World \<Rightarrow> bool"
  for E allowed w where
  stay: "reaches E allowed w w"
| move: "reaches E allowed w w1 \<Longrightarrow> allowed ev w1 \<Longrightarrow> happen E ev w1 = Some w2 \<Longrightarrow> reaches E allowed w w2"

inductive_cases reachesE: "reaches E allowed w w'"

text \<open>A run along given events.\<close>

fun happens :: "('ip, 'a, 'd, 'i, 'f, 'x) conn_env \<Rightarrow> ('ip, 'd, 'i, 'f, 'p, 's) Event list \<Rightarrow>
    ('a, 's, 'd, 'i, 'f, 'p, 'x) World \<Rightarrow> ('a, 's, 'd, 'i, 'f, 'p, 'x) World option" where
  "happens E [] w = Some w"
| "happens E (ev # evs) w = Option.bind (happen E ev w) (happens E evs)"

definition initial_world :: "('d, 'i, 'f) time_ops \<Rightarrow> 'a ConnectionCallbacks \<Rightarrow>
    ('a, 's, 'd, 'i, 'f, 'p, 'x) World" where
  "initial_world T callbacks = (AtLoop, (Connection_create T)\<lparr>cn_callbacks := callbacks\<rparr>)"

lemma reaches_trans:
  assumes "reaches E allowed w1 w2" and "reaches E allowed w2 w3"
  shows "reaches E allowed w1 w3"
  using assms(2,1) by (induction rule: reaches.induct) (auto intro: move)

end
