(* ===== verification/Connection_Safety.thy ===== *)
theory Connection_Safety
  imports Connection_Worker
begin

text \<open>
  The worker of a connection is safe: in every world it can reach the state variable fits the
  point where the worker waits, the socket and the address are there when they are used, no
  assertion fails, and there are at most six attempts to reconnect.  The exceptions, which the
  code does not rule out, are the conditions of \<open>well_behaved\<close>.
\<close>

section \<open>What the operations leave unchanged\<close>

named_theorems conn_frame \<open>the parts of a connection an operation does not change\<close>

lemma setState_frame [simp, conn_frame]:
  "cn_connState (setState st c) = st"
  "cn_socket (setState st c) = cn_socket c"
  "cn_settings (setState st c) = cn_settings c"
  "cn_callbacks (setState st c) = cn_callbacks c"
  "cn_disconnectReq (setState st c) = cn_disconnectReq c"
  "cn_connectChan (setState st c) = cn_connectChan c"
  "cn_msgChan (setState st c) = cn_msgChan c"
  "cn_lastError (setState st c) = cn_lastError c"
  "cn_disconnectNotified (setState st c) = cn_disconnectNotified c"
  "cn_connectHostname (setState st c) = cn_connectHostname c"
  "cn_connectPath (setState st c) = cn_connectPath c"
  "cd_address (cn_data (setState st c)) = cd_address (cn_data c)"
  "cd_connType (cn_data (setState st c)) = cd_connType (cn_data c)"
  by (simp_all add: setState_def Let_def)

lemma setState_data:
  "st \<noteq> Connected \<Longrightarrow> cn_data (setState st c) = cn_data c"
  "cn_connState c \<noteq> Connected \<Longrightarrow> cd_reconnectAttempt (cn_data (setState Connected c)) = 0"
  "cn_connState c \<noteq> Connected \<Longrightarrow> \<not> cd_tryStatelessReconnect (cn_data (setState Connected c))"
  by (simp_all add: setState_def Let_def)

lemma reset_frame [simp, conn_frame]:
  "cn_connState (resetConnectionState c) = cn_connState c"
  "cn_settings (resetConnectionState c) = cn_settings c"
  "cn_callbacks (resetConnectionState c) = cn_callbacks c"
  "cn_socket (resetConnectionState c) = None"
  "cn_connectChan (resetConnectionState c) = cn_connectChan c"
  "cn_trace (resetConnectionState c) = cn_trace c"
  by (simp_all add: resetConnectionState_def)

lemma newWaiter_frame [simp, conn_frame]:
  "cn_connState (newWaiter c) = cn_connState c"
  "cn_settings (newWaiter c) = cn_settings c"
  "cn_callbacks (newWaiter c) = cn_callbacks c"
  "cn_socket (newWaiter c) = cn_socket c"
  "cn_data (newWaiter c) = cn_data c"
  "cn_trace (newWaiter c) = cn_trace c"
  by (simp_all add: newWaiter_def)

lemma ask_frame:
  assumes "askShouldReconnect err c = (b, c')"
  shows "cn_connState c' = cn_connState c" "cn_socket c' = cn_socket c" "cn_data c' = cn_data c"
    "cn_callbacks c' = cn_callbacks c" "cn_connectChan c' = cn_connectChan c"
  using assms by (auto simp: askShouldReconnect_def split: option.splits)

text \<open>A fatal error either starts reconnecting, from the established state only, or disconnects.\<close>

lemma onFatalError_state:
  "cn_connState (onFatalError err c) =
     (if cn_connState c = Connected \<and> fst (askShouldReconnect err (c\<lparr>cn_lastError := err\<rparr>))
      then Reconnecting else Disconnected)"
  by (auto simp: onFatalError_def Let_def Connection_state_def split: prod.splits)

lemma onFatalError_keeps:
  assumes "cn_connState (onFatalError err c) = Reconnecting"
  shows "cn_connState c = Connected" "cn_socket (onFatalError err c) = cn_socket c"
    "cn_data (onFatalError err c) = cn_data c"
  using assms
  by (auto simp: onFatalError_def Let_def Connection_state_def setState_data
      dest: ask_frame split: prod.splits if_splits)

section \<open>The invariant\<close>

text \<open>What is there while a connection exists.\<close>

definition socket_ready :: "('ip, 'a, 'd, 'i, 'f, 'x) conn_env \<Rightarrow> ('a, 's, 'd, 'f, 'p, 'x) Connection \<Rightarrow> bool" where
  "socket_ready E c \<longleftrightarrow> cn_socket c \<noteq> None \<and> cd_address (cn_data c) \<noteq> None \<and>
     cd_connType (cn_data c) \<noteq> Unknown \<and> isSupported E (cd_connType (cn_data c))"

definition attempts :: "('a, 's, 'd, 'f, 'p, 'x) Connection \<Rightarrow> nat" where
  "attempts c = unat (cd_reconnectAttempt (cn_data c))"

definition connectable :: "SupportedProtocol list \<Rightarrow> bool" where
  "connectable protocols \<longleftrightarrow> (\<exists>p\<in>set protocols. connTypeOfProtocol (sp_protocolId p) \<noteq> None)"

fun world_ok :: "('ip, 'a, 'd, 'i, 'f, 'x) conn_env \<Rightarrow> ('a, 's, 'd, 'i, 'f, 'p, 'x) World \<Rightarrow> bool" where
  "world_ok E (AtLoop, c) \<longleftrightarrow>
     (case cn_connState c of
        Disconnected \<Rightarrow> True
      | Connected \<Rightarrow> socket_ready E c \<and> attempts c = 0
      | Closing \<Rightarrow> socket_ready E c
      | Reconnecting \<Rightarrow> socket_ready E c \<and> attempts c \<le> 6
      | _ \<Rightarrow> False)"
| "world_ok E (AwaitUrl, c) \<longleftrightarrow> cn_connState c = Disconnected"
| "world_ok E (AwaitSrv _ _ _ _, c) \<longleftrightarrow> cn_connState c = DnsResolving"
| "world_ok E (AwaitIps _ _ _ _ _, c) \<longleftrightarrow> cn_connState c = DnsResolving"
| "world_ok E (AwaitPings run, c) \<longleftrightarrow> cn_connState c = Pinging \<and> pn_addrs run \<noteq> [] \<and>
     (pn_pingResults run \<noteq> [] \<longrightarrow> connectable (pn_protocols run))"
| "world_ok E (AwaitSocket addr type rest errors opts qdb, c) \<longleftrightarrow>
     cn_connState c = Connecting \<and> type \<noteq> Unknown \<and> isSupported E type \<and> Unknown \<notin> snd ` set rest"
| "world_ok E (AwaitEvent, c) \<longleftrightarrow> cn_connState c = Connected \<and> socket_ready E c \<and> attempts c = 0"
| "world_ok E (AwaitReconnect opts stateless timeout, c) \<longleftrightarrow>
     cn_connState c = Reconnecting \<and> socket_ready E c \<and> attempts c \<in> {1..6}"
| "world_ok E (AwaitRetry timeout, c) \<longleftrightarrow>
     cn_connState c = Reconnecting \<and> socket_ready E c \<and> attempts c \<in> {1..6}"
| "world_ok E (AwaitClose, c) \<longleftrightarrow> cn_connState c = Closing \<and> socket_ready E c"
| "world_ok E (AwaitClosed, c) \<longleftrightarrow> cn_connState c = Closing \<and> socket_ready E c"
| "world_ok E (Crashed, c) \<longleftrightarrow> False"

text \<open>The progress of an attempt to connect.\<close>

fun progress_ok :: "('ip, 'a, 'd, 'i, 'f, 'x) conn_env \<Rightarrow>
    ('a, 'd, 'i, 'f, 'p, 'x) Progress \<times> ('a, 's, 'd, 'f, 'p, 'x) Connection \<Rightarrow> bool" where
  "progress_ok E (Suspended task, c) \<longleftrightarrow> world_ok E (task, c)"
| "progress_ok E (Returned (Inr _), c) \<longleftrightarrow> cn_connState c \<noteq> Connected \<and> socket_ready E c"
| "progress_ok E (Returned (Inl (Failed err)), c) \<longleftrightarrow> cn_connState c \<noteq> Connected"
| "progress_ok E (Returned (Inl _), c) \<longleftrightarrow> False"

lemma ready_update [simp]:
  "socket_ready E (c\<lparr>cn_msgChan := x0\<rparr>) = socket_ready E c"
  "attempts (c\<lparr>cn_msgChan := x0\<rparr>) = attempts c"
  "socket_ready E (c\<lparr>cn_lastError := x1\<rparr>) = socket_ready E c"
  "attempts (c\<lparr>cn_lastError := x1\<rparr>) = attempts c"
  "socket_ready E (c\<lparr>cn_connectChan := x2\<rparr>) = socket_ready E c"
  "attempts (c\<lparr>cn_connectChan := x2\<rparr>) = attempts c"
  "socket_ready E (c\<lparr>cn_settings := x3\<rparr>) = socket_ready E c"
  "attempts (c\<lparr>cn_settings := x3\<rparr>) = attempts c"
  "socket_ready E (c\<lparr>cn_disconnectReq := x4\<rparr>) = socket_ready E c"
  "attempts (c\<lparr>cn_disconnectReq := x4\<rparr>) = attempts c"
  "socket_ready E (c\<lparr>cn_disconnectNotified := x5\<rparr>) = socket_ready E c"
  "attempts (c\<lparr>cn_disconnectNotified := x5\<rparr>) = attempts c"
  "socket_ready E (c\<lparr>cn_trace := x6\<rparr>) = socket_ready E c"
  "attempts (c\<lparr>cn_trace := x6\<rparr>) = attempts c"
  "socket_ready E (c\<lparr>cn_connectHostname := x7\<rparr>) = socket_ready E c"
  "attempts (c\<lparr>cn_connectHostname := x7\<rparr>) = attempts c"
  "socket_ready E (c\<lparr>cn_connectPath := x8\<rparr>) = socket_ready E c"
  "attempts (c\<lparr>cn_connectPath := x8\<rparr>) = attempts c"
  "socket_ready E (c\<lparr>cn_connState := x9\<rparr>) = socket_ready E c"
  "attempts (c\<lparr>cn_connState := x9\<rparr>) = attempts c"
  "socket_ready E (c\<lparr>cn_callbacks := x10\<rparr>) = socket_ready E c"
  "attempts (c\<lparr>cn_callbacks := x10\<rparr>) = attempts c"
  "socket_ready E (newWaiter c) = socket_ready E c"
  "attempts (newWaiter c) = attempts c"
  by (simp_all add: socket_ready_def attempts_def)

text \<open>What the environment must do: the SRV answer is not empty, a ping is answered for an address
  that was pinged and names a protocol that is known, addresses do not start with a colon, the
  socket operations do not fail an assertion, and the user does not call \<open>simulateConnectionDrop\<close>.\<close>

definition no_assertion :: "('e, 'b) outcome \<Rightarrow> bool" where
  "no_assertion r \<longleftrightarrow> r \<noteq> Inl AssertionFailed \<and> r \<noteq> Inl OutOfBounds"

fun well_behaved :: "('ip, 'a, 'd, 'i, 'f, 'x) conn_env \<Rightarrow> ('ip, 'd, 'i, 'f, 'p, 's) Event \<Rightarrow>
    ('a, 's, 'd, 'i, 'f, 'p, 'x) World \<Rightarrow> bool" where
  "well_behaved E (Worker (UrlArrived now)) w \<longleftrightarrow>
     (\<forall>url rest. cn_connectChan (snd w) = url # rest \<longrightarrow>
        isOk (UrlParser_new (ve_addr E) url :: ('a, _) ConnectionResult))"
| "well_behaved E (Worker (SrvAnswered res)) w \<longleftrightarrow> res \<noteq> Inr []"
| "well_behaved E (Worker (PingArrived now i result)) w \<longleftrightarrow>
     (case fst w of AwaitPings run \<Rightarrow> i < length (pn_addrs run) | _ \<Rightarrow> True) \<and>
     (pr_protocols result \<noteq> [] \<longrightarrow> connectable (pr_protocols result))"
| "well_behaved E (Worker (SocketAnswered res)) w \<longleftrightarrow> no_assertion res"
| "well_behaved E (Worker (MessageSent _ res)) w \<longleftrightarrow> no_assertion res"
| "well_behaved E (Worker (TimerHandled _ res)) w \<longleftrightarrow> no_assertion res"
| "well_behaved E (Worker (MessageReceived _ res)) w \<longleftrightarrow> no_assertion res"
| "well_behaved E (Worker (SocketClosing _ res)) w \<longleftrightarrow> no_assertion res"
| "well_behaved E (User Drop) w \<longleftrightarrow> False"
| "well_behaved E _ w \<longleftrightarrow> True"

section \<open>Connecting keeps the invariant\<close>

lemma onFatalError_ok:
  assumes "cn_connState c = Connected \<longrightarrow> socket_ready E c \<and> attempts c \<le> 6"
  shows "world_ok E (AtLoop, onFatalError err c)"
proof (cases "cn_connState (onFatalError err c) = Reconnecting")
  case True
  then show ?thesis
    using assms onFatalError_keeps [OF True] by (simp add: socket_ready_def attempts_def)
next
  case False
  then have "cn_connState (onFatalError err c) = Disconnected"
    by (auto simp: onFatalError_state split: if_splits)
  then show ?thesis
    by simp
qed

lemma world_ok_update [simp]:
  "world_ok E (AtLoop, c\<lparr>cn_msgChan := m\<rparr>) = world_ok E (AtLoop, c)"
  "world_ok E (AtLoop, c\<lparr>cn_lastError := e\<rparr>) = world_ok E (AtLoop, c)"
  by (cases "cn_connState c"; simp)+

lemma onConnectResult_ok:
  assumes "progress_ok E pc"
  shows "world_ok E (onConnectResult pc)"
proof (cases pc)
  case (Pair p c)
  show ?thesis
  proof (cases p)
    case (Returned r)
    consider u where "r = Inr u" | err where "r = Inl (Failed err)" | "r = Inl AssertionFailed" | "r = Inl OutOfBounds"
      by (metis failure.exhaust sum.exhaust)
    then show ?thesis
    proof cases
      case 1
      then show ?thesis
        using assms Pair Returned setState_data(2) [of c]
        by (simp add: socket_ready_def attempts_def)
    next
      case 2
      then have "world_ok E (AtLoop, onFatalError err c)"
        using assms Pair Returned by (intro onFatalError_ok) simp
      then show ?thesis
        by (simp only: 2 Pair Returned onConnectResult.simps world_ok_update)
    qed (use assms Pair Returned in simp_all)
  qed (use assms Pair in simp)
qed

lemma onConnectResult_eq_ok: "onConnectResult pc = w \<Longrightarrow> progress_ok E pc \<Longrightarrow> world_ok E w"
  using onConnectResult_ok by blast

lemma step_then_frame:
  assumes "\<And>a s s'. f a s = s' \<Longrightarrow> P (snd s')" and "P c"
  shows "P (snd (step_then (r, c) f))"
  using assms by (cases r) auto

lemma initTls_frame:
  assumes "initTlsContext E type c = (r, c')"
  shows "cn_connState c' = cn_connState c" "cn_socket c' = cn_socket c" "cn_data c' = cn_data c"
    "cn_settings c' = cn_settings c" "cn_connectChan c' = cn_connectChan c" "cn_trace c' = cn_trace c"
    "cn_callbacks c' = cn_callbacks c"
  using assms
  by (auto simp: initTlsContext_def step_then_def Let_def split: if_splits sum.splits)

lemma initTls_total:
  assumes "isSupported E type" and "initTlsContext E type c = (r, c')"
    and "\<And>b. no_assertion (xt_createContext (ve_tls E) b)"
    and "\<And>x. no_assertion (xt_loadSystemCACerts (ve_tls E) x)"
    and "\<And>g x. no_assertion (xt_setGroups (ve_tls E) g x)"
  shows "no_assertion r"
  using assms
  by (auto simp: initTlsContext_def step_then_def Let_def isSupported_def setupQuicContext_def no_assertion_def
      split: if_splits sum.splits)

text \<open>The TLS library itself does not fail an assertion.\<close>

definition tls_total :: "('ip, 'a, 'd, 'i, 'f, 'x) conn_env \<Rightarrow> bool" where
  "tls_total E \<longleftrightarrow> (\<forall>b. no_assertion (xt_createContext (ve_tls E) b)) \<and>
     (\<forall>x. no_assertion (xt_loadSystemCACerts (ve_tls E) x)) \<and>
     (\<forall>g x. no_assertion (xt_setGroups (ve_tls E) g x))"

lemma makeOptions_total:
  "isSupported E type \<Longrightarrow> \<exists>opts. makeOptions E addr type reconnect c = Ok opts"
  by (auto simp: makeOptions_def getTlsForConnection_def isSupported_def)

lemma establish_cases:
  assumes "tls_total E" and "threadEstablishConn E addr type c = (r, c')"
  shows "(\<exists>err. r = Err err) \<or> (\<exists>opts. r = Ok opts \<and> isSupported E type)"
    and "cn_connState c' = cn_connState c"
proof -
  obtain tls c1 where tls: "(if ve_tlsSupport E \<and> requiresTls type then initTlsContext E type c else (Ok (), c)) = (tls, c1)"
    by fastforce
  have st: "cn_connState c1 = cn_connState c"
    using tls initTls_frame(1) [of E type c tls c1] by (auto split: if_splits)
  have "((\<exists>err. r = Err err) \<or> (\<exists>opts. r = Ok opts \<and> isSupported E type)) \<and> cn_connState c' = cn_connState c"
  proof (cases "isSupported E type")
    case False
    then show ?thesis
      using assms(2) by (auto simp: threadEstablishConn_def)
  next
    case True
    have "no_assertion tls"
      using tls initTls_total [OF True, of c tls c1] assms(1)
      by (auto simp: tls_total_def no_assertion_def split: if_splits)
    then consider err where "tls = Err err" | u where "tls = Ok u"
      by (cases tls) (auto simp: no_assertion_def, metis failure.exhaust)
    then show ?thesis
    proof cases
      case 1
      then show ?thesis
        using assms(2) True st by (auto simp: threadEstablishConn_def tls Let_def)
    next
      case 2
      obtain opts where "makeOptions E addr type False c1 = Ok opts"
        using makeOptions_total [OF True] by blast
      then show ?thesis
        using 2 assms(2) True st
        by (simp add: threadEstablishConn_def tls Let_def threadConnectSocket_def) metis
    qed
  qed
  then show "(\<exists>err. r = Err err) \<or> (\<exists>opts. r = Ok opts \<and> isSupported E type)"
    and "cn_connState c' = cn_connState c"
    by blast+
qed

lemma connectNext_ok:
  assumes "tls_total E" and "cn_connState c = Connecting" and "Unknown \<notin> snd ` set rest"
    and "rest \<noteq> [] \<or> errors \<noteq> []"
  shows "progress_ok E (connectNext E rest errors c)"
  using assms(2-)
proof (induction rest arbitrary: errors c)
  case (Cons a rest)
  obtain addr type where a: "a = (addr, type)"
    by (cases a)
  obtain r c' where est: "threadEstablishConn E addr type c = (r, c')"
    by fastforce
  note cases = establish_cases [OF assms(1) est]
  show ?case
  proof (cases r)
    case (Inl e)
    then obtain err where "e = Failed err"
      using cases(1) by auto
    then show ?thesis
      using Cons.IH [of c' "errors @ [(addr, type, err)]"] Cons.prems cases(2) est Inl a by simp
  next
    case (Inr opts)
    then have "isSupported E type"
      using cases(1) by auto
    then show ?thesis
      using Cons.prems cases(2) est Inr a by auto
  qed
qed simp

lemma sortFinal_known:
  "Unknown \<notin> snd ` set addrs \<Longrightarrow> sortFinal preferred addrs = Ok (sort_by (final_less preferred) addrs)"
proof -
  assume known: "Unknown \<notin> snd ` set addrs"
  have num: "toNum t \<noteq> None" if "t \<noteq> Unknown" for t
    using that by (cases t) simp_all
  have "\<forall>a\<in>set addrs. snd a = preferred \<or> toNum (snd a) \<noteq> None"
    using known num by (metis image_eqI)
  then show "sortFinal preferred addrs = Ok (sort_by (final_less preferred) addrs)"
    by (simp add: sortFinal_def)
qed

lemma threadFinalConnect_ok:
  assumes "tls_total E" and "addrs \<noteq> []" and "Unknown \<notin> snd ` set addrs"
  shows "progress_ok E (threadFinalConnect E addrs c)"
proof -
  let ?sorted = "sort_by (final_less (cs_preferredConnType (cn_settings c))) addrs"
  have "progress_ok E (connectNext E ?sorted [] (setState Connecting c))"
    using assms by (intro connectNext_ok) simp_all
  then show ?thesis
    using assms(2,3) by (simp add: threadFinalConnect_def Let_def sortFinal_known)
qed

lemma connTypeOfProtocol_known [simp]:
  "connTypeOfProtocol p \<noteq> Some Unknown" "Some Unknown \<noteq> connTypeOfProtocol p"
  by (auto simp: connTypeOfProtocol_def split: if_splits)

lemma addressesOf_known: "Unknown \<notin> snd ` set (addressesOf A protocols addr)"
  by (auto simp: addressesOf_def split: option.splits)

lemma addressesOf_some: "connectable protocols \<Longrightarrow> addressesOf A protocols addr \<noteq> []"
  by (auto simp: addressesOf_def connectable_def split: option.splits)

lemma finishPings_ok:
  assumes "tls_total E" and "pn_addrs run \<noteq> []"
    and "pn_pingResults run \<noteq> [] \<longrightarrow> connectable (pn_protocols run)"
  shows "progress_ok E (finishPings E run c)"
proof (cases "pn_pingResults run = []")
  case True
  then show ?thesis
    using assms unfolding finishPings_def Let_def
    by (simp, intro threadFinalConnect_ok) (auto simp: unpingedAddresses_def neq_Nil_conv)
next
  case False
  let ?results = "sort_by (ping_less E (cs_preferIpv6 (cn_settings c))) (pn_pingResults run)"
  obtain addr d where "(addr, d) \<in> set ?results"
    using False by (cases "pn_pingResults run") auto
  moreover have "addressesOf (ve_addr E) (pn_protocols run) addr \<noteq> []"
    using assms(3) False by (simp add: addressesOf_some)
  ultimately have "concat (map (\<lambda>p. addressesOf (ve_addr E) (pn_protocols run) (fst p)) ?results) \<noteq> []"
    by (force simp del: set_sort_by)
  moreover have "Unknown \<notin> snd ` set (concat (map (\<lambda>p. addressesOf (ve_addr E) (pn_protocols run) (fst p)) ?results))"
    by (simp add: image_UN addressesOf_known)
  ultimately show ?thesis
    using assms(1) False unfolding finishPings_def Let_def by (simp, intro threadFinalConnect_ok) simp_all
qed

lemma pingLoop_ok:
  assumes "tls_total E" and "pn_addrs run \<noteq> []"
    and "pn_pingResults run \<noteq> [] \<longrightarrow> connectable (pn_protocols run)" and "cn_connState c = Pinging"
  shows "progress_ok E (pingLoop E now run c)"
  using finishPings_ok [OF assms(1-3), of c] assms by (simp add: pingLoop_def Let_def)

lemma connectable_addProtocols:
  "connectable protocols \<or> connectable protos \<Longrightarrow> connectable (addProtocols protocols protos)"
proof (induction protocols protos rule: addProtocols.induct)
  case (2 protocols proto protos)
  let ?known = "if \<exists>res\<in>set protocols. sp_protocolId res = sp_protocolId proto then protocols else protocols @ [proto]"
  have "connectable ?known \<or> connectable protos"
  proof (cases "connectable protocols \<or> connTypeOfProtocol (sp_protocolId proto) \<noteq> None")
    case True
    then have "connectable ?known"
      by (auto simp: connectable_def) metis
    then show ?thesis ..
  next
    case False
    then show ?thesis
      using "2.prems" by (simp add: connectable_def)
  qed
  then show ?case
    using "2.IH" by simp
qed (simp add: connectable_def)

lemma onPingResult_ok:
  assumes "i < length (pn_addrs run)" and "pr_protocols result \<noteq> [] \<longrightarrow> connectable (pr_protocols result)"
    and "pn_pingResults run \<noteq> [] \<longrightarrow> connectable (pn_protocols run)"
  shows "\<exists>run'. onPingResult i result run = Ok run' \<and> pn_addrs run' = pn_addrs run \<and>
     (pn_pingResults run' \<noteq> [] \<longrightarrow> connectable (pn_protocols run'))"
  using assms by (auto simp: onPingResult_def Let_def connectable_addProtocols)

lemma threadConnectWithIps_ok:
  assumes "tls_total E" and "cn_connState c \<noteq> Connected"
  shows "progress_ok E (threadConnectWithIps E now addrs type preferIpv6 c)"
proof -
  have "Unknown \<notin> snd ` set (map (\<lambda>addr. (addr, type)) xs)" if "type \<noteq> Unknown" for xs
    using that by auto
  then show ?thesis
    using assms
    by (auto simp: threadConnectWithIps_def Let_def sortAddresses_def threadPingCandidates_def PingRun_new_def
        intro!: pingLoop_ok threadFinalConnect_ok)
qed

text \<open>A parser that reports success has a protocol and a value.\<close>

lemma parsed_value:
  assumes "UrlParser_new A url = Ok parser" and "up_result parser = UrlSuccess"
  shows "up_proto parser \<noteq> None" and "up_value parser \<noteq> None"
  using assms
  by (auto simp: UrlParser_new_def UrlParser_parse_def parseAuthority_def parseHost_def parsePath_def
      Let_def unwrap_eq_Inr split: option.splits if_splits)

lemma threadConnectDomain_ok:
  "progress_ok E (threadConnectDomain hostname port type c)"
  by (auto simp: threadConnectDomain_def Let_def split: option.splits)

lemma threadConnect_ok:
  assumes "tls_total E" and "cn_connState c = Disconnected"
    and "isOk (UrlParser_new (ve_addr E) url :: ('a, ('ip, 'a) UrlParser) ConnectionResult)"
  shows "progress_ok (E :: ('ip, 'a, 'd, 'i, 'f, 'x) conn_env) (threadConnect E now url c)"
proof -
  obtain parser where p: "(UrlParser_new (ve_addr E) url :: ('a, _) ConnectionResult) = Ok parser"
    using assms(3) by (auto simp: isOk_def split: sum.splits)
  show ?thesis
  proof (cases "up_result parser")
    case UrlSuccess
    obtain v where v: "up_value parser = Some v"
      using parsed_value(2) [OF p UrlSuccess] by auto
    let ?c = "(resetConnectionState c)\<lparr>cn_connectPath := up_path parser\<rparr>"
    have st: "cn_connState ?c \<noteq> Connected"
      using assms(2) by simp
    have ip: "progress_ok E (threadConnectIp E now addr type ?c)" for addr type
      unfolding threadConnectIp_def using st by (intro threadConnectWithIps_ok [OF assms(1)]) simp
    show ?thesis
      using p UrlSuccess v ip threadConnectDomain_ok
      by (cases v) (simp_all add: threadConnect_def Let_def)
  qed (use p assms(2) in \<open>simp_all add: threadConnect_def\<close>)
qed

lemma onIpsAnswer_ok:
  assumes "tls_total E" and "cn_connState c = DnsResolving"
  shows "progress_ok E (onIpsAnswer E now settings hostname port type a aaaa aFirst c)"
  using assms by (auto simp: onIpsAnswer_def Let_def intro!: threadConnectWithIps_ok)

lemma onSrvAnswer_ok:
  assumes "cn_connState c = DnsResolving" and "res \<noteq> Inr []"
  shows "progress_ok E (onSrvAnswer hostname type settings res c)"
  using assms by (cases res) (auto simp: onSrvAnswer_def at_def neq_Nil_conv)

lemma onSocketResult_ok:
  assumes "tls_total E" and "no_assertion res" and "cn_connState c = Connecting"
    and "type \<noteq> Unknown" and "isSupported E type" and "Unknown \<notin> snd ` set rest"
  shows "progress_ok E (onSocketResult E res addr type rest errors c)"
proof -
  consider sock where "res = Inr sock" | err where "res = Err err"
    using assms(2) by (cases res) (auto simp: no_assertion_def, metis failure.exhaust)
  then show ?thesis
    using assms by cases (auto simp: onSocketResult_def socket_ready_def intro!: connectNext_ok)
qed

section \<open>The established connection keeps the invariant\<close>

lemma cancel_ok: "world_ok E (AtLoop, threadCancelConnection c)"
  by (simp add: threadCancelConnection_def)

lemma orCancelled_ok:
  assumes "orCancelled ev w c = Some w'" and "\<And>w'. w = Some w' \<Longrightarrow> world_ok E w'"
  shows "world_ok E w'"
  using assms cancel_ok [of E c] by (auto simp: orCancelled_def split: WorkerEvent.splits if_splits)

lemma onSocketOutcome_ok:
  assumes "no_assertion res" and "cn_connState c = Connected \<and> socket_ready E c \<and> attempts c = 0"
    and "\<And>v. res = Inr v \<Longrightarrow> world_ok E (AtLoop, handle v c)"
  shows "world_ok E (onSocketOutcome success res handle c)"
proof -
  consider v where "res = Inr v" | err where "res = Err err"
    using assms(1) by (cases res) (auto simp: no_assertion_def, metis failure.exhaust)
  then show ?thesis
  proof cases
    case 2
    have "world_ok E (AtLoop, onFatalError (TransportFailed err) c)"
      using assms(2) by (intro onFatalError_ok) simp
    then show ?thesis
      using 2 assms(2) by (simp add: onSocketOutcome_def onConnectionError_def)
  qed (use assms(3) in \<open>simp add: onSocketOutcome_def\<close>)
qed

lemma ready_socket [simp]:
  "socket_ready E c \<Longrightarrow> socket_ready E (c\<lparr>cn_socket := Some sock\<rparr>)"
  "attempts (c\<lparr>cn_socket := s\<rparr>) = attempts c"
  by (simp_all add: socket_ready_def attempts_def)

lemma handleIncoming_ok:
  assumes "cn_connState c = Connected \<and> socket_ready E c \<and> attempts c = 0"
  shows "world_ok E (AtLoop, threadHandleIncomingMessage fmt msg c)"
proof (cases msg)
  case (ServerClose closeMsg)
  then show ?thesis
    using assms onFatalError_ok [of c E] by simp
qed (use assms in simp_all)

lemma resumeConnected_ok:
  assumes "world_ok E (AwaitEvent, c)" and "well_behaved E (Worker ev) (AwaitEvent, c)"
    and "resumeConnected E ev c = Some w"
  shows "world_ok E w"
proof (cases ev)
  case (MessageSent sock res)
  then show ?thesis
    using assms by (auto simp: socket_ready_def attempts_def split: if_splits intro!: onSocketOutcome_ok)
next
  case (TimerHandled sock res)
  then show ?thesis
    using assms by (auto simp: socket_ready_def attempts_def split: if_splits intro!: onSocketOutcome_ok)
next
  case (MessageReceived sock res)
  then show ?thesis
    using assms
    by (auto simp: socket_ready_def attempts_def split: if_splits intro!: onSocketOutcome_ok handleIncoming_ok)
next
  case (ReceiveWaits sock)
  then show ?thesis
    using assms by (auto simp: socket_ready_def)
next
  case DisconnectNotified
  then show ?thesis
    using assms by (auto simp: socket_ready_def setState_data split: if_splits)
qed (use assms in auto)

lemma tryReconnect_ready:
  assumes "socket_ready E c"
  shows "\<exists>opts. threadTryReconnect E stateless c = Ok opts"
proof -
  obtain addr where "cd_address (cn_data c) = Some addr"
    using assms by (auto simp: socket_ready_def)
  moreover obtain opts where "makeOptions E addr (cd_connType (cn_data c)) (\<not> stateless) c = Ok opts"
    using makeOptions_total [of E "cd_connType (cn_data c)" addr "\<not> stateless" c] assms
    by (auto simp: socket_ready_def)
  ultimately show ?thesis
    using assms by (auto simp: threadTryReconnect_def threadConnectSocket_def socket_ready_def)
qed

lemma loopReconnecting_ok:
  assumes "cn_connState c = Reconnecting" and "socket_ready E c" and "attempts c \<le> 6"
  shows "world_ok E (loopReconnecting E c)"
proof -
  let ?attempt = "cd_reconnectAttempt (cn_data c) + 1"
  let ?c = "c\<lparr>cn_data := (cn_data c)\<lparr>cd_reconnectAttempt := ?attempt\<rparr>\<rparr>"
  have n: "unat ?attempt = attempts c + 1"
    using assms(3) by (simp add: attempts_def unat_plus_if_size word_size)
  have ready: "socket_ready E ?c"
    using assms(2) by (simp add: socket_ready_def)
  have "\<exists>opts. threadTryReconnect E (cd_tryStatelessReconnect (cn_data ?c)) ?c = Ok opts"
    using ready by (rule tryReconnect_ready)
  then obtain opts where "threadTryReconnect E (cd_tryStatelessReconnect (cn_data ?c)) ?c = Ok opts"
    by blast
  moreover have "attempts c + 1 \<le> 6" if "\<not> 7 \<le> ?attempt"
    using that n by (simp add: word_le_nat_alt)
  ultimately show ?thesis
    using assms(1) ready n cancel_ok
    by (auto simp: loopReconnecting_def Let_def attempts_def)
qed

lemma workerThreadLoop_ok:
  assumes "world_ok E (AtLoop, c)"
  shows "world_ok E (workerThreadLoop E c)"
proof (cases "cn_connState c")
  case Reconnecting
  then show ?thesis
    using assms by (simp add: workerThreadLoop_def Connection_state_def loopReconnecting_ok)
qed (use assms in \<open>auto simp: workerThreadLoop_def Connection_state_def socket_ready_def setState_data\<close>)

lemma onReconnectResult_ok:
  assumes "no_assertion res" and "world_ok E (AwaitReconnect opts stateless timeout, c)"
  shows "world_ok E (onReconnectResult stateless timeout res c)"
proof -
  consider sock where "res = Inr sock" | err where "res = Err err"
    using assms(1) by (cases res) (auto simp: no_assertion_def, metis failure.exhaust)
  then show ?thesis
    using assms(2)
    by cases (auto simp: onReconnectResult_def Let_def socket_ready_def attempts_def setState_data)
qed

lemma onReconnectResult_eq_ok:
  "onReconnectResult stateless timeout res c = w \<Longrightarrow> no_assertion res \<Longrightarrow>
   cn_connState c = Reconnecting \<and> socket_ready E c \<and> Suc 0 \<le> attempts c \<and> attempts c \<le> 6 \<Longrightarrow> world_ok E w"
  using onReconnectResult_ok [of res E _ stateless timeout c] by auto

lemma resumeClose_ok:
  assumes "world_ok E (AwaitClose, c)" and "well_behaved E (Worker ev) (AwaitClose, c)"
    and "resumeClose ev c = Some w"
  shows "world_ok E w"
proof (cases ev)
  case (SocketClosing sock res)
  have "world_ok E (AtLoop, onFatalError err (c\<lparr>cn_socket := Some sock\<rparr>))" for err
    using assms(1) by (intro onFatalError_ok) simp
  then show ?thesis
    using SocketClosing assms
    by (auto simp: Let_def no_assertion_def socket_ready_def split: if_splits sum.splits failure.splits)
qed (use assms in auto)

lemma resumeClosed_ok:
  assumes "world_ok E (AwaitClosed, c)" and "resumeClosed ev c = Some w"
  shows "world_ok E w"
  using assms by (cases ev) (auto simp: socket_ready_def split: if_splits)

lemma resumePings_ok:
  assumes "tls_total E" and "world_ok E (AwaitPings run, c)"
    and "well_behaved E (Worker ev) (AwaitPings run, c)" and "resumePings E ev run c = Some w"
  shows "world_ok E w"
proof (cases ev)
  case (PingArrived now i result)
  obtain run' where run': "onPingResult i result run = Ok run'" "pn_addrs run' = pn_addrs run"
    "pn_pingResults run' \<noteq> [] \<longrightarrow> connectable (pn_protocols run')"
    using onPingResult_ok [of i run result] assms(2,3) PingArrived by auto
  then show ?thesis
    using assms PingArrived by (auto intro!: onConnectResult_ok pingLoop_ok)
qed (use assms in \<open>auto intro!: onConnectResult_ok finishPings_ok\<close>)

lemma resume_ok:
  assumes "tls_total E" and "world_ok E w" and "well_behaved E (Worker ev) w" and "resume E ev w = Some w'"
  shows "world_ok E w'"
proof -
  obtain task c where w: "w = (task, c)"
    by (cases w)
  show ?thesis
  proof (cases task)
    case AtLoop
    then show ?thesis
      using assms w workerThreadLoop_ok by (auto simp: resume_def split: WorkerEvent.splits)
  next
    case AwaitUrl
    then show ?thesis
      using assms w
      by (auto simp: resume_def split: WorkerEvent.splits list.splits intro!: onConnectResult_ok threadConnect_ok)
  next
    case (AwaitSrv srvName hostname type settings)
    then show ?thesis
      using assms w
      by (cases ev) (auto simp: resume_def elim!: orCancelled_ok onConnectResult_eq_ok intro!: onSrvAnswer_ok)
  next
    case (AwaitIps queried hostname port type settings)
    then show ?thesis
      using assms w
      by (cases ev) (auto simp: resume_def elim!: orCancelled_ok onConnectResult_eq_ok intro!: onIpsAnswer_ok)
  next
    case (AwaitPings run)
    then show ?thesis
      using assms w resumePings_ok [OF assms(1), of run c ev]
      by (auto simp: resume_def elim!: orCancelled_ok)
  next
    case (AwaitSocket addr type rest errors opts qdb)
    then show ?thesis
      using assms w
      by (cases ev) (auto simp: resume_def elim!: orCancelled_ok onConnectResult_eq_ok intro!: onSocketResult_ok)
  next
    case AwaitEvent
    then show ?thesis
      using assms w resumeConnected_ok [of E c ev w'] by (simp add: resume_def)
  next
    case (AwaitReconnect opts stateless timeout)
    then show ?thesis
      using assms w
      by (cases ev) (auto simp: resume_def elim!: orCancelled_ok onReconnectResult_eq_ok)
  next
    case (AwaitRetry timeout)
    then show ?thesis
      using assms w by (cases ev) (auto simp: resume_def elim!: orCancelled_ok)
  next
    case AwaitClose
    then show ?thesis
      using assms w resumeClose_ok [of E c ev w'] by (simp add: resume_def)
  next
    case AwaitClosed
    then show ?thesis
      using assms w resumeClosed_ok [of E c ev w'] by (simp add: resume_def)
  qed (use assms w in auto)
qed

lemma world_ok_same:
  assumes "cn_connState c' = cn_connState c" "cn_socket c' = cn_socket c" "cn_data c' = cn_data c"
  shows "world_ok E (task, c') = world_ok E (task, c)"
proof -
  have "socket_ready E c' = socket_ready E c" "attempts c' = attempts c"
    using assms by (simp_all add: socket_ready_def attempts_def)
  then show ?thesis
    using assms(1) by (cases task; cases "cn_connState c"; simp)
qed

lemma callUser_frame:
  assumes "call \<noteq> Drop"
  shows "cn_connState (callUser call c) = cn_connState c" "cn_socket (callUser call c) = cn_socket c"
    "cn_data (callUser call c) = cn_data c"
  using assms
  by (cases call; simp add: Connection_connect_def Connection_disconnect_def sendMsgToThread_def)+

lemma happen_ok:
  assumes "tls_total E" and "world_ok E w" and "well_behaved E ev w" and "happen E ev w = Some w'"
  shows "world_ok E w'"
proof (cases ev)
  case (Worker wev)
  then show ?thesis
    using assms resume_ok [of E w wev w'] by simp
next
  case (User call)
  then have "call \<noteq> Drop"
    using assms(3) by auto
  then show ?thesis
    using assms User world_ok_same [OF callUser_frame] by (cases w) auto
qed

lemma world_ok_facts:
  assumes "world_ok E (task, c)"
  shows "task \<noteq> Crashed"
    and "cn_connState c \<in> {Connected, Closing, Reconnecting} \<Longrightarrow> socket_ready E c"
    and "cn_connState c = Connected \<Longrightarrow> attempts c = 0"
    and "cn_connState c = Reconnecting \<Longrightarrow> attempts c \<le> 6"
  using assms by (cases task; auto)+

section \<open>A concrete connection\<close>

definition sample_conn :: "((bool \<times> nat), (bool \<times> nat) \<times> u16, nat, nat, nat, unit) conn_env" where
  "sample_conn = \<lparr>ve_addr = sample_addr, ve_time = nat_time,
     ve_absDiff = (\<lambda>a b. if a < b then b - a else a - b), ve_instantPlus = (+), ve_instantLess = (<),
     ve_tls = \<lparr>xt_createContext = (\<lambda>_. Ok ()), xt_loadSystemCACerts = (\<lambda>_. Ok ()), xt_setGroups = (\<lambda>_ _. Ok ())\<rparr>,
     ve_tlsSupport = True, ve_quicSupport = True, ve_wsSupport = True, ve_qsoxSuccess = ''success'',
     ve_fmt = (\<lambda>n. decimal (unat n))\<rparr>"

type_synonym sample_world = "((bool \<times> nat) \<times> u16, unit, nat, nat, nat, unit, unit) World"

type_synonym sample_event = "(bool \<times> nat, nat, nat, nat, unit, unit) Event"

definition watch :: "'a ConnectionCallbacks" where
  "watch = \<lparr>cb_connState = True, cb_data = True, cb_stateReset = True, cb_shouldReconnect = None\<rparr>"

fun run_allowed :: "('ip, 'a, 'd, 'i, 'f, 'x) conn_env \<Rightarrow>
    (('ip, 'd, 'i, 'f, 'p, 's) Event \<Rightarrow> ('a, 's, 'd, 'i, 'f, 'p, 'x) World \<Rightarrow> bool) \<Rightarrow>
    ('ip, 'd, 'i, 'f, 'p, 's) Event list \<Rightarrow> ('a, 's, 'd, 'i, 'f, 'p, 'x) World \<Rightarrow> bool" where
  "run_allowed E P [] w = True"
| "run_allowed E P (ev # evs) w \<longleftrightarrow> P ev w \<and>
     (case happen E ev w of None \<Rightarrow> True | Some w' \<Rightarrow> run_allowed E P evs w')"

lemma run_reaches:
  "happens E evs w = Some w' \<Longrightarrow> run_allowed E P evs w \<Longrightarrow> reaches E P w0 w \<Longrightarrow> reaches E P w0 w'"
  by (induction evs arbitrary: w) (auto split: bind_splits intro: reaches.move)

text \<open>Connecting to an address over TCP.\<close>

definition connect_events :: "sample_event list" where
  "connect_events = [User (Connect ''tcp://#''), Worker Start, Worker (UrlArrived 0),
     Worker (SocketAnswered (Ok ()))]"

lemma sample_conn_fields [simp]:
  "ve_addr sample_conn = sample_addr" "ve_time sample_conn = nat_time"
  "ve_tlsSupport sample_conn" "ve_quicSupport sample_conn" "ve_wsSupport sample_conn"
  "ve_qsoxSuccess sample_conn = ''success''"
  "xt_createContext (ve_tls sample_conn) b = Ok ()"
  "xt_loadSystemCACerts (ve_tls sample_conn) x = Ok ()"
  "xt_setGroups (ve_tls sample_conn) g x = Ok ()"
  "ad_make sample_addr = Pair"
  by (simp_all add: sample_conn_def sample_addr_def)

lemma sample_tls_total [simp]: "tls_total sample_conn"
  by (simp add: tls_total_def no_assertion_def)

lemmas run_simps = resume_def workerThreadLoop_def Connection_state_def Connection_connect_def newWaiter_def
  threadConnect_def threadConnectIp_def threadConnectWithIps_def
  threadFinalConnect_def sortFinal_def sortAddresses_def threadEstablishConn_def isSupported_def requiresTls_def
  threadConnectSocket_def makeOptions_def getTlsForConnection_def onSocketResult_def orCancelled_def
  resetConnectionState_def ConnectionData_new_def setState_def Let_def

lemma sample_parse:
  "UrlParser_new sample_addr ''tcp://#'' = (Ok \<lparr>up_url = ''#'', up_path = [], up_proto = Some Tcp,
     up_result = UrlSuccess, up_value = Some (UrlIp (False, 1))\<rparr> :: ('e, _) outcome)"
  by (simp add: UrlParser_new_def UrlParser_parse_def parseProtocol_def parsePath_def parseAuthority_def
      parseHost_def stripBrackets_def sample_addr_def)

lemma connect_run:
  "\<exists>c. happens sample_conn connect_events (initial_world nat_time watch :: sample_world) = Some (AtLoop, c) \<and>
     cn_connState c = Connected \<and> cn_socket c = Some () \<and>
     cn_trace c = [StateChanged Connecting, StateChanged Connected]"
  by (simp add: connect_events_def initial_world_def Connection_create_def watch_def run_simps sample_parse)

section \<open>Safety\<close>

text \<open>C5 (safety).  As long as the surroundings stay \<open>well_behaved\<close> (every pong names a protocol the client
  knows and comes from an address that was pinged, an SRV answer is not empty, the operations on the socket and
  on its creation fail no assertion of their own, the texts given to the parser of addresses do not lead it
  into undefined behaviour, and \<open>simulateConnectionDrop\<close> is not called) and the TLS library fails no assertion
  either, the worker never fails an assertion and never uses a socket that is not there: while the state is
  connected, closing or reconnecting, the socket, the address and a supported protocol are set;
  an established connection has no failed attempts counted, and a reconnecting one at most six.  Without the
  first condition the worker does fail (\<open>unknown_protocols_crash\<close> in \<open>Connection_Runs\<close>).\<close>

theorem connection_worker_safe:
  assumes "tls_total E" and "reaches E (well_behaved E) (initial_world T callbacks) (task, c)"
  shows "task \<noteq> Crashed \<and>
     (cn_connState c \<in> {Connected, Closing, Reconnecting} \<longrightarrow> socket_ready E c) \<and>
     (cn_connState c = Connected \<longrightarrow> attempts c = 0) \<and>
     (cn_connState c = Reconnecting \<longrightarrow> attempts c \<le> 6)"
proof -
  have "world_ok E w" if "reaches E (well_behaved E) (initial_world T callbacks) w" for w
    using that
  proof induction
    case stay
    show ?case
      by (simp add: initial_world_def Connection_create_def)
  next
    case (move w1 ev w2)
    then show ?case
      using happen_ok [OF assms(1)] by blast
  qed
  then have "world_ok E (task, c)"
    using assms(2) by blast
  then show ?thesis
    using world_ok_facts by blast
qed

theorem connection_worker_safe_witness:
  "\<exists>c. reaches sample_conn (well_behaved sample_conn) (initial_world nat_time watch :: sample_world) (AtLoop, c) \<and>
     cn_connState c = Connected \<and> socket_ready sample_conn c \<and> attempts c = 0"
proof -
  obtain c where c: "happens sample_conn connect_events (initial_world nat_time watch :: sample_world) = Some (AtLoop, c)"
    "cn_connState c = Connected"
    using connect_run by blast
  have "run_allowed sample_conn (well_behaved sample_conn) connect_events (initial_world nat_time watch :: sample_world)"
    by (simp add: connect_events_def initial_world_def Connection_create_def watch_def run_simps sample_parse
        no_assertion_def)
  then have "reaches sample_conn (well_behaved sample_conn) (initial_world nat_time watch :: sample_world) (AtLoop, c)"
    using run_reaches [OF c(1)] reaches.stay by blast
  then show ?thesis
    using connection_worker_safe [OF sample_tls_total, of nat_time watch AtLoop c] c(2) by blast
qed

end
