(* ===== verification/Connection_Runs.thy ===== *)
theory Connection_Runs
  imports Connection_Safety
begin

text \<open>
  What the worker does along whole runs: the order in which the candidates are tried, giving up
  after six attempts to reconnect, and runs that end in a way the code does not mean.
\<close>

section \<open>The candidates are tried in order\<close>

text \<open>The place of a type: the preferred one first, then TCP, QUIC, UDP and WebSockets.\<close>

definition rank :: "ConnectionType \<Rightarrow> ConnectionType \<Rightarrow> nat" where
  "rank preferred type = (if type = preferred then 0 else Suc (the (toNum type)))"

lemma final_less_rank:
  "final_less preferred = (\<lambda>a b. rank preferred (snd a) < rank preferred (snd b))"
  by (intro ext) (auto simp: final_less_def rank_def)

lemma sort_final: "sort_by (final_less preferred) addrs = sort_key (\<lambda>a. rank preferred (snd a)) addrs"
  by (simp add: final_less_rank sort_by_key)

text \<open>The socket answers one attempt after the other.\<close>

fun answer_all :: "('ip, 'a, 'd, 'i, 'f, 'x) conn_env \<Rightarrow> 's TransportResult list \<Rightarrow>
    ('a, 'd, 'i, 'f, 'p, 'x) Progress \<times> ('a, 's, 'd, 'f, 'p, 'x) Connection \<Rightarrow>
    ('a, 'd, 'i, 'f, 'p, 'x) Progress \<times> ('a, 's, 'd, 'f, 'p, 'x) Connection" where
  "answer_all E (r # rs) (Suspended (AwaitSocket addr type rest errors opts qdb), c) =
     answer_all E rs (onSocketResult E r addr type rest errors c)"
| "answer_all E _ pc = pc"

definition tls_works :: "('ip, 'a, 'd, 'i, 'f, 'x) conn_env \<Rightarrow> bool" where
  "tls_works E \<longleftrightarrow> (\<forall>b. \<exists>ctx. xt_createContext (ve_tls E) b = Ok ctx) \<and>
     (\<forall>x. \<exists>ctx. xt_loadSystemCACerts (ve_tls E) x = Ok ctx) \<and> (\<forall>g x. \<exists>ctx. xt_setGroups (ve_tls E) g x = Ok ctx)"

lemma initTls_works:
  assumes "tls_works E" and "isSupported E type"
  shows "\<exists>c'. initTlsContext E type c = (Ok (), c')"
proof -
  obtain ctx ld gr where "xt_createContext (ve_tls E) b = Ok (ctx b)"
    "xt_loadSystemCACerts (ve_tls E) x = Ok (ld x)" "xt_setGroups (ve_tls E) g x = Ok (gr g x)" for b x g
    using assms(1) unfolding tls_works_def by metis
  then show ?thesis
    using assms(2) by (auto simp: initTlsContext_def Let_def setupQuicContext_def isSupported_def)
qed

lemma establish_works:
  assumes "tls_works E" and "isSupported E type"
  shows "\<exists>opts c'. threadEstablishConn E addr type c = (Ok opts, c')"
proof -
  obtain c1 where c1: "(if ve_tlsSupport E \<and> requiresTls type then initTlsContext E type c else (Ok (), c)) = (Ok (), c1)"
    using initTls_works [OF assms, of c] by (cases "ve_tlsSupport E \<and> requiresTls type") auto
  obtain opts where "makeOptions E addr type False c1 = Ok opts"
    using makeOptions_total [OF assms(2)] by blast
  then show ?thesis
    using assms(2) by (simp add: threadEstablishConn_def c1 Let_def threadConnectSocket_def)
qed

lemma all_answers_fail:
  assumes "tls_works E" and "\<forall>a\<in>set rest. isSupported E (snd a)" and "length errs = length rest"
    and "errors \<noteq> [] \<or> rest \<noteq> []"
  shows "fst (answer_all E (map (\<lambda>e. Err e) errs) (connectNext E rest errors c)) =
     Returned (Err (AllAddressesFailed (errors @ map2 (\<lambda>a e. (fst a, snd a, TransportFailed e)) rest errs)))"
  using assms(2-)
proof (induction rest arbitrary: errors errs c)
  case (Cons a rest)
  obtain addr type where a: "a = (addr, type)"
    by (cases a)
  obtain e es where errs: "errs = e # es"
    using Cons.prems(2) by (cases errs) auto
  obtain opts c' where "threadEstablishConn E addr type c = (Ok opts, c')"
    using establish_works [OF assms(1), of type addr c] Cons.prems(1) a by auto
  then show ?case
    using Cons.IH [of es "errors @ [(addr, type, TransportFailed e)]" c'] Cons.prems a errs
    by (simp add: onSocketResult_def)
qed simp

lemma first_success_wins:
  assumes "tls_works E" and "\<forall>a\<in>set rest. isSupported E (snd a)" and "length errs < length rest"
  shows "\<exists>c'. answer_all E (map (\<lambda>e. Err e) errs @ [Ok sock]) (connectNext E rest errors c) = (Returned (Ok ()), c') \<and>
     cn_socket c' = Some sock \<and> cd_address (cn_data c') = Some (fst (rest ! length errs)) \<and>
     cd_connType (cn_data c') = snd (rest ! length errs)"
  using assms(2-)
proof (induction rest arbitrary: errors errs c)
  case (Cons a rest)
  obtain addr type where a: "a = (addr, type)"
    by (cases a)
  obtain opts c' where est: "threadEstablishConn E addr type c = (Ok opts, c')"
    using establish_works [OF assms(1), of type addr c] Cons.prems(1) a by auto
  show ?case
  proof (cases errs)
    case Nil
    then show ?thesis
      using est a by (simp add: onSocketResult_def)
  next
    case (Cons e es)
    then show ?thesis
      using Cons.IH [of es "errors @ [(addr, type, TransportFailed e)]" c'] Cons.prems a est
      by (simp add: onSocketResult_def)
  qed
qed simp

text \<open>C16 (functional).  The candidates are tried in the order of the preferred protocol, TCP, QUIC, UDP
  and WebSockets, in their given order within a protocol, each until the first one connects: the
  connection is then to that candidate, and when all fail the error lists every candidate with
  its own error.\<close>

theorem candidates_tried_in_order:
  fixes E :: "('ip, 'a, 'd, 'i, 'f, 'x) conn_env" and c :: "('a, 's, 'd, 'f, 'p, 'x) Connection"
  assumes "tls_works E" and "addrs \<noteq> []" and "\<forall>a\<in>set addrs. snd a \<noteq> Unknown \<and> isSupported E (snd a)"
    and "length errs = length addrs" and "k < length addrs"
  defines "preferred \<equiv> cs_preferredConnType (cn_settings c)"
  shows "\<exists>tried. mset tried = mset addrs \<and> sorted (map (\<lambda>a. rank preferred (snd a)) tried) \<and>
     (\<forall>r. filter (\<lambda>a. rank preferred (snd a) = r) tried = filter (\<lambda>a. rank preferred (snd a) = r) addrs) \<and>
     fst (answer_all E (map (\<lambda>e. Err e) errs) (threadFinalConnect E addrs c)) =
       Returned (Err (AllAddressesFailed (map2 (\<lambda>a e. (fst a, snd a, TransportFailed e)) tried errs))) \<and>
     (\<exists>c'. answer_all E (map (\<lambda>e. Err e) (take k errs) @ [Ok sock]) (threadFinalConnect E addrs c) =
         (Returned (Ok ()), c') \<and> cn_socket c' = Some sock \<and>
         cd_address (cn_data c') = Some (fst (tried ! k)) \<and> cd_connType (cn_data c') = snd (tried ! k))"
proof -
  define tried where "tried = sort_key (\<lambda>a. rank preferred (snd a)) addrs"
  have known: "Unknown \<notin> snd ` set addrs"
    using assms(3) by auto
  have start: "threadFinalConnect E addrs c = connectNext E tried [] (setState Connecting c)"
    using assms(2)
    by (simp add: threadFinalConnect_def Let_def sortFinal_known [OF known] sort_final tried_def preferred_def)
  have tried: "mset tried = mset addrs" "length tried = length addrs"
    by (simp_all add: tried_def)
  have ne: "tried \<noteq> []"
    using tried(2) assms(2) by auto
  have supp: "\<forall>a\<in>set tried. isSupported E (snd a)"
    using assms(3) by (simp add: tried_def)
  have fails: "fst (answer_all E (map (\<lambda>e. Err e) errs) (threadFinalConnect E addrs c)) =
       Returned (Err (AllAddressesFailed (map2 (\<lambda>a e. (fst a, snd a, TransportFailed e)) tried errs)))"
    using all_answers_fail [OF assms(1) supp, of errs "[]" "setState Connecting c"] assms(4) tried ne
    by (simp add: start)
  have wins: "\<exists>c'. answer_all E (map (\<lambda>e. Err e) (take k errs) @ [Ok sock]) (threadFinalConnect E addrs c) =
         (Returned (Ok ()), c') \<and> cn_socket c' = Some sock \<and>
         cd_address (cn_data c') = Some (fst (tried ! k)) \<and> cd_connType (cn_data c') = snd (tried ! k)"
    using first_success_wins [OF assms(1) supp, of "take k errs" sock "[]" "setState Connecting c"] assms(4,5) tried
    by (simp add: start)
  show ?thesis
    using tried(1) fails wins
    by (intro exI [of _ tried]) (simp add: tried_def sort_key_stable)
qed

text \<open>Two candidates, the second over the preferred protocol.\<close>

lemma sample_tls_works [simp]: "tls_works sample_conn"
  by (simp add: tls_works_def)

theorem candidates_tried_in_order_witness:
  "\<exists>tried. mset tried = {#(((False, 1 :: nat), 7 :: u16), Udp), (((False, 2), 7), Tcp)#} \<and>
     sorted (map (\<lambda>a. rank Tcp (snd a)) tried)"
proof -
  let ?addrs = "[(((False, 1 :: nat), 7 :: u16), Udp), (((False, 2), 7), Tcp)]"
  let ?c = "Connection_create nat_time :: ((bool \<times> nat) \<times> u16, unit, nat, nat, unit, unit) Connection"
  have pre: "\<forall>a\<in>set ?addrs. snd a \<noteq> Unknown \<and> isSupported sample_conn (snd a)"
    by (simp add: isSupported_def)
  obtain tried where "mset tried = mset ?addrs"
    "sorted (map (\<lambda>a. rank (cs_preferredConnType (cn_settings ?c)) (snd a)) tried)"
    using candidates_tried_in_order [OF sample_tls_works _ pre, of "[CustomKind TimedOut, CustomKind Closed]" 0 ?c]
    by auto
  then show ?thesis
    by (intro exI [of _ tried]) (simp add: Connection_create_def ConnectionSettings_new_def)
qed

section \<open>Giving up\<close>

text \<open>The worker while every attempt to reconnect fails; \<open>stateless\<close> is the flag of the next attempt.\<close>

fun failing_run :: "bool \<Rightarrow> TransportError list \<Rightarrow> ('ip, 'd, 'i, 'f, 'p, 's) Event list" where
  "failing_run stateless [] = []"
| "failing_run stateless (e # es) =
     Worker Start # Worker (SocketAnswered (Err e)) #
       (if e = CustomKind ReconnectFailed \<and> \<not> stateless then failing_run True es
        else Worker Slept # failing_run stateless es)"

lemma happens_append: "happens E (xs @ ys) w = Option.bind (happens E xs w) (happens E ys)"
  by (induction xs arbitrary: w) (auto split: bind_splits)

definition waiting_to_reconnect :: "('ip, 'a, 'd, 'i, 'f, 'x) conn_env \<Rightarrow>
    ('a, 's, 'd, 'f, 'p, 'x) Connection \<Rightarrow> bool" where
  "waiting_to_reconnect E c \<longleftrightarrow> cn_connState c = Reconnecting \<and> socket_ready E c \<and> \<not> cn_disconnectReq c"

lemma loopReconnecting_tries:
  assumes "waiting_to_reconnect E c" and "attempts c < 6"
  shows "\<exists>opts timeout c'. loopReconnecting E c = (AwaitReconnect opts (cd_tryStatelessReconnect (cn_data c)) timeout, c') \<and>
     waiting_to_reconnect E c' \<and> attempts c' = attempts c + 1 \<and>
     cd_tryStatelessReconnect (cn_data c') = cd_tryStatelessReconnect (cn_data c)"
proof -
  let ?attempt = "cd_reconnectAttempt (cn_data c) + 1"
  let ?c = "c\<lparr>cn_data := (cn_data c)\<lparr>cd_reconnectAttempt := ?attempt\<rparr>\<rparr>"
  have n: "unat ?attempt = attempts c + 1"
    using assms(2) by (simp add: attempts_def unat_plus_if_size word_size)
  have ready: "socket_ready E ?c"
    using assms(1) by (simp add: socket_ready_def waiting_to_reconnect_def)
  then obtain opts where "threadTryReconnect E (cd_tryStatelessReconnect (cn_data ?c)) ?c = Ok opts"
    using tryReconnect_ready by blast
  moreover have "\<not> 7 \<le> ?attempt"
    using n assms(2) by (simp add: word_le_nat_alt)
  ultimately show ?thesis
    using assms(1) ready n
    by (simp add: loopReconnecting_def Let_def waiting_to_reconnect_def attempts_def newWaiter_def)
qed

lemma loopReconnecting_gives_up:
  assumes "waiting_to_reconnect E c" and "attempts c = 6"
  shows "\<exists>c'. loopReconnecting E c = (AtLoop, threadCancelConnection c')"
proof -
  have "unat (cd_reconnectAttempt (cn_data c) + 1) = 7"
    using assms(2) by (simp add: attempts_def unat_plus_if_size word_size)
  then have "7 \<le> cd_reconnectAttempt (cn_data c) + 1"
    by (simp add: word_le_nat_alt)
  then show ?thesis
    using assms(1) by (auto simp: loopReconnecting_def Let_def waiting_to_reconnect_def)
qed

lemma cancelled:
  "cn_connState (threadCancelConnection c) = Disconnected" "cn_socket (threadCancelConnection c) = None"
  "cn_data (threadCancelConnection c) = ConnectionData_new"
  by (simp_all add: threadCancelConnection_def setState_data resetConnectionState_def)

text \<open>C24 (liveness).  When every attempt fails, reconnecting ends: after at most six attempts, counted
  from the loss of the connection, the connection is disconnected and holds no socket, whatever
  the errors are and whether the server asked for a stateless attempt in between.\<close>

theorem reconnecting_gives_up:
  assumes "waiting_to_reconnect E c" and "attempts c + length errs = 6"
  shows "\<exists>c'. happens E (failing_run (cd_tryStatelessReconnect (cn_data c)) errs @ [Worker Start]) (AtLoop, c)
       = Some (AtLoop, c') \<and> cn_connState c' = Disconnected \<and> cn_socket c' = None"
  using assms
proof (induction errs arbitrary: c)
  case Nil
  obtain c' where "loopReconnecting E c = (AtLoop, threadCancelConnection c')"
    using loopReconnecting_gives_up [OF Nil.prems(1)] Nil.prems(2) by auto
  then show ?case
    using Nil.prems(1)
    by (simp add: resume_def workerThreadLoop_def Connection_state_def waiting_to_reconnect_def cancelled)
next
  case (Cons e es)
  obtain opts timeout c1 where c1: "loopReconnecting E c = (AwaitReconnect opts (cd_tryStatelessReconnect (cn_data c)) timeout, c1)"
    "waiting_to_reconnect E c1" "attempts c1 = attempts c + 1"
    "cd_tryStatelessReconnect (cn_data c1) = cd_tryStatelessReconnect (cn_data c)"
    using loopReconnecting_tries [OF Cons.prems(1)] Cons.prems(2) by auto
  have start: "workerThreadLoop E c = (AwaitReconnect opts (cd_tryStatelessReconnect (cn_data c)) timeout, c1)"
    using c1(1) Cons.prems(1) by (simp add: workerThreadLoop_def Connection_state_def waiting_to_reconnect_def)
  show ?case
  proof (cases "e = CustomKind ReconnectFailed \<and> \<not> cd_tryStatelessReconnect (cn_data c)")
    case True
    let ?c2 = "c1\<lparr>cn_data := (cn_data c1)\<lparr>cd_tryStatelessReconnect := True\<rparr>\<rparr>"
    have "waiting_to_reconnect E ?c2" "attempts ?c2 + length es = 6"
      using c1 Cons.prems(2) by (simp_all add: waiting_to_reconnect_def socket_ready_def attempts_def)
    then show ?thesis
      using Cons.IH [of ?c2] True start
      by (simp add: resume_def orCancelled_def onReconnectResult_def)
  next
    case False
    then show ?thesis
      using Cons.IH [OF c1(2)] c1 start Cons.prems(2)
      by (auto simp add: resume_def orCancelled_def onReconnectResult_def)
  qed
qed

definition lost_connection :: "((bool \<times> nat) \<times> u16, unit, nat, nat, unit, unit) Connection" where
  "lost_connection = (Connection_create nat_time)\<lparr>cn_connState := Reconnecting, cn_socket := Some (),
     cn_data := \<lparr>cd_address = Some ((False, 1), 4340), cd_connType = Tcp, cd_reconnectAttempt = 0,
       cd_tryStatelessReconnect = False\<rparr>\<rparr>"

theorem reconnecting_gives_up_witness:
  "\<exists>c'. happens sample_conn (failing_run False [CustomKind TimedOut, CustomKind ReconnectFailed, CustomKind Closed,
       CustomKind ReconnectFailed, CustomKind TimedOut, CustomKind TimedOut] @ [Worker Start]) (AtLoop, lost_connection)
     = Some (AtLoop, c') \<and> cn_connState c' = Disconnected \<and> cn_socket c' = None"
proof -
  have "waiting_to_reconnect sample_conn lost_connection"
    by (simp add: waiting_to_reconnect_def lost_connection_def socket_ready_def isSupported_def Connection_create_def)
  moreover have "attempts lost_connection = 0"
    by (simp add: attempts_def lost_connection_def)
  ultimately show ?thesis
    using reconnecting_gives_up [of sample_conn lost_connection "[CustomKind TimedOut, CustomKind ReconnectFailed,
        CustomKind Closed, CustomKind ReconnectFailed, CustomKind TimedOut, CustomKind TimedOut]"]
    by (simp add: lost_connection_def del: failing_run.simps happens.simps)
qed

section \<open>Runs the code does not mean\<close>

text \<open>A server whose pong names no protocol the client knows: no candidate is left and the assertion of
  \<open>threadFinalConnect\<close> fails.\<close>

lemma sample_parse_unknown:
  "UrlParser_new sample_addr ''#'' = (Ok \<lparr>up_url = ''#'', up_path = [], up_proto = Some Unknown,
     up_result = UrlSuccess, up_value = Some (UrlIp (False, 1))\<rparr> :: ('e, _) outcome)"
  by (simp add: UrlParser_new_def UrlParser_parse_def parseProtocol_def parsePath_def parseAuthority_def
      parseHost_def stripBrackets_def sample_addr_def)

definition unknown_pong :: "nat PingResult" where
  "unknown_pong = (PingResult_new 0 1)\<lparr>pr_protocols := [\<lparr>sp_protocolId = 9, sp_port = 1\<rparr>]\<rparr>"

lemma sample_clock [simp]:
  "ve_instantPlus sample_conn = (+)" "ve_instantLess sample_conn = (<)"
  by (simp_all add: sample_conn_def)

lemmas ping_simps = threadPingCandidates_def PingRun_new_def pingLoop_def onPingResult_def finishPings_def
  addressesOf_def connTypeOfProtocol_def PROTO_UDP_def PROTO_TCP_def PROTO_QUIC_def PROTO_WEBSOCKET_def

text \<open>An answer that counts, and protocols of which the client knows none.\<close>

definition usable :: "'d PingResult \<Rightarrow> bool" where
  "usable result \<longleftrightarrow> \<not> pr_timedOut result \<and> \<not> pr_errored result \<and> pr_protocols result \<noteq> []"

definition all_unknown :: "SupportedProtocol list \<Rightarrow> bool" where
  "all_unknown protocols \<longleftrightarrow> (\<forall>p\<in>set protocols. connTypeOfProtocol (sp_protocolId p) = None)"

lemma addProtocols_unknown:
  "all_unknown ps \<Longrightarrow> all_unknown qs \<Longrightarrow> all_unknown (addProtocols ps qs)"
proof (induction qs arbitrary: ps)
  case (Cons q qs)
  have "all_unknown (ps @ [q])" "all_unknown qs"
    using Cons.prems by (simp_all add: all_unknown_def)
  then show ?case
    using Cons.IH Cons.prems(1) by simp
qed simp

lemma finishPings_unknown:
  assumes "all_unknown (pn_protocols run)" and "pn_pingResults run \<noteq> []"
  shows "finishPings E run c = (Returned (Inl AssertionFailed), c)"
proof -
  have "addressesOf (ve_addr E) (pn_protocols run) addr = []" for addr
    using assms(1) by (simp add: addressesOf_def all_unknown_def)
  then show ?thesis
    using assms(2) by (simp add: finishPings_def threadFinalConnect_def)
qed

text \<open>The result of a ping resumes only a worker that waits for pings, and the loop over the candidates
  waits for no more of them.\<close>

lemma ping_needs_loop:
  "happen E (Worker (PingArrived now i result)) (t, c) = Some w \<Longrightarrow> \<exists>run. t = AwaitPings run"
  by (cases t) (simp_all add: resume_def orCancelled_def)

lemma returned_no_pings: "onConnectResult (Returned r, c) = (t, c') \<Longrightarrow> t \<noteq> AwaitPings run"
proof (cases r)
  case (Inl e)
  then show "onConnectResult (Returned r, c) = (t, c') \<Longrightarrow> ?thesis"
    by (cases e) auto
qed auto

lemma connectNext_no_pings:
  "onConnectResult (connectNext E addrs errors c) = (t, c') \<Longrightarrow> t \<noteq> AwaitPings run"
  by (induction E addrs errors c rule: connectNext.induct)
    (auto dest: returned_no_pings split: prod.splits sum.splits failure.splits)

lemma pings_over:
  "onConnectResult (finishPings E run c) = (t, c') \<Longrightarrow> t \<noteq> AwaitPings run'"
  unfolding finishPings_def threadFinalConnect_def Let_def
  by (auto dest: connectNext_no_pings returned_no_pings split: if_splits sum.splits)

text \<open>One answer: the loop waits on, and what it has collected stays unknown, or it is over.\<close>

lemma ping_answer_unknown:
  assumes "all_unknown (pn_protocols run)" and "i < length (pn_addrs run)"
    and "usable result \<longrightarrow> all_unknown (pr_protocols result)"
    and "happen E (Worker (PingArrived now i result)) (AwaitPings run, c) = Some (t, c')"
  shows "\<exists>run'. pn_addrs run' = pn_addrs run \<and> all_unknown (pn_protocols run') \<and>
    pn_anyResults run' = pn_anyResults run + 1 \<and> (pn_pingResults run' \<noteq> [] \<longleftrightarrow> pn_pingResults run \<noteq> [] \<or> usable result) \<and>
    (t, c') = onConnectResult (pingLoop E now run' c)"
proof -
  have "\<exists>run'. onPingResult i result run = Ok run' \<and> pn_addrs run' = pn_addrs run \<and>
    all_unknown (pn_protocols run') \<and> pn_anyResults run' = pn_anyResults run + 1 \<and>
    (pn_pingResults run' \<noteq> [] \<longleftrightarrow> pn_pingResults run \<noteq> [] \<or> usable result)"
    using assms(1-3) addProtocols_unknown [of "pn_protocols run" "pr_protocols result"]
    by (cases "usable result") (auto simp: onPingResult_def usable_def at_def Let_def unwrap_def)
  then obtain run' where run': "onPingResult i result run = Ok run'" "pn_addrs run' = pn_addrs run"
    "all_unknown (pn_protocols run')" "pn_anyResults run' = pn_anyResults run + 1"
    "pn_pingResults run' \<noteq> [] \<longleftrightarrow> pn_pingResults run \<noteq> [] \<or> usable result"
    by blast
  then show ?thesis
    using assms(4) by (intro exI [of _ run']) (simp add: resume_def orCancelled_def)
qed

lemma ping_answers_unknown:
  assumes "all_unknown (pn_protocols run)"
    and "\<forall>(now, i, result)\<in>set answers. i < length (pn_addrs run) \<and> (usable result \<longrightarrow> all_unknown (pr_protocols result))"
    and "pn_pingResults run \<noteq> [] \<or> (\<exists>(now, i, result)\<in>set answers. usable result)"
    and "happens E (map (\<lambda>(now, i, result). Worker (PingArrived now i result)) answers) (AwaitPings run, c) = Some (t, c')"
  shows "(t = Crashed \<or> (\<exists>run'. t = AwaitPings run' \<and> all_unknown (pn_protocols run') \<and> pn_pingResults run' \<noteq> [])) \<and>
    (answers \<noteq> [] \<and> length (pn_addrs run) \<le> pn_anyResults run + length answers \<longrightarrow> t = Crashed)"
  using assms
proof (induction answers arbitrary: run c)
  case (Cons a answers)
  obtain now i result where a: "a = (now, i, result)"
    by (cases a)
  let ?evs = "map (\<lambda>(now, i, result). Worker (PingArrived now i result)) answers"
  obtain t1 c1 where one: "happen E (Worker (PingArrived now i result)) (AwaitPings run, c) = Some (t1, c1)"
    and more: "happens E ?evs (t1, c1) = Some (t, c')"
    using Cons.prems(4) a by (auto split: bind_splits)
  obtain run1 where run1: "pn_addrs run1 = pn_addrs run" "all_unknown (pn_protocols run1)"
    "pn_anyResults run1 = pn_anyResults run + 1" "pn_pingResults run1 \<noteq> [] \<longleftrightarrow> pn_pingResults run \<noteq> [] \<or> usable result"
    and t1: "(t1, c1) = onConnectResult (pingLoop E now run1 c)"
    using ping_answer_unknown [OF Cons.prems(1) _ _ one] Cons.prems(2) a by auto
  consider (waits) "t1 = AwaitPings run1" "c1 = c" "pn_anyResults run1 < length (pn_addrs run1)"
    | (ends) "(t1, c1) = onConnectResult (finishPings E run1 c)"
    using t1 by (auto simp: pingLoop_def Let_def split: if_splits)
  then show ?case
  proof cases
    case waits
    have "happens E ?evs (AwaitPings run1, c) = Some (t, c')"
      using more waits by simp
    from Cons.IH [OF run1(2) _ _ this] show ?thesis
      using Cons.prems(2,3) a run1 waits(3) by auto
  next
    case ends
    show ?thesis
    proof (cases "pn_pingResults run1 = []")
      case True
      then obtain n j res evs where "?evs = Worker (PingArrived n j res) # evs"
        using Cons.prems(3) a run1(4) by (cases answers) auto
      then have "\<exists>run. t1 = AwaitPings run"
        using more ping_needs_loop by (fastforce simp del: happen.simps split: bind_splits)
      then show ?thesis
        using pings_over [OF ends [symmetric]] by blast
    next
      case False
      then have "t1 = Crashed"
        using ends by (simp add: finishPings_unknown [OF run1(2)])
      then show ?thesis
        using more ping_needs_loop by (cases answers) (fastforce simp del: happen.simps split: bind_splits)+
    qed
  qed
qed fastforce

text \<open>C39 (error).  Servers that name only protocols which the client does not know make it fail an
  assertion.  Whatever the addresses pinged, the order and number of the answers and the clock: when every
  answer that counts names only unknown protocols, and there is one, then the worker has failed, at the
  latest with the last answer, or it still waits and fails at the deadline.\<close>

theorem unknown_protocols_crash:
  assumes "\<forall>(now, i, result)\<in>set answers. i < length addrs \<and> (usable result \<longrightarrow> all_unknown (pr_protocols result))"
    and "\<exists>(now, i, result)\<in>set answers. usable result"
    and "happens E (map (\<lambda>(now, i, result). Worker (PingArrived now i result)) answers)
      (AwaitPings (PingRun_new started addrs), c) = Some (t, c')"
  shows "(t = Crashed \<or> happen E (Worker PingDeadline) (t, c') = Some (Crashed, c')) \<and>
    (length addrs \<le> length answers \<longrightarrow> t = Crashed)"
proof -
  have start: "pn_addrs (PingRun_new started addrs) = addrs" "pn_anyResults (PingRun_new started addrs) = 0"
    "all_unknown (pn_protocols (PingRun_new started addrs))" for started addrs
    by (simp_all add: PingRun_new_def all_unknown_def)
  have late: "happen E (Worker PingDeadline) (AwaitPings run, c') = Some (Crashed, c')"
    if "all_unknown (pn_protocols run)" "pn_pingResults run \<noteq> []" for run
    by (simp add: resume_def orCancelled_def finishPings_unknown [OF that])
  have known: "\<forall>(now, i, result)\<in>set answers. i < length (pn_addrs (PingRun_new started addrs)) \<and>
      (usable result \<longrightarrow> all_unknown (pr_protocols result))"
    using assms(1) by (simp add: start)
  have "answers \<noteq> []"
    using assms(2) by auto
  then show ?thesis
    using ping_answers_unknown [OF start(3) known disjI2 [OF assms(2)] assms(3)] late by (auto simp: start)
qed

theorem unknown_protocols_crash_witness:
  "\<exists>c. happens sample_conn [User (Connect ''#''), Worker Start, Worker (UrlArrived 0),
       Worker (PingArrived 1 0 unknown_pong)] (initial_world nat_time watch :: sample_world) = Some (Crashed, c)"
proof -
  have "\<exists>c. happens sample_conn [User (Connect ''#''), Worker Start, Worker (UrlArrived 0)]
      (initial_world nat_time watch :: sample_world) = Some (AwaitPings (PingRun_new 0 [((False, 1), 4340)]), c)"
    by (simp add: initial_world_def Connection_create_def watch_def run_simps sample_parse_unknown
        threadPingCandidates_def PingRun_new_def pingLoop_def)
  then obtain c where c: "happens sample_conn [User (Connect ''#''), Worker Start, Worker (UrlArrived 0)]
      (initial_world nat_time watch :: sample_world) = Some (AwaitPings (PingRun_new 0 [((False, 1), 4340)]), c)" ..
  have "\<exists>w. happen sample_conn (Worker (PingArrived 1 0 unknown_pong))
      (AwaitPings (PingRun_new 0 [((False, 1), 4340)]), c) = Some w"
    by (simp add: resume_def orCancelled_def split: sum.split)
  then obtain t c' where last: "happens sample_conn (map (\<lambda>(now, i, result). Worker (PingArrived now i result)) [(1, 0, unknown_pong)])
      (AwaitPings (PingRun_new 0 [((False, 1), 4340)]), c) = Some (t, c')"
    by (auto simp del: happen.simps)
  have "usable unknown_pong" "all_unknown (pr_protocols unknown_pong)"
    by (simp_all add: usable_def all_unknown_def unknown_pong_def PingResult_new_def connTypeOfProtocol_def PROTO_UDP_def
        PROTO_TCP_def PROTO_QUIC_def PROTO_WEBSOCKET_def)
  then have "t = Crashed"
    using unknown_protocols_crash [OF _ _ last] by simp
  then show ?thesis
    using happens_append [of sample_conn "[User (Connect ''#''), Worker Start, Worker (UrlArrived 0)]"
        "[Worker (PingArrived 1 0 unknown_pong)]" "initial_world nat_time watch :: sample_world"] c last
    by (auto simp del: happen.simps happens.simps)
qed

text \<open>\<open>connectWait\<close> waits for a change of the state, and an address that cannot be parsed
  changes none: the worker records the error and invokes the callback of the state for nothing.\<close>

theorem parse_error_not_announced:
  fixes E :: "('ip, 'a, 'd, 'i, 'f, 'x) conn_env"
  assumes "(UrlParser_new (ve_addr E) url :: ('a, _) ConnectionResult) = Ok parser"
    and "up_result parser \<noteq> UrlSuccess"
    and "cn_connState c = Disconnected" and "cn_connectChan c = url # rest"
  shows "\<exists>c' err. resume E (UrlArrived now) (AwaitUrl, c) = Some (AtLoop, c') \<and>
     cn_connState c' = Disconnected \<and> cn_lastError c' = OtherError err \<and> err \<noteq> CC_Success \<and>
     \<not> (\<exists>ev\<in>set (drop (length (cn_trace c)) (cn_trace c')). connectWait_notified ev)"
  using assms
  by (cases "up_result parser")
    (auto simp: resume_def threadConnect_def newWaiter_def onFatalError_def Let_def Connection_state_def
      askShouldReconnect_def setState_def resetConnectionState_def connectWait_notified_def
      split: option.splits)

theorem parse_error_not_announced_witness:
  "\<exists>c' err. resume sample_conn (UrlArrived 0) (AwaitUrl, (Connection_create nat_time :: ((bool \<times> nat) \<times> u16,
       unit, nat, nat, unit, unit) Connection)\<lparr>cn_connectChan := [''foo://x'']\<rparr>) = Some (AtLoop, c') \<and>
     cn_lastError c' = OtherError err \<and> err \<noteq> CC_Success \<and> cn_connState c' = Disconnected"
proof -
  have "UrlParser_new (ve_addr sample_conn) ''foo://x'' = Ok \<lparr>up_url = ''foo://x'', up_path = [], up_proto = None,
     up_result = UrlInvalidProtocol, up_value = None\<rparr>"
    by (simp add: UrlParser_new_def UrlParser_parse_def parseProtocol_def)
  from parse_error_not_announced [OF this, of "(Connection_create nat_time)\<lparr>cn_connectChan := [''foo://x'']\<rparr>" "[]" 0]
  show ?thesis
    by (auto simp: Connection_create_def)
qed

text \<open>A request to disconnect that comes before the worker took the address is forgotten.\<close>

lemma disconnect_before_connecting_is_lost:
  "\<exists>c. happens sample_conn [Worker Start, User (Connect ''tcp://#''), User Disconnect, Worker (UrlArrived 0),
       Worker (SocketAnswered (Ok ())), Worker Start] (initial_world nat_time watch :: sample_world) = Some (AwaitEvent, c) \<and>
     cn_connState c = Connected \<and> \<not> cn_disconnectReq c \<and> \<not> cn_disconnectNotified c"
  by (simp add: initial_world_def Connection_create_def watch_def run_simps sample_parse Connection_disconnect_def)

text \<open>A second address is accepted while the first waits; the worker connects to it by itself after the
  user has disconnected.\<close>

lemma second_connect_is_queued:
  "\<exists>c. happens sample_conn [Worker Start, User (Connect ''tcp://#''), User (Connect ''tcp://#''), Worker (UrlArrived 0),
       Worker (SocketAnswered (Ok ())), Worker Start, User Disconnect, Worker DisconnectNotified, Worker Start,
       Worker (SocketClosing () (Ok ())), Worker (SocketClosed True), Worker Start, Worker (UrlArrived 9),
       Worker (SocketAnswered (Ok ()))] (initial_world nat_time watch :: sample_world) = Some (AtLoop, c) \<and>
     cn_connState c = Connected"
  by (simp add: initial_world_def Connection_create_def watch_def run_simps sample_parse Connection_disconnect_def)

text \<open>\<open>simulateConnectionDrop\<close> during an attempt to reconnect: the address is gone when the attempt succeeds,
  and the next loss of the connection fails the assertion of \<open>threadTryReconnect\<close>.\<close>

lemma drop_while_reconnecting:
  "\<exists>c. happens sample_conn (connect_events @ [Worker Start, Worker (MessageReceived () (Err (CustomKind Closed))),
       Worker Start, Worker (SocketAnswered (Err (CustomKind ReconnectFailed))), Worker Start, User Drop,
       Worker (SocketAnswered (Ok ())), Worker Start, Worker (MessageReceived () (Err (CustomKind Closed))),
       Worker Start]) (initial_world nat_time watch :: sample_world) = Some (Crashed, c)"
  by (simp add: connect_events_def initial_world_def Connection_create_def watch_def run_simps sample_parse
      onSocketOutcome_def onConnectionError_def onFatalError_def askShouldReconnect_def loopReconnecting_def
      threadTryReconnect_def onReconnectResult_def simulateConnectionDrop_def word_le_nat_alt)

text \<open>After certificates that could not be loaded the context stays, and the next attempt takes it.\<close>

lemma failed_certificates_are_forgotten:
  assumes "cn_tcpTlsContext c = None" and "xt_createContext (ve_tls E) False = Ok ctx"
    and "xt_loadSystemCACerts (ve_tls E) ctx = Err err"
  shows "fst (initTlsContext E WebSocketTls c) = Err err"
    and "initTlsContext E WebSocketTls (snd (initTlsContext E WebSocketTls c))
      = (Ok (), c\<lparr>cn_tcpTlsContext := Some ctx\<rparr>)"
  using assms by (simp_all add: initTlsContext_def Let_def)

text \<open>Secure WebSockets count as supported in a build without WebSockets.\<close>

lemma secure_websockets_always_supported: "isSupported E WebSocketTls"
  by (simp add: isSupported_def)

end
