(* ===== verification/Stream_Common.thy ===== *)
theory Stream_Common
  imports Udp_Sending
begin

text \<open>
  What the stream transports share (\<open>src/socket/transport/Common.hpp\<close>): a message is sent behind
  its length and received from a ring buffer that the stream fills in pieces of any size.

  The ring buffer (\<open>dbuf::CircularByteBuffer\<close>) belongs to a third-party package: its operations
  are the record \<open>ring_ops\<close>, and the locale \<open>ring_laws\<close> states what the code relies on.  The
  stream is modelled by what it is given and what it returns: \<open>en_send\<close> answers the n-th
  \<open>sendAll\<close>, and a list holds what the calls of \<open>receive\<close> return, with clock readings.
\<close>

section \<open>The ring buffer\<close>

record 'b ring_ops =
  rg_new :: "nat \<Rightarrow> 'b"
  rg_size :: "'b \<Rightarrow> nat"
  rg_capacity :: "'b \<Rightarrow> nat"
  rg_window :: "'b \<Rightarrow> nat"
  rg_reserve :: "nat \<Rightarrow> 'b \<Rightarrow> 'b"
  rg_write :: "bytes \<Rightarrow> 'b \<Rightarrow> 'b"
  rg_peek :: "'b \<Rightarrow> nat \<Rightarrow> bytes"
  rg_peekWrapped :: "'b \<Rightarrow> nat \<Rightarrow> bytes \<times> bytes"
  rg_skip :: "nat \<Rightarrow> 'b \<Rightarrow> 'b"

text \<open>\<open>rg_window\<close> is the size of the write window, and \<open>rg_write\<close> writes into it and advances.\<close>

locale ring_laws =
  fixes B :: "'b ring_ops" and contents :: "'b \<Rightarrow> bytes"
  assumes ring_new [simp]: "contents (rg_new B n) = []"
    and ring_size [simp]: "rg_size B r = length (contents r)"
    and ring_reserve [simp]: "contents (rg_reserve B n r) = contents r"
    and ring_window: "n \<le> rg_window B (rg_reserve B n r)"
    and ring_write: "length bs \<le> rg_window B r \<Longrightarrow> contents (rg_write B bs r) = contents r @ bs"
    and ring_peek [simp]: "n \<le> length (contents r) \<Longrightarrow> rg_peek B r n = take n (contents r)"
    and ring_peekWrapped: "n \<le> length (contents r) \<Longrightarrow>
      \<exists>p q. rg_peekWrapped B r n = (p, q) \<and> p @ q = take n (contents r) \<and> (0 < n \<longrightarrow> p \<noteq> [])"
    and ring_skip [simp]: "n \<le> length (contents r) \<Longrightarrow> contents (rg_skip B n r) = drop n (contents r)"

section \<open>State\<close>

record ('b, 'cd, 'dd, 'd, 'i) StreamTransport =
  ss_base :: "('cd, 'dd, 'd, 'i) BaseTransport"
  ss_recvBuffer :: 'b
  ss_attempts :: nat
  ss_wire :: "bytes list"

definition ss_on_base :: "(('cd, 'dd, 'd, 'i) BaseTransport \<Rightarrow> ('cd, 'dd, 'd, 'i) BaseTransport) \<Rightarrow>
    ('b, 'cd, 'dd, 'd, 'i, 'z) StreamTransport_scheme \<Rightarrow> ('b, 'cd, 'dd, 'd, 'i, 'z) StreamTransport_scheme" where
  "ss_on_base g s = s\<lparr>ss_base := g (ss_base s)\<rparr>"

definition ss_on_tracker :: "(('d, 'i) StatTracker \<Rightarrow> ('d, 'i) StatTracker) \<Rightarrow>
    ('b, 'cd, 'dd, 'd, 'i, 'z) StreamTransport_scheme \<Rightarrow> ('b, 'cd, 'dd, 'd, 'i, 'z) StreamTransport_scheme" where
  "ss_on_tracker g = ss_on_base (\<lambda>b. b\<lparr>bt_tracker := g (bt_tracker b)\<rparr>)"

section \<open>Sending\<close>

text \<open>\<open>ARC_CO_UNWRAP(co_await socket.sendAll(...))\<close>.\<close>

definition sendAll :: "('r, 'w, 'cd, 'dd, 'd, 'i, 'f) qn_env \<Rightarrow> bytes \<Rightarrow>
    ('b, 'cd, 'dd, 'd, 'i, 'z) StreamTransport_scheme \<Rightarrow>
    unit TransportResult \<times> ('b, 'cd, 'dd, 'd, 'i, 'z) StreamTransport_scheme" where
  "sendAll E data s =
     (let n = ss_attempts s; s = s\<lparr>ss_attempts := n + 1\<rparr>
      in case en_send E n data of
           Inl e \<Rightarrow> (Inl e, s)
         | Inr _ \<Rightarrow> (Ok (), s\<lparr>ss_wire := ss_wire s @ [data]\<rparr>))"

fun stream_hasLength :: "QunetMessage \<Rightarrow> bool" where
  "stream_hasLength (HandshakeStart _) = False"
| "stream_hasLength (ClientReconnectMessage _) = False"
| "stream_hasLength _ = True"

text \<open>The lambda \<open>prependLength\<close>.\<close>

definition prependLength :: "'w byte_writer \<Rightarrow> bool \<Rightarrow> nat \<Rightarrow> 'w \<Rightarrow> 'w TransportResult" where
  "prependLength W hasLength preMessagePos writer =
     (if hasLength then
        let messageSize = of_nat (bw_position W writer - preMessagePos)
        in must (bw_performAt W writer (preMessagePos - 4) (\<lambda>writer. bw_writeU32 W writer messageSize))
      else Ok writer)"

text \<open>What is in the writer when \<open>sendAll\<close> is called.\<close>

definition encodeFrame :: "('r, 'w, 'cd, 'dd, 'd, 'i, 'f) qn_env \<Rightarrow> QunetMessage \<Rightarrow> bytes TransportResult" where
  "encodeFrame E message =
     (let W = en_writer E;
          writer = bw_new W;
          hasLength = stream_hasLength message;
          writer = (if hasLength then bw_writeU32 W writer 0 else writer);
          preMessagePos = (if hasLength then bw_position W writer else 0);
          finish = (\<lambda>writer.
            unwrap (prependLength W hasLength preMessagePos writer) (\<lambda>writer. Ok (bw_written W writer)))
      in case message of
           Data msg \<Rightarrow>
             unwrap (must (encodeDataHeader W message 0 False writer)) (\<lambda>writer.
               finish (bw_writeBytes W writer (dm_data msg)))
         | _ \<Rightarrow> unwrap (mapErr TE_String (encodeControlMsg W message 0 writer)) finish)"

definition stream_sendMessage :: "('r, 'w, 'cd, 'dd, 'd, 'i, 'f) qn_env \<Rightarrow> 'i \<Rightarrow> QunetMessage \<Rightarrow>
    ('b, 'cd, 'dd, 'd, 'i, 'z) StreamTransport_scheme \<Rightarrow>
    unit TransportResult \<times> ('b, 'cd, 'dd, 'd, 'i, 'z) StreamTransport_scheme" where
  "stream_sendMessage E now message s =
     step_then (encodeFrame E message, s) (\<lambda>data s.
     step_then (sendAll E data s) (\<lambda>_ s. (Ok (), ss_on_tracker (onUpPacket now (length data)) s)))"

section \<open>Receiving\<close>

text \<open>The lambda \<open>waitForData\<close>: None while the stream has nothing.  A call of \<open>receive\<close> returns at
  most as many bytes as the window holds; the rest stays in the stream.\<close>

definition waitForData :: "'b ring_ops \<Rightarrow> 'i \<Rightarrow> ('i \<times> bytes TransportResult) list \<Rightarrow>
    ('b, 'cd, 'dd, 'd, 'i, 'z) StreamTransport_scheme \<Rightarrow>
    unit TransportResult option \<times> ('i \<times> bytes TransportResult) list \<times> 'i \<times>
      ('b, 'cd, 'dd, 'd, 'i, 'z) StreamTransport_scheme" where
  "waitForData B now recvs s =
     (let buffer = ss_recvBuffer s in
      if rg_window B buffer < 2048 \<and> 1024 * 1024 \<le> rg_capacity B buffer then
        (Some (Err (CustomKind NoBufferSpace)), recvs, now, s)
      else
        let buffer = (if rg_window B buffer < 2048 then rg_reserve B 2048 buffer else buffer);
            s = s\<lparr>ss_recvBuffer := buffer\<rparr>
        in case recvs of
             [] \<Rightarrow> (None, [], now, s)
           | (now, Inl e) # recvs \<Rightarrow> (Some (Inl e), recvs, now, s)
           | (now, Inr chunk) # recvs \<Rightarrow>
               let wnd = rg_window B buffer;
                   data = take wnd chunk;
                   recvs = (if length chunk \<le> wnd then recvs else (now, Ok (drop wnd chunk)) # recvs)
               in if data = [] then (Some (Err (CustomKind Closed)), recvs, now, s)
                  else (Some (Ok ()), recvs, now,
                        (ss_on_tracker (onDownPacket now (length data)) s)\<lparr>ss_recvBuffer := rg_write B data buffer\<rparr>))"

text \<open>The lambda \<open>dec\<close> on the two parts of a complete message.\<close>

definition decodeFrame :: "('r, 'w, 'cd, 'dd, 'd, 'i, 'f) qn_env \<Rightarrow> 'i \<Rightarrow> bytes \<times> bytes \<Rightarrow>
    ('cd, 'dd, 'd, 'i) BaseTransport \<Rightarrow> QunetMessage TransportResult \<times> ('cd, 'dd, 'd, 'i) BaseTransport" where
  "decodeFrame E now wrpread t =
     (let frame = (if snd wrpread = [] then fst wrpread else fst wrpread @ snd wrpread) in
      step_then (mapErr TE_Decode (decodeMeta (en_reader E) frame False False), t) (\<lambda>meta t.
      if mm_type meta \<noteq> MSG_DATA then
        step_then (mapErr TE_Decode (decodeWithMeta (en_reader E) meta), t) (\<lambda>msg t.
        step_then (at (fst wrpread) 0, t) (\<lambda>hb t.
        (Ok msg, t\<lparr>bt_tracker := onDownMessage now hb (length frame) None (tm_zero (en_time E)) None
            (bt_tracker t)\<rparr>)))
      else decodePreFinalDataMessage (en_time E) (en_zstd E) (en_lz4 E) now meta t))"

definition takeMessage :: "('r, 'w, 'cd, 'dd, 'd, 'i, 'f) qn_env \<Rightarrow> 'b ring_ops \<Rightarrow> 'i \<Rightarrow> nat \<Rightarrow>
    ('b, 'cd, 'dd, 'd, 'i, 'z) StreamTransport_scheme \<Rightarrow>
    QunetMessage TransportResult \<times> ('b, 'cd, 'dd, 'd, 'i, 'z) StreamTransport_scheme" where
  "takeMessage E B now n s =
     (let buffer = rg_skip B 4 (ss_recvBuffer s);
          (r, t) = decodeFrame E now (rg_peekWrapped B buffer n) (ss_base s)
      in (r, s\<lparr>ss_base := t, ss_recvBuffer := rg_skip B n buffer\<rparr>))"

text \<open>The length at the front of the buffer.\<close>

definition peekLength :: "'r byte_reader \<Rightarrow> 'b ring_ops \<Rightarrow> 'b \<Rightarrow> nat TransportResult" where
  "peekLength R B buffer =
     unwrap (must (br_readU32 R (br_open R (rg_peek B buffer 4)))) (\<lambda>(n, _). Ok (unat n))"

text \<open>One round of the loop: the loop goes on without a result, and a result is None when the call
  still waits for the stream.\<close>

definition receiveRound :: "('r, 'w, 'cd, 'dd, 'd, 'i, 'f) qn_env \<Rightarrow> 'b ring_ops \<Rightarrow>
    u64 \<Rightarrow> 'i \<Rightarrow> ('i \<times> bytes TransportResult) list \<Rightarrow>
    ('b, 'cd, 'dd, 'd, 'i, 'z) StreamTransport_scheme \<Rightarrow>
    QunetMessage TransportResult option option \<times> ('i \<times> bytes TransportResult) list \<times> 'i \<times>
      ('b, 'cd, 'dd, 'd, 'i, 'z) StreamTransport_scheme" where
  "receiveRound E B messageSizeLimit now recvs s =
     (let buffer = ss_recvBuffer s;
          more_data = (case waitForData B now recvs s of
              (None, w) \<Rightarrow> (Some None, w)
            | (Some (Inl e), w) \<Rightarrow> (Some (Some (Inl e)), w)
            | (Some (Inr _), w) \<Rightarrow> (None, w))
      in if rg_size B buffer < 4 then more_data
         else (case peekLength (en_reader E) B buffer of
             Inl e \<Rightarrow> (Some (Some (Inl e)), recvs, now, s)
           | Inr n \<Rightarrow>
               if n = 0 then (None, recvs, now, s\<lparr>ss_recvBuffer := rg_skip B 4 buffer\<rparr>)
               else if messageSizeLimit \<noteq> 0 \<and> unat messageSizeLimit < n then
                 (Some (Some (Err (CustomKind MessageTooLong))), recvs, now, s)
               else if rg_size B buffer < 4 + n then more_data
               else (case takeMessage E B now n s of (r, s) \<Rightarrow> (Some (Some r), recvs, now, s))))"

partial_function (option) stream_receiveMessage :: "('r, 'w, 'cd, 'dd, 'd, 'i, 'f) qn_env \<Rightarrow> 'b ring_ops \<Rightarrow>
    u64 \<Rightarrow> 'i \<Rightarrow> ('i \<times> bytes TransportResult) list \<Rightarrow>
    ('b, 'cd, 'dd, 'd, 'i, 'z) StreamTransport_scheme \<Rightarrow>
    (QunetMessage TransportResult option \<times> ('i \<times> bytes TransportResult) list \<times>
      ('b, 'cd, 'dd, 'd, 'i, 'z) StreamTransport_scheme) option" where
  "stream_receiveMessage E B messageSizeLimit now recvs s =
     (case receiveRound E B messageSizeLimit now recvs s of
        (Some r, recvs, now, s) \<Rightarrow> Some (r, recvs, s)
      | (None, recvs, now, s) \<Rightarrow> stream_receiveMessage E B messageSizeLimit now recvs s)"

section \<open>Keepalives of the stream transports\<close>

definition streamUntilKeepalive :: "('d, 'i, 'f) time_ops \<Rightarrow> 'i \<Rightarrow> 'd option \<Rightarrow>
    ('cd, 'dd, 'd, 'i) BaseTransport \<Rightarrow> 'd" where
  "streamUntilKeepalive T now interval b =
     (if 0 < bt_unackedKeepalives b then tm_minus T (tm_fromSecs T 3) (sinceLastActivity T now b)
      else
        let orActive = (\<lambda>dur. case interval of
              Some i \<Rightarrow> tm_minus T (tm_min T dur i) (sinceLastKeepalive T now b)
            | None \<Rightarrow> tm_minus T dur (sinceLastKeepalive T now b))
        in if bt_totalRttEstimates b = 0 \<or> bt_totalRttEstimates b = 1 then orActive (tm_fromSecs T 3)
           else if bt_totalRttEstimates b = 2 then orActive (tm_fromSecs T 10)
           else if bt_totalRttEstimates b = 3 then orActive (tm_fromSecs T 25)
           else (case interval of
               Some i \<Rightarrow> tm_min T (tm_minus T (tm_fromSecs T 45) (sinceLastActivity T now b))
                                  (tm_minus T i (sinceLastKeepalive T now b))
             | None \<Rightarrow> tm_minus T (tm_fromSecs T 45) (sinceLastActivity T now b)))"

text \<open>What a transport does to a message before it is encoded.\<close>

definition stampKeepalive :: "'i \<Rightarrow> u64 \<Rightarrow> QunetMessage \<Rightarrow> ('cd, 'dd, 'd, 'i) BaseTransport \<Rightarrow>
    QunetMessage \<times> ('cd, 'dd, 'd, 'i) BaseTransport" where
  "stampKeepalive now stamp message b =
     (let b = updateLastActivity now b in
      case message of
        KeepaliveMessage _ \<Rightarrow> (KeepaliveMessage stamp, updateLastSentKeepalive now b)
      | _ \<Rightarrow> (message, b))"

section \<open>A frame is received whatever the pieces it comes in\<close>

locale stream_laws = dbuf_laws C R rest adv W + ring_laws B contents
  for C :: byte_codec and R :: "'r byte_reader" and rest :: "'r \<Rightarrow> bytes" and adv :: "'r \<Rightarrow> nat \<Rightarrow> 'r"
    and W :: "'w byte_writer" and B :: "'b ring_ops" and contents :: "'b \<Rightarrow> bytes"

text \<open>The bytes that the calls of \<open>receive\<close> will return, when the stream works and stays open.\<close>

definition incoming :: "('i \<times> bytes TransportResult) list \<Rightarrow> bytes" where
  "incoming recvs = concat (map (\<lambda>r. case snd r of Inr chunk \<Rightarrow> chunk | Inl _ \<Rightarrow> []) recvs)"

definition flowing :: "('i \<times> bytes TransportResult) list \<Rightarrow> bool" where
  "flowing recvs \<longleftrightarrow> (\<forall>r\<in>set recvs. \<exists>chunk. snd r = Ok chunk \<and> chunk \<noteq> [])"

lemma incoming_simps [simp]:
  "incoming [] = []"
  "incoming ((now, Ok chunk) # recvs) = chunk @ incoming recvs"
  by (simp_all add: incoming_def)

lemma flowing_simps [simp]:
  "flowing []"
  "flowing ((now, Ok chunk) # recvs) \<longleftrightarrow> chunk \<noteq> [] \<and> flowing recvs"
  "\<not> flowing ((now, Inl e) # recvs)"
  by (simp_all add: flowing_def)

text \<open>When \<open>waitForData\<close> gives up: the window is too small, and the buffer has grown to its limit of 1 MiB.\<close>

definition ring_full :: "'b ring_ops \<Rightarrow> 'b \<Rightarrow> bool" where
  "ring_full B b \<longleftrightarrow> rg_window B b < 2048 \<and> 1024 * 1024 \<le> rg_capacity B b"

text \<open>The outcome of decoding does not depend on the statistics nor on the clock.\<close>

definition same_decoding :: "('cd, 'dd, 'd, 'i) BaseTransport \<Rightarrow> ('cd, 'dd, 'd, 'i) BaseTransport \<Rightarrow> bool" where
  "same_decoding t u \<longleftrightarrow> (\<exists>tr. u = t\<lparr>bt_tracker := tr\<rparr>)"

lemma same_decoding_refl [simp]: "same_decoding t t"
  by (auto simp: same_decoding_def intro: exI [of _ "bt_tracker t"])

lemma same_decoding_tracker [simp]:
  "same_decoding t (u\<lparr>bt_tracker := tr\<rparr>) \<longleftrightarrow> same_decoding t u"
proof
  assume "same_decoding t (u\<lparr>bt_tracker := tr\<rparr>)"
  then obtain tr' where "u\<lparr>bt_tracker := tr\<rparr> = t\<lparr>bt_tracker := tr'\<rparr>"
    by (auto simp: same_decoding_def)
  then have "(u\<lparr>bt_tracker := tr\<rparr>)\<lparr>bt_tracker := bt_tracker u\<rparr> = (t\<lparr>bt_tracker := tr'\<rparr>)\<lparr>bt_tracker := bt_tracker u\<rparr>"
    by simp
  then have "u = t\<lparr>bt_tracker := bt_tracker u\<rparr>"
    by simp
  then show "same_decoding t u"
    unfolding same_decoding_def by blast
qed (auto simp: same_decoding_def)

lemma decodePreFinal_same:
  assumes "same_decoding t u"
  shows "fst (decodePreFinalDataMessage T Z L now meta u) = fst (decodePreFinalDataMessage T Z L now' meta t)"
proof -
  obtain tr where u: "u = t\<lparr>bt_tracker := tr\<rparr>"
    using assms by (auto simp: same_decoding_def)
  show ?thesis
  proof (cases "mm_compressionHeader meta")
    case None
    then show ?thesis
      by (simp add: decodePreFinalDataMessage_def)
  next
    case (Some ch)
    then show ?thesis
      by (cases "ch_type ch") (simp_all add: decodePreFinalDataMessage_def u Let_def)
  qed
qed

definition decodeBody :: "('r, 'w, 'cd, 'dd, 'd, 'i, 'f) qn_env \<Rightarrow> 'i \<Rightarrow> bytes \<Rightarrow>
    ('cd, 'dd, 'd, 'i) BaseTransport \<Rightarrow> QunetMessage TransportResult" where
  "decodeBody E now body t = fst (decodeFrame E now (body, []) t)"

lemma decodeFrame_fst:
  assumes "p \<noteq> []"
  shows "fst (decodeFrame E now (p, q) u) =
    unwrap (mapErr TE_Decode (decodeMeta (en_reader E) (p @ q) False False)) (\<lambda>meta.
      if mm_type meta \<noteq> MSG_DATA then mapErr TE_Decode (decodeWithMeta (en_reader E) meta)
      else fst (decodePreFinalDataMessage (en_time E) (en_zstd E) (en_lz4 E) now meta u))"
proof -
  have frame: "(if q = [] then p else p @ q) = p @ q"
    by simp
  have at0: "(at p 0 :: u8 TransportResult) = Ok (hd p)"
    using assms by (cases p) (simp_all add: at_def)
  show ?thesis
    unfolding decodeFrame_def Let_def fst_conv snd_conv frame at0
    by (cases "mapErr TE_Decode (decodeMeta (en_reader E) (p @ q) False False) :: QunetMessageMeta TransportResult")
      (auto simp: unwrap_def step_then_def split: sum.split)
qed

lemma decodeFrame_parts:
  assumes "p @ q = body" and "p \<noteq> []" and "same_decoding t u"
  shows "fst (decodeFrame E now (p, q) u) = decodeBody E now' body t"
  using assms(1,2)
  by (auto simp: decodeBody_def decodeFrame_fst
      decodePreFinal_same [OF assms(3), where now = now and now' = now'] cong: if_cong)

lemma decodeFrame_base:
  assumes "same_decoding t u" and "decodeFrame E now wr u = (r, u')"
  shows "same_decoding t u'"
proof -
  have "\<exists>tr. u' = u\<lparr>bt_tracker := tr\<rparr>"
    using assms(2) decodePreFinal_state [of "en_time E" "en_zstd E" "en_lz4 E" now _ u]
    by (auto simp: decodeFrame_def Let_def step_then_def split: sum.splits prod.splits if_splits
        dest: sym intro: exI [of _ "bt_tracker u"]) (metis snd_conv)+
  then show ?thesis
    using assms(1) by auto
qed

context stream_laws
begin

lemma peekLength_frame:
  assumes "contents b = put32 C n @ bs" and "en_reader E = R"
  shows "peekLength (en_reader E) B b = Ok (unat n)"
  using assms by (simp add: peekLength_def readU32)

lemma waitForData_cases:
  assumes "flowing recvs" and "incoming recvs \<noteq> []" and "waitForData B now recvs s = (r, recvs', now', s')"
  shows "(r = Some (Err (CustomKind NoBufferSpace)) \<and> recvs' = recvs \<and> s' = s \<and> ring_full B (ss_recvBuffer s)) \<or>
     (r = Some (Ok ()) \<and> flowing recvs' \<and> length (incoming recvs') < length (incoming recvs) \<and>
      contents (ss_recvBuffer s') @ incoming recvs' = contents (ss_recvBuffer s) @ incoming recvs \<and>
      same_decoding (ss_base s) (ss_base s'))"
proof -
  obtain t e recvs1 where recvs: "recvs = (t, e) # recvs1"
    using assms(2) by (cases recvs) auto
  obtain chunk where chunk: "e = Ok chunk" "chunk \<noteq> []" "flowing recvs1"
    using assms(1) recvs by (cases e) auto
  show ?thesis
  proof (cases "rg_window B (ss_recvBuffer s) < 2048 \<and> 1024 * 1024 \<le> rg_capacity B (ss_recvBuffer s)")
    case True
    then show ?thesis
      using assms(3) by (auto simp: waitForData_def ring_full_def Let_def)
  next
    case False
    define b where "b = (if rg_window B (ss_recvBuffer s) < 2048 then rg_reserve B 2048 (ss_recvBuffer s) else ss_recvBuffer s)"
    have b: "contents b = contents (ss_recvBuffer s)" "0 < rg_window B b"
      using ring_window [of 2048 "ss_recvBuffer s"] by (auto simp: b_def)
    let ?wnd = "rg_window B b"
    have data: "take ?wnd chunk \<noteq> []"
      using b(2) chunk(2) by simp
    have eq: "waitForData B now recvs s = (Some (Ok ()), (if length chunk \<le> ?wnd then recvs1 else (t, Ok (drop ?wnd chunk)) # recvs1), t,
        (ss_on_tracker (onDownPacket t (length (take ?wnd chunk))) (s\<lparr>ss_recvBuffer := b\<rparr>))\<lparr>ss_recvBuffer := rg_write B (take ?wnd chunk) b\<rparr>)"
      using False data chunk(1) recvs unfolding waitForData_def Let_def b_def [symmetric]
      by simp
    have w: "contents (rg_write B (take ?wnd chunk) b) = contents (ss_recvBuffer s) @ take ?wnd chunk"
      using ring_write [of "take ?wnd chunk" b] b(1) by simp
    have base: "same_decoding (ss_base s) (ss_base s')"
      using assms(3) eq by (auto simp: ss_on_tracker_def ss_on_base_def)
    show ?thesis
    proof (cases "length chunk \<le> ?wnd")
      case True
      then have "take ?wnd chunk = chunk"
        by simp
      then show ?thesis
        using True eq assms(3) w base chunk recvs by auto
    next
      case False
      have app: "take ?wnd chunk @ drop ?wnd chunk @ xs = chunk @ xs" for xs
        by (metis append_assoc append_take_drop_id)
      then show ?thesis
        using False eq assms(3) w base chunk recvs b(2)
        by auto
    qed
  qed
qed

text \<open>A complete message at the front of what is buffered and to come is delivered.\<close>

lemma receive_frame:
  assumes R: "en_reader E = R" and body: "0 < length body" "length body < 2 ^ 32"
    and limit: "messageSizeLimit = 0 \<or> length body \<le> unat messageSizeLimit"
  shows "flowing recvs \<Longrightarrow>
    contents (ss_recvBuffer s) @ incoming recvs = put32 C (of_nat (length body)) @ body @ later \<Longrightarrow>
    same_decoding t (ss_base s) \<Longrightarrow>
    \<exists>r recvs' s'. stream_receiveMessage E B messageSizeLimit now recvs s = Some (Some r, recvs', s') \<and>
      flowing recvs' \<and> same_decoding t (ss_base s') \<and>
      (r = decodeBody E now0 body t \<and> contents (ss_recvBuffer s') @ incoming recvs' = later \<or>
       r = Err (CustomKind NoBufferSpace) \<and>
         contents (ss_recvBuffer s') @ incoming recvs' = put32 C (of_nat (length body)) @ body @ later \<and>
         ring_full B (ss_recvBuffer s') \<and> length (contents (ss_recvBuffer s')) < 4 + length body)"
proof (induction "length (incoming recvs)" arbitrary: recvs s now rule: less_induct)
  case less
  let ?b = "ss_recvBuffer s"
  let ?head = "put32 C (of_nat (length body))"
  have n: "unat (of_nat (length body) :: u32) = length body"
    using body(2) by (simp add: unat_of_nat)
  have whole: "contents ?b @ incoming recvs = ?head @ body @ later"
    by (rule "less.prems"(2))
  have wait: ?case
    if more: "receiveRound E B messageSizeLimit now recvs s = (case waitForData B now recvs s of
              (None, w) \<Rightarrow> (Some None, w)
            | (Some (Inl e), w) \<Rightarrow> (Some (Some (Inl e)), w)
            | (Some (Inr _), w) \<Rightarrow> (None, w))"
      and short: "length (contents ?b) < 4 + length body"
  proof -
    obtain r recvs1 now1 s1 where w: "waitForData B now recvs s = (r, recvs1, now1, s1)"
      by (cases "waitForData B now recvs s") auto
    have "incoming recvs \<noteq> []"
    proof
      assume "incoming recvs = []"
      then have "length (contents ?b) = 4 + length body + length later"
        using arg_cong [OF whole, of length] by simp
      then show False
        using short by simp
    qed
    from waitForData_cases [OF "less.prems"(1) this w]
    show ?thesis
    proof (elim disjE conjE)
      assume "r = Some (Err (CustomKind NoBufferSpace))" "recvs1 = recvs" "s1 = s" "ring_full B ?b"
      then show ?thesis
        using less.prems w more short by (subst stream_receiveMessage.simps) auto
    next
      assume ok: "r = Some (Ok ())" "flowing recvs1"
        "length (incoming recvs1) < length (incoming recvs)"
        "contents (ss_recvBuffer s1) @ incoming recvs1 = contents ?b @ incoming recvs"
        "same_decoding (ss_base s) (ss_base s1)"
      have "same_decoding t (ss_base s1)"
        using ok(5) "less.prems"(3) by (auto simp: same_decoding_def)
      moreover have "contents (ss_recvBuffer s1) @ incoming recvs1 = ?head @ body @ later"
        using ok(4) whole by simp
      ultimately show ?thesis
        using less.hyps [OF ok(3,2), of s1 now1] w more ok(1)
        by (subst stream_receiveMessage.simps) simp
    qed
  qed
  show ?case
  proof (cases "length (contents ?b) < 4")
    case True
    show ?thesis
      by (rule wait) (use True in \<open>auto simp: receiveRound_def Let_def\<close>)
  next
    case False
    define rest1 where "rest1 = drop 4 (contents ?b)"
    have head: "contents ?b = ?head @ rest1"
    proof -
      have "take 4 (contents ?b) = take 4 (contents ?b @ incoming recvs)"
        using False by simp
      also have "\<dots> = ?head"
        by (simp add: whole)
      finally show ?thesis
        unfolding rest1_def by (metis append_take_drop_id)
    qed
    have rest1: "rest1 @ incoming recvs = body @ later"
      using whole head by simp
    have peek: "peekLength (en_reader E) B ?b = Ok (length body)"
      using peekLength_frame [OF head R] n by simp
    have small: "\<not> (messageSizeLimit \<noteq> 0 \<and> unat messageSizeLimit < length body)"
      using limit by auto
    show ?thesis
    proof (cases "length (contents ?b) < 4 + length body")
      case True
      show ?thesis
        by (rule wait) (use False True peek body small in \<open>auto simp: receiveRound_def Let_def\<close>)
    next
      case complete: False
      define b1 where "b1 = rg_skip B 4 ?b"
      have b1: "contents b1 = rest1"
        using False head by (simp add: b1_def)
      have len1: "length body \<le> length rest1"
        using complete head by simp
      obtain p q where pq: "rg_peekWrapped B b1 (length body) = (p, q)"
        "p @ q = take (length body) rest1" "p \<noteq> []"
        using ring_peekWrapped [of "length body" b1] b1 len1 body(1) by auto
      have body_eq: "take (length body) rest1 = body"
        using arg_cong [OF rest1, of "take (length body)"] len1 by simp
      have later_eq: "drop (length body) rest1 @ incoming recvs = later"
        using arg_cong [OF rest1, of "drop (length body)"] len1 by simp
      obtain r u where d: "decodeFrame E now (p, q) (ss_base s) = (r, u)"
        by (cases "decodeFrame E now (p, q) (ss_base s)")
      have r: "r = decodeBody E now0 body t"
        using decodeFrame_parts [OF _ pq(3) "less.prems"(3), of q body E now now0] pq(2) body_eq d by simp
      have u: "same_decoding t u"
        using decodeFrame_base [OF "less.prems"(3) d] .
      have take: "takeMessage E B now (length body) s =
          (r, s\<lparr>ss_base := u, ss_recvBuffer := rg_skip B (length body) b1\<rparr>)"
        using pq(1) d by (simp add: takeMessage_def Let_def b1_def)
      have "receiveRound E B messageSizeLimit now recvs s =
          (Some (Some r), recvs, now, s\<lparr>ss_base := u, ss_recvBuffer := rg_skip B (length body) b1\<rparr>)"
        using False complete peek body small take by (auto simp: receiveRound_def Let_def)
      then show ?thesis
        using "less.prems"(1) r u b1 len1 later_eq by (subst stream_receiveMessage.simps) simp
    qed
  qed
qed

text \<open>A message that is too long stays in the buffer: every later call reports it again.\<close>

lemma too_long_stays:
  assumes "en_reader E = R" and "contents (ss_recvBuffer s) = put32 C n @ bs"
    and "messageSizeLimit \<noteq> 0" and "unat messageSizeLimit < unat n"
  shows "stream_receiveMessage E B messageSizeLimit now recvs s =
    Some (Some (Err (CustomKind MessageTooLong)), recvs, s)"
proof -
  have "receiveRound E B messageSizeLimit now recvs s =
      (Some (Some (Err (CustomKind MessageTooLong))), recvs, now, s)"
    using assms peekLength_frame [of "ss_recvBuffer s" n bs E] by (simp add: receiveRound_def Let_def)
  then show ?thesis
    by (subst stream_receiveMessage.simps) simp
qed

text \<open>What a message is on the wire of a stream.\<close>

lemma prependLength_holds:
  assumes "holds w (put32 C 0 @ body)"
  shows "\<exists>w'. prependLength W True 4 w = Ok w' \<and> bw_written W w' = put32 C (of_nat (length body)) @ body"
proof -
  have pos: "bw_position W w - 4 = length body" and written: "bw_written W w = put32 C 0 @ body"
    using assms by (simp_all add: holds_def)
  obtain w' where "bw_performAt W w 0 (\<lambda>v. bw_writeU32 W v (of_nat (length body))) = Inr w'"
    "bw_written W w' = memcpy_at (bw_written W w) 0 (put32 C (of_nat (length body)))"
    using performAt_U32 [of 0 w "of_nat (length body)"] written by auto
  then show ?thesis
    by (simp add: prependLength_def pos written memcpy_at_def)
qed

lemma encodeFrame_data:
  fixes m :: DataMessage
  assumes "en_writer E = W" and "wf_comp (dm_compHeader m)" and "dm_relHeader m = None"
    and "body = header_bits (dm_compHeader m) False False # wire_comp C (dm_compHeader m) @ dm_data m"
  shows "encodeFrame E (Data m) = Ok (put32 C (of_nat (length body)) @ body)"
proof -
  have h0: "holds (bw_writeU32 W (bw_new W) 0) (put32 C 0)"
    using holds_writeU32 [OF holds_new] by simp
  obtain w where w: "encodeDataHeader W (Data m) 0 False (bw_writeU32 W (bw_new W) 0) = Inr w"
    "holds w (put32 C 0 @ header_bits (dm_compHeader m) False False # wire_comp C (dm_compHeader m))"
    using encodeDataHeader_holds [OF h0, of m 0] assms(3) by (auto simp: wire_conn_def wf_rel_def wire_rel_def)
  have "holds (bw_writeBytes W w (dm_data m)) (put32 C 0 @ body)"
    using holds_writeBytes [OF w(2)] assms(4) by simp
  from prependLength_holds [OF this] obtain w' where w':
    "prependLength W True 4 (bw_writeBytes W w (dm_data m)) = Ok w'"
    "bw_written W w' = put32 C (of_nat (length body)) @ body"
    by blast
  have pos: "bw_position W (bw_writeU32 W (bw_new W) 0) = 4"
    by simp
  show ?thesis
    using assms(1) w w' by (simp add: encodeFrame_def Let_def pos)
qed

lemma sent_data_frame:
  fixes m :: DataMessage
  assumes "en_writer E = W" and "en_send E (ss_attempts s) = (\<lambda>_. Ok ())" and "wf_comp (dm_compHeader m)"
    and "dm_relHeader m = None"
  shows "\<exists>body s'. stream_sendMessage E now (Data m) s = (Ok (), s') \<and>
    ss_wire s' = ss_wire s @ [put32 C (of_nat (length body)) @ body] \<and>
    body = header_bits (dm_compHeader m) False False # wire_comp C (dm_compHeader m) @ dm_data m"
  using encodeFrame_data [OF assms(1,3,4) refl] assms(2)
  by (simp add: stream_sendMessage_def sendAll_def Let_def ss_on_tracker_def ss_on_base_def)

text \<open>The body that a data message has is decoded to what was sent.\<close>

lemma decodeBody_data:
  fixes m :: DataMessage
  assumes "en_reader E = R" and "wf_comp (dm_compHeader m)" and "dm_relHeader m = None"
  shows "\<exists>off. decodeBody E now (header_bits (dm_compHeader m) False False # wire_comp C (dm_compHeader m) @ dm_data m) t =
    fst (decodePreFinalDataMessage (en_time E) (en_zstd E) (en_lz4 E) now
      \<lparr>mm_type = MSG_DATA, mm_compressionHeader = dm_compHeader m, mm_reliabilityHeader = None,
       mm_fragmentationHeader = None, mm_data = dm_data m, mm_dataOffset = off\<rparr> t)"
proof -
  obtain w where w: "encodeDataHeader W (Data m) 0 False (bw_new W) = Ok w"
    "decodeMeta R (bw_written W (bw_writeBytes W w (dm_data m))) False False =
       Ok \<lparr>mm_type = MSG_DATA, mm_compressionHeader = dm_compHeader m,
           mm_reliabilityHeader = None, mm_fragmentationHeader = None,
           mm_data = dm_data m, mm_dataOffset = length (bw_written W w)\<rparr>"
    "bw_written W (bw_writeBytes W w (dm_data m)) = bw_written W w @ dm_data m"
    using data_roundtrip [of m 0 False] assms by (auto simp: sendable_rel_def acked_rel_def)
  have "bw_written W w = header_bits (dm_compHeader m) False False # wire_comp C (dm_compHeader m)"
    using encodeDataHeader_holds [OF holds_new, of m 0] w(1) assms(3)
    by (auto simp: wf_rel_def wire_rel_def wire_conn_def holds_def)
  then show ?thesis
    using w assms(1) by (auto simp: decodeBody_def decodeFrame_fst)
qed

end

section \<open>A reference ring buffer\<close>

definition list_ring :: "(bytes \<times> nat) ring_ops" where
  "list_ring = \<lparr>rg_new = (\<lambda>n. ([], n)), rg_size = (\<lambda>r. length (fst r)), rg_capacity = snd,
     rg_window = (\<lambda>r. snd r - length (fst r)),
     rg_reserve = (\<lambda>n r. (fst r, max (snd r) (length (fst r) + n))),
     rg_write = (\<lambda>bs r. (fst r @ bs, snd r)),
     rg_peek = (\<lambda>r n. take n (fst r)),
     rg_peekWrapped = (\<lambda>r n. (take ((n + 1) div 2) (fst r), drop ((n + 1) div 2) (take n (fst r)))),
     rg_skip = (\<lambda>n r. (drop n (fst r), snd r))\<rparr>"

interpretation list_ring: ring_laws list_ring fst
proof unfold_locales
  fix n :: nat and r :: "bytes \<times> nat"
  assume "n \<le> length (fst r)"
  have "take ((n + 1) div 2) (fst r) = take ((n + 1) div 2) (take n (fst r))"
    by (cases n) (auto simp: min_def)
  then have "take ((n + 1) div 2) (fst r) @ drop ((n + 1) div 2) (take n (fst r)) = take n (fst r)"
    by (metis append_take_drop_id)
  with \<open>n \<le> length (fst r)\<close> show "\<exists>p q. rg_peekWrapped list_ring r n = (p, q) \<and> p @ q = take n (fst r) \<and> (0 < n \<longrightarrow> p \<noteq> [])"
    by (auto simp: list_ring_def)
qed (auto simp: list_ring_def)

interpretation ref_stream: stream_laws le_codec list_reader list_rest list_adv list_writer list_ring fst
  by unfold_locales

section \<open>Properties\<close>

text \<open>C8 (roundtrip).  A data message sent on a stream is received as it was sent, in however many
  pieces of whatever size the stream delivers its bytes and whatever is already buffered, and the
  bytes behind it stay for the next call; or the call reports that the buffer may not grow, and
  then no byte is lost.  The call always returns.\<close>

theorem stream_data_roundtrip:
  fixes m :: DataMessage
  assumes laws: "stream_laws C R rest adv W B contents"
    and "en_writer E1 = W" and "en_reader E2 = R"
    and "en_send E1 (ss_attempts s1) = (\<lambda>_. Ok ())"
    and "dm_compHeader m = None" and "dm_relHeader m = None"
    and "length (dm_data m) < 2 ^ 32 - 1"
    and "messageSizeLimit = 0 \<or> length (dm_data m) < unat messageSizeLimit"
    and "stream_sendMessage E1 now1 (Data m) s1 = (r1, s1')" and "ss_wire s1' = ss_wire s1 @ sent"
    and "flowing recvs"
    and "contents (ss_recvBuffer s2) @ incoming recvs = concat sent @ later"
  shows "r1 = Ok () \<and>
    (\<exists>r recvs' s2'. stream_receiveMessage E2 B messageSizeLimit now recvs s2 = Some (Some r, recvs', s2') \<and>
       flowing recvs' \<and>
       (r = Ok (Data m) \<and> contents (ss_recvBuffer s2') @ incoming recvs' = later \<or>
        r = Err (CustomKind NoBufferSpace) \<and>
          contents (ss_recvBuffer s2') @ incoming recvs' = concat sent @ later))"
proof -
  let ?body = "header_bits None False False # dm_data m"
  have "wf_comp (dm_compHeader m)"
    using assms(5) by (simp add: wf_comp_def)
  from stream_laws.sent_data_frame [OF laws assms(2,4) this assms(6), of now1] assms(5,9,10)
  have sent: "r1 = Ok ()" "concat sent = put32 C (of_nat (length ?body)) @ ?body"
    by (auto simp: wire_comp_def)
  have body: "decodeBody E2 now ?body (ss_base s2) = Ok (Data m)"
    using stream_laws.decodeBody_data [OF laws assms(3), of m now "ss_base s2"] assms(5,6)
    by (auto simp: wf_comp_def wire_comp_def decodePreFinalDataMessage_def)
  show ?thesis
    using stream_laws.receive_frame [OF laws assms(3), of ?body messageSizeLimit recvs s2 later "ss_base s2" now now]
      assms(7,8,11,12) sent body by auto
qed

definition sample_stream :: "bytes \<Rightarrow> (bytes \<times> nat, bytes, bytes, nat, nat) StreamTransport" where
  "sample_stream buffered = \<lparr>ss_base = BaseTransport_new 0, ss_recvBuffer = (buffered, 512),
     ss_attempts = 0, ss_wire = []\<rparr>"

lemma put32_4: "put32 le_codec 4 = [4, 0, 0, 0]" and put32_200: "put32 le_codec 200 = [200, 0, 0, 0]"
  by code_simp+

lemma header_bits_plain: "header_bits None False False = 128"
  by code_simp

theorem stream_data_roundtrip_witness:
  "\<exists>r recvs' s2'. stream_receiveMessage plain_env list_ring 0 7
      [(1, Ok [0, 0, 128]), (2, Ok [1, 2]), (3, Ok [3, 9])] (sample_stream [4, 0]) = Some (Some r, recvs', s2') \<and>
      (r = Ok (Data \<lparr>dm_data = [1, 2, 3], dm_compHeader = None, dm_relHeader = None\<rparr>) \<and>
         fst (ss_recvBuffer s2') @ incoming recvs' = [9] \<or>
       r = Err (CustomKind NoBufferSpace) \<and>
         fst (ss_recvBuffer s2') @ incoming recvs' = [4, 0, 0, 0, 128, 1, 2, 3, 9])"
proof -
  let ?m = "\<lparr>dm_data = [1, 2, 3], dm_compHeader = None, dm_relHeader = None\<rparr>"
  let ?s1 = "sample_stream []"
  have sent: "\<exists>s1'. stream_sendMessage plain_env 0 (Data ?m) ?s1 = (Ok (), s1') \<and>
      ss_wire s1' = ss_wire ?s1 @ [[4, 0, 0, 0, 128, 1, 2, 3]]"
    using ref_stream.sent_data_frame [of plain_env ?s1 ?m 0]
    by (simp add: wf_comp_def wire_comp_def header_bits_plain put32_4 fun_eq_iff)
  then obtain s1' where s1': "stream_sendMessage plain_env 0 (Data ?m) ?s1 = (Ok (), s1')"
    "ss_wire s1' = ss_wire ?s1 @ [[4, 0, 0, 0, 128, 1, 2, 3]]"
    by blast
  have "en_send plain_env (ss_attempts ?s1) = (\<lambda>_. Ok ())"
    by (rule ext) simp
  from stream_data_roundtrip [OF ref_stream.stream_laws_axioms _ _ this _ _ _ _ s1', of plain_env 0
      "[(1, Ok [0, 0, 128]), (2, Ok [1, 2]), (3, Ok [3, 9])]" "sample_stream [4, 0]" "[9]" 7]
  show ?thesis
    by (auto simp: sample_stream_def)
qed

text \<open>A message that announces more bytes than the size limit stays in the buffer: the
  call reports MessageTooLong and changes nothing, so every later call reports it again, whatever
  arrives, and since the error is not fatal the connection is not closed over it.\<close>

theorem too_long_message_blocks_stream:
  assumes "stream_laws C R rest adv W B contents" and "en_reader E = R"
    and "contents (ss_recvBuffer s) = put32 C n @ bs"
    and "messageSizeLimit \<noteq> 0" and "unat messageSizeLimit < unat n"
  shows "stream_receiveMessage E B messageSizeLimit now recvs s =
    Some (Some (Err (CustomKind MessageTooLong)), recvs, s)"
  using stream_laws.too_long_stays [OF assms(1-5)] .

theorem too_long_message_blocks_stream_witness:
  "stream_receiveMessage plain_env list_ring 100 7 [(1, Ok [1, 2, 3])] (sample_stream [200, 0, 0, 0]) =
    Some (Some (Err (CustomKind MessageTooLong)), [(1, Ok [1, 2, 3])], sample_stream [200, 0, 0, 0])"
proof -
  have "fst (ss_recvBuffer (sample_stream [200, 0, 0, 0])) = put32 le_codec 200 @ []"
    by (simp add: sample_stream_def put32_200)
  then show ?thesis
    using too_long_message_blocks_stream [OF ref_stream.stream_laws_axioms, of plain_env
        "sample_stream [200, 0, 0, 0]" 200 "[]" 100] by simp
qed

end
