(* ===== verification/Tcp_Transport.thy ===== *)
theory Tcp_Transport
  imports Stream_Common
begin

text \<open>
  The TCP transport (\<open>transport/TcpTransport.hpp\<close>, \<open>transport/TcpTransport.cpp\<close>): the stream
  operations of \<open>Stream_Common\<close> on its socket, and the keepalives.  What the socket answers is an
  argument: the outcome of the connection attempt (None when the timeout comes first) and of the
  shutdown.
\<close>

section \<open>State\<close>

record ('b, 'cd, 'dd, 'd, 'i) TcpTransport = "('b, 'cd, 'dd, 'd, 'i) StreamTransport" +
  tt_activeKeepaliveInterval :: "'d option"
  tt_closed :: bool

definition TcpTransport_new :: "'b ring_ops \<Rightarrow> 'i \<Rightarrow> ('b, 'cd, 'dd, 'd, 'i) TcpTransport" where
  "TcpTransport_new B t0 = \<lparr>ss_base = BaseTransport_new t0, ss_recvBuffer = rg_new B 512, ss_attempts = 0,
     ss_wire = [], tt_activeKeepaliveInterval = None, tt_closed = False\<rparr>"

definition TcpTransport_connect :: "'b ring_ops \<Rightarrow> 'i \<Rightarrow> string \<Rightarrow> (string, unit) outcome option \<Rightarrow> 'd option \<Rightarrow>
    (string, ('b, 'cd, 'dd, 'd, 'i) TcpTransport) outcome" where
  "TcpTransport_connect B t0 timedOut outcome activeKeepaliveInterval =
     unwrap (case outcome of None \<Rightarrow> Err timedOut | Some result \<Rightarrow> result) (\<lambda>_.
       let ret = TcpTransport_new B t0
       in Ok (ret\<lparr>tt_activeKeepaliveInterval := activeKeepaliveInterval\<rparr>))"

definition TcpTransport_closeSync :: "unit TransportResult \<Rightarrow> ('b, 'cd, 'dd, 'd, 'i) TcpTransport \<Rightarrow>
    unit TransportResult \<times> ('b, 'cd, 'dd, 'd, 'i) TcpTransport" where
  "TcpTransport_closeSync shutdown s =
     step_then (shutdown, s) (\<lambda>_ s. (Ok (), s\<lparr>tt_closed := True\<rparr>))"

definition TcpTransport_isClosed :: "('b, 'cd, 'dd, 'd, 'i) TcpTransport \<Rightarrow> bool" where
  "TcpTransport_isClosed s = tt_closed s"

section \<open>Messages\<close>

definition TcpTransport_sendMessage :: "('r, 'w, 'cd, 'dd, 'd, 'i, 'f) qn_env \<Rightarrow> 'i \<Rightarrow> u64 \<Rightarrow> QunetMessage \<Rightarrow>
    SentMessageContext \<Rightarrow> ('b, 'cd, 'dd, 'd, 'i) TcpTransport \<Rightarrow>
    SentMessageContext TransportResult \<times> ('b, 'cd, 'dd, 'd, 'i) TcpTransport" where
  "TcpTransport_sendMessage E now stamp message ctx s =
     (let (message, b) = stampKeepalive now stamp message (ss_base s)
      in step_then (stream_sendMessage E now message (s\<lparr>ss_base := b\<rparr>)) (\<lambda>_ s. (Ok ctx, s)))"

text \<open>\<open>BaseTransport::sendMessage(data, reliable)\<close> on this transport.\<close>

definition TcpTransport_sendPlain :: "('r, 'w, 'cd, 'dd, 'd, 'i, 'f) qn_env \<Rightarrow> 'i \<Rightarrow> u64 \<Rightarrow> QunetMessage \<Rightarrow>
    bool \<Rightarrow> ('b, 'cd, 'dd, 'd, 'i) TcpTransport \<Rightarrow>
    unit TransportResult \<times> ('b, 'cd, 'dd, 'd, 'i) TcpTransport" where
  "TcpTransport_sendPlain E now stamp data reliable s =
     step_then (TcpTransport_sendMessage E now stamp data (SentMessageContext_new\<lparr>cx_reliable := reliable\<rparr>) s)
       (\<lambda>ctx s. step_then (headerByte data, s) (\<lambda>hb s.
         (Ok (), ss_on_base (logOutgoingMessage (en_time E) now hb ctx) s)))"

definition TcpTransport_receiveMessage :: "('r, 'w, 'cd, 'dd, 'd, 'i, 'f) qn_env \<Rightarrow> 'b ring_ops \<Rightarrow> 'i \<Rightarrow>
    ('i \<times> bytes TransportResult) list \<Rightarrow> ('b, 'cd, 'dd, 'd, 'i) TcpTransport \<Rightarrow>
    (QunetMessage TransportResult option \<times> ('i \<times> bytes TransportResult) list \<times>
      ('b, 'cd, 'dd, 'd, 'i) TcpTransport) option" where
  "TcpTransport_receiveMessage E B now recvs s =
     stream_receiveMessage E B (bt_messageSizeLimit (ss_base s)) now recvs s"

text \<open>\<open>BaseTransport::performHandshake\<close> and \<open>performReconnect\<close>: the first message that comes is the
  answer.\<close>

definition TcpTransport_performHandshake :: "('r, 'w, 'cd, 'dd, 'd, 'i, 'f) qn_env \<Rightarrow> 'b ring_ops \<Rightarrow> 'i \<Rightarrow> u64 \<Rightarrow>
    HandshakeStartMessage \<Rightarrow> ('i \<times> bytes TransportResult) list \<Rightarrow> ('b, 'cd, 'dd, 'd, 'i) TcpTransport \<Rightarrow>
    (QunetMessage TransportResult option \<times> ('i \<times> bytes TransportResult) list \<times>
      ('b, 'cd, 'dd, 'd, 'i) TcpTransport) option" where
  "TcpTransport_performHandshake E B now stamp handshakeStart recvs s =
     (case TcpTransport_sendPlain E now stamp (HandshakeStart handshakeStart) True s of
        (Inl e, s) \<Rightarrow> Some (Some (Inl e), recvs, s)
      | (Inr _, s) \<Rightarrow> TcpTransport_receiveMessage E B now recvs s)"

definition TcpTransport_performReconnect :: "('r, 'w, 'cd, 'dd, 'd, 'i, 'f) qn_env \<Rightarrow> 'b ring_ops \<Rightarrow> 'i \<Rightarrow> u64 \<Rightarrow>
    u64 \<Rightarrow> ('i \<times> bytes TransportResult) list \<Rightarrow> ('b, 'cd, 'dd, 'd, 'i) TcpTransport \<Rightarrow>
    (QunetMessage TransportResult option \<times> ('i \<times> bytes TransportResult) list \<times>
      ('b, 'cd, 'dd, 'd, 'i) TcpTransport) option" where
  "TcpTransport_performReconnect E B now stamp connectionId recvs s =
     (case TcpTransport_sendPlain E now stamp (ClientReconnectMessage connectionId) True s of
        (Inl e, s) \<Rightarrow> Some (Some (Inl e), recvs, s)
      | (Inr _, s) \<Rightarrow> TcpTransport_receiveMessage E B now recvs s)"

section \<open>Timers\<close>

definition TcpTransport_untilTimerExpiry :: "('d, 'i, 'f) time_ops \<Rightarrow> 'i \<Rightarrow>
    ('b, 'cd, 'dd, 'd, 'i) TcpTransport \<Rightarrow> 'd" where
  "TcpTransport_untilTimerExpiry T now s =
     streamUntilKeepalive T now (tt_activeKeepaliveInterval s) (ss_base s)"

definition TcpTransport_handleTimerExpiry :: "('r, 'w, 'cd, 'dd, 'd, 'i, 'f) qn_env \<Rightarrow> 'i \<Rightarrow> u64 \<Rightarrow>
    ('b, 'cd, 'dd, 'd, 'i) TcpTransport \<Rightarrow>
    unit TransportResult \<times> ('b, 'cd, 'dd, 'd, 'i) TcpTransport" where
  "TcpTransport_handleTimerExpiry E now stamp s =
     step_then (BaseTransport_handleTimerExpiry (ss_base s), s) (\<lambda>_ s.
       TcpTransport_sendPlain E now stamp (KeepaliveMessage 0) True s)"

definition TcpTransport_updateLatency :: "('d, 'i, 'f) time_ops \<Rightarrow> 'g double_ops \<Rightarrow> 'd \<Rightarrow>
    ('b, 'cd, 'dd, 'd, 'i) TcpTransport \<Rightarrow> ('b, 'cd, 'dd, 'd, 'i) TcpTransport" where
  "TcpTransport_updateLatency T D rtt = ss_on_base (BaseTransport_updateLatency T D rtt)"

end
