(* ===== verification/Ws_Transport.thy ===== *)
theory Ws_Transport
  imports Stream_Common Url_Parser
begin

text \<open>
  The WebSocket transport (\<open>transport/WsTransport.hpp\<close>, \<open>transport/WsTransport.cpp\<close>).  The client
  (\<open>wsx::AsyncClient\<close>) belongs to a third-party package: its operations are the record \<open>ws_ops\<close>,
  and a value of type \<open>'c\<close> is its state.  Framing is the client's, so a message is one binary
  WebSocket message.  The keepalive times are those of the TCP transport.
\<close>

section \<open>The client\<close>

datatype ws_message = WsClose nat string | WsBinary bytes | WsOther

record 'c ws_ops =
  wc_isConnected :: "'c \<Rightarrow> bool"
  wc_send :: "bytes \<Rightarrow> 'c \<Rightarrow> (string, unit) outcome \<times> 'c"
  wc_recv :: "'c \<Rightarrow> (string, ws_message) outcome option \<times> 'c"
  wc_closeNoAck :: "'c \<Rightarrow> (string, unit) outcome \<times> 'c"
  wc_closeSync :: "'c \<Rightarrow> (string, unit) outcome \<times> 'c"

section \<open>State\<close>

record ('c, 'cd, 'dd, 'd, 'i) WsTransport =
  ws_base :: "('cd, 'dd, 'd, 'i) BaseTransport"
  ws_client :: 'c
  ws_activeKeepaliveInterval :: "'d option"

definition WsTransport_new :: "'i \<Rightarrow> 'c \<Rightarrow> ('c, 'cd, 'dd, 'd, 'i) WsTransport" where
  "WsTransport_new t0 client = \<lparr>ws_base = BaseTransport_new t0, ws_client = client,
     ws_activeKeepaliveInterval = None\<rparr>"

definition ws_on_base :: "(('cd, 'dd, 'd, 'i) BaseTransport \<Rightarrow> ('cd, 'dd, 'd, 'i) BaseTransport) \<Rightarrow>
    ('c, 'cd, 'dd, 'd, 'i) WsTransport \<Rightarrow> ('c, 'cd, 'dd, 'd, 'i) WsTransport" where
  "ws_on_base g s = s\<lparr>ws_base := g (ws_base s)\<rparr>"

definition ws_on_tracker :: "(('d, 'i) StatTracker \<Rightarrow> ('d, 'i) StatTracker) \<Rightarrow>
    ('c, 'cd, 'dd, 'd, 'i) WsTransport \<Rightarrow> ('c, 'cd, 'dd, 'd, 'i) WsTransport" where
  "ws_on_tracker g = ws_on_base (\<lambda>b. b\<lparr>bt_tracker := g (bt_tracker b)\<rparr>)"

text \<open>\<open>MAP_CO_UNWRAP\<close> on a call of the client.\<close>

definition ws_call :: "('c \<Rightarrow> (string, 'a) outcome \<times> 'c) \<Rightarrow> ('c, 'cd, 'dd, 'd, 'i) WsTransport \<Rightarrow>
    'a TransportResult \<times> ('c, 'cd, 'dd, 'd, 'i) WsTransport" where
  "ws_call f s = (let (r, c) = f (ws_client s) in (mapErr TE_Ws r, s\<lparr>ws_client := c\<rparr>))"

definition WsTransport_connect :: "'i \<Rightarrow> (string, 'c) outcome option \<Rightarrow> 'd option \<Rightarrow>
    ('c, 'cd, 'dd, 'd, 'i) WsTransport TransportResult" where
  "WsTransport_connect t0 res activeKeepaliveInterval =
     (case res of
        None \<Rightarrow> Err (CustomKind ConnectionTimedOut)
      | Some res \<Rightarrow>
          unwrap (mapErr TE_Ws res) (\<lambda>client.
            let ret = WsTransport_new t0 client
            in Ok (ret\<lparr>ws_activeKeepaliveInterval := activeKeepaliveInterval\<rparr>)))"

definition WsTransport_close :: "'c ws_ops \<Rightarrow> ('c, 'cd, 'dd, 'd, 'i) WsTransport \<Rightarrow>
    unit TransportResult \<times> ('c, 'cd, 'dd, 'd, 'i) WsTransport" where
  "WsTransport_close ops s =
     (if wc_isConnected ops (ws_client s) then step_then (ws_call (wc_closeNoAck ops) s) (\<lambda>_ s. (Ok (), s))
      else (Ok (), s))"

definition WsTransport_closeSync :: "'c ws_ops \<Rightarrow> ('c, 'cd, 'dd, 'd, 'i) WsTransport \<Rightarrow>
    unit TransportResult \<times> ('c, 'cd, 'dd, 'd, 'i) WsTransport" where
  "WsTransport_closeSync ops s =
     (if wc_isConnected ops (ws_client s) then step_then (ws_call (wc_closeSync ops) s) (\<lambda>_ s. (Ok (), s))
      else (Ok (), s))"

definition WsTransport_isClosed :: "'c ws_ops \<Rightarrow> ('c, 'cd, 'dd, 'd, 'i) WsTransport \<Rightarrow> bool" where
  "WsTransport_isClosed ops s = (\<not> wc_isConnected ops (ws_client s))"

section \<open>Messages\<close>

definition WsTransport_sendMessage :: "('r, 'w, 'cd, 'dd, 'd, 'i, 'f) qn_env \<Rightarrow> 'c ws_ops \<Rightarrow> 'i \<Rightarrow> u64 \<Rightarrow>
    QunetMessage \<Rightarrow> SentMessageContext \<Rightarrow> ('c, 'cd, 'dd, 'd, 'i) WsTransport \<Rightarrow>
    SentMessageContext TransportResult \<times> ('c, 'cd, 'dd, 'd, 'i) WsTransport" where
  "WsTransport_sendMessage E ops now stamp message ctx s =
     (let (message, b) = stampKeepalive now stamp message (ws_base s);
          s = s\<lparr>ws_base := b\<rparr>;
          W = en_writer E;
          encoded = (case message of
              Data msg \<Rightarrow> unwrap (must (encodeDataHeader W message 0 False (bw_new W))) (\<lambda>writer.
                Ok (bw_writeBytes W writer (dm_data msg)))
            | _ \<Rightarrow> mapErr TE_String (encodeControlMsg W message 0 (bw_new W)))
      in step_then (encoded, s) (\<lambda>writer s.
         let data = bw_written W writer in
         step_then (ws_call (wc_send ops data) s) (\<lambda>_ s.
         (Ok ctx, ws_on_tracker (onUpPacket now (length data)) s))))"

text \<open>\<open>BaseTransport::sendMessage(data, reliable)\<close> on this transport.\<close>

definition WsTransport_sendPlain :: "('r, 'w, 'cd, 'dd, 'd, 'i, 'f) qn_env \<Rightarrow> 'c ws_ops \<Rightarrow> 'i \<Rightarrow> u64 \<Rightarrow>
    QunetMessage \<Rightarrow> bool \<Rightarrow> ('c, 'cd, 'dd, 'd, 'i) WsTransport \<Rightarrow>
    unit TransportResult \<times> ('c, 'cd, 'dd, 'd, 'i) WsTransport" where
  "WsTransport_sendPlain E ops now stamp data reliable s =
     step_then (WsTransport_sendMessage E ops now stamp data (SentMessageContext_new\<lparr>cx_reliable := reliable\<rparr>) s)
       (\<lambda>ctx s. step_then (headerByte data, s) (\<lambda>hb s.
         (Ok (), ws_on_base (logOutgoingMessage (en_time E) now hb ctx) s)))"

text \<open>The text of the error for a close message.\<close>

definition ws_closed_text :: "nat \<Rightarrow> string \<Rightarrow> string" where
  "ws_closed_text code reason = ''WebSocket closed by peer: '' @ reason @ '' (code '' @ decimal code @ '')''"

definition WsTransport_decode :: "('r, 'w, 'cd, 'dd, 'd, 'i, 'f) qn_env \<Rightarrow> 'i \<Rightarrow> bytes \<Rightarrow>
    ('c, 'cd, 'dd, 'd, 'i) WsTransport \<Rightarrow>
    QunetMessage TransportResult \<times> ('c, 'cd, 'dd, 'd, 'i) WsTransport" where
  "WsTransport_decode E now data s =
     step_then (mapErr TE_Decode (decodeMeta (en_reader E) data False False), s) (\<lambda>meta s.
     if mm_type meta \<noteq> MSG_DATA then
       step_then (mapErr TE_Decode (decodeWithMeta (en_reader E) meta), s) (\<lambda>msg s.
       step_then (at data 0, s) (\<lambda>hb s.
       (Ok msg, ws_on_tracker (onDownMessage now hb (length data) None (tm_zero (en_time E)) None) s)))
     else
       (let (r, b) = decodePreFinalDataMessage (en_time E) (en_zstd E) (en_lz4 E) now meta (ws_base s)
        in (r, s\<lparr>ws_base := b\<rparr>)))"

text \<open>\<open>receiveMessage\<close>: None while the client has nothing.\<close>

definition WsTransport_receiveMessage :: "('r, 'w, 'cd, 'dd, 'd, 'i, 'f) qn_env \<Rightarrow> 'c ws_ops \<Rightarrow> 'i \<Rightarrow>
    ('c, 'cd, 'dd, 'd, 'i) WsTransport \<Rightarrow>
    QunetMessage TransportResult option \<times> ('c, 'cd, 'dd, 'd, 'i) WsTransport" where
  "WsTransport_receiveMessage E ops now s =
     (let (r, c) = wc_recv ops (ws_client s); s = s\<lparr>ws_client := c\<rparr>
      in case r of
           None \<Rightarrow> (None, s)
         | Some r \<Rightarrow>
             (case mapErr TE_Ws r of
                Inl e \<Rightarrow> (Some (Inl e), s)
              | Inr (WsClose code reason) \<Rightarrow> (Some (Err (TE_Ws (ws_closed_text code reason))), s)
              | Inr WsOther \<Rightarrow> (Some (Err (CustomKind UnexpectedMessage)), s)
              | Inr (WsBinary data) \<Rightarrow> (case WsTransport_decode E now data s of (r, s) \<Rightarrow> (Some r, s))))"

definition WsTransport_performHandshake :: "('r, 'w, 'cd, 'dd, 'd, 'i, 'f) qn_env \<Rightarrow> 'c ws_ops \<Rightarrow> 'i \<Rightarrow> u64 \<Rightarrow>
    HandshakeStartMessage \<Rightarrow> ('c, 'cd, 'dd, 'd, 'i) WsTransport \<Rightarrow>
    QunetMessage TransportResult option \<times> ('c, 'cd, 'dd, 'd, 'i) WsTransport" where
  "WsTransport_performHandshake E ops now stamp handshakeStart s =
     (case WsTransport_sendPlain E ops now stamp (HandshakeStart handshakeStart) True s of
        (Inl e, s) \<Rightarrow> (Some (Inl e), s)
      | (Inr _, s) \<Rightarrow> WsTransport_receiveMessage E ops now s)"

definition WsTransport_performReconnect :: "('r, 'w, 'cd, 'dd, 'd, 'i, 'f) qn_env \<Rightarrow> 'c ws_ops \<Rightarrow> 'i \<Rightarrow> u64 \<Rightarrow>
    u64 \<Rightarrow> ('c, 'cd, 'dd, 'd, 'i) WsTransport \<Rightarrow>
    QunetMessage TransportResult option \<times> ('c, 'cd, 'dd, 'd, 'i) WsTransport" where
  "WsTransport_performReconnect E ops now stamp connectionId s =
     (case WsTransport_sendPlain E ops now stamp (ClientReconnectMessage connectionId) True s of
        (Inl e, s) \<Rightarrow> (Some (Inl e), s)
      | (Inr _, s) \<Rightarrow> WsTransport_receiveMessage E ops now s)"

section \<open>Timers\<close>

definition WsTransport_untilKeepalive :: "('d, 'i, 'f) time_ops \<Rightarrow> 'i \<Rightarrow>
    ('c, 'cd, 'dd, 'd, 'i) WsTransport \<Rightarrow> 'd" where
  "WsTransport_untilKeepalive T now s =
     streamUntilKeepalive T now (ws_activeKeepaliveInterval s) (ws_base s)"

definition WsTransport_untilTimerExpiry :: "('d, 'i, 'f) time_ops \<Rightarrow> 'i \<Rightarrow>
    ('c, 'cd, 'dd, 'd, 'i) WsTransport \<Rightarrow> 'd" where
  "WsTransport_untilTimerExpiry T now s = WsTransport_untilKeepalive T now s"

definition WsTransport_handleTimerExpiry :: "('r, 'w, 'cd, 'dd, 'd, 'i, 'f) qn_env \<Rightarrow> 'c ws_ops \<Rightarrow> 'i \<Rightarrow> u64 \<Rightarrow>
    ('c, 'cd, 'dd, 'd, 'i) WsTransport \<Rightarrow>
    unit TransportResult \<times> ('c, 'cd, 'dd, 'd, 'i) WsTransport" where
  "WsTransport_handleTimerExpiry E ops now stamp s =
     step_then (BaseTransport_handleTimerExpiry (ws_base s), s) (\<lambda>_ s.
       WsTransport_sendPlain E ops now stamp (KeepaliveMessage 0) True s)"

section \<open>Facts\<close>

text \<open>An empty binary message of the server fails an assertion of the decoder.\<close>

lemma empty_ws_message_asserts:
  assumes "wc_recv ops (ws_client s) = (Some (Ok (WsBinary [])), c)"
  shows "fst (WsTransport_receiveMessage E ops now s) = Some (Inl AssertionFailed)"
  using assms by (simp add: WsTransport_receiveMessage_def WsTransport_decode_def decodeMeta_def Let_def)

end
