(* ===== verification/Transport_Session.thy ===== *)
theory Transport_Session
  imports Udp_Handshake Tcp_Transport Ws_Transport
begin

text \<open>
  The part of a transport that a reconnected socket takes over (\<open>Socket::onReconnectSuccess\<close>): the
  connection id, the size limit and the compressors.  Sending, receiving and the timers of every
  transport leave it alone.
\<close>

section \<open>The session of a transport\<close>

definition session :: "('cd, 'dd, 'd, 'i) BaseTransport \<Rightarrow>
    u64 \<times> u64 \<times> 'cd ZstdCompressor \<times> 'dd ZstdDecompressor" where
  "session b = (bt_connectionId b, bt_messageSizeLimit b, bt_zstdCompressor b, bt_zstdDecompressor b)"

lemma session_updates [simp]:
  "session (b\<lparr>bt_tracker := tr\<rparr>) = session b"
  "session (b\<lparr>bt_unackedKeepalives := n\<rparr>) = session b"
  "session (updateLastActivity now b) = session b"
  "session (updateLastSentKeepalive now b) = session b"
  "session (logOutgoingMessage T now hb ctx b) = session b"
  "session (BaseTransport_updateLatency T D rtt b) = session b"
  by (simp_all add: session_def updateLastActivity_def updateLastSentKeepalive_def logOutgoingMessage_def
      BaseTransport_updateLatency_def Let_def)

lemma session_decodePreFinal [simp]:
  "session (snd (decodePreFinalDataMessage T Z L now meta b)) = session b"
  using decodePreFinal_state [of T Z L now meta b] by auto

lemma session_stampKeepalive [simp]: "session (snd (stampKeepalive now stamp m b)) = session b"
  by (simp add: stampKeepalive_def Let_def split: QunetMessage.split)

section \<open>The UDP transport\<close>

abbreviation udp_session :: "('cd, 'dd, 'd, 'i, 'f) UdpTransport \<Rightarrow>
    u64 \<times> u64 \<times> 'cd ZstdCompressor \<times> 'dd ZstdDecompressor" where
  "udp_session s \<equiv> session (ut_base s)"

lemma udp_session_updates [simp]:
  "udp_session (on_base (updateLastActivity now) s) = udp_session s"
  "udp_session (on_base (updateLastSentKeepalive now) s) = udp_session s"
  "udp_session (on_base (logOutgoingMessage T now hb ctx) s) = udp_session s"
  "udp_session (on_tracker g s) = udp_session s"
  "udp_session (clearUnackedKeepalives s) = udp_session s"
  "udp_session (UdpTransport_updateLatency T D rtt s) = udp_session s"
  by (simp_all add: on_tracker_def on_base_def clearUnackedKeepalives_def UdpTransport_updateLatency_def Let_def)

lemma socketSend_session [keeps_intros]: "udp_session s = x \<Longrightarrow> keeps udp_session x (socketSend E data s)"
  by (simp add: socketSend_def Let_def split: sum.split)

lemma rememberUnacked_session [keeps_intros]:
  "udp_session s = x \<Longrightarrow> keeps udp_session x (rememberUnacked now rel msg s)"
  by (simp add: rememberUnacked_def Let_def split: prod.split)

lemma sendFragment_session [keeps_intros]:
  "udp_session s = x \<Longrightarrow> keeps udp_session x (sendFragment E now msg k off i s)"
  unfolding sendFragment_def Let_def by (intro keeps_intros) simp_all

text \<open>The loop over the fragments keeps what its body keeps, and the retransmissions what one keeps.\<close>

lemma sendFragments_keeps_raw:
  fixes E :: "('r, 'w, 'cd, 'dd, 'd, 'i, 'f) qn_env"
  assumes "sendFragments E now msg k off i s = Some p"
    and body: "\<And>E :: ('r, 'w, 'cd, 'dd, 'd, 'i, 'f) qn_env. \<And>now msg k off i s. S s = x \<Longrightarrow> keeps S x (sendFragment E now msg k off i s)"
  shows "S s = x \<longrightarrow> keeps S x p"
proof (rule sendFragments.raw_induct [OF _ assms(1), where P = "\<lambda>E now msg k off i s p. S s = x \<longrightarrow> keeps S x p"], rule impI)
  fix sf and E :: "('r, 'w, 'cd, 'dd, 'd, 'i, 'f) qn_env" and now msg k off i s p
  assume ih: "\<And>E now msg k off i s p. sf E now msg k off i s = Some p \<Longrightarrow> S s = x \<longrightarrow> keeps S x p"
    and run: "(if off < length (dm_data msg)
       then io_then (Some (sendFragment E now msg k off i s)) (\<lambda>n s. sf E now msg k (off + n) (i + 1) s)
       else Some (Ok (), s)) = Some p"
    and x: "S s = x"
  have "io_keeps S x (io_then (Some (sendFragment E now msg k off i s)) (\<lambda>n s. sf E now msg k (off + n) (i + 1) s))"
    using x ih body by (intro keeps_intros) (auto simp: io_keeps_def)
  then show "keeps S x p"
    using run x by (cases p; cases "off < length (dm_data msg)") (auto simp: io_keeps_def)
qed

lemma sendFragments_keeps:
  fixes E :: "('r, 'w, 'cd, 'dd, 'd, 'i, 'f) qn_env"
  assumes "S s = x"
    and "\<And>E :: ('r, 'w, 'cd, 'dd, 'd, 'i, 'f) qn_env. \<And>now msg k off i s. S s = x \<Longrightarrow> keeps S x (sendFragment E now msg k off i s)"
  shows "io_keeps S x (sendFragments E now msg k off i s)"
  using sendFragments_keeps_raw [where S = S and x = x, OF _ assms(2)] assms(1) unfolding io_keeps_def by blast

lemma sendFragments_session [keeps_intros]:
  "udp_session s = x \<Longrightarrow> io_keeps udp_session x (sendFragments E now msg k off i s)"
  by (rule sendFragments_keeps) (auto intro: keeps_intros)

lemma doSendUnfragmentedData_session [keeps_intros]:
  "udp_session s = x \<Longrightarrow> io_keeps udp_session x (doSendUnfragmentedData E now message ctx retrans s)"
  unfolding doSendUnfragmentedData_def Let_def
  by (auto split: QunetMessage.split prod.split intro!: keeps_intros)

lemma sendControl_session [keeps_intros]:
  "udp_session s = x \<Longrightarrow> keeps udp_session x (sendControl E now stamp message s)"
  unfolding sendControl_def Let_def
  by (auto split: QunetMessage.split prod.split intro!: keeps_intros)

lemma UdpTransport_sendMessage_session [keeps_intros]:
  "udp_session s = x \<Longrightarrow> io_keeps udp_session x (UdpTransport_sendMessage E now stamp message ctx s)"
  unfolding UdpTransport_sendMessage_def Let_def takeOutgoingAcks_def
  by (auto split: QunetMessage.split prod.split intro!: keeps_intros)

lemma logOutgoing_session [keeps_intros]:
  "udp_session s = x \<Longrightarrow> keeps udp_session x (logOutgoing E now msg ctx s)"
  unfolding logOutgoing_def by (intro keeps_intros) simp_all

lemma UdpTransport_sendPlain_session [keeps_intros]:
  "udp_session s = x \<Longrightarrow> io_keeps udp_session x (UdpTransport_sendPlain E now stamp data rel s)"
  unfolding UdpTransport_sendPlain_def by (auto intro!: keeps_intros)

lemma processOne_stages_session [keeps_intros]:
  assumes "udp_session s = x"
  shows "keeps udp_session x (collectFragment E now meta s)"
    and "keeps udp_session x (acceptReliable now meta s)"
    and "keeps udp_session x (decodeFinal E now meta s)"
proof -
  show "keeps udp_session x (collectFragment E now meta s)" "keeps udp_session x (acceptReliable now meta s)"
    using assms by (simp_all add: collectFragment_def acceptReliable_def Let_def split: option.split prod.split)
  have "session (snd (decodePreFinalDataMessage (en_time E) (en_zstd E) (en_lz4 E) now meta (ut_base s))) = x"
    using assms by simp
  then show "keeps udp_session x (decodeFinal E now meta s)"
    by (cases "decodePreFinalDataMessage (en_time E) (en_zstd E) (en_lz4 E) now meta (ut_base s)")
      (simp add: decodeFinal_def)
qed

lemma processOne_session [keeps_intros]:
  "udp_session s = x \<Longrightarrow> keeps udp_session x (processOne E now meta s)"
  unfolding processOne_def Let_def
  by (auto split: QunetMessage.split option.split intro!: keeps_intros)

lemma processItems_session [keeps_intros]:
  "udp_session s = x \<Longrightarrow> keeps udp_session x (processItems E now iter toReturn s)"
proof (induction E now iter toReturn s rule: processItems.induct)
  case (1 E now iter toReturn s)
  show ?case
  proof (cases "QunetUdpMessageIter_next (en_reader E) iter")
    case (Pair r iter')
    show ?thesis
    proof (cases r)
      case None
      then show ?thesis
        using Pair "1.prems" by (simp add: processItems.simps [of E now iter])
    next
      case (Some rm)
      show ?thesis
      proof (cases rm)
        case (Inl e)
        then show ?thesis
          using Pair Some "1.prems" by (simp add: processItems.simps [of E now iter])
      next
        case (Inr meta)
        obtain q s' where p: "processOne E now meta s = (q, s')"
          by (cases "processOne E now meta s")
        have s': "udp_session s' = x"
          using processOne_session [OF "1.prems", of E now meta] p by simp
        note ih = "1.IH" [OF Pair [symmetric] Some Inr]
        show ?thesis
        proof (cases "mm_type meta = MSG_PADDING")
          case True
          then show ?thesis
            using ih(1) "1.prems" Pair Some Inr by (simp add: processItems.simps [of E now iter])
        next
          case False
          show ?thesis
          proof (cases q)
            case (Inl e)
            then show ?thesis
              using False Pair Some Inr p s' by (simp add: processItems.simps [of E now iter])
          next
            case (Inr om)
            then show ?thesis
              using False Pair Some \<open>rm = Inr meta\<close> p s' ih(2-4) [OF False p [symmetric]]
              by (cases om) (auto simp: processItems.simps [of E now iter])
          qed
        qed
      qed
    qed
  qed
qed

text \<open>\<open>BaseTransport::performReconnect\<close> on this transport.\<close>

definition UdpTransport_performReconnect :: "('r, 'w, 'cd, 'dd, 'd, 'i, 'f) qn_env \<Rightarrow> 'i \<Rightarrow> u64 \<Rightarrow>
    u64 \<Rightarrow> ('i \<times> bytes TransportResult) list \<Rightarrow> ('cd, 'dd, 'd, 'i, 'f) UdpTransport \<Rightarrow>
    (QunetMessage TransportResult option \<times> ('i \<times> bytes TransportResult) list \<times>
      ('cd, 'dd, 'd, 'i, 'f) UdpTransport) option" where
  "UdpTransport_performReconnect E now stamp connectionId recvs s =
     (case UdpTransport_sendPlain E now stamp (ClientReconnectMessage connectionId) True s of
        None \<Rightarrow> None
      | Some (Inl e, s) \<Rightarrow> Some (Some (Inl e), recvs, s)
      | Some (Inr _, s) \<Rightarrow> Some (UdpTransport_receiveMessage E now recvs s))"

lemma receiveQueued_session:
  "udp_session s = x \<Longrightarrow> io_keeps udp_session x (receiveQueued E now s)"
  unfolding receiveQueued_def
  by (auto split: list.split prod.split option.split intro!: keeps_intros)

lemma receiveDatagram_session:
  "udp_session s = x \<Longrightarrow> keeps udp_session x (receiveDatagram E now recv s)"
  unfolding receiveDatagram_def Let_def by (auto intro!: keeps_intros)

lemma UdpTransport_receiveMessage_session:
  "UdpTransport_receiveMessage E now recvs s = (r, recvs', s') \<Longrightarrow> udp_session s' = udp_session s"
proof (induction E now recvs s arbitrary: r recvs' s' rule: UdpTransport_receiveMessage.induct)
  case (1 E now recvs s)
  show ?case
  proof (cases "receiveQueued E now s")
    case (Some p)
    then show ?thesis
      using "1.prems" receiveQueued_session [of s "udp_session s" E now]
      by (cases p) (auto simp: UdpTransport_receiveMessage.simps [of E now recvs])
  next
    case None
    show ?thesis
    proof (cases recvs)
      case Nil
      then show ?thesis
        using "1.prems" None by (simp add: UdpTransport_receiveMessage.simps [of E now "[]"])
    next
      case (Cons h recvs1)
      obtain now1 recv where h: "h = (now1, recv)"
        by (cases h)
      obtain q s1 where d: "receiveDatagram E now1 recv s = (q, s1)"
        by (cases "receiveDatagram E now1 recv s")
      have s1: "udp_session s1 = udp_session s"
        using receiveDatagram_session [of s "udp_session s" E now1 recv] d by simp
      show ?thesis
      proof (cases q)
        case (Inl e)
        then show ?thesis
          using "1.prems" None Cons h d s1 by (simp add: UdpTransport_receiveMessage.simps [of E now "(now1, recv) # recvs1"])
      next
        case (Inr om)
        then show ?thesis
          using "1.prems" None Cons h d s1
            "1.IH" [OF None Cons h [symmetric] d [symmetric] Inr]
          by (cases om) (auto simp: UdpTransport_receiveMessage.simps [of E now "(now1, recv) # recvs1"])
      qed
    qed
  qed
qed

lemma handshakeLoop_session:
  "handshakeLoop E hs rounds recvs run s = Some (r, recvs', s') \<Longrightarrow> udp_session s' = udp_session s"
proof (induction rounds arbitrary: recvs run s)
  case (Cons rd rounds)
  let ?send = "UdpTransport_sendPlain E (rd_now rd) (rd_stamp rd) (HandshakeStart hs) False s"
  have sent: "udp_session s1 = udp_session s" if "?send = Some (q, s1)" for q s1
    using UdpTransport_sendPlain_session [of s "udp_session s" E] that by (simp add: io_keeps_def keeps_def)
  note got = UdpTransport_receiveMessage_session [of E "rd_now rd" recvs s]
  show ?case
    using Cons.prems sent got
    by (auto simp: Let_def split: if_splits option.splits prod.splits sum.splits QunetMessage.splits
        dest!: Cons.IH)
qed simp

lemma UdpTransport_performHandshake_session:
  "UdpTransport_performHandshake E now stamp hs rounds recvs s = Some (r, recvs', s') \<Longrightarrow>
    udp_session s' = udp_session s"
  using UdpTransport_sendPlain_session [of s "udp_session s" E now stamp "HandshakeStart hs" False]
  by (auto simp: UdpTransport_performHandshake_def io_keeps_def keeps_def dest!: handshakeLoop_session
      split: option.splits prod.splits sum.splits)

lemma UdpTransport_performReconnect_session:
  "UdpTransport_performReconnect E now stamp cid recvs s = Some (r, recvs', s') \<Longrightarrow>
    udp_session s' = udp_session s"
  using UdpTransport_sendPlain_session [of s "udp_session s" E now stamp "ClientReconnectMessage cid" True]
  by (auto simp: UdpTransport_performReconnect_def io_keeps_def keeps_def dest!: UdpTransport_receiveMessage_session
      split: option.splits prod.splits sum.splits)

lemma retransmitDue_keeps_raw:
  fixes E :: "('r, 'w, 'cd, 'dd, 'd, 'i, 'f) qn_env"
  assumes "retransmitDue E now s = Some p"
    and store: "\<And>s st. S (s\<lparr>ut_relStore := st\<rparr>) = S s"
    and send: "\<And>E :: ('r, 'w, 'cd, 'dd, 'd, 'i, 'f) qn_env. \<And>now m ctx rt s x. S s = x \<Longrightarrow> io_keeps S x (doSendUnfragmentedData E now m ctx rt s)"
    and log: "\<And>E :: ('r, 'w, 'cd, 'dd, 'd, 'i, 'f) qn_env. \<And>now m ctx s x. S s = x \<Longrightarrow> keeps S x (logOutgoing E now m ctx s)"
  shows "S s = x \<longrightarrow> keeps S x p"
proof (rule retransmitDue.raw_induct [OF _ assms(1), where P = "\<lambda>E now s p. S s = x \<longrightarrow> keeps S x p"], rule impI)
  fix rd and E :: "('r, 'w, 'cd, 'dd, 'd, 'i, 'f) qn_env" and now s p
  let ?body = "let (r, st) = maybeRetransmit (en_time E) now (ut_relStore s); s = s\<lparr>ut_relStore := st\<rparr>
      in io_then (Some (r, s)) (\<lambda>due s. case due of None \<Rightarrow> Some (Ok (), s)
         | Some msg \<Rightarrow> io_then (doSendUnfragmentedData E now msg SentMessageContext_new True s) (\<lambda>ctx s.
             io_then (Some (logOutgoing E now msg ctx s)) (\<lambda>_ s. rd E now s)))"
  assume ih: "\<And>E now s p. rd E now s = Some p \<Longrightarrow> S s = x \<longrightarrow> keeps S x p"
    and run: "?body = Some p" and x: "S s = x"
  have "io_keeps S x ?body"
    using x ih store unfolding Let_def
    by (auto split: prod.split option.split intro!: keeps_intros send log) (auto simp: io_keeps_def)
  then show "keeps S x p"
    using run by simp
qed

lemma retransmitDue_keeps:
  fixes E :: "('r, 'w, 'cd, 'dd, 'd, 'i, 'f) qn_env"
  assumes "S s = x"
    and "\<And>s st. S (s\<lparr>ut_relStore := st\<rparr>) = S s"
    and "\<And>E :: ('r, 'w, 'cd, 'dd, 'd, 'i, 'f) qn_env. \<And>now m ctx rt s x. S s = x \<Longrightarrow> io_keeps S x (doSendUnfragmentedData E now m ctx rt s)"
    and "\<And>E :: ('r, 'w, 'cd, 'dd, 'd, 'i, 'f) qn_env. \<And>now m ctx s x. S s = x \<Longrightarrow> keeps S x (logOutgoing E now m ctx s)"
  shows "io_keeps S x (retransmitDue E now s)"
  using retransmitDue_keeps_raw [where S = S and x = x, OF _ assms(2-4)] assms(1) unfolding io_keeps_def by blast

lemma retransmitDue_session [keeps_intros]:
  "udp_session s = x \<Longrightarrow> io_keeps udp_session x (retransmitDue E now s)"
  by (rule retransmitDue_keeps) (auto intro: keeps_intros)

lemma sendUrgentAcks_session [keeps_intros]:
  "udp_session s = x \<Longrightarrow> io_keeps udp_session x (sendUrgentAcks E now s)"
  unfolding sendUrgentAcks_def Let_def takeOutgoingAcks_def
  by (auto split: prod.split intro!: keeps_intros)

lemma UdpTransport_handleTimerExpiry_session:
  "udp_session s = x \<Longrightarrow> io_keeps udp_session x (UdpTransport_handleTimerExpiry E now stamp s)"
  unfolding UdpTransport_handleTimerExpiry_def
  by (auto intro!: keeps_intros)

section \<open>The stream transports\<close>

abbreviation ss_session :: "('b, 'cd, 'dd, 'd, 'i, 'z) StreamTransport_scheme \<Rightarrow>
    u64 \<times> u64 \<times> 'cd ZstdCompressor \<times> 'dd ZstdDecompressor" where
  "ss_session s \<equiv> session (ss_base s)"

lemma ss_session_updates [simp]:
  "ss_session (ss_on_tracker g s) = ss_session s"
  "ss_session (ss_on_base (logOutgoingMessage T now hb ctx) s) = ss_session s"
  "ss_session (TcpTransport_updateLatency T D rtt t) = ss_session t"
  by (simp_all add: ss_on_tracker_def ss_on_base_def TcpTransport_updateLatency_def)

lemma sendAll_session [keeps_intros]: "ss_session s = x \<Longrightarrow> keeps ss_session x (sendAll E data s)"
  by (simp add: sendAll_def Let_def split: sum.split)

lemma stream_sendMessage_session [keeps_intros]:
  "ss_session s = x \<Longrightarrow> keeps ss_session x (stream_sendMessage E now message s)"
  unfolding stream_sendMessage_def Let_def
  by (auto split: QunetMessage.split intro!: keeps_intros)

lemma same_decoding_session: "same_decoding t u \<Longrightarrow> session u = session t"
  by (auto simp: same_decoding_def)

lemma waitForData_session:
  "waitForData B now recvs s = (r, recvs', now', s') \<Longrightarrow> ss_session s' = ss_session s"
  unfolding waitForData_def Let_def
  by (cases recvs) (auto split: if_splits prod.splits sum.splits simp: ss_on_tracker_def ss_on_base_def)

lemma takeMessage_session: "ss_session (snd (takeMessage E B now n s)) = ss_session s"
proof -
  obtain r u where d: "decodeFrame E now (rg_peekWrapped B (rg_skip B 4 (ss_recvBuffer s)) n) (ss_base s) = (r, u)"
    by (cases "decodeFrame E now (rg_peekWrapped B (rg_skip B 4 (ss_recvBuffer s)) n) (ss_base s)")
  then show ?thesis
    using same_decoding_session [OF decodeFrame_base [OF same_decoding_refl d]]
    by (simp add: takeMessage_def Let_def)
qed

lemma receiveRound_session:
  assumes "receiveRound E B limit now recvs s = (r, recvs', now', s')"
  shows "ss_session s' = ss_session s"
proof -
  obtain w recvs1 now1 s1 where w: "waitForData B now recvs s = (w, recvs1, now1, s1)"
    by (cases "waitForData B now recvs s") auto
  note waited = waitForData_session [OF w]
  have more: "ss_session s' = ss_session s"
    if "(case waitForData B now recvs s of (None, w) \<Rightarrow> (Some None, w)
            | (Some (Inl e), w) \<Rightarrow> (Some (Some (Inl e)), w)
            | (Some (Inr _), w) \<Rightarrow> (None, w)) = (r, recvs', now', s')"
    using that w waited by (auto split: option.splits sum.splits)
  show ?thesis
    using assms more takeMessage_session [of E B now _ s]
    by (auto simp: receiveRound_def Let_def split: if_splits sum.splits prod.splits)
      (metis snd_conv)+
qed

lemma stream_receiveMessage_session:
  fixes E :: "('r, 'w, 'cd, 'dd, 'd, 'i, 'f) qn_env"
  assumes "stream_receiveMessage E B limit now recvs s = Some (r, recvs', s')"
  shows "ss_session s' = ss_session s"
proof -
  have "ss_session (snd (snd (r, recvs', s'))) = ss_session s"
  proof (rule stream_receiveMessage.raw_induct [OF _ assms,
      where P = "\<lambda>E B limit now recvs s p. ss_session (snd (snd p)) = ss_session s"])
    fix f and E :: "('r, 'w, 'cd, 'dd, 'd, 'i, 'f) qn_env" and B limit now recvs s p
    assume ih: "\<And>E B limit now recvs s p. f E B limit now recvs s = Some p \<Longrightarrow>
        ss_session (snd (snd p)) = ss_session s"
      and run: "(case receiveRound E B limit now recvs s of
        (Some r, recvs, now, s) \<Rightarrow> Some (r, recvs, s)
      | (None, recvs, now, s) \<Rightarrow> f E B limit now recvs s) = Some p"
    obtain r1 recvs1 now1 s1 where r1: "receiveRound E B limit now recvs s = (r1, recvs1, now1, s1)"
      by (cases "receiveRound E B limit now recvs s") auto
    show "ss_session (snd (snd p)) = ss_session s"
      using run r1 receiveRound_session [OF r1] ih by (cases r1) auto
  qed
  then show ?thesis
    by simp
qed

lemma TcpTransport_sendMessage_session [keeps_intros]:
  assumes "ss_session s = x"
  shows "keeps ss_session x (TcpTransport_sendMessage E now stamp message ctx s)"
proof -
  obtain m b where mb: "stampKeepalive now stamp message (ss_base s) = (m, b)"
    by (cases "stampKeepalive now stamp message (ss_base s)")
  then have "session b = x"
    using session_stampKeepalive [of now stamp message "ss_base s"] assms by simp
  then show ?thesis
    using mb unfolding TcpTransport_sendMessage_def by (auto intro!: keeps_intros)
qed

lemma TcpTransport_sendPlain_session [keeps_intros]:
  "ss_session s = x \<Longrightarrow> keeps ss_session x (TcpTransport_sendPlain E now stamp data rel s)"
  unfolding TcpTransport_sendPlain_def by (auto intro!: keeps_intros)

lemma TcpTransport_handleTimerExpiry_session:
  "ss_session s = x \<Longrightarrow> keeps ss_session x (TcpTransport_handleTimerExpiry E now stamp s)"
  unfolding TcpTransport_handleTimerExpiry_def by (auto intro!: keeps_intros)

lemma TcpTransport_closeSync_session:
  "ss_session s = x \<Longrightarrow> keeps ss_session x (TcpTransport_closeSync shutdown s)"
  unfolding TcpTransport_closeSync_def by (auto intro!: keeps_intros)

lemma TcpTransport_answers_session:
  assumes "ss_session s = x"
  shows "TcpTransport_receiveMessage E B now recvs s = Some (r, recvs', s') \<Longrightarrow> ss_session s' = x"
    and "TcpTransport_performHandshake E B now stamp hs recvs s = Some (r, recvs', s') \<Longrightarrow> ss_session s' = x"
    and "TcpTransport_performReconnect E B now stamp cid recvs s = Some (r, recvs', s') \<Longrightarrow> ss_session s' = x"
  using assms TcpTransport_sendPlain_session [OF assms, of E now stamp _ True]
  by (auto simp: TcpTransport_receiveMessage_def TcpTransport_performHandshake_def TcpTransport_performReconnect_def
      keeps_def dest!: stream_receiveMessage_session split: prod.splits sum.splits)
    (metis snd_conv)+

section \<open>The WebSocket transport\<close>

abbreviation ws_session :: "('c, 'cd, 'dd, 'd, 'i) WsTransport \<Rightarrow>
    u64 \<times> u64 \<times> 'cd ZstdCompressor \<times> 'dd ZstdDecompressor" where
  "ws_session s \<equiv> session (ws_base s)"

lemma ws_session_updates [simp]:
  "ws_session (ws_on_tracker g s) = ws_session s"
  "ws_session (ws_on_base (logOutgoingMessage T now hb ctx) s) = ws_session s"
  "ws_session (ws_on_base (BaseTransport_updateLatency T D rtt) s) = ws_session s"
  by (simp_all add: ws_on_tracker_def ws_on_base_def)

lemma ws_call_session [keeps_intros]: "ws_session s = x \<Longrightarrow> keeps ws_session x (ws_call f s)"
  by (simp add: ws_call_def split: prod.split)

lemma WsTransport_sendMessage_session [keeps_intros]:
  assumes "ws_session s = x"
  shows "keeps ws_session x (WsTransport_sendMessage E ops now stamp message ctx s)"
proof -
  obtain m b where mb: "stampKeepalive now stamp message (ws_base s) = (m, b)"
    by (cases "stampKeepalive now stamp message (ws_base s)")
  then have "session b = x"
    using session_stampKeepalive [of now stamp message "ws_base s"] assms by simp
  then show ?thesis
    using mb unfolding WsTransport_sendMessage_def Let_def by (auto intro!: keeps_intros)
qed

lemma WsTransport_sendPlain_session [keeps_intros]:
  "ws_session s = x \<Longrightarrow> keeps ws_session x (WsTransport_sendPlain E ops now stamp data rel s)"
  unfolding WsTransport_sendPlain_def by (auto intro!: keeps_intros)

lemma WsTransport_timer_close_session:
  assumes "ws_session s = x"
  shows "keeps ws_session x (WsTransport_handleTimerExpiry E ops now stamp s)"
    and "keeps ws_session x (WsTransport_close ops s)"
    and "keeps ws_session x (WsTransport_closeSync ops s)"
  using assms unfolding WsTransport_handleTimerExpiry_def WsTransport_close_def WsTransport_closeSync_def
  by (auto intro!: keeps_intros)

lemma WsTransport_decode_session [keeps_intros]:
  assumes "ws_session s = x"
  shows "keeps ws_session x (WsTransport_decode E now data s)"
proof -
  have pre: "session (snd (decodePreFinalDataMessage (en_time E) (en_zstd E) (en_lz4 E) now meta (ws_base s))) = ws_session s"
    for meta s by simp
  have "keeps ws_session x (let (r, b) = decodePreFinalDataMessage (en_time E) (en_zstd E) (en_lz4 E) now meta (ws_base s)
        in (r, s\<lparr>ws_base := b\<rparr>))" if "ws_session s = x" for meta s
    using that pre [of meta s]
    by (cases "decodePreFinalDataMessage (en_time E) (en_zstd E) (en_lz4 E) now meta (ws_base s)") simp
  then show ?thesis
    using assms unfolding WsTransport_decode_def by (auto intro!: keeps_intros)
qed

lemma WsTransport_receiveMessage_session [keeps_intros]:
  assumes "ws_session s = x"
  shows "keeps ws_session x (WsTransport_receiveMessage E ops now s)"
proof -
  have "ws_session (s\<lparr>ws_client := c\<rparr>) = x" for c
    using assms by simp
  from WsTransport_decode_session [OF this, of E now] show ?thesis
    using assms unfolding WsTransport_receiveMessage_def Let_def
    by (auto simp: keeps_def split: prod.splits option.splits sum.splits ws_message.splits) (metis snd_conv)+
qed

lemma WsTransport_answers_session:
  assumes "ws_session s = x"
  shows "keeps ws_session x (WsTransport_performHandshake E ops now stamp hs s)"
    and "keeps ws_session x (WsTransport_performReconnect E ops now stamp cid s)"
  using assms WsTransport_sendPlain_session [OF assms, of E ops now stamp _ True]
    WsTransport_receiveMessage_session [of _ x E ops now]
  by (auto simp: WsTransport_performHandshake_def WsTransport_performReconnect_def keeps_def
      split: prod.splits sum.splits) (metis snd_conv)+

end
