(* ===== verification/Transport_Ops.thy ===== *)
theory Transport_Ops
  imports Transport_Session
begin

text \<open>
  The interface of the transports (the virtual functions of \<open>BaseTransport\<close>) as a record of
  operations, the locale that states what a socket relies on, and the UDP, TCP and WebSocket
  transports as instances.  A value of type \<open>'s\<close> is a transport together with what the network
  still delivers to it.

  Operations return None where the coroutine does not return, and a result None where it still
  waits for the network after everything that arrives in time.
\<close>

section \<open>The interface\<close>

text \<open>The environment of a call: clock readings, the rounds of a handshake loop, and the outcome of a
  shutdown of the underlying socket.\<close>

record 'i call =
  cl_now :: 'i
  cl_stamp :: u64
  cl_arrival :: u64
  cl_rounds :: "'i HandshakeRound list"
  cl_shutdown :: "unit TransportResult"

record ('s, 'cd, 'dd, 'd, 'i) transport_ops =
  vt_base :: "'s \<Rightarrow> ('cd, 'dd, 'd, 'i) BaseTransport"
  vt_on_base :: "(('cd, 'dd, 'd, 'i) BaseTransport \<Rightarrow> ('cd, 'dd, 'd, 'i) BaseTransport) \<Rightarrow> 's \<Rightarrow> 's"
  vt_sendMessage :: "'i call \<Rightarrow> QunetMessage \<Rightarrow> SentMessageContext \<Rightarrow> 's \<Rightarrow>
    (SentMessageContext TransportResult \<times> 's) option"
  vt_receiveMessage :: "'i call \<Rightarrow> 's \<Rightarrow> (QunetMessage TransportResult option \<times> 's) option"
  vt_performHandshake :: "'i call \<Rightarrow> HandshakeStartMessage \<Rightarrow> 's \<Rightarrow>
    (QunetMessage TransportResult option \<times> 's) option"
  vt_performReconnect :: "'i call \<Rightarrow> u64 \<Rightarrow> 's \<Rightarrow> (QunetMessage TransportResult option \<times> 's) option"
  vt_close :: "'i call \<Rightarrow> 's \<Rightarrow> unit TransportResult \<times> 's"
  vt_closeSync :: "'i call \<Rightarrow> 's \<Rightarrow> unit TransportResult \<times> 's"
  vt_isClosed :: "'s \<Rightarrow> bool"
  vt_untilTimerExpiry :: "'i \<Rightarrow> 's \<Rightarrow> 'd"
  vt_handleTimerExpiry :: "'i call \<Rightarrow> 's \<Rightarrow> (unit TransportResult \<times> 's) option"
  vt_updateLatency :: "'d \<Rightarrow> 's \<Rightarrow> 's"

abbreviation vt_session :: "('s, 'cd, 'dd, 'd, 'i) transport_ops \<Rightarrow> 's \<Rightarrow>
    u64 \<times> u64 \<times> 'cd ZstdCompressor \<times> 'dd ZstdDecompressor" where
  "vt_session V s \<equiv> session (vt_base V s)"

text \<open>What a socket relies on: the base part is where the operations of the base class work, the
  other operations keep the session, and a transport whose shutdown succeeds is closed.\<close>

locale transport_laws =
  fixes V :: "('s, 'cd, 'dd, 'd, 'i) transport_ops"
  assumes base_on_base [simp]: "vt_base V (vt_on_base V g s) = g (vt_base V s)"
    and send_session: "io_keeps (vt_session V) (vt_session V s) (vt_sendMessage V c m ctx s)"
    and receive_session: "io_keeps (vt_session V) (vt_session V s) (vt_receiveMessage V c s)"
    and handshake_session: "io_keeps (vt_session V) (vt_session V s) (vt_performHandshake V c hs s)"
    and reconnect_session: "io_keeps (vt_session V) (vt_session V s) (vt_performReconnect V c cid s)"
    and close_session: "keeps (vt_session V) (vt_session V s) (vt_close V c s)"
    and closeSync_session: "keeps (vt_session V) (vt_session V s) (vt_closeSync V c s)"
    and timer_session: "io_keeps (vt_session V) (vt_session V s) (vt_handleTimerExpiry V c s)"
    and latency_session: "vt_session V (vt_updateLatency V rtt s) = vt_session V s"
    and closeSync_closes: "cl_shutdown c = Ok () \<Longrightarrow> vt_isClosed V (snd (vt_closeSync V c s))"

text \<open>The transports that \<open>close\<close> closes as well; that of QUIC has to send a packet first.\<close>

locale closing_laws = transport_laws V for V :: "('s, 'cd, 'dd, 'd, 'i) transport_ops" +
  assumes close_closes: "cl_shutdown c = Ok () \<Longrightarrow> vt_isClosed V (snd (vt_close V c s))"

section \<open>The transports\<close>

type_synonym ('t, 'i) networked = "'t \<times> ('i \<times> bytes TransportResult) list"

definition with_net :: "('i \<times> bytes TransportResult) list \<Rightarrow> 'r \<times> 't \<Rightarrow> 'r \<times> ('t, 'i) networked" where
  "with_net n = (\<lambda>(r, t). (r, (t, n)))"

definition with_rest :: "'r \<times> ('i \<times> bytes TransportResult) list \<times> 't \<Rightarrow> 'r \<times> ('t, 'i) networked" where
  "with_rest = (\<lambda>(r, n, t). (r, (t, n)))"

definition udp_ops :: "('r, 'w, 'cd, 'dd, 'd, 'i, 'f) qn_env \<Rightarrow> 'g double_ops \<Rightarrow>
    ((('cd, 'dd, 'd, 'i, 'f) UdpTransport, 'i) networked, 'cd, 'dd, 'd, 'i) transport_ops" where
  "udp_ops E D = \<lparr>
     vt_base = (\<lambda>(t, n). ut_base t),
     vt_on_base = (\<lambda>g (t, n). (on_base g t, n)),
     vt_sendMessage = (\<lambda>c m ctx (t, n).
       map_option (with_net n) (UdpTransport_sendMessage E (cl_now c) (cl_stamp c) m ctx t)),
     vt_receiveMessage = (\<lambda>c (t, n). Some (with_rest (UdpTransport_receiveMessage E (cl_now c) n t))),
     vt_performHandshake = (\<lambda>c hs (t, n).
       map_option with_rest (UdpTransport_performHandshake E (cl_now c) (cl_stamp c) hs (cl_rounds c) n t)),
     vt_performReconnect = (\<lambda>c cid (t, n).
       map_option with_rest (UdpTransport_performReconnect E (cl_now c) (cl_stamp c) cid n t)),
     vt_close = (\<lambda>c (t, n). with_net n (UdpTransport_closeSync t)),
     vt_closeSync = (\<lambda>c (t, n). with_net n (UdpTransport_closeSync t)),
     vt_isClosed = (\<lambda>(t, n). UdpTransport_isClosed t),
     vt_untilTimerExpiry = (\<lambda>now (t, n). UdpTransport_untilTimerExpiry (en_time E) now t),
     vt_handleTimerExpiry = (\<lambda>c (t, n).
       map_option (with_net n) (UdpTransport_handleTimerExpiry E (cl_now c) (cl_stamp c) t)),
     vt_updateLatency = (\<lambda>rtt (t, n). (UdpTransport_updateLatency (en_time E) D rtt t, n))\<rparr>"

definition tcp_ops :: "('r, 'w, 'cd, 'dd, 'd, 'i, 'f) qn_env \<Rightarrow> 'g double_ops \<Rightarrow> 'b ring_ops \<Rightarrow>
    ((('b, 'cd, 'dd, 'd, 'i) TcpTransport, 'i) networked, 'cd, 'dd, 'd, 'i) transport_ops" where
  "tcp_ops E D B = \<lparr>
     vt_base = (\<lambda>(t, n). ss_base t),
     vt_on_base = (\<lambda>g (t, n). (ss_on_base g t, n)),
     vt_sendMessage = (\<lambda>c m ctx (t, n).
       Some (with_net n (TcpTransport_sendMessage E (cl_now c) (cl_stamp c) m ctx t))),
     vt_receiveMessage = (\<lambda>c (t, n). map_option with_rest (TcpTransport_receiveMessage E B (cl_now c) n t)),
     vt_performHandshake = (\<lambda>c hs (t, n).
       map_option with_rest (TcpTransport_performHandshake E B (cl_now c) (cl_stamp c) hs n t)),
     vt_performReconnect = (\<lambda>c cid (t, n).
       map_option with_rest (TcpTransport_performReconnect E B (cl_now c) (cl_stamp c) cid n t)),
     vt_close = (\<lambda>c (t, n). with_net n (TcpTransport_closeSync (cl_shutdown c) t)),
     vt_closeSync = (\<lambda>c (t, n). with_net n (TcpTransport_closeSync (cl_shutdown c) t)),
     vt_isClosed = (\<lambda>(t, n). TcpTransport_isClosed t),
     vt_untilTimerExpiry = (\<lambda>now (t, n). TcpTransport_untilTimerExpiry (en_time E) now t),
     vt_handleTimerExpiry = (\<lambda>c (t, n).
       Some (with_net n (TcpTransport_handleTimerExpiry E (cl_now c) (cl_stamp c) t))),
     vt_updateLatency = (\<lambda>rtt (t, n). (TcpTransport_updateLatency (en_time E) D rtt t, n))\<rparr>"

definition websocket_ops :: "('r, 'w, 'cd, 'dd, 'd, 'i, 'f) qn_env \<Rightarrow> 'g double_ops \<Rightarrow> 'c ws_ops \<Rightarrow>
    (('c, 'cd, 'dd, 'd, 'i) WsTransport, 'cd, 'dd, 'd, 'i) transport_ops" where
  "websocket_ops E D ops = \<lparr>
     vt_base = ws_base,
     vt_on_base = ws_on_base,
     vt_sendMessage = (\<lambda>c m ctx t. Some (WsTransport_sendMessage E ops (cl_now c) (cl_stamp c) m ctx t)),
     vt_receiveMessage = (\<lambda>c t. Some (WsTransport_receiveMessage E ops (cl_now c) t)),
     vt_performHandshake = (\<lambda>c hs t. Some (WsTransport_performHandshake E ops (cl_now c) (cl_stamp c) hs t)),
     vt_performReconnect = (\<lambda>c cid t. Some (WsTransport_performReconnect E ops (cl_now c) (cl_stamp c) cid t)),
     vt_close = (\<lambda>c. WsTransport_close ops),
     vt_closeSync = (\<lambda>c. WsTransport_closeSync ops),
     vt_isClosed = WsTransport_isClosed ops,
     vt_untilTimerExpiry = (\<lambda>now. WsTransport_untilTimerExpiry (en_time E) now),
     vt_handleTimerExpiry = (\<lambda>c t. Some (WsTransport_handleTimerExpiry E ops (cl_now c) (cl_stamp c) t)),
     vt_updateLatency = (\<lambda>rtt. ws_on_base (BaseTransport_updateLatency (en_time E) D rtt))\<rparr>"

lemma io_keeps_map: "io_keeps S x (map_option f m) \<longleftrightarrow> (\<forall>p. m = Some p \<longrightarrow> keeps S x (f p))"
  by (cases m) auto

lemma with_snd [simp]:
  "with_net n (r, t) = (r, (t, n))"
  "with_rest (r, n, t) = (r, (t, n))"
  "keeps S x (with_net n m) \<longleftrightarrow> S (snd m, n) = x"
  "snd (with_net n m) = (snd m, n)"
  "keeps S x (with_rest m') \<longleftrightarrow> S (snd (snd m'), fst (snd m')) = x"
  by (cases m; cases m'; simp add: with_net_def with_rest_def keeps_def)+

text \<open>What the client of the WebSocket package does on a shutdown.\<close>

locale ws_client_laws =
  fixes ops :: "'c ws_ops"
  assumes closeSync_disconnects: "\<not> wc_isConnected ops (snd (wc_closeSync ops c))"
    and close_disconnects: "\<not> wc_isConnected ops (snd (wc_closeNoAck ops c))"

lemma udp_ops_session:
  shows "io_keeps (vt_session (udp_ops E D)) (vt_session (udp_ops E D) s) (vt_sendMessage (udp_ops E D) c m ctx s)"
    and "io_keeps (vt_session (udp_ops E D)) (vt_session (udp_ops E D) s) (vt_receiveMessage (udp_ops E D) c s)"
    and "io_keeps (vt_session (udp_ops E D)) (vt_session (udp_ops E D) s) (vt_performHandshake (udp_ops E D) c hs s)"
    and "io_keeps (vt_session (udp_ops E D)) (vt_session (udp_ops E D) s) (vt_performReconnect (udp_ops E D) c cid s)"
    and "keeps (vt_session (udp_ops E D)) (vt_session (udp_ops E D) s) (vt_close (udp_ops E D) c s)"
    and "keeps (vt_session (udp_ops E D)) (vt_session (udp_ops E D) s) (vt_closeSync (udp_ops E D) c s)"
    and "io_keeps (vt_session (udp_ops E D)) (vt_session (udp_ops E D) s) (vt_handleTimerExpiry (udp_ops E D) c s)"
proof -
  obtain t n where s: "s = (t, n)"
    by (cases s)
  note keep = s udp_ops_def io_keeps_map with_rest_def
  show "io_keeps (vt_session (udp_ops E D)) (vt_session (udp_ops E D) s) (vt_sendMessage (udp_ops E D) c m ctx s)"
    using UdpTransport_sendMessage_session [of t "udp_session t" E "cl_now c" "cl_stamp c" m ctx]
    by (auto simp: keep io_keeps_def keeps_def)
  show "io_keeps (vt_session (udp_ops E D)) (vt_session (udp_ops E D) s) (vt_receiveMessage (udp_ops E D) c s)"
    by (cases "UdpTransport_receiveMessage E (cl_now c) n t")
      (auto simp: keep dest: UdpTransport_receiveMessage_session)
  show "io_keeps (vt_session (udp_ops E D)) (vt_session (udp_ops E D) s) (vt_performHandshake (udp_ops E D) c hs s)"
    by (auto simp: keep dest: UdpTransport_performHandshake_session)
  show "io_keeps (vt_session (udp_ops E D)) (vt_session (udp_ops E D) s) (vt_performReconnect (udp_ops E D) c cid s)"
    by (auto simp: keep dest: UdpTransport_performReconnect_session)
  show "io_keeps (vt_session (udp_ops E D)) (vt_session (udp_ops E D) s) (vt_handleTimerExpiry (udp_ops E D) c s)"
    using UdpTransport_handleTimerExpiry_session [of t "udp_session t" E "cl_now c" "cl_stamp c"]
    by (auto simp: keep io_keeps_def keeps_def)
  show "keeps (vt_session (udp_ops E D)) (vt_session (udp_ops E D) s) (vt_close (udp_ops E D) c s)"
    "keeps (vt_session (udp_ops E D)) (vt_session (udp_ops E D) s) (vt_closeSync (udp_ops E D) c s)"
    by (simp_all add: keep UdpTransport_closeSync_def)
qed

interpretation udp_transport: closing_laws "udp_ops E D" for E D
  by unfold_locales
    (use udp_ops_session in \<open>auto simp: udp_ops_def UdpTransport_closeSync_def UdpTransport_isClosed_def on_base_def\<close>)

lemma tcp_ops_session:
  shows "io_keeps (vt_session (tcp_ops E D B)) (vt_session (tcp_ops E D B) s) (vt_sendMessage (tcp_ops E D B) c m ctx s)"
    and "io_keeps (vt_session (tcp_ops E D B)) (vt_session (tcp_ops E D B) s) (vt_receiveMessage (tcp_ops E D B) c s)"
    and "io_keeps (vt_session (tcp_ops E D B)) (vt_session (tcp_ops E D B) s) (vt_performHandshake (tcp_ops E D B) c hs s)"
    and "io_keeps (vt_session (tcp_ops E D B)) (vt_session (tcp_ops E D B) s) (vt_performReconnect (tcp_ops E D B) c cid s)"
    and "keeps (vt_session (tcp_ops E D B)) (vt_session (tcp_ops E D B) s) (vt_close (tcp_ops E D B) c s)"
    and "keeps (vt_session (tcp_ops E D B)) (vt_session (tcp_ops E D B) s) (vt_closeSync (tcp_ops E D B) c s)"
    and "io_keeps (vt_session (tcp_ops E D B)) (vt_session (tcp_ops E D B) s) (vt_handleTimerExpiry (tcp_ops E D B) c s)"
proof -
  obtain t n where s: "s = (t, n)"
    by (cases s)
  note keep = s tcp_ops_def io_keeps_map with_rest_def
  show "io_keeps (vt_session (tcp_ops E D B)) (vt_session (tcp_ops E D B) s) (vt_sendMessage (tcp_ops E D B) c m ctx s)"
    using TcpTransport_sendMessage_session [of t "ss_session t" E "cl_now c" "cl_stamp c" m ctx]
    by (simp add: keep keeps_def)
  show "io_keeps (vt_session (tcp_ops E D B)) (vt_session (tcp_ops E D B) s) (vt_receiveMessage (tcp_ops E D B) c s)"
    "io_keeps (vt_session (tcp_ops E D B)) (vt_session (tcp_ops E D B) s) (vt_performHandshake (tcp_ops E D B) c hs s)"
    "io_keeps (vt_session (tcp_ops E D B)) (vt_session (tcp_ops E D B) s) (vt_performReconnect (tcp_ops E D B) c cid s)"
    by (auto simp: keep dest: TcpTransport_answers_session [OF refl])
  show "io_keeps (vt_session (tcp_ops E D B)) (vt_session (tcp_ops E D B) s) (vt_handleTimerExpiry (tcp_ops E D B) c s)"
    using TcpTransport_handleTimerExpiry_session [of t "ss_session t" E "cl_now c" "cl_stamp c"]
    by (simp add: keep keeps_def)
  show "keeps (vt_session (tcp_ops E D B)) (vt_session (tcp_ops E D B) s) (vt_close (tcp_ops E D B) c s)"
    "keeps (vt_session (tcp_ops E D B)) (vt_session (tcp_ops E D B) s) (vt_closeSync (tcp_ops E D B) c s)"
    using TcpTransport_closeSync_session [of t "ss_session t" "cl_shutdown c"]
    by (simp_all add: keep keeps_def)
qed

interpretation tcp_transport: closing_laws "tcp_ops E D B" for E D B
  by unfold_locales
    (use tcp_ops_session in \<open>auto simp: tcp_ops_def TcpTransport_closeSync_def TcpTransport_isClosed_def ss_on_base_def\<close>)

lemma websocket_ops_session:
  shows "io_keeps (vt_session (websocket_ops E D ops)) (vt_session (websocket_ops E D ops) s) (vt_sendMessage (websocket_ops E D ops) c m ctx s)"
    and "io_keeps (vt_session (websocket_ops E D ops)) (vt_session (websocket_ops E D ops) s) (vt_receiveMessage (websocket_ops E D ops) c s)"
    and "io_keeps (vt_session (websocket_ops E D ops)) (vt_session (websocket_ops E D ops) s) (vt_performHandshake (websocket_ops E D ops) c hs s)"
    and "io_keeps (vt_session (websocket_ops E D ops)) (vt_session (websocket_ops E D ops) s) (vt_performReconnect (websocket_ops E D ops) c cid s)"
    and "keeps (vt_session (websocket_ops E D ops)) (vt_session (websocket_ops E D ops) s) (vt_close (websocket_ops E D ops) c s)"
    and "keeps (vt_session (websocket_ops E D ops)) (vt_session (websocket_ops E D ops) s) (vt_closeSync (websocket_ops E D ops) c s)"
    and "io_keeps (vt_session (websocket_ops E D ops)) (vt_session (websocket_ops E D ops) s) (vt_handleTimerExpiry (websocket_ops E D ops) c s)"
  using WsTransport_sendMessage_session [OF refl, of s E ops "cl_now c" "cl_stamp c" m ctx]
    WsTransport_timer_close_session [OF refl, of s]
    WsTransport_receiveMessage_session [OF refl, of s E ops "cl_now c"]
    WsTransport_answers_session [OF refl, of s E ops "cl_now c" "cl_stamp c"]
  by (auto simp: websocket_ops_def)

context ws_client_laws
begin

lemma websocket_transport: "closing_laws (websocket_ops E D ops)"
proof
  show "vt_isClosed (websocket_ops E D ops) (snd (vt_closeSync (websocket_ops E D ops) c s))"
    "vt_isClosed (websocket_ops E D ops) (snd (vt_close (websocket_ops E D ops) c s))" for c s
    using closeSync_disconnects [of "ws_client s"] close_disconnects [of "ws_client s"]
    by (auto simp: websocket_ops_def WsTransport_closeSync_def WsTransport_close_def WsTransport_isClosed_def
        ws_call_def step_then_def split: prod.split sum.split)
qed (use websocket_ops_session in \<open>auto simp: websocket_ops_def ws_on_base_def\<close>)

end

text \<open>A client that keeps what it sent and what it will receive.\<close>

record sample_client =
  sc_open :: bool
  sc_sent :: "bytes list"
  sc_coming :: "ws_message list"

definition sample_ws :: "sample_client ws_ops" where
  "sample_ws = \<lparr>wc_isConnected = sc_open,
     wc_send = (\<lambda>data c. if sc_open c then (Ok (), c\<lparr>sc_sent := sc_sent c @ [data]\<rparr>) else (Err ''closed'', c)),
     wc_recv = (\<lambda>c. case sc_coming c of [] \<Rightarrow> (None, c) | m # ms \<Rightarrow> (Some (Ok m), c\<lparr>sc_coming := ms\<rparr>)),
     wc_closeNoAck = (\<lambda>c. (Ok (), c\<lparr>sc_open := False\<rparr>)),
     wc_closeSync = (\<lambda>c. (Ok (), c\<lparr>sc_open := False\<rparr>))\<rparr>"

interpretation sample_ws: ws_client_laws sample_ws
  by unfold_locales (simp_all add: sample_ws_def)

interpretation websocket_transport: closing_laws "websocket_ops E D sample_ws" for E D
  by (rule sample_ws.websocket_transport)

end
