(* ===== verification/Quic_Stream.thy ===== *)
theory Quic_Stream
  imports Stream_Common
begin

text \<open>
  The stream of the QUIC transport (\<open>transport/quic/QuicStream.hpp\<close>,
  \<open>transport/quic/QuicStream.cpp\<close>): a send buffer whose front has been handed to ngtcp2 and not
  yet been acknowledged, a receive buffer, and the offsets in the stream.  The circular buffer is
  that of \<open>Stream_Common\<close> with the operations that a QUIC stream uses besides.

  The user writes and reads while the worker of the connection sends and receives.  The relation
  \<open>stream_step\<close> has every interleaving that the locks allow: the lock of the send buffer is held
  from the look at the unsent bytes until ngtcp2 has them, but not until they are counted.
\<close>

section \<open>The circular buffer\<close>

text \<open>\<open>write\<close> appends and grows the buffer when it must; \<open>skip\<close> of a wrapped read drops bytes
  from the front of its two parts; a buffer that was moved from is whatever the package leaves.\<close>

record 'b quic_ring_ops =
  qr_ring :: "'b ring_ops"
  qr_append :: "bytes \<Rightarrow> 'b \<Rightarrow> 'b"
  qr_skipRead :: "nat \<Rightarrow> bytes \<times> bytes \<Rightarrow> bytes \<times> bytes"
  qr_moved :: "'b \<Rightarrow> 'b"

definition both :: "bytes \<times> bytes \<Rightarrow> bytes" where
  "both wrp = fst wrp @ snd wrp"

locale quic_ring_laws = ring_laws "qr_ring Q" contents
  for Q :: "'b quic_ring_ops" and contents :: "'b \<Rightarrow> bytes" +
  assumes ring_append [simp]: "contents (qr_append Q bs r) = contents r @ bs"
    and ring_fits: "length (contents r) \<le> rg_capacity (qr_ring Q) r"
    and ring_stays: "length (contents r) + length bs \<le> rg_capacity (qr_ring Q) r \<Longrightarrow>
      rg_capacity (qr_ring Q) (qr_append Q bs r) = rg_capacity (qr_ring Q) r"
    and ring_skipRead: "n \<le> length (both wrp) \<Longrightarrow> both (qr_skipRead Q n wrp) = drop n (both wrp)"

section \<open>State\<close>

definition INITIAL_BUFFER_SIZE :: nat where "INITIAL_BUFFER_SIZE = 16384"
definition MAX_BUFFER_SIZE :: u64 where "MAX_BUFFER_SIZE = 1024 * 1024 * 16"

record 'b QuicStream =
  qs_streamId :: int
  qs_closed :: bool
  qs_sendBuffer :: 'b
  qs_recvBuffer :: 'b
  qs_ackOffset :: u64
  qs_unackedBytes :: u64
  qs_streamOffset :: u64

definition QuicStream_new :: "'b quic_ring_ops \<Rightarrow> int \<Rightarrow> 'b QuicStream" where
  "QuicStream_new Q streamId = \<lparr>qs_streamId = streamId, qs_closed = False,
     qs_sendBuffer = rg_new (qr_ring Q) INITIAL_BUFFER_SIZE,
     qs_recvBuffer = rg_new (qr_ring Q) INITIAL_BUFFER_SIZE,
     qs_ackOffset = 0, qs_unackedBytes = 0, qs_streamOffset = 0\<rparr>"

text \<open>The move assignment of different streams: the stream, and what the other one is left with.\<close>

definition QuicStream_move :: "'b quic_ring_ops \<Rightarrow> 'b QuicStream \<Rightarrow> 'b QuicStream \<Rightarrow>
    'b QuicStream \<times> 'b QuicStream" where
  "QuicStream_move Q s other =
     (s\<lparr>qs_streamId := qs_streamId other, qs_closed := qs_closed other,
        qs_sendBuffer := qs_sendBuffer other, qs_recvBuffer := qs_recvBuffer other\<rparr>,
      other\<lparr>qs_streamId := - 1, qs_sendBuffer := qr_moved Q (qs_sendBuffer other),
        qs_recvBuffer := qr_moved Q (qs_recvBuffer other)\<rparr>)"

text \<open>\<open>shutdown\<close> is \<open>ngtcp2_conn_shutdown_stream\<close> with the error code 1.\<close>

definition QuicStream_close :: "(int \<Rightarrow> 'n \<Rightarrow> 'n) \<Rightarrow> 'b QuicStream \<Rightarrow> 'n \<Rightarrow> 'b QuicStream \<times> 'n" where
  "QuicStream_close shutdown s conn =
     (if qs_closed s \<or> qs_streamId s = - 1 then (s, conn)
      else let s = s\<lparr>qs_closed := True\<rparr> in (s, shutdown (qs_streamId s) conn))"

definition QuicStream_destroy :: "(int \<Rightarrow> 'n \<Rightarrow> 'n) \<Rightarrow> 'b QuicStream \<Rightarrow> 'n \<Rightarrow> 'n" where
  "QuicStream_destroy shutdown s conn =
     (if qs_streamId s \<noteq> - 1 \<and> \<not> qs_closed s then snd (QuicStream_close shutdown s conn) else conn)"

definition QuicStream_id :: "'b QuicStream \<Rightarrow> int" where
  "QuicStream_id s = qs_streamId s"

section \<open>Amounts\<close>

definition unreadBytes :: "'b quic_ring_ops \<Rightarrow> 'b QuicStream \<Rightarrow> u64" where
  "unreadBytes Q s = (if qs_closed s then 0 else of_nat (rg_size (qr_ring Q) (qs_recvBuffer s)))"

definition unflushedBytes :: "'b quic_ring_ops \<Rightarrow> 'b QuicStream \<Rightarrow> u64" where
  "unflushedBytes Q s =
     (if qs_closed s then 0 else of_nat (rg_size (qr_ring Q) (qs_sendBuffer s)) - qs_unackedBytes s)"

definition unackedBytes :: "'b QuicStream \<Rightarrow> u64" where
  "unackedBytes s = qs_unackedBytes s"

definition sendCapacity :: "'b quic_ring_ops \<Rightarrow> 'b QuicStream \<Rightarrow> u64" where
  "sendCapacity Q s =
     (if 0 < unackedBytes s then of_nat (rg_capacity (qr_ring Q) (qs_sendBuffer s)) else MAX_BUFFER_SIZE) -
     of_nat (rg_size (qr_ring Q) (qs_sendBuffer s))"

section \<open>The user's side\<close>

definition QuicStream_write :: "'b quic_ring_ops \<Rightarrow> bytes \<Rightarrow> 'b QuicStream \<Rightarrow> nat \<times> 'b QuicStream" where
  "QuicStream_write Q data s =
     (let maxWrite = sendCapacity Q s in
      if maxWrite = 0 then (0, s)
      else
        let toWrite = min (length data) (unat maxWrite)
        in (toWrite, s\<lparr>qs_sendBuffer := qr_append Q (take toWrite data) (qs_sendBuffer s)\<rparr>))"

definition QuicStream_read :: "'b quic_ring_ops \<Rightarrow> nat \<Rightarrow> 'b QuicStream \<Rightarrow> bytes \<times> 'b QuicStream" where
  "QuicStream_read Q len s =
     (let recvbuf = qs_recvBuffer s;
          toRead = min len (rg_size (qr_ring Q) recvbuf)
      in if toRead = 0 then ([], s)
         else (rg_peek (qr_ring Q) recvbuf toRead,
               s\<lparr>qs_recvBuffer := rg_skip (qr_ring Q) toRead recvbuf\<rparr>))"

text \<open>The waiting loops look at the stream at once and at every notification: the list has the
  stream as it is each time, and what is left of it where the loop ends.\<close>

fun QuicStream_pollWritable :: "'b quic_ring_ops \<Rightarrow> 'b QuicStream list \<Rightarrow> 'b QuicStream list option" where
  "QuicStream_pollWritable Q [] = None"
| "QuicStream_pollWritable Q (s # later) =
     (if sendCapacity Q s = 0 then QuicStream_pollWritable Q later else Some (s # later))"

fun QuicStream_pollReadable :: "'b quic_ring_ops \<Rightarrow> 'b QuicStream list \<Rightarrow> 'b QuicStream list option" where
  "QuicStream_pollReadable Q [] = None"
| "QuicStream_pollReadable Q (s # later) =
     (if unreadBytes Q s = 0 then QuicStream_pollReadable Q later else Some (s # later))"

section \<open>The worker's side\<close>

definition QuicStream_onReceivedData :: "'b quic_ring_ops \<Rightarrow> bytes \<Rightarrow> 'b QuicStream \<Rightarrow> 'b QuicStream" where
  "QuicStream_onReceivedData Q data s =
     (let recvbuf = qs_recvBuffer s;
          spaceUntilMax = MAX_BUFFER_SIZE - of_nat (rg_size (qr_ring Q) recvbuf)
      in if length data < unat spaceUntilMax then s\<lparr>qs_recvBuffer := qr_append Q data recvbuf\<rparr>
         else s)"

definition QuicStream_onAck :: "'b quic_ring_ops \<Rightarrow> u64 \<Rightarrow> u64 \<Rightarrow> 'b QuicStream \<Rightarrow>
    unit TransportResult \<times> 'b QuicStream" where
  "QuicStream_onAck Q offset ackedBytes s =
     (let unacked = qs_unackedBytes s - ackedBytes;
          s = s\<lparr>qs_sendBuffer := rg_skip (qr_ring Q) (unat ackedBytes) (qs_sendBuffer s),
                qs_unackedBytes := unacked, qs_ackOffset := offset + ackedBytes\<rparr>
      in step_then (qn_assert (qs_ackOffset s \<le> qs_streamOffset s) (Ok ()), s) (\<lambda>_ s.
         step_then (qn_assert (unacked = qs_streamOffset s - qs_ackOffset s) (Ok ()), s) (\<lambda>_ s. (Ok (), s))))"

definition peekUnsentData :: "'b quic_ring_ops \<Rightarrow> 'b QuicStream \<Rightarrow> bytes \<times> bytes" where
  "peekUnsentData Q s =
     (let sndbuf = qs_sendBuffer s;
          wrp = rg_peekWrapped (qr_ring Q) sndbuf (rg_size (qr_ring Q) sndbuf)
      in qr_skipRead Q (unat (qs_unackedBytes s)) wrp)"

definition advanceSentData :: "nat \<Rightarrow> 'b QuicStream \<Rightarrow> 'b QuicStream" where
  "advanceSentData len s = s\<lparr>qs_unackedBytes := qs_unackedBytes s + of_nat len,
     qs_streamOffset := qs_streamOffset s + of_nat len\<rparr>"

section \<open>Interleavings\<close>

text \<open>The worker waits, or ngtcp2 has taken bytes that are not yet counted: the datagram is on its
  way, or sending it failed, and then the worker has ended.\<close>

datatype worker_phase = Waiting | Sending nat | Failed_sending nat

fun uncounted :: "worker_phase \<Rightarrow> nat" where
  "uncounted Waiting = 0"
| "uncounted (Sending n) = n"
| "uncounted (Failed_sending n) = n"

text \<open>A stream with what happened to it: the bytes that \<open>write\<close> accepted, the bytes that ngtcp2
  took and how many of them it acknowledged, the bytes that came from the peer and what \<open>read\<close>
  returned.\<close>

record 'b stream_run =
  sr_stream :: "'b QuicStream"
  sr_phase :: worker_phase
  sr_accepted :: bytes
  sr_handed :: bytes
  sr_acked :: nat
  sr_received :: bytes
  sr_delivered :: bytes

definition stream_start :: "'b quic_ring_ops \<Rightarrow> int \<Rightarrow> 'b stream_run" where
  "stream_start Q streamId = \<lparr>sr_stream = QuicStream_new Q streamId, sr_phase = Waiting, sr_accepted = [],
     sr_handed = [], sr_acked = 0, sr_received = [], sr_delivered = []\<rparr>"

text \<open>ngtcp2 takes at most the bytes that it is offered, and it reports acknowledgements without
  gaps and only of bytes that it took.\<close>

definition legal_ack :: "'b stream_run \<Rightarrow> nat \<Rightarrow> nat \<Rightarrow> bool" where
  "legal_ack r offset n \<longleftrightarrow> sr_phase r = Waiting \<and> offset = sr_acked r \<and> offset + n \<le> length (sr_handed r)"

inductive stream_step :: "'b quic_ring_ops \<Rightarrow> 'b stream_run \<Rightarrow> 'b stream_run \<Rightarrow> bool" for Q where
  user_writes: "QuicStream_write Q data (sr_stream r) = (n, s) \<Longrightarrow>
    stream_step Q r (r\<lparr>sr_stream := s, sr_accepted := sr_accepted r @ take n data\<rparr>)"
| user_reads: "QuicStream_read Q len (sr_stream r) = (bs, s) \<Longrightarrow>
    stream_step Q r (r\<lparr>sr_stream := s, sr_delivered := sr_delivered r @ bs\<rparr>)"
| user_closes: "stream_step Q r (r\<lparr>sr_stream := fst (QuicStream_close shutdown (sr_stream r) ())\<rparr>)"
| worker_sends: "sr_phase r = Waiting \<Longrightarrow> both (peekUnsentData Q (sr_stream r)) = unsent \<Longrightarrow> n \<le> length unsent \<Longrightarrow>
    stream_step Q r (r\<lparr>sr_phase := Sending n, sr_handed := sr_handed r @ take n unsent\<rparr>)"
| worker_sent: "sr_phase r = Sending n \<Longrightarrow>
    stream_step Q r (r\<lparr>sr_stream := advanceSentData n (sr_stream r), sr_phase := Waiting\<rparr>)"
| worker_fails: "sr_phase r = Sending n \<Longrightarrow> stream_step Q r (r\<lparr>sr_phase := Failed_sending n\<rparr>)"
| acknowledged: "legal_ack r offset n \<Longrightarrow>
    QuicStream_onAck Q (of_nat offset) (of_nat n) (sr_stream r) = (res, s) \<Longrightarrow>
    stream_step Q r (r\<lparr>sr_stream := s, sr_acked := offset + n\<rparr>)"
| received: "sr_phase r = Waiting \<Longrightarrow>
    stream_step Q r (r\<lparr>sr_stream := QuicStream_onReceivedData Q data (sr_stream r),
      sr_received := sr_received r @ data\<rparr>)"


section \<open>What the stream keeps\<close>

text \<open>The abstract view is the sequence of accepted bytes with two marks in it: what lies before
  the first was acknowledged, what lies before the second was handed to ngtcp2.\<close>

definition stream_inv :: "('b \<Rightarrow> bytes) \<Rightarrow> 'b stream_run \<Rightarrow> bool" where
  "stream_inv contents r \<longleftrightarrow>
     (let s = sr_stream r in
      sr_handed r = take (length (sr_handed r)) (sr_accepted r) \<and>
      contents (qs_sendBuffer s) = drop (sr_acked r) (sr_accepted r) \<and>
      unat (qs_ackOffset s) = sr_acked r \<and>
      unat (qs_streamOffset s) + uncounted (sr_phase r) = length (sr_handed r) \<and>
      sr_acked r + unat (qs_unackedBytes s) = unat (qs_streamOffset s))"

lemma stream_invD:
  assumes "stream_inv contents r"
  shows "sr_handed r = take (length (sr_handed r)) (sr_accepted r)"
    and "contents (qs_sendBuffer (sr_stream r)) = drop (sr_acked r) (sr_accepted r)"
    and "unat (qs_ackOffset (sr_stream r)) = sr_acked r"
    and "unat (qs_streamOffset (sr_stream r)) + uncounted (sr_phase r) = length (sr_handed r)"
    and "sr_acked r + unat (qs_unackedBytes (sr_stream r)) = unat (qs_streamOffset (sr_stream r))"
    and "length (sr_handed r) \<le> length (sr_accepted r)"
  using assms by (auto simp: stream_inv_def Let_def dest: arg_cong [where f = length])

text \<open>Numbers that stay within the width.\<close>

lemma unat_of_nat64: "n < 2 ^ 64 \<Longrightarrow> unat (of_nat n :: u64) = n"
  by (simp add: unat_of_nat take_bit_nat_eq_self)

lemma unat_add_of_nat:
  fixes w :: u64
  assumes "unat w + n < 2 ^ 64"
  shows "unat (w + of_nat n) = unat w + n"
proof -
  have "unat (of_nat n :: u64) = n"
    using assms by (simp add: unat_of_nat64)
  with assms show ?thesis
    by (subst unat_plus_simple [THEN iffD1]) (simp_all add: no_olen_add_nat)
qed

lemma QuicStream_close_fields [simp]:
  "qs_sendBuffer (fst (QuicStream_close f s c)) = qs_sendBuffer s"
  "qs_recvBuffer (fst (QuicStream_close f s c)) = qs_recvBuffer s"
  "qs_ackOffset (fst (QuicStream_close f s c)) = qs_ackOffset s"
  "qs_unackedBytes (fst (QuicStream_close f s c)) = qs_unackedBytes s"
  "qs_streamOffset (fst (QuicStream_close f s c)) = qs_streamOffset s"
  by (simp_all add: QuicStream_close_def Let_def)

lemma QuicStream_onReceivedData_fields [simp]:
  "qs_sendBuffer (QuicStream_onReceivedData Q d s) = qs_sendBuffer s"
  "qs_ackOffset (QuicStream_onReceivedData Q d s) = qs_ackOffset s"
  "qs_unackedBytes (QuicStream_onReceivedData Q d s) = qs_unackedBytes s"
  "qs_streamOffset (QuicStream_onReceivedData Q d s) = qs_streamOffset s"
  by (simp_all add: QuicStream_onReceivedData_def Let_def)

lemma QuicStream_read_fields:
  assumes "QuicStream_read Q len s = (bs, s')"
  shows "qs_sendBuffer s' = qs_sendBuffer s" "qs_ackOffset s' = qs_ackOffset s"
    "qs_unackedBytes s' = qs_unackedBytes s" "qs_streamOffset s' = qs_streamOffset s"
  using assms by (auto simp: QuicStream_read_def Let_def split: if_splits)

context quic_ring_laws
begin

text \<open>The bytes of the send buffer that ngtcp2 does not have.\<close>

lemma peekUnsentData_drop:
  assumes "unat (qs_unackedBytes s) \<le> length (contents (qs_sendBuffer s))"
  shows "both (peekUnsentData Q s) = drop (unat (qs_unackedBytes s)) (contents (qs_sendBuffer s))"
proof -
  let ?r = "qs_sendBuffer s"
  obtain p q where "rg_peekWrapped (qr_ring Q) ?r (length (contents ?r)) = (p, q)"
    "p @ q = contents ?r"
    using ring_peekWrapped [of "length (contents ?r)" ?r] by auto
  with ring_skipRead [of "unat (qs_unackedBytes s)" "(p, q)"] assms show ?thesis
    by (simp add: peekUnsentData_def both_def)
qed

lemma QuicStream_write_effect:
  assumes "QuicStream_write Q data s = (n, s')"
  shows "contents (qs_sendBuffer s') = contents (qs_sendBuffer s) @ take n data"
    and "n \<le> length data"
    and "qs_recvBuffer s' = qs_recvBuffer s" "qs_ackOffset s' = qs_ackOffset s"
    and "qs_unackedBytes s' = qs_unackedBytes s" "qs_streamOffset s' = qs_streamOffset s"
  using assms by (auto simp: QuicStream_write_def Let_def split: if_splits)

text \<open>While bytes are unacknowledged the buffer is not enlarged, so the memory of these bytes,
  which ngtcp2 points into, stays where it is.\<close>

lemma write_keeps_memory:
  assumes "QuicStream_write Q data s = (n, s')" and "0 < unackedBytes s"
  shows "rg_capacity (qr_ring Q) (qs_sendBuffer s') = rg_capacity (qr_ring Q) (qs_sendBuffer s)"
proof (cases "sendCapacity Q s = 0")
  case True
  then show ?thesis
    using assms(1) by (simp add: QuicStream_write_def)
next
  case False
  let ?r = "qs_sendBuffer s"
  have le: "length (contents ?r) \<le> rg_capacity (qr_ring Q) ?r"
    by (rule ring_fits)
  have "sendCapacity Q s = of_nat (rg_capacity (qr_ring Q) ?r - length (contents ?r))"
    using assms(2) le by (simp add: sendCapacity_def of_nat_diff)
  then have "unat (sendCapacity Q s) \<le> rg_capacity (qr_ring Q) ?r - length (contents ?r)"
    by (simp add: unat_of_nat)
  then have "length (contents ?r) + length (take n data) \<le> rg_capacity (qr_ring Q) ?r"
    using assms(1) False le by (auto simp: QuicStream_write_def Let_def)
  from ring_stays [OF this] show ?thesis
    using assms(1) False by (auto simp: QuicStream_write_def Let_def)
qed

lemma stream_inv_start: "stream_inv contents (stream_start Q streamId)"
  by (simp add: stream_inv_def stream_start_def QuicStream_new_def)

text \<open>A legal acknowledgement meets the assertions of \<open>onAck\<close>.\<close>

lemma onAck_effect:
  assumes inv: "stream_inv contents r" and small: "length (sr_accepted r) < 2 ^ 64"
    and ack: "legal_ack r offset n"
    and res: "QuicStream_onAck Q (of_nat offset) (of_nat n) (sr_stream r) = (res, s)"
  shows "res = Ok ()" and "stream_inv contents (r\<lparr>sr_stream := s, sr_acked := offset + n\<rparr>)"
    and "qs_recvBuffer s = qs_recvBuffer (sr_stream r)"
proof -
  let ?s = "sr_stream r"
  note D = stream_invD [OF inv]
  have ph: "sr_phase r = Waiting" "offset = sr_acked r" "offset + n \<le> length (sr_handed r)"
    using ack by (auto simp: legal_ack_def)
  have so: "unat (qs_streamOffset ?s) = length (sr_handed r)"
    using D(4) ph(1) by simp
  have n: "n \<le> unat (qs_unackedBytes ?s)" "n < 2 ^ 64" "offset + n < 2 ^ 64"
    using D(5,6) ph(2,3) so small by linarith+
  have un: "unat (of_nat n :: u64) = n" and off: "of_nat offset + of_nat n = (of_nat (offset + n) :: u64)"
    using n(2) by (simp_all add: unat_of_nat64)
  have offset: "unat (of_nat (offset + n) :: u64) = offset + n"
    using n(3) by (simp add: unat_of_nat64 del: of_nat_add)
  have un2: "unat (qs_unackedBytes ?s - of_nat n) = unat (qs_unackedBytes ?s) - n"
    using n un by (simp add: unat_sub word_le_nat_alt)
  have le: "of_nat (offset + n) \<le> qs_streamOffset ?s"
    using offset so ph(3) by (simp add: word_le_nat_alt del: of_nat_add)
  have "unat (qs_streamOffset ?s - of_nat (offset + n)) = unat (qs_unackedBytes ?s) - n"
    using unat_sub [OF le] offset D(5) so ph(2) by simp
  then have eq: "qs_unackedBytes ?s - of_nat n = qs_streamOffset ?s - of_nat (offset + n)"
    using un2 by (simp add: word_unat_eq_iff del: of_nat_add)
  have skip: "contents (rg_skip (qr_ring Q) n (qs_sendBuffer ?s)) = drop (offset + n) (sr_accepted r)"
    using D(2,6) ph(2,3) by (simp add: add.commute)
  have onAck: "QuicStream_onAck Q (of_nat offset) (of_nat n) ?s =
      (Ok (), ?s\<lparr>qs_sendBuffer := rg_skip (qr_ring Q) n (qs_sendBuffer ?s),
        qs_unackedBytes := qs_unackedBytes ?s - of_nat n, qs_ackOffset := of_nat (offset + n)\<rparr>)"
    unfolding QuicStream_onAck_def using le eq by (simp add: Let_def un off del: of_nat_add)
  then show "res = Ok ()" "qs_recvBuffer s = qs_recvBuffer ?s"
    using res by (simp_all del: of_nat_add add: prod_eq_iff)
  have s: "s = ?s\<lparr>qs_sendBuffer := rg_skip (qr_ring Q) n (qs_sendBuffer ?s),
        qs_unackedBytes := qs_unackedBytes ?s - of_nat n, qs_ackOffset := of_nat (offset + n)\<rparr>"
    using onAck res by simp
  show "stream_inv contents (r\<lparr>sr_stream := s, sr_acked := offset + n\<rparr>)"
    using D(1,5) so skip offset un2 n(1) ph(1,2)
    by (simp add: stream_inv_def s Let_def del: of_nat_add)
qed

lemma stream_inv_step:
  assumes "stream_step Q r r'" and "stream_inv contents r" and "length (sr_accepted r') < 2 ^ 64"
  shows "stream_inv contents r'"
  using assms
proof (induction rule: stream_step.induct)
  case (user_writes data r n s)
  note D = stream_invD [OF user_writes(2)]
  have "sr_acked r \<le> length (sr_accepted r)"
    using D(4,5,6) by linarith
  then show ?case
    using D QuicStream_write_effect [OF user_writes(1)]
    by (simp add: stream_inv_def Let_def)
next
  case (user_reads len r bs s)
  then show ?case
    using QuicStream_read_fields [OF user_reads(1)] by (simp add: stream_inv_def Let_def)
next
  case (user_closes r shutdown)
  then show ?case
    by (simp add: stream_inv_def Let_def)
next
  case (worker_sends r unsent n)
  note D = stream_invD [OF worker_sends(4)]
  let ?h = "length (sr_handed r)"
  have h: "unat (qs_streamOffset (sr_stream r)) = ?h"
    using D(4) worker_sends(1) by simp
  have "unat (qs_unackedBytes (sr_stream r)) \<le> length (contents (qs_sendBuffer (sr_stream r)))"
    using D(2,5,6) h by simp
  from peekUnsentData_drop [OF this] have unsent: "unsent = drop ?h (sr_accepted r)"
    using D(2,5) h worker_sends(2) by (simp add: add.commute)
  have "sr_handed r @ take n (drop ?h (sr_accepted r)) = take (?h + n) (sr_accepted r)"
    using D(1) by (metis take_add)
  moreover have "length (take n unsent) = n"
    using worker_sends(3) by simp
  ultimately show ?case
    using D h unsent by (simp add: stream_inv_def Let_def)
next
  case (worker_sent r n)
  note D = stream_invD [OF worker_sent(2)]
  have "unat (qs_streamOffset (sr_stream r)) + n < 2 ^ 64"
    "unat (qs_unackedBytes (sr_stream r)) + n < 2 ^ 64"
    using D(4,5,6) worker_sent(1,3) by simp_all
  then show ?case
    using D worker_sent(1) by (simp add: stream_inv_def Let_def advanceSentData_def unat_add_of_nat)
next
  case (worker_fails r n)
  then show ?case
    by (simp add: stream_inv_def Let_def)
next
  case (acknowledged r offset n res s)
  then show ?case
    using onAck_effect(2) by simp
next
  case (received r data)
  then show ?case
    by (simp add: stream_inv_def Let_def)
qed

lemma accepted_grows: "stream_step Q r r' \<Longrightarrow> \<exists>bs. sr_accepted r' = sr_accepted r @ bs"
  by (induction rule: stream_step.induct) auto

lemma stream_inv_reachable:
  assumes "(stream_step Q)\<^sup>*\<^sup>* (stream_start Q streamId) r" and "length (sr_accepted r) < 2 ^ 64"
  shows "stream_inv contents r"
  using assms
proof (induction rule: rtranclp_induct)
  case base
  show ?case
    by (rule stream_inv_start)
next
  case (step r r')
  then show ?case
    using stream_inv_step [OF step(2)] accepted_grows [OF step(2)] by auto
qed

text \<open>The receiving side.\<close>

lemma QuicStream_read_effect:
  assumes "QuicStream_read Q len s = (bs, s')"
  shows "contents (qs_recvBuffer s) = bs @ contents (qs_recvBuffer s')"
  using assms by (auto simp: QuicStream_read_def Let_def split: if_splits)

lemma QuicStream_onReceivedData_effect:
  assumes "length (contents (qs_recvBuffer s)) + length data < 16777216"
  shows "contents (qs_recvBuffer (QuicStream_onReceivedData Q data s)) = contents (qs_recvBuffer s) @ data"
proof -
  let ?n = "length (contents (qs_recvBuffer s))"
  have "unat (MAX_BUFFER_SIZE - of_nat ?n) = 16777216 - ?n"
    using assms by (simp add: MAX_BUFFER_SIZE_def unat_sub word_le_nat_alt unat_of_nat64)
  moreover have "length data < 16777216 - ?n"
    using assms by simp
  ultimately show ?thesis
    by (simp add: QuicStream_onReceivedData_def Let_def)
qed

lemma received_step:
  assumes "stream_step Q r r'" and "length (sr_accepted r') < 2 ^ 64" and "stream_inv contents r"
    and "length (sr_received r') < 16777216"
    and "sr_received r = sr_delivered r @ contents (qs_recvBuffer (sr_stream r))"
  shows "sr_received r' = sr_delivered r' @ contents (qs_recvBuffer (sr_stream r'))"
  using assms
proof (induction rule: stream_step.induct)
  case (user_writes data r n s)
  then show ?case
    using QuicStream_write_effect [OF user_writes(1)] by simp
next
  case (user_reads len r bs s)
  then show ?case
    using QuicStream_read_effect [OF user_reads(1)] by simp
next
  case (acknowledged r offset n res s)
  then show ?case
    using onAck_effect(3) [OF acknowledged(4) _ acknowledged(1,2)] by simp
next
  case (received r data)
  then show ?case
    using QuicStream_onReceivedData_effect [of "sr_stream r" data] by simp
qed (simp_all add: advanceSentData_def)

lemma received_grows: "stream_step Q r r' \<Longrightarrow> \<exists>bs. sr_received r' = sr_received r @ bs"
  by (induction rule: stream_step.induct) auto

lemma received_reachable:
  assumes "(stream_step Q)\<^sup>*\<^sup>* (stream_start Q streamId) r" and "length (sr_accepted r) < 2 ^ 64"
    and "length (sr_received r) < 16777216"
  shows "sr_received r = sr_delivered r @ contents (qs_recvBuffer (sr_stream r))"
  using assms
proof (induction rule: rtranclp_induct)
  case base
  show ?case
    by (simp add: stream_start_def QuicStream_new_def)
next
  case (step r r')
  then show ?case
    using received_step [OF step(2)] accepted_grows [OF step(2)] received_grows [OF step(2)]
      stream_inv_reachable [OF step(1)] by auto
qed

end

section \<open>A reference ring buffer\<close>

text \<open>The bytes and how many more fit.\<close>

definition slack_ring :: "(bytes \<times> nat) quic_ring_ops" where
  "slack_ring = \<lparr>qr_ring =
     \<lparr>rg_new = (\<lambda>n. ([], n)), rg_size = (\<lambda>r. length (fst r)), rg_capacity = (\<lambda>r. length (fst r) + snd r),
      rg_window = snd, rg_reserve = (\<lambda>n r. (fst r, max (snd r) n)),
      rg_write = (\<lambda>bs r. (fst r @ bs, snd r - length bs)),
      rg_peek = (\<lambda>r n. take n (fst r)),
      rg_peekWrapped = (\<lambda>r n. (take ((n + 1) div 2) (fst r), drop ((n + 1) div 2) (take n (fst r)))),
      rg_skip = (\<lambda>n r. (drop n (fst r), snd r + min n (length (fst r))))\<rparr>,
    qr_append = (\<lambda>bs r. (fst r @ bs,
       if length bs \<le> snd r then snd r - length bs else length (fst r) + length bs)),
    qr_skipRead = (\<lambda>n (p, q). (drop n p, drop (n - length p) q)),
    qr_moved = (\<lambda>r. ([], 0))\<rparr>"

interpretation slack_ring: quic_ring_laws slack_ring fst
proof unfold_locales
  fix n :: nat and r :: "bytes \<times> nat"
  assume "n \<le> length (fst r)"
  have "take ((n + 1) div 2) (fst r) = take ((n + 1) div 2) (take n (fst r))"
    by (cases n) (auto simp: min_def)
  then have "take ((n + 1) div 2) (fst r) @ drop ((n + 1) div 2) (take n (fst r)) = take n (fst r)"
    by (metis append_take_drop_id)
  with \<open>n \<le> length (fst r)\<close>
  show "\<exists>p q. rg_peekWrapped (qr_ring slack_ring) r n = (p, q) \<and> p @ q = take n (fst r) \<and> (0 < n \<longrightarrow> p \<noteq> [])"
    by (auto simp: slack_ring_def)
qed (auto simp: slack_ring_def both_def)

section \<open>Properties\<close>

text \<open>C10 (refinement).  A QUIC stream is a pipe with two marks: in every interleaving of the user, the
  worker and the peer, the bytes handed to ngtcp2 are the accepted bytes in order and each once, the
  send buffer holds exactly what is not acknowledged, and whenever the worker waits, what it would
  send next is exactly what was accepted and not yet handed over.\<close>

theorem quic_stream_pipe:
  assumes "quic_ring_laws Q contents" and "(stream_step Q)\<^sup>*\<^sup>* (stream_start Q streamId) r"
    and "length (sr_accepted r) < 2 ^ 64"
  shows "sr_handed r = take (length (sr_handed r)) (sr_accepted r) \<and>
    contents (qs_sendBuffer (sr_stream r)) = drop (sr_acked r) (sr_accepted r) \<and>
    sr_acked r \<le> length (sr_handed r) \<and>
    (sr_phase r = Waiting \<longrightarrow> sr_handed r @ both (peekUnsentData Q (sr_stream r)) = sr_accepted r)"
proof -
  let ?s = "sr_stream r"
  note D = stream_invD [OF quic_ring_laws.stream_inv_reachable [OF assms]]
  have le: "unat (qs_unackedBytes ?s) \<le> length (contents (qs_sendBuffer ?s))"
    using D(2,4,5,6) by simp
  have "sr_handed r @ both (peekUnsentData Q ?s) = sr_accepted r" if "sr_phase r = Waiting"
  proof -
    have "both (peekUnsentData Q ?s) = drop (length (sr_handed r)) (sr_accepted r)"
      using quic_ring_laws.peekUnsentData_drop [OF assms(1) le] D(2,4,5) that by (simp add: add.commute)
    then show ?thesis
      using D(1) by (metis append_take_drop_id)
  qed
  then show ?thesis
    using D by simp
qed

lemma stream_steps: "stream_step Q r r' \<Longrightarrow> (stream_step Q)\<^sup>*\<^sup>* r' r'' \<Longrightarrow> (stream_step Q)\<^sup>*\<^sup>* r r''"
  by (rule converse_rtranclp_into_rtranclp)

text \<open>Three bytes are written, two of them are sent, one of these is acknowledged.\<close>

definition sample_run :: "(bytes \<times> nat) stream_run" where
  "sample_run = \<lparr>sr_stream = \<lparr>qs_streamId = 0, qs_closed = False, qs_sendBuffer = ([2, 3], 16382),
     qs_recvBuffer = ([], 16384), qs_ackOffset = 1, qs_unackedBytes = 1, qs_streamOffset = 2\<rparr>,
     sr_phase = Waiting, sr_accepted = [1, 2, 3], sr_handed = [1, 2], sr_acked = 1,
     sr_received = [], sr_delivered = []\<rparr>"

lemma sample_run_reachable: "(stream_step slack_ring)\<^sup>*\<^sup>* (stream_start slack_ring 0) sample_run"
proof -
  let ?new = "stream_start slack_ring 0"
  let ?s = "(sr_stream ?new)\<lparr>qs_sendBuffer := ([1, 2, 3], 16381)\<rparr>"
  let ?written = "?new\<lparr>sr_stream := ?s, sr_accepted := [1, 2, 3]\<rparr>"
  let ?sending = "?written\<lparr>sr_phase := Sending 2, sr_handed := [1, 2]\<rparr>"
  let ?sent = "?sending\<lparr>sr_stream := advanceSentData 2 ?s, sr_phase := Waiting\<rparr>"
  have 1: "stream_step slack_ring ?new ?written"
    using user_writes [of slack_ring "[1, 2, 3]" ?new 3 ?s]
    by (simp add: stream_start_def QuicStream_new_def QuicStream_write_def slack_ring_def sendCapacity_def
        unackedBytes_def MAX_BUFFER_SIZE_def INITIAL_BUFFER_SIZE_def)
  have 2: "stream_step slack_ring ?written ?sending"
    using worker_sends [of ?written slack_ring "[1, 2, 3]" 2]
    by (simp add: stream_start_def QuicStream_new_def peekUnsentData_def slack_ring_def both_def)
  have 3: "stream_step slack_ring ?sending ?sent"
    using worker_sent [of ?sending 2] by simp
  have 4: "stream_step slack_ring ?sent sample_run"
    using acknowledged [of ?sent 0 1 slack_ring "Ok ()" "sr_stream sample_run"]
    by (simp add: stream_start_def QuicStream_new_def legal_ack_def QuicStream_onAck_def slack_ring_def
        sample_run_def advanceSentData_def INITIAL_BUFFER_SIZE_def)
  show ?thesis
    by (rule stream_steps [OF 1 stream_steps [OF 2 stream_steps [OF 3 stream_steps [OF 4]]]]) simp
qed

theorem quic_stream_pipe_witness:
  "[1, 2] @ both (peekUnsentData slack_ring (sr_stream sample_run)) = [1, 2, 3]"
  using quic_stream_pipe [OF slack_ring.quic_ring_laws_axioms sample_run_reachable]
  by (simp add: sample_run_def)

text \<open>C25 (safety).  ngtcp2 keeps pointers into the send buffer until the bytes are acknowledged: as long
  as the worker waits and some byte that ngtcp2 took is not acknowledged, no write of the user
  enlarges the buffer, which would move its memory; and every acknowledgement that ngtcp2 may
  report meets the assertions of the stream.\<close>

theorem quic_unacked_memory_stays:
  assumes "quic_ring_laws Q contents" and "(stream_step Q)\<^sup>*\<^sup>* (stream_start Q streamId) r"
    and "length (sr_accepted r) < 2 ^ 64" and "sr_phase r = Waiting"
  shows "(sr_acked r < length (sr_handed r) \<longrightarrow>
      rg_capacity (qr_ring Q) (qs_sendBuffer (snd (QuicStream_write Q data (sr_stream r)))) =
      rg_capacity (qr_ring Q) (qs_sendBuffer (sr_stream r))) \<and>
    (offset = sr_acked r \<and> offset + n \<le> length (sr_handed r) \<longrightarrow>
      fst (QuicStream_onAck Q (of_nat offset) (of_nat n) (sr_stream r)) = Ok ())"
proof (intro conjI impI)
  note inv = quic_ring_laws.stream_inv_reachable [OF assms(1-3)]
  note D = stream_invD [OF inv]
  show "rg_capacity (qr_ring Q) (qs_sendBuffer (snd (QuicStream_write Q data (sr_stream r)))) =
      rg_capacity (qr_ring Q) (qs_sendBuffer (sr_stream r))"
    if "sr_acked r < length (sr_handed r)"
  proof -
    have "0 < unackedBytes (sr_stream r)"
      using D(4,5) assms(4) that by (simp add: unackedBytes_def word_less_nat_alt)
    then show ?thesis
      using quic_ring_laws.write_keeps_memory [OF assms(1) surjective_pairing] by simp
  qed
  show "fst (QuicStream_onAck Q (of_nat offset) (of_nat n) (sr_stream r)) = Ok ()"
    if "offset = sr_acked r \<and> offset + n \<le> length (sr_handed r)"
    using quic_ring_laws.onAck_effect(1) [OF assms(1) inv assms(3) _ surjective_pairing, of offset n]
      that assms(4) by (simp add: legal_ack_def)
qed

theorem quic_unacked_memory_stays_witness:
  "rg_capacity (qr_ring slack_ring) (qs_sendBuffer (snd (QuicStream_write slack_ring [4] (sr_stream sample_run)))) =
     16384 \<and>
   fst (QuicStream_onAck slack_ring 1 1 (sr_stream sample_run)) = Ok ()"
proof -
  have "length (sr_accepted sample_run) < 2 ^ 64" "sr_phase sample_run = Waiting"
    by (simp_all add: sample_run_def)
  from quic_unacked_memory_stays [OF slack_ring.quic_ring_laws_axioms sample_run_reachable this, of "[4]" 1 1]
  show ?thesis
    by (simp add: sample_run_def slack_ring_def)
qed

text \<open>The bytes that the peer sends on the stream are read in order and none is lost, as long as they
  are fewer than the 16 MiB that the receive buffer may hold in all.\<close>

theorem quic_receive_complete:
  assumes "quic_ring_laws Q contents" and "(stream_step Q)\<^sup>*\<^sup>* (stream_start Q streamId) r"
    and "length (sr_accepted r) < 2 ^ 64" and "length (sr_received r) < 16777216"
  shows "sr_received r = sr_delivered r @ contents (qs_recvBuffer (sr_stream r))"
  using quic_ring_laws.received_reachable [OF assms] .

theorem quic_receive_complete_witness:
  "sr_received sample_run = sr_delivered sample_run @ fst (qs_recvBuffer (sr_stream sample_run))"
  using quic_receive_complete [OF slack_ring.quic_ring_laws_axioms sample_run_reachable]
  by (simp add: sample_run_def)

text \<open>Bytes that do not fit are dropped, and the stream goes on with the bytes after them.\<close>

theorem quic_receive_drops:
  assumes "unat (MAX_BUFFER_SIZE - of_nat (rg_size (qr_ring Q) (qs_recvBuffer s))) \<le> length data"
  shows "QuicStream_onReceivedData Q data s = s"
  using assms by (simp add: QuicStream_onReceivedData_def Let_def)

text \<open>Between the call of ngtcp2 and \<open>advanceSentData\<close> the bytes that ngtcp2 points to are not counted
  as unacknowledged, and then a write of the user may enlarge the buffer under them.\<close>

definition racing_run :: "(bytes \<times> nat) stream_run" where
  "racing_run = (stream_start slack_ring 0)\<lparr>sr_stream :=
     (QuicStream_new slack_ring 0)\<lparr>qs_sendBuffer := ([1, 2, 3], 16381)\<rparr>,
     sr_accepted := [1, 2, 3], sr_phase := Sending 3, sr_handed := [1, 2, 3]\<rparr>"

theorem write_moves_memory_in_flight:
  "(stream_step slack_ring)\<^sup>*\<^sup>* (stream_start slack_ring 0) racing_run \<and>
   sr_acked racing_run < length (sr_handed racing_run) \<and>
   rg_capacity (qr_ring slack_ring) (qs_sendBuffer (sr_stream racing_run)) <
     rg_capacity (qr_ring slack_ring)
       (qs_sendBuffer (snd (QuicStream_write slack_ring (replicate 16382 0) (sr_stream racing_run))))"
proof (intro conjI)
  let ?new = "stream_start slack_ring 0"
  let ?s = "(sr_stream ?new)\<lparr>qs_sendBuffer := ([1, 2, 3], 16381)\<rparr>"
  let ?written = "?new\<lparr>sr_stream := ?s, sr_accepted := [1, 2, 3]\<rparr>"
  have 1: "stream_step slack_ring ?new ?written"
    using user_writes [of slack_ring "[1, 2, 3]" ?new 3 ?s]
    by (simp add: stream_start_def QuicStream_new_def QuicStream_write_def slack_ring_def sendCapacity_def
        unackedBytes_def MAX_BUFFER_SIZE_def INITIAL_BUFFER_SIZE_def)
  have 2: "stream_step slack_ring ?written racing_run"
    using worker_sends [of ?written slack_ring "[1, 2, 3]" 3]
    by (simp add: stream_start_def QuicStream_new_def peekUnsentData_def slack_ring_def both_def racing_run_def)
  show "(stream_step slack_ring)\<^sup>*\<^sup>* ?new racing_run"
    by (rule stream_steps [OF 1 stream_steps [OF 2]]) simp
  show "sr_acked racing_run < length (sr_handed racing_run)"
    by (simp add: racing_run_def stream_start_def)
  show "rg_capacity (qr_ring slack_ring) (qs_sendBuffer (sr_stream racing_run)) <
     rg_capacity (qr_ring slack_ring)
       (qs_sendBuffer (snd (QuicStream_write slack_ring (replicate 16382 0) (sr_stream racing_run))))"
    by (simp add: racing_run_def QuicStream_new_def QuicStream_write_def sendCapacity_def unackedBytes_def
        slack_ring_def MAX_BUFFER_SIZE_def Let_def)
qed

text \<open>A moved stream forgets what is in flight: the bytes that ngtcp2 already took are offered again.\<close>

lemma moved_stream_offers_again:
  "both (peekUnsentData slack_ring (fst (QuicStream_move slack_ring (QuicStream_new slack_ring 0) (sr_stream sample_run)))) =
     [2, 3]"
  by (simp add: QuicStream_move_def QuicStream_new_def sample_run_def peekUnsentData_def slack_ring_def both_def)

end
