(* ===== verification/Quic_Connection.thy ===== *)
theory Quic_Connection
  imports Quic_Stream
begin

text \<open>
  The QUIC connection (\<open>transport/quic/QuicConnection.hpp\<close>,
  \<open>transport/quic/QuicConnection.cpp\<close>): the operations of the user on its streams, and the worker
  that moves bytes between the streams, ngtcp2 and the socket.

  ngtcp2 is a third-party package: its state has the type \<open>'n\<close> and its functions are the record
  \<open>ngtcp2_ops\<close>.  A call that writes a packet returns its error code or the datagram, which is empty
  where ngtcp2 has nothing to send; a call that reads a packet also returns the callbacks that it
  made, in order.  The socket is modelled by what it answers to the n-th datagram and by the
  datagrams that it accepted.  Times are the nanoseconds of \<open>timestamp()\<close>.  The streams are listed
  in the order in which the code visits them.
\<close>

section \<open>ngtcp2\<close>

datatype ngtcp2_event =
    RecvStreamData int bytes
  | AckedStreamData int u64 u64
  | StreamClosed int

record QuicSettings =
  qs_initialTs :: u64
  qs_handshakeTimeout :: u64
  qs_initialPktNum :: u32
  qs_verbose :: bool

record QuicParams =
  qp_maxStreamDataBidiLocal :: nat
  qp_maxStreamDataBidiRemote :: nat
  qp_maxStreamDataUni :: nat
  qp_maxData :: nat
  qp_maxStreamsBidi :: nat
  qp_maxStreamsUni :: nat
  qp_maxDatagramFrameSize :: nat
  qp_maxIdleTimeout :: nat
  qp_activeConnectionIdLimit :: nat
  qp_greaseQuicBit :: nat
  qp_maxAckDelay :: nat

record 'n ngtcp2_ops =
  ng_strerror :: "int \<Rightarrow> string"
  ng_STREAM_DATA_BLOCKED :: int
  ng_FLOW_CONTROL :: int
  ng_IDLE_CLOSE :: int
  ng_CRYPTO :: int
  ng_client_new :: "QuicSettings \<Rightarrow> QuicParams \<Rightarrow> int \<times> 'n"
  ng_handshake_completed :: "'n \<Rightarrow> bool"
  ng_handle_expiry :: "u64 \<Rightarrow> 'n \<Rightarrow> int \<times> 'n"
  ng_get_expiry :: "'n \<Rightarrow> u64"
  ng_open_bidi_stream :: "'n \<Rightarrow> (int \<times> int) \<times> 'n"
  ng_shutdown_stream :: "int \<Rightarrow> 'n \<Rightarrow> 'n"
  ng_write_pkt :: "u64 \<Rightarrow> 'n \<Rightarrow> (int + bytes) \<times> 'n"
  ng_writev_stream :: "u64 \<Rightarrow> bool \<Rightarrow> int \<Rightarrow> bytes list \<Rightarrow> 'n \<Rightarrow> (int + bytes \<times> int) \<times> 'n"
  ng_write_connection_close :: "u64 \<Rightarrow> nat \<Rightarrow> 'n \<Rightarrow> (int + bytes) \<times> 'n"
  ng_update_pkt_tx_time :: "u64 \<Rightarrow> 'n \<Rightarrow> 'n"
  ng_read_pkt :: "u64 \<Rightarrow> bytes \<Rightarrow> 'n \<Rightarrow> (int \<times> ngtcp2_event list) \<times> 'n"
  ng_lastTlsError :: "'n \<Rightarrow> string"

record ('n, 'b, 'd, 'i, 'f) quic_env =
  qv_ngtcp2 :: "'n ngtcp2_ops"
  qv_ring :: "'b quic_ring_ops"
  qv_time :: "('d, 'i, 'f) time_ops"
  qv_chance :: "'f \<Rightarrow> nat \<Rightarrow> bool"
  qv_send :: "nat \<Rightarrow> bytes \<Rightarrow> unit TransportResult"

section \<open>State\<close>

text \<open>\<open>qc_conn\<close> is None where the pointer is null or what it points to was deleted; using it then is
  an access to memory that is not there.\<close>

record ('n, 'b, 'f) QuicConnection =
  qc_conn :: "'n option"
  qc_connectDeadline :: u64
  qc_nextExpiry :: u64
  qc_streams :: "(int \<times> 'b QuicStream) list"
  qc_mainStreamId :: int
  qc_lossSimulation :: 'f
  qc_closed :: bool
  qc_closing :: bool
  qc_totalBytesSent :: u64
  qc_totalBytesReceived :: u64
  qc_lastSendAttempt :: u64
  qc_workerTask :: bool
  qc_workerRunning :: bool
  qc_connected :: bool
  qc_congestion :: bool
  qc_fatalError :: "TransportError option"
  qc_cancelled :: bool
  qc_attempts :: nat
  qc_wire :: "bytes list"

definition QuicConnection_new :: "u64 \<Rightarrow> 'f \<Rightarrow> ('n, 'b, 'f) QuicConnection" where
  "QuicConnection_new now noLoss =
     \<lparr>qc_conn = None, qc_connectDeadline = 0, qc_nextExpiry = 0, qc_streams = [], qc_mainStreamId = - 1,
      qc_lossSimulation = noLoss, qc_closed = False, qc_closing = False, qc_totalBytesSent = 0,
      qc_totalBytesReceived = 0, qc_lastSendAttempt = now, qc_workerTask = False,
      qc_workerRunning = False, qc_connected = False,
      qc_congestion = False, qc_fatalError = None, qc_cancelled = False, qc_attempts = 0, qc_wire = []\<rparr>"

text \<open>A call of ngtcp2 on \<open>m_conn\<close>.\<close>

definition onConn :: "('n \<Rightarrow> 'x \<times> 'n) \<Rightarrow> ('n, 'b, 'f) QuicConnection \<Rightarrow>
    'x TransportResult \<times> ('n, 'b, 'f) QuicConnection" where
  "onConn f s = (case qc_conn s of None \<Rightarrow> (Inl OutOfBounds, s)
     | Some n \<Rightarrow> (case f n of (x, n) \<Rightarrow> (Ok x, s\<lparr>qc_conn := Some n\<rparr>)))"

definition quicError :: "('n, 'b, 'd, 'i, 'f) quic_env \<Rightarrow> int \<Rightarrow> TransportError" where
  "quicError E code = TE_Quic (QuicError code (ng_strerror (qv_ngtcp2 E) code))"

definition isCongestionRelatedError :: "('n, 'b, 'd, 'i, 'f) quic_env \<Rightarrow> TransportError \<Rightarrow> bool" where
  "isCongestionRelatedError E err =
     (case err of
        TE_Quic quicErr \<Rightarrow> qe_code quicErr = ng_STREAM_DATA_BLOCKED (qv_ngtcp2 E) \<or>
          qe_code quicErr = ng_FLOW_CONTROL (qv_ngtcp2 E)
      | CustomKind code \<Rightarrow> code = NoBufferSpace \<or> code = CongestionLimited
      | _ \<Rightarrow> False)"

definition updateExpiry :: "('n, 'b, 'd, 'i, 'f) quic_env \<Rightarrow> ('n, 'b, 'f) QuicConnection \<Rightarrow>
    unit TransportResult \<times> ('n, 'b, 'f) QuicConnection" where
  "updateExpiry E s =
     step_then (onConn (\<lambda>n. (ng_get_expiry (qv_ngtcp2 E) n, n)) s) (\<lambda>expiry s.
       (Ok (), s\<lparr>qc_nextExpiry := expiry\<rparr>))"

section \<open>Sending packets\<close>

definition QuicConnection_shouldLosePacket :: "('n, 'b, 'd, 'i, 'f) quic_env \<Rightarrow>
    ('n, 'b, 'f) QuicConnection \<Rightarrow> bool" where
  "QuicConnection_shouldLosePacket E s =
     qv_chance E (fl_clamp01 (qv_time E) (qc_lossSimulation s)) (qc_attempts s)"

definition sendPacket :: "('n, 'b, 'd, 'i, 'f) quic_env \<Rightarrow> u64 \<Rightarrow> bytes \<Rightarrow> ('n, 'b, 'f) QuicConnection \<Rightarrow>
    unit TransportResult \<times> ('n, 'b, 'f) QuicConnection" where
  "sendPacket E now buf s =
     (let lost = QuicConnection_shouldLosePacket E s;
          n = qc_attempts s;
          s = s\<lparr>qc_attempts := n + 1\<rparr>;
          sent = (if lost then (Ok (), s)
                  else case qv_send E n buf of
                      Inl e \<Rightarrow> (Inl e, s)
                    | Inr _ \<Rightarrow> (Ok (), s\<lparr>qc_wire := qc_wire s @ [buf]\<rparr>))
      in step_then sent (\<lambda>_ s.
         step_then (onConn (\<lambda>n. ((), ng_update_pkt_tx_time (qv_ngtcp2 E) now n)) s) (\<lambda>_ s.
         step_then (updateExpiry E s) (\<lambda>_ s.
           (Ok (), s\<lparr>qc_lastSendAttempt := now,
                      qc_totalBytesSent := qc_totalBytesSent s + of_nat (length buf)\<rparr>)))))"

definition wrapWritePacket :: "('n, 'b, 'd, 'i, 'f) quic_env \<Rightarrow> u64 \<Rightarrow> ('n, 'b, 'f) QuicConnection \<Rightarrow>
    bytes TransportResult \<times> ('n, 'b, 'f) QuicConnection" where
  "wrapWritePacket E now s =
     step_then (onConn (ng_write_pkt (qv_ngtcp2 E) now) s) (\<lambda>written s.
     step_then (updateExpiry E s) (\<lambda>_ s.
       case written of Inl code \<Rightarrow> (Err (quicError E code), s) | Inr buf \<Rightarrow> (Ok buf, s)))"

definition sendHandshakePacket :: "('n, 'b, 'd, 'i, 'f) quic_env \<Rightarrow> u64 \<Rightarrow> ('n, 'b, 'f) QuicConnection \<Rightarrow>
    unit TransportResult \<times> ('n, 'b, 'f) QuicConnection" where
  "sendHandshakePacket E now s =
     step_then (wrapWritePacket E now s) (\<lambda>buf s.
       if buf = [] then (Ok (), s) else sendPacket E now buf s)"

definition sendNonStreamPacket :: "('n, 'b, 'd, 'i, 'f) quic_env \<Rightarrow> u64 \<Rightarrow> ('n, 'b, 'f) QuicConnection \<Rightarrow>
    unit TransportResult \<times> ('n, 'b, 'f) QuicConnection" where
  "sendNonStreamPacket E now s =
     step_then (wrapWritePacket E now s) (\<lambda>buf s.
       if buf \<noteq> [] then step_then (sendPacket E now buf s) (\<lambda>_ s. (Ok (), s)) else (Ok (), s))"

text \<open>The error code 1 is that of a graceful closure.\<close>

definition sendClosePacket :: "('n, 'b, 'd, 'i, 'f) quic_env \<Rightarrow> u64 \<Rightarrow> ('n, 'b, 'f) QuicConnection \<Rightarrow>
    unit TransportResult \<times> ('n, 'b, 'f) QuicConnection" where
  "sendClosePacket E now s =
     step_then (onConn (ng_write_connection_close (qv_ngtcp2 E) now 1) s) (\<lambda>written s.
       case written of
         Inl code \<Rightarrow> (Err (quicError E code), s)
       | Inr buf \<Rightarrow> if buf = [] then (Ok (), s) else sendPacket E now buf s)"

section \<open>Streams\<close>

definition findStream :: "int \<Rightarrow> ('n, 'b, 'f) QuicConnection \<Rightarrow> 'b QuicStream option" where
  "findStream streamId s = map_of (qc_streams s) streamId"

definition onStream :: "int \<Rightarrow> ('b QuicStream \<Rightarrow> 'b QuicStream) \<Rightarrow> ('n, 'b, 'f) QuicConnection \<Rightarrow>
    ('n, 'b, 'f) QuicConnection" where
  "onStream streamId g s =
     s\<lparr>qc_streams := map (\<lambda>(i, st). (i, if i = streamId then g st else st)) (qc_streams s)\<rparr>"

definition getStream :: "int \<Rightarrow> ('n, 'b, 'f) QuicConnection \<Rightarrow> 'b QuicStream TransportResult" where
  "getStream streamId s =
     (case findStream streamId s of None \<Rightarrow> Err (CustomKind InvalidArgument) | Some stream \<Rightarrow> Ok stream)"

definition openStream :: "('n, 'b, 'd, 'i, 'f) quic_env \<Rightarrow> ('n, 'b, 'f) QuicConnection \<Rightarrow>
    int TransportResult \<times> ('n, 'b, 'f) QuicConnection" where
  "openStream E s =
     step_then (onConn (ng_open_bidi_stream (qv_ngtcp2 E)) s) (\<lambda>(err, streamId) s.
       if err \<noteq> 0 then (Err (quicError E err), s)
       else step_then (qn_assert (streamId \<noteq> - 1) (Ok ()), s) (\<lambda>_ s.
         (Ok streamId,
          if findStream streamId s \<noteq> None then s
          else s\<lparr>qc_streams := qc_streams s @ [(streamId, QuicStream_new (qv_ring E) streamId)]\<rparr>)))"

definition closeStream :: "('n, 'b, 'd, 'i, 'f) quic_env \<Rightarrow> int \<Rightarrow> ('n, 'b, 'f) QuicConnection \<Rightarrow>
    unit TransportResult \<times> ('n, 'b, 'f) QuicConnection" where
  "closeStream E streamId s =
     step_then (getStream streamId s, s) (\<lambda>stream s.
       if qs_closed stream \<or> qs_streamId stream = - 1 then (Ok (), s)
       else step_then (onConn (\<lambda>n. QuicStream_close (ng_shutdown_stream (qv_ngtcp2 E)) stream n) s) (\<lambda>stream s.
         (Ok (), onStream streamId (\<lambda>_. stream) s)))"

definition sendStreamData :: "('n, 'b, 'd, 'i, 'f) quic_env \<Rightarrow> u64 \<Rightarrow> int \<Rightarrow> bool \<Rightarrow>
    ('n, 'b, 'f) QuicConnection \<Rightarrow> unit TransportResult \<times> ('n, 'b, 'f) QuicConnection" where
  "sendStreamData E now streamId fin s =
     (case findStream streamId s of None \<Rightarrow> (Inl OutOfBounds, s) | Some stream \<Rightarrow>
      let wrp = peekUnsentData (qv_ring E) stream in
      if both wrp = [] \<and> \<not> fin then (Ok (), s)
      else
        let vecs = filter (\<lambda>v. v \<noteq> []) [fst wrp, snd wrp] in
        step_then (onConn (ng_writev_stream (qv_ngtcp2 E) now fin (qs_streamId stream) vecs) s) (\<lambda>written s.
        step_then (updateExpiry E s) (\<lambda>_ s.
          case written of
            Inl code \<Rightarrow> (Err (quicError E code), s)
          | Inr (outBuf, streamDataWritten) \<Rightarrow>
              if outBuf = [] then (Err (CustomKind CongestionLimited), s)
              else case sendPacket E now outBuf s of
                  (Inl e, s) \<Rightarrow> (Inl e, s)
                | (Inr _, s) \<Rightarrow>
                    (Ok (), if 0 < streamDataWritten then onStream streamId (advanceSentData (nat streamDataWritten)) s
                            else s))))"

section \<open>Receiving packets\<close>

definition QuicConnection_onReceivedData :: "('n, 'b, 'd, 'i, 'f) quic_env \<Rightarrow> int \<Rightarrow> bytes \<Rightarrow>
    ('n, 'b, 'f) QuicConnection \<Rightarrow> ('n, 'b, 'f) QuicConnection" where
  "QuicConnection_onReceivedData E streamId data s =
     (case findStream streamId s of None \<Rightarrow> s
      | Some _ \<Rightarrow> onStream streamId (QuicStream_onReceivedData (qv_ring E) data) s)"

definition QuicConnection_onAckedData :: "('n, 'b, 'd, 'i, 'f) quic_env \<Rightarrow> int \<Rightarrow> u64 \<Rightarrow> u64 \<Rightarrow>
    ('n, 'b, 'f) QuicConnection \<Rightarrow> unit TransportResult \<times> ('n, 'b, 'f) QuicConnection" where
  "QuicConnection_onAckedData E streamId offset len s =
     (case findStream streamId s of None \<Rightarrow> (Ok (), s)
      | Some stream \<Rightarrow>
          (case QuicStream_onAck (qv_ring E) offset len stream of
             (r, stream) \<Rightarrow> (r, onStream streamId (\<lambda>_. stream) s)))"

text \<open>\<open>streams->erase(stream_id)\<close>, which destroys the stream.\<close>

definition eraseStream :: "('n, 'b, 'd, 'i, 'f) quic_env \<Rightarrow> int \<Rightarrow> ('n, 'b, 'f) QuicConnection \<Rightarrow>
    unit TransportResult \<times> ('n, 'b, 'f) QuicConnection" where
  "eraseStream E streamId s =
     (case findStream streamId s of None \<Rightarrow> (Ok (), s)
      | Some stream \<Rightarrow>
          let s = s\<lparr>qc_streams := filter (\<lambda>(i, _). i \<noteq> streamId) (qc_streams s)\<rparr> in
          if qs_streamId stream \<noteq> - 1 \<and> \<not> qs_closed stream then
            onConn (\<lambda>n. ((), QuicStream_destroy (ng_shutdown_stream (qv_ngtcp2 E)) stream n)) s
          else (Ok (), s))"

fun callback :: "('n, 'b, 'd, 'i, 'f) quic_env \<Rightarrow> ngtcp2_event \<Rightarrow> ('n, 'b, 'f) QuicConnection \<Rightarrow>
    unit TransportResult \<times> ('n, 'b, 'f) QuicConnection" where
  "callback E (RecvStreamData streamId data) s = (Ok (), QuicConnection_onReceivedData E streamId data s)"
| "callback E (AckedStreamData streamId offset datalen) s = QuicConnection_onAckedData E streamId offset datalen s"
| "callback E (StreamClosed streamId) s = eraseStream E streamId s"

fun callbacks :: "('n, 'b, 'd, 'i, 'f) quic_env \<Rightarrow> ngtcp2_event list \<Rightarrow> ('n, 'b, 'f) QuicConnection \<Rightarrow>
    unit TransportResult \<times> ('n, 'b, 'f) QuicConnection" where
  "callbacks E [] s = (Ok (), s)"
| "callbacks E (ev # evs) s = step_then (callback E ev s) (\<lambda>_ s. callbacks E evs s)"

text \<open>What \<open>recv\<close> on the socket returns; it returns \<open>WouldBlock\<close> only to a call that does not wait.\<close>

datatype packet = WouldBlock | Packet bytes | PacketError TransportError

definition receivePacket :: "('n, 'b, 'd, 'i, 'f) quic_env \<Rightarrow> u64 \<Rightarrow> packet \<Rightarrow> ('n, 'b, 'f) QuicConnection \<Rightarrow>
    bool TransportResult \<times> ('n, 'b, 'f) QuicConnection" where
  "receivePacket E now pkt s =
     (case pkt of
        WouldBlock \<Rightarrow> (Ok False, s)
      | PacketError err \<Rightarrow> (Err err, s)
      | Packet outBuf \<Rightarrow>
          let s = s\<lparr>qc_totalBytesReceived := qc_totalBytesReceived s + of_nat (length outBuf)\<rparr> in
          step_then (onConn (ng_read_pkt (qv_ngtcp2 E) now outBuf) s) (\<lambda>(res, evs) s.
          step_then (callbacks E evs s) (\<lambda>_ s.
            if res = 0 then (Ok True, s)
            else if res = ng_CRYPTO (qv_ngtcp2 E) then
              step_then (onConn (\<lambda>n. (ng_lastTlsError (qv_ngtcp2 E) n, n)) s) (\<lambda>tlsErr s. (Err (TE_Tls tlsErr), s))
            else (Err (quicError E res), s))))"

section \<open>The handshake\<close>

text \<open>\<open>didReceiveData = receivePacket(false)\<close> until there is nothing to receive.\<close>

fun drainPackets :: "('n, 'b, 'd, 'i, 'f) quic_env \<Rightarrow> u64 \<Rightarrow> packet list \<Rightarrow> ('n, 'b, 'f) QuicConnection \<Rightarrow>
    unit TransportResult \<times> ('n, 'b, 'f) QuicConnection" where
  "drainPackets E now [] s = (Ok (), s)"
| "drainPackets E now (pkt # pkts) s =
     step_then (receivePacket E now pkt s) (\<lambda>didReceiveData s.
       if didReceiveData then drainPackets E now pkts s else (Ok (), s))"

text \<open>A round of the loop: the clock when it starts and when its wait ends, and the packets that are
  there then; None is that the deadline came first.\<close>

record QuicRound =
  rd_start :: u64
  rd_wake :: u64
  rd_packets :: "packet list option"

fun QuicConnection_performHandshake :: "('n, 'b, 'd, 'i, 'f) quic_env \<Rightarrow> QuicRound list \<Rightarrow> u64 \<Rightarrow>
    ('n, 'b, 'f) QuicConnection \<Rightarrow> unit TransportResult option \<times> ('n, 'b, 'f) QuicConnection" where
  "QuicConnection_performHandshake E rounds lastSentPacket s =
     (case qc_conn s of None \<Rightarrow> (Some (Inl OutOfBounds), s) | Some n \<Rightarrow>
      if ng_handshake_completed (qv_ngtcp2 E) n then (Some (Ok ()), s)
      else case rounds of [] \<Rightarrow> (None, s) | round # rounds \<Rightarrow>
        let debounced = \<not> 10000000 < rd_start round - lastSentPacket in
        case (if debounced then (Ok (), s) else sendHandshakePacket E (rd_start round) s) of
          (Inl e, s) \<Rightarrow> (Some (Inl e), s)
        | (Inr _, s) \<Rightarrow>
            let lastSentPacket = (if debounced then lastSentPacket else rd_start round) in
            case rd_packets round of
              None \<Rightarrow>
                if qc_connectDeadline s \<le> rd_wake round then (Some (Err (CustomKind ConnectionTimedOut)), s)
                else (case onConn (ng_handle_expiry (qv_ngtcp2 E) (rd_wake round)) s of
                    (Inl e, s) \<Rightarrow> (Some (Inl e), s)
                  | (Inr result, s) \<Rightarrow>
                      if result \<noteq> 0 then (Some (Err (quicError E result)), s)
                      else QuicConnection_performHandshake E rounds lastSentPacket s)
            | Some pkts \<Rightarrow>
                (case drainPackets E (rd_wake round) pkts s of
                    (Inl e, s) \<Rightarrow> (Some (Inl e), s)
                  | (Inr _, s) \<Rightarrow> QuicConnection_performHandshake E rounds lastSentPacket s))"

declare QuicConnection_performHandshake.simps [simp del]

section \<open>Closing\<close>

definition QuicConnection_closeSync :: "('n, 'b, 'f) QuicConnection \<Rightarrow>
    unit TransportResult \<times> ('n, 'b, 'f) QuicConnection" where
  "QuicConnection_closeSync s =
     (let wasClosed = qc_closed s; s = s\<lparr>qc_closed := True\<rparr> in
      if wasClosed then (Ok (), s)
      else (Ok (), s\<lparr>qc_cancelled := True, qc_workerTask := False\<rparr>))"

definition QuicConnection_close :: "('n, 'b, 'd, 'i, 'f) quic_env \<Rightarrow> u64 \<Rightarrow> ('n, 'b, 'f) QuicConnection \<Rightarrow>
    unit TransportResult \<times> ('n, 'b, 'f) QuicConnection" where
  "QuicConnection_close E now s =
     (let wasClosing = qc_closing s; s = s\<lparr>qc_closing := True\<rparr> in
      if wasClosing then (Ok (), s)
      else step_then (sendClosePacket E now s) (\<lambda>_ s. QuicConnection_closeSync s))"

definition QuicConnection_isClosed :: "('n, 'b, 'f) QuicConnection \<Rightarrow> bool" where
  "QuicConnection_isClosed s = qc_closed s"

text \<open>The destructor deletes the connection of ngtcp2, and then the members are destroyed, the map
  with the streams that are still in it among them.\<close>

definition QuicConnection_destroy :: "('n, 'b, 'd, 'i, 'f) quic_env \<Rightarrow> ('n, 'b, 'f) QuicConnection \<Rightarrow>
    unit TransportResult \<times> ('n, 'b, 'f) QuicConnection" where
  "QuicConnection_destroy E s =
     (let s = s\<lparr>qc_conn := None\<rparr>
      in foldl (\<lambda>m streamId. step_then m (\<lambda>_ s. eraseStream E streamId s)) (Ok (), s) (map fst (qc_streams s)))"

section \<open>The user's operations\<close>

text \<open>None is that the operation waits.  Notifications wake every waiter, so what matters is the state
  that it finds; the worker and the other users act in between.\<close>

definition QuicConnection_send :: "('n, 'b, 'd, 'i, 'f) quic_env \<Rightarrow> int \<Rightarrow> bytes \<Rightarrow>
    ('n, 'b, 'f) QuicConnection \<Rightarrow> (nat TransportResult \<times> ('n, 'b, 'f) QuicConnection) option" where
  "QuicConnection_send E streamId data s =
     (if qc_closed s then Some (Err (CustomKind Closed), s)
      else if data = [] then Some (Ok 0, s)
      else case getStream streamId s of
          Inl e \<Rightarrow> Some (Inl e, s)
        | Inr stream \<Rightarrow>
            if sendCapacity (qv_ring E) stream = 0 then None
            else (case QuicStream_write (qv_ring E) data stream of
                (written, stream) \<Rightarrow> Some (Ok written, onStream streamId (\<lambda>_. stream) s)))"

lemma QuicConnection_send_written:
  assumes "QuicConnection_send E streamId data s = Some (Ok n, s')" and "data \<noteq> []"
  shows "0 < n" and "n \<le> length data"
proof -
  obtain stream stream' where "QuicStream_write (qv_ring E) data stream = (n, stream')"
    "sendCapacity (qv_ring E) stream \<noteq> 0"
    using assms by (auto simp: QuicConnection_send_def split: if_splits sum.splits prod.splits)
  then show "0 < n" "n \<le> length data"
    using assms(2) by (auto simp: QuicStream_write_def Let_def unat_gt_0)
qed

text \<open>The list has what the others do to the connection during each wait.\<close>

function QuicConnection_sendAll :: "('n, 'b, 'd, 'i, 'f) quic_env \<Rightarrow> int \<Rightarrow> bytes \<Rightarrow>
    (('n, 'b, 'f) QuicConnection \<Rightarrow> ('n, 'b, 'f) QuicConnection) list \<Rightarrow>
    ('n, 'b, 'f) QuicConnection \<Rightarrow> unit TransportResult option \<times> ('n, 'b, 'f) QuicConnection" where
  "QuicConnection_sendAll E streamId data waits s =
     (if data = [] then (Some (Ok ()), s)
      else case QuicConnection_send E streamId data s of
          Some (Inl e, s) \<Rightarrow> (Some (Inl e), s)
        | Some (Inr written, s) \<Rightarrow> QuicConnection_sendAll E streamId (drop written data) waits s
        | None \<Rightarrow> (case waits of [] \<Rightarrow> (None, s)
            | others # waits \<Rightarrow> QuicConnection_sendAll E streamId data waits (others s)))"
  by pat_completeness auto

termination
  by (relation "measure (\<lambda>(E, streamId, data, waits, s). length data + length waits)")
    (auto dest: QuicConnection_send_written)

declare QuicConnection_sendAll.simps [simp del]

fun receiveLoop :: "('n, 'b, 'd, 'i, 'f) quic_env \<Rightarrow> int \<Rightarrow> nat \<Rightarrow>
    (('n, 'b, 'f) QuicConnection \<Rightarrow> ('n, 'b, 'f) QuicConnection) list \<Rightarrow>
    ('n, 'b, 'f) QuicConnection \<Rightarrow> bytes TransportResult option \<times> ('n, 'b, 'f) QuicConnection" where
  "receiveLoop E streamId bufSize waits s =
     (if qc_cancelled s then (Some (Err (CustomKind Closed)), s)
      else case getStream streamId s of
          Inl e \<Rightarrow> (Some (Inl e), s)
        | Inr stream \<Rightarrow>
            (case QuicStream_read (qv_ring E) bufSize stream of (read, stream) \<Rightarrow>
             let s = onStream streamId (\<lambda>_. stream) s in
             if read \<noteq> [] then (Some (Ok read), s)
             else case waits of [] \<Rightarrow> (None, s)
               | others # waits \<Rightarrow> receiveLoop E streamId bufSize waits (others s)))"

declare receiveLoop.simps [simp del]

definition QuicConnection_receive :: "('n, 'b, 'd, 'i, 'f) quic_env \<Rightarrow> int \<Rightarrow> nat \<Rightarrow>
    (('n, 'b, 'f) QuicConnection \<Rightarrow> ('n, 'b, 'f) QuicConnection) list \<Rightarrow>
    ('n, 'b, 'f) QuicConnection \<Rightarrow> bytes TransportResult option \<times> ('n, 'b, 'f) QuicConnection" where
  "QuicConnection_receive E streamId bufSize waits s =
     (if qc_closed s then (Some (Err (CustomKind Closed)), s)
      else if bufSize = 0 then (Some (Ok []), s)
      else receiveLoop E streamId bufSize waits s)"

definition pollReadable :: "('n, 'b, 'd, 'i, 'f) quic_env \<Rightarrow> int \<Rightarrow> 'b QuicStream list \<Rightarrow>
    ('n, 'b, 'f) QuicConnection \<Rightarrow> unit TransportResult option" where
  "pollReadable E streamId seen s =
     (case getStream streamId s of
        Inl e \<Rightarrow> Some (Inl e)
      | Inr stream \<Rightarrow> map_option (\<lambda>_. Ok ()) (QuicStream_pollReadable (qv_ring E) (stream # seen)))"

definition pollWritable :: "('n, 'b, 'd, 'i, 'f) quic_env \<Rightarrow> int \<Rightarrow> 'b QuicStream list \<Rightarrow>
    ('n, 'b, 'f) QuicConnection \<Rightarrow> unit TransportResult option" where
  "pollWritable E streamId seen s =
     (case getStream streamId s of
        Inl e \<Rightarrow> Some (Inl e)
      | Inr stream \<Rightarrow> map_option (\<lambda>_. Ok ()) (QuicStream_pollWritable (qv_ring E) (stream # seen)))"

definition QuicConnection_untilTimerExpiry :: "('d, 'i, 'f) time_ops \<Rightarrow> 'd" where
  "QuicConnection_untilTimerExpiry T = tm_fromMillis T 100"

definition QuicConnection_handleTimerExpiry :: "('n, 'b, 'f) QuicConnection \<Rightarrow> unit TransportResult" where
  "QuicConnection_handleTimerExpiry s =
     (if qc_connected s then Ok ()
      else case qc_fatalError s of None \<Rightarrow> Ok () | Some err \<Rightarrow> Err err)"

section \<open>The worker\<close>

definition handleExpiry :: "('n, 'b, 'd, 'i, 'f) quic_env \<Rightarrow> u64 \<Rightarrow> ('n, 'b, 'f) QuicConnection \<Rightarrow>
    unit TransportResult \<times> ('n, 'b, 'f) QuicConnection" where
  "handleExpiry E now s =
     step_then (onConn (ng_handle_expiry (qv_ngtcp2 E) now) s) (\<lambda>code s.
       if code = ng_IDLE_CLOSE (qv_ngtcp2 E) then (Err (CustomKind ConnectionTimedOut), s)
       else step_then (updateExpiry E s) (\<lambda>_ s. (Ok (), s)))"

text \<open>The lambda \<open>mapErr\<close>.\<close>

definition mapCongestion :: "('n, 'b, 'd, 'i, 'f) quic_env \<Rightarrow>
    unit TransportResult \<times> ('n, 'b, 'f) QuicConnection \<Rightarrow> unit TransportResult \<times> ('n, 'b, 'f) QuicConnection" where
  "mapCongestion E m =
     (case m of
        (Inl (Failed err), s) \<Rightarrow>
          if isCongestionRelatedError E err then (Ok (), s\<lparr>qc_congestion := True\<rparr>) else (Err err, s)
      | m \<Rightarrow> m)"

fun writeStreams :: "('n, 'b, 'd, 'i, 'f) quic_env \<Rightarrow> u64 \<Rightarrow> int list \<Rightarrow> ('n, 'b, 'f) QuicConnection \<Rightarrow>
    unit TransportResult \<times> ('n, 'b, 'f) QuicConnection" where
  "writeStreams E now [] s = (Ok (), s)"
| "writeStreams E now (streamId # streamIds) s =
     (case findStream streamId s of None \<Rightarrow> (Inl OutOfBounds, s) | Some stream \<Rightarrow>
      if unflushedBytes (qv_ring E) stream = 0 then writeStreams E now streamIds s
      else step_then (mapCongestion E (sendStreamData E now streamId False s)) (\<lambda>_ s.
        if qc_congestion s then (Ok (), s) else writeStreams E now streamIds s))"

definition workerHandleWrites :: "('n, 'b, 'd, 'i, 'f) quic_env \<Rightarrow> u64 \<Rightarrow> ('n, 'b, 'f) QuicConnection \<Rightarrow>
    unit TransportResult \<times> ('n, 'b, 'f) QuicConnection" where
  "workerHandleWrites E now s =
     (let s = s\<lparr>qc_congestion := False\<rparr> in
      step_then (writeStreams E now (map fst (qc_streams s)) s) (\<lambda>_ s.
        if \<not> qc_congestion s then
          step_then (mapCongestion E (sendNonStreamPacket E now s)) (\<lambda>_ s. (Ok (), s))
        else (Ok (), s)))"

text \<open>What ends a wait of the worker: a notification, a packet, the expiry of a timer of ngtcp2, or
  the pause after congestion.\<close>

datatype quic_wake = Notified | Arrived packet | Expired | Retried

fun wakeUp :: "('n, 'b, 'd, 'i, 'f) quic_env \<Rightarrow> u64 \<Rightarrow> quic_wake \<Rightarrow> ('n, 'b, 'f) QuicConnection \<Rightarrow>
    unit TransportResult \<times> ('n, 'b, 'f) QuicConnection" where
  "wakeUp E now Notified s = (Ok (), s)"
| "wakeUp E now (Arrived pkt) s =
     (case receivePacket E now pkt s of (Inl (Failed err), s) \<Rightarrow> (Ok (), s)
        | (Inl e, s) \<Rightarrow> (Inl e, s) | (Inr _, s) \<Rightarrow> (Ok (), s))"
| "wakeUp E now Expired s =
     (case handleExpiry E now s of
        (Inl (Failed err), s) \<Rightarrow> (Ok (), s\<lparr>qc_fatalError := Some err, qc_connected := False\<rparr>)
      | m \<Rightarrow> m)"
| "wakeUp E now Retried s = (Ok (), s)"

text \<open>The loop of a connection that is established: the writes of a turn, and what the wait after it
  ends with, each with its clock.  None is that the worker still runs.\<close>

fun QuicConnection_workerLoop :: "('n, 'b, 'd, 'i, 'f) quic_env \<Rightarrow> (u64 \<times> u64 \<times> quic_wake) list \<Rightarrow>
    ('n, 'b, 'f) QuicConnection \<Rightarrow> unit TransportResult option \<times> ('n, 'b, 'f) QuicConnection" where
  "QuicConnection_workerLoop E [] s = (if qc_connected s then None else Some (Ok ()), s)"
| "QuicConnection_workerLoop E ((now, woken, wake) # turns) s =
     (if \<not> qc_connected s then (Some (Ok ()), s)
      else case workerHandleWrites E now s of
          (Inl (Failed err), s) \<Rightarrow> (Some (Ok ()), s)
        | (Inl e, s) \<Rightarrow> (Some (Inl e), s)
        | (Inr _, s) \<Rightarrow>
            (case wakeUp E woken wake s of
               (Inl e, s) \<Rightarrow> (Some (Inl e), s)
             | (Inr _, s) \<Rightarrow> QuicConnection_workerLoop E turns s))"

text \<open>The task that \<open>connect\<close> spawns: it waits for the connection, runs the loop, and closes the
  connection when the loop ends or the task is cancelled.  \<open>None\<close> is that it still runs after these
  turns.\<close>

definition workerEnds :: "('n, 'b, 'd, 'i, 'f) quic_env \<Rightarrow> u64 \<Rightarrow> ('n, 'b, 'f) QuicConnection \<Rightarrow>
    unit TransportResult \<times> ('n, 'b, 'f) QuicConnection" where
  "workerEnds E now s =
     (case QuicConnection_close E now s of
        (Inl (Failed err), s) \<Rightarrow> (Ok (), s\<lparr>qc_workerRunning := False\<rparr>)
      | (Inl e, s) \<Rightarrow> (Inl e, s)
      | (Inr _, s) \<Rightarrow> (Ok (), s\<lparr>qc_workerRunning := False\<rparr>))"

definition workerTask :: "('n, 'b, 'd, 'i, 'f) quic_env \<Rightarrow> (u64 \<times> u64 \<times> quic_wake) list \<Rightarrow> u64 \<Rightarrow>
    ('n, 'b, 'f) QuicConnection \<Rightarrow> unit TransportResult option \<times> ('n, 'b, 'f) QuicConnection" where
  "workerTask E turns now s =
     (let s = s\<lparr>qc_workerRunning := True\<rparr> in
      case (if qc_connected s then QuicConnection_workerLoop E turns s else (None, s)) of
        (Some (Inl e), s) \<Rightarrow> (Some (Inl e), s)
      | (Some (Inr _), s) \<Rightarrow> map_prod Some id (workerEnds E now s)
      | (None, s) \<Rightarrow> if qc_cancelled s then map_prod Some id (workerEnds E now s) else (None, s))"

section \<open>Connecting\<close>

definition MiB :: nat where "MiB = 1024 * 1024"

text \<open>\<open>Duration::fromSecs(30)\<close> and \<open>fromMillis(20)\<close> in nanoseconds.\<close>

definition quicParams :: QuicParams where
  "quicParams = \<lparr>qp_maxStreamDataBidiLocal = 12 * MiB, qp_maxStreamDataBidiRemote = 1 * MiB,
     qp_maxStreamDataUni = 1 * MiB, qp_maxData = 24 * MiB, qp_maxStreamsBidi = 100,
     qp_maxStreamsUni = 100, qp_maxDatagramFrameSize = 65535, qp_maxIdleTimeout = 30000000000,
     qp_activeConnectionIdLimit = 8, qp_greaseQuicBit = 1, qp_maxAckDelay = 20000000\<rparr>"

text \<open>\<open>random\<close> is what \<open>fillRandom\<close> draws; the comparison and the subtraction are unsigned.\<close>

definition quicSettings :: "u64 \<Rightarrow> u64 \<Rightarrow> u32 \<Rightarrow> bool \<Rightarrow> QuicSettings" where
  "quicSettings now timeout random verbose =
     \<lparr>qs_initialTs = now, qs_handshakeTimeout = timeout,
      qs_initialPktNum = (if 2147483647 < random then random - 2147483647 else random), qs_verbose = verbose\<rparr>"

record 'f quic_debug =
  qd_packetLossSimulation :: 'f
  qd_verboseQuic :: bool

text \<open>What the system answers while a connection is made.\<close>

record quic_setup =
  su_bind :: "unit TransportResult"
  su_connect :: "unit TransportResult"
  su_localAddress :: "unit TransportResult"
  su_tlsSession :: "unit TransportResult"
  su_random :: u32
  su_now :: u64
  su_rounds :: "QuicRound list"

text \<open>The steps that follow the creation of the connection.\<close>

definition establish :: "('n, 'b, 'd, 'i, 'f) quic_env \<Rightarrow> quic_setup \<Rightarrow> u64 \<Rightarrow> bool \<Rightarrow>
    ('n, 'b, 'f) QuicConnection \<Rightarrow> unit TransportResult option \<times> ('n, 'b, 'f) QuicConnection" where
  "establish E u timeout verbose ret =
     (let created = step_then (su_localAddress u, ret) (\<lambda>_ ret.
            case ng_client_new (qv_ngtcp2 E) (quicSettings (su_now u) timeout (su_random u) verbose) quicParams of
              (err, conn) \<Rightarrow>
                if err \<noteq> 0 then (Err (quicError E err), ret)
                else step_then (su_tlsSession u, ret\<lparr>qc_conn := Some conn\<rparr>) (\<lambda>_ ret. (Ok (), ret)))
      in case created of
           (Inl e, ret) \<Rightarrow> (Some (Inl e), ret)
         | (Inr _, ret) \<Rightarrow>
             (case QuicConnection_performHandshake E (su_rounds u) 0 ret of
                (None, ret) \<Rightarrow> (None, ret)
              | (Some (Inl e), ret) \<Rightarrow> (Some (Inl e), ret)
              | (Some (Inr _), ret) \<Rightarrow>
                  map_prod Some id (step_then (openStream E ret) (\<lambda>streamId ret.
                    (Ok (), ret\<lparr>qc_mainStreamId := streamId, qc_connected := True\<rparr>)))))"

text \<open>The result, and the connection where one was created: a failure leaves it to the worker, which
  was spawned before.\<close>

definition QuicConnection_connect :: "('n, 'b, 'd, 'i, 'f) quic_env \<Rightarrow> quic_setup \<Rightarrow> bool \<Rightarrow> u64 \<Rightarrow>
    'f quic_debug option \<Rightarrow> unit TransportResult option \<times> ('n, 'b, 'f) QuicConnection option" where
  "QuicConnection_connect E u tlsContext timeout debugOptions =
     (if \<not> tlsContext then (Some (Inl AssertionFailed), None)
      else case su_bind u of Inl e \<Rightarrow> (Some (Inl e), None) | Inr _ \<Rightarrow>
      case su_connect u of Inl e \<Rightarrow> (Some (Inl e), None) | Inr _ \<Rightarrow>
      let noLoss = fl_dec (qv_time E) 0 0;
          ret = (QuicConnection_new (su_now u) noLoss)
            \<lparr>qc_connectDeadline := su_now u + timeout, qc_nextExpiry := su_now u, qc_workerTask := True,
             qc_lossSimulation := (case debugOptions of None \<Rightarrow> noLoss | Some d \<Rightarrow> qd_packetLossSimulation d)\<rparr>;
          verbose = (case debugOptions of None \<Rightarrow> False | Some d \<Rightarrow> qd_verboseQuic d)
      in case establish E u timeout verbose ret of
           (None, ret) \<Rightarrow> (None, Some ret)
         | (Some (Inl e), ret) \<Rightarrow> (Some (Inl e), Some (snd (QuicConnection_closeSync ret)))
         | (Some (Inr _), ret) \<Rightarrow> (Some (Ok ()), Some ret))"

section \<open>The handshake ends\<close>

abbreviation "deadline \<equiv> qc_connectDeadline"

lemma onConn_deadline [keeps_intros]: "deadline s = x \<Longrightarrow> keeps deadline x (onConn f s)"
  by (auto simp: onConn_def split: option.split prod.split)

lemma updateExpiry_deadline [keeps_intros]: "deadline s = x \<Longrightarrow> keeps deadline x (updateExpiry E s)"
  unfolding updateExpiry_def by (auto intro!: keeps_intros)

lemma sendPacket_deadline [keeps_intros]: "deadline s = x \<Longrightarrow> keeps deadline x (sendPacket E now buf s)"
  unfolding sendPacket_def Let_def by (auto intro!: keeps_intros split: sum.split)

lemma sendHandshakePacket_deadline [keeps_intros]:
  "deadline s = x \<Longrightarrow> keeps deadline x (sendHandshakePacket E now s)"
  unfolding sendHandshakePacket_def wrapWritePacket_def by (auto intro!: keeps_intros split: sum.split)

lemma callback_deadline [keeps_intros]: "deadline s = x \<Longrightarrow> keeps deadline x (callback E ev s)"
  by (cases ev) (auto simp: QuicConnection_onReceivedData_def QuicConnection_onAckedData_def eraseStream_def
      onStream_def Let_def intro!: keeps_intros split: option.split prod.split)

lemma callbacks_deadline [keeps_intros]: "deadline s = x \<Longrightarrow> keeps deadline x (callbacks E evs s)"
  by (induction evs arbitrary: s) (auto intro!: keeps_intros)

lemma receivePacket_deadline [keeps_intros]: "deadline s = x \<Longrightarrow> keeps deadline x (receivePacket E now pkt s)"
  unfolding receivePacket_def Let_def
  by (auto intro!: keeps_intros split: packet.split)

lemma drainPackets_deadline [keeps_intros]: "deadline s = x \<Longrightarrow> keeps deadline x (drainPackets E now pkts s)"
  by (induction pkts arbitrary: s) (auto intro!: keeps_intros)

lemma handshake_ends:
  assumes "\<exists>rd\<in>set rounds. rd_packets rd = None \<and> deadline s \<le> rd_wake rd"
  shows "fst (QuicConnection_performHandshake E rounds lastSentPacket s) \<noteq> None"
  using assms
proof (induction rounds arbitrary: lastSentPacket s)
  case (Cons rd rounds)
  note IH = Cons.IH
  show ?case
  proof (cases "qc_conn s")
    case None
    then show ?thesis
      by (subst QuicConnection_performHandshake.simps) simp
  next
    case (Some n)
    let ?debounced = "\<not> 10000000 < rd_start rd - lastSentPacket"
    let ?m = "if ?debounced then (Ok (), s) else sendHandshakePacket E (rd_start rd) s"
    obtain r1 s1 where s1: "?m = (r1, s1)"
      by (meson surj_pair)
    have d1: "deadline s1 = deadline s"
      using keepsD [OF sendHandshakePacket_deadline [OF refl]] s1 by (auto split: if_splits)
    obtain r2 s2 where s2: "onConn (ng_handle_expiry (qv_ngtcp2 E) (rd_wake rd)) s1 = (r2, s2)"
      by (meson surj_pair)
    obtain r3 s3 where s3: "drainPackets E (rd_wake rd) pkts s1 = (r3, s3)" if "rd_packets rd = Some pkts" for pkts
      by (cases "rd_packets rd") (auto, meson surj_pair)
    have d: "deadline s2 = deadline s" "rd_packets rd = Some pkts \<Longrightarrow> deadline s3 = deadline s" for pkts
      using keepsD [OF onConn_deadline [OF refl] s2] keepsD [OF drainPackets_deadline [OF refl] s3] d1 by auto
    show ?thesis
    proof (cases "rd_packets rd = None \<and> deadline s \<le> rd_wake rd")
      case True
      then show ?thesis
        using Some s1 d1 by (subst QuicConnection_performHandshake.simps) (auto simp: Let_def split: sum.split)
    next
      case False
      then have later: "\<exists>rd\<in>set rounds. rd_packets rd = None \<and> deadline s \<le> rd_wake rd"
        using Cons.prems by auto
      have "fst (QuicConnection_performHandshake E rounds l s2) \<noteq> None" for l
        using IH [of s2 l] later d(1) by simp
      moreover have "fst (QuicConnection_performHandshake E rounds l s3) \<noteq> None" if "rd_packets rd = Some pkts" for l pkts
        using IH [of s3 l] later d(2) [OF that] by simp
      ultimately show ?thesis
        using Some s1 d1 s2 s3 False
        by (subst QuicConnection_performHandshake.simps)
          (auto simp: Let_def split: sum.split option.split prod.split)
    qed
  qed
qed simp

end
