(* ===== verification/Quic_Safety.thy ===== *)
theory Quic_Safety
  imports Quic_Connection
begin

text \<open>
  What the QUIC connection does with the bytes of its streams, on the laws that the documentation of
  ngtcp2 states: which bytes of a stream it took, and that it reports acknowledgements in order,
  without gaps and only of bytes that it took.  A turn of the worker is a step here; what may happen
  between the calls of a turn is in \<open>Quic_Stream\<close>.
\<close>

section \<open>The laws of ngtcp2\<close>

text \<open>The acknowledgements of a stream among the callbacks of a packet, from the first byte that was not
  acknowledged before.\<close>

fun acked_to :: "int \<Rightarrow> ngtcp2_event list \<Rightarrow> nat \<Rightarrow> nat option" where
  "acked_to i [] a = Some a"
| "acked_to i (AckedStreamData j offset len # evs) a =
     (if j \<noteq> i then acked_to i evs a
      else if offset = of_nat a then acked_to i evs (a + unat len) else None)"
| "acked_to i (_ # evs) a = acked_to i evs a"

text \<open>Whether an operation ended without a failed assertion or an access to what is not there.\<close>

definition survives :: "'a TransportResult \<Rightarrow> bool" where
  "survives r \<longleftrightarrow> r \<noteq> Inl AssertionFailed \<and> r \<noteq> Inl OutOfBounds"

lemma survives_simps [simp]:
  "survives (Inr x)" "survives (Inl (Failed e))" "\<not> survives (Inl AssertionFailed)" "\<not> survives (Inl OutOfBounds)"
  by (simp_all add: survives_def)

locale quic_conn_laws = quic_ring_laws "qv_ring E" contents
  for E :: "('n, 'b, 'd, 'i, 'f) quic_env" and contents :: "'b \<Rightarrow> bytes" +
  fixes taken :: "'n \<Rightarrow> int \<Rightarrow> bytes" and acked :: "'n \<Rightarrow> int \<Rightarrow> nat"
  assumes writev_takes: "ng_writev_stream (qv_ngtcp2 E) now fin i vecs n = (Inr (buf, k), n') \<Longrightarrow> buf \<noteq> [] \<Longrightarrow> 0 < k \<Longrightarrow>
      nat k \<le> length (concat vecs) \<and> taken n' = (taken n)(i := taken n i @ take (nat k) (concat vecs))"
    and writev_nothing: "ng_writev_stream (qv_ngtcp2 E) now fin i vecs n = (Inr (buf, k), n') \<Longrightarrow>
      buf = [] \<or> k \<le> 0 \<Longrightarrow> taken n' = taken n"
    and writev_error: "ng_writev_stream (qv_ngtcp2 E) now fin i vecs n = (Inl code, n') \<Longrightarrow> taken n' = taken n"
    and writev_acked: "acked (snd (ng_writev_stream (qv_ngtcp2 E) now fin i vecs n)) = acked n"
    and others_keep:
      "taken (snd (ng_write_pkt (qv_ngtcp2 E) now n)) = taken n" "acked (snd (ng_write_pkt (qv_ngtcp2 E) now n)) = acked n"
      "taken (ng_update_pkt_tx_time (qv_ngtcp2 E) now n) = taken n" "acked (ng_update_pkt_tx_time (qv_ngtcp2 E) now n) = acked n"
      "taken (snd (ng_handle_expiry (qv_ngtcp2 E) now n)) = taken n" "acked (snd (ng_handle_expiry (qv_ngtcp2 E) now n)) = acked n"
      "taken (ng_shutdown_stream (qv_ngtcp2 E) i n) = taken n" "acked (ng_shutdown_stream (qv_ngtcp2 E) i n) = acked n"
    and open_keeps: "taken (snd (ng_open_bidi_stream (qv_ngtcp2 E) n)) = taken n" "acked (snd (ng_open_bidi_stream (qv_ngtcp2 E) n)) = acked n"
    and open_fresh: "ng_open_bidi_stream (qv_ngtcp2 E) n = ((0, i), n') \<Longrightarrow> 0 \<le> i \<and> taken n i = [] \<and> acked n i = 0"
    and read_takes: "taken (snd (ng_read_pkt (qv_ngtcp2 E) now pkt n)) = taken n"
    and read_acks: "ng_read_pkt (qv_ngtcp2 E) now pkt n = ((res, evs), n') \<Longrightarrow> acked n i \<le> length (taken n i) \<Longrightarrow>
      acked_to i evs (acked n i) = Some (acked n' i) \<and> acked n' i \<le> length (taken n i)"
    and socket_errors: "qv_send E m buf = Inl e \<Longrightarrow> \<exists>t. e = Failed (TE_Qsox t)"
begin


section \<open>What holds of a connection between the turns of the worker\<close>

definition tracked :: "bytes \<Rightarrow> nat \<Rightarrow> bytes \<Rightarrow> 'b QuicStream \<Rightarrow> bool" where
  "tracked handed a accepted st \<longleftrightarrow>
     stream_inv contents \<lparr>sr_stream = st, sr_phase = Waiting, sr_accepted = accepted, sr_handed = handed,
       sr_acked = a, sr_received = [], sr_delivered = []\<rparr>"

definition streams_ok :: "(int \<Rightarrow> bytes) \<Rightarrow> (int \<Rightarrow> nat) \<Rightarrow> (int \<Rightarrow> bytes) \<Rightarrow> (int \<times> 'b QuicStream) list \<Rightarrow> bool" where
  "streams_ok T A acc ss \<longleftrightarrow> distinct (map fst ss) \<and>
     (\<forall>i st. (i, st) \<in> set ss \<longrightarrow> qs_streamId st = i \<and> i \<noteq> - 1 \<and> length (acc i) < 2 ^ 64 \<and> tracked (T i) (A i) (acc i) st)"

definition obs :: "('n, 'b, 'f) QuicConnection \<Rightarrow> ((int \<Rightarrow> bytes) \<times> (int \<Rightarrow> nat)) option" where
  "obs s = map_option (\<lambda>n. (taken n, acked n)) (qc_conn s)"

definition conn_inv :: "(int \<Rightarrow> bytes) \<Rightarrow> ('n, 'b, 'f) QuicConnection \<Rightarrow> bool" where
  "conn_inv acc s \<longleftrightarrow> (\<exists>T A. obs s = Some (T, A) \<and> streams_ok T A acc (qc_streams s))"

lemma tracked_step:
  assumes "tracked handed a accepted st"
    and "stream_step (qv_ring E) \<lparr>sr_stream = st, sr_phase = Waiting, sr_accepted = accepted, sr_handed = handed,
       sr_acked = a, sr_received = [], sr_delivered = []\<rparr> r"
    and "length (sr_accepted r) < 2 ^ 64"
  shows "stream_inv contents r"
  using stream_inv_step [OF assms(2) _ assms(3)] assms(1) by (simp add: tracked_def)

text \<open>What the user reads and the peer sends leaves the sending side alone.\<close>

lemma tracked_cong:
  assumes "tracked handed a accepted st" and "qs_sendBuffer st' = qs_sendBuffer st"
    and "qs_ackOffset st' = qs_ackOffset st" "qs_unackedBytes st' = qs_unackedBytes st"
    and "qs_streamOffset st' = qs_streamOffset st"
  shows "tracked handed a accepted st'"
  using assms by (simp add: tracked_def stream_inv_def Let_def)

lemma tracked_new: "tracked [] 0 [] (QuicStream_new (qv_ring E) i)"
  by (simp add: tracked_def stream_inv_def QuicStream_new_def)

lemma tracked_write:
  assumes "tracked handed a accepted st" and "QuicStream_write (qv_ring E) data st = (k, st')"
    and "length (accepted @ take k data) < 2 ^ 64"
  shows "tracked handed a (accepted @ take k data) st'"
  using tracked_step [OF assms(1) user_writes, of data k st'] assms(2,3) by (simp add: tracked_def)

lemma tracked_bounds:
  assumes "tracked handed a accepted st"
  shows "a \<le> length handed" and "length handed \<le> length accepted"
  using stream_invD(4-6) [OF assms [unfolded tracked_def]] by simp_all

lemma tracked_unsent:
  assumes "tracked handed a accepted st"
  shows "handed @ both (peekUnsentData (qv_ring E) st) = accepted"
proof -
  note D = stream_invD [OF assms [unfolded tracked_def]]
  have "unat (qs_unackedBytes st) \<le> length (contents (qs_sendBuffer st))"
    using D(2,4,5,6) by simp
  from peekUnsentData_drop [OF this] have "both (peekUnsentData (qv_ring E) st) = drop (length handed) accepted"
    using D(2,4,5) by (simp add: add.commute)
  then show ?thesis
    using D(1) by simp (metis append_take_drop_id)
qed

lemma tracked_send:
  assumes "tracked handed a accepted st" and "length accepted < 2 ^ 64"
    and "k \<le> length (both (peekUnsentData (qv_ring E) st))"
  shows "tracked (handed @ take k (both (peekUnsentData (qv_ring E) st))) a accepted (advanceSentData k st)"
proof -
  let ?r = "\<lparr>sr_stream = st, sr_phase = Waiting, sr_accepted = accepted, sr_handed = handed,
       sr_acked = a, sr_received = [], sr_delivered = []\<rparr>"
  let ?u = "both (peekUnsentData (qv_ring E) st)"
  have 1: "stream_inv contents (?r\<lparr>sr_phase := Sending k, sr_handed := handed @ take k ?u\<rparr>)"
    using tracked_step [OF assms(1) worker_sends, of ?u k] assms(2,3) by simp
  have "stream_step (qv_ring E) (?r\<lparr>sr_phase := Sending k, sr_handed := handed @ take k ?u\<rparr>)
      (?r\<lparr>sr_stream := advanceSentData k st, sr_handed := handed @ take k ?u\<rparr>)"
    using worker_sent [of "?r\<lparr>sr_phase := Sending k, sr_handed := handed @ take k ?u\<rparr>" k] by simp
  from stream_inv_step [OF this 1] assms(2) show ?thesis
    by (simp add: tracked_def)
qed

lemma tracked_ack:
  assumes "tracked handed a accepted st" and "length accepted < 2 ^ 64"
    and "a + unat len \<le> length handed"
    and "QuicStream_onAck (qv_ring E) (of_nat a) len st = (res, st')"
  shows "res = Ok ()" and "tracked handed (a + unat len) accepted st'"
  using onAck_effect(1,2) [OF assms(1) [unfolded tracked_def], of a "unat len" res st'] assms(2-4)
  by (simp_all add: legal_ack_def tracked_def)

lemma tracked_read:
  assumes "tracked handed a accepted st" and "QuicStream_read (qv_ring E) len st = (bs, st')"
  shows "tracked handed a accepted st'"
  using tracked_cong [OF assms(1)] QuicStream_read_fields [OF assms(2)] by simp

section \<open>The streams of a connection\<close>

lemma streams_okD:
  assumes "streams_ok T A acc ss" and "map_of ss i = Some st"
  shows "qs_streamId st = i" "i \<noteq> - 1" "length (acc i) < 2 ^ 64" "tracked (T i) (A i) (acc i) st"
  using assms map_of_SomeD [OF assms(2)] by (auto simp: streams_ok_def)

lemma streams_ok_update:
  assumes "streams_ok T A acc ss"
    and "\<And>j. j \<noteq> i \<Longrightarrow> T' j = T j \<and> A' j = A j \<and> acc' j = acc j"
    and "\<And>st. map_of ss i = Some st \<Longrightarrow>
      qs_streamId (g st) = i \<and> length (acc' i) < 2 ^ 64 \<and> tracked (T' i) (A' i) (acc' i) (g st)"
  shows "streams_ok T' A' acc' (map (\<lambda>(j, st). (j, if j = i then g st else st)) ss)"
proof -
  have keys: "map fst (map (\<lambda>(j, st). (j, if j = i then g st else st)) ss) = map fst ss"
    by (induction ss) auto
  have ok: "qs_streamId st' = j \<and> j \<noteq> - 1 \<and> length (acc' j) < 2 ^ 64 \<and> tracked (T' j) (A' j) (acc' j) st'"
    if "(j, st') \<in> set (map (\<lambda>(j, st). (j, if j = i then g st else st)) ss)" for j st'
  proof -
    from that obtain st where st: "(j, st) \<in> set ss" "st' = (if j = i then g st else st)"
      by auto
    then have "map_of ss j = Some st"
      using assms(1) by (simp add: streams_ok_def)
    then show ?thesis
      using streams_okD [OF assms(1), of j st] assms(2) [of j] assms(3) [of st] st(2) by (cases "j = i") auto
  qed
  have "distinct (map fst ss)"
    using assms(1) by (simp add: streams_ok_def)
  then show ?thesis
    unfolding streams_ok_def keys using ok by blast
qed

lemma streams_ok_filter:
  assumes "streams_ok T A acc ss"
  shows "streams_ok T A acc (filter P ss)"
  using assms by (auto simp: streams_ok_def distinct_map_filter)


section \<open>The operations\<close>

lemma onConn_obs:
  assumes "onConn f s = (r, s')" and "\<And>n. taken (snd (f n)) = taken n \<and> acked (snd (f n)) = acked n"
  shows "obs s' = obs s" and "qc_streams s' = qc_streams s" and "qc_congestion s' = qc_congestion s"
    and "obs s \<noteq> None \<Longrightarrow> \<exists>n. r = Ok (fst (f n))"
proof -
  have "obs s' = obs s \<and> qc_streams s' = qc_streams s \<and> qc_congestion s' = qc_congestion s \<and>
      (obs s \<noteq> None \<longrightarrow> (\<exists>n. r = Ok (fst (f n))))"
  proof (cases "qc_conn s")
    case None
    then show ?thesis
      using assms(1) by (simp add: onConn_def obs_def)
  next
    case (Some n)
    obtain x n' where "f n = (x, n')"
      by (cases "f n")
    then show ?thesis
      using assms(1) assms(2) [of n] Some by (auto simp: onConn_def obs_def) (metis fst_conv)
  qed
  then show "obs s' = obs s" "qc_streams s' = qc_streams s" "qc_congestion s' = qc_congestion s"
    "obs s \<noteq> None \<Longrightarrow> \<exists>n. r = Ok (fst (f n))"
    by auto
qed

lemma updateExpiry_obs:
  assumes "updateExpiry E s = (r, s')"
  shows "obs s' = obs s" and "qc_streams s' = qc_streams s" and "qc_congestion s' = qc_congestion s"
    and "obs s \<noteq> None \<Longrightarrow> r = Ok ()"
  using assms by (auto simp: updateExpiry_def onConn_def obs_def step_then_def split: option.splits)

lemma sendPacket_obs:
  assumes "sendPacket E now buf s = (r, s')" and "obs s \<noteq> None"
  shows "obs s' = obs s" and "qc_streams s' = qc_streams s" and "qc_congestion s' = qc_congestion s"
    and "r = Ok () \<or> (\<exists>t. r = Err (TE_Qsox t))"
proof -
  have "obs s' = obs s \<and> qc_streams s' = qc_streams s \<and> qc_congestion s' = qc_congestion s \<and>
      (r = Ok () \<or> (\<exists>e. qv_send E (qc_attempts s) buf = Inl e \<and> r = Inl e))"
    using assms
    by (auto simp: sendPacket_def Let_def updateExpiry_def onConn_def obs_def step_then_def others_keep
        split: option.splits sum.splits if_splits)
  then show "obs s' = obs s" "qc_streams s' = qc_streams s" "qc_congestion s' = qc_congestion s"
    "r = Ok () \<or> (\<exists>t. r = Err (TE_Qsox t))"
    using socket_errors by fastforce+
qed

lemma concat_parts: "concat (filter (\<lambda>v. v \<noteq> []) [fst wrp, snd wrp]) = both wrp"
  by (simp add: both_def)

text \<open>A datagram with bytes of a stream: an error of the socket ends the worker; after any other
  outcome the books are right.\<close>

lemma sendStreamData_inv:
  assumes inv: "conn_inv acc s" and st: "findStream i s = Some st"
    and res: "sendStreamData E now i False s = (r, s')"
  shows "(r = Ok () \<or> (\<exists>e. r = Err e)) \<and> qc_congestion s' = qc_congestion s \<and>
    map fst (qc_streams s') = map fst (qc_streams s) \<and> (conn_inv acc s' \<or> (\<exists>t. r = Err (TE_Qsox t)))"
proof -
  obtain T A where TA: "obs s = Some (T, A)" "streams_ok T A acc (qc_streams s)"
    using inv by (auto simp: conn_inv_def)
  then obtain n where n: "qc_conn s = Some n" "taken n = T" "acked n = A"
    by (auto simp: obs_def)
  let ?wrp = "peekUnsentData (qv_ring E) st"
  let ?vecs = "filter (\<lambda>v. v \<noteq> []) [fst ?wrp, snd ?wrp]"
  note st' = streams_okD [OF TA(2) st [unfolded findStream_def]]
  show ?thesis
  proof (cases "both ?wrp = []")
    case True
    then show ?thesis
      using res st inv by (simp add: sendStreamData_def Let_def)
  next
    case False
    obtain written n1 where w: "ng_writev_stream (qv_ngtcp2 E) now False i ?vecs n = (written, n1)"
      by (cases "ng_writev_stream (qv_ngtcp2 E) now False i ?vecs n")
    have acked: "acked n1 = A"
      using writev_acked [of now False i ?vecs n] w n(3) by (simp del: filter.simps)
    let ?s1 = "s\<lparr>qc_conn := Some n1\<rparr>"
    obtain u s2 where s2: "updateExpiry E ?s1 = (u, s2)"
      by (cases "updateExpiry E ?s1")
    have s1: "obs ?s1 = Some (taken n1, A)"
      using acked by (simp add: obs_def)
    note s2' = updateExpiry_obs [OF s2]
    have u: "u = Ok ()" and obs2: "obs s2 = Some (taken n1, A)"
      using s2'(1,4) s1 by simp_all
    have unfolded: "sendStreamData E now i False s =
      (case written of
         Inl code \<Rightarrow> (Err (quicError E code), s2)
       | Inr (outBuf, k) \<Rightarrow>
           if outBuf = [] then (Err (CustomKind CongestionLimited), s2)
           else case sendPacket E now outBuf s2 of
               (Inl e, s) \<Rightarrow> (Inl e, s)
             | (Inr _, s) \<Rightarrow> (Ok (), if 0 < k then onStream i (advanceSentData (nat k)) s else s))"
      using False st st'(1) n(1) w s2 u by (simp add: sendStreamData_def Let_def onConn_def del: filter.simps)
    have unchanged: "conn_inv acc s2" if "taken n1 = T"
      using TA(2) obs2 s2'(2) that by (simp add: conn_inv_def)
    show ?thesis
    proof (cases written)
      case (Inl code)
      have "taken n1 = T"
        using writev_error [OF w [unfolded Inl]] n(2) by simp
      with unchanged have "conn_inv acc s2"
        by blast
      then show ?thesis
        using Inl unfolded res s2'(2,3) by simp
    next
      case (Inr datagram)
      obtain buf k where bk: "datagram = (buf, k)"
        by (cases datagram)
      note w = w [unfolded Inr bk]
      show ?thesis
      proof (cases "buf = []")
        case True
        have "taken n1 = T"
          using writev_nothing [OF w] True n(2) by simp
        with unchanged have "conn_inv acc s2"
          by blast
        then show ?thesis
          using True unfolded Inr bk res s2'(2,3) by simp
      next
        case buf: False
        obtain v s3 where s3: "sendPacket E now buf s2 = (v, s3)"
          by (cases "sendPacket E now buf s2")
        have "obs s2 \<noteq> None"
          using obs2 by simp
        note s3' = sendPacket_obs [OF s3 this]
        show ?thesis
        proof (cases "v = Ok ()")
          case False
          then show ?thesis
            using unfolded Inr bk buf res s3 s3' s2' by auto
        next
          case v: True
          let ?g = "if 0 < k then advanceSentData (nat k) else (\<lambda>st. st)"
          have eq: "s' = s3\<lparr>qc_streams := map (\<lambda>(j, st). (j, if j = i then ?g st else st)) (qc_streams s3)\<rparr>"
            "r = Ok ()"
            using unfolded Inr bk buf res s3 v by (auto simp: onStream_def)
          have "streams_ok (taken n1) A acc (map (\<lambda>(j, st). (j, if j = i then ?g st else st)) (qc_streams s))"
          proof (rule streams_ok_update [OF TA(2)])
            show "taken n1 j = T j \<and> A j = A j \<and> acc j = acc j" if "j \<noteq> i" for j
              using that writev_takes [OF w buf] writev_nothing [OF w] n(2) by (cases "0 < k") auto
          next
            fix st1
            assume "map_of (qc_streams s) i = Some st1"
            then have st1: "st1 = st"
              using st by (simp add: findStream_def)
            show "qs_streamId (?g st1) = i \<and> length (acc i) < 2 ^ 64 \<and> tracked (taken n1 i) (A i) (acc i) (?g st1)"
            proof (cases "0 < k")
              case True
              then show ?thesis
                using writev_takes [OF w buf] n(2) st' st1 tracked_send [OF st'(4,3), of "nat k"]
                by (simp add: concat_parts advanceSentData_def del: filter.simps)
            next
              case False
              then show ?thesis
                using writev_nothing [OF w] n(2) st' st1 by simp
            qed
          qed
          moreover have "obs s' = Some (taken n1, A)"
            using s3'(1) obs2 unfolding eq(1) by (simp add: obs_def)
          moreover have "qc_streams s' = map (\<lambda>(j, st). (j, if j = i then ?g st else st)) (qc_streams s)"
            using s3'(2) s2'(2) unfolding eq(1) by simp
          ultimately have "conn_inv acc s'"
            unfolding conn_inv_def by metis
          moreover have "map fst (qc_streams s') = map fst (qc_streams s)"
            using s3'(2) s2'(2) unfolding eq(1) by (simp add: comp_def split_beta)
          ultimately show ?thesis
            using eq s3'(3) s2'(3) by simp
        qed
      qed
    qed
  qed
qed

lemma conn_inv_congestion [simp]: "conn_inv acc (s\<lparr>qc_congestion := b\<rparr>) = conn_inv acc s"
  by (simp add: conn_inv_def obs_def)

lemma conn_inv_obs:
  "conn_inv acc s \<Longrightarrow> obs s' = obs s \<Longrightarrow> qc_streams s' = qc_streams s \<Longrightarrow> conn_inv acc s'"
  by (simp add: conn_inv_def)

lemma Qsox_not_congestion [simp]: "\<not> isCongestionRelatedError E (TE_Qsox t)"
  by (simp add: isCongestionRelatedError_def)

text \<open>After \<open>mapErr\<close> an error ends the worker, and otherwise the books are right.\<close>

lemma mapCongestion_inv:
  assumes "r = Ok () \<or> (\<exists>e. r = Err e)" and "conn_inv acc s \<or> (\<exists>t. r = Err (TE_Qsox t))"
    and "mapCongestion E (r, s) = (r', s')"
  shows "survives r' \<and> (r' = Ok () \<longrightarrow> conn_inv acc s') \<and> qc_streams s' = qc_streams s"
  using assms by (auto simp: mapCongestion_def split: if_splits)

lemma writeStreams_inv:
  assumes "conn_inv acc s" and "set streamIds \<subseteq> fst ` set (qc_streams s)"
    and "writeStreams E now streamIds s = (r, s')"
  shows "survives r \<and> (r = Ok () \<longrightarrow> conn_inv acc s')"
  using assms
proof (induction streamIds arbitrary: s)
  case Nil
  then show ?case
    by auto
next
  case (Cons i streamIds)
  obtain st where st: "findStream i s = Some st"
    using Cons.prems(2) by (auto simp: findStream_def dest: weak_map_of_SomeI)
  show ?case
  proof (cases "unflushedBytes (qv_ring E) st = 0")
    case True
    then show ?thesis
      using Cons st by simp
  next
    case False
    obtain r1 s1 r2 s2 where s1: "sendStreamData E now i False s = (r1, s1)"
      and s2: "mapCongestion E (r1, s1) = (r2, s2)"
      by (meson surj_pair)
    note sent = sendStreamData_inv [OF Cons.prems(1) st s1]
    have m: "survives r2" "r2 = Ok () \<longrightarrow> conn_inv acc s2" "qc_streams s2 = qc_streams s1"
      using mapCongestion_inv [OF _ _ s2, of acc] sent by auto
    have keys: "fst ` set (qc_streams s2) = fst ` set (qc_streams s)"
      using sent m(3) by (metis list.set_map)
    show ?thesis
    proof (cases "r2 = Ok () \<and> \<not> qc_congestion s2")
      case True
      then show ?thesis
        using Cons.IH [of s2] Cons.prems(2,3) False st s1 s2 m keys by simp
    next
      case False': False
      then show ?thesis
        using Cons.prems(3) False st s1 s2 m by (cases r2) auto
    qed
  qed
qed

lemma sendNonStreamPacket_inv:
  assumes "conn_inv acc s" and "sendNonStreamPacket E now s = (r, s')"
  shows "(r = Ok () \<or> (\<exists>e. r = Err e)) \<and> conn_inv acc s'"
proof -
  have live: "obs s \<noteq> None"
    using assms(1) by (auto simp: conn_inv_def)
  obtain r1 s1 where s1: "onConn (ng_write_pkt (qv_ngtcp2 E) now) s = (r1, s1)"
    by (meson surj_pair)
  note s1' = onConn_obs [OF s1]
  obtain w where w: "r1 = Ok w" "obs s1 = obs s" "qc_streams s1 = qc_streams s"
    using s1' others_keep(1,2) live by auto
  obtain r2 s2 where s2: "updateExpiry E s1 = (r2, s2)"
    by (meson surj_pair)
  have s2': "r2 = Ok ()" "obs s2 = obs s" "qc_streams s2 = qc_streams s"
    using updateExpiry_obs [OF s2] w live by auto
  then have inv2: "conn_inv acc s2"
    using conn_inv_obs [OF assms(1)] by simp
  show ?thesis
  proof (cases w)
    case (Inl code)
    then show ?thesis
      using assms(2) s1 w(1) s2 s2'(1) inv2 by (auto simp: sendNonStreamPacket_def wrapWritePacket_def)
  next
    case (Inr buf)
    obtain r3 s3 where s3: "sendPacket E now buf s2 = (r3, s3)"
      by (meson surj_pair)
    have "obs s2 \<noteq> None"
      using s2'(2) live by simp
    note s3' = sendPacket_obs [OF s3 this]
    have "conn_inv acc s3"
      using conn_inv_obs [OF inv2] s3' by simp
    then show ?thesis
      using assms(2) s1 w(1) s2 s2'(1) s3 s3'(4) inv2 Inr
      by (auto simp: sendNonStreamPacket_def wrapWritePacket_def split: if_splits)
  qed
qed

lemma workerHandleWrites_inv:
  assumes "conn_inv acc s" and "workerHandleWrites E now s = (r, s')"
  shows "survives r \<and> (r = Ok () \<longrightarrow> conn_inv acc s')"
proof -
  let ?s = "s\<lparr>qc_congestion := False\<rparr>"
  obtain r1 s1 where s1: "writeStreams E now (map fst (qc_streams ?s)) ?s = (r1, s1)"
    by (meson surj_pair)
  have w: "survives r1 \<and> (r1 = Ok () \<longrightarrow> conn_inv acc s1)"
    using writeStreams_inv [OF _ _ s1, of acc] assms(1) by simp
  show ?thesis
  proof (cases "r1 = Ok () \<and> \<not> qc_congestion s1")
    case True
    obtain r2 s2 r3 s3 where s2: "sendNonStreamPacket E now s1 = (r2, s2)"
      and s3: "mapCongestion E (r2, s2) = (r3, s3)"
      by (meson surj_pair)
    have "conn_inv acc s1"
      using w True by blast
    from sendNonStreamPacket_inv [OF this s2] mapCongestion_inv [OF _ _ s3, of acc]
    have "survives r3 \<and> (r3 = Ok () \<longrightarrow> conn_inv acc s3)"
      by blast
    then show ?thesis
      using assms(2) s1 s2 s3 True by (cases r3) (auto simp: workerHandleWrites_def)
  next
    case False
    then show ?thesis
      using assms(2) s1 w by (cases r1) (auto simp: workerHandleWrites_def)
  qed
qed

section \<open>Packets\<close>

lemma acked_to_le: "acked_to i evs a = Some b \<Longrightarrow> a \<le> b"
  by (induction i evs a rule: acked_to.induct) (auto split: if_splits)

text \<open>What remains of the callbacks of a packet moves the acknowledged bytes from \<open>A\<close> to \<open>A'\<close>.\<close>

lemma callbacks_inv:
  assumes "qc_conn s = Some n" and "taken n = T" "acked n = A'" and "streams_ok T A acc (qc_streams s)"
    and "\<And>i. i \<in> fst ` set (qc_streams s) \<Longrightarrow> acked_to i evs (A i) = Some (A' i) \<and> A' i \<le> length (T i)"
    and "callbacks E evs s = (r, s')"
  shows "r = Ok () \<and> conn_inv acc s'"
  using assms
proof (induction evs arbitrary: s n A)
  case Nil
  have "A' i = A i" if "(i, st) \<in> set (qc_streams s)" for i st
    using Nil.prems(5) [of i] that by force
  then have "streams_ok T A' acc (qc_streams s)"
    using Nil.prems(4) unfolding streams_ok_def by metis
  then show ?case
    using Nil.prems by (auto simp: conn_inv_def obs_def)
next
  case (Cons ev evs)
  show ?case
  proof (cases ev)
    case (RecvStreamData j data)
    let ?s = "QuicConnection_onReceivedData E j data s"
    have "streams_ok T A acc (qc_streams ?s)"
    proof (cases "findStream j s")
      case None
      then show ?thesis
        using Cons.prems(4) by (simp add: QuicConnection_onReceivedData_def)
    next
      case (Some st)
      have "streams_ok T A acc (map (\<lambda>(k, st). (k, if k = j then QuicStream_onReceivedData (qv_ring E) data st else st))
          (qc_streams s))"
        by (rule streams_ok_update [OF Cons.prems(4)])
          (use streams_okD [OF Cons.prems(4), of j] tracked_cong in
            \<open>auto simp: QuicStream_onReceivedData_def Let_def\<close>)
      then show ?thesis
        using Some by (simp add: QuicConnection_onReceivedData_def onStream_def)
    qed
    moreover have "fst ` set (qc_streams ?s) = fst ` set (qc_streams s)"
      by (force simp: QuicConnection_onReceivedData_def onStream_def image_iff split: option.split)
    moreover have "qc_conn ?s = qc_conn s"
      by (simp add: QuicConnection_onReceivedData_def onStream_def split: option.split)
    ultimately show ?thesis
      using Cons.IH [of ?s n A] Cons.prems RecvStreamData by simp
  next
    case (AckedStreamData j off len)
    show ?thesis
    proof (cases "findStream j s")
      case None
      then have "j \<notin> fst ` set (qc_streams s)"
        by (simp add: findStream_def map_of_eq_None_iff)
      then show ?thesis
        using Cons.IH [of s n A] Cons.prems AckedStreamData None
        by (simp add: QuicConnection_onAckedData_def) (metis option.distinct(1))
    next
      case (Some st)
      note D = streams_okD [OF Cons.prems(4) Some [unfolded findStream_def]]
      have "j \<in> fst ` set (qc_streams s)"
        using map_of_SomeD [OF Some [unfolded findStream_def]] by force
      with Cons.prems(5) [of j] AckedStreamData
      have off: "off = of_nat (A j)" "acked_to j evs (A j + unat len) = Some (A' j)" "A' j \<le> length (T j)"
        by (auto split: if_splits)
      obtain r1 st1 where st1: "QuicStream_onAck (qv_ring E) off len st = (r1, st1)"
        by (meson surj_pair)
      have le: "A j + unat len \<le> length (T j)"
        using acked_to_le [OF off(2)] off(3) by simp
      have ack: "r1 = Ok ()" "tracked (T j) (A j + unat len) (acc j) st1"
        using tracked_ack [OF D(4,3) le] st1 off(1) by auto
      have id1: "qs_streamId st1 = j"
        using st1 D(1) by (auto simp: QuicStream_onAck_def Let_def step_then_def split: sum.splits)
      let ?A = "A(j := A j + unat len)"
      let ?s = "onStream j (\<lambda>_. st1) s"
      have ok: "streams_ok T ?A acc (qc_streams ?s)"
        unfolding onStream_def
        using streams_ok_update [OF Cons.prems(4), of j T ?A acc "\<lambda>_. st1"] D(3) ack(2) id1 by simp
      have keys: "fst ` set (qc_streams ?s) = fst ` set (qc_streams s)"
        by (force simp: onStream_def image_iff)
      have acks: "acked_to i evs (?A i) = Some (A' i) \<and> A' i \<le> length (T i)"
        if "i \<in> fst ` set (qc_streams ?s)" for i
        using Cons.prems(5) [of i] that keys off AckedStreamData by (auto split: if_splits)
      have "qc_conn ?s = Some n"
        using Cons.prems(1) by (simp add: onStream_def)
      from Cons.IH [OF this Cons.prems(2,3) ok acks] show ?thesis
        using Cons.prems(6) AckedStreamData Some st1 ack(1) by (simp add: QuicConnection_onAckedData_def)
    qed
  next
    case (StreamClosed j)
    let ?ss = "filter (\<lambda>(i, _). i \<noteq> j) (qc_streams s)"
    have ok: "streams_ok T A acc ?ss" and keys: "fst ` set ?ss \<subseteq> fst ` set (qc_streams s)"
      using streams_ok_filter [OF Cons.prems(4)] by auto
    obtain n1 s1 where s1: "eraseStream E j s = (Ok (), s1)" "qc_conn s1 = Some n1" "taken n1 = T" "acked n1 = A'"
      "streams_ok T A acc (qc_streams s1)" "fst ` set (qc_streams s1) \<subseteq> fst ` set (qc_streams s)"
    proof (cases "findStream j s")
      case None
      then show ?thesis
        using that [of s n] Cons.prems(1-4) by (simp add: eraseStream_def)
    next
      case (Some st)
      let ?s = "s\<lparr>qc_streams := ?ss\<rparr>"
      let ?n = "ng_shutdown_stream (qv_ngtcp2 E) (qs_streamId st) n"
      show ?thesis
      proof (cases "qs_streamId st \<noteq> - 1 \<and> \<not> qs_closed st")
        case True
        then show ?thesis
          using that [of "?s\<lparr>qc_conn := Some ?n\<rparr>" ?n] Cons.prems(1-3) ok Some others_keep(7,8)
          by (auto simp: eraseStream_def Let_def onConn_def QuicStream_destroy_def QuicStream_close_def)
      next
        case False
        then have "eraseStream E j s = (Ok (), ?s)"
          using Some by (auto simp: eraseStream_def Let_def)
        with that [of ?s n] Cons.prems(1-3) ok keys show ?thesis
          by simp
      qed
    qed
    have acks: "acked_to i evs (A i) = Some (A' i) \<and> A' i \<le> length (T i)" if "i \<in> fst ` set (qc_streams s1)" for i
      using Cons.prems(5) [of i] that s1(6) StreamClosed by auto
    from Cons.IH [OF s1(2-5) acks] show ?thesis
      using Cons.prems(6) StreamClosed s1(1) by simp
  qed
qed

lemma receivePacket_inv:
  assumes "conn_inv acc s" and "receivePacket E now pkt s = (r, s')"
  shows "survives r \<and> conn_inv acc s'"
proof (cases pkt)
  case (Packet buf)
  let ?s = "s\<lparr>qc_totalBytesReceived := qc_totalBytesReceived s + of_nat (length buf)\<rparr>"
  obtain T A where TA: "obs s = Some (T, A)" "streams_ok T A acc (qc_streams s)"
    using assms(1) by (auto simp: conn_inv_def)
  then obtain n where n: "qc_conn s = Some n" "taken n = T" "acked n = A"
    by (auto simp: obs_def)
  obtain res evs n1 where n1: "ng_read_pkt (qv_ngtcp2 E) now buf n = ((res, evs), n1)"
    by (metis surj_pair)
  have acks: "acked_to i evs (A i) = Some (acked n1 i) \<and> acked n1 i \<le> length (T i)"
    if "i \<in> fst ` set (qc_streams s)" for i
  proof -
    from that obtain st where "map_of (qc_streams s) i = Some st"
      by (auto dest: weak_map_of_SomeI)
    then have "A i \<le> length (T i)"
      using tracked_bounds(1) [OF streams_okD(4) [OF TA(2)]] by blast
    then show ?thesis
      using read_acks [OF n1, of i] n by simp
  qed
  obtain r1 s1 where s1: "callbacks E evs (?s\<lparr>qc_conn := Some n1\<rparr>) = (r1, s1)"
    by (meson surj_pair)
  have "taken n1 = T"
    using read_takes [of now buf n] n1 n(2) by simp
  with callbacks_inv [of "?s\<lparr>qc_conn := Some n1\<rparr>" n1 T "acked n1" A acc evs, OF _ _ _ _ _ s1] acks TA(2)
  have inv: "r1 = Ok ()" "conn_inv acc s1"
    by auto
  then obtain n2 where n2: "qc_conn s1 = Some n2"
    by (auto simp: conn_inv_def obs_def)
  have same: "conn_inv acc (s1\<lparr>qc_conn := Some n2\<rparr>)"
    using inv(2) n2 by (simp add: conn_inv_def obs_def)
  show ?thesis
    using assms(2) Packet n(1) n1 s1 inv n2 same
    by (auto simp: receivePacket_def Let_def onConn_def split: if_splits)
qed (use assms in \<open>auto simp: receivePacket_def\<close>)

lemma handleExpiry_inv:
  assumes "conn_inv acc s" and "handleExpiry E now s = (r, s')"
  shows "survives r \<and> conn_inv acc s'"
proof -
  have live: "obs s \<noteq> None"
    using assms(1) by (auto simp: conn_inv_def)
  obtain r1 s1 r2 s2 where s1: "onConn (ng_handle_expiry (qv_ngtcp2 E) now) s = (r1, s1)"
    and s2: "updateExpiry E s1 = (r2, s2)"
    by (meson surj_pair)
  have s1': "obs s1 = obs s" "qc_streams s1 = qc_streams s" "\<exists>code. r1 = Ok code"
    using onConn_obs [OF s1] others_keep(5,6) live by auto
  then have "obs s2 = obs s" "qc_streams s2 = qc_streams s" "r2 = Ok ()"
    using updateExpiry_obs [OF s2] live by auto
  then have "conn_inv acc s1" "conn_inv acc s2" "r2 = Ok ()"
    using conn_inv_obs [OF assms(1)] s1' by auto
  then show ?thesis
    using assms(2) s1 s2 s1'(3) by (auto simp: handleExpiry_def split: if_splits)
qed

lemma wakeUp_inv:
  assumes "conn_inv acc s" and "wakeUp E now wake s = (r, s')"
  shows "survives r \<and> conn_inv acc s'"
proof (cases wake)
  case (Arrived pkt)
  obtain r1 s1 where s1: "receivePacket E now pkt s = (r1, s1)"
    by (meson surj_pair)
  show ?thesis
    using receivePacket_inv [OF assms(1) s1] assms(2) Arrived s1
    by (auto split: sum.splits failure.splits)
next
  case Expired
  obtain r1 s1 where s1: "handleExpiry E now s = (r1, s1)"
    by (meson surj_pair)
  have "conn_inv acc (s1\<lparr>qc_fatalError := e, qc_connected := b\<rparr>)" for e b
    using handleExpiry_inv [OF assms(1) s1] by (simp add: conn_inv_def obs_def)
  then show ?thesis
    using handleExpiry_inv [OF assms(1) s1] assms(2) Expired s1
    by (auto split: sum.splits failure.splits)
qed (use assms in auto)

section \<open>The user's operations\<close>

lemma onStream_inv:
  assumes "conn_inv acc s" and "findStream i s = Some st" and "\<And>j. j \<noteq> i \<Longrightarrow> acc' j = acc j"
    and "qs_streamId st' = qs_streamId st" and "length (acc' i) < 2 ^ 64"
    and "\<And>handed a. tracked handed a (acc i) st \<Longrightarrow> tracked handed a (acc' i) st'"
  shows "conn_inv acc' (onStream i (\<lambda>_. st') s)"
proof -
  obtain T A where TA: "obs s = Some (T, A)" "streams_ok T A acc (qc_streams s)"
    using assms(1) by (auto simp: conn_inv_def)
  note D = streams_okD [OF TA(2) assms(2) [unfolded findStream_def]]
  have "streams_ok T A acc' (qc_streams (onStream i (\<lambda>_. st') s))"
    unfolding onStream_def
    using streams_ok_update [OF TA(2), of i T A acc' "\<lambda>_. st'"] assms(3-6) D by simp
  moreover have "obs (onStream i (\<lambda>_. st') s) = Some (T, A)"
    using TA(1) by (simp add: obs_def onStream_def)
  ultimately show ?thesis
    unfolding conn_inv_def by blast
qed

lemma QuicConnection_send_inv:
  assumes "conn_inv acc s" and "QuicConnection_send E i data s = Some (Ok k, s')"
    and "length (acc i @ take k data) < 2 ^ 64"
  shows "conn_inv (acc(i := acc i @ take k data)) s'"
proof (cases "data = []")
  case True
  then show ?thesis
    using assms by (auto simp: QuicConnection_send_def split: if_splits)
next
  case False
  then obtain st st' where st: "findStream i s = Some st" "QuicStream_write (qv_ring E) data st = (k, st')"
    "s' = onStream i (\<lambda>_. st') s"
    using assms(2) by (auto simp: QuicConnection_send_def getStream_def split: if_splits option.splits prod.splits)
  have "qs_streamId st' = qs_streamId st"
    using st(2) by (auto simp: QuicStream_write_def Let_def split: if_splits)
  then show ?thesis
    unfolding st(3) using onStream_inv [OF assms(1) st(1), of "acc(i := acc i @ take k data)" st']
      tracked_write [OF _ st(2)] assms(3) by simp
qed

lemma QuicConnection_receive_inv:
  assumes "conn_inv acc s" and "QuicConnection_receive E i len [] s = (r, s')"
  shows "conn_inv acc s'"
proof (cases "\<exists>st. findStream i s = Some st \<and> \<not> qc_cancelled s \<and> \<not> qc_closed s \<and> len \<noteq> 0")
  case True
  then obtain st bs st' where st: "findStream i s = Some st" "QuicStream_read (qv_ring E) len st = (bs, st')"
    by (meson surj_pair)
  then have s': "s' = onStream i (\<lambda>_. st') s"
    using assms(2) True by (auto simp: QuicConnection_receive_def receiveLoop.simps getStream_def Let_def split: if_splits)
  have "qs_streamId st' = qs_streamId st"
    using st(2) by (auto simp: QuicStream_read_def Let_def split: if_splits)
  moreover have "length (acc i) < 2 ^ 64"
    using assms(1) st(1) by (auto simp: conn_inv_def findStream_def dest: streams_okD(3))
  ultimately show ?thesis
    unfolding s' using onStream_inv [OF assms(1) st(1), of acc st'] tracked_read [OF _ st(2)] by simp
next
  case False
  then show ?thesis
    using assms by (auto simp: QuicConnection_receive_def receiveLoop.simps getStream_def split: if_splits option.splits)
qed

lemma closeStream_inv:
  assumes "conn_inv acc s" and "closeStream E i s = (r, s')"
  shows "survives r \<and> conn_inv acc s'"
proof (cases "findStream i s")
  case None
  then show ?thesis
    using assms by (auto simp: closeStream_def getStream_def)
next
  case (Some st)
  show ?thesis
  proof (cases "qs_closed st \<or> qs_streamId st = - 1")
    case True
    then show ?thesis
      using assms Some by (auto simp: closeStream_def getStream_def)
  next
    case False
    obtain n where n: "qc_conn s = Some n"
      using assms(1) by (auto simp: conn_inv_def obs_def)
    let ?st = "st\<lparr>qs_closed := True\<rparr>"
    let ?s = "s\<lparr>qc_conn := Some (ng_shutdown_stream (qv_ngtcp2 E) (qs_streamId st) n)\<rparr>"
    have "conn_inv acc ?s"
      using assms(1) n others_keep(7,8) by (simp add: conn_inv_def obs_def)
    moreover have "length (acc i) < 2 ^ 64"
      using assms(1) Some by (auto simp: conn_inv_def findStream_def dest: streams_okD(3))
    moreover have "tracked handed a (acc i) ?st" if "tracked handed a (acc i) st" for handed a
      using tracked_cong [OF that] by simp
    moreover have "findStream i ?s = Some st"
      using Some by (simp add: findStream_def)
    ultimately have "conn_inv acc (onStream i (\<lambda>_. ?st) ?s)"
      using onStream_inv [of acc ?s i st acc ?st] by simp
    moreover have "r = Ok ()" "s' = onStream i (\<lambda>_. ?st) ?s"
      using assms(2) False Some n by (auto simp: closeStream_def getStream_def onConn_def QuicStream_close_def Let_def)
    ultimately show ?thesis
      by simp
  qed
qed

lemma openStream_inv:
  assumes "conn_inv acc s" and "openStream E s = (Ok i, s')"
  shows "conn_inv (if findStream i s = None then acc(i := []) else acc) s'"
proof -
  obtain T A where TA: "obs s = Some (T, A)" "streams_ok T A acc (qc_streams s)"
    using assms(1) by (auto simp: conn_inv_def)
  then obtain n where n: "qc_conn s = Some n" "taken n = T" "acked n = A"
    by (auto simp: obs_def)
  obtain code j n1 where n1: "ng_open_bidi_stream (qv_ngtcp2 E) n = ((code, j), n1)"
    by (metis surj_pair)
  have opened: "code = 0" "j = i" "s' = (if findStream i s \<noteq> None then s\<lparr>qc_conn := Some n1\<rparr>
      else s\<lparr>qc_conn := Some n1, qc_streams := qc_streams s @ [(i, QuicStream_new (qv_ring E) i)]\<rparr>)"
    using assms(2) n(1) n1 by (auto simp: openStream_def onConn_def findStream_def step_then_eq_Inr split: if_splits)
  have obs': "taken n1 = T" "acked n1 = A"
    using open_keeps [of n] n1 n by simp_all
  have fresh: "0 \<le> i" "T i = []" "A i = 0"
    using open_fresh [of n i n1] n1 opened(1,2) n by auto
  show ?thesis
  proof (cases "findStream i s")
    case None
    then have "i \<notin> fst ` set (qc_streams s)"
      by (simp add: findStream_def map_of_eq_None_iff)
    moreover from this have "(i, st) \<notin> set (qc_streams s)" for st
      by force
    ultimately have "streams_ok T A (acc(i := [])) (qc_streams s @ [(i, QuicStream_new (qv_ring E) i)])"
      using TA(2) fresh tracked_new [of i] by (auto simp: streams_ok_def QuicStream_new_def)
    then show ?thesis
      using opened None obs' by (simp add: conn_inv_def obs_def)
  next
    case (Some st)
    then show ?thesis
      using opened obs' TA(2) by (simp add: conn_inv_def obs_def)
  qed
qed

end

section \<open>Runs of a connection\<close>

text \<open>What users, the worker and the peer do to an established connection, and the bytes that were
  accepted on each stream since it was opened.  Nobody lives to write \<open>2 ^ 64\<close> bytes.\<close>

inductive conn_step :: "('n, 'b, 'd, 'i, 'f) quic_env \<Rightarrow> (int \<Rightarrow> bytes) \<times> ('n, 'b, 'f) QuicConnection \<Rightarrow>
    (int \<Rightarrow> bytes) \<times> ('n, 'b, 'f) QuicConnection \<Rightarrow> bool" for E where
  opens: "openStream E s = (Ok i, s') \<Longrightarrow>
    conn_step E (acc, s) (if findStream i s = None then acc(i := []) else acc, s')"
| sends: "QuicConnection_send E i data s = Some (Ok k, s') \<Longrightarrow> length (acc i @ take k data) < 2 ^ 64 \<Longrightarrow>
    conn_step E (acc, s) (acc(i := acc i @ take k data), s')"
| receives: "QuicConnection_receive E i len [] s = (r, s') \<Longrightarrow> conn_step E (acc, s) (acc, s')"
| closes: "closeStream E i s = (r, s') \<Longrightarrow> conn_step E (acc, s) (acc, s')"
| works: "workerHandleWrites E now s = (Ok (), s') \<Longrightarrow> conn_step E (acc, s) (acc, s')"
| wakes: "wakeUp E now wake s = (r, s') \<Longrightarrow> conn_step E (acc, s) (acc, s')"

context quic_conn_laws
begin

lemma conn_inv_step:
  assumes "conn_step E p p'" and "conn_inv (fst p) (snd p)"
  shows "conn_inv (fst p') (snd p')"
  using assms
proof (induction rule: conn_step.induct)
  case (opens s i s' acc)
  then show ?case
    using openStream_inv by simp
next
  case (sends i data s k s' acc)
  then show ?case
    using QuicConnection_send_inv [of acc s i data k s'] by (simp add: fun_upd_def)
next
  case (receives i len s r s' acc)
  then show ?case
    using QuicConnection_receive_inv by simp
next
  case (closes i s r s' acc)
  then show ?case
    using closeStream_inv by fastforce
next
  case (works now s s' acc)
  then show ?case
    using workerHandleWrites_inv by fastforce
next
  case (wakes now wake s r s' acc)
  then show ?case
    using wakeUp_inv by fastforce
qed

lemma conn_inv_reachable:
  assumes "(conn_step E)\<^sup>*\<^sup>* p p'" and "conn_inv (fst p) (snd p)"
  shows "conn_inv (fst p') (snd p')"
  using assms by (induction rule: rtranclp_induct) (auto dest: conn_inv_step)

lemma conn_inv_start: "qc_conn s = Some n \<Longrightarrow> qc_streams s = [] \<Longrightarrow> conn_inv acc s"
  by (simp add: conn_inv_def obs_def streams_ok_def)

lemma conn_inv_books:
  assumes "conn_inv acc s"
  shows "\<exists>n. qc_conn s = Some n \<and> (\<forall>i st. (i, st) \<in> set (qc_streams s) \<longrightarrow>
    taken n i @ both (peekUnsentData (qv_ring E) st) = acc i)"
  using assms tracked_unsent by (auto simp: conn_inv_def obs_def streams_ok_def) blast

end

section \<open>Sending all of the data\<close>

context quic_conn_laws
begin

text \<open>Whatever the others do while the call waits, as long as they do not write to this stream.\<close>

lemma sendAll_accepts:
  assumes "conn_inv acc s" and "QuicConnection_sendAll E i data waits s = (Some (Ok ()), s')"
    and "length (acc i @ data) < 2 ^ 64"
    and "\<And>others acc s. others \<in> set waits \<Longrightarrow> conn_inv acc s \<Longrightarrow> conn_inv acc (others s)"
  shows "conn_inv (acc(i := acc i @ data)) s'"
  using assms
proof (induction "length data + length waits" arbitrary: data waits s acc rule: less_induct)
  case less
  show ?case
  proof (cases "data = []")
    case True
    then show ?thesis
      using less.prems(1,2) by (subst (asm) QuicConnection_sendAll.simps) simp
  next
    case False
    show ?thesis
    proof (cases "QuicConnection_send E i data s")
      case None
      then obtain others later where w: "waits = others # later"
        "QuicConnection_sendAll E i data later (others s) = (Some (Ok ()), s')"
        using less.prems(2) False by (subst (asm) QuicConnection_sendAll.simps) (auto split: list.splits)
      show ?thesis
        using less.hyps [of data later acc "others s"] less.prems w by simp
    next
      case (Some p)
      then obtain k s1 where s1: "QuicConnection_send E i data s = Some (Ok k, s1)"
        "QuicConnection_sendAll E i (drop k data) waits s1 = (Some (Ok ()), s')"
        using less.prems(2) False
        by (subst (asm) QuicConnection_sendAll.simps) (auto split: sum.splits prod.splits)
      have k: "0 < k" "k \<le> length data"
        using QuicConnection_send_written [OF s1(1) False] .
      let ?acc = "acc(i := acc i @ take k data)"
      have "conn_inv ?acc s1"
        using QuicConnection_send_inv [OF less.prems(1) s1(1)] less.prems(3) by simp
      moreover have "?acc(i := ?acc i @ drop k data) = acc(i := acc i @ data)"
        by (simp add: fun_eq_iff)
      ultimately show ?thesis
        using less.hyps [of "drop k data" waits ?acc s1] less.prems(3,4) s1(2) k by simp
    qed
  qed
qed

end

section \<open>A reference ngtcp2\<close>

text \<open>It takes what it is offered up to 1000 bytes.  The packets of its peer begin with a number:
  0 completes the handshake, 1 acknowledges bytes of the stream 0, 2 has bytes of it, 3 closes it.\<close>

record toy_conn =
  ty_completed :: bool
  ty_taken :: "int \<Rightarrow> bytes"
  ty_acked :: "int \<Rightarrow> nat"

definition toy_new :: toy_conn where
  "toy_new = \<lparr>ty_completed = False, ty_taken = (\<lambda>_. []), ty_acked = (\<lambda>_. 0)\<rparr>"

fun toy_read :: "bytes \<Rightarrow> toy_conn \<Rightarrow> (int \<times> ngtcp2_event list) \<times> toy_conn" where
  "toy_read (b # bs) n =
     (if b = 0 then ((0, []), n\<lparr>ty_completed := True\<rparr>)
      else if b = 1 then
        let a = ty_acked n 0; k = min (unat (hd (bs @ [0]))) (length (ty_taken n 0) - a)
        in ((0, [AckedStreamData 0 (of_nat a) (of_nat k)]), n\<lparr>ty_acked := (ty_acked n)(0 := a + k)\<rparr>)
      else if b = 2 then ((0, [RecvStreamData 0 bs]), n)
      else if b = 3 then ((0, [StreamClosed 0]), n)
      else ((- 1, []), n))"
| "toy_read [] n = ((- 1, []), n)"

definition toy_ngtcp2 :: "toy_conn ngtcp2_ops" where
  "toy_ngtcp2 = \<lparr>ng_strerror = (\<lambda>_. ''error''), ng_STREAM_DATA_BLOCKED = - 210, ng_FLOW_CONTROL = - 211,
     ng_IDLE_CLOSE = - 212, ng_CRYPTO = - 213, ng_client_new = (\<lambda>_ _. (0, toy_new)),
     ng_handshake_completed = ty_completed, ng_handle_expiry = (\<lambda>_ n. (0, n)), ng_get_expiry = (\<lambda>_. 100),
     ng_open_bidi_stream = (\<lambda>n. (if ty_taken n 0 = [] \<and> ty_acked n 0 = 0 then (0, 0) else (- 1, - 1), n)),
     ng_shutdown_stream = (\<lambda>_ n. n), ng_write_pkt = (\<lambda>_ n. (Inr (if ty_completed n then [] else [192]), n)),
     ng_writev_stream = (\<lambda>_ _ i vecs n.
       let k = min 1000 (length (concat vecs))
       in (Inr (64 # take k (concat vecs), int k), n\<lparr>ty_taken := (ty_taken n)(i := ty_taken n i @ take k (concat vecs))\<rparr>)),
     ng_write_connection_close = (\<lambda>_ _ n. (Inr [99], n)), ng_update_pkt_tx_time = (\<lambda>_ n. n),
     ng_read_pkt = (\<lambda>_ bs n. toy_read bs n), ng_lastTlsError = (\<lambda>_. ''error'')\<rparr>"

definition toy_env :: "(toy_conn, bytes \<times> nat, nat, nat, nat) quic_env" where
  "toy_env = \<lparr>qv_ngtcp2 = toy_ngtcp2, qv_ring = slack_ring, qv_time = nat_time,
     qv_chance = (\<lambda>_ _. False), qv_send = (\<lambda>_ _. Ok ())\<rparr>"

lemma toy_acks: "min (unat (b :: u8)) m < 2 ^ 64"
proof -
  have "min (unat b) m \<le> unat b"
    by simp
  also have "unat b < 256"
    by (rule unat_u8_less)
  also have "256 < (2 :: nat) ^ 64"
    by simp
  finally show ?thesis .
qed

interpretation toy_quic: quic_conn_laws toy_env fst ty_taken ty_acked
proof -
  have ring: "qv_ring toy_env = slack_ring"
    by (simp add: toy_env_def)
  show "quic_conn_laws toy_env fst ty_taken ty_acked"
  proof (intro quic_conn_laws.intro quic_conn_laws_axioms.intro)
    show "quic_ring_laws (qv_ring toy_env) fst"
      unfolding ring by (rule slack_ring.quic_ring_laws_axioms)
  next
    fix now :: u64 and pkt :: bytes and n n' :: toy_conn and res :: int and evs i
    assume "ng_read_pkt (qv_ngtcp2 toy_env) now pkt n = ((res, evs), n')"
      and "ty_acked n i \<le> length (ty_taken n i)"
    then show "acked_to i evs (ty_acked n i) = Some (ty_acked n' i) \<and> ty_acked n' i \<le> length (ty_taken n i)"
      using unat_of_nat64 [OF toy_acks]
      by (cases pkt) (auto simp: toy_env_def toy_ngtcp2_def Let_def split: if_splits)
  next
    fix now :: u64 and pkt :: bytes and n :: toy_conn
    show "ty_taken (snd (ng_read_pkt (qv_ngtcp2 toy_env) now pkt n)) = ty_taken n"
      by (cases pkt) (auto simp: toy_env_def toy_ngtcp2_def Let_def)
  qed (auto simp: toy_env_def toy_ngtcp2_def Let_def fun_eq_iff split: if_splits)
qed

section \<open>Properties\<close>

text \<open>C6 (safety).  Whatever users, the worker and the peer do on a QUIC connection, in any order and on
  any number of streams: what ngtcp2 took of a stream, followed by what the worker would offer it
  next, is exactly what the users' sends accepted on it; and no turn of the worker and nothing that
  wakes it (no packet of the peer) makes an assertion fail or touches a connection that is not
  there.\<close>

theorem quic_connection_delivers:
  assumes "quic_conn_laws E contents taken acked"
    and "qc_conn s0 = Some n0" and "qc_streams s0 = []"
    and "(conn_step E)\<^sup>*\<^sup>* (acc0, s0) (acc, s)"
  shows "(\<exists>n. qc_conn s = Some n \<and> (\<forall>i st. (i, st) \<in> set (qc_streams s) \<longrightarrow>
      taken n i @ both (peekUnsentData (qv_ring E) st) = acc i)) \<and>
    survives (fst (workerHandleWrites E now s)) \<and> survives (fst (wakeUp E now wake s))"
proof -
  have inv: "quic_conn_laws.conn_inv contents taken acked acc s"
    using quic_conn_laws.conn_inv_reachable [OF assms(1,4)] quic_conn_laws.conn_inv_start [OF assms(1-3)] by simp
  show ?thesis
    using quic_conn_laws.conn_inv_books [OF assms(1) inv]
      quic_conn_laws.workerHandleWrites_inv [OF assms(1) inv surjective_pairing]
      quic_conn_laws.wakeUp_inv [OF assms(1) inv surjective_pairing] by blast
qed

text \<open>A stream is opened, three bytes are sent and handed over, two of them are acknowledged, one more is
  sent.\<close>

definition toy_start :: "(toy_conn, bytes \<times> nat, nat) QuicConnection" where
  "toy_start = (QuicConnection_new 0 0)\<lparr>qc_conn := Some (toy_new\<lparr>ty_completed := True\<rparr>), qc_connected := True\<rparr>"

lemmas toy_defs = toy_env_def toy_ngtcp2_def toy_start_def toy_new_def QuicConnection_new_def
  slack_ring_def QuicStream_new_def

definition toy_sent :: "u64 \<Rightarrow> (toy_conn, bytes \<times> nat, nat) QuicConnection" where
  "toy_sent received = toy_start\<lparr>qc_nextExpiry := 100, qc_lastSendAttempt := 5, qc_totalBytesSent := 4,
     qc_totalBytesReceived := received, qc_attempts := 1, qc_wire := [[64, 1, 2, 3]]\<rparr>"

definition toy_at :: "(toy_conn, bytes \<times> nat, nat) QuicConnection \<Rightarrow> bytes \<Rightarrow> bytes \<Rightarrow> nat \<Rightarrow>
    (toy_conn, bytes \<times> nat, nat) QuicConnection" where
  "toy_at s buffered handed a = s\<lparr>
     qc_conn := Some \<lparr>ty_completed = True, ty_taken = (\<lambda>_. [])(0 := handed), ty_acked = (\<lambda>_. 0)(0 := a)\<rparr>,
     qc_streams := [(0, (QuicStream_new slack_ring 0)\<lparr>qs_sendBuffer := (buffered, 16384 - length buffered),
       qs_ackOffset := of_nat a, qs_unackedBytes := of_nat (length handed - a), qs_streamOffset := of_nat (length handed)\<rparr>)]\<rparr>"

lemma toy_opens: "openStream toy_env toy_start = (Ok 0, toy_at toy_start [] [] 0)"
  by (simp add: openStream_def onConn_def findStream_def toy_defs toy_at_def INITIAL_BUFFER_SIZE_def fun_eq_iff)

lemmas toy_ops = QuicConnection_send_def getStream_def findStream_def onStream_def QuicStream_write_def sendCapacity_def
  unackedBytes_def MAX_BUFFER_SIZE_def Let_def toy_defs toy_at_def toy_sent_def

lemma toy_sends: "QuicConnection_send toy_env 0 [1, 2, 3] (toy_at toy_start [] [] 0) = Some (Ok 3, toy_at toy_start [1, 2, 3] [] 0)"
  by (simp add: toy_ops)

lemma toy_works: "workerHandleWrites toy_env 5 (toy_at toy_start [1, 2, 3] [] 0) = (Ok (), toy_at (toy_sent 0) [1, 2, 3] [1, 2, 3] 0)"
  by (simp add: workerHandleWrites_def unflushedBytes_def sendStreamData_def peekUnsentData_def
      onConn_def updateExpiry_def sendPacket_def advanceSentData_def mapCongestion_def both_def
      QuicConnection_shouldLosePacket_def sendNonStreamPacket_def wrapWritePacket_def toy_ops)

lemma toy_wakes: "wakeUp toy_env 6 (Arrived (Packet [1, 2])) (toy_at (toy_sent 0) [1, 2, 3] [1, 2, 3] 0) =
    (Ok (), toy_at (toy_sent 2) [3] [1, 2, 3] 2)"
  by (simp add: receivePacket_def QuicConnection_onAckedData_def QuicStream_onAck_def onConn_def toy_ops)
    (simp add: numeral_2_eq_2)

lemma toy_sends_more: "QuicConnection_send toy_env 0 [4] (toy_at (toy_sent 2) [3] [1, 2, 3] 2) =
    Some (Ok 1, toy_at (toy_sent 2) [3, 4] [1, 2, 3] 2)"
  by (simp add: toy_ops)

lemma conn_steps: "conn_step E p p' \<Longrightarrow> (conn_step E)\<^sup>*\<^sup>* p' p'' \<Longrightarrow> (conn_step E)\<^sup>*\<^sup>* p p''"
  by (rule converse_rtranclp_into_rtranclp)

lemma toy_run3: "(conn_step toy_env)\<^sup>*\<^sup>* (\<lambda>_. [], toy_start)
    ((\<lambda>_. [])(0 := [1, 2, 3]), toy_at (toy_sent 2) [3] [1, 2, 3] 2)"
proof -
  have 1: "conn_step toy_env (\<lambda>_. [], toy_start) (\<lambda>_. [], toy_at toy_start [] [] 0)"
    using opens [OF toy_opens, of "\<lambda>_. []"] by (auto simp: fun_upd_def split: if_splits)
  have 2: "conn_step toy_env (\<lambda>_. [], toy_at toy_start [] [] 0) ((\<lambda>_. [])(0 := [1, 2, 3]), toy_at toy_start [1, 2, 3] [] 0)"
    using sends [OF toy_sends, of "\<lambda>_. []"] by simp
  show ?thesis
    by (rule conn_steps [OF 1 conn_steps [OF 2 conn_steps [OF works [OF toy_works]
            conn_steps [OF wakes [OF toy_wakes]]]]]) simp
qed

lemma toy_run: "(conn_step toy_env)\<^sup>*\<^sup>* (\<lambda>_. [], toy_start)
    ((\<lambda>_. [])(0 := [1, 2, 3, 4]), toy_at (toy_sent 2) [3, 4] [1, 2, 3] 2)"
proof -
  let ?acc = "(\<lambda>_. [])(0 := [1, 2, 3]) :: int \<Rightarrow> bytes"
  have len: "length (?acc 0 @ take 1 [4]) < 2 ^ 64"
    by simp
  have acc: "?acc(0 := ?acc 0 @ take 1 [4]) = (\<lambda>_. [])(0 := [1, 2, 3, 4])"
    by simp
  have 5: "conn_step toy_env ((\<lambda>_. [])(0 := [1, 2, 3]), toy_at (toy_sent 2) [3] [1, 2, 3] 2)
      ((\<lambda>_. [])(0 := [1, 2, 3, 4]), toy_at (toy_sent 2) [3, 4] [1, 2, 3] 2)"
    using sends [of toy_env 0 "[4]" _ 1 _ ?acc, OF toy_sends_more len] unfolding acc .
  show ?thesis
    by (rule rtranclp_trans [OF toy_run3 conn_steps [OF 5 rtranclp.rtrancl_refl]])
qed

theorem quic_connection_delivers_witness:
  "[1, 2, 3] @ both (peekUnsentData slack_ring (snd (hd (qc_streams (toy_at (toy_sent 2) [3, 4] [1, 2, 3] 2))))) = [1, 2, 3, 4] \<and>
   survives (fst (wakeUp toy_env 9 (Arrived (Packet [1, 200])) (toy_at (toy_sent 2) [3, 4] [1, 2, 3] 2)))"
proof -
  have "qc_conn toy_start = Some (toy_new\<lparr>ty_completed := True\<rparr>)" "qc_streams toy_start = []"
    by (simp_all add: toy_start_def QuicConnection_new_def)
  from quic_connection_delivers [OF toy_quic.quic_conn_laws_axioms this toy_run,
      where now = 9 and wake = "Arrived (Packet [1, 200])"]
  show ?thesis
    by (simp add: toy_at_def toy_env_def)
qed

text \<open>What \<open>sendAll\<close> accepts with success is all of the data, in order, behind what was accepted before,
  whatever the worker, the peer and the users of other streams do while it waits.\<close>

theorem quic_sendAll_accepts:
  assumes laws: "quic_conn_laws E contents taken acked"
    and start: "qc_conn s0 = Some n0" "qc_streams s0 = []" "(conn_step E)\<^sup>*\<^sup>* (acc0, s0) (acc, s)"
    and sent: "QuicConnection_sendAll E i data waits s = (Some (Ok ()), s')"
    and small: "length (acc i @ data) < 2 ^ 64"
    and others: "\<And>others acc s. others \<in> set waits \<Longrightarrow> (conn_step E)\<^sup>*\<^sup>* (acc, s) (acc, others s)"
  shows "\<exists>n. qc_conn s' = Some n \<and> (\<forall>st. (i, st) \<in> set (qc_streams s') \<longrightarrow>
    taken n i @ both (peekUnsentData (qv_ring E) st) = acc i @ data)"
proof -
  let ?inv = "quic_conn_laws.conn_inv contents taken acked"
  have "?inv acc s"
    using quic_conn_laws.conn_inv_reachable [OF laws start(3)] quic_conn_laws.conn_inv_start [OF laws start(1,2)] by simp
  moreover have "?inv acc (f s)" if "f \<in> set waits" "?inv acc s" for f acc s
    using quic_conn_laws.conn_inv_reachable [OF laws others [OF that(1)], of acc s] that(2) by simp
  ultimately have "?inv (acc(i := acc i @ data)) s'"
    using quic_conn_laws.sendAll_accepts [OF laws, of acc s i data waits s'] sent small by blast
  from quic_conn_laws.conn_inv_books [OF laws this] show ?thesis
    by fastforce
qed

theorem quic_sendAll_accepts_witness:
  "[1, 2, 3] @ both (peekUnsentData slack_ring (snd (hd (qc_streams (toy_at (toy_sent 2) [3, 4] [1, 2, 3] 2))))) =
     [1, 2, 3] @ [4]"
proof -
  have s0: "qc_conn toy_start = Some (toy_new\<lparr>ty_completed := True\<rparr>)" "qc_streams toy_start = []"
    by (simp_all add: toy_start_def QuicConnection_new_def)
  have "QuicConnection_sendAll toy_env 0 [4] [] (toy_at (toy_sent 2) [3] [1, 2, 3] 2) =
      (Some (Ok ()), toy_at (toy_sent 2) [3, 4] [1, 2, 3] 2)"
    by (simp add: QuicConnection_sendAll.simps toy_sends_more)
  from quic_sendAll_accepts [OF toy_quic.quic_conn_laws_axioms s0 toy_run3 this] show ?thesis
    by (simp add: toy_at_def toy_env_def)
qed

text \<open>C34 (termination).  The handshake of a QUIC connection ends: once the deadline of the connection
  passes while it waits, whatever the peer sent before and however often the timers of ngtcp2
  fired, it has returned.\<close>

theorem quic_handshake_ends:
  assumes "rd \<in> set rounds" and "rd_packets rd = None" and "qc_connectDeadline s \<le> rd_wake rd"
  shows "fst (QuicConnection_performHandshake E rounds lastSentPacket s) \<noteq> None"
  using handshake_ends assms by blast

theorem quic_handshake_ends_witness:
  "fst (QuicConnection_performHandshake toy_env
     [\<lparr>rd_start = 20000000, rd_wake = 20000100, rd_packets = None\<rparr>,
      \<lparr>rd_start = 20000100, rd_wake = 20000900, rd_packets = Some [Packet [2, 7]]\<rparr>,
      \<lparr>rd_start = 20000900, rd_wake = 30000000, rd_packets = None\<rparr>] 0
     ((QuicConnection_new 0 0)\<lparr>qc_conn := Some toy_new, qc_connectDeadline := 30000000\<rparr>)) \<noteq> None"
  by (rule quic_handshake_ends [of "\<lparr>rd_start = 20000900, rd_wake = 30000000, rd_packets = None\<rparr>"])
    (simp_all add: QuicConnection_new_def)

text \<open>C40 (error).  When a connection attempt fails before ngtcp2 has made its connection (the local
  address is not known, or ngtcp2 refuses), \<open>connect\<close> reports the error and cancels the worker,
  which was spawned first; the worker then closes the connection, and that writes the close packet
  through the null pointer.\<close>

theorem failed_quic_connect_uses_null_connection:
  fixes E :: "('n, 'b, 'd, 'i, 'f) quic_env"
  assumes "su_bind u = Ok ()" and "su_connect u = Ok ()"
    and "su_localAddress u = Err e \<or> su_localAddress u = Ok () \<and> (\<forall>settings params.
      fst (ng_client_new (qv_ngtcp2 E) settings params) = code) \<and> code \<noteq> 0 \<and> e = quicError E code"
  shows "\<exists>ret. QuicConnection_connect E u True timeout debugOptions = (Some (Err e), Some ret) \<and>
    qc_closed ret \<and> \<not> qc_closing ret \<and> fst (workerTask E turns now ret) = Some (Inl OutOfBounds)"
proof -
  let ?noLoss = "fl_dec (qv_time E) 0 0"
  define ret :: "('n, 'b, 'f) QuicConnection" where "ret = (QuicConnection_new (su_now u) ?noLoss)
      \<lparr>qc_connectDeadline := su_now u + timeout, qc_nextExpiry := su_now u, qc_workerTask := True,
       qc_lossSimulation := (case debugOptions of None \<Rightarrow> ?noLoss | Some d \<Rightarrow> qd_packetLossSimulation d)\<rparr>"
  let ?verbose = "case debugOptions of None \<Rightarrow> False | Some d \<Rightarrow> qd_verboseQuic d"
  have "establish E u timeout ?verbose ret = (Some (Err e), ret)"
  proof -
    obtain err conn where "ng_client_new (qv_ngtcp2 E) (quicSettings (su_now u) timeout (su_random u) ?verbose) quicParams =
        (err, conn)"
      by (meson surj_pair)
    moreover from this have "err = code" if "\<forall>settings params. fst (ng_client_new (qv_ngtcp2 E) settings params) = code"
      using that [THEN spec, THEN spec, of "quicSettings (su_now u) timeout (su_random u) ?verbose" quicParams] by simp
    ultimately show ?thesis
      using assms(3) by (auto simp: establish_def)
  qed
  then have "QuicConnection_connect E u True timeout debugOptions = (Some (Err e), Some (snd (QuicConnection_closeSync ret)))"
    using assms(1,2) by (simp add: QuicConnection_connect_def ret_def Let_def)
  moreover have "qc_closed (snd (QuicConnection_closeSync ret))" "\<not> qc_closing (snd (QuicConnection_closeSync ret))"
    "qc_cancelled (snd (QuicConnection_closeSync ret))" "qc_conn (snd (QuicConnection_closeSync ret)) = None"
    "\<not> qc_connected (snd (QuicConnection_closeSync ret))"
    by (simp_all add: QuicConnection_closeSync_def ret_def QuicConnection_new_def)
  moreover from this have "fst (workerTask E turns now (snd (QuicConnection_closeSync ret))) = Some (Inl OutOfBounds)"
    by (simp add: workerTask_def workerEnds_def QuicConnection_close_def sendClosePacket_def onConn_def)
  ultimately show ?thesis
    by blast
qed

theorem failed_quic_connect_uses_null_connection_witness:
  "\<exists>ret. QuicConnection_connect toy_env \<lparr>su_bind = Ok (), su_connect = Ok (), su_localAddress = Err (TE_Qsox ''no address''),
        su_tlsSession = Ok (), su_random = 7, su_now = 5, su_rounds = []\<rparr> True 100 None =
      (Some (Err (TE_Qsox ''no address'')), Some ret) \<and>
    qc_closed ret \<and> \<not> qc_closing ret \<and> fst (workerTask toy_env [] 6 ret) = Some (Inl OutOfBounds)"
  using failed_quic_connect_uses_null_connection [of "\<lparr>su_bind = Ok (), su_connect = Ok (),
      su_localAddress = Err (TE_Qsox ''no address''), su_tlsSession = Ok (), su_random = 7, su_now = 5, su_rounds = []\<rparr>"
      "TE_Qsox ''no address''" toy_env] by simp

text \<open>The destructor of a connection deletes the connection of ngtcp2 before the streams are destroyed,
  and a stream that is still open shuts itself down on the deleted connection.\<close>

lemma foldl_failed: "foldl (\<lambda>m i. step_then m (\<lambda>_ s. f i s)) (Inl e, s) is = (Inl e, s)"
  by (induction "is") simp_all

theorem destroyed_quic_connection_is_used:
  fixes s :: "('n, 'b, 'f) QuicConnection"
  assumes "findStream i s = Some st" and "\<not> qs_closed st" and "qs_streamId st \<noteq> - 1"
  shows "fst (QuicConnection_destroy E s) = Inl OutOfBounds"
proof -
  have "fst (foldl (\<lambda>m i. step_then m (\<lambda>_ s. eraseStream E i s)) (Ok (), s1) ids) = Inl OutOfBounds"
    if "qc_conn s1 = None" "i \<in> set ids" "findStream i s1 = Some st" for s1 ids
    using that
  proof (induction ids arbitrary: s1)
    case (Cons j ids)
    show ?case
    proof (cases "\<exists>st. findStream j s1 = Some st \<and> \<not> qs_closed st \<and> qs_streamId st \<noteq> - 1")
      case True
      then show ?thesis
        using Cons.prems(1) by (auto simp: eraseStream_def Let_def onConn_def foldl_failed)
    next
      case False
      then have j: "j \<noteq> i"
        using Cons.prems(3) assms(2,3) by blast
      have "map_of (filter (\<lambda>(k, _). k \<noteq> j) xs) i = map_of xs i" for xs :: "(int \<times> 'b QuicStream) list"
        using j by (induction xs) auto
      then obtain s2 where "eraseStream E j s1 = (Ok (), s2)" "qc_conn s2 = None" "findStream i s2 = Some st"
        using Cons.prems False by (cases "findStream j s1") (auto simp: eraseStream_def Let_def findStream_def)
      then show ?thesis
        using Cons.IH [of s2] Cons.prems(2) j by simp
    qed
  qed simp
  moreover have "i \<in> set (map fst (qc_streams s))"
    using map_of_SomeD [OF assms(1) [unfolded findStream_def]] by force
  ultimately show ?thesis
    using assms(1) by (simp add: QuicConnection_destroy_def findStream_def)
qed

theorem destroyed_quic_connection_is_used_witness:
  "fst (QuicConnection_destroy toy_env (toy_at (toy_sent 2) [3] [1, 2, 3] 2)) = Inl OutOfBounds"
  by (rule destroyed_quic_connection_is_used [of 0 _ "snd (hd (qc_streams (toy_at (toy_sent 2) [3] [1, 2, 3] 2)))"])
    (simp_all add: findStream_def toy_at_def QuicStream_new_def)

text \<open>The window that the peer is given on the main stream is never extended, so that it may send 12 MiB
  in all, which the receive buffer holds: nothing is dropped there, and after them the peer has to
  stop.\<close>

lemma flow_window_fits: "qp_maxStreamDataBidiLocal quicParams < unat MAX_BUFFER_SIZE"
  by (simp add: quicParams_def MiB_def MAX_BUFFER_SIZE_def)

end
