(* ===== verification/Quic_Transport.thy ===== *)
theory Quic_Transport
  imports Quic_Safety Transport_Session
begin

text \<open>
  The QUIC transport (\<open>transport/QuicTransport.hpp\<close>, \<open>transport/QuicTransport.cpp\<close>): the stream
  operations of \<open>Stream_Common\<close> on the main stream of a QUIC connection.  What \<open>receive\<close> of the
  connection returns is an argument, as for the TCP transport; what the others do to the connection
  while a message waits to be accepted is another.
\<close>

section \<open>State\<close>

record ('b, 'cd, 'dd, 'd, 'i, 'n, 'q, 'f) QuicTransport = "('b, 'cd, 'dd, 'd, 'i) StreamTransport" +
  qt_conn :: "('n, 'q, 'f) QuicConnection"

definition QuicTransport_new :: "'b ring_ops \<Rightarrow> 'i \<Rightarrow> ('n, 'q, 'f) QuicConnection \<Rightarrow>
    ('b, 'cd, 'dd, 'd, 'i, 'n, 'q, 'f) QuicTransport" where
  "QuicTransport_new B t0 conn = \<lparr>ss_base = BaseTransport_new t0, ss_recvBuffer = rg_new B 512,
     ss_attempts = 0, ss_wire = [], qt_conn = conn\<rparr>"

definition on_quic :: "'r \<times> ('n, 'q, 'f) QuicConnection \<Rightarrow> ('b, 'cd, 'dd, 'd, 'i, 'n, 'q, 'f) QuicTransport \<Rightarrow>
    'r \<times> ('b, 'cd, 'dd, 'd, 'i, 'n, 'q, 'f) QuicTransport" where
  "on_quic m s = (fst m, s\<lparr>qt_conn := snd m\<rparr>)"

definition QuicTransport_connect :: "('n, 'q, 'd, 'i, 'f) quic_env \<Rightarrow> 'b ring_ops \<Rightarrow> 'i \<Rightarrow> quic_setup \<Rightarrow> bool \<Rightarrow>
    u64 \<Rightarrow> 'f quic_debug option \<Rightarrow>
    ('b, 'cd, 'dd, 'd, 'i, 'n, 'q, 'f) QuicTransport TransportResult option" where
  "QuicTransport_connect Q B t0 u tlsContext timeout debugOptions =
     (case QuicConnection_connect Q u tlsContext timeout debugOptions of
        (None, _) \<Rightarrow> None
      | (Some (Inl e), _) \<Rightarrow> Some (Inl e)
      | (Some (Inr _), conn) \<Rightarrow>
          Some (qn_assert (conn \<noteq> None) (Ok (QuicTransport_new B t0 (the conn)))))"

definition QuicTransport_close :: "('n, 'q, 'd, 'i, 'f) quic_env \<Rightarrow> u64 \<Rightarrow>
    ('b, 'cd, 'dd, 'd, 'i, 'n, 'q, 'f) QuicTransport \<Rightarrow>
    unit TransportResult \<times> ('b, 'cd, 'dd, 'd, 'i, 'n, 'q, 'f) QuicTransport" where
  "QuicTransport_close Q now s = on_quic (QuicConnection_close Q now (qt_conn s)) s"

definition QuicTransport_closeSync :: "('b, 'cd, 'dd, 'd, 'i, 'n, 'q, 'f) QuicTransport \<Rightarrow>
    unit TransportResult \<times> ('b, 'cd, 'dd, 'd, 'i, 'n, 'q, 'f) QuicTransport" where
  "QuicTransport_closeSync s = on_quic (QuicConnection_closeSync (qt_conn s)) s"

definition QuicTransport_isClosed :: "('b, 'cd, 'dd, 'd, 'i, 'n, 'q, 'f) QuicTransport \<Rightarrow> bool" where
  "QuicTransport_isClosed s = QuicConnection_isClosed (qt_conn s)"

section \<open>Messages\<close>

text \<open>None is that the message still waits for room in the main stream.\<close>

definition QuicTransport_sendMessage :: "('r, 'w, 'cd, 'dd, 'd, 'i, 'g) qn_env \<Rightarrow> ('n, 'q, 'd, 'i, 'f) quic_env \<Rightarrow> 'i \<Rightarrow>
    (('n, 'q, 'f) QuicConnection \<Rightarrow> ('n, 'q, 'f) QuicConnection) list \<Rightarrow> QunetMessage \<Rightarrow> SentMessageContext \<Rightarrow>
    ('b, 'cd, 'dd, 'd, 'i, 'n, 'q, 'f) QuicTransport \<Rightarrow>
    SentMessageContext TransportResult option \<times> ('b, 'cd, 'dd, 'd, 'i, 'n, 'q, 'f) QuicTransport" where
  "QuicTransport_sendMessage E Q now waits message ctx s =
     (case encodeFrame E message of
        Inl e \<Rightarrow> (Some (Inl e), s)
      | Inr data \<Rightarrow>
          let conn = qt_conn s in
          case on_quic (QuicConnection_sendAll Q (qc_mainStreamId conn) data waits conn) s of
            (None, s) \<Rightarrow> (None, s)
          | (Some (Inl e), s) \<Rightarrow> (Some (Inl e), s)
          | (Some (Inr _), s) \<Rightarrow> (Some (Ok ctx), ss_on_tracker (onUpPacket now (length data)) s))"

definition QuicTransport_receiveMessage :: "('r, 'w, 'cd, 'dd, 'd, 'i, 'g) qn_env \<Rightarrow> 'b ring_ops \<Rightarrow> 'i \<Rightarrow>
    ('i \<times> bytes TransportResult) list \<Rightarrow> ('b, 'cd, 'dd, 'd, 'i, 'n, 'q, 'f) QuicTransport \<Rightarrow>
    (QunetMessage TransportResult option \<times> ('i \<times> bytes TransportResult) list \<times>
      ('b, 'cd, 'dd, 'd, 'i, 'n, 'q, 'f) QuicTransport) option" where
  "QuicTransport_receiveMessage E B now recvs s =
     stream_receiveMessage E B (bt_messageSizeLimit (ss_base s)) now recvs s"

definition QuicTransport_poll :: "('n, 'q, 'd, 'i, 'f) quic_env \<Rightarrow> 'q QuicStream list \<Rightarrow>
    ('b, 'cd, 'dd, 'd, 'i, 'n, 'q, 'f) QuicTransport \<Rightarrow> unit TransportResult option" where
  "QuicTransport_poll Q seen s = pollReadable Q (qc_mainStreamId (qt_conn s)) seen (qt_conn s)"

section \<open>Timers\<close>

definition QuicTransport_untilTimerExpiry :: "('d, 'i, 'f) time_ops \<Rightarrow> 'd" where
  "QuicTransport_untilTimerExpiry T = QuicConnection_untilTimerExpiry T"

definition QuicTransport_handleTimerExpiry :: "('b, 'cd, 'dd, 'd, 'i, 'n, 'q, 'f) QuicTransport \<Rightarrow>
    unit TransportResult" where
  "QuicTransport_handleTimerExpiry s =
     unwrap (BaseTransport_handleTimerExpiry (ss_base s)) (\<lambda>_. QuicConnection_handleTimerExpiry (qt_conn s))"

section \<open>Properties\<close>

context stream_laws
begin

lemma length_frame: "length (put32 C n @ body) = 4 + length body"
  by simp

end

text \<open>A data message sent through a QUIC transport puts one frame behind what the main
  stream had accepted, and a receiver whose stream delivers these bytes, in however many pieces,
  decodes the message that was sent; or it reports that its buffer may not grow, and then no byte
  is lost.\<close>

theorem quic_message_roundtrip:
  fixes m :: DataMessage
  assumes laws: "stream_laws C R rest adv W B contents" "quic_conn_laws Q qcontents taken acked"
    and envs: "en_writer E1 = W" "en_reader E2 = R"
    and start: "qc_conn s0 = Some n0" "qc_streams s0 = []" "(conn_step Q)\<^sup>*\<^sup>* (acc0, s0) (acc, qt_conn s1)"
    and m: "dm_compHeader m = None" "dm_relHeader m = None" "length (dm_data m) < 2 ^ 32 - 1"
    and limit: "messageSizeLimit = 0 \<or> length (dm_data m) < unat messageSizeLimit"
    and sent: "QuicTransport_sendMessage E1 Q now1 waits (Data m) ctx s1 = (Some (Ok ctx'), s1')"
    and main: "i = qc_mainStreamId (qt_conn s1)" "length (acc i) < 2 ^ 63"
    and others: "\<And>others acc s. others \<in> set waits \<Longrightarrow> (conn_step Q)\<^sup>*\<^sup>* (acc, s) (acc, others s)"
  shows "\<exists>frame n. qc_conn (qt_conn s1') = Some n \<and>
    (\<forall>st. (i, st) \<in> set (qc_streams (qt_conn s1')) \<longrightarrow>
      taken n i @ both (peekUnsentData (qv_ring Q) st) = acc i @ frame) \<and>
    (\<forall>recvs later s2 now. flowing recvs \<and> contents (ss_recvBuffer s2) @ incoming recvs = frame @ later \<longrightarrow>
      (\<exists>r recvs' s2'. stream_receiveMessage E2 B messageSizeLimit now recvs s2 = Some (Some r, recvs', s2') \<and>
        flowing recvs' \<and>
        (r = Ok (Data m) \<and> contents (ss_recvBuffer s2') @ incoming recvs' = later \<or>
         r = Err (CustomKind NoBufferSpace) \<and>
           contents (ss_recvBuffer s2') @ incoming recvs' = frame @ later)))"
proof -
  let ?body = "header_bits None False False # dm_data m"
  define frame where "frame = put32 C (of_nat (length ?body)) @ ?body"
  have wf: "wf_comp (dm_compHeader m)"
    using m(1) by (simp add: wf_comp_def)
  have encoded: "encodeFrame E1 (Data m) = Ok frame"
    using stream_laws.encodeFrame_data [OF laws(1) envs(1) wf m(2) refl] m(1) by (simp add: wire_comp_def frame_def)
  have sendAll: "QuicConnection_sendAll Q i frame waits (qt_conn s1) = (Some (Ok ()), qt_conn s1')"
    using sent encoded main(1)
    by (auto simp: QuicTransport_sendMessage_def Let_def on_quic_def ss_on_tracker_def ss_on_base_def prod_eq_iff
        split: prod.splits option.splits sum.splits)
  have small: "length (acc i @ frame) < 2 ^ 64"
    using main(2) m(3) stream_laws.length_frame [OF laws(1)] by (simp add: frame_def)
  have body: "decodeBody E2 now ?body t = Ok (Data m)" for now t
    using stream_laws.decodeBody_data [OF laws(1) envs(2), of m now t] m
    by (auto simp: wf_comp_def wire_comp_def decodePreFinalDataMessage_def)
  have "\<exists>n. qc_conn (qt_conn s1') = Some n \<and> (\<forall>st. (i, st) \<in> set (qc_streams (qt_conn s1')) \<longrightarrow>
      taken n i @ both (peekUnsentData (qv_ring Q) st) = acc i @ frame)"
    using quic_sendAll_accepts [OF laws(2) start sendAll] small others by blast
  moreover have "\<exists>r recvs' s2'. stream_receiveMessage E2 B messageSizeLimit now recvs s2 = Some (Some r, recvs', s2') \<and>
        flowing recvs' \<and>
        (r = Ok (Data m) \<and> contents (ss_recvBuffer s2') @ incoming recvs' = later \<or>
         r = Err (CustomKind NoBufferSpace) \<and>
           contents (ss_recvBuffer s2') @ incoming recvs' = frame @ later)"
    if "flowing recvs" "contents (ss_recvBuffer s2) @ incoming recvs = frame @ later"
    for recvs later now s2
    using stream_laws.receive_frame [OF laws(1) envs(2), of ?body messageSizeLimit recvs s2 later "ss_base s2" now now]
      m(3) limit that body by (auto simp: frame_def)
  ultimately show ?thesis
    by blast
qed

definition quic_main :: "(toy_conn, bytes \<times> nat, nat) QuicConnection" where
  "quic_main = toy_start\<lparr>qc_mainStreamId := 0\<rparr>"

lemma quic_main_opens: "openStream toy_env quic_main = (Ok 0, toy_at quic_main [] [] 0)"
  by (simp add: openStream_def onConn_def findStream_def toy_defs toy_at_def INITIAL_BUFFER_SIZE_def fun_eq_iff
      quic_main_def)

lemma quic_main_sendAll:
  "QuicConnection_sendAll toy_env 0 [4, 0, 0, 0, 128, 1, 2, 3] [] (toy_at quic_main [] [] 0) =
     (Some (Ok ()), toy_at quic_main [4, 0, 0, 0, 128, 1, 2, 3] [] 0)"
proof -
  have "QuicConnection_send toy_env 0 [4, 0, 0, 0, 128, 1, 2, 3] (toy_at quic_main [] [] 0) =
      Some (Ok 8, toy_at quic_main [4, 0, 0, 0, 128, 1, 2, 3] [] 0)"
    by (simp add: toy_ops quic_main_def)
  then show ?thesis
    by (simp add: QuicConnection_sendAll.simps)
qed

definition sample_quic :: "(bytes \<times> nat, bytes, bytes, nat, nat, toy_conn, bytes \<times> nat, nat) QuicTransport" where
  "sample_quic = QuicTransport_new list_ring 0 (toy_at quic_main [] [] 0)"

theorem quic_message_roundtrip_witness:
  "\<exists>r recvs' s2'. stream_receiveMessage plain_env list_ring 0 7 [(1, Ok [4, 0]), (2, Ok [0, 0, 128, 1, 2, 3, 9])]
      (sample_stream []) = Some (Some r, recvs', s2') \<and>
    (r = Ok (Data \<lparr>dm_data = [1, 2, 3], dm_compHeader = None, dm_relHeader = None\<rparr>) \<and>
       fst (ss_recvBuffer s2') @ incoming recvs' = [9] \<or>
     r = Err (CustomKind NoBufferSpace) \<and>
       fst (ss_recvBuffer s2') @ incoming recvs' = [4, 0, 0, 0, 128, 1, 2, 3, 9])"
proof -
  let ?m = "\<lparr>dm_data = [1, 2, 3], dm_compHeader = None, dm_relHeader = None\<rparr>"
  have "encodeFrame plain_env (Data ?m) = Ok [4, 0, 0, 0, 128, 1, 2, 3]"
    using ref_stream.encodeFrame_data [of plain_env ?m] by (simp add: wf_comp_def wire_comp_def header_bits_plain put32_4)
  then obtain s1' where s1': "QuicTransport_sendMessage plain_env toy_env 0 [] (Data ?m) SentMessageContext_new sample_quic =
      (Some (Ok SentMessageContext_new), s1')" "qt_conn s1' = toy_at quic_main [4, 0, 0, 0, 128, 1, 2, 3] [] 0"
    using quic_main_sendAll
    by (simp add: QuicTransport_sendMessage_def sample_quic_def QuicTransport_new_def on_quic_def ss_on_tracker_def
        ss_on_base_def toy_at_def quic_main_def toy_start_def)
  have s0: "qc_conn quic_main = Some (toy_new\<lparr>ty_completed := True\<rparr>)" "qc_streams quic_main = []"
    by (simp_all add: quic_main_def toy_start_def QuicConnection_new_def)
  have run: "(conn_step toy_env)\<^sup>*\<^sup>* (\<lambda>_. [], quic_main) (\<lambda>_. [], qt_conn sample_quic)"
    using opens [OF quic_main_opens, of "\<lambda>_. []"]
    by (auto simp: fun_upd_def sample_quic_def QuicTransport_new_def split: if_splits)
  have main: "0 = qc_mainStreamId (qt_conn sample_quic)"
    by (simp add: sample_quic_def QuicTransport_new_def toy_at_def quic_main_def)
  obtain frame n where n: "qc_conn (qt_conn s1') = Some n"
    and sent: "\<forall>st. (0, st) \<in> set (qc_streams (qt_conn s1')) \<longrightarrow>
      ty_taken n 0 @ both (peekUnsentData (qv_ring toy_env) st) = [] @ frame"
    and received: "\<forall>recvs later (s2 :: (bytes \<times> nat, bytes, bytes, nat, nat) StreamTransport) now. flowing recvs \<and> fst (ss_recvBuffer s2) @ incoming recvs = frame @ later \<longrightarrow>
      (\<exists>r recvs' s2'. stream_receiveMessage plain_env list_ring 0 now recvs s2 = Some (Some r, recvs', s2') \<and>
        flowing recvs' \<and>
        (r = Ok (Data ?m) \<and> fst (ss_recvBuffer s2') @ incoming recvs' = later \<or>
         r = Err (CustomKind NoBufferSpace) \<and> fst (ss_recvBuffer s2') @ incoming recvs' = frame @ later))"
    using quic_message_roundtrip [OF ref_stream.stream_laws_axioms toy_quic.quic_conn_laws_axioms _ _ s0 run _ _ _ _ s1'(1) main,
        of plain_env 0] by auto
  have "frame = [4, 0, 0, 0, 128, 1, 2, 3]"
    using n sent s1'(2) by (auto simp: toy_at_def QuicStream_new_def peekUnsentData_def toy_env_def slack_ring_def both_def)
  then show ?thesis
    using received [THEN spec, of "[(1, Ok [4, 0]), (2, Ok [0, 0, 128, 1, 2, 3, 9])]", THEN spec, of "[9]",
        THEN spec, of "sample_stream []", THEN spec, of 7]
    by (auto simp: sample_stream_def)
qed

end
