(* ===== verification/Quic_Ops.thy ===== *)
theory Quic_Ops
  imports Transport_Ops Quic_Transport
begin

text \<open>
  The QUIC transport behind the interface of the transports: what it inherits from \<open>BaseTransport\<close>
  (\<open>BaseTransport.cpp\<close>) and its operations as a \<open>transport_ops\<close>.  The argument \<open>others\<close> has what the
  worker of the connection and the users of its other streams do while a message of a call waits for
  room in the main stream.
\<close>

section \<open>What the base class does on a QUIC transport\<close>

text \<open>\<open>BaseTransport::sendMessage(data, reliable)\<close>; None is that the message still waits for room.\<close>

definition QuicTransport_sendPlain :: "('r, 'w, 'cd, 'dd, 'd, 'i, 'g) qn_env \<Rightarrow> ('n, 'q, 'd, 'i, 'f) quic_env \<Rightarrow> 'i \<Rightarrow>
    (('n, 'q, 'f) QuicConnection \<Rightarrow> ('n, 'q, 'f) QuicConnection) list \<Rightarrow> QunetMessage \<Rightarrow> bool \<Rightarrow>
    ('b, 'cd, 'dd, 'd, 'i, 'n, 'q, 'f) QuicTransport \<Rightarrow>
    unit TransportResult option \<times> ('b, 'cd, 'dd, 'd, 'i, 'n, 'q, 'f) QuicTransport" where
  "QuicTransport_sendPlain E Q now waits data reliable s =
     (case QuicTransport_sendMessage E Q now waits data (SentMessageContext_new\<lparr>cx_reliable := reliable\<rparr>) s of
        (None, s) \<Rightarrow> (None, s)
      | (Some res, s) \<Rightarrow>
          map_prod Some id (step_then (res, s) (\<lambda>ctx s. step_then (headerByte data, s) (\<lambda>hb s.
            (Ok (), ss_on_base (logOutgoingMessage (en_time E) now hb ctx) s)))))"

definition QuicTransport_performHandshake :: "('r, 'w, 'cd, 'dd, 'd, 'i, 'g) qn_env \<Rightarrow> ('n, 'q, 'd, 'i, 'f) quic_env \<Rightarrow>
    'b ring_ops \<Rightarrow> 'i \<Rightarrow> (('n, 'q, 'f) QuicConnection \<Rightarrow> ('n, 'q, 'f) QuicConnection) list \<Rightarrow> HandshakeStartMessage \<Rightarrow>
    ('i \<times> bytes TransportResult) list \<Rightarrow> ('b, 'cd, 'dd, 'd, 'i, 'n, 'q, 'f) QuicTransport \<Rightarrow>
    (QunetMessage TransportResult option \<times> ('i \<times> bytes TransportResult) list \<times>
      ('b, 'cd, 'dd, 'd, 'i, 'n, 'q, 'f) QuicTransport) option" where
  "QuicTransport_performHandshake E Q B now waits handshakeStart recvs s =
     (case QuicTransport_sendPlain E Q now waits (HandshakeStart handshakeStart) True s of
        (None, s) \<Rightarrow> Some (None, recvs, s)
      | (Some (Inl e), s) \<Rightarrow> Some (Some (Inl e), recvs, s)
      | (Some (Inr _), s) \<Rightarrow> QuicTransport_receiveMessage E B now recvs s)"

definition QuicTransport_performReconnect :: "('r, 'w, 'cd, 'dd, 'd, 'i, 'g) qn_env \<Rightarrow> ('n, 'q, 'd, 'i, 'f) quic_env \<Rightarrow>
    'b ring_ops \<Rightarrow> 'i \<Rightarrow> (('n, 'q, 'f) QuicConnection \<Rightarrow> ('n, 'q, 'f) QuicConnection) list \<Rightarrow> u64 \<Rightarrow>
    ('i \<times> bytes TransportResult) list \<Rightarrow> ('b, 'cd, 'dd, 'd, 'i, 'n, 'q, 'f) QuicTransport \<Rightarrow>
    (QunetMessage TransportResult option \<times> ('i \<times> bytes TransportResult) list \<times>
      ('b, 'cd, 'dd, 'd, 'i, 'n, 'q, 'f) QuicTransport) option" where
  "QuicTransport_performReconnect E Q B now waits connectionId recvs s =
     (case QuicTransport_sendPlain E Q now waits (ClientReconnectMessage connectionId) True s of
        (None, s) \<Rightarrow> Some (None, recvs, s)
      | (Some (Inl e), s) \<Rightarrow> Some (Some (Inl e), recvs, s)
      | (Some (Inr _), s) \<Rightarrow> QuicTransport_receiveMessage E B now recvs s)"

section \<open>The session is kept\<close>

lemma on_quic_session: "on_quic m s = (r, s') \<Longrightarrow> ss_session s' = ss_session s"
  by (auto simp: on_quic_def)

lemma QuicTransport_sendMessage_session: "ss_session (snd (QuicTransport_sendMessage E Q now waits m ctx s)) = ss_session s"
  by (auto simp: QuicTransport_sendMessage_def Let_def dest: on_quic_session split: sum.split prod.split option.split)

lemma QuicTransport_sendPlain_session: "ss_session (snd (QuicTransport_sendPlain E Q now waits m rel s)) = ss_session s"
proof -
  obtain r s' where s': "QuicTransport_sendMessage E Q now waits m (SentMessageContext_new\<lparr>cx_reliable := rel\<rparr>) s = (r, s')"
    by (meson surj_pair)
  then have "ss_session s' = ss_session s"
    using QuicTransport_sendMessage_session [of E Q now waits m "SentMessageContext_new\<lparr>cx_reliable := rel\<rparr>" s] by simp
  then show ?thesis
    using s' by (auto simp: QuicTransport_sendPlain_def step_then_def split: option.split prod.split sum.split)
qed

lemma QuicTransport_answers_session:
  assumes "ss_session s = x"
  shows "QuicTransport_receiveMessage E B now recvs s = Some (r, recvs', s') \<Longrightarrow> ss_session s' = x"
    and "QuicTransport_performHandshake E Q B now waits hs recvs s = Some (r, recvs', s') \<Longrightarrow> ss_session s' = x"
    and "QuicTransport_performReconnect E Q B now waits cid recvs s = Some (r, recvs', s') \<Longrightarrow> ss_session s' = x"
  using assms QuicTransport_sendPlain_session [of E Q now waits _ True s]
  by (auto simp: QuicTransport_receiveMessage_def QuicTransport_performHandshake_def QuicTransport_performReconnect_def
      dest!: stream_receiveMessage_session split: prod.splits option.splits sum.splits)
    (metis snd_conv)+

section \<open>Closing\<close>

lemma QuicTransport_close_session [simp]:
  "ss_session (snd (QuicTransport_close Q now s)) = ss_session s"
  "ss_session (snd (QuicTransport_closeSync s)) = ss_session s"
  by (simp_all add: QuicTransport_close_def QuicTransport_closeSync_def on_quic_def)

lemma quic_closeSync_closes [simp]: "QuicTransport_isClosed (snd (QuicTransport_closeSync s))"
  by (simp add: QuicTransport_isClosed_def QuicTransport_closeSync_def on_quic_def QuicConnection_isClosed_def
      QuicConnection_closeSync_def Let_def)

text \<open>\<open>close\<close> closes the connection when no other call is closing it and the close packet was sent.\<close>

lemma quic_close_closes:
  assumes "\<not> qc_closing (qt_conn s)" and "fst (QuicTransport_close Q now s) = Ok ()"
  shows "QuicTransport_isClosed (snd (QuicTransport_close Q now s))"
proof -
  let ?m = "sendClosePacket Q now ((qt_conn s)\<lparr>qc_closing := True\<rparr>)"
  obtain r c where m: "?m = (r, c)"
    by (cases ?m)
  then show ?thesis
    using assms by (cases r)
      (simp_all add: QuicTransport_close_def QuicConnection_close_def Let_def on_quic_def QuicTransport_isClosed_def
        QuicConnection_isClosed_def QuicConnection_closeSync_def)
qed

text \<open>A connection whose close packet could not be sent stays open for every later \<open>close\<close>, which
  reports success all the same.\<close>

abbreviation "closing_flags s \<equiv> (qc_closed s, qc_closing s)"

lemma onConn_flags [keeps_intros]: "closing_flags s = x \<Longrightarrow> keeps closing_flags x (onConn f s)"
  by (auto simp: onConn_def split: option.split prod.split)

lemma updateExpiry_flags [keeps_intros]: "closing_flags s = x \<Longrightarrow> keeps closing_flags x (updateExpiry Q s)"
  unfolding updateExpiry_def by (auto intro!: keeps_intros)

lemma sendPacket_flags [keeps_intros]: "closing_flags s = x \<Longrightarrow> keeps closing_flags x (sendPacket Q now buf s)"
  unfolding sendPacket_def Let_def by (auto intro!: keeps_intros split: sum.split)

lemma sendClosePacket_flags: "closing_flags s = x \<Longrightarrow> keeps closing_flags x (sendClosePacket Q now s)"
  unfolding sendClosePacket_def by (auto intro!: keeps_intros split: sum.split)

theorem quic_close_after_failure:
  assumes "fst (QuicTransport_close Q now s) = Err e" and "\<not> QuicTransport_isClosed s"
  shows "QuicTransport_close Q later (snd (QuicTransport_close Q now s)) = (Ok (), snd (QuicTransport_close Q now s))"
    and "\<not> QuicTransport_isClosed (snd (QuicTransport_close Q now s))"
proof -
  let ?c = "(qt_conn s)\<lparr>qc_closing := True\<rparr>"
  obtain r c where m: "sendClosePacket Q now ?c = (r, c)"
    by (meson surj_pair)
  have "closing_flags c = closing_flags ?c"
    by (rule keepsD [OF sendClosePacket_flags [OF refl] m])
  then have "qc_closed c = qc_closed ?c \<and> qc_closing c = qc_closing ?c"
    unfolding prod.inject .
  then have c: "qc_closed c = qc_closed (qt_conn s)" "qc_closing c"
    by auto
  have "\<not> qc_closing (qt_conn s)"
    using assms(1) by (auto simp: QuicTransport_close_def QuicConnection_close_def on_quic_def)
  then have closed: "QuicTransport_close Q now s = on_quic (step_then (r, c) (\<lambda>_. QuicConnection_closeSync)) s"
    by (simp add: QuicTransport_close_def QuicConnection_close_def m)
  obtain e' where "r = Inl e'"
    using assms(1) closed by (cases r) (auto simp: on_quic_def QuicConnection_closeSync_def Let_def split: if_splits)
  then have "snd (QuicTransport_close Q now s) = s\<lparr>qt_conn := c\<rparr>"
    using closed by (simp add: on_quic_def)
  then show "QuicTransport_close Q later (snd (QuicTransport_close Q now s)) = (Ok (), snd (QuicTransport_close Q now s))"
    and "\<not> QuicTransport_isClosed (snd (QuicTransport_close Q now s))"
    using c assms(2) by (simp_all add: QuicTransport_close_def QuicConnection_close_def Let_def on_quic_def
        QuicTransport_isClosed_def QuicConnection_isClosed_def)
qed

section \<open>The operations\<close>

definition quic_ops :: "('r, 'w, 'cd, 'dd, 'd, 'i, 'g) qn_env \<Rightarrow> ('n, 'q, 'd, 'i, 'f) quic_env \<Rightarrow> 'b ring_ops \<Rightarrow>
    'h double_ops \<Rightarrow> ('i call \<Rightarrow> (('n, 'q, 'f) QuicConnection \<Rightarrow> ('n, 'q, 'f) QuicConnection) list) \<Rightarrow>
    ((('b, 'cd, 'dd, 'd, 'i, 'n, 'q, 'f) QuicTransport, 'i) networked, 'cd, 'dd, 'd, 'i) transport_ops" where
  "quic_ops E Q B D others = \<lparr>
     vt_base = (\<lambda>(t, n). ss_base t),
     vt_on_base = (\<lambda>g (t, n). (ss_on_base g t, n)),
     vt_sendMessage = (\<lambda>c m ctx (t, n).
       case QuicTransport_sendMessage E Q (cl_now c) (others c) m ctx t of
         (None, _) \<Rightarrow> None
       | (Some r, t) \<Rightarrow> Some (with_net n (r, t))),
     vt_receiveMessage = (\<lambda>c (t, n). map_option with_rest (QuicTransport_receiveMessage E B (cl_now c) n t)),
     vt_performHandshake = (\<lambda>c hs (t, n).
       map_option with_rest (QuicTransport_performHandshake E Q B (cl_now c) (others c) hs n t)),
     vt_performReconnect = (\<lambda>c cid (t, n).
       map_option with_rest (QuicTransport_performReconnect E Q B (cl_now c) (others c) cid n t)),
     vt_close = (\<lambda>c (t, n). with_net n (QuicTransport_close Q (cl_stamp c) t)),
     vt_closeSync = (\<lambda>c (t, n). with_net n (QuicTransport_closeSync t)),
     vt_isClosed = (\<lambda>(t, n). QuicTransport_isClosed t),
     vt_untilTimerExpiry = (\<lambda>now (t, n). QuicTransport_untilTimerExpiry (en_time E)),
     vt_handleTimerExpiry = (\<lambda>c (t, n). Some (QuicTransport_handleTimerExpiry t, (t, n))),
     vt_updateLatency = (\<lambda>rtt (t, n). (ss_on_base (BaseTransport_updateLatency (en_time E) D rtt) t, n))\<rparr>"

lemma session_updateLatency: "session (BaseTransport_updateLatency T D rtt b) = session b"
  using ss_session_updates(3) [of T D rtt "\<lparr>ss_base = b, ss_recvBuffer = (), ss_attempts = 0, ss_wire = [],
      tt_activeKeepaliveInterval = None, tt_closed = False\<rparr>"]
  by (simp add: TcpTransport_updateLatency_def ss_on_base_def)

interpretation quic_transport: transport_laws "quic_ops E Q B D others"
  for E :: "('a, 'b, 'c, 'd, 'e, 'i, 'g) qn_env" and Q :: "('l, 'm, 'e, 'i, 'n) quic_env" and B :: "'k ring_ops"
    and D :: "'h double_ops" and others
proof
  fix c :: "'i call" and m ctx and s :: "(('k, 'c, 'd, 'e, 'i, 'l, 'm, 'n) QuicTransport, 'i) networked"
  let ?V = "quic_ops E Q B D others"
  obtain t n where s: "s = (t, n)"
    by (cases s)
  show "io_keeps (vt_session ?V) (vt_session ?V s) (vt_sendMessage ?V c m ctx s)"
    using QuicTransport_sendMessage_session [of E Q "cl_now c" "others c" m ctx t]
    by (auto simp: quic_ops_def s split: prod.split option.split)
  show "io_keeps (vt_session ?V) (vt_session ?V s) (vt_receiveMessage ?V c s)"
    "io_keeps (vt_session ?V) (vt_session ?V s) (vt_performHandshake ?V c hs s)"
    "io_keeps (vt_session ?V) (vt_session ?V s) (vt_performReconnect ?V c cid s)" for hs cid
    by (auto simp: quic_ops_def s io_keeps_map with_rest_def dest: QuicTransport_answers_session [OF refl])
qed (auto simp: quic_ops_def ss_on_base_def session_updateLatency)

end
