(* ===== verification/Any_Transport.thy ===== *)
theory Any_Transport
  imports Quic_Ops Net_Address
begin

text \<open>
  A transport of any kind (\<open>std::shared_ptr<BaseTransport>\<close>), with the dispatch of its virtual
  functions, and \<open>Socket::createTransport\<close> (\<open>Socket.cpp\<close>), which chooses the kind.
\<close>

section \<open>A transport of any kind\<close>

text \<open>\<open>std::shared_ptr<BaseTransport>\<close>: a call goes to the transport that the pointer is to.\<close>

datatype ('u, 't, 'q, 'w) any_transport = UdpT 'u | TcpT 't | QuicT 'q | WsT 'w

definition through :: "('s \<Rightarrow> 'v) \<Rightarrow> 'r \<times> 's \<Rightarrow> 'r \<times> 'v" where
  "through f = (\<lambda>(r, s). (r, f s))"

lemma keeps_through [simp]: "keeps S x (through f m) \<longleftrightarrow> keeps (S \<circ> f) x m"
  by (cases m) (simp add: through_def)

lemma snd_through [simp]: "snd (through f m) = f (snd m)"
  by (cases m) (simp add: through_def)

lemma io_keeps_through [simp]: "io_keeps S x (map_option (through f) m) \<longleftrightarrow> io_keeps (S \<circ> f) x m"
  by (cases m) simp_all

definition dispatch :: "('u, 'cd, 'dd, 'd, 'i) transport_ops \<Rightarrow> ('t, 'cd, 'dd, 'd, 'i) transport_ops \<Rightarrow>
    ('q, 'cd, 'dd, 'd, 'i) transport_ops \<Rightarrow> ('w, 'cd, 'dd, 'd, 'i) transport_ops \<Rightarrow>
    (('u, 't, 'q, 'w) any_transport, 'cd, 'dd, 'd, 'i) transport_ops" where
  "dispatch U P Q W = \<lparr>
     vt_base = case_any_transport (vt_base U) (vt_base P) (vt_base Q) (vt_base W),
     vt_on_base = (\<lambda>g s. case s of UdpT u \<Rightarrow> UdpT (vt_on_base U g u) | TcpT t \<Rightarrow> TcpT (vt_on_base P g t)
         | QuicT q \<Rightarrow> QuicT (vt_on_base Q g q) | WsT w \<Rightarrow> WsT (vt_on_base W g w)),
     vt_sendMessage = (\<lambda>c m ctx s. case s of
         UdpT u \<Rightarrow> map_option (through UdpT) (vt_sendMessage U c m ctx u)
       | TcpT t \<Rightarrow> map_option (through TcpT) (vt_sendMessage P c m ctx t)
       | QuicT q \<Rightarrow> map_option (through QuicT) (vt_sendMessage Q c m ctx q)
       | WsT w \<Rightarrow> map_option (through WsT) (vt_sendMessage W c m ctx w)),
     vt_receiveMessage = (\<lambda>c s. case s of
         UdpT u \<Rightarrow> map_option (through UdpT) (vt_receiveMessage U c u)
       | TcpT t \<Rightarrow> map_option (through TcpT) (vt_receiveMessage P c t)
       | QuicT q \<Rightarrow> map_option (through QuicT) (vt_receiveMessage Q c q)
       | WsT w \<Rightarrow> map_option (through WsT) (vt_receiveMessage W c w)),
     vt_performHandshake = (\<lambda>c hs s. case s of
         UdpT u \<Rightarrow> map_option (through UdpT) (vt_performHandshake U c hs u)
       | TcpT t \<Rightarrow> map_option (through TcpT) (vt_performHandshake P c hs t)
       | QuicT q \<Rightarrow> map_option (through QuicT) (vt_performHandshake Q c hs q)
       | WsT w \<Rightarrow> map_option (through WsT) (vt_performHandshake W c hs w)),
     vt_performReconnect = (\<lambda>c cid s. case s of
         UdpT u \<Rightarrow> map_option (through UdpT) (vt_performReconnect U c cid u)
       | TcpT t \<Rightarrow> map_option (through TcpT) (vt_performReconnect P c cid t)
       | QuicT q \<Rightarrow> map_option (through QuicT) (vt_performReconnect Q c cid q)
       | WsT w \<Rightarrow> map_option (through WsT) (vt_performReconnect W c cid w)),
     vt_close = (\<lambda>c s. case s of UdpT u \<Rightarrow> through UdpT (vt_close U c u)
       | TcpT t \<Rightarrow> through TcpT (vt_close P c t) | QuicT q \<Rightarrow> through QuicT (vt_close Q c q)
       | WsT w \<Rightarrow> through WsT (vt_close W c w)),
     vt_closeSync = (\<lambda>c s. case s of UdpT u \<Rightarrow> through UdpT (vt_closeSync U c u)
       | TcpT t \<Rightarrow> through TcpT (vt_closeSync P c t) | QuicT q \<Rightarrow> through QuicT (vt_closeSync Q c q)
       | WsT w \<Rightarrow> through WsT (vt_closeSync W c w)),
     vt_isClosed = case_any_transport (vt_isClosed U) (vt_isClosed P) (vt_isClosed Q) (vt_isClosed W),
     vt_untilTimerExpiry = (\<lambda>now. case_any_transport (vt_untilTimerExpiry U now) (vt_untilTimerExpiry P now)
         (vt_untilTimerExpiry Q now) (vt_untilTimerExpiry W now)),
     vt_handleTimerExpiry = (\<lambda>c s. case s of
         UdpT u \<Rightarrow> map_option (through UdpT) (vt_handleTimerExpiry U c u)
       | TcpT t \<Rightarrow> map_option (through TcpT) (vt_handleTimerExpiry P c t)
       | QuicT q \<Rightarrow> map_option (through QuicT) (vt_handleTimerExpiry Q c q)
       | WsT w \<Rightarrow> map_option (through WsT) (vt_handleTimerExpiry W c w)),
     vt_updateLatency = (\<lambda>rtt s. case s of UdpT u \<Rightarrow> UdpT (vt_updateLatency U rtt u)
       | TcpT t \<Rightarrow> TcpT (vt_updateLatency P rtt t) | QuicT q \<Rightarrow> QuicT (vt_updateLatency Q rtt q)
       | WsT w \<Rightarrow> WsT (vt_updateLatency W rtt w))\<rparr>"

lemma dispatch_laws:
  assumes "transport_laws U" and "transport_laws P" and "transport_laws Q" and "transport_laws W"
  shows "transport_laws (dispatch U P Q W)"
proof -
  note laws = transport_laws.base_on_base transport_laws.send_session transport_laws.receive_session
    transport_laws.handshake_session transport_laws.reconnect_session transport_laws.close_session
    transport_laws.closeSync_session transport_laws.timer_session transport_laws.latency_session
    transport_laws.closeSync_closes
  show ?thesis
    by unfold_locales
      (auto simp: dispatch_def comp_def laws [OF assms(1)] laws [OF assms(2)] laws [OF assms(3)] laws [OF assms(4)]
        split: any_transport.split)
qed

text \<open>All the transports of the library; \<open>ops\<close> is the client of the WebSocket package.\<close>

abbreviation all_transports where
  "all_transports E D B Q others ops \<equiv>
     dispatch (udp_ops E D) (tcp_ops E D B) (quic_ops E Q B D others) (websocket_ops E D ops)"

lemma all_transports_laws: "ws_client_laws ops \<Longrightarrow> transport_laws (all_transports E D B Q others ops)"
  by (intro dispatch_laws udp_transport.transport_laws_axioms tcp_transport.transport_laws_axioms
      quic_transport.transport_laws_axioms closing_laws.axioms(1) ws_client_laws.websocket_transport)

interpretation any_transport: transport_laws "all_transports E D B Q others sample_ws" for E D B Q others
  by (rule all_transports_laws [OF sample_ws.ws_client_laws_axioms])

section \<open>\<open>Socket::createTransport\<close>\<close>

text \<open>What the sockets of the system, the QUIC packages and the WebSocket client answer.  A connection
  attempt that the timeout cuts off has no outcome.\<close>

record ('a, 'x) ClientConnectOptions =
  wo_path :: string
  wo_hostname :: string
  wo_address :: 'a
  wo_tlsContext :: "'x option"

record ('a, 'd, 'i, 'x, 'c) network =
  nw_start :: 'i
  nw_udpBind :: "'a \<Rightarrow> (string, unit) outcome"
  nw_udpConnect :: "'a \<Rightarrow> (string, unit) outcome"
  nw_padRng :: QunetPadRNG
  nw_tcpConnect :: "'a \<Rightarrow> 'd \<Rightarrow> (string, unit) outcome option"
  nw_timedOutText :: string
  nw_quicSetup :: "'a \<Rightarrow> string \<Rightarrow> quic_setup"
  nw_wsConnect :: "('a, 'x) ClientConnectOptions \<Rightarrow> 'd \<Rightarrow> (string, 'c) outcome option"
  nw_incoming :: "('i \<times> bytes TransportResult) list"

definition UdpTransport_connect :: "('a, 'd, 'i, 'x, 'c) network \<Rightarrow> 'a \<Rightarrow> ('d, 'f) ConnectionOptions \<Rightarrow>
    (string, ('cd, 'dd, 'd, 'i, 'f) UdpTransport) outcome" where
  "UdpTransport_connect N address connOptions =
     unwrap (nw_udpBind N address) (\<lambda>_.
     unwrap (nw_udpConnect N address) (\<lambda>_.
     Ok (UdpTransport_new (nw_start N) (nw_padRng N) (do_packetLossSimulation (co_debug connOptions))
           (co_activeKeepaliveInterval connOptions))))"

definition createWebSocket :: "('a, 'd, 'i, 'x, 'c) network \<Rightarrow> ('a, 'd, 'f, 'x) TransportOptions \<Rightarrow>
    ('u, 't, 'q, ('c, 'cd, 'dd, 'd, 'i) WsTransport) any_transport TransportResult" where
  "createWebSocket N options =
     (let opts = \<lparr>wo_path = to_path options, wo_hostname = to_hostname options,
                  wo_address = to_address options, wo_tlsContext = to_tlsContext options\<rparr>
      in unwrap (WsTransport_connect (nw_start N) (nw_wsConnect N opts (to_timeout options))
                  (co_activeKeepaliveInterval (to_connOptions options))) (\<lambda>transport.
         Ok (WsT transport)))"

definition quic_debug_options :: "('d, 'f) ConnectionOptions \<Rightarrow> 'f quic_debug" where
  "quic_debug_options connOptions =
     \<lparr>qd_packetLossSimulation = do_packetLossSimulation (co_debug connOptions),
      qd_verboseQuic = do_verboseQuic (co_debug connOptions)\<rparr>"

text \<open>None is that the handshake of a QUIC connection still waits.\<close>

definition createQuic :: "('n, 'q, 'd, 'i, 'f) quic_env \<Rightarrow> 'b ring_ops \<Rightarrow> ('a, 'd, 'i, 'x, 'c) network \<Rightarrow>
    ('a, 'd, 'f, 'x) TransportOptions \<Rightarrow>
    ('u, 't, (('b, 'cd, 'dd, 'd, 'i, 'n, 'q, 'f) QuicTransport, 'i) networked, 'w) any_transport TransportResult option" where
  "createQuic Q B N options =
     map_option (\<lambda>res. unwrap res (\<lambda>transport. Ok (QuicT (transport, nw_incoming N))))
       (QuicTransport_connect Q B (nw_start N) (nw_quicSetup N (to_address options) (to_hostname options))
          (to_tlsContext options \<noteq> None) (tm_nanos (qv_time Q) (to_timeout options))
          (Some (quic_debug_options (to_connOptions options))))"

definition createTransport :: "('n, 'q, 'd, 'i, 'f) quic_env \<Rightarrow> 'b ring_ops \<Rightarrow> ('a, 'd, 'i, 'x, 'c) network \<Rightarrow>
    ('a, 'd, 'f, 'x) TransportOptions \<Rightarrow>
    ((('cd, 'dd, 'd, 'i, 'f) UdpTransport, 'i) networked, (('b, 'cd, 'dd, 'd, 'i) TcpTransport, 'i) networked,
     (('b, 'cd, 'dd, 'd, 'i, 'n, 'q, 'f) QuicTransport, 'i) networked,
     ('c, 'cd, 'dd, 'd, 'i) WsTransport) any_transport TransportResult option" where
  "createTransport Q B N options =
     (case to_type options of
        Udp \<Rightarrow>
          Some (unwrap (mapErr TE_Qsox (UdpTransport_connect N (to_address options) (to_connOptions options))) (\<lambda>transport.
          Ok (UdpT (transport, nw_incoming N))))
      | Tcp \<Rightarrow>
          Some (unwrap (mapErr TE_Qsox (TcpTransport_connect B (nw_start N) (nw_timedOutText N)
            (nw_tcpConnect N (to_address options) (to_timeout options))
            (co_activeKeepaliveInterval (to_connOptions options)))) (\<lambda>transport.
          Ok (TcpT (transport, nw_incoming N))))
      | Quic \<Rightarrow> createQuic Q B N options
      | WebSocket \<Rightarrow> Some (createWebSocket N options)
      | WebSocketTls \<Rightarrow> Some (createWebSocket N options)
      | _ \<Rightarrow> Some (Err (CustomKind NotImplemented)))"

text \<open>The transport is of the kind that was asked for.\<close>

fun kind_of :: "('u, 't, 'q, 'w) any_transport \<Rightarrow> ConnectionType set" where
  "kind_of (UdpT _) = {Udp}"
| "kind_of (TcpT _) = {Tcp}"
| "kind_of (QuicT _) = {Quic}"
| "kind_of (WsT _) = {WebSocket, WebSocketTls}"

lemma createTransport_kind:
  assumes "createTransport Q B N options = Some (Ok t)"
  shows "to_type options \<in> kind_of t"
  using assms by (auto simp: createTransport_def createWebSocket_def createQuic_def outcome_simps
      split: ConnectionType.splits)

end
