(* ===== verification/Qunet_Socket.thy ===== *)
theory Qunet_Socket
  imports Any_Transport
begin

text \<open>
  The socket (\<open>socket/Socket.hpp\<close>, \<open>socket/Socket.cpp\<close>): a transport of any kind behind its
  interface \<open>transport_ops\<close>, the handshake and the reconnect handshake with their timeout, the
  compression of outgoing data messages, and the database of the server.  The operations of the
  files (\<open>tryFindQdb\<close>, \<open>saveQdb\<close>) are an argument and a list of what was saved.
\<close>

section \<open>State\<close>

record ('s, 'a, 'p) Socket =
  sk_transport :: 's
  sk_remoteAddress :: 'a
  sk_usedQdb :: "QunetDatabase option"
  sk_qdbFolder :: "'p option"
  sk_saved :: "bytes list"

definition Socket_new :: "'s \<Rightarrow> 'a \<Rightarrow> ('s, 'a, 'p) Socket" where
  "Socket_new transport remote = \<lparr>sk_transport = transport, sk_remoteAddress = remote, sk_usedQdb = None,
     sk_qdbFolder = None, sk_saved = []\<rparr>"

definition sk_on :: "('s \<Rightarrow> 's) \<Rightarrow> ('s, 'a, 'p) Socket \<Rightarrow> ('s, 'a, 'p) Socket" where
  "sk_on f k = k\<lparr>sk_transport := f (sk_transport k)\<rparr>"

text \<open>The packages that the socket uses.\<close>

record ('r, 'cd, 'dd, 'a, 'p) socket_env =
  se_zstd :: "('cd, 'dd) zstd_ops"
  se_lz4 :: lz4_ops
  se_reader :: "'r byte_reader"
  se_hash :: "bytes \<Rightarrow> bytes"
  se_findQdb :: "'p \<Rightarrow> 'a \<Rightarrow> QunetDatabase option"

text \<open>\<open>Result::unwrap\<close> throws on any error.\<close>

definition throwing :: "('e, 'b) outcome \<Rightarrow> ('f, 'b) outcome" where
  "throwing r = (case r of Inr v \<Rightarrow> Inr v | Inl OutOfBounds \<Rightarrow> Inl OutOfBounds | Inl _ \<Rightarrow> Inl AssertionFailed)"

section \<open>Compression of outgoing messages\<close>

definition shouldCompress :: "lz4_ops \<Rightarrow> bytes \<Rightarrow> CompressionType TransportResult" where
  "shouldCompress L data =
     (if length data < 128 then Ok CT_None
      else
        let destCap = Lz4Compressor_compressBound L (length data)
        in unwrap (throwing (Lz4Compressor_compress L data destCap)) (\<lambda>dst.
           let compSize = length dst
           in if length data \<le> compSize \<and> length data < 1024 then Ok CT_None
              else if 512 \<le> length data then Ok CT_Zstd
              else if compSize + compSize div 16 < length data then Ok CT_Zstd
              else Ok CT_Lz4))"

text \<open>\<open>doCompress\<close>: \<open>compress\<close> works on the data and the size of the output buffer.\<close>

definition doCompress :: "(nat \<Rightarrow> nat) \<Rightarrow> (bytes \<Rightarrow> nat \<Rightarrow> (CompressorError, bytes) outcome) \<Rightarrow>
    CompressionType \<Rightarrow> DataMessage \<Rightarrow> (CompressorError, DataMessage) outcome" where
  "doCompress bound compress type message =
     (let uncSize = (of_nat (length (dm_data message)) :: u32);
          outSize = bound (unat uncSize)
      in unwrap (compress (take (unat uncSize) (dm_data message)) outSize) (\<lambda>compressedData.
         if unat uncSize \<le> length compressedData then Ok message
         else Ok (message\<lparr>dm_data := compressedData,
                dm_compHeader := Some \<lparr>ch_type = type, ch_uncompressedSize = uncSize\<rparr>\<rparr>)))"

definition doCompressZstd :: "('cd, 'dd) zstd_ops \<Rightarrow> 'cd ZstdCompressor \<Rightarrow> bool \<Rightarrow> DataMessage \<Rightarrow>
    (CompressorError, DataMessage) outcome" where
  "doCompressZstd Z c useDict message =
     (let type = (if useDict then CT_Zstd else CT_ZstdNoDict)
      in doCompress (ZstdCompressor_compressBound Z)
           (\<lambda>src cap. ZstdCompressor_compress Z c src cap (type = CT_ZstdNoDict)) type message)"

definition doCompressLz4 :: "lz4_ops \<Rightarrow> DataMessage \<Rightarrow> (CompressorError, DataMessage) outcome" where
  "doCompressLz4 L message =
     doCompress (Lz4Compressor_compressBound L) (Lz4Compressor_compress L) CT_Lz4 message"

text \<open>The first part of \<open>sendMessage\<close>.\<close>

definition compressOutgoing :: "('r, 'cd, 'dd, 'a, 'p) socket_env \<Rightarrow> 'cd ZstdCompressor \<Rightarrow> bool \<Rightarrow>
    DataMessage \<Rightarrow> DataMessage TransportResult" where
  "compressOutgoing X c uncompressed msg =
     unwrap (if \<not> uncompressed then shouldCompress (se_lz4 X) (dm_data msg) else Ok CT_None) (\<lambda>ctype.
       case ctype of
         CT_Zstd \<Rightarrow> mapErr TE_Compressor (doCompressZstd (se_zstd X) c True msg)
       | CT_ZstdNoDict \<Rightarrow> mapErr TE_Compressor (doCompressZstd (se_zstd X) c False msg)
       | CT_Lz4 \<Rightarrow> mapErr TE_Compressor (doCompressLz4 (se_lz4 X) msg)
       | _ \<Rightarrow> Ok msg)"

section \<open>Sending and receiving\<close>

definition sendContext :: "OutgoingMessage \<Rightarrow> QunetMessage \<Rightarrow> SentMessageContext" where
  "sendContext outgoing message =
     (let ctx = SentMessageContext_new\<lparr>cx_reliable := om_reliable outgoing, cx_tag := om_tag outgoing\<rparr>
      in case message of
           Data msg \<Rightarrow>
             (case dm_compHeader msg of
                Some ch \<Rightarrow> ctx\<lparr>cx_originalSize := unat (ch_uncompressedSize ch),
                              cx_compressedSize := Some (length (dm_data msg))\<rparr>
              | None \<Rightarrow> ctx\<lparr>cx_originalSize := length (dm_data msg)\<rparr>)
         | _ \<Rightarrow> ctx\<lparr>cx_originalSize := 1\<rparr>)"

definition Socket_sendMessage :: "('s, 'cd, 'dd, 'd, 'i) transport_ops \<Rightarrow> ('d, 'i, 'f) time_ops \<Rightarrow>
    ('r, 'cd, 'dd, 'a, 'p) socket_env \<Rightarrow> 'i call \<Rightarrow> OutgoingMessage \<Rightarrow> ('s, 'a, 'p) Socket \<Rightarrow>
    (unit TransportResult \<times> ('s, 'a, 'p) Socket) option" where
  "Socket_sendMessage V T X c outgoing k =
     (let message = (case om_message outgoing of
            Data msg \<Rightarrow> unwrap (compressOutgoing X (bt_zstdCompressor (vt_base V (sk_transport k)))
                (om_uncompressed outgoing) msg) (\<lambda>msg. Ok (Data msg))
          | m \<Rightarrow> Ok m)
      in io_then (Some (message, k)) (\<lambda>message k.
         io_then (Some (headerByte message, k)) (\<lambda>hb k.
         io_then (map_option (\<lambda>(r, s). (r, k\<lparr>sk_transport := s\<rparr>))
                    (vt_sendMessage V c message (sendContext outgoing message) (sk_transport k))) (\<lambda>ctx k.
         Some (Ok (), sk_on (vt_on_base V (logOutgoingMessage T (cl_now c) hb ctx)) k)))))"

definition Socket_receiveMessage :: "('s, 'cd, 'dd, 'd, 'i) transport_ops \<Rightarrow> ('d, 'i, 'f) time_ops \<Rightarrow>
    'i call \<Rightarrow> ('s, 'a, 'p) Socket \<Rightarrow>
    (QunetMessage TransportResult option \<times> ('s, 'a, 'p) Socket) option" where
  "Socket_receiveMessage V T c k =
     (case vt_receiveMessage V c (sk_transport k) of
        None \<Rightarrow> None
      | Some (Some (Inr msg), s) \<Rightarrow>
          Some (Some (Ok msg), k\<lparr>sk_transport := onIncomingMessage T (vt_updateLatency V)
            (vt_on_base V (\<lambda>b. b\<lparr>bt_unackedKeepalives := 0\<rparr>)) (cl_arrival c) msg s\<rparr>)
      | Some (r, s) \<Rightarrow> Some (r, k\<lparr>sk_transport := s\<rparr>))"

definition Socket_closeSync :: "('s, 'cd, 'dd, 'd, 'i) transport_ops \<Rightarrow> 'i call \<Rightarrow> ('s, 'a, 'p) Socket \<Rightarrow>
    unit TransportResult \<times> ('s, 'a, 'p) Socket" where
  "Socket_closeSync V c k =
     (let (r, s) = vt_closeSync V c (sk_transport k) in (r, k\<lparr>sk_transport := s\<rparr>))"

definition Socket_close :: "('s, 'cd, 'dd, 'd, 'i) transport_ops \<Rightarrow> 'i call \<Rightarrow> ('s, 'a, 'p) Socket \<Rightarrow>
    unit TransportResult \<times> ('s, 'a, 'p) Socket" where
  "Socket_close V c k = (let (r, s) = vt_close V c (sk_transport k) in (r, k\<lparr>sk_transport := s\<rparr>))"

definition Socket_isClosed :: "('s, 'cd, 'dd, 'd, 'i) transport_ops \<Rightarrow> ('s, 'a, 'p) Socket \<Rightarrow> bool" where
  "Socket_isClosed V k = vt_isClosed V (sk_transport k)"

definition Socket_handleTimerExpiry :: "('s, 'cd, 'dd, 'd, 'i) transport_ops \<Rightarrow> 'i call \<Rightarrow>
    ('s, 'a, 'p) Socket \<Rightarrow> (unit TransportResult \<times> ('s, 'a, 'p) Socket) option" where
  "Socket_handleTimerExpiry V c k =
     map_option (\<lambda>(r, s). (r, k\<lparr>sk_transport := s\<rparr>)) (vt_handleTimerExpiry V c (sk_transport k))"

section \<open>Connecting\<close>

text \<open>The readings of the clock in \<open>createSocket\<close>.\<close>

record 'i create_times =
  ct_startedAt :: 'i
  ct_tracked :: 'i
  ct_created :: 'i
  ct_connected :: 'i
  ct_finished :: 'i

text \<open>\<open>createSocket\<close> with what \<open>createTransport\<close> returned; the second component is a transport that
  was given up.  After \<open>std::move(transport)\<close> into the socket the pointer \<open>transport\<close> is null, so
  \<open>transport->close()\<close> in the last branch is a call through a null pointer.\<close>

definition createSocket :: "('s, 'cd, 'dd, 'd, 'i) transport_ops \<Rightarrow> ('d, 'i, 'f) time_ops \<Rightarrow>
    'i create_times \<Rightarrow> 'i call \<Rightarrow> 's TransportResult \<Rightarrow> ('a, 'd, 'f, 'x) TransportOptions \<Rightarrow>
    (('s, 'a, 'p) Socket \<times> 'd) TransportResult \<times> 's option" where
  "createSocket V T k c transport options =
     (let tracker = StatTracker_new (ct_startedAt k);
          tracker = onStartedConnection (ct_tracked k) tracker;
          tracker = setEnabled (do_recordStats (co_debug (to_connOptions options))) tracker
      in case transport of
           Inl e \<Rightarrow> (Inl e, None)
         | Inr transport \<Rightarrow>
             if tm_less T (to_timeout options) (tm_elapsed T (ct_created k) (ct_startedAt k)) then
               (Err (CustomKind ConnectionTimedOut), Some (snd (vt_close V c transport)))
             else
               let tracker = onConnected (ct_connected k) tracker;
                   transport = vt_on_base V (\<lambda>b. b\<lparr>bt_tracker := tracker\<rparr>) transport;
                   socket = Socket_new transport (to_address options);
                   handshakeTimeout = tm_minus T (to_timeout options)
                     (tm_elapsed T (ct_finished k) (ct_startedAt k))
               in if tm_millis T handshakeTimeout \<le> 0 then (Inl OutOfBounds, Some transport)
                  else (Ok (socket, handshakeTimeout), None))"

text \<open>The message of the server as a string.\<close>

definition failure_text :: "HandshakeFailureMessage \<Rightarrow> string" where
  "failure_text hf = map (\<lambda>b. char_of (unat b)) (fst (HandshakeFailureMessage_message (\<lambda>n. decimal (unat n)) hf))"

text \<open>\<open>initCompressors\<close> of the base class on the transport.\<close>

definition Socket_initCompressors :: "('s, 'cd, 'dd, 'd, 'i) transport_ops \<Rightarrow> ('cd, 'dd) zstd_ops \<Rightarrow>
    QunetDatabase option \<Rightarrow> ('s, 'a, 'p) Socket \<Rightarrow> unit TransportResult \<times> ('s, 'a, 'p) Socket" where
  "Socket_initCompressors V Z qdb k =
     (let (r, b) = initCompressors Z qdb (vt_base V (sk_transport k))
      in (r, sk_on (vt_on_base V (\<lambda>_. b)) k))"

text \<open>The compressed database of the handshake: a fresh decompressor, then the decoder.\<close>

definition decodeReceivedQdb :: "('r, 'cd, 'dd, 'a, 'p) socket_env \<Rightarrow> QdbData \<Rightarrow>
    (bytes \<times> QunetDatabase) TransportResult" where
  "decodeReceivedQdb X q =
     (let (r, dec) = ZstdDecompressor_init (se_zstd X) ZstdDecompressor_new
      in unwrap (throwing r) (\<lambda>_.
         let realSize = unat (qd_uncompressedSize q) in
         unwrap (mapErr TE_Decompressor
           (ZstdDecompressor_decompress (se_zstd X) dec (qd_chunkData q) realSize False)) (\<lambda>qdbData.
         unwrap (mapErr (\<lambda>_. CustomKind InvalidQunetDatabase)
           (QunetDatabase_decode (se_reader X) (se_hash X) qdbData)) (\<lambda>qdb.
         Ok (qdbData, qdb)))))"

definition onHandshakeSuccess :: "('s, 'cd, 'dd, 'd, 'i) transport_ops \<Rightarrow>
    ('r, 'cd, 'dd, 'a, 'p) socket_env \<Rightarrow> HandshakeFinishMessage \<Rightarrow> ('s, 'a, 'p) Socket \<Rightarrow>
    unit TransportResult \<times> ('s, 'a, 'p) Socket" where
  "onHandshakeSuccess V X msg k =
     (let k = sk_on (vt_on_base V (setConnectionId (hf_connectionId msg))) k
      in case hf_qdbData msg of
           Some q \<Rightarrow>
             step_then (decodeReceivedQdb X q, k) (\<lambda>(qdbData, qdb) k.
             step_then (Socket_initCompressors V (se_zstd X) (Some qdb) k) (\<lambda>_ k.
             (Ok (), if sk_qdbFolder k = None then k else k\<lparr>sk_saved := sk_saved k @ [qdbData]\<rparr>)))
         | None \<Rightarrow>
             (case sk_usedQdb k of
                Some qdb \<Rightarrow>
                  step_then (Socket_initCompressors V (se_zstd X) (Some qdb) k) (\<lambda>_ k.
                  (Ok (), k\<lparr>sk_usedQdb := None\<rparr>))
              | None \<Rightarrow> Socket_initCompressors V (se_zstd X) None k))"

text \<open>The destructor of \<open>scopeDtor\<close>: a socket that is not returned is closed.\<close>

definition closeUnlessOk :: "('s, 'cd, 'dd, 'd, 'i) transport_ops \<Rightarrow> 'i call \<Rightarrow>
    unit TransportResult \<times> ('s, 'a, 'p) Socket \<Rightarrow> unit TransportResult \<times> ('s, 'a, 'p) Socket" where
  "closeUnlessOk V c m = (case m of (Inr _, k) \<Rightarrow> m | (Inl e, k) \<Rightarrow> (Inl e, snd (Socket_closeSync V c k)))"

text \<open>\<open>Socket::connect\<close> and \<open>Socket::reconnect\<close>.  The socket is returned on success; otherwise it
  is the socket as it was left, when there was one.\<close>

definition handshakeStartMessage :: "('s, 'a, 'p) Socket \<Rightarrow> HandshakeStartMessage" where
  "handshakeStartMessage k = \<lparr>hs_protocolVersion = PROTOCOL_VERSION, hs_fragLimit = of_nat UDP_SAFE_MTU,
     hs_qdbHash = (case sk_usedQdb k of Some qdb \<Rightarrow> getHash qdb | None \<Rightarrow> replicate 16 0)\<rparr>"

definition Socket_connect :: "('s, 'cd, 'dd, 'd, 'i) transport_ops \<Rightarrow> ('d, 'i, 'f) time_ops \<Rightarrow>
    ('r, 'cd, 'dd, 'a, 'p) socket_env \<Rightarrow> 'i create_times \<Rightarrow> 'i call \<Rightarrow> 's TransportResult \<Rightarrow>
    ('a, 'd, 'f, 'x) TransportOptions \<Rightarrow> 'p option \<Rightarrow>
    (unit TransportResult \<times> ('s, 'a, 'p) Socket option) option" where
  "Socket_connect V T X clocks c transport options qdbFolder =
     (case createSocket V T clocks c transport options of
        (Inl e, left) \<Rightarrow> Some (Inl e, map_option (\<lambda>s. Socket_new s (to_address options)) left)
      | (Inr (socket, timeout), _) \<Rightarrow>
          let socket = (case qdbFolder of
                 None \<Rightarrow> socket
               | Some folder \<Rightarrow> socket\<lparr>sk_usedQdb := se_findQdb X folder (to_address options),
                                      sk_qdbFolder := Some folder\<rparr>)
          in (case vt_performHandshake V c (handshakeStartMessage socket) (sk_transport socket) of
                None \<Rightarrow> None
              | Some (tres, s) \<Rightarrow>
                  let socket = socket\<lparr>sk_transport := s\<rparr>;
                      m = (case tres of
                          None \<Rightarrow> (Err (CustomKind HandshakeTimedOut), socket)
                        | Some (Inl e) \<Rightarrow> (Inl e, socket)
                        | Some (Inr (HandshakeFinish hf)) \<Rightarrow> onHandshakeSuccess V X hf socket
                        | Some (Inr (HandshakeFailure hf)) \<Rightarrow> (Err (TE_HandshakeFailure (failure_text hf)), socket)
                        | Some (Inr _) \<Rightarrow> (Err (CustomKind UnexpectedMessage), socket))
                  in (case closeUnlessOk V c m of (r, k) \<Rightarrow> Some (r, Some k))))"

text \<open>\<open>onReconnectSuccess\<close>: both sockets change, since the compressors are moved.\<close>

definition onReconnectSuccess :: "('s, 'cd, 'dd, 'd, 'i) transport_ops \<Rightarrow> ('s, 'a, 'p) Socket \<Rightarrow>
    ('s, 'a, 'p) Socket \<Rightarrow> unit TransportResult \<times> ('s, 'a, 'p) Socket \<times> ('s, 'a, 'p) Socket" where
  "onReconnectSuccess V older k =
     (let old = vt_base V (sk_transport older);
          (comp', comp0) = ZstdCompressor_move (bt_zstdCompressor old);
          (dec', dec0) = ZstdDecompressor_move (bt_zstdDecompressor old);
          k = sk_on (vt_on_base V (setConnectionId (bt_connectionId old))) k;
          k = sk_on (vt_on_base V (setMessageSizeLimit (bt_messageSizeLimit old))) k;
          k = sk_on (vt_on_base V (\<lambda>b. b\<lparr>bt_zstdCompressor := comp', bt_zstdDecompressor := dec'\<rparr>)) k;
          older = sk_on (vt_on_base V (\<lambda>b. b\<lparr>bt_zstdCompressor := comp0, bt_zstdDecompressor := dec0\<rparr>)) older
      in (Ok (), older, k))"

definition Socket_reconnect :: "('s, 'cd, 'dd, 'd, 'i) transport_ops \<Rightarrow> ('d, 'i, 'f) time_ops \<Rightarrow>
    'i create_times \<Rightarrow> 'i call \<Rightarrow> 's TransportResult \<Rightarrow> ('a, 'd, 'f, 'x) TransportOptions \<Rightarrow>
    ('s, 'a, 'p) Socket \<Rightarrow>
    (unit TransportResult \<times> ('s, 'a, 'p) Socket \<times> ('s, 'a, 'p) Socket option) option" where
  "Socket_reconnect V T clocks c transport options prev =
     (case createSocket V T clocks c transport options of
        (Inl e, left) \<Rightarrow> Some (Inl e, prev, map_option (\<lambda>s. Socket_new s (to_address options)) left)
      | (Inr (socket, timeout), _) \<Rightarrow>
          (case vt_performReconnect V c (bt_connectionId (vt_base V (sk_transport prev))) (sk_transport socket) of
             None \<Rightarrow> None
           | Some (tres, s) \<Rightarrow>
               let socket = socket\<lparr>sk_transport := s\<rparr>;
                   (r, prev, socket) = (case tres of
                       None \<Rightarrow> (Err (CustomKind HandshakeTimedOut), prev, socket)
                     | Some (Inl e) \<Rightarrow> (Inl e, prev, socket)
                     | Some (Inr ReconnectSuccessMessage) \<Rightarrow> onReconnectSuccess V prev socket
                     | Some (Inr ReconnectFailureMessage) \<Rightarrow> (Err (CustomKind ReconnectFailed), prev, socket)
                     | Some (Inr _) \<Rightarrow> (Err (CustomKind UnexpectedMessage), prev, socket))
               in (case closeUnlessOk V c (r, socket) of (r, k) \<Rightarrow> Some (r, prev, Some k))))"

section \<open>The life of a socket\<close>

definition Socket_updateLatency :: "('s, 'cd, 'dd, 'd, 'i) transport_ops \<Rightarrow> 'd \<Rightarrow> ('s, 'a, 'p) Socket \<Rightarrow>
    ('s, 'a, 'p) Socket" where
  "Socket_updateLatency V rtt = sk_on (vt_updateLatency V rtt)"

text \<open>The calls that an established socket gets, in any order and with any outcome.\<close>

inductive socket_step :: "('s, 'cd, 'dd, 'd, 'i) transport_ops \<Rightarrow> ('d, 'i, 'f) time_ops \<Rightarrow>
    ('r, 'cd, 'dd, 'a, 'p) socket_env \<Rightarrow> ('s, 'a, 'p) Socket \<Rightarrow> ('s, 'a, 'p) Socket \<Rightarrow> bool"
  for V T X where
  step_send: "Socket_sendMessage V T X c outgoing k = Some (r, k') \<Longrightarrow> socket_step V T X k k'"
| step_receive: "Socket_receiveMessage V T c k = Some (r', k') \<Longrightarrow> socket_step V T X k k'"
| step_timer: "Socket_handleTimerExpiry V c k = Some (r, k') \<Longrightarrow> socket_step V T X k k'"
| step_latency: "socket_step V T X k (Socket_updateLatency V rtt k)"
| step_close: "Socket_close V c k = (r, k') \<Longrightarrow> socket_step V T X k k'"
| step_closeSync: "Socket_closeSync V c k = (r, k') \<Longrightarrow> socket_step V T X k k'"

inductive socket_life :: "('s, 'cd, 'dd, 'd, 'i) transport_ops \<Rightarrow> ('d, 'i, 'f) time_ops \<Rightarrow>
    ('r, 'cd, 'dd, 'a, 'p) socket_env \<Rightarrow> ('s, 'a, 'p) Socket \<Rightarrow> ('s, 'a, 'p) Socket \<Rightarrow> bool"
  for V T X where
  life_refl: "socket_life V T X k k"
| life_step: "socket_life V T X k k' \<Longrightarrow> socket_step V T X k' k'' \<Longrightarrow> socket_life V T X k k''"

section \<open>What a socket keeps\<close>

text \<open>A connection that is established only just in time, so that no millisecond is left for the
  handshake, is closed through the null pointer that the move has left behind.\<close>

lemma late_connection_uses_null_pointer:
  assumes "\<not> tm_less T (to_timeout options) (tm_elapsed T (ct_created k) (ct_startedAt k))"
    and "tm_millis T (tm_minus T (to_timeout options) (tm_elapsed T (ct_finished k) (ct_startedAt k))) \<le> 0"
  shows "fst (createSocket V T k c (Ok transport) options) = Inl OutOfBounds"
  using assms by (simp add: createSocket_def Let_def)

lemma createSocket_Ok:
  assumes "createSocket V T k c transport options = (Inr (socket, timeout), left)"
  shows "\<exists>t tr. transport = Ok t \<and>
    socket = Socket_new (vt_on_base V (\<lambda>b. b\<lparr>bt_tracker := tr\<rparr>) t) (to_address options)"
  using assms by (auto simp: createSocket_def Let_def split: sum.splits if_splits)

text \<open>The two times at which \<open>createSocket\<close> gives up: the transport came after the timeout, or it came in
  time and nothing of the timeout is left for the handshake.\<close>

definition created_late :: "('d, 'i, 'f) time_ops \<Rightarrow> 'i create_times \<Rightarrow> ('a, 'd, 'f, 'x) TransportOptions \<Rightarrow> bool" where
  "created_late T clocks options \<longleftrightarrow>
     tm_less T (to_timeout options) (tm_elapsed T (ct_created clocks) (ct_startedAt clocks))"

definition no_time_left :: "('d, 'i, 'f) time_ops \<Rightarrow> 'i create_times \<Rightarrow> ('a, 'd, 'f, 'x) TransportOptions \<Rightarrow> bool" where
  "no_time_left T clocks options \<longleftrightarrow> \<not> created_late T clocks options \<and>
     tm_millis T (tm_minus T (to_timeout options) (tm_elapsed T (ct_finished clocks) (ct_startedAt clocks))) \<le> 0"

lemma closeUnlessOk_Ok [simp]: "closeUnlessOk V c m = (Inr x, k) \<longleftrightarrow> m = (Inr x, k)"
  by (cases m; cases "fst m") (auto simp: closeUnlessOk_def)

context transport_laws
begin

abbreviation sk_session :: "('s, 'a, 'p) Socket \<Rightarrow> u64 \<times> u64 \<times> 'cd ZstdCompressor \<times> 'dd ZstdDecompressor" where
  "sk_session k \<equiv> vt_session V (sk_transport k)"

lemma onReconnectSuccess_session:
  assumes "onReconnectSuccess V older k = (r, older', k')"
  shows "r = Ok ()" and "sk_session k' = sk_session older"
  using assms by (auto simp: onReconnectSuccess_def Let_def ZstdCompressor_move_def ZstdDecompressor_move_def sk_on_def
      setConnectionId_def setMessageSizeLimit_def session_def)

lemma reconnect_takes_session:
  fixes T :: "('d, 'i, 'f) time_ops" and prev :: "('s, 'a, 'p) Socket"
  assumes "Socket_reconnect V T clocks c transport options prev = Some (Ok (), prev', Some k)"
  shows "sk_session k = sk_session prev"
proof -
  define m where "m = (createSocket V T clocks c transport options :: (('s, 'a, 'p) Socket \<times> 'd) TransportResult \<times> 's option)"
  obtain socket timeout left where cs: "m = (Inr (socket, timeout), left)"
    using assms by (cases m; cases "fst m") (auto simp: Socket_reconnect_def m_def [symmetric])
  show ?thesis
    using assms cs
    by (auto simp: Socket_reconnect_def m_def [symmetric] Let_def onReconnectSuccess_session(2)
        split: option.splits sum.splits prod.splits QunetMessage.splits)
qed

lemma failed_socket_is_closed:
  assumes "cl_shutdown c = Ok ()" and "closeUnlessOk V c m = (Inl e, k)"
  shows "Socket_isClosed V k"
  using assms closeSync_closes [of c "sk_transport (snd m)"]
  by (cases m; cases "fst m") (auto simp: closeUnlessOk_def Socket_isClosed_def Socket_closeSync_def split: prod.splits)

lemma failed_connect_is_closed:
  fixes T :: "('d, 'i, 'f) time_ops" and k :: "('s, 'a, 'p) Socket"
  assumes "cl_shutdown c = Ok ()" and "Socket_connect V T X clocks c transport options qdbFolder = Some (Inl e, Some k)"
  shows "Socket_isClosed V k \<or>
    (created_late T clocks options \<and> e = Failed (CustomKind ConnectionTimedOut) \<and>
      (\<exists>t. transport = Ok t \<and> \<not> vt_isClosed V (snd (vt_close V c t)))) \<or>
    (no_time_left T clocks options \<and> e = OutOfBounds)"
proof -
  define m where "m = (createSocket V T clocks c transport options :: (('s, 'a, 'p) Socket \<times> 'd) TransportResult \<times> 's option)"
  obtain r left where m: "m = (r, left)"
    by (cases m)
  show ?thesis
  proof (cases r)
    case (Inl e')
    then show ?thesis
      using assms m
      by (auto simp: Socket_connect_def createSocket_def m_def Let_def Socket_isClosed_def Socket_new_def
          created_late_def no_time_left_def split: sum.splits if_splits)
  next
    case (Inr st)
    then show ?thesis
      using assms m
      by (cases st) (auto simp: Socket_connect_def m_def [symmetric] Let_def split: option.splits prod.splits
          dest: failed_socket_is_closed)
  qed
qed

lemma sendMessage_session:
  assumes "Socket_sendMessage V T X c outgoing k = Some (r, k')"
  shows "sk_session k' = sk_session k"
proof -
  have sent: "io_keeps sk_session (sk_session k)
      (map_option (\<lambda>(r, s). (r, k\<lparr>sk_transport := s\<rparr>)) (vt_sendMessage V c m ctx (sk_transport k)))" for m ctx
    using send_session [of "sk_transport k" c m ctx] by (auto simp: io_keeps_map io_keeps_def keeps_def split: prod.split)
  have "io_keeps sk_session (sk_session k) (Socket_sendMessage V T X c outgoing k)"
    unfolding Socket_sendMessage_def Let_def
    using send_session
    by (intro keeps_intros)
      (auto simp: io_keeps_map sk_on_def io_keeps_def keeps_def split: prod.split)
  then show ?thesis
    using assms by simp
qed

lemma step_session:
  assumes "socket_step V T X k k'"
  shows "sk_session k' = sk_session k"
  using assms
proof cases
  case (step_send c outgoing r)
  then show ?thesis
    by (rule sendMessage_session)
next
  case (step_receive c r)
  have clear: "vt_session V (vt_on_base V (\<lambda>b. b\<lparr>bt_unackedKeepalives := 0\<rparr>) s) = vt_session V s" for s
    by simp
  have incoming: "vt_session V (onIncomingMessage T (vt_updateLatency V) (vt_on_base V (\<lambda>b. b\<lparr>bt_unackedKeepalives := 0\<rparr>)) st msg s)
      = vt_session V s" for st msg s
    by (simp add: onIncomingMessage_def latency_session split: QunetMessage.split)
  show ?thesis
    using step_receive receive_session [of "sk_transport k" c] incoming
    by (auto simp: Socket_receiveMessage_def split: option.splits sum.splits)
next
  case (step_timer c r)
  then show ?thesis
    using timer_session [of "sk_transport k" c] by (auto simp: Socket_handleTimerExpiry_def)
next
  case (step_latency rtt)
  then show ?thesis
    by (simp add: Socket_updateLatency_def sk_on_def latency_session)
next
  case (step_close c r)
  then show ?thesis
    using close_session [of "sk_transport k" c] by (auto simp: Socket_close_def split: prod.splits)
next
  case (step_closeSync c r)
  then show ?thesis
    using closeSync_session [of "sk_transport k" c] by (auto simp: Socket_closeSync_def split: prod.splits)
qed

lemma life_session: "socket_life V T X k k' \<Longrightarrow> sk_session k' = sk_session k"
  by (induction rule: socket_life.induct) (auto dest: step_session)

end

section \<open>Compression of a message and its way back\<close>

lemma shouldCompress_total:
  assumes "lz4_laws L" and "length data < 2 ^ 30"
  shows "\<exists>ct. shouldCompress L data = Ok ct \<and> ct \<noteq> CT_ZstdNoDict \<and> (ct = CT_Lz4 \<longrightarrow> data \<noteq> [])"
proof (cases "length data < 128")
  case False
  then have "data \<noteq> []"
    by auto
  then obtain out where "Lz4Compressor_compress L data (Lz4Compressor_compressBound L (length data)) = Ok out"
    using lz4_laws.lz4_roundtrip [OF assms(1) _ assms(2) refl] by blast
  then show ?thesis
    using \<open>data \<noteq> []\<close> by (simp add: shouldCompress_def Let_def throwing_def)
qed (simp add: shouldCompress_def)

lemma doCompress_small:
  assumes "length (dm_data m) < 2 ^ 30"
    and "compress (dm_data m) (bound (length (dm_data m))) = Ok out"
  shows "doCompress bound compress type m = Ok m \<or>
    doCompress bound compress type m = Ok (m\<lparr>dm_data := out, dm_compHeader :=
        Some \<lparr>ch_type = type, ch_uncompressedSize = of_nat (length (dm_data m))\<rparr>\<rparr>) \<and>
    length out < length (dm_data m)"
proof -
  have "unat (of_nat (length (dm_data m)) :: u32) = length (dm_data m)"
    using assms(1) by (simp add: unat_of_nat)
  then show ?thesis
    using assms(2) by (auto simp: doCompress_def Let_def)
qed

text \<open>What the receiver decodes from a data message that came whole.\<close>

definition data_meta :: "nat \<Rightarrow> DataMessage \<Rightarrow> QunetMessageMeta" where
  "data_meta off m = \<lparr>mm_type = MSG_DATA, mm_compressionHeader = dm_compHeader m, mm_reliabilityHeader = None,
     mm_fragmentationHeader = None, mm_data = dm_data m, mm_dataOffset = off\<rparr>"

lemma decodePreFinal_plain:
  "dm_compHeader m = None \<Longrightarrow>
    fst (decodePreFinalDataMessage T Z L now (data_meta off m) t) =
      Ok (Data \<lparr>dm_data = dm_data m, dm_compHeader = None, dm_relHeader = None\<rparr>)"
  by (simp add: decodePreFinalDataMessage_def data_meta_def)

lemma decodePreFinal_compressed:
  assumes "dm_compHeader m = Some \<lparr>ch_type = type, ch_uncompressedSize = of_nat (length data)\<rparr>"
    and "length data < 2 ^ 30" and "length data \<le> unat (bt_messageSizeLimit t)"
    and "type = CT_Zstd \<Longrightarrow> ZstdDecompressor_decompress Z (bt_zstdDecompressor t) (dm_data m) (length data) False = Ok data"
    and "type = CT_Lz4 \<Longrightarrow> Lz4Decompressor_decompress L (dm_data m) (length data) = Ok data"
    and "type = CT_Zstd \<or> type = CT_Lz4"
  shows "fst (decodePreFinalDataMessage T Z L now (data_meta off m) t) =
      Ok (Data \<lparr>dm_data = data, dm_compHeader = None, dm_relHeader = None\<rparr>)"
proof -
  have "unat (of_nat (length data) :: u32) = length data"
    using assms(2) by (simp add: unat_of_nat)
  then show ?thesis
    using assms(1,3-6) by (auto simp: decodePreFinalDataMessage_def data_meta_def Let_def)
qed

lemma doCompress_roundtrip:
  fixes msg :: DataMessage
  assumes "dm_compHeader msg = None" and "length (dm_data msg) < 2 ^ 30"
    and "length (dm_data msg) \<le> unat (bt_messageSizeLimit t)"
    and "compress (dm_data msg) (bound (length (dm_data msg))) = Ok out"
    and "type = CT_Zstd \<Longrightarrow> ZstdDecompressor_decompress Z (bt_zstdDecompressor t) out (length (dm_data msg)) False = Ok (dm_data msg)"
    and "type = CT_Lz4 \<Longrightarrow> Lz4Decompressor_decompress L out (length (dm_data msg)) = Ok (dm_data msg)"
    and "type = CT_Zstd \<or> type = CT_Lz4"
  shows "\<exists>msg'. doCompress bound compress type msg = Ok msg' \<and> length (dm_data msg') \<le> length (dm_data msg) \<and>
    wf_comp (dm_compHeader msg') \<and> dm_relHeader msg' = dm_relHeader msg \<and>
    fst (decodePreFinalDataMessage T Z L now (data_meta off msg') t) =
      Ok (Data \<lparr>dm_data = dm_data msg, dm_compHeader = None, dm_relHeader = None\<rparr>)"
  using doCompress_small [where compress = compress and bound = bound, OF assms(2,4), of type]
proof (elim disjE conjE)
  assume "doCompress bound compress type msg = Ok msg"
  then show ?thesis
    using assms(1) by (simp add: decodePreFinal_plain wf_comp_def)
next
  let ?m = "msg\<lparr>dm_data := out, dm_compHeader :=
      Some \<lparr>ch_type = type, ch_uncompressedSize = of_nat (length (dm_data msg))\<rparr>\<rparr>"
  assume "doCompress bound compress type msg = Ok ?m" and "length out < length (dm_data msg)"
  then show ?thesis
    using decodePreFinal_compressed [of ?m type "dm_data msg" t Z L T now off] assms(2,3,5-7) by (auto simp: wf_comp_def)
qed

lemma compression_roundtrip:
  assumes Z: "zstd_laws (se_zstd X)" and L: "lz4_laws (se_lz4 X)"
    and matching: "zstd_laws.matching (se_zstd X) c (bt_zstdDecompressor t)"
    and plain: "dm_compHeader msg = None" and small: "length (dm_data msg) < 2 ^ 30"
    and limit: "length (dm_data msg) \<le> unat (bt_messageSizeLimit t)"
  shows "\<exists>msg'. compressOutgoing X c uncompressed msg = Ok msg' \<and>
    length (dm_data msg') \<le> length (dm_data msg) \<and> wf_comp (dm_compHeader msg') \<and>
    dm_relHeader msg' = dm_relHeader msg \<and>
    fst (decodePreFinalDataMessage T (se_zstd X) (se_lz4 X) now (data_meta off msg') t) =
      Ok (Data \<lparr>dm_data = dm_data msg, dm_compHeader = None, dm_relHeader = None\<rparr>)"
proof -
  let ?data = "dm_data msg"
  obtain ct where ct: "(if \<not> uncompressed then shouldCompress (se_lz4 X) ?data else Ok CT_None) = Ok ct"
    "ct \<noteq> CT_ZstdNoDict" "ct = CT_Lz4 \<longrightarrow> ?data \<noteq> []"
    using shouldCompress_total [OF L small] by (cases uncompressed) auto
  show ?thesis
  proof (cases ct)
    case CT_None
    then show ?thesis
      using ct plain by (simp add: compressOutgoing_def decodePreFinal_plain wf_comp_def)
  next
    case CT_ZstdNoDict
    then show ?thesis
      using ct(2) by simp
  next
    case CT_Zstd
    obtain out where out: "ZstdCompressor_compress (se_zstd X) c ?data (ZstdCompressor_compressBound (se_zstd X) (length ?data)) False = Ok out"
      "ZstdDecompressor_decompress (se_zstd X) (bt_zstdDecompressor t) out (length ?data) False = Ok ?data"
      using zstd_laws.zstd_roundtrip [OF Z matching, of ?data] by (auto simp: ZstdCompressor_compressBound_def)
    show ?thesis
      using doCompress_roundtrip [OF plain small limit, of "\<lambda>src cap. ZstdCompressor_compress (se_zstd X) c src cap False"
            "ZstdCompressor_compressBound (se_zstd X)" out CT_Zstd "se_zstd X" "se_lz4 X" T now off] out ct CT_Zstd
      by (auto simp: compressOutgoing_def doCompressZstd_def Let_def)
  next
    case CT_Lz4
    obtain out where out: "Lz4Compressor_compress (se_lz4 X) ?data (Lz4Compressor_compressBound (se_lz4 X) (length ?data)) = Ok out"
      "Lz4Decompressor_decompress (se_lz4 X) out (length ?data) = Ok ?data"
      using lz4_laws.lz4_roundtrip [OF L _ small refl] ct(3) CT_Lz4 by blast
    show ?thesis
      using doCompress_roundtrip [OF plain small limit, of "Lz4Compressor_compress (se_lz4 X)"
            "Lz4Compressor_compressBound (se_lz4 X)" out CT_Lz4 "se_zstd X" "se_lz4 X" T now off] out ct CT_Lz4
      by (auto simp: compressOutgoing_def doCompressLz4_def)
  qed
qed

text \<open>C11 (roundtrip).  Whatever the compression that \<open>shouldCompress\<close> chooses for an outgoing data
  message, choosing and compressing never fail, the message does not grow, and a receiver whose
  decompressor matches gets back the data that was sent.\<close>

theorem socket_compression_roundtrip:
  assumes Z: "zstd_laws (se_zstd X)" and L: "lz4_laws (se_lz4 X)"
    and matching: "zstd_laws.matching (se_zstd X) c (bt_zstdDecompressor t)"
    and plain: "dm_compHeader msg = None" and small: "length (dm_data msg) < 2 ^ 30"
    and limit: "length (dm_data msg) \<le> unat (bt_messageSizeLimit t)"
  shows "\<exists>msg'. compressOutgoing X c uncompressed msg = Ok msg' \<and>
    length (dm_data msg') \<le> length (dm_data msg) \<and>
    fst (decodePreFinalDataMessage T (se_zstd X) (se_lz4 X) now (data_meta off msg') t) =
      Ok (Data \<lparr>dm_data = dm_data msg, dm_compHeader = None, dm_relHeader = None\<rparr>)"
  using compression_roundtrip [OF assms] by blast

text \<open>A codec that shortens one message.\<close>

definition zeros_zstd :: "(bytes, bytes) zstd_ops" where
  "zeros_zstd =
     (let enc = (\<lambda>src. if src = replicate 2000 0 then [1] else 0 # src);
          dec = (\<lambda>c n. if c = [1] then (if 2000 \<le> n then Some (replicate 2000 0) else None)
                       else if length (tl c) \<le> n then Some (tl c) else None);
          fit = (\<lambda>src cap. if length (enc src) \<le> cap then Some (enc src) else None)
      in \<lparr>z_createCCtx = True, z_createDCtx = True, z_createCDict = (\<lambda>d _. Some d), z_createDDict = Some,
          z_compress_usingCDict = (\<lambda>_. fit), z_compressCCtx = (\<lambda>_. fit),
          z_decompress_usingDDict = (\<lambda>_. dec), z_decompressDCtx = dec, z_compressBound = Suc\<rparr>)"

interpretation zeros_z: zstd_laws zeros_zstd
  by unfold_locales (auto simp: zeros_zstd_def Let_def split: if_splits)

definition sample_socket_env :: "(bytes, bytes, bytes, 'a, nat) socket_env" where
  "sample_socket_env = \<lparr>se_zstd = zeros_zstd, se_lz4 = stored_lz4, se_reader = list_reader,
     se_hash = (\<lambda>_. replicate 16 0), se_findQdb = (\<lambda>_ _. None)\<rparr>"

theorem socket_compression_roundtrip_witness:
  "\<exists>msg'. compressOutgoing (sample_socket_env :: (_, _, _, unit, _) socket_env)
       (snd (ZstdCompressor_init zeros_zstd 3 ZstdCompressor_new)) False
       \<lparr>dm_data = replicate 2000 0, dm_compHeader = None, dm_relHeader = None\<rparr> = Ok msg' \<and>
     fst (decodePreFinalDataMessage nat_time zeros_zstd stored_lz4 0 (data_meta 1 msg')
       ((BaseTransport_new 0)\<lparr>bt_zstdDecompressor := snd (ZstdDecompressor_init zeros_zstd ZstdDecompressor_new)\<rparr>)) =
       Ok (Data \<lparr>dm_data = replicate 2000 0, dm_compHeader = None, dm_relHeader = None\<rparr>)"
proof -
  let ?X = "sample_socket_env :: (_, _, _, unit, _) socket_env"
  let ?t = "(BaseTransport_new 0)\<lparr>bt_zstdDecompressor := snd (ZstdDecompressor_init zeros_zstd ZstdDecompressor_new)\<rparr>
    :: (bytes, bytes, nat, nat) BaseTransport"
  let ?m = "\<lparr>dm_data = replicate 2000 0, dm_compHeader = None, dm_relHeader = None\<rparr>"
  have X: "se_zstd ?X = zeros_zstd" "se_lz4 ?X = stored_lz4"
    by (simp_all add: sample_socket_env_def)
  have "unat (bt_messageSizeLimit ?t) = 2 ^ 64 - 1"
    by (simp add: BaseTransport_new_def unsigned_minus_1_eq_mask mask_eq_exp_minus_1)
  then show ?thesis
    using socket_compression_roundtrip [of ?X "snd (ZstdCompressor_init zeros_zstd 3 ZstdCompressor_new)" ?t ?m False
        nat_time 0 1]
      zeros_z.zstd_laws_axioms stored_l.lz4_laws_axioms zeros_z.init_matching
    by (auto simp: X)
qed

section \<open>Properties of the socket over every transport\<close>

text \<open>A socket that has reconnected continues the session of the old one: it has its
  connection id, its size limit and its compressors with their dictionaries, over a transport of
  any kind, and keeps them whatever messages it sends and receives, whatever timers fire, and
  whatever errors these calls return.\<close>

theorem reconnected_socket_keeps_session:
  assumes "ws_client_laws ops"
    and "Socket_reconnect (all_transports E D B Q others ops) T clocks c transport options prev = Some (Ok (), prev', Some k)"
    and "socket_life (all_transports E D B Q others ops) T X k k'"
  shows "vt_session (all_transports E D B Q others ops) (sk_transport k') =
    vt_session (all_transports E D B Q others ops) (sk_transport prev)"
  using transport_laws.reconnect_takes_session [OF all_transports_laws [OF assms(1)] assms(2)]
    transport_laws.life_session [OF all_transports_laws [OF assms(1)] assms(3)] by simp

definition sample_double :: "nat double_ops" where
  "sample_double = \<lparr>db_dec = (\<lambda>n k. n * 1000 div 10 ^ k), db_ofU64 = unat, db_toU64 = of_nat,
     db_plus = (+), db_minus = (-), db_times = (\<lambda>a b. a * b div 1000)\<rparr>"

abbreviation sample_transports where
  "sample_transports \<equiv> all_transports plain_env sample_double list_ring toy_env (\<lambda>_. []) sample_ws"

definition sample_call :: "nat call" where
  "sample_call = \<lparr>cl_now = 5, cl_stamp = 6, cl_arrival = 7, cl_rounds = [], cl_shutdown = Ok ()\<rparr>"

lemma Socket_new_transport [simp]: "sk_transport (Socket_new s a) = s"
  by (simp add: Socket_new_def)

lemma sample_call_simps [simp]:
  "cl_now sample_call = 5" "cl_stamp sample_call = 6" "cl_shutdown sample_call = Ok ()"
  by (simp_all add: sample_call_def)

definition sample_clocks :: "nat create_times" where
  "sample_clocks = \<lparr>ct_startedAt = 1, ct_tracked = 1, ct_created = 2, ct_connected = 3, ct_finished = 4\<rparr>"

definition sample_options :: "(unit, nat, nat, unit) TransportOptions" where
  "sample_options = \<lparr>to_address = (), to_type = WebSocket, to_timeout = 5000000000, to_hostname = [], to_path = [],
     to_connOptions = \<lparr>co_debug = \<lparr>do_verboseSsl = False, do_verboseQuic = False, do_recordStats = True,
       do_packetLossSimulation = 0\<rparr>, co_activeKeepaliveInterval = None\<rparr>,
     to_tlsContext = None, to_reconnecting = False\<rparr>"

text \<open>A WebSocket over which the messages \<open>ms\<close> come.\<close>

type_synonym sample_state = "(((bytes, bytes, nat, nat, nat) UdpTransport, nat) networked,
  (((bytes \<times> nat), bytes, bytes, nat, nat) TcpTransport, nat) networked,
  ((bytes \<times> nat, bytes, bytes, nat, nat, toy_conn, bytes \<times> nat, nat) QuicTransport, nat) networked,
  (sample_client, bytes, bytes, nat, nat) WsTransport) any_transport"

definition sample_websocket :: "ws_message list \<Rightarrow> sample_state" where
  "sample_websocket ms = WsT (WsTransport_new 0 \<lparr>sc_open = True, sc_sent = [], sc_coming = ms\<rparr>)"

definition sample_socket :: "u64 \<Rightarrow> (sample_state, unit, nat) Socket" where
  "sample_socket cid = Socket_new (vt_on_base sample_transports (setConnectionId cid) (sample_websocket [])) ()"

lemma dispatch_websocket [simp]:
  "vt_base (dispatch U P Q W) (WsT w) = vt_base W w"
  "vt_on_base (dispatch U P Q W) g (WsT w) = WsT (vt_on_base W g w)"
  "vt_performReconnect (dispatch U P Q W) c cid (WsT w) = map_option (through WsT) (vt_performReconnect W c cid w)"
  "vt_performHandshake (dispatch U P Q W) c hs (WsT w) = map_option (through WsT) (vt_performHandshake W c hs w)"
  "vt_closeSync (dispatch U P Q W) c (WsT w) = through WsT (vt_closeSync W c w)"
  "vt_isClosed (dispatch U P Q W) (WsT w) = vt_isClosed W w"
  by (simp_all add: dispatch_def)

lemma websocket_ops_simps [simp]:
  "vt_base (websocket_ops E D ops) = ws_base"
  "vt_on_base (websocket_ops E D ops) = ws_on_base"
  "vt_performReconnect (websocket_ops E D ops) c cid t =
     Some (WsTransport_performReconnect E ops (cl_now c) (cl_stamp c) cid t)"
  "vt_performHandshake (websocket_ops E D ops) c hs t =
     Some (WsTransport_performHandshake E ops (cl_now c) (cl_stamp c) hs t)"
  "vt_closeSync (websocket_ops E D ops) c t = WsTransport_closeSync ops t"
  "vt_isClosed (websocket_ops E D ops) t = WsTransport_isClosed ops t"
  by (simp_all add: websocket_ops_def)

lemma sample_ws_simps [simp]:
  "wc_isConnected sample_ws c = sc_open c"
  "wc_send sample_ws data c = (if sc_open c then (Ok (), c\<lparr>sc_sent := sc_sent c @ [data]\<rparr>) else (Err ''closed'', c))"
  "wc_recv sample_ws c = (case sc_coming c of [] \<Rightarrow> (None, c) | m # ms \<Rightarrow> (Some (Ok m), c\<lparr>sc_coming := ms\<rparr>))"
  by (simp_all add: sample_ws_def)

lemma sample_reconnect_answer:
  assumes "sc_open (ws_client w)" and "sc_coming (ws_client w) = [WsBinary [14]]"
  shows "\<exists>w'. WsTransport_performReconnect plain_env sample_ws now stamp cid w =
    (Some (Ok ReconnectSuccessMessage), w')"
proof -
  have sent: "\<exists>w1. WsTransport_sendPlain plain_env sample_ws now stamp (ClientReconnectMessage cid) True w = (Ok (), w1) \<and>
      sc_coming (ws_client w1) = [WsBinary [14]]"
    using assms by (simp add: WsTransport_sendPlain_def WsTransport_sendMessage_def stampKeepalive_def Let_def
        encodeControlMsg_def encodeControlHeader_def encode_defs ws_call_def ws_on_tracker_def ws_on_base_def)
  have "\<exists>w'. WsTransport_receiveMessage plain_env sample_ws now w1 = (Some (Ok ReconnectSuccessMessage), w')"
    if "sc_coming (ws_client w1) = [WsBinary [14]]" for w1 :: "(sample_client, bytes, bytes, nat, nat) WsTransport"
    using that by (simp add: WsTransport_receiveMessage_def WsTransport_decode_def Let_def decodeMeta_def
        lengthForNonDataMessage_def decodeWithMeta_def at_def PROTOCOL_VERSION_def)
  then show ?thesis
    using sent by (auto simp: WsTransport_performReconnect_def)
qed

lemma sample_reconnect:
  "\<exists>prev' k. Socket_reconnect sample_transports nat_time sample_clocks sample_call
     (Ok (sample_websocket [WsBinary [14]])) sample_options (sample_socket 77) = Some (Ok (), prev', Some k)"
proof -
  define w where "w = ws_on_base (\<lambda>b. b\<lparr>bt_tracker := onConnected 3 (setEnabled True (onStartedConnection 1 (StatTracker_new 1)))\<rparr>)
      (WsTransport_new 0 \<lparr>sc_open = True, sc_sent = [], sc_coming = [WsBinary [14]]\<rparr>
        :: (sample_client, bytes, bytes, nat, nat) WsTransport)"
  have cs: "createSocket sample_transports nat_time sample_clocks sample_call
      (Ok (sample_websocket [WsBinary [14]])) sample_options =
      ((Ok (Socket_new (WsT w) (), 4999999997), None) ::
        ((sample_state, unit, nat) Socket \<times> nat) TransportResult \<times> sample_state option)"
    by (simp add: createSocket_def sample_clocks_def sample_options_def sample_websocket_def
        w_def tm_elapsed_def Let_def)
  have "sc_open (ws_client w)" "sc_coming (ws_client w) = [WsBinary [14]]"
    by (simp_all add: w_def ws_on_base_def WsTransport_new_def)
  from sample_reconnect_answer [OF this, of 5 6 77] obtain w' where
    w': "WsTransport_performReconnect plain_env sample_ws 5 6 77 w = (Some (Ok ReconnectSuccessMessage), w')"
    by blast
  have cid: "bt_connectionId (vt_base sample_transports (sk_transport (sample_socket 77))) = 77"
    by (simp add: sample_socket_def Socket_new_def sample_websocket_def ws_on_base_def setConnectionId_def)
  show ?thesis
    using w' by (simp add: Socket_reconnect_def cs cid Socket_new_def through_def onReconnectSuccess_def
        closeUnlessOk_def Let_def split: prod.split)
qed

theorem reconnected_socket_keeps_session_witness:
  "\<exists>prev' k. Socket_reconnect sample_transports nat_time sample_clocks sample_call
     (Ok (sample_websocket [WsBinary [14]])) sample_options (sample_socket 77) = Some (Ok (), prev', Some k) \<and>
     fst (vt_session sample_transports (sk_transport (Socket_updateLatency sample_transports 9 k))) = 77"
proof -
  obtain prev' k where k: "Socket_reconnect sample_transports nat_time sample_clocks sample_call
     (Ok (sample_websocket [WsBinary [14]])) sample_options (sample_socket 77) = Some (Ok (), prev', Some k)"
    using sample_reconnect by blast
  have "socket_life sample_transports nat_time sample_socket_env k (Socket_updateLatency sample_transports 9 k)"
    by (rule life_step [OF life_refl step_latency])
  from reconnected_socket_keeps_session [OF sample_ws.ws_client_laws_axioms k this] k show ?thesis
    by (auto simp: sample_socket_def Socket_new_def sample_websocket_def ws_on_base_def setConnectionId_def session_def)
qed

text \<open>C26 (safety).  When the socket can be shut down, a connection attempt that fails after its transport
  was created leaves it closed, whatever the reason (created too late, no answer in time, a refused or
  unexpected answer, an undecodable database), but for two cases.  A QUIC connection that came after the timeout
  stays open when somebody else is already closing it, or its close packet cannot be sent.  And when the
  transport came in time but none of the timeout is left for the handshake, the code closes it through the
  pointer it has just moved from (\<open>Socket.cpp:44\<close>), which fails there (\<open>OutOfBounds\<close>).\<close>

theorem failed_connect_closes_transport:
  assumes "ws_client_laws ops" and "cl_shutdown c = Ok ()"
    and "Socket_connect (all_transports E D B Q others ops) T X clocks c transport options qdbFolder = Some (Inl e, Some k)"
  shows "Socket_isClosed (all_transports E D B Q others ops) k \<or>
    (created_late T clocks options \<and> e = Failed (CustomKind ConnectionTimedOut) \<and>
      (\<exists>q n. transport = Ok (QuicT (q, n)) \<and>
        (qc_closing (qt_conn q) \<or> fst (QuicTransport_close Q (cl_stamp c) q) \<noteq> Ok ()))) \<or>
    (no_time_left T clocks options \<and> e = OutOfBounds)"
proof -
  let ?V = "all_transports E D B Q others ops"
  note closes = udp_transport.close_closes [of c E D] tcp_transport.close_closes [of c E D B]
    closing_laws.close_closes [OF ws_client_laws.websocket_transport [OF assms(1)], of c E D]
  have "\<exists>q n. t = QuicT (q, n) \<and> (qc_closing (qt_conn q) \<or> fst (QuicTransport_close Q (cl_stamp c) q) \<noteq> Ok ())"
    if "\<not> vt_isClosed ?V (snd (vt_close ?V c t))" for t
  proof (cases t)
    case (QuicT q)
    then show ?thesis
      using that quic_close_closes [of "fst q" Q "cl_stamp c"]
      by (cases q) (auto simp: dispatch_def quic_ops_def)
  qed (use that closes assms(2) in \<open>auto simp: dispatch_def\<close>)
  then show ?thesis
    using transport_laws.failed_connect_is_closed [OF all_transports_laws [OF assms(1)] assms(2,3)] by blast
qed

theorem failed_connect_closes_transport_witness:
  "\<exists>k. Socket_connect sample_transports nat_time sample_socket_env sample_clocks sample_call
     (Ok (sample_websocket [])) sample_options None = Some (Err (CustomKind HandshakeTimedOut), Some k) \<and>
     Socket_isClosed sample_transports k"
proof -
  define w where "w = ws_on_base (\<lambda>b. b\<lparr>bt_tracker := onConnected 3 (setEnabled True (onStartedConnection 1 (StatTracker_new 1)))\<rparr>)
      (WsTransport_new 0 \<lparr>sc_open = True, sc_sent = [], sc_coming = []\<rparr>
        :: (sample_client, bytes, bytes, nat, nat) WsTransport)"
  have cs: "createSocket sample_transports nat_time sample_clocks sample_call
      (Ok (sample_websocket [])) sample_options =
      ((Ok (Socket_new (WsT w) (), 4999999997), None) ::
        ((sample_state, unit, nat) Socket \<times> nat) TransportResult \<times> sample_state option)"
    by (simp add: createSocket_def sample_clocks_def sample_options_def sample_websocket_def
        w_def tm_elapsed_def Let_def)
  have "sc_open (ws_client w)" "sc_coming (ws_client w) = []"
    by (simp_all add: w_def ws_on_base_def WsTransport_new_def)
  then have "\<exists>w'. WsTransport_performHandshake plain_env sample_ws 5 6 hs w = (None, w')"
    if "length (hs_qdbHash hs) = 16" for hs
    using that by (simp add: WsTransport_performHandshake_def WsTransport_sendPlain_def WsTransport_sendMessage_def
        stampKeepalive_def Let_def encodeControlMsg_def encodeControlHeader_def encode_defs ws_call_def
        ws_on_tracker_def ws_on_base_def WsTransport_receiveMessage_def)
  moreover have "length (hs_qdbHash (handshakeStartMessage (Socket_new (WsT w) () :: (sample_state, unit, nat) Socket))) = 16"
    by (simp add: handshakeStartMessage_def Socket_new_def)
  ultimately obtain w' where
    w': "WsTransport_performHandshake plain_env sample_ws 5 6
       (handshakeStartMessage (Socket_new (WsT w) () :: (sample_state, unit, nat) Socket)) w = (None, w')"
    by blast
  have "\<exists>k. Socket_connect sample_transports nat_time sample_socket_env sample_clocks sample_call
     (Ok (sample_websocket [])) sample_options None = Some (Err (CustomKind HandshakeTimedOut), Some k)"
    using w' by (simp add: Socket_connect_def cs through_def Let_def closeUnlessOk_def
        split: prod.split)
  then obtain k where k: "Socket_connect sample_transports nat_time sample_socket_env sample_clocks sample_call
     (Ok (sample_websocket [])) sample_options None = Some (Err (CustomKind HandshakeTimedOut), Some k)"
    by blast
  have "cl_shutdown sample_call = Ok ()"
    by simp
  from failed_connect_closes_transport [OF sample_ws.ws_client_laws_axioms this k] k show ?thesis
    by (auto simp: sample_websocket_def)
qed

end
