(* ===== verification/Dns_Resolver.thy ===== *)
theory Dns_Resolver
  imports Effects Net_Address
begin

text \<open>
  The resolvers (\<open>dns/Resolver.hpp\<close>, \<open>dns/Resolver.cpp\<close>): the one on c-ares with its caches
  (\<open>dns/ResolverAres.cpp\<close>) and the simple one with its thread (\<open>dns/ResolverSimple.cpp\<close>).

  c-ares, the cache container, the sort of the standard library and the addresses with their texts
  are parameters.  What c-ares does with a query is an argument: the status that
  \<open>ares_query_dnsrec\<close> returns and the calls of the callback that it makes, in order, each with
  whether it comes within the ten seconds that \<open>wrapSync\<close> waits.
\<close>

section \<open>Records and errors\<close>

datatype ResolverError =
    RE_Success | RE_NoData | RE_TemporaryFailure | RE_UnknownHost | RE_OutOfMemory | RE_Other

type_synonym 'a ResolverResult = "(ResolverError, 'a) outcome"

datatype 'v4 DNSRecordA = DNSRecordA (a_addresses: "'v4 list")

datatype 'v6 DNSRecordAAAA = DNSRecordAAAA (aaaa_addresses: "'v6 list")

record SRVEndpoint =
  sv_target :: string
  sv_port :: u16
  sv_priority :: u16
  sv_weight :: u16

datatype DNSRecordSRV = DNSRecordSRV (srv_endpoints: "SRVEndpoint list")

datatype DNSTransport = DT_Udp | DT_Tcp | DT_Tls | DT_Https

section \<open>c-ares\<close>

datatype ares_status =
    ARES_SUCCESS | ARES_ENODATA | ARES_ESERVFAIL | ARES_ENOTFOUND | ARES_ENOMEM | ARES_ETIMEOUT
  | ARES_OTHER nat

text \<open>A resource record of the answer section; a null pointer is None.\<close>

datatype ('v4, 'v6) ares_rr =
    RR_A "'v4 option"
  | RR_AAAA "'v6 option"
  | RR_SRV "string option" u16 u16 u16
  | RR_Other

record ('v4, 'v6) ares_answer =
  an_returned :: ares_status
  an_callbacks :: "(bool \<times> ares_status \<times> ('v4, 'v6) ares_rr list) list"

fun errorFromStatus :: "ares_status \<Rightarrow> ResolverError" where
  "errorFromStatus ARES_SUCCESS = RE_Success"
| "errorFromStatus ARES_ENODATA = RE_NoData"
| "errorFromStatus ARES_ESERVFAIL = RE_TemporaryFailure"
| "errorFromStatus ARES_ENOTFOUND = RE_UnknownHost"
| "errorFromStatus ARES_ENOMEM = RE_OutOfMemory"
| "errorFromStatus ARES_ETIMEOUT = RE_TemporaryFailure"
| "errorFromStatus (ARES_OTHER n) = RE_Other"

section \<open>Reading an answer\<close>

fun addressesA :: "('v4, 'v6) ares_rr list \<Rightarrow> 'v4 list" where
  "addressesA [] = []"
| "addressesA (rr # rrs) =
     (case rr of
        RR_A addr \<Rightarrow> (case addr of Some a \<Rightarrow> a # addressesA rrs | None \<Rightarrow> addressesA rrs)
      | _ \<Rightarrow> addressesA rrs)"

fun addressesAAAA :: "('v4, 'v6) ares_rr list \<Rightarrow> 'v6 list" where
  "addressesAAAA [] = []"
| "addressesAAAA (rr # rrs) =
     (case rr of
        RR_AAAA addr \<Rightarrow> (case addr of Some a \<Rightarrow> a # addressesAAAA rrs | None \<Rightarrow> addressesAAAA rrs)
      | _ \<Rightarrow> addressesAAAA rrs)"

fun endpointsSRV :: "('v4, 'v6) ares_rr list \<Rightarrow> SRVEndpoint list" where
  "endpointsSRV [] = []"
| "endpointsSRV (rr # rrs) =
     (case rr of
        RR_SRV target port priority weight \<Rightarrow>
          (case target of
             None \<Rightarrow> endpointsSRV rrs
           | Some target \<Rightarrow> \<lparr>sv_target = target, sv_port = port, sv_priority = priority, sv_weight = weight\<rparr>
               # endpointsSRV rrs)
      | _ \<Rightarrow> endpointsSRV rrs)"

definition parseQueryA :: "('v4, 'v6) ares_rr list \<Rightarrow> 'v4 DNSRecordA ResolverResult" where
  "parseQueryA result =
     (let record = DNSRecordA (addressesA result)
      in if a_addresses record = [] then Err RE_NoData else Ok record)"

definition parseQueryAAAA :: "('v4, 'v6) ares_rr list \<Rightarrow> 'v6 DNSRecordAAAA ResolverResult" where
  "parseQueryAAAA result =
     (let record = DNSRecordAAAA (addressesAAAA result)
      in if aaaa_addresses record = [] then Err RE_NoData else Ok record)"

definition endpoint_less :: "SRVEndpoint \<Rightarrow> SRVEndpoint \<Rightarrow> bool" where
  "endpoint_less a b =
     (if sv_priority a \<noteq> sv_priority b then sv_priority a < sv_priority b else sv_weight a < sv_weight b)"

definition parseQuerySRV :: "((SRVEndpoint \<Rightarrow> SRVEndpoint \<Rightarrow> bool) \<Rightarrow> SRVEndpoint list \<Rightarrow> SRVEndpoint list) \<Rightarrow>
    ('v4, 'v6) ares_rr list \<Rightarrow> DNSRecordSRV ResolverResult" where
  "parseQuerySRV stdsort result =
     (let endpoints = endpointsSRV result
      in if endpoints = [] then Err RE_NoData else Ok (DNSRecordSRV (stdsort endpoint_less endpoints)))"

section \<open>State\<close>

record ('i, 'v, 'c) cache_ops =
  ch_empty :: 'c
  ch_setup :: "nat \<Rightarrow> nat \<Rightarrow> nat \<Rightarrow> 'c \<Rightarrow> 'c"
  ch_get :: "'i \<Rightarrow> string \<Rightarrow> 'c \<Rightarrow> 'v option \<times> 'c"
  ch_insert :: "'i \<Rightarrow> string \<Rightarrow> 'v \<Rightarrow> 'c \<Rightarrow> 'c"

record ('v4, 'v6, 'ip, 'sa, 'i, 'ca, 'cb, 'cs) dns_env =
  de_localhost4 :: 'v4
  de_localhost6 :: 'v6
  de_socketAddress :: "'ip \<Rightarrow> u16 \<Rightarrow> 'sa"
  de_fallback :: 'ip
  de_toString :: "'sa \<Rightarrow> string"
  de_parse :: "string \<Rightarrow> 'sa option"
  de_split :: "string \<Rightarrow> string list"
  de_join :: "string list \<Rightarrow> string"
  de_sort :: "(SRVEndpoint \<Rightarrow> SRVEndpoint \<Rightarrow> bool) \<Rightarrow> SRVEndpoint list \<Rightarrow> SRVEndpoint list"
  de_aCache :: "('i, 'v4 DNSRecordA, 'ca) cache_ops"
  de_aaaaCache :: "('i, 'v6 DNSRecordAAAA, 'cb) cache_ops"
  de_srvCache :: "('i, DNSRecordSRV, 'cs) cache_ops"

text \<open>\<open>rv_servers\<close> is what was last given to \<open>ares_set_servers_csv\<close>.\<close>

record ('ip, 'sa, 'ca, 'cb, 'cs) Resolver =
  rv_channel :: bool
  rv_primaryNs :: "'ip option"
  rv_secondaryNs :: "'ip option"
  rv_transport :: DNSTransport
  rv_systemDnsServers :: "'sa list"
  rv_aCache :: 'ca
  rv_aaaaCache :: 'cb
  rv_srvCache :: 'cs
  rv_servers :: "string option"

definition reloadServers :: "('v4, 'v6, 'ip, 'sa, 'i, 'ca, 'cb, 'cs) dns_env \<Rightarrow>
    ('ip, 'sa, 'ca, 'cb, 'cs) Resolver \<Rightarrow> ('ip, 'sa, 'ca, 'cb, 'cs) Resolver" where
  "reloadServers E s =
     (let custom = concat (map (\<lambda>addrOpt. case addrOpt of None \<Rightarrow> [] | Some a \<Rightarrow> [de_socketAddress E a 53])
            [rv_primaryNs s, rv_secondaryNs s]);
          servers = custom @ rv_systemDnsServers s;
          servers = (if servers = [] then [de_socketAddress E (de_fallback E) 53] else servers)
      in s\<lparr>rv_servers := Some (de_join E (map (de_toString E) servers))\<rparr>)"

text \<open>\<open>csv\<close> is what \<open>ares_get_servers_csv\<close> returns; the caches are set up for 128 entries that live 5
  minutes and are swept every minute.\<close>

definition Resolver_new :: "('v4, 'v6, 'ip, 'sa, 'i, 'ca, 'cb, 'cs) dns_env \<Rightarrow> ares_status \<Rightarrow> string \<Rightarrow>
    ('ip, 'sa, 'ca, 'cb, 'cs) Resolver" where
  "Resolver_new E initStatus csv =
     (let s = \<lparr>rv_channel = initStatus = ARES_SUCCESS, rv_primaryNs = None, rv_secondaryNs = None,
            rv_transport = DT_Udp, rv_systemDnsServers = [], rv_aCache = ch_empty (de_aCache E),
            rv_aaaaCache = ch_empty (de_aaaaCache E), rv_srvCache = ch_empty (de_srvCache E), rv_servers = None\<rparr>
      in if initStatus \<noteq> ARES_SUCCESS then s
         else
           let s = reloadServers E (s\<lparr>rv_systemDnsServers := List.map_filter (de_parse E) (de_split E csv)\<rparr>)
           in s\<lparr>rv_aCache := ch_setup (de_aCache E) 128 5 1 (rv_aCache s),
                rv_aaaaCache := ch_setup (de_aaaaCache E) 128 5 1 (rv_aaaaCache s),
                rv_srvCache := ch_setup (de_srvCache E) 128 5 1 (rv_srvCache s)\<rparr>)"

definition setCustomDnsServers :: "('v4, 'v6, 'ip, 'sa, 'i, 'ca, 'cb, 'cs) dns_env \<Rightarrow> 'ip option \<Rightarrow> 'ip option \<Rightarrow>
    ('ip, 'sa, 'ca, 'cb, 'cs) Resolver \<Rightarrow> ('ip, 'sa, 'ca, 'cb, 'cs) Resolver" where
  "setCustomDnsServers E primary secondary s =
     reloadServers E (s\<lparr>rv_primaryNs := primary, rv_secondaryNs := secondary\<rparr>)"

definition setCustomDnsServer :: "('v4, 'v6, 'ip, 'sa, 'i, 'ca, 'cb, 'cs) dns_env \<Rightarrow> 'ip \<Rightarrow>
    ('ip, 'sa, 'ca, 'cb, 'cs) Resolver \<Rightarrow> ('ip, 'sa, 'ca, 'cb, 'cs) Resolver" where
  "setCustomDnsServer E addr s = setCustomDnsServers E (Some addr) None s"

definition setDnsTransport :: "('v4, 'v6, 'ip, 'sa, 'i, 'ca, 'cb, 'cs) dns_env \<Rightarrow> DNSTransport \<Rightarrow>
    ('ip, 'sa, 'ca, 'cb, 'cs) Resolver \<Rightarrow> (string, unit) outcome \<times> ('ip, 'sa, 'ca, 'cb, 'cs) Resolver" where
  "setDnsTransport E transport s =
     (if transport = DT_Https \<or> transport = DT_Tls then (Err ''DNS over HTTPS/TLS is not supported yet'', s)
      else (Ok (), reloadServers E (s\<lparr>rv_transport := transport\<rparr>)))"

section \<open>The caches\<close>

definition getCachedA :: "('v4, 'v6, 'ip, 'sa, 'i, 'ca, 'cb, 'cs) dns_env \<Rightarrow> 'i \<Rightarrow> string \<Rightarrow>
    ('ip, 'sa, 'ca, 'cb, 'cs) Resolver \<Rightarrow> 'v4 DNSRecordA option \<times> ('ip, 'sa, 'ca, 'cb, 'cs) Resolver" where
  "getCachedA E now name s =
     (if name = ''localhost'' then (Some (DNSRecordA [de_localhost4 E]), s)
      else case ch_get (de_aCache E) now name (rv_aCache s) of (r, cache) \<Rightarrow> (r, s\<lparr>rv_aCache := cache\<rparr>))"

definition getCachedAAAA :: "('v4, 'v6, 'ip, 'sa, 'i, 'ca, 'cb, 'cs) dns_env \<Rightarrow> 'i \<Rightarrow> string \<Rightarrow>
    ('ip, 'sa, 'ca, 'cb, 'cs) Resolver \<Rightarrow> 'v6 DNSRecordAAAA option \<times> ('ip, 'sa, 'ca, 'cb, 'cs) Resolver" where
  "getCachedAAAA E now name s =
     (if name = ''localhost'' then (Some (DNSRecordAAAA [de_localhost6 E]), s)
      else case ch_get (de_aaaaCache E) now name (rv_aaaaCache s) of (r, cache) \<Rightarrow> (r, s\<lparr>rv_aaaaCache := cache\<rparr>))"

definition getCachedSRV :: "('v4, 'v6, 'ip, 'sa, 'i, 'ca, 'cb, 'cs) dns_env \<Rightarrow> 'i \<Rightarrow> string \<Rightarrow>
    ('ip, 'sa, 'ca, 'cb, 'cs) Resolver \<Rightarrow> DNSRecordSRV option \<times> ('ip, 'sa, 'ca, 'cb, 'cs) Resolver" where
  "getCachedSRV E now name s =
     (case ch_get (de_srvCache E) now name (rv_srvCache s) of (r, cache) \<Rightarrow> (r, s\<lparr>rv_srvCache := cache\<rparr>))"

definition cacheRecordA :: "('v4, 'v6, 'ip, 'sa, 'i, 'ca, 'cb, 'cs) dns_env \<Rightarrow> 'i \<Rightarrow> string \<Rightarrow> 'v4 DNSRecordA \<Rightarrow>
    ('ip, 'sa, 'ca, 'cb, 'cs) Resolver \<Rightarrow> ('ip, 'sa, 'ca, 'cb, 'cs) Resolver" where
  "cacheRecordA E now name record s = s\<lparr>rv_aCache := ch_insert (de_aCache E) now name record (rv_aCache s)\<rparr>"

definition cacheRecordAAAA :: "('v4, 'v6, 'ip, 'sa, 'i, 'ca, 'cb, 'cs) dns_env \<Rightarrow> 'i \<Rightarrow> string \<Rightarrow> 'v6 DNSRecordAAAA \<Rightarrow>
    ('ip, 'sa, 'ca, 'cb, 'cs) Resolver \<Rightarrow> ('ip, 'sa, 'ca, 'cb, 'cs) Resolver" where
  "cacheRecordAAAA E now name record s =
     s\<lparr>rv_aaaaCache := ch_insert (de_aaaaCache E) now name record (rv_aaaaCache s)\<rparr>"

definition cacheRecordSRV :: "('v4, 'v6, 'ip, 'sa, 'i, 'ca, 'cb, 'cs) dns_env \<Rightarrow> 'i \<Rightarrow> string \<Rightarrow> DNSRecordSRV \<Rightarrow>
    ('ip, 'sa, 'ca, 'cb, 'cs) Resolver \<Rightarrow> ('ip, 'sa, 'ca, 'cb, 'cs) Resolver" where
  "cacheRecordSRV E now name record s = s\<lparr>rv_srvCache := ch_insert (de_srvCache E) now name record (rv_srvCache s)\<rparr>"

section \<open>Queries\<close>

definition queryCallback :: "('rr \<Rightarrow> 'v ResolverResult) \<Rightarrow> ('v \<Rightarrow> 's \<Rightarrow> 's) \<Rightarrow> ares_status \<Rightarrow> 'rr \<Rightarrow> 's \<Rightarrow>
    'v ResolverResult \<times> 's" where
  "queryCallback parseQuery cacheRecord status result s =
     (if status = ARES_SUCCESS then
        let res = parseQuery result
        in (res, case res of Inr record \<Rightarrow> cacheRecord record s | Inl _ \<Rightarrow> s)
      else (Err (errorFromStatus status), s))"

text \<open>What a query returns, what its callback is called with, and the resolver after the last call.\<close>

fun runCallbacks :: "('rr \<Rightarrow> 'v ResolverResult) \<Rightarrow> ('v \<Rightarrow> 's \<Rightarrow> 's) \<Rightarrow> (bool \<times> ares_status \<times> 'rr) list \<Rightarrow> 's \<Rightarrow>
    (bool \<times> 'v ResolverResult) list \<times> 's" where
  "runCallbacks parseQuery cacheRecord [] s = ([], s)"
| "runCallbacks parseQuery cacheRecord ((inTime, status, result) # calls) s =
     (case queryCallback parseQuery cacheRecord status result s of (r, s) \<Rightarrow>
      case runCallbacks parseQuery cacheRecord calls s of (rs, s) \<Rightarrow> ((inTime, r) # rs, s))"

definition runQuery :: "'v option \<times> 's \<Rightarrow> (('v4, 'v6) ares_rr list \<Rightarrow> 'v ResolverResult) \<Rightarrow> ('v \<Rightarrow> 's \<Rightarrow> 's) \<Rightarrow>
    ('v4, 'v6) ares_answer \<Rightarrow> unit ResolverResult \<times> (bool \<times> 'v ResolverResult) list \<times> 's" where
  "runQuery cached parseQuery cacheRecord ans =
     (case cached of
        (Some record, s) \<Rightarrow> (Ok (), [(True, Ok record)], s)
      | (None, s) \<Rightarrow>
          (case runCallbacks parseQuery cacheRecord (an_callbacks ans) s of (delivered, s) \<Rightarrow>
             if an_returned ans \<noteq> ARES_SUCCESS then (Err (errorFromStatus (an_returned ans)), delivered, s)
             else (Ok (), delivered, s)))"

definition queryA :: "('v4, 'v6, 'ip, 'sa, 'i, 'ca, 'cb, 'cs) dns_env \<Rightarrow> 'i \<Rightarrow> string \<Rightarrow> ('v4, 'v6) ares_answer \<Rightarrow>
    ('ip, 'sa, 'ca, 'cb, 'cs) Resolver \<Rightarrow>
    unit ResolverResult \<times> (bool \<times> 'v4 DNSRecordA ResolverResult) list \<times> ('ip, 'sa, 'ca, 'cb, 'cs) Resolver" where
  "queryA E now name ans s = runQuery (getCachedA E now name s) parseQueryA (cacheRecordA E now name) ans"

definition queryAAAA :: "('v4, 'v6, 'ip, 'sa, 'i, 'ca, 'cb, 'cs) dns_env \<Rightarrow> 'i \<Rightarrow> string \<Rightarrow> ('v4, 'v6) ares_answer \<Rightarrow>
    ('ip, 'sa, 'ca, 'cb, 'cs) Resolver \<Rightarrow>
    unit ResolverResult \<times> (bool \<times> 'v6 DNSRecordAAAA ResolverResult) list \<times> ('ip, 'sa, 'ca, 'cb, 'cs) Resolver" where
  "queryAAAA E now name ans s = runQuery (getCachedAAAA E now name s) parseQueryAAAA (cacheRecordAAAA E now name) ans"

definition querySRV :: "('v4, 'v6, 'ip, 'sa, 'i, 'ca, 'cb, 'cs) dns_env \<Rightarrow> 'i \<Rightarrow> string \<Rightarrow> ('v4, 'v6) ares_answer \<Rightarrow>
    ('ip, 'sa, 'ca, 'cb, 'cs) Resolver \<Rightarrow>
    unit ResolverResult \<times> (bool \<times> DNSRecordSRV ResolverResult) list \<times> ('ip, 'sa, 'ca, 'cb, 'cs) Resolver" where
  "querySRV E now name ans s =
     runQuery (getCachedSRV E now name s) (parseQuerySRV (de_sort E)) (cacheRecordSRV E now name) ans"

text \<open>\<open>wrapSync\<close>: the channel holds one record, the first that the callback is called with.\<close>

definition wrapSync :: "unit ResolverResult \<times> (bool \<times> 'v ResolverResult) list \<times> 's \<Rightarrow> 'v ResolverResult \<times> 's" where
  "wrapSync query =
     (case query of
        (Inl e, delivered, s) \<Rightarrow> (Inl e, s)
      | (Inr _, (True, record) # _, s) \<Rightarrow> (record, s)
      | (Inr _, _, s) \<Rightarrow> (Err RE_Other, s))"

definition asyncQueryA :: "('v4, 'v6, 'ip, 'sa, 'i, 'ca, 'cb, 'cs) dns_env \<Rightarrow> 'i \<Rightarrow> string \<Rightarrow> ('v4, 'v6) ares_answer \<Rightarrow>
    ('ip, 'sa, 'ca, 'cb, 'cs) Resolver \<Rightarrow> 'v4 DNSRecordA ResolverResult \<times> ('ip, 'sa, 'ca, 'cb, 'cs) Resolver" where
  "asyncQueryA E now name ans s = wrapSync (queryA E now name ans s)"

definition asyncQueryAAAA :: "('v4, 'v6, 'ip, 'sa, 'i, 'ca, 'cb, 'cs) dns_env \<Rightarrow> 'i \<Rightarrow> string \<Rightarrow> ('v4, 'v6) ares_answer \<Rightarrow>
    ('ip, 'sa, 'ca, 'cb, 'cs) Resolver \<Rightarrow> 'v6 DNSRecordAAAA ResolverResult \<times> ('ip, 'sa, 'ca, 'cb, 'cs) Resolver" where
  "asyncQueryAAAA E now name ans s = wrapSync (queryAAAA E now name ans s)"

definition asyncQuerySRV :: "('v4, 'v6, 'ip, 'sa, 'i, 'ca, 'cb, 'cs) dns_env \<Rightarrow> 'i \<Rightarrow> string \<Rightarrow> ('v4, 'v6) ares_answer \<Rightarrow>
    ('ip, 'sa, 'ca, 'cb, 'cs) Resolver \<Rightarrow> DNSRecordSRV ResolverResult \<times> ('ip, 'sa, 'ca, 'cb, 'cs) Resolver" where
  "asyncQuerySRV E now name ans s = wrapSync (querySRV E now name ans s)"

section \<open>The simple resolver\<close>

text \<open>A callback is a number; the union of the two callbacks has the one that \<open>rq_aaaa\<close> says.\<close>

record ResolverQuery =
  rq_aaaa :: bool
  rq_name :: string
  rq_callback :: nat

definition simple_queryA :: "string \<Rightarrow> nat \<Rightarrow> ResolverQuery list \<Rightarrow> unit ResolverResult \<times> ResolverQuery list" where
  "simple_queryA name callback channel =
     (Ok (), channel @ [\<lparr>rq_aaaa = False, rq_name = name, rq_callback = callback\<rparr>])"

definition simple_queryAAAA :: "string \<Rightarrow> nat \<Rightarrow> ResolverQuery list \<Rightarrow> unit ResolverResult \<times> ResolverQuery list" where
  "simple_queryAAAA name callback channel =
     (Ok (), channel @ [\<lparr>rq_aaaa = True, rq_name = name, rq_callback = callback\<rparr>])"

definition simple_querySRV :: "string \<Rightarrow> nat \<Rightarrow> ResolverQuery list \<Rightarrow> unit ResolverResult \<times> ResolverQuery list" where
  "simple_querySRV name callback channel = (Err RE_Other, channel)"

definition simple_setCustomDnsServer :: "'ip \<Rightarrow> ResolverQuery list \<Rightarrow> ResolverQuery list" where
  "simple_setCustomDnsServer addr channel = channel"

definition simple_setCustomDnsServers :: "'ip option \<Rightarrow> 'ip option \<Rightarrow> ResolverQuery list \<Rightarrow> ResolverQuery list" where
  "simple_setCustomDnsServers primary secondary channel = channel"

definition simple_setDnsTransport :: "DNSTransport \<Rightarrow> ResolverQuery list \<Rightarrow> (string, unit) outcome \<times> ResolverQuery list" where
  "simple_setDnsTransport transport channel = (Err ''not supported in simple resolver'', channel)"

text \<open>One turn of the thread: the callback that it calls, with the record.\<close>

definition resolverTurn :: "(string \<Rightarrow> 'v4 ResolverResult) \<Rightarrow> (string \<Rightarrow> 'v6 ResolverResult) \<Rightarrow> ResolverQuery list \<Rightarrow>
    (nat \<times> ('v4 DNSRecordA ResolverResult + 'v6 DNSRecordAAAA ResolverResult)) option \<times> ResolverQuery list" where
  "resolverTurn resolveIpv4 resolveIpv6 channel =
     (case channel of
        [] \<Rightarrow> (None, [])
      | query # channel \<Rightarrow>
          (Some (rq_callback query,
             if rq_aaaa query then Inr (unwrap (resolveIpv6 (rq_name query)) (\<lambda>ip. Ok (DNSRecordAAAA [ip])))
             else Inl (unwrap (resolveIpv4 (rq_name query)) (\<lambda>ip. Ok (DNSRecordA [ip])))), channel))"

section \<open>The laws of the packages\<close>

text \<open>\<open>live\<close> is what a cache holds for a name at a time: the last record that was inserted for it, unless
  that has expired or was evicted.\<close>

locale cache_laws =
  fixes K :: "('i, 'v, 'c) cache_ops" and live :: "'i \<Rightarrow> 'c \<Rightarrow> string \<Rightarrow> 'v option"
  assumes live_empty: "live t (ch_empty K) n = None"
    and live_setup: "live t (ch_setup K a b d c) n = Some v \<Longrightarrow> live t c n = Some v"
    and get_live: "ch_get K now n c = (r, c') \<Longrightarrow> r = live now c n"
    and live_get: "ch_get K now m c = (r, c') \<Longrightarrow> live t c' n = Some v \<Longrightarrow> live t c n = Some v"
    and live_insert: "live t (ch_insert K now m w c) n = Some v \<Longrightarrow>
      n = m \<and> v = w \<or> live t c n = Some v"
    and inserted_live: "live now (ch_insert K now n v c) n = Some v"

text \<open>What \<open>std::sort\<close> promises with a comparator that is a strict order on keys.\<close>

locale sort_laws =
  fixes stdsort :: "('a \<Rightarrow> 'a \<Rightarrow> bool) \<Rightarrow> 'a list \<Rightarrow> 'a list"
  assumes sort_mset: "mset (stdsort lt xs) = mset xs"
    and sort_sorted: "(\<And>a b c. lt a b \<Longrightarrow> lt b c \<Longrightarrow> lt a c) \<Longrightarrow> (\<And>a. \<not> lt a a) \<Longrightarrow>
      (\<And>a b c. lt a c \<Longrightarrow> lt a b \<or> lt b c) \<Longrightarrow> sorted_wrt (\<lambda>a b. \<not> lt b a) (stdsort lt xs)"

interpretation stable_sort: sort_laws sort_by
proof unfold_locales
  fix lt :: "'a \<Rightarrow> 'a \<Rightarrow> bool" and xs :: "'a list"
  show "mset (sort_by lt xs) = mset xs"
    by (induction xs) auto
next
  fix lt :: "'a \<Rightarrow> 'a \<Rightarrow> bool" and xs :: "'a list"
  assume trans: "\<And>a b c. lt a b \<Longrightarrow> lt b c \<Longrightarrow> lt a c" and irrefl: "\<And>a. \<not> lt a a"
    and weak: "\<And>a b c. lt a c \<Longrightarrow> lt a b \<or> lt b c"
  have insert: "sorted_wrt (\<lambda>a b. \<not> lt b a) (insort_by lt x ys)" if "sorted_wrt (\<lambda>a b. \<not> lt b a) ys" for x ys
    using that
  proof (induction ys)
    case (Cons y ys)
    then have ys: "\<not> lt z y" if "z \<in> set ys" for z
      using that by simp
    show ?case
    proof (cases "lt y x")
      case True
      then have "\<not> lt x y"
        using trans irrefl by blast
      then show ?thesis
        using True Cons ys by auto
    next
      case False
      then have "\<not> lt z x" if "z \<in> set ys" for z
        using weak [of z x y] ys [OF that] by blast
      then show ?thesis
        using False Cons by auto
    qed
  qed simp
  show "sorted_wrt (\<lambda>a b. \<not> lt b a) (sort_by lt xs)"
    by (induction xs) (auto intro: insert)
qed

section \<open>Histories\<close>

text \<open>What is asked of a resolver: a query of one of the three types, with its clock, name and what c-ares
  did, or a change of its configuration.\<close>

datatype record_type = RT_A | RT_AAAA | RT_SRV

datatype ('i, 'v4, 'v6, 'ip) dns_call =
    Ask record_type 'i string "('v4, 'v6) ares_answer"
  | SetServers "'ip option" "'ip option"
  | SetTransport DNSTransport

fun perform :: "('v4, 'v6, 'ip, 'sa, 'i, 'ca, 'cb, 'cs) dns_env \<Rightarrow> ('i, 'v4, 'v6, 'ip) dns_call \<Rightarrow>
    ('ip, 'sa, 'ca, 'cb, 'cs) Resolver \<Rightarrow> ('ip, 'sa, 'ca, 'cb, 'cs) Resolver" where
  "perform E (Ask RT_A now name ans) s = snd (asyncQueryA E now name ans s)"
| "perform E (Ask RT_AAAA now name ans) s = snd (asyncQueryAAAA E now name ans s)"
| "perform E (Ask RT_SRV now name ans) s = snd (asyncQuerySRV E now name ans s)"
| "perform E (SetServers primary secondary) s = setCustomDnsServers E primary secondary s"
| "perform E (SetTransport transport) s = snd (setDnsTransport E transport s)"

text \<open>\<open>told\<close>: in some call for this type and name, c-ares reported success with these records.\<close>

definition told :: "record_type \<Rightarrow> ('i, 'v4, 'v6, 'ip) dns_call list \<Rightarrow> string \<Rightarrow> ('v4, 'v6) ares_rr list \<Rightarrow> bool" where
  "told ty cs name rrs \<longleftrightarrow> (\<exists>now ans inTime. Ask ty now name ans \<in> set cs \<and>
     (inTime, ARES_SUCCESS, rrs) \<in> set (an_callbacks ans))"

lemma told_simps [simp]:
  "told ty [] name rrs \<longleftrightarrow> False"
  "told ty (cs @ ds) name rrs \<longleftrightarrow> told ty cs name rrs \<or> told ty ds name rrs"
  by (auto simp: told_def)

lemma told_Cons: "told ty (c # cs) name rrs \<longleftrightarrow> told ty [c] name rrs \<or> told ty cs name rrs"
  by (auto simp: told_def)

lemma told_Ask: "told ty [Ask ty' now name' ans] name rrs \<longleftrightarrow>
    ty' = ty \<and> name' = name \<and> (\<exists>inTime. (inTime, ARES_SUCCESS, rrs) \<in> set (an_callbacks ans))"
  by (auto simp: told_def)

lemma snd_wrapSync: "snd (wrapSync query) = snd (snd query)"
  by (auto simp: wrapSync_def split: prod.split sum.split list.split bool.split)

text \<open>The queries of one type: how the cache is read and written, how an answer is read, what is known
  without asking, and what every call of a history does.\<close>

locale record_query =
  fixes ty :: record_type
    and step :: "('i, 'v4, 'v6, 'ip) dns_call \<Rightarrow> 's \<Rightarrow> 's"
    and cached :: "'i \<Rightarrow> string \<Rightarrow> 's \<Rightarrow> 'v option \<times> 's"
    and store :: "'i \<Rightarrow> string \<Rightarrow> 'v \<Rightarrow> 's \<Rightarrow> 's"
    and parse :: "('v4, 'v6) ares_rr list \<Rightarrow> 'v ResolverResult"
    and known :: "string \<Rightarrow> 'v option"
    and held :: "'i \<Rightarrow> 's \<Rightarrow> string \<Rightarrow> 'v option"
  assumes cached_held: "cached now name s = (Some v, s') \<Longrightarrow> known name = Some v \<or> held now s name = Some v"
    and held_cached: "cached now name s = (r, s') \<Longrightarrow> held t s' n = Some v \<Longrightarrow> held t s n = Some v"
    and held_store: "held t (store now m w s) n = Some v \<Longrightarrow> n = m \<and> v = w \<or> held t s n = Some v"
    and step_ask: "step (Ask ty now name ans) s =
      snd (wrapSync (runQuery (cached now name s) parse (store now name) ans))"
    and step_other: "\<forall>now name ans. call \<noteq> Ask ty now name ans \<Longrightarrow> held t (step call s) n = held t s n"
begin

abbreviation good :: "(bool \<times> ares_status \<times> ('v4, 'v6) ares_rr list) list \<Rightarrow> 'v \<Rightarrow> bool" where
  "good calls v \<equiv> \<exists>inTime rrs. (inTime, ARES_SUCCESS, rrs) \<in> set calls \<and> parse rrs = Ok v"

lemma runCallbacks_sound:
  assumes "runCallbacks parse (store now name) calls s = (rs, s')"
  shows "(\<forall>b res. (b, Ok res) \<in> set rs \<longrightarrow> good calls res) \<and>
    (\<forall>t n v. held t s' n = Some v \<longrightarrow> held t s n = Some v \<or> n = name \<and> good calls v)"
  using assms
proof (induction calls arbitrary: s rs)
  case (Cons call calls)
  obtain inTime status result where call: "call = (inTime, status, result)"
    by (cases call)
  obtain r s1 where s1: "queryCallback parse (store now name) status result s = (r, s1)"
    by (meson surj_pair)
  obtain rs2 where s2: "runCallbacks parse (store now name) calls s1 = (rs2, s')"
    and rs: "rs = (inTime, r) # rs2"
    using Cons.prems call s1 by (auto split: prod.splits)
  have r: "r = Ok res \<Longrightarrow> status = ARES_SUCCESS \<and> parse result = Ok res" for res
    using s1 by (auto simp: queryCallback_def Let_def split: if_splits)
  have stored: "held t s1 n = Some v \<Longrightarrow>
      held t s n = Some v \<or> n = name \<and> status = ARES_SUCCESS \<and> parse result = Ok v" for t n v
    using s1 held_store [of t now name _ s n v]
    by (auto simp: queryCallback_def Let_def split: if_splits sum.splits)
  have step: "good calls v \<or> status = ARES_SUCCESS \<and> parse result = Ok v \<Longrightarrow> good (call # calls) v" for v
    unfolding call by auto
  note IH = Cons.IH [OF s2]
  show ?case
  proof (intro conjI allI impI)
    show "good (call # calls) res" if "(b, Ok res) \<in> set rs" for b res
      by (rule step) (use that IH r in \<open>auto simp: rs\<close>)
    show "held t s n = Some v \<or> n = name \<and> good (call # calls) v" if "held t s' n = Some v" for t n v
      using that IH [THEN conjunct2, rule_format, of t n v] stored [of t n v] step [of v] by blast
  qed
qed simp

lemma query_sound:
  assumes "wrapSync (runQuery (cached now name s) parse (store now name) ans) = (r, s')"
  shows "r = Ok v \<Longrightarrow> known name = Some v \<or> held now s name = Some v \<or> good (an_callbacks ans) v"
    and "held t s' n = Some v \<Longrightarrow> held t s n = Some v \<or> n = name \<and> good (an_callbacks ans) v"
proof -
  obtain c s1 where s1: "cached now name s = (c, s1)"
    by (meson surj_pair)
  obtain rs s2 where s2: "runCallbacks parse (store now name) (an_callbacks ans) s1 = (rs, s2)"
    by (meson surj_pair)
  note delivered = runCallbacks_sound [OF s2]
  show "known name = Some v \<or> held now s name = Some v \<or> good (an_callbacks ans) v" if "r = Ok v"
  proof (cases c)
    case None
    then have "(True, Ok v) \<in> set rs"
      using assms that s1 s2 by (auto simp: runQuery_def wrapSync_def split: if_splits list.splits bool.splits)
    with delivered show ?thesis
      by blast
  next
    case (Some w)
    then show ?thesis
      using assms that s1 cached_held [of now name s w s1] by (auto simp: runQuery_def wrapSync_def)
  qed
  have "s' = (case c of None \<Rightarrow> s2 | Some _ \<Rightarrow> s1)"
    using arg_cong [OF assms, of snd] s1 s2
    by (auto simp: runQuery_def snd_wrapSync split: option.splits if_splits)
  then show "held t s n = Some v \<or> n = name \<and> good (an_callbacks ans) v" if "held t s' n = Some v"
    using that held_cached [OF s1] delivered [THEN conjunct2, rule_format, of t n v] by (cases c) auto
qed

lemma step_held:
  assumes "held t (step call s) n = Some v"
  shows "held t s n = Some v \<or> (\<exists>rrs. told ty [call] n rrs \<and> parse rrs = Ok v)"
proof (cases "\<exists>now name ans. call = Ask ty now name ans")
  case True
  then obtain now name ans where call: "call = Ask ty now name ans"
    by blast
  obtain r s' where run: "wrapSync (runQuery (cached now name s) parse (store now name) ans) = (r, s')"
    by (meson surj_pair)
  then show ?thesis
    using query_sound(2) [OF run, of t n v] assms by (auto simp: call step_ask told_Ask)
next
  case False
  then show ?thesis
    using assms step_other by auto
qed

lemma history_held:
  assumes "held t (fold step cs s) n = Some v"
  shows "held t s n = Some v \<or> (\<exists>rrs. told ty cs n rrs \<and> parse rrs = Ok v)"
  using assms
proof (induction cs arbitrary: s)
  case (Cons c cs)
  then show ?case
    using step_held [of t c s n v] told_Cons [of ty c cs n] by auto
qed simp

lemma answer_sound:
  assumes "wrapSync (runQuery (cached now name (fold step cs s)) parse (store now name) ans) = (Ok v, s')"
    and "held now s name = None"
  shows "known name = Some v \<or> (\<exists>rrs. told ty (cs @ [Ask ty now name ans]) name rrs \<and> parse rrs = Ok v)"
  using query_sound(1) [OF assms(1) refl] history_held [of now cs s name v] assms(2)
  by (auto simp: told_Ask)

end

text \<open>The resolver with lawful caches.\<close>

locale dns_caches = A: cache_laws "de_aCache E" liveA + Q: cache_laws "de_aaaaCache E" liveQ + S: cache_laws "de_srvCache E" liveS
  for E :: "('v4, 'v6, 'ip, 'sa, 'i, 'ca, 'cb, 'cs) dns_env" and liveA :: "'i \<Rightarrow> 'ca \<Rightarrow> string \<Rightarrow> 'v4 DNSRecordA option"
    and liveQ :: "'i \<Rightarrow> 'cb \<Rightarrow> string \<Rightarrow> 'v6 DNSRecordAAAA option"
    and liveS :: "'i \<Rightarrow> 'cs \<Rightarrow> string \<Rightarrow> DNSRecordSRV option"

lemmas async_defs = asyncQueryA_def asyncQueryAAAA_def asyncQuerySRV_def queryA_def queryAAAA_def querySRV_def
lemmas getCached_defs = getCachedA_def getCachedAAAA_def getCachedSRV_def
lemmas cacheRecord_defs = cacheRecordA_def cacheRecordAAAA_def cacheRecordSRV_def
lemmas config_defs = setCustomDnsServers_def setDnsTransport_def reloadServers_def Let_def

text \<open>A query changes its own cache only.\<close>

lemma runCallbacks_frame:
  assumes "\<And>v s. f (store v s) = f s"
  shows "f (snd (runCallbacks parse store calls s)) = f s"
  using assms
  by (induction calls arbitrary: s) (auto simp: queryCallback_def Let_def case_prod_beta split: sum.split)

lemma runQuery_frame:
  assumes "\<And>v s. f (store v s) = f s" and "f (snd got) = f s"
  shows "f (snd (wrapSync (runQuery got parse store ans))) = f s"
proof -
  obtain c s1 where got: "got = (c, s1)"
    by (cases got)
  show ?thesis
    using runCallbacks_frame [of f store, OF assms(1), of parse "an_callbacks ans" s1] assms(2) got
    by (auto simp: snd_wrapSync runQuery_def split: option.split prod.split)
qed

lemma async_frame:
  "rv_aCache (snd (asyncQueryAAAA E now name ans s)) = rv_aCache s"
  "rv_aCache (snd (asyncQuerySRV E now name ans s)) = rv_aCache s"
  "rv_aaaaCache (snd (asyncQueryA E now name ans s)) = rv_aaaaCache s"
  "rv_aaaaCache (snd (asyncQuerySRV E now name ans s)) = rv_aaaaCache s"
  "rv_srvCache (snd (asyncQueryA E now name ans s)) = rv_srvCache s"
  "rv_srvCache (snd (asyncQueryAAAA E now name ans s)) = rv_srvCache s"
  unfolding async_defs
  by (rule runQuery_frame; simp add: cacheRecord_defs getCached_defs split: prod.split)+

text \<open>What \<open>getCached\<close> knows without the cache.\<close>

definition loopbackA :: "('v4, 'v6, 'ip, 'sa, 'i, 'ca, 'cb, 'cs) dns_env \<Rightarrow> string \<Rightarrow> 'v4 DNSRecordA option" where
  "loopbackA E name = (if name = ''localhost'' then Some (DNSRecordA [de_localhost4 E]) else None)"

definition loopbackAAAA :: "('v4, 'v6, 'ip, 'sa, 'i, 'ca, 'cb, 'cs) dns_env \<Rightarrow> string \<Rightarrow> 'v6 DNSRecordAAAA option" where
  "loopbackAAAA E name = (if name = ''localhost'' then Some (DNSRecordAAAA [de_localhost6 E]) else None)"

sublocale dns_caches \<subseteq> qa: record_query RT_A "perform E" "getCachedA E" "cacheRecordA E" parseQueryA
  "loopbackA E" "\<lambda>t s. liveA t (rv_aCache s)"
proof unfold_locales
  fix call :: "('i, 'v4, 'v6, 'ip) dns_call" and s :: "('ip, 'sa, 'ca, 'cb, 'cs) Resolver" and t n
  assume other: "\<forall>now name ans. call \<noteq> Ask RT_A now name ans"
  show "liveA t (rv_aCache (perform E call s)) n = liveA t (rv_aCache s) n"
    using other by (cases "(E, call, s)" rule: perform.cases) (auto simp: config_defs async_frame)
qed (auto simp: getCached_defs cacheRecord_defs async_defs loopbackA_def loopbackAAAA_def split: if_splits prod.splits
    dest: A.get_live A.live_get A.live_insert)

sublocale dns_caches \<subseteq> qq: record_query RT_AAAA "perform E" "getCachedAAAA E" "cacheRecordAAAA E" parseQueryAAAA
  "loopbackAAAA E" "\<lambda>t s. liveQ t (rv_aaaaCache s)"
proof unfold_locales
  fix call :: "('i, 'v4, 'v6, 'ip) dns_call" and s :: "('ip, 'sa, 'ca, 'cb, 'cs) Resolver" and t n
  assume other: "\<forall>now name ans. call \<noteq> Ask RT_AAAA now name ans"
  show "liveQ t (rv_aaaaCache (perform E call s)) n = liveQ t (rv_aaaaCache s) n"
    using other by (cases "(E, call, s)" rule: perform.cases) (auto simp: config_defs async_frame)
qed (auto simp: getCached_defs cacheRecord_defs async_defs loopbackA_def loopbackAAAA_def split: if_splits prod.splits
    dest: Q.get_live Q.live_get Q.live_insert)

sublocale dns_caches \<subseteq> qs: record_query RT_SRV "perform E" "getCachedSRV E" "cacheRecordSRV E" "parseQuerySRV (de_sort E)"
  "\<lambda>_. None" "\<lambda>t s. liveS t (rv_srvCache s)"
proof unfold_locales
  fix call :: "('i, 'v4, 'v6, 'ip) dns_call" and s :: "('ip, 'sa, 'ca, 'cb, 'cs) Resolver" and t n
  assume other: "\<forall>now name ans. call \<noteq> Ask RT_SRV now name ans"
  show "liveS t (rv_srvCache (perform E call s)) n = liveS t (rv_srvCache s) n"
    using other by (cases "(E, call, s)" rule: perform.cases) (auto simp: config_defs async_frame)
qed (auto simp: getCached_defs cacheRecord_defs async_defs loopbackA_def loopbackAAAA_def split: if_splits prod.splits
    dest: S.get_live S.live_get S.live_insert)

context dns_caches
begin

lemma new_caches:
  "liveA t (rv_aCache (Resolver_new E st csv)) n = None"
  "liveQ t (rv_aaaaCache (Resolver_new E st csv)) n = None"
  "liveS t (rv_srvCache (Resolver_new E st csv)) n = None"
proof -
  have "liveA t (ch_setup (de_aCache E) 128 5 1 (ch_empty (de_aCache E))) n = None"
    "liveQ t (ch_setup (de_aaaaCache E) 128 5 1 (ch_empty (de_aaaaCache E))) n = None"
    "liveS t (ch_setup (de_srvCache E) 128 5 1 (ch_empty (de_srvCache E))) n = None"
    using A.live_setup A.live_empty Q.live_setup Q.live_empty S.live_setup S.live_empty
    by (metis not_None_eq)+
  then show "liveA t (rv_aCache (Resolver_new E st csv)) n = None"
    "liveQ t (rv_aaaaCache (Resolver_new E st csv)) n = None"
    "liveS t (rv_srvCache (Resolver_new E st csv)) n = None"
    by (simp_all add: Resolver_new_def reloadServers_def Let_def A.live_empty Q.live_empty S.live_empty)
qed

lemmas answersA = qa.answer_sound [folded queryA_def, folded asyncQueryA_def, OF _ new_caches(1)]
lemmas answersAAAA = qq.answer_sound [folded queryAAAA_def, folded asyncQueryAAAA_def, OF _ new_caches(2)]
lemmas answersSRV = qs.answer_sound [folded querySRV_def, folded asyncQuerySRV_def, OF _ new_caches(3)]

end

lemma parse_Ok:
  "parseQueryA rrs = Ok resA \<longleftrightarrow> resA = DNSRecordA (addressesA rrs) \<and> addressesA rrs \<noteq> []"
  "parseQueryAAAA rrs = Ok resQ \<longleftrightarrow> resQ = DNSRecordAAAA (addressesAAAA rrs) \<and> addressesAAAA rrs \<noteq> []"
  "parseQuerySRV stdsort rrs = Ok resS \<longleftrightarrow>
     resS = DNSRecordSRV (stdsort endpoint_less (endpointsSRV rrs)) \<and> endpointsSRV rrs \<noteq> []"
  by (auto simp: parseQueryA_def parseQueryAAAA_def parseQuerySRV_def Let_def)

section \<open>A reference cache\<close>

text \<open>Entries with the time of their insertion; they live for 300 seconds.\<close>

definition list_cache :: "(nat, 'v, (string \<times> nat \<times> 'v) list) cache_ops" where
  "list_cache = \<lparr>ch_empty = [], ch_setup = (\<lambda>_ _ _ c. c),
     ch_get = (\<lambda>now n c. (case map_of c n of Some (t, v) \<Rightarrow> if now - t < 300 then Some v else None | None \<Rightarrow> None, c)),
     ch_insert = (\<lambda>now n v c. (n, now, v) # c)\<rparr>"

definition list_live :: "nat \<Rightarrow> (string \<times> nat \<times> 'v) list \<Rightarrow> string \<Rightarrow> 'v option" where
  "list_live now c n = (case map_of c n of Some (t, v) \<Rightarrow> if now - t < 300 then Some v else None | None \<Rightarrow> None)"

interpretation list_cache: cache_laws list_cache list_live
  by unfold_locales (auto simp: list_cache_def list_live_def split: if_splits)

text \<open>Addresses are numbers here and their texts lists of that many letters.\<close>

definition sample_dns :: "(nat, nat, nat, nat, nat, (string \<times> nat \<times> nat DNSRecordA) list,
    (string \<times> nat \<times> nat DNSRecordAAAA) list, (string \<times> nat \<times> DNSRecordSRV) list) dns_env" where
  "sample_dns = \<lparr>de_localhost4 = 127, de_localhost6 = 1, de_socketAddress = (\<lambda>ip _. ip), de_fallback = 1,
     de_toString = (\<lambda>n. replicate n CHR ''a''), de_parse = (\<lambda>s. Some (length s)), de_split = (\<lambda>s. [s]),
     de_join = concat, de_sort = sort_by, de_aCache = list_cache, de_aaaaCache = list_cache, de_srvCache = list_cache\<rparr>"

interpretation sample_dns: dns_caches sample_dns list_live list_live list_live
  by (simp add: dns_caches_def sample_dns_def list_cache.cache_laws_axioms)

section \<open>Properties\<close>

text \<open>C30 (safety).  An answer of the resolver on c-ares is never made up: after any calls of the
  resolver (queries of every type and changes of its servers and transport), what a query returns is the
  loopback address for localhost (of the family asked for), and for any other name exactly the addresses, of which there is
  one at least and in the same order, or the sorted endpoints, of some answer with success that c-ares gave
  for this name and this type, now or earlier.\<close>

theorem dns_answers_sound:
  assumes "dns_caches E liveA liveQ liveS"
  shows "(\<forall>res s. asyncQueryA E now name ans (fold (perform E) cs (Resolver_new E st csv)) = (Ok res, s) \<longrightarrow>
      (if name = ''localhost'' then res = DNSRecordA [de_localhost4 E]
       else \<exists>rrs. told RT_A (cs @ [Ask RT_A now name ans]) name rrs \<and> res = DNSRecordA (addressesA rrs) \<and>
         addressesA rrs \<noteq> [])) \<and>
    (\<forall>res s. asyncQueryAAAA E now name ans (fold (perform E) cs (Resolver_new E st csv)) = (Ok res, s) \<longrightarrow>
      (if name = ''localhost'' then res = DNSRecordAAAA [de_localhost6 E]
       else \<exists>rrs. told RT_AAAA (cs @ [Ask RT_AAAA now name ans]) name rrs \<and> res = DNSRecordAAAA (addressesAAAA rrs) \<and>
         addressesAAAA rrs \<noteq> [])) \<and>
    (\<forall>res s. asyncQuerySRV E now name ans (fold (perform E) cs (Resolver_new E st csv)) = (Ok res, s) \<longrightarrow>
      (\<exists>rrs. told RT_SRV (cs @ [Ask RT_SRV now name ans]) name rrs \<and>
         res = DNSRecordSRV (de_sort E endpoint_less (endpointsSRV rrs)) \<and> endpointsSRV rrs \<noteq> []))"
proof (intro conjI allI impI)
  note answers = dns_caches.answersA [OF assms, where cs = cs] dns_caches.answersAAAA [OF assms, where cs = cs]
    dns_caches.answersSRV [OF assms, where cs = cs]
  note defs = async_defs getCached_defs runQuery_def wrapSync_def
  show "if name = ''localhost'' then res = DNSRecordA [de_localhost4 E]
      else \<exists>rrs. told RT_A (cs @ [Ask RT_A now name ans]) name rrs \<and> res = DNSRecordA (addressesA rrs) \<and> addressesA rrs \<noteq> []"
    if "asyncQueryA E now name ans (fold (perform E) cs (Resolver_new E st csv)) = (Ok res, s)" for res s
    using answers(1) [OF that] that by (auto simp: loopbackA_def parse_Ok defs)
  show "if name = ''localhost'' then res = DNSRecordAAAA [de_localhost6 E]
      else \<exists>rrs. told RT_AAAA (cs @ [Ask RT_AAAA now name ans]) name rrs \<and> res = DNSRecordAAAA (addressesAAAA rrs) \<and>
        addressesAAAA rrs \<noteq> []"
    if "asyncQueryAAAA E now name ans (fold (perform E) cs (Resolver_new E st csv)) = (Ok res, s)" for res s
    using answers(2) [OF that] that by (auto simp: loopbackAAAA_def parse_Ok defs)
  show "\<exists>rrs. told RT_SRV (cs @ [Ask RT_SRV now name ans]) name rrs \<and>
      res = DNSRecordSRV (de_sort E endpoint_less (endpointsSRV rrs)) \<and> endpointsSRV rrs \<noteq> []"
    if "asyncQuerySRV E now name ans (fold (perform E) cs (Resolver_new E st csv)) = (Ok res, s)" for res s
    using answers(3) [OF that] by (auto simp: parse_Ok)
qed

theorem dns_answers_sound_witness:
  "\<exists>rrs. told RT_AAAA ([Ask RT_AAAA 3 ''a'' \<lparr>an_returned = ARES_SUCCESS,
         an_callbacks = [(True, ARES_SUCCESS, [RR_Other, RR_A (Some (4 :: nat)), RR_AAAA (Some (6 :: nat))])]\<rparr>,
       SetTransport DT_Tcp] @ [Ask RT_AAAA (9 :: nat) ''a'' \<lparr>an_returned = ARES_SUCCESS, an_callbacks = []\<rparr>]
       :: (nat, nat, nat, nat) dns_call list) ''a'' rrs \<and>
     DNSRecordAAAA [6] = DNSRecordAAAA (addressesAAAA rrs) \<and> addressesAAAA rrs \<noteq> []"
proof -
  let ?a = "\<lparr>an_returned = ARES_SUCCESS,
      an_callbacks = [(True, ARES_SUCCESS, [RR_Other, RR_A (Some 4), RR_AAAA (Some 6)])]\<rparr> :: (nat, nat) ares_answer"
  let ?b = "\<lparr>an_returned = ARES_SUCCESS, an_callbacks = []\<rparr> :: (nat, nat) ares_answer"
  have "fst (asyncQueryAAAA sample_dns 9 ''a'' ?b (fold (perform sample_dns) [Ask RT_AAAA 3 ''a'' ?a, SetTransport DT_Tcp]
      (Resolver_new sample_dns ARES_SUCCESS ''x''))) = Ok (DNSRecordAAAA [6])"
    by (simp add: async_defs runQuery_def wrapSync_def getCached_defs cacheRecord_defs queryCallback_def config_defs
        parseQueryAAAA_def Resolver_new_def sample_dns_def list_cache_def)
  then obtain s where "asyncQueryAAAA sample_dns 9 ''a'' ?b (fold (perform sample_dns)
      [Ask RT_AAAA 3 ''a'' ?a, SetTransport DT_Tcp] (Resolver_new sample_dns ARES_SUCCESS ''x'')) = (Ok (DNSRecordAAAA [6]), s)"
    by (metis prod.collapse)
  with dns_answers_sound [OF sample_dns.dns_caches_axioms, THEN conjunct2, THEN conjunct1, THEN spec, THEN spec, THEN mp, OF this]
  show ?thesis
    by simp
qed

text \<open>C38 (functional).  The endpoints of a service are those of the records that have a target, each once, the ones of lower
  priority first, and among those of equal priority the ones of lower weight.\<close>

theorem srv_endpoints_sorted:
  assumes "sort_laws stdsort" and "parseQuerySRV stdsort rrs = Ok res"
  shows "mset (srv_endpoints res) = mset (endpointsSRV rrs) \<and> srv_endpoints res \<noteq> [] \<and>
    sorted_wrt (\<lambda>a b. sv_priority a < sv_priority b \<or> sv_priority a = sv_priority b \<and> sv_weight a \<le> sv_weight b)
      (srv_endpoints res)"
proof -
  have res: "res = DNSRecordSRV (stdsort endpoint_less (endpointsSRV rrs))" and some: "endpointsSRV rrs \<noteq> []"
    using assms(2) by (auto simp: parseQuerySRV_def Let_def split: if_splits)
  have "sorted_wrt (\<lambda>a b. \<not> endpoint_less b a) (stdsort endpoint_less (endpointsSRV rrs))"
    by (rule sort_laws.sort_sorted [OF assms(1)]) (auto simp: endpoint_less_def split: if_splits)
  then have "sorted_wrt (\<lambda>a b. sv_priority a < sv_priority b \<or> sv_priority a = sv_priority b \<and> sv_weight a \<le> sv_weight b)
      (stdsort endpoint_less (endpointsSRV rrs))"
    by (rule sorted_wrt_mono_rel [rotated]) (auto simp: endpoint_less_def split: if_splits)
  moreover have "srv_endpoints res = stdsort endpoint_less (endpointsSRV rrs)"
    by (simp add: res)
  moreover have mset: "mset (srv_endpoints res) = mset (endpointsSRV rrs)"
    using sort_laws.sort_mset [OF assms(1)] res by simp
  moreover have "srv_endpoints res \<noteq> []"
    using mset some by (metis mset_zero_iff)
  ultimately show ?thesis
    by simp
qed

theorem srv_endpoints_sorted_witness:
  "sorted_wrt (\<lambda>a b. sv_priority a < sv_priority b \<or> sv_priority a = sv_priority b \<and> sv_weight a \<le> sv_weight b)
    [\<lparr>sv_target = ''b'', sv_port = 2, sv_priority = 1, sv_weight = 5\<rparr>,
     \<lparr>sv_target = ''a'', sv_port = 1, sv_priority = 1, sv_weight = 9\<rparr>]"
proof -
  have "parseQuerySRV sort_by [RR_SRV (Some ''a'') 1 1 9, RR_SRV None 3 3 3, RR_SRV (Some ''b'') 2 1 5] =
      Ok (DNSRecordSRV [\<lparr>sv_target = ''b'', sv_port = 2, sv_priority = 1, sv_weight = 5\<rparr>,
     \<lparr>sv_target = ''a'', sv_port = 1, sv_priority = 1, sv_weight = 9\<rparr>])"
    by (simp add: parseQuerySRV_def endpoint_less_def)
  from srv_endpoints_sorted [OF stable_sort.sort_laws_axioms this] show ?thesis
    by simp
qed

text \<open>The transport that is set has no effect on the servers that c-ares is given.\<close>

lemma dns_transport_has_no_effect:
  "rv_servers (snd (setDnsTransport E DT_Tcp s)) = rv_servers (snd (setDnsTransport E DT_Udp s))"
  by (simp add: setDnsTransport_def reloadServers_def)

text \<open>A custom server comes first, and there is always a server.\<close>

lemma reloadServers_first:
  "rv_servers (setCustomDnsServer E addr s) = Some (de_join E (map (de_toString E)
    (de_socketAddress E addr 53 # rv_systemDnsServers s)))"
  by (simp add: setCustomDnsServer_def setCustomDnsServers_def reloadServers_def)

text \<open>The thread of the simple resolver answers the queries in the order in which they came.\<close>

lemma simple_resolver_fifo:
  "resolverTurn r4 r6 (snd (simple_queryA name cb (q # channel))) =
     (fst (resolverTurn r4 r6 (q # channel)), snd (simple_queryA name cb channel))"
  by (simp add: resolverTurn_def simple_queryA_def)

end
