(* ===== verification/Message_Types.thy ===== *)
theory Message_Types
  imports Udp_Handshake Udp_Sending Stream_Common
begin

text \<open>
  The types of the messages that reach the user of a transport.  A message that was decoded has the
  type its header byte announced; what a transport delivers, and what it keeps for later, is always a
  message that \<open>decodeWithMeta\<close> knows, and a data message comes without the headers of the wire.
\<close>

text \<open>The type byte of a message: \<open>headerByte\<close>, completed with the messages that a client never
  encodes.\<close>

fun wire_type :: "QunetMessage \<Rightarrow> u8" where
  "wire_type ReconnectSuccessMessage = MSG_RECONNECT_SUCCESS"
| "wire_type ReconnectFailureMessage = MSG_RECONNECT_FAILURE"
| "wire_type PaddingMessage = MSG_PADDING"
| "wire_type m = (case headerByte m :: (unit, u8) outcome of Inr t \<Rightarrow> t | Inl _ \<Rightarrow> 0)"

text \<open>The messages that \<open>decodeWithMeta\<close> can give, one for each case of its \<open>switch\<close>: the messages of a
  server and, as in the code, the keepalive that a client sends; of the data messages those without the
  headers of the wire.\<close>

fun receivable :: "QunetMessage \<Rightarrow> bool" where
  "receivable (KeepaliveMessage _) = True"
| "receivable (KeepaliveResponseMessage _ _) = True"
| "receivable (HandshakeStart _) = False"
| "receivable (HandshakeFinish _) = True"
| "receivable (HandshakeFailure _) = True"
| "receivable ClientCloseMessage = False"
| "receivable (ServerClose _) = True"
| "receivable (ClientReconnectMessage _) = False"
| "receivable (ConnectionErrorMessage _) = True"
| "receivable ReconnectSuccessMessage = True"
| "receivable ReconnectFailureMessage = True"
| "receivable (ConnectionControl _) = True"
| "receivable PaddingMessage = True"
| "receivable (Data d) = (dm_compHeader d = None \<and> dm_relHeader d = None)"

lemma decoded_type:
  assumes "decodeWithMeta R meta = Ok m"
  shows "wire_type m = mm_type meta" and "receivable m" and "mm_type meta = MSG_PADDING \<longleftrightarrow> m = PaddingMessage"
  using assms
  by (auto simp: decodeWithMeta_def decode_defs unwrap_eq_Inr Let_def
      MSG_KEEPALIVE_def MSG_PADDING_def MSG_KEEPALIVE_RESPONSE_def MSG_HANDSHAKE_FINISH_def MSG_HANDSHAKE_FAILURE_def
      MSG_SERVER_CLOSE_def MSG_CONNECTION_ERROR_def MSG_RECONNECT_SUCCESS_def MSG_RECONNECT_FAILURE_def
      MSG_CONNECTION_CONTROL_def
      split: if_splits)

lemma preFinal_receivable:
  assumes "decodePreFinalDataMessage T Z L now meta t = (Ok m, t')"
  shows "receivable m"
  using assms
  by (auto simp: decodePreFinalDataMessage_def Let_def unwrap_eq_Inr split: option.splits if_splits)

section \<open>Datagrams\<close>

abbreviation pending_typed :: "('cd, 'dd, 'd, 'i, 'f) UdpTransport \<Rightarrow> bool" where
  "pending_typed s \<equiv> list_all receivable (ut_pendingMessages s)"

lemma keeps_pending:
  "keeps ut_pendingMessages x (decodeFinal E now meta s) \<longleftrightarrow> ut_pendingMessages s = x"
  "keeps ut_pendingMessages x (acceptReliable now meta s) \<longleftrightarrow> ut_pendingMessages s = x"
  "keeps ut_pendingMessages x (collectFragment E now meta s) \<longleftrightarrow> ut_pendingMessages s = x"
  "ut_pendingMessages (on_base f s) = ut_pendingMessages s"
  "ut_pendingMessages (on_tracker g s) = ut_pendingMessages s"
  by (simp_all add: keeps_def decodeFinal_def acceptReliable_def collectFragment_def on_base_def on_tracker_def
      Let_def split: prod.split option.split)

lemma decodeFinal_receivable: "decodeFinal E now meta s = (Ok m, s') \<Longrightarrow> receivable m"
  by (auto simp: decodeFinal_def dest: preFinal_receivable split: prod.splits)

lemma processOne_typed:
  assumes "processOne E now meta s = (r, s')"
  shows "ut_pendingMessages s' = ut_pendingMessages s \<and> (\<forall>m. r = Ok (Some m) \<longrightarrow> receivable m)"
proof
  have "keeps ut_pendingMessages (ut_pendingMessages s) (processOne E now meta s)"
    unfolding processOne_def Let_def
    by (auto intro!: keeps_intros simp: keeps_pending clearUnackedKeepalives_def split: option.split QunetMessage.split)
  then show "ut_pendingMessages s' = ut_pendingMessages s"
    by (simp add: assms)
  show "\<forall>m. r = Ok (Some m) \<longrightarrow> receivable m"
    using assms
    by (auto simp: processOne_def step_then_eq_Inr Let_def dest: decodeFinal_receivable decoded_type(2)
        split: if_splits option.splits)
qed

lemma processItems_typed:
  assumes "processItems E now iter toReturn s = (r, s')" and "pending_typed s" and "pred_option receivable toReturn"
  shows "pending_typed s' \<and> (\<forall>m. r = Ok (Some m) \<longrightarrow> receivable m)"
  using assms
proof (induction E now iter toReturn s rule: processItems.induct)
  case (1 E now iter toReturn s)
  obtain item iter' where item: "QunetUdpMessageIter_next (en_reader E) iter = (item, iter')"
    by (cases "QunetUdpMessageIter_next (en_reader E) iter")
  show ?case
  proof (cases item)
    case None
    then show ?thesis
      using "1.prems" item by (auto simp: processItems.simps [of E now iter])
  next
    case (Some x)
    show ?thesis
    proof (cases x)
      case (Inl e)
      then show ?thesis
        using "1.prems" item Some by (cases e) (auto simp: processItems.simps [of E now iter])
    next
      case (Inr meta)
      note unfold = processItems.simps [of E now iter] item Some Inr
      obtain q s1 where q: "processOne E now meta s = (q, s1)"
        by (cases "processOne E now meta s")
      note one = processOne_typed [OF q]
      show ?thesis
      proof (cases "mm_type meta = MSG_PADDING")
        case True
        then show ?thesis
          using "1.IH"(1) [OF item [symmetric, unfolded Some Inr] refl refl True] "1.prems"
          by (simp add: unfold)
      next
        case False
        show ?thesis
        proof (cases q)
          case (Inl e)
          then show ?thesis
            using "1.prems" False q one by (auto simp: unfold)
        next
          case (Inr out)
          note IH = "1.IH"(2-4) [OF item [symmetric, unfolded Some \<open>x = Inr meta\<close>] refl refl False q [symmetric]]
          show ?thesis
            using "1.prems" False q one Inr IH
            by (cases out) (auto simp: unfold split: if_splits)
        qed
      qed
    qed
  qed
qed

lemma receiveQueued_typed:
  assumes "receiveQueued E now s = Some (r, s')" and "pending_typed s"
  shows "pending_typed s' \<and> (\<forall>m. r = Ok m \<longrightarrow> receivable m)"
proof -
  have "ut_pendingMessages s' = ut_pendingMessages s" if "decodeFinal E now meta (s\<lparr>ut_relStore := st\<rparr>) = (r, s')" for meta st
    using keeps_pending(1) [of "ut_pendingMessages s" E now meta "s\<lparr>ut_relStore := st\<rparr>"] that by simp
  then show ?thesis
    using assms
    by (auto simp: receiveQueued_def dest: decodeFinal_receivable split: list.splits option.splits prod.splits)
qed

lemma receiveMessage_typed:
  assumes "UdpTransport_receiveMessage E now recvs s = (r, recvs', s')" and "pending_typed s"
  shows "pending_typed s' \<and> (\<forall>m. r = Some (Ok m) \<longrightarrow> receivable m)"
  using assms
proof (induction recvs arbitrary: now s)
  case Nil
  then show ?case
    by (auto simp: UdpTransport_receiveMessage.simps dest: receiveQueued_typed split: option.splits)
next
  case (Cons recv recvs)
  show ?case
  proof (cases "receiveQueued E now s")
    case None
    obtain t bytes where recv: "recv = (t, bytes)"
      by (cases recv)
    obtain q s1 where q: "receiveDatagram E t bytes s = (q, s1)"
      by (cases "receiveDatagram E t bytes s")
    have typed: "pending_typed s1 \<and> (\<forall>m. q = Ok (Some m) \<longrightarrow> receivable m)"
    proof (cases bytes)
      case (Inr b)
      show ?thesis
        using q Inr Cons.prems(2)
          processItems_typed [of E t "QunetUdpMessageIter_new b False" None "on_tracker (onDownPacket t (length b)) s" q s1]
        by (auto simp: receiveDatagram_def keeps_pending Let_def split: if_splits)
    qed (use q Cons.prems(2) in \<open>auto simp: receiveDatagram_def\<close>)
    show ?thesis
      using Cons.prems(1) None q recv typed Cons.IH [of t s1]
      by (auto simp: UdpTransport_receiveMessage.simps [of E now "(t, bytes) # recvs"] split: sum.splits option.splits)
  next
    case (Some p)
    then show ?thesis
      using Cons.prems
      by (cases p) (auto simp: UdpTransport_receiveMessage.simps [of E now "recv # recvs"] dest: receiveQueued_typed)
  qed
qed

lemma sendPlain_pending:
  "UdpTransport_sendPlain E now stamp (HandshakeStart hs) reliable s = Some (r, s') \<Longrightarrow>
     ut_pendingMessages s' = ut_pendingMessages s"
proof -
  have sock: "ut_pendingMessages t = x \<Longrightarrow> keeps ut_pendingMessages x (socketSend E data t)" for t x data
    by (simp add: keeps_def socketSend_def Let_def split: sum.split)
  have "keeps ut_pendingMessages (ut_pendingMessages s) (sendControl E now stamp (HandshakeStart hs) s)"
    unfolding sendControl_def Let_def by (auto intro!: keeps_intros sock simp: keeps_pending)
  then have "io_keeps ut_pendingMessages (ut_pendingMessages s) (UdpTransport_sendPlain E now stamp (HandshakeStart hs) reliable s)"
    unfolding UdpTransport_sendPlain_def UdpTransport_sendMessage_def logOutgoing_def
    by (auto intro!: keeps_intros simp: keeps_pending)
  then show "UdpTransport_sendPlain E now stamp (HandshakeStart hs) reliable s = Some (r, s') \<Longrightarrow> ?thesis"
    by (auto dest: io_keepsD)
qed

lemma handshakeLoop_typed:
  assumes "handshakeLoop E hs rounds recvs run s = Some (r, recvs', s')" and "pending_typed s"
    and "list_all receivable (hr_unexpectedMessages run)"
  shows "pending_typed s' \<and> (\<forall>m. r = Some (Ok m) \<longrightarrow> receivable m)"
  using assms
proof (induction rounds arbitrary: recvs run s)
  case (Cons rd rounds)
  have finish: "list_all receivable (hr_unexpectedMessages run')"
    if "onHandshakeFinish msg run = (v, run')" for msg v run'
    using that Cons.prems(3)
    by (auto simp: onHandshakeFinish_def Let_def split: option.splits if_splits)
  note unfold = handshakeLoop.simps Let_def
  show ?case
  proof (cases "tm_isZero (en_time E) (tm_minus (en_time E) (tm_fromMillis (en_time E) 750)
      (tm_elapsed (en_time E) (rd_now rd) (hr_lastSentHandshake run)))")
    case True
    let ?run = "run\<lparr>hr_lastSentHandshake := rd_now rd, hr_sentAttempts := hr_sentAttempts run + 1\<rparr>"
    consider (sent) u s1 where "UdpTransport_sendPlain E (rd_now rd) (rd_stamp rd) (HandshakeStart hs) False s = Some (Inr u, s1)"
        "handshakeLoop E hs rounds recvs ?run s1 = Some (r, recvs', s')"
      | (failed) e where "r = Some (Inl e)"
        "UdpTransport_sendPlain E (rd_now rd) (rd_stamp rd) (HandshakeStart hs) False s = Some (Inl e, s')"
      using Cons.prems(1) True by (auto simp: unfold split: option.splits sum.splits)
    then show ?thesis
    proof cases
      case sent
      have "pending_typed s1"
        using Cons.prems(2) by (simp only: sendPlain_pending [OF sent(1)])
      then show ?thesis
        by (rule Cons.IH [OF sent(2)]) (simp add: Cons.prems(3))
    qed (use Cons.prems(2) in \<open>auto dest: sendPlain_pending\<close>)
  next
    case late: False
    show ?thesis
    proof (cases "pollTimeout (rd_poll rd)")
      case (Inl e)
      then show ?thesis
        using Cons.prems late by (auto simp: unfold)
    next
      case (Inr hasData)
      obtain q recvs1 s1 where q: "UdpTransport_receiveMessage E (rd_now rd) recvs s = (q, recvs1, s1)"
        by (cases "UdpTransport_receiveMessage E (rd_now rd) recvs s")
      note typed = receiveMessage_typed [OF q Cons.prems(2)]
      have other: "pending_typed s' \<and> (\<forall>m. r = Some (Ok m) \<longrightarrow> receivable m)"
        if "handshakeLoop E hs rounds recvs1 (run\<lparr>hr_unexpectedMessages := hr_unexpectedMessages run @ [m]\<rparr>) s1 =
            Some (r, recvs', s')" and "receivable m" for m
        by (rule Cons.IH [OF that(1)]) (use typed that(2) Cons.prems(3) in auto)
      have chunk: "pending_typed s' \<and> (\<forall>m. r = Some (Ok m) \<longrightarrow> receivable m)"
        if "(case onHandshakeFinish msg run of
              (Inl e, run) \<Rightarrow> Some (Some (Inl e), recvs1, s1)
            | (Inr None, run) \<Rightarrow> handshakeLoop E hs rounds recvs1 run s1
            | (Inr (Some outMessage), run) \<Rightarrow>
                Some (Some (Ok (HandshakeFinish outMessage)), recvs1,
                  s1\<lparr>ut_pendingMessages := hr_unexpectedMessages run\<rparr>)) = Some (r, recvs', s')" for msg
      proof -
        obtain v run' where v: "onHandshakeFinish msg run = (v, run')"
          by (cases "onHandshakeFinish msg run")
        note unexpected = finish [OF v]
        consider (failed) e where "v = Inl e" | (wait) "v = Inr None" | (finished) out where "v = Inr (Some out)"
          by (cases v) auto
        then show ?thesis
        proof cases
          case wait
          have "handshakeLoop E hs rounds recvs1 run' s1 = Some (r, recvs', s')"
            using that by (simp add: v wait)
          then show ?thesis
            by (rule Cons.IH) (use typed unexpected in simp_all)
        qed (use that v typed unexpected in auto)
      qed
      show ?thesis
      proof (cases hasData)
        case False
        then have "handshakeLoop E hs rounds recvs run s = Some (r, recvs', s')"
          using Cons.prems(1) late Inr by (simp add: unfold)
        then show ?thesis
          by (rule Cons.IH [OF _ Cons.prems(2,3)])
      next
        case True
        note body = Cons.prems(1) [unfolded unfold]
        show ?thesis
        proof (cases "\<exists>m. q = Some (Ok m)")
          case True
          then obtain m where m: "q = Some (Ok m)" ..
          then show ?thesis
            using body late Inr q \<open>hasData\<close> typed chunk other [of m]
            by (cases m) auto
        next
          case False
          then show ?thesis
            using body late Inr q \<open>hasData\<close> typed by (auto split: option.splits sum.splits)
        qed
      qed
    qed
  qed
qed simp

section \<open>Streams\<close>

lemma takeMessage_receivable: "takeMessage E B now n s = (Ok m, s') \<Longrightarrow> receivable m"
  by (auto simp: takeMessage_def decodeFrame_def step_then_eq_Inr Let_def dest: decoded_type(2) preFinal_receivable
      split: prod.splits if_splits)

lemma stream_receivable:
  fixes E :: "('r, 'w, 'cd, 'dd, 'd, 'i, 'f) qn_env"
  assumes "stream_receiveMessage E B messageSizeLimit now recvs s = Some (Some (Ok m), recvs', s')"
  shows "receivable m"
proof -
  have "fst (Some (Ok m) :: QunetMessage TransportResult option, recvs', s') = Some (Ok m) \<longrightarrow> receivable m"
  proof (rule stream_receiveMessage.raw_induct [OF _ assms,
      where P = "\<lambda>E B limit now recvs s p. fst p = Some (Ok m) \<longrightarrow> receivable m"])
    fix f and E :: "('r, 'w, 'cd, 'dd, 'd, 'i, 'f) qn_env" and B limit now recvs s p
    assume "\<And>E B limit now recvs s p. f E B limit now recvs s = Some p \<Longrightarrow> fst p = Some (Ok m) \<longrightarrow> receivable m"
      and "(case receiveRound E B limit now recvs s of
        (Some r, recvs, now, s) \<Rightarrow> Some (r, recvs, s)
      | (None, recvs, now, s) \<Rightarrow> f E B limit now recvs s) = Some p"
    then show "fst p = Some (Ok m) \<longrightarrow> receivable m"
      by (auto simp: receiveRound_def Let_def dest: takeMessage_receivable
          split: prod.splits option.splits if_splits sum.splits)
  qed
  then show ?thesis
    by simp
qed

section \<open>Properties\<close>

text \<open>C20 (type).  What reaches the user of a transport is typed: a control message that is decoded has the
  type that its header byte announced, and what the datagram transport (also during its handshake, and
  what it keeps for later) or a stream transport delivers is a message that \<open>decodeWithMeta\<close> knows (those of
  a server, and the keepalive, which it decodes too), never the handshake start, close or reconnect of a
  client, and a data message comes without the headers of the wire.\<close>

theorem received_messages_typed:
  assumes "pending_typed s"
  shows "(\<forall>r recvs' s'. UdpTransport_receiveMessage E now recvs s = (r, recvs', s') \<or>
        UdpTransport_performHandshake E now stamp hs rounds recvs s = Some (r, recvs', s') \<longrightarrow>
      pending_typed s' \<and> (\<forall>m. r = Some (Ok m) \<longrightarrow> receivable m)) \<and>
    (\<forall>m recvs' t'. stream_receiveMessage E B messageSizeLimit now recvs t = Some (Some (Ok m), recvs', t') \<longrightarrow>
      receivable m) \<and>
    (\<forall>m. decodeWithMeta (en_reader E) meta = Ok m \<longrightarrow> wire_type m = mm_type meta)"
proof (intro conjI allI impI)
  fix r recvs' s'
  assume run: "UdpTransport_receiveMessage E now recvs s = (r, recvs', s') \<or>
    UdpTransport_performHandshake E now stamp hs rounds recvs s = Some (r, recvs', s')"
  have "pending_typed s' \<and> (\<forall>m. r = Some (Ok m) \<longrightarrow> receivable m)"
    using run assms receiveMessage_typed [of E now recvs s r recvs' s']
    by (auto simp: UdpTransport_performHandshake_def HandshakeRun_new_def dest!: sendPlain_pending handshakeLoop_typed
        split: option.splits sum.splits)
  then show "pending_typed s'" and "\<And>m. r = Some (Ok m) \<Longrightarrow> receivable m"
    by auto
qed (auto dest: stream_receivable decoded_type(1))

theorem received_messages_typed_witness:
  "\<exists>s'. UdpTransport_receiveMessage plain_env 0 [(1, Ok [128, 7])] plain_udp =
      (Some (Ok (Data \<lparr>dm_data = [7], dm_compHeader = None, dm_relHeader = None\<rparr>)), [], s') \<and> pending_typed s'"
proof -
  let ?meta = "\<lparr>mm_type = MSG_DATA, mm_compressionHeader = None, mm_reliabilityHeader = None,
      mm_fragmentationHeader = None, mm_data = [7], mm_dataOffset = 1\<rparr>"
  let ?it = "\<lparr>it_data = [128, 7], it_pos = 2, it_eof = False, it_server = False\<rparr>"
  have next1: "QunetUdpMessageIter_next list_reader (QunetUdpMessageIter_new [128, 7] False) = (Some (Ok ?meta), ?it)"
    by (simp add: QunetUdpMessageIter_new_def QunetUdpMessageIter_next_def decodeMeta_def decodeDataMeta_def compressionOf_def Let_def)
  have next2: "QunetUdpMessageIter_next list_reader ?it = (None, ?it)"
    by (simp add: QunetUdpMessageIter_next_def)
  have "\<exists>s'. UdpTransport_receiveMessage plain_env 0 [(1, Ok [128, 7])] plain_udp =
      (Some (Ok (Data \<lparr>dm_data = [7], dm_compHeader = None, dm_relHeader = None\<rparr>)), [], s')"
    by (simp add: UdpTransport_receiveMessage.simps receiveQueued_def plain_udp_def UdpTransport_new_def ReliableStore_new_def
        popDelayedMessage_def receiveDatagram_def processItems.simps [of _ _ "QunetUdpMessageIter_new b s" for b s]
        processItems.simps [of _ _ ?it] next1 next2
        processOne_def collectFragment_def acceptReliable_def decodeFinal_def Let_def
        decodePreFinalDataMessage_def on_tracker_def on_base_def MSG_DATA_def MSG_PADDING_def)
  moreover have "pending_typed plain_udp"
    by (simp add: plain_udp_def UdpTransport_new_def)
  ultimately obtain s' where s': "UdpTransport_receiveMessage plain_env 0 [(1, Ok [128, 7])] plain_udp =
      (Some (Ok (Data \<lparr>dm_data = [7], dm_compHeader = None, dm_relHeader = None\<rparr>)), [], s')"
    and start: "pending_typed plain_udp"
    by blast
  show ?thesis
    using received_messages_typed [THEN conjunct1, THEN spec, THEN spec, THEN spec, THEN mp, OF start disjI1, OF s'] s'
    by blast
qed

end
