(* ===== verification/Qdb_Files.thy ===== *)
theory Qdb_Files
  imports Qunet_Socket
begin

text \<open>
  The databases that a client keeps on disk (\<open>pathForQdb\<close>, \<open>tryFindQdb\<close> and \<open>saveQdb\<close> of
  \<open>src/database/QunetDatabase.cpp\<close>, \<open>hexEncode\<close> of \<open>src/util/hash.cpp\<close>).  The file system
  (\<open>asp::fs\<close>), the hash function (BLAKE3) and the text of an address (qsox) are parameters; what the
  code only logs is left out.
\<close>

section \<open>Hexadecimal names\<close>

definition hexChars :: string where
  "hexChars = ''0123456789abcdef''"

definition hexEncode :: "bytes \<Rightarrow> string" where
  "hexEncode data = concat (map (\<lambda>b. [hexChars ! unat (drop_bit 4 b AND 0x0F), hexChars ! unat (b AND 0x0F)]) data)"

lemma hexEncode_simps [simp]:
  "hexEncode [] = []"
  "hexEncode (b # bs) = hexChars ! unat (drop_bit 4 b AND 0x0F) # hexChars ! unat (b AND 0x0F) # hexEncode bs"
  by (simp_all add: hexEncode_def)

lemma length_hexEncode [simp]: "length (hexEncode bs) = 2 * length bs"
  by (induction bs) simp_all

lemma take_hexEncode: "take (2 * n) (hexEncode bs) = hexEncode (take n bs)"
proof (induction bs arbitrary: n)
  case (Cons b bs)
  then show ?case
    by (cases n) simp_all
qed simp

lemma nibble_less: "unat ((b :: u8) AND 0x0F) < 16"
proof -
  have "b AND 0x0F \<le> 0x0F"
    by (rule word_and_le1)
  then show ?thesis
    by (simp add: word_le_nat_alt)
qed

lemma nibbles: "push_bit 4 (drop_bit 4 b AND 0x0F) OR (b AND 0x0F) = (b :: u8)"
proof -
  have "push_bit 4 (drop_bit 4 b AND mask 4) OR (b AND mask 4) = b"
    by (rule bit_word_eqI) (auto simp: bit_simps)
  then show ?thesis
    by (simp add: mask_eq_exp_minus_1)
qed

lemma hexChars_distinct: "distinct hexChars" and hexChars_length: "length hexChars = 16"
  by (simp_all add: hexChars_def)

lemma hexChars_inject: "hexChars ! unat ((a :: u8) AND 0x0F) = hexChars ! unat ((b :: u8) AND 0x0F) \<longleftrightarrow> a AND 0x0F = b AND 0x0F"
  using nth_eq_iff_index_eq [OF hexChars_distinct, of "unat (a AND 0x0F)" "unat (b AND 0x0F)"] nibble_less hexChars_length
  by (simp add: word_unat_eq_iff)

lemma hexEncode_inject: "hexEncode as = hexEncode bs \<longleftrightarrow> as = bs"
proof (induction as arbitrary: bs)
  case Nil
  then show ?case
    by (cases bs) simp_all
next
  case (Cons a as)
  show ?case
  proof (cases bs)
    case (Cons b bs')
    have "a = b" if "drop_bit 4 a AND 0x0F = drop_bit 4 b AND 0x0F" "a AND 0x0F = b AND 0x0F"
      using nibbles [of a] nibbles [of b] that by metis
    then show ?thesis
      using Cons Cons.IH by (auto simp: hexChars_inject)
  qed simp
qed

definition plain_name :: "string \<Rightarrow> bool" where
  "plain_name name \<longleftrightarrow> set name \<subseteq> set (hexChars @ ''.qdb'')"

lemma plain_name_hexEncode: "plain_name (hexEncode bs @ ''.qdb'')"
proof -
  have "hexChars ! unat ((b :: u8) AND 0x0F) \<in> set hexChars" for b
    using nibble_less hexChars_length by simp
  then have "set (hexEncode bs) \<subseteq> set hexChars"
    by (induction bs) auto
  then show ?thesis
    by (auto simp: plain_name_def)
qed

section \<open>Files\<close>

record ('f, 'p) fs_ops =
  fo_join :: "'p \<Rightarrow> string \<Rightarrow> 'p"
  fo_exists :: "'f \<Rightarrow> 'p \<Rightarrow> bool"
  fo_read :: "'f \<Rightarrow> 'p \<Rightarrow> (string, bytes) outcome"
  fo_createDirAll :: "'p \<Rightarrow> 'f \<Rightarrow> (string, unit) outcome \<times> 'f"
  fo_write :: "'p \<Rightarrow> bytes \<Rightarrow> 'f \<Rightarrow> (string, unit) outcome \<times> 'f"

text \<open>The hash of a text is the hash of its bytes.\<close>

definition pathForQdb :: "('f, 'p) fs_ops \<Rightarrow> (bytes \<Rightarrow> bytes) \<Rightarrow> ('a \<Rightarrow> string) \<Rightarrow> 'p \<Rightarrow> 'a \<Rightarrow> 'p" where
  "pathForQdb F blake3Hash toString folder address =
     (let hash = blake3Hash (chars_of (toString address));
          hexstr = take 32 (hexEncode hash)
      in fo_join F folder (hexstr @ ''.qdb''))"

text \<open>A file that cannot be read or decoded counts as missing; an exception of the decoder leaves
  the function.\<close>

definition tryFindQdb :: "('f, 'p) fs_ops \<Rightarrow> 'r byte_reader \<Rightarrow> (bytes \<Rightarrow> bytes) \<Rightarrow> ('a \<Rightarrow> string) \<Rightarrow> 'f \<Rightarrow>
    'p \<Rightarrow> 'a \<Rightarrow> (string, QunetDatabase option) outcome" where
  "tryFindQdb F R blake3Hash toString files folder address =
     (let qdbPath = pathForQdb F blake3Hash toString folder address in
      if \<not> fo_exists F files qdbPath then Ok None
      else case fo_read F files qdbPath of
          Inl _ \<Rightarrow> Ok None
        | Inr res \<Rightarrow>
            (case QunetDatabase_decode R blake3Hash res of
               Inl (Failed _) \<Rightarrow> Ok None
             | Inl AssertionFailed \<Rightarrow> Inl AssertionFailed
             | Inl OutOfBounds \<Rightarrow> Inl OutOfBounds
             | Inr qdb \<Rightarrow> Ok (Some qdb)))"

definition saveQdb :: "('f, 'p) fs_ops \<Rightarrow> (bytes \<Rightarrow> bytes) \<Rightarrow> ('a \<Rightarrow> string) \<Rightarrow> bytes \<Rightarrow> 'p \<Rightarrow> 'a \<Rightarrow> 'f \<Rightarrow>
    (string, unit) outcome \<times> 'f" where
  "saveQdb F blake3Hash toString data folder address files =
     (let qdbPath = pathForQdb F blake3Hash toString folder address;
          files = (if \<not> fo_exists F files folder then snd (fo_createDirAll F folder files) else files)
      in fo_write F qdbPath data files)"

section \<open>What is saved is found\<close>

text \<open>The file system keeps what is written to a file, and neither a write to another file of the
  folder nor the creation of the folder changes it.\<close>

locale fs_laws =
  fixes F :: "('f, 'p) fs_ops"
  assumes write_reads: "fo_write F p data files = (Ok (), files') \<Longrightarrow> fo_exists F files' p \<and> fo_read F files' p = Ok data"
    and write_others: "plain_name a \<Longrightarrow> plain_name b \<Longrightarrow> a \<noteq> b \<Longrightarrow>
      fo_exists F (snd (fo_write F (fo_join F folder b) data files)) (fo_join F folder a) = fo_exists F files (fo_join F folder a) \<and>
      fo_read F (snd (fo_write F (fo_join F folder b) data files)) (fo_join F folder a) = fo_read F files (fo_join F folder a)"
    and createDir_files: "plain_name a \<Longrightarrow>
      fo_exists F (snd (fo_createDirAll F folder files)) (fo_join F folder a) = fo_exists F files (fo_join F folder a) \<and>
      fo_read F (snd (fo_createDirAll F folder files)) (fo_join F folder a) = fo_read F files (fo_join F folder a)"
begin

lemma path_name: "pathForQdb F h toString folder a = fo_join F folder (hexEncode (take 16 (h (chars_of (toString a)))) @ ''.qdb'')"
  using take_hexEncode [of 16] by (simp add: pathForQdb_def)

lemma found_after_save:
  assumes "saveQdb F h toString data folder a files = (Ok (), files')" and "QunetDatabase_decode R h data = Ok qdb"
  shows "tryFindQdb F R h toString files' folder a = Ok (Some qdb)"
  using assms by (auto simp: saveQdb_def tryFindQdb_def Let_def dest: write_reads)

lemma others_after_save:
  assumes "saveQdb F h toString data folder a files = (r, files')"
    and "take 16 (h (chars_of (toString b))) \<noteq> take 16 (h (chars_of (toString a)))"
  shows "tryFindQdb F R h toString files' folder b = tryFindQdb F R h toString files folder b"
proof -
  let ?name = "\<lambda>x. hexEncode (take 16 (h (chars_of (toString x)))) @ ''.qdb''"
  define files1 where "files1 = (if \<not> fo_exists F files folder then snd (fo_createDirAll F folder files) else files)"
  have saved: "files' = snd (fo_write F (fo_join F folder (?name a)) data files1)"
    using assms(1) by (auto simp: saveQdb_def path_name files1_def Let_def split: if_splits)
  have name_ne: "?name b \<noteq> ?name a"
    using assms(2) by (simp add: hexEncode_inject)
  have "fo_exists F files' (fo_join F folder (?name b)) = fo_exists F files1 (fo_join F folder (?name b)) \<and>
      fo_read F files' (fo_join F folder (?name b)) = fo_read F files1 (fo_join F folder (?name b))"
    using write_others [OF plain_name_hexEncode plain_name_hexEncode name_ne, of folder data files1] saved by simp
  moreover have "fo_exists F files1 (fo_join F folder (?name b)) = fo_exists F files (fo_join F folder (?name b)) \<and>
      fo_read F files1 (fo_join F folder (?name b)) = fo_read F files (fo_join F folder (?name b))"
    using createDir_files [OF plain_name_hexEncode] by (simp add: files1_def)
  ultimately show ?thesis
    by (simp add: tryFindQdb_def path_name Let_def)
qed

end

text \<open>A file system of directories and files, by their paths.\<close>

type_synonym tree = "string list list \<times> (string list \<times> bytes) list"

definition tree_fs :: "(tree, string list) fs_ops" where
  "tree_fs = \<lparr>fo_join = (\<lambda>p name. p @ [name]),
     fo_exists = (\<lambda>t p. p \<in> set (fst t) \<or> map_of (snd t) p \<noteq> None),
     fo_read = (\<lambda>t p. case map_of (snd t) p of None \<Rightarrow> Err ''No such file'' | Some bs \<Rightarrow> Ok bs),
     fo_createDirAll = (\<lambda>p t. (Ok (), (map (\<lambda>n. take n p) [0..<Suc (length p)] @ fst t, snd t))),
     fo_write = (\<lambda>p bs t. if butlast p \<in> set (fst t) then (Ok (), (fst t, (p, bs) # snd t))
                          else (Err ''No such directory'', t))\<rparr>"

interpretation tree_fs: fs_laws tree_fs
proof
  show "fo_exists tree_fs files' p \<and> fo_read tree_fs files' p = Ok data"
    if "fo_write tree_fs p data files = (Ok (), files')" for p data files files'
    using that by (auto simp: tree_fs_def split: if_splits)
qed (auto simp: tree_fs_def dest: arg_cong [where f = length])

section \<open>Properties\<close>

text \<open>C27 (roundtrip).  The database a server sent, once saved, is the one that the next connection to this server
  finds, decoded to the same dictionary and level, and the next handshake announces the hash of exactly
  the bytes that were received; what is found for an address whose name has another hash does not
  change.\<close>

theorem saved_database_is_used:
  assumes "fs_laws F" and "decodeReceivedQdb X q = Ok (data, qdb)"
    and "saveQdb F (se_hash X) toString data folder address files = (Ok (), files')"
  shows "tryFindQdb F (se_reader X) (se_hash X) toString files' folder address = Ok (Some qdb) \<and>
    hs_qdbHash (handshakeStartMessage (k\<lparr>sk_usedQdb := Some qdb\<rparr>)) = take 16 (se_hash X data) \<and>
    (\<forall>other. take 16 (se_hash X (chars_of (toString other))) \<noteq> take 16 (se_hash X (chars_of (toString address))) \<longrightarrow>
      tryFindQdb F (se_reader X) (se_hash X) toString files' folder other =
      tryFindQdb F (se_reader X) (se_hash X) toString files folder other)"
proof -
  have decoded: "QunetDatabase_decode (se_reader X) (se_hash X) data = Ok qdb"
    using assms(2) by (auto simp: decodeReceivedQdb_def Let_def unwrap_eq_Inr split: prod.splits)
  then have "qdb_hash qdb = take 16 (se_hash X data)"
    by (auto simp: QunetDatabase_decode_def unwrap_eq_Inr)
  then have "hs_qdbHash (handshakeStartMessage (k\<lparr>sk_usedQdb := Some qdb\<rparr>)) = take 16 (se_hash X data)"
    by (simp add: handshakeStartMessage_def getHash_def)
  then show ?thesis
    using fs_laws.found_after_save [OF assms(1,3) decoded] fs_laws.others_after_save [OF assms(1,3)] by blast
qed

theorem saved_database_is_used_witness:
  "tryFindQdb tree_fs list_reader (\<lambda>_. replicate 32 9) (\<lambda>_. ''a'') 
     (snd (saveQdb tree_fs (\<lambda>_. replicate 32 9) (\<lambda>_. ''a'') (qdb_file le_codec 3 32 6 (put32 le_codec 19 @ [1, 2]))
        [''q''] () ([], []))) [''q''] () =
   Ok (Some \<lparr>qdb_zstdDict = Some [1, 2], qdb_zstdLevel = 19, qdb_hash = replicate 16 9\<rparr>)"
proof -
  let ?file = "qdb_file le_codec 3 32 6 (put32 le_codec 19 @ [1, 2])"
  let ?X = "(sample_socket_env :: (_, _, _, unit, _) socket_env)\<lparr>se_hash := \<lambda>_. replicate 32 9\<rparr>"
  let ?q = "\<lparr>qd_uncompressedSize = of_nat (length ?file), qd_compressedSize = of_nat (Suc (length ?file)), qd_chunkOffset = 0,
      qd_chunkSize = of_nat (Suc (length ?file)), qd_chunkData = 0 # ?file\<rparr>"
  have len: "length ?file = 38"
    by (simp add: qdb_file_def DB_MAGIC_def)
  have unzipped: "\<exists>dec. ZstdDecompressor_init zeros_zstd ZstdDecompressor_new = (Ok (), dec) \<and>
      ZstdDecompressor_decompress zeros_zstd dec (0 # f) (length f) False = Ok f" for f
    by (auto simp: zeros_zstd_def ZstdDecompressor_init_def ZstdDecompressor_new_def ZstdDecompressor_decompress_def Let_def)
  have "QunetDatabase_decode list_reader (\<lambda>_. replicate 32 9) ?file =
      Ok \<lparr>qdb_zstdDict = Some [1, 2], qdb_zstdLevel = 19, qdb_hash = replicate 16 9\<rparr>"
    using dbuf_laws.qdb_decodes [OF ref.dbuf_laws_axioms, of "[1, 2]" "\<lambda>_. replicate 32 9" 19] by simp
  then have received: "decodeReceivedQdb ?X ?q = Ok (?file, \<lparr>qdb_zstdDict = Some [1, 2], qdb_zstdLevel = 19, qdb_hash = replicate 16 9\<rparr>)"
    using unzipped [of ?file] len by (auto simp: decodeReceivedQdb_def sample_socket_env_def throwing_def)
  obtain files' where saved: "saveQdb tree_fs (se_hash ?X) (\<lambda>_. ''a'') ?file [''q''] () ([], []) = (Ok (), files')"
    by (simp add: saveQdb_def tree_fs_def pathForQdb_def Let_def)
  have X: "se_hash ?X = (\<lambda>_. replicate 32 9)" "se_reader ?X = list_reader"
    by (simp_all add: sample_socket_env_def)
  show ?thesis
    using saved_database_is_used [OF tree_fs.fs_laws_axioms received saved, THEN conjunct1] saved
    unfolding X by (simp only: snd_conv)
qed

end
