(* ===== verification/Accessors.thy ===== *)
theory Accessors
  imports Connection_Worker Qunet_Socket
begin

text \<open>
  What users read from the objects of the library: the alternatives and comparisons of
  \<open>ConnectionError\<close> (\<open>Connection.cpp\<close>), the getters of \<open>UrlParser\<close> and of \<open>Socket\<close>, and what is left
  of a connection that is destroyed.  \<open>std::get\<close> on another alternative and \<open>value()\<close> of an empty
  optional throw.
\<close>

section \<open>Connection errors\<close>

fun asTransportError :: "'a ConnectionError \<Rightarrow> ('e, TransportError) outcome" where
  "asTransportError (TransportFailed err) = Ok err"
| "asTransportError _ = Inl AssertionFailed"

fun asServerClosedError :: "'a ConnectionError \<Rightarrow> ('e, string) outcome" where
  "asServerClosedError (ServerClosedError reason) = Ok reason"
| "asServerClosedError _ = Inl AssertionFailed"

fun asOtherError :: "'a ConnectionError \<Rightarrow> ('e, ConnectionErrorCode) outcome" where
  "asOtherError (OtherError code) = Ok code"
| "asOtherError _ = Inl AssertionFailed"

fun asAllAddressesFailed :: "'a ConnectionError \<Rightarrow> ('e, ('a \<times> ConnectionType \<times> 'a ConnectionError) list) outcome" where
  "asAllAddressesFailed (AllAddressesFailed addresses) = Ok addresses"
| "asAllAddressesFailed _ = Inl AssertionFailed"

definition eq_code :: "'a ConnectionError \<Rightarrow> ConnectionErrorCode \<Rightarrow> ('e, bool) outcome" where
  "eq_code e code =
     (if isOtherError e then unwrap (asOtherError e) (\<lambda>c. Ok (c = code)) else Ok False)"

definition eq_transportError :: "'a ConnectionError \<Rightarrow> TransportError \<Rightarrow> ('e, bool) outcome" where
  "eq_transportError e err =
     (if isTransportError e then unwrap (asTransportError e) (\<lambda>t. Ok (t = err)) else Ok False)"

definition eq_serverClosedError :: "'a ConnectionError \<Rightarrow> string \<Rightarrow> ('e, bool) outcome" where
  "eq_serverClosedError e reason =
     (if isServerClosedError e then unwrap (asServerClosedError e) (\<lambda>r. Ok (r = reason)) else Ok False)"

lemma eq_code_iff: "eq_code e code = Ok (e = OtherError code)"
  by (cases e) (simp_all add: eq_code_def)

lemma eq_transportError_iff: "eq_transportError e err = Ok (e = TransportFailed err)"
  by (cases e) (simp_all add: eq_transportError_def)

lemma eq_serverClosedError_iff: "eq_serverClosedError e reason = Ok (e = ServerClosedError reason)"
  by (cases e) (simp_all add: eq_serverClosedError_def)

lemma lastError_of_connectWait:
  assumes "connectWait_finish c = (Err e, c')"
  shows "eq_code (cn_lastError c) code = Ok (e = OtherError code)"
  using assms by (auto simp: connectWait_finish_def eq_code_iff Let_def setConnectionStateCallback_def split: if_splits)

section \<open>Parsed addresses\<close>

definition UrlParser_result :: "('ip, 'a) UrlParser \<Rightarrow> UrlParseError" where
  "UrlParser_result p = up_result p"

definition UrlParser_protocol :: "('ip, 'a) UrlParser \<Rightarrow> ConnectionType option" where
  "UrlParser_protocol p = up_proto p"

definition UrlParser_path :: "('ip, 'a) UrlParser \<Rightarrow> string" where
  "UrlParser_path p = up_path p"

definition isIpWithPort :: "('ip, 'a) UrlParser \<Rightarrow> bool" where
  "isIpWithPort p = (case up_value p of Some (UrlIpWithPort _) \<Rightarrow> True | _ \<Rightarrow> False)"

definition isIp :: "('ip, 'a) UrlParser \<Rightarrow> bool" where
  "isIp p = (case up_value p of Some (UrlIp _) \<Rightarrow> True | _ \<Rightarrow> False)"

definition isDomain :: "('ip, 'a) UrlParser \<Rightarrow> bool" where
  "isDomain p = (case up_value p of Some (UrlDomain _) \<Rightarrow> True | _ \<Rightarrow> False)"

definition isDomainWithPort :: "('ip, 'a) UrlParser \<Rightarrow> bool" where
  "isDomainWithPort p = (case up_value p of Some (UrlDomainWithPort _ _) \<Rightarrow> True | _ \<Rightarrow> False)"

text \<open>\<open>*m_value\<close> of an empty optional has undefined behaviour.\<close>

definition asIpWithPort :: "('ip, 'a) UrlParser \<Rightarrow> ('e, 'a) outcome" where
  "asIpWithPort p = (case up_value p of None \<Rightarrow> Inl OutOfBounds
     | Some (UrlIpWithPort a) \<Rightarrow> Ok a | Some _ \<Rightarrow> Inl AssertionFailed)"

definition asIp :: "('ip, 'a) UrlParser \<Rightarrow> ('e, 'ip) outcome" where
  "asIp p = (case up_value p of None \<Rightarrow> Inl OutOfBounds
     | Some (UrlIp ip) \<Rightarrow> Ok ip | Some _ \<Rightarrow> Inl AssertionFailed)"

definition asDomain :: "('ip, 'a) UrlParser \<Rightarrow> ('e, string) outcome" where
  "asDomain p = (case up_value p of None \<Rightarrow> Inl OutOfBounds
     | Some (UrlDomain d) \<Rightarrow> Ok d | Some _ \<Rightarrow> Inl AssertionFailed)"

definition asDomainWithPort :: "('ip, 'a) UrlParser \<Rightarrow> ('e, string \<times> u16) outcome" where
  "asDomainWithPort p = (case up_value p of None \<Rightarrow> Inl OutOfBounds
     | Some (UrlDomainWithPort d port) \<Rightarrow> Ok (d, port) | Some _ \<Rightarrow> Inl AssertionFailed)"

text \<open>A parser that reports success has a protocol and exactly one kind of value: the protocol and the value
  that \<open>threadConnect\<close> takes from it are there.\<close>

lemma parseHost_value: "up_value (parseHost A port p) \<noteq> None \<and> up_proto (parseHost A port p) = up_proto p \<and>
    up_result (parseHost A port p) = up_result p"
  by (simp add: parseHost_def Let_def)

lemma parseAuthority_value:
  assumes "parseAuthority A p = (Ok p' :: ('e, _) outcome)" and "up_result p' = UrlSuccess"
  shows "up_value p' \<noteq> None \<and> up_proto p' = up_proto p"
  using assms parseHost_value [of A]
  by (auto simp: parseAuthority_def unwrap_eq_Inr split: option.splits if_splits)

theorem parsed_url_has_value:
  assumes "UrlParser_new A url = (Ok p :: ('e, _) outcome)" and "UrlParser_result p = UrlSuccess"
  shows "UrlParser_protocol p \<noteq> None \<and>
    (isIpWithPort p \<and> isOk (asIpWithPort p :: ('e, _) outcome) \<or> isIp p \<and> isOk (asIp p :: ('e, _) outcome) \<or>
     isDomainWithPort p \<and> isOk (asDomainWithPort p :: ('e, _) outcome) \<or> isDomain p \<and> isOk (asDomain p :: ('e, _) outcome))"
proof -
  have path: "up_proto (parsePath q) = up_proto q" for q :: "('a, 'b) UrlParser"
    by (simp add: parsePath_def split: option.split)
  have "up_value p \<noteq> None \<and> up_proto p \<noteq> None"
    using assms
    by (auto simp: UrlParser_new_def UrlParser_parse_def UrlParser_result_def path split: option.splits
        dest!: parseAuthority_value)
  then obtain v where v: "up_value p = Some v" and "up_proto p \<noteq> None"
    by blast
  then show ?thesis
    by (cases v) (simp_all add: UrlParser_protocol_def isIpWithPort_def isIp_def isDomain_def isDomainWithPort_def
        asIpWithPort_def asIp_def asDomain_def asDomainWithPort_def)
qed

section \<open>Sockets and connections\<close>

definition Socket_getLatency :: "('d, 'i, 'f) time_ops \<Rightarrow> ('s, 'cd, 'dd, 'd, 'i) transport_ops \<Rightarrow> ('s, 'a, 'p) Socket \<Rightarrow> 'd" where
  "Socket_getLatency T V k = getLatency T (vt_base V (sk_transport k))"

definition Socket_getJitter :: "('d, 'i, 'f) time_ops \<Rightarrow> ('s, 'cd, 'dd, 'd, 'i) transport_ops \<Rightarrow> ('s, 'a, 'p) Socket \<Rightarrow> 'd" where
  "Socket_getJitter T V k = getJitter T (vt_base V (sk_transport k))"

definition Socket_untilTimerExpiry :: "('s, 'cd, 'dd, 'd, 'i) transport_ops \<Rightarrow> 'i \<Rightarrow> ('s, 'a, 'p) Socket \<Rightarrow> 'd" where
  "Socket_untilTimerExpiry V now k = vt_untilTimerExpiry V now (sk_transport k)"

definition Connection_lastError :: "('a, 's, 'd, 'f, 'p, 'x) Connection \<Rightarrow> 'a ConnectionError" where
  "Connection_lastError c = cn_lastError c"

text \<open>The destructor of a connection closes its socket; the worker has ended before.\<close>

definition Connection_destructor :: "('s, 'cd, 'dd, 'd, 'i) transport_ops \<Rightarrow> 'i call \<Rightarrow>
    ('a, ('s, 'a, 'p) Socket, 'd, 'f, 'p, 'x) Connection \<Rightarrow> ('a, ('s, 'a, 'p) Socket, 'd, 'f, 'p, 'x) Connection" where
  "Connection_destructor V call c =
     (case cn_socket c of
        None \<Rightarrow> c
      | Some k \<Rightarrow> c\<lparr>cn_socket := Some (snd (Socket_closeSync V call k))\<rparr>)"

lemma destroyed_connection_is_closed:
  assumes "transport_laws V" and "cl_shutdown call = Ok ()" and "cn_socket c = Some k"
  shows "\<exists>k'. cn_socket (Connection_destructor V call c) = Some k' \<and> Socket_isClosed V k'"
  using assms(3) transport_laws.closeSync_closes [OF assms(1,2), of "sk_transport k"]
  by (auto simp: Connection_destructor_def Socket_closeSync_def Socket_isClosed_def split: prod.split)

end
