(* ===== verification/End_To_End.thy ===== *)
theory End_To_End
  imports Qunet_Socket Connection
begin

text \<open>
  From the user of one connection to the user of another: \<open>Connection::sendData\<close> queues a message,
  the worker gives it to \<open>Socket::sendMessage\<close>, which compresses it, a transport carries it, and on
  the other side \<open>Socket::receiveMessage\<close> decodes and decompresses it and the worker hands its bytes
  to the callback.  What the sockets need of a pair of transports is the locale \<open>data_channel\<close>; TCP and
  WebSocket transports are instances of it.  (The library is the client's side; the receiver here is
  the same code with the tables of the server.)
\<close>

section \<open>What the sockets need of two transports\<close>

text \<open>\<open>arrives s s' r\<close>: what the first transport sent between \<open>s\<close> and \<open>s'\<close> is what comes first at the second
  in state \<open>r\<close>.\<close>

locale data_channel = sender: transport_laws V1 + receiver: transport_laws V2
  for V1 :: "('s1, 'cd, 'dd, 'd1, 'i1) transport_ops" and V2 :: "('s2, 'cd, 'dd, 'd, 'i) transport_ops" +
  fixes T :: "('d, 'i, 'f) time_ops" and Z :: "('cd, 'dd) zstd_ops" and L :: lz4_ops
    and ready :: "'s1 \<Rightarrow> bool" and arrives :: "'s1 \<Rightarrow> 's1 \<Rightarrow> 's2 \<Rightarrow> bool"
    and may_fail :: "nat \<Rightarrow> TransportError \<Rightarrow> 's2 \<Rightarrow> bool"
  assumes arrives_base: "arrives s (vt_on_base V1 g s') r = arrives s s' r"
    and may_fail_mono: "may_fail n e r \<Longrightarrow> n \<le> n' \<Longrightarrow> may_fail n' e r"
    and receives: "vt_sendMessage V1 c (Data m) ctx s = Some (Ok ctx', s') \<Longrightarrow> ready s \<Longrightarrow> arrives s s' r \<Longrightarrow>
      wf_comp (dm_compHeader m) \<Longrightarrow> dm_relHeader m = None \<Longrightarrow> length (dm_data m) + 5 < 2 ^ 32 \<Longrightarrow>
      length (dm_data m) + 5 \<le> unat (bt_messageSizeLimit (vt_base V2 r)) \<Longrightarrow>
      \<exists>res r'. vt_receiveMessage V2 c2 r = Some (Some res, r') \<and>
        ((\<exists>now off. res = fst (decodePreFinalDataMessage T Z L now (data_meta off m) (vt_base V2 r))) \<or>
         (\<exists>e. may_fail (length (dm_data m)) e r' \<and> res = Err e))"
begin

text \<open>A data message that was sent goes through: it was compressed or not, and comes out as it was.\<close>

lemma sent_message_arrives:
  assumes "zstd_laws Z" "lz4_laws L" "se_zstd X = Z" "se_lz4 X = L"
    and "zstd_laws.matching Z (bt_zstdCompressor (vt_base V1 (sk_transport k)))
      (bt_zstdDecompressor (vt_base V2 (sk_transport k2)))"
    and "ready (sk_transport k)" and "om_message om = Data msg"
    and "dm_compHeader msg = None" "dm_relHeader msg = None" "length (dm_data msg) < 2 ^ 30"
    and "length (dm_data msg) + 5 \<le> unat (bt_messageSizeLimit (vt_base V2 (sk_transport k2)))"
    and sent: "Socket_sendMessage V1 T1 X c om k = Some (Ok (), k')"
    and there: "arrives (sk_transport k) (sk_transport k') (sk_transport k2)"
  shows "\<exists>res2 k2'. Socket_receiveMessage V2 T2 c2 k2 = Some (Some res2, k2') \<and>
      (res2 = Ok (Data msg) \<or> (\<exists>e. may_fail (length (dm_data msg)) e (sk_transport k2') \<and> res2 = Err e))"
proof -
  let ?s = "sk_transport k" and ?r = "sk_transport k2"
  let ?cmp = "bt_zstdCompressor (vt_base V1 ?s)"
  have limit: "length (dm_data msg) \<le> unat (bt_messageSizeLimit (vt_base V2 ?r))"
    using assms(11) by simp
  have msg: "Data \<lparr>dm_data = dm_data msg, dm_compHeader = None, dm_relHeader = None\<rparr> = Data msg"
    using assms(8,9) by simp
  have goes: "\<exists>m. compressOutgoing X ?cmp (om_uncompressed om) msg = Ok m \<and> length (dm_data m) \<le> length (dm_data msg) \<and>
      wf_comp (dm_compHeader m) \<and> dm_relHeader m = None \<and>
      fst (decodePreFinalDataMessage T Z L now (data_meta off m) (vt_base V2 ?r)) = Ok (Data msg)" for now off
    using compression_roundtrip [of X ?cmp "vt_base V2 ?r" msg "om_uncompressed om" T now off] assms(1-5,8-10) limit msg
    by auto
  then obtain m where m: "compressOutgoing X ?cmp (om_uncompressed om) msg = Ok m" "length (dm_data m) \<le> length (dm_data msg)"
    "wf_comp (dm_compHeader m)" "dm_relHeader m = None"
    by blast
  have decoded: "fst (decodePreFinalDataMessage T Z L now (data_meta off m) (vt_base V2 ?r)) = Ok (Data msg)" for now off
    using goes [of now off] m(1) by auto
  obtain ctx' s' where s': "vt_sendMessage V1 c (Data m) (sendContext om (Data m)) ?s = Some (Ok ctx', s')"
    and k': "sk_transport k' = vt_on_base V1 (logOutgoingMessage T1 (cl_now c) MSG_DATA ctx') s'"
    using sent m(1) assms(7)
    by (auto simp: Socket_sendMessage_def sk_on_def io_then_eq_Inr step_then_eq_Inr split: option.splits prod.splits)
  have "arrives ?s s' ?r"
    using there by (simp add: k' arrives_base)
  then obtain res2 r' where r: "vt_receiveMessage V2 c2 ?r = Some (Some res2, r')"
    "(\<exists>now off. res2 = fst (decodePreFinalDataMessage T Z L now (data_meta off m) (vt_base V2 ?r))) \<or>
     (\<exists>e. may_fail (length (dm_data m)) e r' \<and> res2 = Err e)"
    using receives [OF s' assms(6) _ m(3,4), of ?r c2] m(2) assms(10,11) by auto
  have "\<exists>k2'. Socket_receiveMessage V2 T2 c2 k2 = Some (Some res2, k2') \<and> ((\<exists>v. res2 = Ok v) \<or> sk_transport k2' = r')"
    using r(1) by (cases res2) (simp_all add: Socket_receiveMessage_def)
  then show ?thesis
    using r(2) decoded may_fail_mono [OF _ m(2)] by auto
qed

text \<open>From \<open>sendData\<close> to the callback for data.\<close>

lemma queued_data:
  assumes "Connection_sendData data reliable uncompressed tag c1 = (True, c1')"
  shows "om_message (last (cn_msgChan c1')) = Data \<lparr>dm_data = data, dm_compHeader = None, dm_relHeader = None\<rparr>"
  using assms by (auto simp: Connection_sendData_def sendMsgToThread_def split: if_splits)

lemma sent_data_reaches_callback:
  assumes laws: "zstd_laws Z" "lz4_laws L" "se_zstd X = Z" "se_lz4 X = L"
    and matching: "zstd_laws.matching Z (bt_zstdCompressor (vt_base V1 (sk_transport k)))
      (bt_zstdDecompressor (vt_base V2 (sk_transport k2)))"
    and ready: "ready (sk_transport k)" and queued: "Connection_sendData data reliable uncompressed tag c1 = (True, c1')"
    and size: "length data < 2 ^ 30" "length data + 5 \<le> unat (bt_messageSizeLimit (vt_base V2 (sk_transport k2)))"
    and sent: "Socket_sendMessage V1 T1 X c (last (cn_msgChan c1')) k = Some (Ok (), k')"
    and there: "arrives (sk_transport k) (sk_transport k') (sk_transport k2)"
  shows "\<exists>res2 k2'. Socket_receiveMessage V2 T2 c2 k2 = Some (Some res2, k2') \<and>
      ((\<exists>m. res2 = Ok m \<and> (\<forall>conn :: ('addr, 'sock, 'dur, 'flt, 'pth, 'tls) Connection. data \<noteq> [] \<and> cb_data (cn_callbacks conn) \<longrightarrow>
          cn_trace (threadHandleIncomingMessage fmt m conn) = cn_trace conn @ [DataReceived data])) \<or>
       (\<exists>e. may_fail (length data) e (sk_transport k2') \<and> res2 = Err e))"
proof -
  let ?m = "\<lparr>dm_data = data, dm_compHeader = None, dm_relHeader = None\<rparr>"
  from sent_message_arrives [OF laws matching ready queued_data [OF queued], of T1 c k' T2 c2] sent there size
  have "\<exists>res2 k2'. Socket_receiveMessage V2 T2 c2 k2 = Some (Some res2, k2') \<and>
      (res2 = Ok (Data ?m) \<or> (\<exists>e. may_fail (length data) e (sk_transport k2') \<and> res2 = Err e))"
    by simp
  moreover have "cn_trace (threadHandleIncomingMessage fmt (Data ?m) conn) = cn_trace conn @ [DataReceived data]"
    if "data \<noteq> [] \<and> cb_data (cn_callbacks conn)" for conn :: "('addr, 'sock, 'dur, 'flt, 'pth, 'tls) Connection"
    using that by simp
  ultimately show ?thesis
    by blast
qed

end

text \<open>A transport that takes every data message when it is ready: TCP and WebSocket, but not QUIC, where a
  message may have to wait for room in the stream.\<close>

locale sure_channel = data_channel V1 V2 T Z L ready arrives may_fail
  for V1 :: "('s1, 'cd, 'dd, 'd1, 'i1) transport_ops" and V2 :: "('s2, 'cd, 'dd, 'd, 'i) transport_ops"
    and T :: "('d, 'i, 'f) time_ops" and Z :: "('cd, 'dd) zstd_ops" and L :: lz4_ops and ready arrives may_fail +
  assumes sends: "ready s \<Longrightarrow> wf_comp (dm_compHeader m) \<Longrightarrow> dm_relHeader m = None \<Longrightarrow>
      \<exists>s'. vt_sendMessage V1 c (Data m) ctx s = Some (Ok ctx, s')"
begin

lemma socket_sends:
  assumes "zstd_laws Z" "lz4_laws L" "se_zstd X = Z" "se_lz4 X = L"
    and "zstd_laws.matching Z (bt_zstdCompressor (vt_base V1 (sk_transport k)))
      (bt_zstdDecompressor (vt_base V2 r))"
    and "ready (sk_transport k)" and "om_message om = Data msg"
    and "dm_compHeader msg = None" "dm_relHeader msg = None" "length (dm_data msg) < 2 ^ 30"
    and "length (dm_data msg) \<le> unat (bt_messageSizeLimit (vt_base V2 r))"
    and "Socket_sendMessage V1 T1 X c om k = Some (res, k')"
  shows "res = Ok ()"
proof -
  let ?cmp = "bt_zstdCompressor (vt_base V1 (sk_transport k))"
  obtain m where m: "compressOutgoing X ?cmp (om_uncompressed om) msg = Ok m" "wf_comp (dm_compHeader m)" "dm_relHeader m = None"
    using compression_roundtrip [of X ?cmp "vt_base V2 r" msg "om_uncompressed om" T] assms(1-5,8-11) by auto
  obtain s' where "vt_sendMessage V1 c (Data m) (sendContext om (Data m)) (sk_transport k) = Some (Ok (sendContext om (Data m)), s')"
    using sends [OF assms(6) m(2,3)] by blast
  then show ?thesis
    using assms(7,12) m(1) by (auto simp: Socket_sendMessage_def)
qed

lemma user_delivers:
  assumes laws: "zstd_laws Z" "lz4_laws L" "se_zstd X = Z" "se_lz4 X = L"
    and matching: "zstd_laws.matching Z (bt_zstdCompressor (vt_base V1 (sk_transport k)))
      (bt_zstdDecompressor (vt_base V2 (sk_transport k2)))"
    and ready: "ready (sk_transport k)" and queued: "Connection_sendData data reliable uncompressed tag c1 = (True, c1')"
    and size: "length data < 2 ^ 30" "length data + 5 \<le> unat (bt_messageSizeLimit (vt_base V2 (sk_transport k2)))"
    and sent: "Socket_sendMessage V1 T1 X c (last (cn_msgChan c1')) k = Some (res, k')"
    and there: "arrives (sk_transport k) (sk_transport k') (sk_transport k2)"
  shows "res = Ok () \<and> (\<exists>res2 k2'. Socket_receiveMessage V2 T2 c2 k2 = Some (Some res2, k2') \<and>
      ((\<exists>m. res2 = Ok m \<and> (\<forall>conn :: ('addr, 'sock, 'dur, 'flt, 'pth, 'tls) Connection. data \<noteq> [] \<and> cb_data (cn_callbacks conn) \<longrightarrow>
          cn_trace (threadHandleIncomingMessage fmt m conn) = cn_trace conn @ [DataReceived data])) \<or>
       (\<exists>e. may_fail (length data) e (sk_transport k2') \<and> res2 = Err e)))"
proof -
  have res: "res = Ok ()"
    using socket_sends [OF laws matching ready queued_data [OF queued] _ _ _ _ sent] size by simp
  show ?thesis
    using sent_data_reaches_callback [OF laws matching ready queued size sent [unfolded res] there] res by blast
qed

end

section \<open>Receiving from a stream\<close>

text \<open>Why a receiver of a stream may refuse to wait for the rest of a message with \<open>n\<close> bytes: its buffer
  has grown to the limit and is full, without holding the whole frame (4 bytes of length, at most 5 of headers).\<close>

definition buffer_full :: "'b ring_ops \<Rightarrow> ('b \<Rightarrow> bytes) \<Rightarrow> nat \<Rightarrow>
    ('b, 'cd, 'dd, 'd, 'i, 'z) StreamTransport_scheme \<Rightarrow> bool" where
  "buffer_full B contents n t \<longleftrightarrow> ring_full B (ss_recvBuffer t) \<and> length (contents (ss_recvBuffer t)) < n + 9"

lemma buffer_full_mono: "buffer_full B contents n t \<Longrightarrow> n \<le> n' \<Longrightarrow> buffer_full B contents n' t"
  by (simp add: buffer_full_def)

context stream_laws
begin

text \<open>What a receiver of a byte stream makes of a data message that comes next.\<close>

lemma next_data_frame:
  fixes t :: "('b, 'cd, 'dd, 'd, 'i, 'z) StreamTransport_scheme"
  assumes reader: "en_reader E2 = R" and m: "wf_comp (dm_compHeader m)" "dm_relHeader m = None"
    and body: "body = header_bits (dm_compHeader m) False False # wire_comp C (dm_compHeader m) @ dm_data m"
    and next_bytes: "contents (ss_recvBuffer t) @ incoming recvs = put32 C (of_nat (length body)) @ body @ later"
    and flow: "flowing recvs" and small: "length (dm_data m) + 5 < 2 ^ 32"
    and limit: "length (dm_data m) + 5 \<le> unat (bt_messageSizeLimit (ss_base t))"
  shows "\<exists>res recvs' t'. stream_receiveMessage E2 B (bt_messageSizeLimit (ss_base t)) now recvs t = Some (Some res, recvs', t') \<and>
    ((\<exists>now off. res = fst (decodePreFinalDataMessage (en_time E2) (en_zstd E2) (en_lz4 E2) now (data_meta off m) (ss_base t))) \<or>
     buffer_full B contents (length (dm_data m)) t' \<and> res = Err (CustomKind NoBufferSpace))"
proof -
  have len: "length body \<le> length (dm_data m) + 5"
    by (cases "dm_compHeader m") (simp_all add: body wire_comp_def)
  obtain off where off: "decodeBody E2 now body (ss_base t) =
      fst (decodePreFinalDataMessage (en_time E2) (en_zstd E2) (en_lz4 E2) now (data_meta off m) (ss_base t))"
    using decodeBody_data [OF reader m, of now "ss_base t"] by (auto simp: body data_meta_def)
  have "\<exists>res recvs' t'. stream_receiveMessage E2 B (bt_messageSizeLimit (ss_base t)) now recvs t =
      Some (Some res, recvs', t') \<and> (res = decodeBody E2 now body (ss_base t) \<or>
        buffer_full B contents (length (dm_data m)) t' \<and> res = Err (CustomKind NoBufferSpace))"
    using receive_frame [OF reader, of body "bt_messageSizeLimit (ss_base t)" recvs t later "ss_base t" now now]
      next_bytes flow len small limit by (fastforce simp: body buffer_full_def)
  then obtain res recvs' t' where got: "stream_receiveMessage E2 B (bt_messageSizeLimit (ss_base t)) now recvs t =
      Some (Some res, recvs', t')"
    and result: "res = decodeBody E2 now body (ss_base t) \<or>
      buffer_full B contents (length (dm_data m)) t' \<and> res = Err (CustomKind NoBufferSpace)"
    by blast
  have "(\<exists>now off. res = fst (decodePreFinalDataMessage (en_time E2) (en_zstd E2) (en_lz4 E2) now (data_meta off m) (ss_base t))) \<or>
      buffer_full B contents (length (dm_data m)) t' \<and> res = Err (CustomKind NoBufferSpace)"
    using result unfolding off by blast
  with got show ?thesis
    by blast
qed

end

section \<open>TCP\<close>

locale tcp_pair = stream_laws C R rest adv W B contents
  for C :: byte_codec and R :: "'r byte_reader" and rest :: "'r \<Rightarrow> bytes" and adv :: "'r \<Rightarrow> nat \<Rightarrow> 'r"
    and W :: "'w byte_writer" and B :: "'b ring_ops" and contents :: "'b \<Rightarrow> bytes" +
  fixes E1 :: "('r1, 'w, 'cd, 'dd, 'd1, 'i1, 'f1) qn_env" and E2 :: "('r, 'w2, 'cd, 'dd, 'd, 'i, 'f) qn_env"
    and B1 :: "'b1 ring_ops" and D1 :: "'g1 double_ops" and D2 :: "'g2 double_ops"
  assumes writer: "en_writer E1 = W" and reader: "en_reader E2 = R"
    and working: "en_send E1 n = (\<lambda>_. Ok ())"

text \<open>What was sent is the next thing that the receiver has buffered or will be given, in pieces of any size.\<close>

definition tcp_arrives :: "('b \<Rightarrow> bytes) \<Rightarrow> (('b1, 'cd, 'dd, 'd1, 'i1) TcpTransport, 'i1) networked \<Rightarrow>
    (('b1, 'cd, 'dd, 'd1, 'i1) TcpTransport, 'i1) networked \<Rightarrow> (('b, 'cd, 'dd, 'd, 'i) TcpTransport, 'i) networked \<Rightarrow> bool" where
  "tcp_arrives contents s s' r \<longleftrightarrow> flowing (snd r) \<and>
     (\<exists>sent later. ss_wire (fst s') = ss_wire (fst s) @ sent \<and>
        contents (ss_recvBuffer (fst r)) @ incoming (snd r) = concat sent @ later)"

context tcp_pair
begin

lemma tcp_sends:
  assumes "wf_comp (dm_compHeader m)" and "dm_relHeader m = None"
    and "body = header_bits (dm_compHeader m) False False # wire_comp C (dm_compHeader m) @ dm_data m"
  shows "\<exists>t'. vt_sendMessage (tcp_ops E1 D1 B1) c (Data m) ctx (t, n) = Some (Ok ctx, (t', n)) \<and>
    ss_wire t' = ss_wire t @ [put32 C (of_nat (length body)) @ body]"
proof -
  define t1 where "t1 = t\<lparr>ss_base := updateLastActivity (cl_now c) (ss_base t)\<rparr>"
  obtain t' where "stream_sendMessage E1 (cl_now c) (Data m) t1 = (Ok (), t')"
    "ss_wire t' = ss_wire t1 @ [put32 C (of_nat (length body)) @ body]"
    using sent_data_frame [OF writer working assms(1,2), of "cl_now c" t1] assms(3) by auto
  then show ?thesis
    by (simp add: tcp_ops_def TcpTransport_sendMessage_def stampKeepalive_def t1_def)
qed

end

sublocale tcp_pair \<subseteq> tcp: sure_channel "tcp_ops E1 D1 B1" "tcp_ops E2 D2 B" "en_time E2" "en_zstd E2" "en_lz4 E2"
  "\<lambda>_. True" "tcp_arrives contents" "\<lambda>n e r. e = CustomKind NoBufferSpace \<and> buffer_full B contents n (fst r)"
proof unfold_locales
  fix s s' :: "(('b1, 'cd, 'dd, 'd1, 'i1) TcpTransport, 'i1) networked" and r :: "(('b, 'cd, 'dd, 'd, 'i) TcpTransport, 'i) networked" and g
  show "tcp_arrives contents s (vt_on_base (tcp_ops E1 D1 B1) g s') r = tcp_arrives contents s s' r"
    by (cases s') (simp add: tcp_arrives_def tcp_ops_def ss_on_base_def)
next
  show "e = CustomKind NoBufferSpace \<and> buffer_full B contents n' (fst r)"
    if "e = CustomKind NoBufferSpace \<and> buffer_full B contents n (fst r)" "n \<le> n'"
    for n n' e and r :: "(('b, 'cd, 'dd, 'd, 'i) TcpTransport, 'i) networked"
    using that buffer_full_mono by blast
next
  fix m :: DataMessage and c ctx s ctx' s' and r :: "(('b, 'cd, 'dd, 'd, 'i) TcpTransport, 'i) networked" and c2 :: "'i call"
  assume sent: "vt_sendMessage (tcp_ops E1 D1 B1) c (Data m) ctx s = Some (Ok ctx', s')" and there: "tcp_arrives contents s s' r"
    and m: "wf_comp (dm_compHeader m)" "dm_relHeader m = None"
    and small: "length (dm_data m) + 5 < 2 ^ 32" and limit: "length (dm_data m) + 5 \<le> unat (bt_messageSizeLimit (vt_base (tcp_ops E2 D2 B) r))"
  define body where "body = header_bits (dm_compHeader m) False False # wire_comp C (dm_compHeader m) @ dm_data m"
  have wire: "ss_wire (fst s') = ss_wire (fst s) @ [put32 C (of_nat (length body)) @ body]"
    using tcp_sends [OF m body_def, of c ctx "fst s" "snd s"] sent by (cases s) auto
  obtain sent' later where "ss_wire (fst s') = ss_wire (fst s) @ sent'"
    "contents (ss_recvBuffer (fst r)) @ incoming (snd r) = concat sent' @ later" and flow: "flowing (snd r)"
    using there by (auto simp: tcp_arrives_def)
  then have next_bytes: "contents (ss_recvBuffer (fst r)) @ incoming (snd r) = put32 C (of_nat (length body)) @ body @ later"
    using wire by auto
  from next_data_frame [OF reader m body_def next_bytes flow small, of "cl_now c2"] limit
  show "\<exists>res r'. vt_receiveMessage (tcp_ops E2 D2 B) c2 r = Some (Some res, r') \<and>
      ((\<exists>now off. res = fst (decodePreFinalDataMessage (en_time E2) (en_zstd E2) (en_lz4 E2) now (data_meta off m)
          (vt_base (tcp_ops E2 D2 B) r))) \<or>
       (\<exists>e. (e = CustomKind NoBufferSpace \<and> buffer_full B contents (length (dm_data m)) (fst r')) \<and> res = Err e))"
    by (cases r) (auto simp: tcp_ops_def TcpTransport_receiveMessage_def)
next
  fix m :: DataMessage and c :: "'i1 call" and ctx s
  assume "wf_comp (dm_compHeader m)" "dm_relHeader m = None"
  then show "\<exists>s'. vt_sendMessage (tcp_ops E1 D1 B1) c (Data m) ctx s = Some (Ok ctx, s')"
    using tcp_sends [of m _ c ctx "fst s" "snd s"] by (cases s) auto
qed

context tcp_pair
begin

lemmas tcp_user_delivers = tcp.user_delivers

end

section \<open>WebSocket\<close>

locale ws_pair = dbuf_laws C R rest adv W + sender: ws_client_laws ops1 + receiver: ws_client_laws ops2
  for C :: byte_codec and R :: "'r byte_reader" and rest :: "'r \<Rightarrow> bytes" and adv :: "'r \<Rightarrow> nat \<Rightarrow> 'r"
    and W :: "'w byte_writer" and ops1 :: "'c1 ws_ops" and ops2 :: "'c2 ws_ops" +
  fixes E1 :: "('r1, 'w, 'cd, 'dd, 'd1, 'i1, 'f1) qn_env" and E2 :: "('r, 'w2, 'cd, 'dd, 'd, 'i, 'f) qn_env"
    and D1 :: "'g1 double_ops" and D2 :: "'g2 double_ops" and sent :: "'c1 \<Rightarrow> bytes list"
  assumes writer: "en_writer E1 = W" and reader: "en_reader E2 = R"
    and sending: "wc_isConnected ops1 c \<Longrightarrow> fst (wc_send ops1 data c) = Ok () \<and> sent (snd (wc_send ops1 data c)) = sent c @ [data]"

text \<open>The client of the receiver returns the message that the client of the sender took last.\<close>

definition ws_arrives :: "('c1 \<Rightarrow> bytes list) \<Rightarrow> 'c2 ws_ops \<Rightarrow> ('c1, 'cd, 'dd, 'd1, 'i1) WsTransport \<Rightarrow>
    ('c1, 'cd, 'dd, 'd1, 'i1) WsTransport \<Rightarrow> ('c2, 'cd, 'dd, 'd, 'i) WsTransport \<Rightarrow> bool" where
  "ws_arrives sent ops2 s s' r \<longleftrightarrow> (\<exists>data. sent (ws_client s') = sent (ws_client s) @ [data] \<and>
     fst (wc_recv ops2 (ws_client r)) = Some (Ok (WsBinary data)))"

context ws_pair
begin

lemma ws_sends:
  assumes "wf_comp (dm_compHeader m)" and "dm_relHeader m = None" and "wc_isConnected ops1 (ws_client t)"
  shows "\<exists>t' w. vt_sendMessage (websocket_ops E1 D1 ops1) c (Data m) ctx t = Some (Ok ctx, t') \<and>
    sent (ws_client t') = sent (ws_client t) @ [bw_written W (bw_writeBytes W w (dm_data m))] \<and>
    decodeMeta R (bw_written W (bw_writeBytes W w (dm_data m))) False False =
       Ok (data_meta (length (bw_written W w)) m)"
proof -
  obtain w where w: "encodeDataHeader W (Data m) 0 False (bw_new W) = Ok w"
    "decodeMeta R (bw_written W (bw_writeBytes W w (dm_data m))) False False = Ok (data_meta (length (bw_written W w)) m)"
    using data_roundtrip [of m 0 False] assms by (auto simp: sendable_rel_def acked_rel_def data_meta_def)
  let ?data = "bw_written W (bw_writeBytes W w (dm_data m))"
  obtain c' where "wc_send ops1 ?data (ws_client t) = (Ok (), c')" "sent c' = sent (ws_client t) @ [?data]"
    using sending [OF assms(3), of ?data] by (metis prod.collapse)
  then show ?thesis
    using w writer
    by (auto simp: websocket_ops_def WsTransport_sendMessage_def stampKeepalive_def ws_call_def ws_on_tracker_def ws_on_base_def Let_def)
qed

end

sublocale ws_pair \<subseteq> ws: sure_channel "websocket_ops E1 D1 ops1" "websocket_ops E2 D2 ops2" "en_time E2" "en_zstd E2" "en_lz4 E2"
  "\<lambda>s. wc_isConnected ops1 (ws_client s)" "ws_arrives sent ops2" "\<lambda>_ _ _. False"
proof (rule sure_channel.intro)
  show "data_channel (websocket_ops E1 D1 ops1) (websocket_ops E2 D2 ops2) (en_time E2) (en_zstd E2) (en_lz4 E2)
      (\<lambda>s. wc_isConnected ops1 (ws_client s)) (ws_arrives sent ops2) (\<lambda>_ _ _. False)"
  proof (rule data_channel.intro)
    show "transport_laws (websocket_ops E1 D1 ops1)" "transport_laws (websocket_ops E2 D2 ops2)"
      by (rule closing_laws.axioms(1) sender.websocket_transport receiver.websocket_transport)+
    show "data_channel_axioms (websocket_ops E1 D1 ops1) (websocket_ops E2 D2 ops2) (en_time E2) (en_zstd E2) (en_lz4 E2)
      (\<lambda>s. wc_isConnected ops1 (ws_client s)) (ws_arrives sent ops2) (\<lambda>_ _ _. False)"
    proof
      fix s s' :: "('c1, 'cd, 'dd, 'd1, 'i1) WsTransport" and r :: "('c2, 'cd, 'dd, 'd, 'i) WsTransport" and g
      show "ws_arrives sent ops2 s (vt_on_base (websocket_ops E1 D1 ops1) g s') r = ws_arrives sent ops2 s s' r"
        by (simp add: ws_arrives_def websocket_ops_def ws_on_base_def)
    next
      show "False" if "False" for n n' :: nat and e :: TransportError and r :: "('c2, 'cd, 'dd, 'd, 'i) WsTransport"
        by (rule that)
    next
      fix m :: DataMessage and c :: "'i1 call" and ctx ctx' and s s' :: "('c1, 'cd, 'dd, 'd1, 'i1) WsTransport"
        and r :: "('c2, 'cd, 'dd, 'd, 'i) WsTransport" and c2 :: "'i call"
      assume sends: "vt_sendMessage (websocket_ops E1 D1 ops1) c (Data m) ctx s = Some (Ok ctx', s')"
        and there: "wc_isConnected ops1 (ws_client s)" "ws_arrives sent ops2 s s' r"
        and m: "wf_comp (dm_compHeader m)" "dm_relHeader m = None"
      obtain w where w: "sent (ws_client s') = sent (ws_client s) @ [bw_written W (bw_writeBytes W w (dm_data m))]"
        "decodeMeta R (bw_written W (bw_writeBytes W w (dm_data m))) False False = Ok (data_meta (length (bw_written W w)) m)"
        using ws_sends [OF m there(1), of c ctx] sends by auto
      then obtain c' where "wc_recv ops2 (ws_client r) = (Some (Ok (WsBinary (bw_written W (bw_writeBytes W w (dm_data m))))), c')"
        using there(2) by (auto simp: ws_arrives_def) (metis prod.collapse)
      then have "fst (WsTransport_receiveMessage E2 ops2 (cl_now c2) r) =
          Some (fst (decodePreFinalDataMessage (en_time E2) (en_zstd E2) (en_lz4 E2) (cl_now c2)
            (data_meta (length (bw_written W w)) m) (ws_base r)))"
        using w(2) reader
        by (simp add: WsTransport_receiveMessage_def WsTransport_decode_def Let_def data_meta_def split: prod.split)
      then show "\<exists>res r'. vt_receiveMessage (websocket_ops E2 D2 ops2) c2 r = Some (Some res, r') \<and>
          ((\<exists>now off. res = fst (decodePreFinalDataMessage (en_time E2) (en_zstd E2) (en_lz4 E2) now (data_meta off m)
              (vt_base (websocket_ops E2 D2 ops2) r))) \<or> (\<exists>e. False \<and> res = Err e))"
        by (simp add: websocket_ops_def) (metis prod.collapse)
    qed
  qed
  show "sure_channel_axioms (websocket_ops E1 D1 ops1) (\<lambda>s. wc_isConnected ops1 (ws_client s))"
  proof
    fix m :: DataMessage and c :: "'i1 call" and ctx and s :: "('c1, 'cd, 'dd, 'd1, 'i1) WsTransport"
    assume "wc_isConnected ops1 (ws_client s)" "wf_comp (dm_compHeader m)" "dm_relHeader m = None"
    then show "\<exists>s'. vt_sendMessage (websocket_ops E1 D1 ops1) c (Data m) ctx s = Some (Ok ctx, s')"
      using ws_sends [of m s c ctx] by blast
  qed
qed

context ws_pair
begin

lemmas ws_user_delivers = ws.user_delivers

end

interpretation plain_tcp: tcp_pair le_codec list_reader list_rest list_adv list_writer list_ring fst plain_env plain_env
    list_ring sample_double sample_double
  by unfold_locales (simp_all add: fun_eq_iff)

interpretation sample_websockets: ws_pair le_codec list_reader list_rest list_adv list_writer sample_ws
    "sample_ws\<lparr>wc_isConnected := sc_open\<rparr>" plain_env plain_env sample_double sample_double sc_sent
  by unfold_locales (auto simp: sample_ws_def)

section \<open>Properties\<close>

text \<open>C4 (roundtrip).  What one user sends another user gets: when \<open>sendData\<close> accepts the bytes and the worker gives
  the message to its socket, the socket has sent it, compressed or not; and the socket on the other side of the TCP
  connection, whatever pieces the bytes come in, returns a message for which its worker calls the callback with
  exactly these bytes.  The one exception is a receiver whose buffer is full: it has reached its limit of 1 MiB,
  its write window is below 2048 bytes, and it does not hold the whole frame yet; then the socket
  reports \<open>NoBufferSpace\<close>.\<close>

theorem data_reaches_the_other_user:
  fixes conn :: "('addr, 'sock, 'dur, 'flt, 'pth, 'tls) Connection"
  assumes "tcp_pair C R rest adv W B contents E1 E2"
    and "zstd_laws (en_zstd E2)" "lz4_laws (en_lz4 E2)" "se_zstd X = en_zstd E2" "se_lz4 X = en_lz4 E2"
    and "zstd_laws.matching (en_zstd E2) (bt_zstdCompressor (vt_base (tcp_ops E1 D1 B1) (sk_transport k)))
      (bt_zstdDecompressor (vt_base (tcp_ops E2 D2 B) (sk_transport k2)))"
    and "Connection_sendData data reliable uncompressed tag c1 = (True, c1')"
    and "length data < 2 ^ 30"
    and "length data + 5 \<le> unat (bt_messageSizeLimit (vt_base (tcp_ops E2 D2 B) (sk_transport k2)))"
    and "Socket_sendMessage (tcp_ops E1 D1 B1) T1 X c (last (cn_msgChan c1')) k = Some (res, k')"
    and "tcp_arrives contents (sk_transport k) (sk_transport k') (sk_transport k2)"
    and "data \<noteq> []" and "cb_data (cn_callbacks conn)"
  shows "res = Ok () \<and> (\<exists>res2 k2'. Socket_receiveMessage (tcp_ops E2 D2 B) T2 c2 k2 = Some (Some res2, k2') \<and>
      ((\<exists>m. res2 = Ok m \<and> cn_trace (threadHandleIncomingMessage fmt m conn) = cn_trace conn @ [DataReceived data]) \<or>
       res2 = Err (CustomKind NoBufferSpace) \<and> buffer_full B contents (length data) (fst (sk_transport k2'))))"
proof -
  have "res = Ok () \<and> (\<exists>res2 k2'. Socket_receiveMessage (tcp_ops E2 D2 B) T2 c2 k2 = Some (Some res2, k2') \<and>
      ((\<exists>m. res2 = Ok m \<and> (\<forall>conn :: ('addr, 'sock, 'dur, 'flt, 'pth, 'tls) Connection. data \<noteq> [] \<and> cb_data (cn_callbacks conn) \<longrightarrow>
          cn_trace (threadHandleIncomingMessage fmt m conn) = cn_trace conn @ [DataReceived data])) \<or>
       (\<exists>e. (e = CustomKind NoBufferSpace \<and> buffer_full B contents (length data) (fst (sk_transport k2'))) \<and> res2 = Err e)))"
    by (rule tcp_pair.tcp_user_delivers [OF assms(1-6) TrueI assms(7-11)])
  then show ?thesis
    using assms(12,13) by blast
qed

definition sample_endpoint :: "(nat \<times> bytes TransportResult) list \<Rightarrow>
    (((bytes \<times> nat, bytes, bytes, nat, nat) TcpTransport, nat) networked, unit, nat) Socket" where
  "sample_endpoint coming = Socket_new ((TcpTransport_new list_ring 0)\<lparr>ss_base := (BaseTransport_new 0)
     \<lparr>bt_zstdCompressor := snd (ZstdCompressor_init stored_zstd 3 ZstdCompressor_new),
      bt_zstdDecompressor := snd (ZstdDecompressor_init stored_zstd ZstdDecompressor_new)\<rparr>\<rparr>, coming) ()"

lemma list_ring_never_full: "n \<le> 1000000 \<Longrightarrow> \<not> buffer_full list_ring fst n t"
  by (auto simp: buffer_full_def ring_full_def list_ring_def)

theorem data_reaches_the_other_user_witness:
  "\<exists>m k2'. Socket_receiveMessage (tcp_ops plain_env sample_double list_ring) nat_time sample_call
       (sample_endpoint [(7, Ok [4, 0, 0]), (8, Ok [0, 128, 1, 2, 3])]) = Some (Some (Ok m), k2') \<and>
     cn_trace (threadHandleIncomingMessage (\<lambda>_. []) m
         ((Connection_create nat_time :: (unit, unit, nat, nat, unit, unit) Connection)
           \<lparr>cn_callbacks := \<lparr>cb_connState = False, cb_data = True, cb_stateReset = False, cb_shouldReconnect = None\<rparr>\<rparr>)) =
         [DataReceived [1, 2, 3]]"
proof -
  let ?m = "\<lparr>dm_data = [1, 2, 3], dm_compHeader = None, dm_relHeader = None\<rparr>"
  let ?c1 = "(Connection_create nat_time :: (unit, unit, nat, nat, unit, unit) Connection)\<lparr>cn_connState := Connected\<rparr>"
  let ?om = "\<lparr>om_message = Data ?m, om_reliable = True, om_uncompressed = False, om_tag = []\<rparr>"
  let ?X = "(sample_socket_env :: (_, _, _, unit, _) socket_env)\<lparr>se_zstd := stored_zstd\<rparr>"
  let ?V = "tcp_ops plain_env sample_double list_ring"
  let ?k = "sample_endpoint []" and ?k2 = "sample_endpoint [(7, Ok [4, 0, 0]), (8, Ok [0, 128, 1, 2, 3])]"
  have queued: "Connection_sendData [1, 2, 3] True False [] ?c1 = (True, ?c1\<lparr>cn_msgChan := [?om]\<rparr>)"
    by (simp add: Connection_sendData_def sendMsgToThread_def Connection_create_def Connection_connected_def Connection_state_def)
  obtain t n where k: "sk_transport ?k = (t, n)"
    by (cases "sk_transport ?k")
  obtain t' where t': "vt_sendMessage ?V sample_call (Data ?m) (sendContext ?om (Data ?m)) (t, n) =
      Some (Ok (sendContext ?om (Data ?m)), (t', n))" "ss_wire t' = ss_wire t @ [[4, 0, 0, 0, 128, 1, 2, 3]]"
    using plain_tcp.tcp_sends [of ?m _ sample_call "sendContext ?om (Data ?m)" t n]
    by (auto simp: wf_comp_def wire_comp_def header_bits_plain put32_4)
  have "\<exists>k'. Socket_sendMessage ?V nat_time ?X sample_call ?om ?k = Some (Ok (), k') \<and>
      ss_wire (fst (sk_transport k')) = ss_wire t'"
    using t' k by (simp add: Socket_sendMessage_def compressOutgoing_def shouldCompress_def sk_on_def tcp_ops_def ss_on_base_def)
  then obtain k' where k': "Socket_sendMessage ?V nat_time ?X sample_call (last (cn_msgChan (?c1\<lparr>cn_msgChan := [?om]\<rparr>))) ?k = Some (Ok (), k')"
    "ss_wire (fst (sk_transport k')) = ss_wire t'"
    by auto
  have there: "tcp_arrives fst (sk_transport ?k) (sk_transport k') (sk_transport ?k2)"
    using k'(2) t'(2) k by (auto simp: tcp_arrives_def sample_endpoint_def TcpTransport_new_def list_ring_def flowing_def incoming_def)
  have base: "vt_base ?V (sk_transport (sample_endpoint coming)) = (BaseTransport_new 0)
     \<lparr>bt_zstdCompressor := snd (ZstdCompressor_init stored_zstd 3 ZstdCompressor_new),
      bt_zstdDecompressor := snd (ZstdDecompressor_init stored_zstd ZstdDecompressor_new)\<rparr>" for coming
    by (simp add: sample_endpoint_def tcp_ops_def TcpTransport_new_def)
  have matching: "zstd_laws.matching (en_zstd plain_env) (bt_zstdCompressor (vt_base ?V (sk_transport ?k)))
      (bt_zstdDecompressor (vt_base ?V (sk_transport ?k2)))"
    unfolding base using stored_z.init_matching by simp
  have limit: "length [1, 2, 3 :: u8] + 5 \<le> unat (bt_messageSizeLimit (vt_base ?V (sk_transport ?k2)))"
    unfolding base by (simp add: BaseTransport_new_def unsigned_minus_1_eq_mask mask_eq_exp_minus_1)
  have X: "se_zstd ?X = en_zstd plain_env" "se_lz4 ?X = en_lz4 plain_env" "zstd_laws (en_zstd plain_env)" "lz4_laws (en_lz4 plain_env)"
    using stored_z.zstd_laws_axioms stored_l.lz4_laws_axioms by (simp_all add: sample_socket_env_def)
  have small: "length [1, 2, 3 :: u8] < 2 ^ 30"
    by simp
  let ?conn = "(Connection_create nat_time :: (unit, unit, nat, nat, unit, unit) Connection)
      \<lparr>cn_callbacks := \<lparr>cb_connState = False, cb_data = True, cb_stateReset = False, cb_shouldReconnect = None\<rparr>\<rparr>"
  have "cb_data (cn_callbacks ?conn)" and trace: "cn_trace ?conn = []"
    by (simp_all add: Connection_create_def)
  from data_reaches_the_other_user [OF plain_tcp.tcp_pair_axioms X(3,4,1,2) matching queued small limit k'(1) there _ this(1),
      where ?T2.0 = nat_time and ?c2.0 = sample_call and fmt = "\<lambda>_. []"]
  show ?thesis
    unfolding trace by (auto simp: list_ring_never_full)
qed

theorem data_reaches_the_other_user_over_websocket:
  fixes conn :: "('addr, 'sock, 'dur, 'flt, 'pth, 'tls) Connection"
  assumes "ws_pair C R rest adv W ops1 ops2 E1 E2 sent"
    and "zstd_laws (en_zstd E2)" "lz4_laws (en_lz4 E2)" "se_zstd X = en_zstd E2" "se_lz4 X = en_lz4 E2"
    and "zstd_laws.matching (en_zstd E2) (bt_zstdCompressor (ws_base (sk_transport k))) (bt_zstdDecompressor (ws_base (sk_transport k2)))"
    and "wc_isConnected ops1 (ws_client (sk_transport k))"
    and "Connection_sendData data reliable uncompressed tag c1 = (True, c1')"
    and "length data < 2 ^ 30" and "length data + 5 \<le> unat (bt_messageSizeLimit (ws_base (sk_transport k2)))"
    and "Socket_sendMessage (websocket_ops E1 D1 ops1) T1 X c (last (cn_msgChan c1')) k = Some (res, k')"
    and "ws_arrives sent ops2 (sk_transport k) (sk_transport k') (sk_transport k2)"
    and "data \<noteq> []" and "cb_data (cn_callbacks conn)"
  shows "res = Ok () \<and> (\<exists>m k2'. Socket_receiveMessage (websocket_ops E2 D2 ops2) T2 c2 k2 = Some (Some (Ok m), k2') \<and>
      cn_trace (threadHandleIncomingMessage fmt m conn) = cn_trace conn @ [DataReceived data])"
proof -
  have V: "vt_base (websocket_ops E2 D2 ops2) = ws_base" "vt_base (websocket_ops E1 D1 ops1) = ws_base"
    by (simp_all add: websocket_ops_def)
  have "res = Ok () \<and> (\<exists>res2 k2'. Socket_receiveMessage (websocket_ops E2 D2 ops2) T2 c2 k2 = Some (Some res2, k2') \<and>
      ((\<exists>m. res2 = Ok m \<and> (\<forall>conn :: ('addr, 'sock, 'dur, 'flt, 'pth, 'tls) Connection. data \<noteq> [] \<and> cb_data (cn_callbacks conn) \<longrightarrow>
          cn_trace (threadHandleIncomingMessage fmt m conn) = cn_trace conn @ [DataReceived data])) \<or>
       (\<exists>e. False \<and> res2 = Err e)))"
    by (rule ws_pair.ws_user_delivers [OF assms(1-5) _ assms(7-9) _ assms(11,12)]) (simp_all add: V assms(6,10))
  then show ?thesis
    using assms(13,14) by blast
qed

end
