(* ===== verification/Quic_End_To_End.thy ===== *)
theory Quic_End_To_End
  imports End_To_End
begin

text \<open>
  The QUIC transport as a channel for data (\<open>End_To_End\<close>): what \<open>sendAll\<close> put on the main stream of one
  connection is what the other side reads from its stream.  That QUIC delivers the bytes of a stream
  in order is what ngtcp2 is used for, and stands in \<open>quic_arrives\<close>; that the bytes which ngtcp2 was
  given are those of the messages is proved.
\<close>

section \<open>The channel\<close>

text \<open>The bytes that a stream has accepted: those that ngtcp2 took and those that wait.\<close>

definition stream_accepted :: "('n \<Rightarrow> int \<Rightarrow> bytes) \<Rightarrow> 'q quic_ring_ops \<Rightarrow> int \<Rightarrow> ('n, 'q, 'f) QuicConnection \<Rightarrow> bytes option" where
  "stream_accepted taken B i s = (case qc_conn s of None \<Rightarrow> None
     | Some n \<Rightarrow> map_option (\<lambda>st. taken n i @ both (peekUnsentData B st)) (findStream i s))"

definition quic_arrives :: "('n \<Rightarrow> int \<Rightarrow> bytes) \<Rightarrow> ('n, 'q, 'd1, 'i1, 'f) quic_env \<Rightarrow> ('b \<Rightarrow> bytes) \<Rightarrow>
    (('b1, 'cd, 'dd, 'd1, 'i1, 'n, 'q, 'f) QuicTransport, 'i1) networked \<Rightarrow>
    (('b1, 'cd, 'dd, 'd1, 'i1, 'n, 'q, 'f) QuicTransport, 'i1) networked \<Rightarrow>
    (('b, 'cd, 'dd, 'd, 'i, 'n2, 'q2, 'f2) QuicTransport, 'i) networked \<Rightarrow> bool" where
  "quic_arrives taken Q contents s s' r \<longleftrightarrow> flowing (snd r) \<and>
     (\<exists>before sent later.
        stream_accepted taken (qv_ring Q) (qc_mainStreamId (qt_conn (fst s))) (qt_conn (fst s)) = Some before \<and>
        stream_accepted taken (qv_ring Q) (qc_mainStreamId (qt_conn (fst s))) (qt_conn (fst s')) = Some (before @ sent) \<and>
        contents (ss_recvBuffer (fst r)) @ incoming (snd r) = sent @ later)"

text \<open>The connection has run since it was established, and its main stream has room in its counters.\<close>

definition quic_ready :: "('n, 'q, 'd1, 'i1, 'f) quic_env \<Rightarrow>
    (('b1, 'cd, 'dd, 'd1, 'i1, 'n, 'q, 'f) QuicTransport, 'i1) networked \<Rightarrow> bool" where
  "quic_ready Q s \<longleftrightarrow> (\<exists>s0 n0 acc0 acc. qc_conn s0 = Some n0 \<and> qc_streams s0 = [] \<and>
     (conn_step Q)\<^sup>*\<^sup>* (acc0, s0) (acc, qt_conn (fst s)) \<and> length (acc (qc_mainStreamId (qt_conn (fst s)))) < 2 ^ 63)"

locale quic_pair = stream_laws C R rest adv W B contents + quic: quic_conn_laws Q qcontents taken acked
  for C :: byte_codec and R :: "'r byte_reader" and rest :: "'r \<Rightarrow> bytes" and adv :: "'r \<Rightarrow> nat \<Rightarrow> 'r"
    and W :: "'w byte_writer" and B :: "'b ring_ops" and contents :: "'b \<Rightarrow> bytes"
    and Q :: "('n, 'q, 'd1, 'i1, 'f) quic_env" and qcontents taken acked +
  fixes E1 :: "('r1, 'w, 'cd, 'dd, 'd1, 'i1, 'f1) qn_env" and E2 :: "('r, 'w2, 'cd, 'dd, 'd, 'i, 'f2) qn_env"
    and Q2 :: "('n2, 'q2, 'd, 'i, 'f3) quic_env" and B1 :: "'b1 ring_ops"
    and D1 :: "'g1 double_ops" and D2 :: "'g2 double_ops"
    and others :: "'i1 call \<Rightarrow> (('n, 'q, 'f) QuicConnection \<Rightarrow> ('n, 'q, 'f) QuicConnection) list"
    and others2 :: "'i call \<Rightarrow> (('n2, 'q2, 'f3) QuicConnection \<Rightarrow> ('n2, 'q2, 'f3) QuicConnection) list"
  assumes writer: "en_writer E1 = W" and reader: "en_reader E2 = R"
    and others_run: "f \<in> set (others c) \<Longrightarrow> (conn_step Q)\<^sup>*\<^sup>* (acc, s) (acc, f s)"
begin

lemma quic_sends:
  fixes t :: "('b1, 'cd, 'dd, 'd1, 'i1, 'n, 'q, 'f) QuicTransport"
  assumes m: "wf_comp (dm_compHeader m)" "dm_relHeader m = None"
    and body: "body = header_bits (dm_compHeader m) False False # wire_comp C (dm_compHeader m) @ dm_data m"
    and sent: "vt_sendMessage (quic_ops E1 Q B1 D1 others) c (Data m) ctx (t, n) = Some (Ok ctx', (t', n'))"
    and ready: "quic_ready Q (t, n)" and small: "length body < 2 ^ 33"
    and before: "stream_accepted taken (qv_ring Q) (qc_mainStreamId (qt_conn t)) (qt_conn t) = Some before"
    and after: "stream_accepted taken (qv_ring Q) (qc_mainStreamId (qt_conn t)) (qt_conn t') = Some after"
  shows "after = before @ put32 C (of_nat (length body)) @ body"
proof -
  let ?i = "qc_mainStreamId (qt_conn t)"
  define frame where "frame = put32 C (of_nat (length body)) @ body"
  obtain s0 n0 acc0 acc where start: "qc_conn s0 = Some n0" "qc_streams s0 = []"
    "(conn_step Q)\<^sup>*\<^sup>* (acc0, s0) (acc, qt_conn t)" and room: "length (acc ?i) < 2 ^ 63"
    using ready by (auto simp: quic_ready_def)
  have "encodeFrame E1 (Data m) = Ok frame"
    using encodeFrame_data [OF writer m refl] body by (simp add: frame_def)
  then have sendAll: "QuicConnection_sendAll Q ?i frame (others c) (qt_conn t) = (Some (Ok ()), qt_conn t')"
    using sent
    by (auto simp: quic_ops_def QuicTransport_sendMessage_def Let_def on_quic_def ss_on_tracker_def ss_on_base_def
        prod_eq_iff split: prod.splits option.splits sum.splits)
  have len: "length (acc ?i @ frame) < 2 ^ 64"
    using room small by (simp add: frame_def)
  have "quic.conn_inv acc (qt_conn t)"
    using quic.conn_inv_reachable [OF start(3)] quic.conn_inv_start [OF start(1,2)] by simp
  from quic.conn_inv_books [OF this] have "before = acc ?i"
    using before by (auto simp: stream_accepted_def findStream_def dest!: map_of_SomeD split: option.splits)
  moreover have "\<exists>n. qc_conn (qt_conn t') = Some n \<and> (\<forall>st. (?i, st) \<in> set (qc_streams (qt_conn t')) \<longrightarrow>
      taken n ?i @ both (peekUnsentData (qv_ring Q) st) = acc ?i @ frame)"
    by (rule quic_sendAll_accepts [OF quic.quic_conn_laws_axioms start sendAll len]) (rule others_run)
  then have "after = acc ?i @ frame"
    using after
    by (auto simp: stream_accepted_def findStream_def dest!: map_of_SomeD split: option.splits)
  ultimately show ?thesis
    by (simp add: frame_def)
qed

end

sublocale quic_pair \<subseteq> channel: data_channel "quic_ops E1 Q B1 D1 others" "quic_ops E2 Q2 B D2 others2"
  "en_time E2" "en_zstd E2" "en_lz4 E2" "quic_ready Q" "quic_arrives taken Q contents"
  "\<lambda>n e r. e = CustomKind NoBufferSpace \<and> buffer_full B contents n (fst r)"
proof unfold_locales
  fix s s' :: "(('b1, 'cd, 'dd, 'd1, 'i1, 'n, 'q, 'f) QuicTransport, 'i1) networked"
    and r :: "(('b, 'cd, 'dd, 'd, 'i, 'n2, 'q2, 'f3) QuicTransport, 'i) networked" and g
  show "quic_arrives taken Q contents s (vt_on_base (quic_ops E1 Q B1 D1 others) g s') r = quic_arrives taken Q contents s s' r"
    by (cases s') (simp add: quic_arrives_def quic_ops_def ss_on_base_def)
next
  show "e = CustomKind NoBufferSpace \<and> buffer_full B contents n' (fst r)"
    if "e = CustomKind NoBufferSpace \<and> buffer_full B contents n (fst r)" "n \<le> n'"
    for n n' e and r :: "(('b, 'cd, 'dd, 'd, 'i, 'n2, 'q2, 'f3) QuicTransport, 'i) networked"
    using that buffer_full_mono by blast
next
  fix m :: DataMessage and c ctx s ctx' s' and r :: "(('b, 'cd, 'dd, 'd, 'i, 'n2, 'q2, 'f3) QuicTransport, 'i) networked"
    and c2 :: "'i call"
  assume sent: "vt_sendMessage (quic_ops E1 Q B1 D1 others) c (Data m) ctx s = Some (Ok ctx', s')"
    and ready: "quic_ready Q s" and there: "quic_arrives taken Q contents s s' r"
    and m: "wf_comp (dm_compHeader m)" "dm_relHeader m = None"
    and small: "length (dm_data m) + 5 < 2 ^ 32"
    and limit: "length (dm_data m) + 5 \<le> unat (bt_messageSizeLimit (vt_base (quic_ops E2 Q2 B D2 others2) r))"
  define body where "body = header_bits (dm_compHeader m) False False # wire_comp C (dm_compHeader m) @ dm_data m"
  have len: "length body < 2 ^ 33"
    using small by (cases "dm_compHeader m") (simp_all add: body_def wire_comp_def)
  obtain before new later where "stream_accepted taken (qv_ring Q) (qc_mainStreamId (qt_conn (fst s))) (qt_conn (fst s)) = Some before"
    "stream_accepted taken (qv_ring Q) (qc_mainStreamId (qt_conn (fst s))) (qt_conn (fst s')) = Some (before @ new)"
    and come: "contents (ss_recvBuffer (fst r)) @ incoming (snd r) = new @ later" and flow: "flowing (snd r)"
    using there by (auto simp: quic_arrives_def)
  then have "before @ new = before @ put32 C (of_nat (length body)) @ body"
    using quic_sends [OF m body_def, of c ctx "fst s" "snd s" ctx' "fst s'" "snd s'" before "before @ new"] sent ready len
    by simp
  then have next_bytes: "contents (ss_recvBuffer (fst r)) @ incoming (snd r) = put32 C (of_nat (length body)) @ body @ later"
    using come by simp
  from next_data_frame [OF reader m body_def next_bytes flow small, of "cl_now c2"] limit
  show "\<exists>res r'. vt_receiveMessage (quic_ops E2 Q2 B D2 others2) c2 r = Some (Some res, r') \<and>
      ((\<exists>now off. res = fst (decodePreFinalDataMessage (en_time E2) (en_zstd E2) (en_lz4 E2) now (data_meta off m)
          (vt_base (quic_ops E2 Q2 B D2 others2) r))) \<or>
       (\<exists>e. (e = CustomKind NoBufferSpace \<and> buffer_full B contents (length (dm_data m)) (fst r')) \<and> res = Err e))"
    by (cases r) (auto simp: quic_ops_def QuicTransport_receiveMessage_def)
qed

context quic_pair
begin

lemmas quic_data_reaches_callback = channel.sent_data_reaches_callback

end

interpretation sample_quics: quic_pair le_codec list_reader list_rest list_adv list_writer list_ring fst toy_env
    fst ty_taken ty_acked plain_env plain_env toy_env list_ring sample_double sample_double "\<lambda>_. []" "\<lambda>_. []"
  by unfold_locales (simp_all add: fun_eq_iff)

section \<open>Properties\<close>

text \<open>C17 (roundtrip).  What one user sends another user gets over QUIC, too: when \<open>sendData\<close> accepts the bytes and the
  socket reports that it sent the message, compressed or not, whatever the worker and the users of other streams did
  while the message waited for room, and the main stream delivers, in pieces of any size, what it accepted, then the
  socket on the other side returns a message for which its worker calls the callback with exactly these bytes.  The
  one exception is a receiver whose buffer is full: it has reached its limit of 1 MiB, its write window is below 2048
  bytes, and it does not hold the whole frame yet; then the socket reports \<open>NoBufferSpace\<close>.\<close>

theorem data_reaches_the_other_user_over_quic:
  fixes conn :: "('addr, 'sock, 'dur, 'flt, 'pth, 'tls) Connection"
  assumes "quic_pair C R rest adv W B contents Q qcontents taken acked E1 E2 others"
    and "zstd_laws (en_zstd E2)" "lz4_laws (en_lz4 E2)" "se_zstd X = en_zstd E2" "se_lz4 X = en_lz4 E2"
    and "zstd_laws.matching (en_zstd E2) (bt_zstdCompressor (vt_base (quic_ops E1 Q B1 D1 others) (sk_transport k)))
      (bt_zstdDecompressor (vt_base (quic_ops E2 Q2 B D2 others2) (sk_transport k2)))"
    and "quic_ready Q (sk_transport k)"
    and "Connection_sendData data reliable uncompressed tag c1 = (True, c1')"
    and "length data < 2 ^ 30"
    and "length data + 5 \<le> unat (bt_messageSizeLimit (vt_base (quic_ops E2 Q2 B D2 others2) (sk_transport k2)))"
    and "Socket_sendMessage (quic_ops E1 Q B1 D1 others) T1 X c (last (cn_msgChan c1')) k = Some (Ok (), k')"
    and "quic_arrives taken Q contents (sk_transport k) (sk_transport k') (sk_transport k2)"
    and "data \<noteq> []" and "cb_data (cn_callbacks conn)"
  shows "\<exists>res2 k2'. Socket_receiveMessage (quic_ops E2 Q2 B D2 others2) T2 c2 k2 = Some (Some res2, k2') \<and>
      ((\<exists>m. res2 = Ok m \<and> cn_trace (threadHandleIncomingMessage fmt m conn) = cn_trace conn @ [DataReceived data]) \<or>
       res2 = Err (CustomKind NoBufferSpace) \<and> buffer_full B contents (length data) (fst (sk_transport k2')))"
proof -
  have "\<exists>res2 k2'. Socket_receiveMessage (quic_ops E2 Q2 B D2 others2) T2 c2 k2 = Some (Some res2, k2') \<and>
      ((\<exists>m. res2 = Ok m \<and> (\<forall>conn :: ('addr, 'sock, 'dur, 'flt, 'pth, 'tls) Connection. data \<noteq> [] \<and> cb_data (cn_callbacks conn) \<longrightarrow>
          cn_trace (threadHandleIncomingMessage fmt m conn) = cn_trace conn @ [DataReceived data])) \<or>
       (\<exists>e. (e = CustomKind NoBufferSpace \<and> buffer_full B contents (length data) (fst (sk_transport k2'))) \<and> res2 = Err e))"
    by (rule quic_pair.quic_data_reaches_callback [OF assms(1-12)])
  then show ?thesis
    using assms(13,14) by blast
qed

definition sample_quic_endpoint :: "(nat \<times> bytes TransportResult) list \<Rightarrow>
    (((bytes \<times> nat, bytes, bytes, nat, nat, toy_conn, bytes \<times> nat, nat) QuicTransport, nat) networked, unit, nat) Socket" where
  "sample_quic_endpoint coming = Socket_new (sample_quic\<lparr>ss_base := (BaseTransport_new 0)
     \<lparr>bt_zstdCompressor := snd (ZstdCompressor_init stored_zstd 3 ZstdCompressor_new),
      bt_zstdDecompressor := snd (ZstdDecompressor_init stored_zstd ZstdDecompressor_new)\<rparr>\<rparr>, coming) ()"

lemma sample_quic_conn [simp]: "qt_conn (fst (sk_transport (sample_quic_endpoint coming))) = toy_at quic_main [] [] 0"
  by (simp add: sample_quic_endpoint_def sample_quic_def QuicTransport_new_def)

lemma quic_main_accepted:
  "stream_accepted ty_taken (qv_ring toy_env) 0 (toy_at quic_main unsent [] 0) = Some unsent"
  by (auto simp: stream_accepted_def toy_at_def findStream_def quic_main_def toy_defs peekUnsentData_def both_def)

lemma sample_quic_ready: "quic_ready toy_env (sk_transport (sample_quic_endpoint coming))"
proof -
  have "qc_conn quic_main = Some (toy_new\<lparr>ty_completed := True\<rparr>)" "qc_streams quic_main = []"
    by (simp_all add: quic_main_def toy_start_def QuicConnection_new_def)
  moreover have "(conn_step toy_env)\<^sup>*\<^sup>* (\<lambda>_. [], quic_main) (\<lambda>_. [], toy_at quic_main [] [] 0)"
    using opens [OF quic_main_opens, of "\<lambda>_. []"] by (auto simp: fun_upd_def split: if_splits)
  ultimately show ?thesis
    unfolding quic_ready_def sample_quic_conn by fastforce
qed

theorem data_reaches_the_other_user_over_quic_witness:
  "\<exists>m k2'. Socket_receiveMessage (quic_ops plain_env toy_env list_ring sample_double (\<lambda>_. [])) nat_time sample_call
       (sample_quic_endpoint [(7, Ok [4, 0, 0]), (8, Ok [0, 128, 1, 2, 3])]) = Some (Some (Ok m), k2') \<and>
     cn_trace (threadHandleIncomingMessage (\<lambda>_. []) m
         ((Connection_create nat_time :: (unit, unit, nat, nat, unit, unit) Connection)
           \<lparr>cn_callbacks := \<lparr>cb_connState = False, cb_data = True, cb_stateReset = False, cb_shouldReconnect = None\<rparr>\<rparr>)) =
         [DataReceived [1, 2, 3]]"
proof -
  let ?m = "\<lparr>dm_data = [1, 2, 3], dm_compHeader = None, dm_relHeader = None\<rparr>"
  let ?c1 = "(Connection_create nat_time :: (unit, unit, nat, nat, unit, unit) Connection)\<lparr>cn_connState := Connected\<rparr>"
  let ?om = "\<lparr>om_message = Data ?m, om_reliable = True, om_uncompressed = False, om_tag = []\<rparr>"
  let ?X = "(sample_socket_env :: (_, _, _, unit, _) socket_env)\<lparr>se_zstd := stored_zstd\<rparr>"
  let ?V = "quic_ops plain_env toy_env list_ring sample_double (\<lambda>_. [])"
  let ?k = "sample_quic_endpoint []" and ?k2 = "sample_quic_endpoint [(7, Ok [4, 0, 0]), (8, Ok [0, 128, 1, 2, 3])]"
  have queued: "Connection_sendData [1, 2, 3] True False [] ?c1 = (True, ?c1\<lparr>cn_msgChan := [?om]\<rparr>)"
    by (simp add: Connection_sendData_def sendMsgToThread_def Connection_create_def Connection_connected_def Connection_state_def)
  obtain t n where k: "sk_transport ?k = (t, n)"
    by (cases "sk_transport ?k")
  have conn: "qt_conn t = toy_at quic_main [] [] 0"
    using sample_quic_conn [of "[]"] k by simp
  have "encodeFrame plain_env (Data ?m) = Ok [4, 0, 0, 0, 128, 1, 2, 3]"
    using ref_stream.encodeFrame_data [of plain_env ?m] by (simp add: wf_comp_def wire_comp_def header_bits_plain put32_4)
  moreover have "qc_mainStreamId (toy_at quic_main [] [] 0) = 0"
    by (simp add: toy_at_def quic_main_def)
  ultimately obtain t' where t': "vt_sendMessage ?V sample_call (Data ?m) (sendContext ?om (Data ?m)) (t, n) =
      Some (Ok (sendContext ?om (Data ?m)), (t', n))" "qt_conn t' = toy_at quic_main [4, 0, 0, 0, 128, 1, 2, 3] [] 0"
    using quic_main_sendAll conn
    by (simp add: quic_ops_def QuicTransport_sendMessage_def on_quic_def ss_on_tracker_def ss_on_base_def)
  have "\<exists>k'. Socket_sendMessage ?V nat_time ?X sample_call ?om ?k = Some (Ok (), k') \<and>
      qt_conn (fst (sk_transport k')) = qt_conn t'"
    using t' k by (simp add: Socket_sendMessage_def compressOutgoing_def shouldCompress_def sk_on_def quic_ops_def ss_on_base_def)
  then obtain k' where k': "Socket_sendMessage ?V nat_time ?X sample_call (last (cn_msgChan (?c1\<lparr>cn_msgChan := [?om]\<rparr>))) ?k = Some (Ok (), k')"
    "qt_conn (fst (sk_transport k')) = toy_at quic_main [4, 0, 0, 0, 128, 1, 2, 3] [] 0"
    using t'(2) by auto
  have "contents_of (ss_recvBuffer (fst (sk_transport ?k2))) @ incoming (snd (sk_transport ?k2)) = [4, 0, 0, 0, 128, 1, 2, 3]"
    if "contents_of = fst" for contents_of :: "bytes \<times> nat \<Rightarrow> bytes"
    by (simp add: that sample_quic_endpoint_def sample_quic_def QuicTransport_new_def list_ring_def incoming_def)
  moreover have "flowing (snd (sk_transport ?k2))"
    by (simp add: sample_quic_endpoint_def flowing_def)
  moreover have "qc_mainStreamId (qt_conn (fst (sk_transport ?k))) = 0"
    by (simp add: toy_at_def quic_main_def)
  ultimately have there: "quic_arrives ty_taken toy_env fst (sk_transport ?k) (sk_transport k') (sk_transport ?k2)"
    by (simp add: quic_arrives_def quic_main_accepted k'(2))
  have base: "vt_base ?V (sk_transport (sample_quic_endpoint coming)) = (BaseTransport_new 0)
     \<lparr>bt_zstdCompressor := snd (ZstdCompressor_init stored_zstd 3 ZstdCompressor_new),
      bt_zstdDecompressor := snd (ZstdDecompressor_init stored_zstd ZstdDecompressor_new)\<rparr>" for coming
    by (simp add: sample_quic_endpoint_def quic_ops_def)
  have matching: "zstd_laws.matching (en_zstd plain_env) (bt_zstdCompressor (vt_base ?V (sk_transport ?k)))
      (bt_zstdDecompressor (vt_base ?V (sk_transport ?k2)))"
    unfolding base using stored_z.init_matching by simp
  have limit: "length [1, 2, 3 :: u8] + 5 \<le> unat (bt_messageSizeLimit (vt_base ?V (sk_transport ?k2)))"
    unfolding base by (simp add: BaseTransport_new_def unsigned_minus_1_eq_mask mask_eq_exp_minus_1)
  have X: "se_zstd ?X = en_zstd plain_env" "se_lz4 ?X = en_lz4 plain_env" "zstd_laws (en_zstd plain_env)" "lz4_laws (en_lz4 plain_env)"
    using stored_z.zstd_laws_axioms stored_l.lz4_laws_axioms by (simp_all add: sample_socket_env_def)
  have small: "length [1, 2, 3 :: u8] < 2 ^ 30"
    by simp
  let ?conn = "(Connection_create nat_time :: (unit, unit, nat, nat, unit, unit) Connection)
      \<lparr>cn_callbacks := \<lparr>cb_connState = False, cb_data = True, cb_stateReset = False, cb_shouldReconnect = None\<rparr>\<rparr>"
  have "cb_data (cn_callbacks ?conn)" and trace: "cn_trace ?conn = []"
    by (simp_all add: Connection_create_def)
  from data_reaches_the_other_user_over_quic [OF sample_quics.quic_pair_axioms X(3,4,1,2) matching sample_quic_ready
      queued small limit k'(1) there _ this(1), where ?T2.0 = nat_time and ?c2.0 = sample_call and fmt = "\<lambda>_. []"]
  show ?thesis
    unfolding trace by (auto simp: list_ring_never_full)
qed

end
