(* ===== verification/Keepalives.thy ===== *)
theory Keepalives
  imports Qunet_Socket
begin

text \<open>
  Keepalives: a server that does not answer them is noticed.  A transport counts the keepalives that
  it sent since the last answer (\<open>m_unackedKeepalives\<close>); its timer sends one when it is due, and gives
  up when more than five are unanswered.  The locale \<open>keepalive_laws\<close> states this of a transport, the
  UDP, TCP and WebSocket transports are instances of it.  The QUIC transport sends no keepalives.
\<close>

section \<open>What the timers promise\<close>

abbreviation vt_unacked :: "('s, 'cd, 'dd, 'd, 'i) transport_ops \<Rightarrow> 's \<Rightarrow> nat" where
  "vt_unacked V s \<equiv> bt_unackedKeepalives (vt_base V s)"

text \<open>\<open>due c s\<close>: the timer that fires in this call finds that a keepalive is to be sent.\<close>

locale keepalive_laws = transport_laws V for V :: "('s, 'cd, 'dd, 'd, 'i) transport_ops" +
  fixes due :: "'i call \<Rightarrow> 's \<Rightarrow> bool"
  assumes send_counts: "vt_sendMessage V c m ctx s = Some (r, s') \<Longrightarrow> vt_unacked V s \<le> vt_unacked V s'"
    and timer_counts: "vt_handleTimerExpiry V c s = Some (Ok (), s') \<Longrightarrow>
      vt_unacked V s \<le> 5 \<and> vt_unacked V s + (if due c s then 1 else 0) \<le> vt_unacked V s'"
    and timer_gives_up: "5 < vt_unacked V s \<Longrightarrow> vt_handleTimerExpiry V c s = Some (Err (CustomKind TimedOut), s)"

text \<open>The calls of a socket to which nothing comes, and the number of timers at which a keepalive was
  due and that succeeded.\<close>

inductive silent_run :: "('s, 'cd, 'dd, 'd, 'i) transport_ops \<Rightarrow> ('i call \<Rightarrow> 's \<Rightarrow> bool) \<Rightarrow> ('d, 'i, 'f) time_ops \<Rightarrow>
    ('r, 'cd, 'dd, 'a, 'p) socket_env \<Rightarrow> nat \<Rightarrow> ('s, 'a, 'p) Socket \<Rightarrow> ('s, 'a, 'p) Socket \<Rightarrow> bool"
  for V due T X where
  silent_start: "silent_run V due T X 0 k k"
| silent_send: "silent_run V due T X n k k' \<Longrightarrow> Socket_sendMessage V T X c outgoing k' = Some (r, k'') \<Longrightarrow>
    silent_run V due T X n k k''"
| silent_timer: "silent_run V due T X n k k' \<Longrightarrow> Socket_handleTimerExpiry V c k' = Some (Ok (), k'') \<Longrightarrow>
    silent_run V due T X (n + (if due c (sk_transport k') then 1 else 0)) k k''"

lemma Socket_sendMessage_cases:
  assumes "Socket_sendMessage V T X c outgoing k = Some (r, k')"
  obtains (unsent) "k' = k"
  | (sent) m ctx r' s' where "vt_sendMessage V c m ctx (sk_transport k) = Some (r', s')"
      "sk_transport k' = s' \<or> (\<exists>hb ctx. sk_transport k' = vt_on_base V (logOutgoingMessage T (cl_now c) hb ctx) s')"
proof -
  define message where "message = (case om_message outgoing of
      Data msg \<Rightarrow> unwrap (compressOutgoing X (bt_zstdCompressor (vt_base V (sk_transport k)))
          (om_uncompressed outgoing) msg) (\<lambda>msg. Ok (Data msg))
    | m \<Rightarrow> Ok m)"
  note sending = assms [unfolded Socket_sendMessage_def message_def [symmetric] Let_def]
  show ?thesis
  proof (cases message)
    case (Inl e)
    then show ?thesis
      using sending unsent by simp
  next
    case (Inr m)
    show ?thesis
    proof (cases "headerByte m :: u8 TransportResult")
      case (Inl e)
      then show ?thesis
        using sending \<open>message = Inr m\<close> unsent by simp
    next
      case (Inr hb)
      then obtain r' s' where s': "vt_sendMessage V c m (sendContext outgoing m) (sk_transport k) = Some (r', s')"
        using sending \<open>message = Inr m\<close> by (cases "vt_sendMessage V c m (sendContext outgoing m) (sk_transport k)") auto
      then have "sk_transport k' = s' \<or> (\<exists>hb ctx. sk_transport k' = vt_on_base V (logOutgoingMessage T (cl_now c) hb ctx) s')"
      proof (cases r')
        case (Inl e)
        then show ?thesis
          using sending \<open>message = Inr m\<close> Inr s' by auto
      next
        case (Inr ctx')
        then have "sk_transport k' = vt_on_base V (logOutgoingMessage T (cl_now c) hb ctx') s'"
          using sending \<open>message = Inr m\<close> \<open>headerByte m = Inr hb\<close> s' by (auto simp: sk_on_def)
        then show ?thesis
          by blast
      qed
      then show ?thesis
        using s' sent by blast
    qed
  qed
qed

lemma logOutgoing_unacked [simp]: "bt_unackedKeepalives (logOutgoingMessage T now hb ctx b) = bt_unackedKeepalives b"
  by (simp add: logOutgoingMessage_def)

context keepalive_laws
begin

lemma socket_send_counts:
  assumes "Socket_sendMessage V T X c outgoing k = Some (r, k')"
  shows "vt_unacked V (sk_transport k) \<le> vt_unacked V (sk_transport k')"
  using assms
proof (cases rule: Socket_sendMessage_cases)
  case (sent m ctx r' s')
  then show ?thesis
    using send_counts [of c m ctx "sk_transport k" r' s'] by auto
qed simp

lemma silent_counts:
  "silent_run V due T X n k k' \<Longrightarrow> vt_unacked V (sk_transport k) + n \<le> vt_unacked V (sk_transport k') \<and> n \<le> 6"
proof (induction rule: silent_run.induct)
  case (silent_send n k k' c outgoing r k'')
  then show ?case
    using socket_send_counts [of T X c outgoing k' r k''] by simp
next
  case (silent_timer n k k' c k'')
  then obtain s' where "vt_handleTimerExpiry V c (sk_transport k') = Some (Ok (), s')" "sk_transport k'' = s'"
    by (auto simp: Socket_handleTimerExpiry_def)
  then show ?case
    using timer_counts [of c "sk_transport k'" s'] silent_timer.IH by (auto split: if_splits)
qed simp

text \<open>At most six timers succeed, and after six the next reports the loss.\<close>

lemma silence_is_noticed:
  assumes "silent_run V due T X n k k'"
  shows "n \<le> 6" and "n = 6 \<Longrightarrow> Socket_handleTimerExpiry V c k' = Some (Err (CustomKind TimedOut), k')"
  using silent_counts [OF assms] timer_gives_up [of "sk_transport k'" c]
  by (simp_all add: Socket_handleTimerExpiry_def)

end

section \<open>The stream transports\<close>

lemma stampKeepalive_unacked:
  "bt_unackedKeepalives (snd (stampKeepalive now stamp m b)) =
     bt_unackedKeepalives b + (case m of KeepaliveMessage _ \<Rightarrow> 1 | _ \<Rightarrow> 0)"
  by (simp add: stampKeepalive_def Let_def updateLastActivity_def updateLastSentKeepalive_def split: QunetMessage.split)

abbreviation ss_unacked :: "('b, 'cd, 'dd, 'd, 'i, 'z) StreamTransport_scheme \<Rightarrow> nat" where
  "ss_unacked s \<equiv> bt_unackedKeepalives (ss_base s)"

lemma stream_sendMessage_unacked: "ss_unacked (snd (stream_sendMessage E now m s)) = ss_unacked s"
  by (auto simp: stream_sendMessage_def sendAll_def Let_def step_then_def ss_on_tracker_def ss_on_base_def
      split: sum.split prod.split)

lemma TcpTransport_sendMessage_unacked:
  "ss_unacked (snd (TcpTransport_sendMessage E now stamp m ctx s)) =
     ss_unacked s + (case m of KeepaliveMessage _ \<Rightarrow> 1 | _ \<Rightarrow> 0)"
proof -
  obtain m' b where mb: "stampKeepalive now stamp m (ss_base s) = (m', b)"
    by (meson surj_pair)
  obtain r s' where s': "stream_sendMessage E now m' (s\<lparr>ss_base := b\<rparr>) = (r, s')"
    by (meson surj_pair)
  have "ss_unacked s' = bt_unackedKeepalives b"
    using stream_sendMessage_unacked [of E now m' "s\<lparr>ss_base := b\<rparr>"] s' by simp
  then show ?thesis
    using mb s' stampKeepalive_unacked [of now stamp m "ss_base s"]
    by (cases r) (simp_all add: TcpTransport_sendMessage_def)
qed

lemma TcpTransport_sendPlain_unacked:
  "ss_unacked (snd (TcpTransport_sendPlain E now stamp (KeepaliveMessage n) rel s)) = ss_unacked s + 1"
proof -
  let ?ctx = "SentMessageContext_new\<lparr>cx_reliable := rel\<rparr>"
  obtain r s' where s': "TcpTransport_sendMessage E now stamp (KeepaliveMessage n) ?ctx s = (r, s')"
    by (meson surj_pair)
  then show ?thesis
    using TcpTransport_sendMessage_unacked [of E now stamp "KeepaliveMessage n" ?ctx s]
    by (auto simp: TcpTransport_sendPlain_def step_then_def ss_on_base_def split: sum.split prod.split)
qed

interpretation tcp_keepalives: keepalive_laws "tcp_ops E D B" "\<lambda>_ _. True" for E D B
proof unfold_locales
  fix c m ctx s r s'
  assume "vt_sendMessage (tcp_ops E D B) c m ctx s = Some (r, s')"
  then show "vt_unacked (tcp_ops E D B) s \<le> vt_unacked (tcp_ops E D B) s'"
    using TcpTransport_sendMessage_unacked [of E "cl_now c" "cl_stamp c" m ctx "fst s"]
    by (auto simp: tcp_ops_def with_net_def split: prod.splits)
next
  fix c s s'
  assume ok: "vt_handleTimerExpiry (tcp_ops E D B) c s = Some (Ok (), s')"
  then have few: "ss_unacked (fst s) \<le> 5"
    by (auto simp: tcp_ops_def TcpTransport_handleTimerExpiry_def BaseTransport_handleTimerExpiry_def with_net_def
        split: prod.splits if_splits)
  then show "vt_unacked (tcp_ops E D B) s \<le> 5 \<and>
      vt_unacked (tcp_ops E D B) s + (if True then 1 else 0) \<le> vt_unacked (tcp_ops E D B) s'"
    using ok TcpTransport_sendPlain_unacked [of E "cl_now c" "cl_stamp c" 0 True "fst s"]
    by (auto simp: tcp_ops_def TcpTransport_handleTimerExpiry_def BaseTransport_handleTimerExpiry_def with_net_def
        split: prod.splits)
next
  fix c s
  assume "5 < vt_unacked (tcp_ops E D B) s"
  then show "vt_handleTimerExpiry (tcp_ops E D B) c s = Some (Err (CustomKind TimedOut), s)"
    by (auto simp: tcp_ops_def TcpTransport_handleTimerExpiry_def BaseTransport_handleTimerExpiry_def split: prod.splits)
qed


abbreviation ws_unacked :: "('c, 'cd, 'dd, 'd, 'i) WsTransport \<Rightarrow> nat" where
  "ws_unacked s \<equiv> bt_unackedKeepalives (ws_base s)"

lemma ws_on_unacked [simp]:
  "ws_unacked (ws_on_tracker g s) = ws_unacked s"
  "ws_unacked (ws_on_base (logOutgoingMessage T now hb ctx) s) = ws_unacked s"
  by (simp_all add: ws_on_tracker_def ws_on_base_def)

lemma ws_call_unacked [keeps_intros]: "ws_unacked s = x \<Longrightarrow> keeps ws_unacked x (ws_call f s)"
  by (simp add: ws_call_def split: prod.split)

lemma WsTransport_sendMessage_unacked:
  "ws_unacked (snd (WsTransport_sendMessage E ops now stamp m ctx s)) =
     ws_unacked s + (case m of KeepaliveMessage _ \<Rightarrow> 1 | _ \<Rightarrow> 0)"
proof -
  obtain m' b where mb: "stampKeepalive now stamp m (ws_base s) = (m', b)"
    by (meson surj_pair)
  then have b: "bt_unackedKeepalives b = ws_unacked s + (case m of KeepaliveMessage _ \<Rightarrow> 1 | _ \<Rightarrow> 0)"
    using stampKeepalive_unacked [of now stamp m "ws_base s"] by simp
  have "keeps ws_unacked (bt_unackedKeepalives b) (WsTransport_sendMessage E ops now stamp m ctx s)"
    using mb unfolding WsTransport_sendMessage_def Let_def by (auto intro!: keeps_intros)
  then show ?thesis
    using b by (simp add: keeps_def)
qed

lemma WsTransport_sendPlain_unacked:
  "ws_unacked (snd (WsTransport_sendPlain E ops now stamp (KeepaliveMessage n) rel s)) = ws_unacked s + 1"
proof -
  let ?ctx = "SentMessageContext_new\<lparr>cx_reliable := rel\<rparr>"
  obtain r s' where s': "WsTransport_sendMessage E ops now stamp (KeepaliveMessage n) ?ctx s = (r, s')"
    by (meson surj_pair)
  then show ?thesis
    using WsTransport_sendMessage_unacked [of E ops now stamp "KeepaliveMessage n" ?ctx s]
    by (auto simp: WsTransport_sendPlain_def step_then_def split: sum.split prod.split)
qed

context ws_client_laws
begin

lemma ws_keepalive_laws: "keepalive_laws (websocket_ops E D ops) (\<lambda>_ _. True)"
proof (rule keepalive_laws.intro)
  show "transport_laws (websocket_ops E D ops)"
    by (rule closing_laws.axioms(1) [OF websocket_transport])
  show "keepalive_laws_axioms (websocket_ops E D ops) (\<lambda>_ _. True)"
  proof
    fix c m ctx s r s'
    assume "vt_sendMessage (websocket_ops E D ops) c m ctx s = Some (r, s')"
    then show "vt_unacked (websocket_ops E D ops) s \<le> vt_unacked (websocket_ops E D ops) s'"
      using WsTransport_sendMessage_unacked [of E ops "cl_now c" "cl_stamp c" m ctx s]
      by (simp add: websocket_ops_def)
  next
    fix c s s'
    assume ok: "vt_handleTimerExpiry (websocket_ops E D ops) c s = Some (Ok (), s')"
    then have "ws_unacked s \<le> 5"
      by (auto simp: websocket_ops_def WsTransport_handleTimerExpiry_def BaseTransport_handleTimerExpiry_def split: if_splits)
    then show "vt_unacked (websocket_ops E D ops) s \<le> 5 \<and>
        vt_unacked (websocket_ops E D ops) s + (if True then 1 else 0) \<le> vt_unacked (websocket_ops E D ops) s'"
      using ok WsTransport_sendPlain_unacked [of E ops "cl_now c" "cl_stamp c" 0 True s]
      by (simp add: websocket_ops_def WsTransport_handleTimerExpiry_def BaseTransport_handleTimerExpiry_def)
  next
    fix c s
    assume "5 < vt_unacked (websocket_ops E D ops) s"
    then show "vt_handleTimerExpiry (websocket_ops E D ops) c s = Some (Err (CustomKind TimedOut), s)"
      by (simp add: websocket_ops_def WsTransport_handleTimerExpiry_def BaseTransport_handleTimerExpiry_def)
  qed
qed

end

interpretation websocket_keepalives: keepalive_laws "websocket_ops E D sample_ws" "\<lambda>_ _. True" for E D
  by (rule sample_ws.ws_keepalive_laws)

section \<open>The UDP transport\<close>

abbreviation udp_unacked :: "('cd, 'dd, 'd, 'i, 'f) UdpTransport \<Rightarrow> nat" where
  "udp_unacked s \<equiv> bt_unackedKeepalives (ut_base s)"

lemma udp_unacked_updates [simp]:
  "udp_unacked (on_base (updateLastActivity now) s) = udp_unacked s"
  "udp_unacked (on_base (updateLastSentKeepalive now) s) = udp_unacked s + 1"
  "udp_unacked (on_base (logOutgoingMessage T now hb ctx) s) = udp_unacked s"
  "udp_unacked (on_tracker g s) = udp_unacked s"
  by (simp_all add: on_tracker_def on_base_def updateLastActivity_def updateLastSentKeepalive_def)

lemma socketSend_unacked [keeps_intros]: "udp_unacked s = x \<Longrightarrow> keeps udp_unacked x (socketSend E data s)"
  by (simp add: socketSend_def Let_def split: sum.split)

lemma rememberUnacked_unacked [keeps_intros]:
  "udp_unacked s = x \<Longrightarrow> keeps udp_unacked x (rememberUnacked now rel msg s)"
  by (simp add: rememberUnacked_def Let_def split: prod.split)

lemma sendFragment_unacked [keeps_intros]:
  "udp_unacked s = x \<Longrightarrow> keeps udp_unacked x (sendFragment E now msg k off i s)"
  unfolding sendFragment_def Let_def by (intro keeps_intros) simp_all

lemma sendFragments_unacked [keeps_intros]:
  "udp_unacked s = x \<Longrightarrow> io_keeps udp_unacked x (sendFragments E now msg k off i s)"
  by (rule sendFragments_keeps) (auto intro: keeps_intros)

lemma doSendUnfragmentedData_unacked [keeps_intros]:
  "udp_unacked s = x \<Longrightarrow> io_keeps udp_unacked x (doSendUnfragmentedData E now message ctx retrans s)"
  unfolding doSendUnfragmentedData_def Let_def
  by (auto split: QunetMessage.split prod.split intro!: keeps_intros)

lemma logOutgoing_unacked_udp [keeps_intros]:
  "udp_unacked s = x \<Longrightarrow> keeps udp_unacked x (logOutgoing E now msg ctx s)"
  unfolding logOutgoing_def by (intro keeps_intros) simp_all

lemma retransmitDue_unacked [keeps_intros]:
  "udp_unacked s = x \<Longrightarrow> io_keeps udp_unacked x (retransmitDue E now s)"
  by (rule retransmitDue_keeps) (auto intro: keeps_intros)

lemma sendUrgentAcks_unacked [keeps_intros]:
  "udp_unacked s = x \<Longrightarrow> io_keeps udp_unacked x (sendUrgentAcks E now s)"
  unfolding sendUrgentAcks_def Let_def takeOutgoingAcks_def
  by (auto split: prod.split intro!: keeps_intros)

abbreviation keepalives_in :: "QunetMessage \<Rightarrow> nat" where
  "keepalives_in m \<equiv> (case m of KeepaliveMessage _ \<Rightarrow> 1 | _ \<Rightarrow> 0)"

lemma sendControl_unacked [keeps_intros]:
  "udp_unacked s + keepalives_in m = x \<Longrightarrow> keeps udp_unacked x (sendControl E now stamp m s)"
  unfolding sendControl_def Let_def
  by (auto split: QunetMessage.splits prod.split intro!: keeps_intros)

lemma UdpTransport_sendMessage_unacked:
  "io_keeps udp_unacked (udp_unacked s + keepalives_in m) (UdpTransport_sendMessage E now stamp m ctx s)"
  unfolding UdpTransport_sendMessage_def Let_def takeOutgoingAcks_def
  by (auto split: QunetMessage.split prod.split intro!: keeps_intros)

lemma UdpTransport_sendPlain_unacked:
  "io_keeps udp_unacked (udp_unacked s + 1) (UdpTransport_sendPlain E now stamp (KeepaliveMessage n) rel s)"
  using UdpTransport_sendMessage_unacked [of s "KeepaliveMessage n"]
  unfolding UdpTransport_sendPlain_def by (auto intro!: keeps_intros)

text \<open>After the retransmissions and the acknowledgements, which count as activity.\<close>

definition udp_keepalive_due :: "('r, 'w, 'cd, 'dd, 'd, 'i, 'f) qn_env \<Rightarrow> 'i call \<Rightarrow>
    (('cd, 'dd, 'd, 'i, 'f) UdpTransport, 'i) networked \<Rightarrow> bool" where
  "udp_keepalive_due E c s =
     (case io_then (retransmitDue E (cl_now c) (fst s)) (\<lambda>_. sendUrgentAcks E (cl_now c)) of
        Some (Inr _, t) \<Rightarrow> tm_isZero (en_time E) (untilKeepalive (en_time E) (cl_now c) t)
      | _ \<Rightarrow> False)"

lemma udp_timer_counts:
  assumes "UdpTransport_handleTimerExpiry E (cl_now c) (cl_stamp c) t = Some (Ok (), t')"
  shows "udp_unacked t \<le> 5" and "udp_unacked t + (if udp_keepalive_due E c (t, n) then 1 else 0) \<le> udp_unacked t'"
proof -
  let ?now = "cl_now c"
  have ok: "BaseTransport_handleTimerExpiry (ut_base t) = Ok ()"
    using assms by (auto simp: UdpTransport_handleTimerExpiry_def io_then_eq_Inr)
  then show "udp_unacked t \<le> 5"
    by (auto simp: BaseTransport_handleTimerExpiry_def split: if_splits)
  obtain t1 where t1: "retransmitDue E ?now t = Some (Ok (), t1)"
    using assms ok by (auto simp: UdpTransport_handleTimerExpiry_def io_then_eq_Inr)
  obtain t2 where t2: "sendUrgentAcks E ?now t1 = Some (Ok (), t2)"
    using assms ok t1 by (auto simp: UdpTransport_handleTimerExpiry_def io_then_eq_Inr)
  have counted: "udp_unacked t1 = udp_unacked t" "udp_unacked t2 = udp_unacked t1"
    using io_keepsD [OF retransmitDue_unacked [OF refl] t1] io_keepsD [OF sendUrgentAcks_unacked [OF refl] t2] by simp_all
  show "udp_unacked t + (if udp_keepalive_due E c (t, n) then 1 else 0) \<le> udp_unacked t'"
  proof (cases "tm_isZero (en_time E) (untilKeepalive (en_time E) ?now t2)")
    case True
    then have "UdpTransport_sendPlain E ?now (cl_stamp c) (KeepaliveMessage 0) False t2 = Some (Ok (), t')"
      using assms ok t1 t2 by (simp add: UdpTransport_handleTimerExpiry_def)
    from io_keepsD [OF UdpTransport_sendPlain_unacked this] show ?thesis
      using counted by simp
  next
    case False
    then show ?thesis
      using assms ok t1 t2 counted by (simp add: UdpTransport_handleTimerExpiry_def udp_keepalive_due_def)
  qed
qed

interpretation udp_keepalives: keepalive_laws "udp_ops E D" "udp_keepalive_due E" for E D
proof unfold_locales
  fix c m ctx s r s'
  assume "vt_sendMessage (udp_ops E D) c m ctx s = Some (r, s')"
  then show "vt_unacked (udp_ops E D) s \<le> vt_unacked (udp_ops E D) s'"
    using UdpTransport_sendMessage_unacked [where s = "fst s" and m = m and E = E and ctx = ctx]
    by (auto simp: udp_ops_def with_net_def io_keeps_def keeps_def split: prod.splits)
next
  fix c s s'
  assume "vt_handleTimerExpiry (udp_ops E D) c s = Some (Ok (), s')"
  then show "vt_unacked (udp_ops E D) s \<le> 5 \<and>
      vt_unacked (udp_ops E D) s + (if udp_keepalive_due E c s then 1 else 0) \<le> vt_unacked (udp_ops E D) s'"
    using udp_timer_counts(1) [of E c "fst s" "fst s'"] udp_timer_counts(2) [of E c "fst s" "fst s'" "snd s"]
    by (auto simp: udp_ops_def with_net_def split: prod.splits)
next
  fix c s
  assume "5 < vt_unacked (udp_ops E D) s"
  then show "vt_handleTimerExpiry (udp_ops E D) c s = Some (Err (CustomKind TimedOut), s)"
    by (auto simp: udp_ops_def UdpTransport_handleTimerExpiry_def BaseTransport_handleTimerExpiry_def split: prod.splits)
qed

section \<open>QUIC, and a transport of any kind\<close>

text \<open>A QUIC transport does not count what it sends, and its timer sends nothing.\<close>

lemma on_quic_unacked: "on_quic m s = (r, s') \<Longrightarrow> ss_unacked s' = ss_unacked s"
  by (auto simp: on_quic_def)

lemma QuicTransport_sendMessage_unacked: "ss_unacked (snd (QuicTransport_sendMessage E Q now waits m ctx s)) = ss_unacked s"
  by (auto simp: QuicTransport_sendMessage_def Let_def ss_on_tracker_def ss_on_base_def dest: on_quic_unacked
      split: sum.split prod.split option.split)

interpretation quic_keepalives: keepalive_laws "quic_ops E Q B D others" "\<lambda>_ _. False" for E Q B D others
proof unfold_locales
  fix c m ctx s r s'
  assume "vt_sendMessage (quic_ops E Q B D others) c m ctx s = Some (r, s')"
  then show "vt_unacked (quic_ops E Q B D others) s \<le> vt_unacked (quic_ops E Q B D others) s'"
    using QuicTransport_sendMessage_unacked [of E Q "cl_now c" "others c" m ctx "fst s"]
    by (auto simp: quic_ops_def split: prod.splits option.splits)
qed (auto simp: quic_ops_def QuicTransport_handleTimerExpiry_def BaseTransport_handleTimerExpiry_def split: prod.splits if_splits)

definition any_due :: "('i call \<Rightarrow> 'u \<Rightarrow> bool) \<Rightarrow> ('i call \<Rightarrow> 't \<Rightarrow> bool) \<Rightarrow> ('i call \<Rightarrow> 'q \<Rightarrow> bool) \<Rightarrow> ('i call \<Rightarrow> 'w \<Rightarrow> bool) \<Rightarrow>
    'i call \<Rightarrow> ('u, 't, 'q, 'w) any_transport \<Rightarrow> bool" where
  "any_due du dp dq dw c = case_any_transport (du c) (dp c) (dq c) (dw c)"

lemma through_pair [simp]: "through f (r, s) = (r, f s)"
  by (simp add: through_def)

lemma dispatch_kinds:
  "vt_base (dispatch U P Q W) (UdpT u) = vt_base U u"
  "vt_base (dispatch U P Q W) (TcpT t) = vt_base P t"
  "vt_base (dispatch U P Q W) (QuicT q) = vt_base Q q"
  "vt_base (dispatch U P Q W) (WsT w) = vt_base W w"
  "vt_sendMessage (dispatch U P Q W) c m ctx (UdpT u) = map_option (through UdpT) (vt_sendMessage U c m ctx u)"
  "vt_sendMessage (dispatch U P Q W) c m ctx (TcpT t) = map_option (through TcpT) (vt_sendMessage P c m ctx t)"
  "vt_sendMessage (dispatch U P Q W) c m ctx (QuicT q) = map_option (through QuicT) (vt_sendMessage Q c m ctx q)"
  "vt_sendMessage (dispatch U P Q W) c m ctx (WsT w) = map_option (through WsT) (vt_sendMessage W c m ctx w)"
  "vt_handleTimerExpiry (dispatch U P Q W) c (UdpT u) = map_option (through UdpT) (vt_handleTimerExpiry U c u)"
  "vt_handleTimerExpiry (dispatch U P Q W) c (TcpT t) = map_option (through TcpT) (vt_handleTimerExpiry P c t)"
  "vt_handleTimerExpiry (dispatch U P Q W) c (QuicT q) = map_option (through QuicT) (vt_handleTimerExpiry Q c q)"
  "vt_handleTimerExpiry (dispatch U P Q W) c (WsT w) = map_option (through WsT) (vt_handleTimerExpiry W c w)"
  by (simp_all add: dispatch_def)

lemma dispatch_keepalive_laws:
  assumes "keepalive_laws U du" and "keepalive_laws P dp" and "keepalive_laws Q dq" and "keepalive_laws W dw"
  shows "keepalive_laws (dispatch U P Q W) (any_due du dp dq dw)"
proof (rule keepalive_laws.intro)
  show "transport_laws (dispatch U P Q W)"
    by (intro dispatch_laws assms [THEN keepalive_laws.axioms(1)])
  note send = assms [THEN keepalive_laws.send_counts] and timer = assms [THEN keepalive_laws.timer_counts]
    and gives_up = assms [THEN keepalive_laws.timer_gives_up]
  show "keepalive_laws_axioms (dispatch U P Q W) (any_due du dp dq dw)"
  proof
    fix c m ctx s r s'
    assume "vt_sendMessage (dispatch U P Q W) c m ctx s = Some (r, s')"
    then show "vt_unacked (dispatch U P Q W) s \<le> vt_unacked (dispatch U P Q W) s'"
      by (cases s) (auto simp: dispatch_kinds dest: send)
  next
    fix c s s'
    assume "vt_handleTimerExpiry (dispatch U P Q W) c s = Some (Ok (), s')"
    then show "vt_unacked (dispatch U P Q W) s \<le> 5 \<and>
        vt_unacked (dispatch U P Q W) s + (if any_due du dp dq dw c s then 1 else 0) \<le> vt_unacked (dispatch U P Q W) s'"
      by (cases s) (auto simp: dispatch_kinds any_due_def dest: timer)
  next
    fix c s
    assume "5 < vt_unacked (dispatch U P Q W) s"
    then show "vt_handleTimerExpiry (dispatch U P Q W) c s = Some (Err (CustomKind TimedOut), s)"
      by (cases s) (auto simp: dispatch_kinds gives_up through_def)
  qed
qed

abbreviation keepalive_due where
  "keepalive_due E \<equiv> any_due (udp_keepalive_due E) (\<lambda>_ _. True) (\<lambda>_ _. False) (\<lambda>_ _. True)"

lemma all_keepalive_laws: "ws_client_laws ops \<Longrightarrow> keepalive_laws (all_transports E D B Q others ops) (keepalive_due E)"
  by (intro dispatch_keepalive_laws udp_keepalives.keepalive_laws_axioms tcp_keepalives.keepalive_laws_axioms
      quic_keepalives.keepalive_laws_axioms ws_client_laws.ws_keepalive_laws)

interpretation any_keepalives: keepalive_laws "all_transports E D B Q others sample_ws" "keepalive_due E" for E D B Q others
  by (rule all_keepalive_laws [OF sample_ws.ws_client_laws_axioms])

section \<open>A WebSocket to which nothing comes\<close>

lemma sample_timer:
  assumes "sc_open (ws_client w)" and "ws_unacked w \<le> 5"
  shows "\<exists>w'. Socket_handleTimerExpiry sample_transports sample_call (Socket_new (WsT w) () :: (sample_state, unit, nat) Socket) =
      Some (Ok (), Socket_new (WsT w') ()) \<and> sc_open (ws_client w') \<and> ws_unacked w' = ws_unacked w + 1"
proof -
  obtain w' where w': "WsTransport_sendPlain plain_env sample_ws 5 6 (KeepaliveMessage 0) True w = (Ok (), w')" "sc_open (ws_client w')"
    using assms(1) by (simp add: WsTransport_sendPlain_def WsTransport_sendMessage_def stampKeepalive_def Let_def
        encodeControlMsg_def encodeControlHeader_def encode_defs ws_call_def ws_on_tracker_def ws_on_base_def)
  then have "ws_unacked w' = ws_unacked w + 1"
    using WsTransport_sendPlain_unacked [of plain_env sample_ws 5 6 0 True w] by simp
  then show ?thesis
    using w' assms(2)
    by (simp add: Socket_handleTimerExpiry_def dispatch_kinds websocket_ops_def WsTransport_handleTimerExpiry_def
        BaseTransport_handleTimerExpiry_def through_def Socket_new_def)
qed

lemma sample_silence:
  "n \<le> 6 \<Longrightarrow> \<exists>w. silent_run sample_transports (keepalive_due plain_env) nat_time sample_socket_env n
     (Socket_new (sample_websocket []) () :: (sample_state, unit, nat) Socket) (Socket_new (WsT w) ()) \<and>
     sc_open (ws_client w) \<and> ws_unacked w = n"
proof (induction n)
  case 0
  show ?case
    unfolding sample_websocket_def
    by (rule exI [of _ "WsTransport_new 0 \<lparr>sc_open = True, sc_sent = [], sc_coming = []\<rparr>"])
      (simp add: silent_start WsTransport_new_def BaseTransport_new_def)
next
  case (Suc n)
  then obtain w where w: "silent_run sample_transports (keepalive_due plain_env) nat_time sample_socket_env n
      (Socket_new (sample_websocket []) ()) (Socket_new (WsT w) ())" "sc_open (ws_client w)" "ws_unacked w = n"
    by auto
  obtain w' where w': "Socket_handleTimerExpiry sample_transports sample_call (Socket_new (WsT w) () :: (sample_state, unit, nat) Socket) =
      Some (Ok (), Socket_new (WsT w') ())" "sc_open (ws_client w')" "ws_unacked w' = Suc n"
    using sample_timer [OF w(2)] w(3) Suc.prems by auto
  have "keepalive_due plain_env sample_call (sk_transport (Socket_new (WsT w) () :: (sample_state, unit, nat) Socket))"
    by (simp add: any_due_def)
  then show ?case
    using silent_timer [OF w(1) w'(1)] w'(2,3) by auto
qed

end
