(* ===== verification/Connection_Sockets.thy ===== *)
theory Connection_Sockets
  imports Connection_Safety Keepalives
begin

text \<open>
  The worker of a connection over the sockets of \<open>Qunet_Socket\<close>: the events that resume the worker
  are those that the operations of its socket produce.  A session survives every lost connection
  from which the worker recovers by reconnecting, and a server that has gone silent is noticed by
  the worker.
\<close>

section \<open>The events that a socket produces\<close>

fun from_socket :: "('ip, 'd, 'i, 's) WorkerEvent \<Rightarrow> bool" where
  "from_socket (SocketAnswered _) = True"
| "from_socket (MessageSent _ _) = True"
| "from_socket (TimerHandled _ _) = True"
| "from_socket (MessageReceived _ _) = True"
| "from_socket (ReceiveWaits _) = True"
| "from_socket (SocketClosing _ _) = True"
| "from_socket (SocketClosed _) = True"
| "from_socket _ = False"

text \<open>\<open>threadConnectSocket\<close> calls \<open>Socket::connect\<close>, or \<open>Socket::reconnect\<close> with the old socket when the
  attempt is not stateless.  What the user does, and the events that do not come from a socket, are free.\<close>

inductive socket_event :: "('s, 'cd, 'dd, 'd, 'i) transport_ops \<Rightarrow> ('d, 'i, 'f) time_ops \<Rightarrow>
    ('r, 'cd, 'dd, 'a, 'p) socket_env \<Rightarrow> ('ip, 'd, 'i, 'f, 'p, ('s, 'a, 'p) Socket) Event \<Rightarrow>
    ('a, ('s, 'a, 'p) Socket, 'd, 'i, 'f, 'p, 'x) World \<Rightarrow> bool"
  for V T X where
  by_send: "cn_socket c = Some k \<Longrightarrow> Socket_sendMessage V T X t (hd (cn_msgChan c)) k = Some (res, k') \<Longrightarrow>
    socket_event V T X (Worker (MessageSent k' res)) (AwaitEvent, c)"
| by_timer: "cn_socket c = Some k \<Longrightarrow> Socket_handleTimerExpiry V t k = Some (res, k') \<Longrightarrow>
    socket_event V T X (Worker (TimerHandled k' res)) (AwaitEvent, c)"
| by_receive: "cn_socket c = Some k \<Longrightarrow> Socket_receiveMessage V T t k = Some (Some msg, k') \<Longrightarrow>
    socket_event V T X (Worker (MessageReceived k' msg)) (AwaitEvent, c)"
| by_waiting: "cn_socket c = Some k \<Longrightarrow> Socket_receiveMessage V T t k = Some (None, k') \<Longrightarrow>
    socket_event V T X (Worker (ReceiveWaits k')) (AwaitEvent, c)"
| by_connect: "Socket_connect V T X clocks t transport opts qdb = Some (Ok (), Some k') \<Longrightarrow>
    socket_event V T X (Worker (SocketAnswered (Ok k'))) (AwaitSocket addr type rest errors opts qdb, c)"
| by_failed_connect: "Socket_connect V T X clocks t transport opts qdb = Some (Inl e, left) \<Longrightarrow>
    socket_event V T X (Worker (SocketAnswered (Inl e))) (AwaitSocket addr type rest errors opts qdb, c)"
| by_reconnect: "cn_socket c = Some k \<Longrightarrow>
    Socket_reconnect V T clocks t transport opts k = Some (Ok (), older, Some k') \<Longrightarrow>
    socket_event V T X (Worker (SocketAnswered (Ok k'))) (AwaitReconnect opts False timeout, c)"
| by_failed_reconnect: "cn_socket c = Some k \<Longrightarrow>
    Socket_reconnect V T clocks t transport opts k = Some (Inl e, older, left) \<Longrightarrow>
    socket_event V T X (Worker (SocketAnswered (Inl e))) (AwaitReconnect opts False timeout, c)"
| by_stateless: "Socket_connect V T X clocks t transport opts qdb = Some (Ok (), Some k') \<Longrightarrow>
    socket_event V T X (Worker (SocketAnswered (Ok k'))) (AwaitReconnect opts True timeout, c)"
| by_failed_stateless: "Socket_connect V T X clocks t transport opts qdb = Some (Inl e, left) \<Longrightarrow>
    socket_event V T X (Worker (SocketAnswered (Inl e))) (AwaitReconnect opts True timeout, c)"
| by_close: "cn_socket c = Some k \<Longrightarrow> Socket_close V t k = (res, k') \<Longrightarrow>
    socket_event V T X (Worker (SocketClosing k' res)) (AwaitClose, c)"
| by_closed: "cn_socket c = Some k \<Longrightarrow>
    socket_event V T X (Worker (SocketClosed (Socket_isClosed V k))) (AwaitClosed, c)"
| by_worker: "\<not> from_socket ev \<Longrightarrow> socket_event V T X (Worker ev) w"
| by_user: "socket_event V T X (User call) w"

inductive_cases timer_eventE: "socket_event V T X (Worker (TimerHandled k' res)) (AwaitEvent, c)"

text \<open>A new session begins: a connection is made, or one is made again without the state of the old.\<close>

fun new_session :: "('ip, 'd, 'i, 'f, 'p, 's) Event \<Rightarrow> ('a, 's, 'd, 'i, 'f, 'p, 'x) World \<Rightarrow> bool" where
  "new_session (Worker (SocketAnswered (Inr _))) (AwaitSocket _ _ _ _ _ _, _) = True"
| "new_session (Worker (SocketAnswered (Inr _))) (AwaitReconnect _ stateless _, _) = stateless"
| "new_session _ _ = False"

section \<open>Where the socket of a connection comes from\<close>

fun event_socket :: "('ip, 'd, 'i, 's) WorkerEvent \<Rightarrow> 's option" where
  "event_socket (SocketAnswered (Inr sock)) = Some sock"
| "event_socket (MessageSent sock _) = Some sock"
| "event_socket (TimerHandled sock _) = Some sock"
| "event_socket (MessageReceived sock _) = Some sock"
| "event_socket (ReceiveWaits sock) = Some sock"
| "event_socket (SocketClosing sock _) = Some sock"
| "event_socket _ = None"

text \<open>\<open>among S c\<close>: the connection has no socket or one of \<open>S\<close>.\<close>

definition among :: "'s set \<Rightarrow> ('a, 's, 'd, 'f, 'p, 'x) Connection \<Rightarrow> bool" where
  "among S c \<longleftrightarrow> set_option (cn_socket c) \<subseteq> S"

named_theorems among_intros \<open>the operations take no other socket\<close>

lemma among_simps [simp]:
  "among S (setState st c) = among S c"
  "among S (newWaiter c) = among S c"
  "among S (resetConnectionState c)"
  "among S (threadCancelConnection c)"
  "among S (c\<lparr>cn_socket := Some sock\<rparr>) = (sock \<in> S)"
  "among S (c\<lparr>cn_msgChan := m\<rparr>) = among S c"
  "among S (c\<lparr>cn_lastError := e\<rparr>) = among S c"
  "among S (c\<lparr>cn_connectChan := ch\<rparr>) = among S c"
  "among S (c\<lparr>cn_data := d\<rparr>) = among S c"
  "among S (c\<lparr>cn_trace := tr\<rparr>) = among S c"
  "among S (c\<lparr>cn_connectHostname := h\<rparr>) = among S c"
  "among S (c\<lparr>cn_connectPath := h\<rparr>) = among S c"
  "among S (c\<lparr>cn_settings := s\<rparr>) = among S c"
  "among S (c\<lparr>cn_disconnectReq := b\<rparr>) = among S c"
  "among S (c\<lparr>cn_disconnectNotified := b\<rparr>) = among S c"
  by (simp_all add: among_def threadCancelConnection_def)

lemma onFatalError_among [among_intros]: "among S c \<Longrightarrow> among S (onFatalError err c)"
  by (auto simp: onFatalError_def Let_def among_def dest: ask_frame(2) split: prod.splits)

lemma onConnectionError_among [among_intros]: "among S c \<Longrightarrow> among S (onConnectionError success err c)"
  by (simp add: onConnectionError_def onFatalError_among)

lemma handleIncoming_among [among_intros]: "among S c \<Longrightarrow> among S (threadHandleIncomingMessage fmt msg c)"
  by (cases msg) (simp_all add: onFatalError_among)

lemma establish_among:
  assumes "threadEstablishConn E addr type c = (r, c')"
  shows "among S c' = among S c"
proof -
  obtain tls c1 where tls: "(if ve_tlsSupport E \<and> requiresTls type then initTlsContext E type c else (Ok (), c)) = (tls, c1)"
    by fastforce
  have "cn_socket c1 = cn_socket c"
    using tls initTls_frame(2) [of E type c tls c1] by (auto split: if_splits)
  then show ?thesis
    using assms by (auto simp: threadEstablishConn_def tls Let_def among_def split: if_splits sum.splits failure.splits)
qed

lemma connectNext_among [among_intros]: "among S c \<Longrightarrow> among S (snd (connectNext E rest errors c))"
proof (induction rest arbitrary: errors c)
  case (Cons a rest)
  obtain addr type where a: "a = (addr, type)"
    by (cases a)
  obtain r c' where est: "threadEstablishConn E addr type c = (r, c')"
    by fastforce
  have "among S c'"
    using Cons.prems establish_among [OF est] by simp
  then show ?case
    using est a by (simp add: Cons.IH split: sum.split failure.split)
qed simp

lemma threadFinalConnect_among [among_intros]: "among S c \<Longrightarrow> among S (snd (threadFinalConnect E addrs c))"
  by (auto simp: threadFinalConnect_def Let_def intro!: connectNext_among split: sum.split)

lemma finishPings_among [among_intros]: "among S c \<Longrightarrow> among S (snd (finishPings E run c))"
  unfolding finishPings_def Let_def by (rule threadFinalConnect_among)

lemma pingLoop_among [among_intros]: "among S c \<Longrightarrow> among S (snd (pingLoop E now run c))"
  by (auto simp: pingLoop_def Let_def intro!: finishPings_among)

lemma connectWithIps_among [among_intros]: "among S c \<Longrightarrow> among S (snd (threadConnectWithIps E now addrs type v6 c))"
  by (auto simp: threadConnectWithIps_def threadPingCandidates_def Let_def intro!: threadFinalConnect_among pingLoop_among)

lemma connectIp_among [among_intros]: "among S c \<Longrightarrow> among S (snd (threadConnectIp E now addr type c))"
  unfolding threadConnectIp_def by (intro connectWithIps_among) simp

lemma connectDomain_among [among_intros]: "among S c \<Longrightarrow> among S (snd (threadConnectDomain hostname port type c))"
  by (simp add: threadConnectDomain_def Let_def split: option.split)

lemma threadConnect_among [among_intros]: "among S c \<Longrightarrow> among S (snd (threadConnect E now url c))"
  by (auto simp: threadConnect_def Let_def intro!: connectIp_among connectDomain_among
      split: sum.split UrlParseError.split option.split UrlValue.split)

lemma onSrvAnswer_among [among_intros]: "among S c \<Longrightarrow> among S (snd (onSrvAnswer hostname type settings res c))"
  by (simp add: onSrvAnswer_def split: sum.split prod.split)

lemma onIpsAnswer_among [among_intros]:
  "among S c \<Longrightarrow> among S (snd (onIpsAnswer E now settings hostname port type a aaaa aFirst c))"
  by (simp add: onIpsAnswer_def Let_def connectWithIps_among)

lemma onConnectResult_among [among_intros]: "among S (snd pc) \<Longrightarrow> among S (snd (onConnectResult pc))"
  by (cases pc rule: onConnectResult.cases) (simp_all add: onFatalError_among)

lemma onSocketResult_among [among_intros]:
  "among S c \<Longrightarrow> set_option (event_socket (SocketAnswered res)) \<subseteq> S \<Longrightarrow>
   among S (snd (onSocketResult E res addr type rest errors c))"
  by (auto simp: onSocketResult_def intro!: connectNext_among split: sum.split failure.split)

lemma onSocketOutcome_among [among_intros]:
  "among S c \<Longrightarrow> (\<And>v. among S (handle v c)) \<Longrightarrow> among S (snd (onSocketOutcome success res handle c))"
  by (auto simp: onSocketOutcome_def intro: onConnectionError_among split: sum.split failure.split)

lemma loopReconnecting_among [among_intros]: "among S c \<Longrightarrow> among S (snd (loopReconnecting E c))"
  by (simp add: loopReconnecting_def Let_def split: sum.split)

lemma workerThreadLoop_among [among_intros]: "among S c \<Longrightarrow> among S (snd (workerThreadLoop E c))"
  by (auto simp: workerThreadLoop_def intro: loopReconnecting_among split: ConnectionState.split)

lemma onReconnectResult_among [among_intros]:
  "among S c \<Longrightarrow> set_option (event_socket (SocketAnswered res)) \<subseteq> S \<Longrightarrow>
   among S (snd (onReconnectResult stateless timeout res c))"
  by (auto simp: onReconnectResult_def Let_def split: sum.split failure.split)

lemma resume_among:
  assumes "resume E ev (task, c) = Some w" and "among S c" and "set_option (event_socket ev) \<subseteq> S"
  shows "among S (snd w)"
  using assms
  by (cases task; cases ev)
    (auto simp: resume_def orCancelled_def Let_def intro!: among_intros
      split: list.splits if_splits sum.splits failure.splits)

lemma callUser_among: "among S c \<Longrightarrow> among S (callUser call c)"
  by (cases call) (auto simp: Connection_connect_def Connection_disconnect_def sendMsgToThread_def
      simulateConnectionDrop_def intro!: among_intros)

section \<open>The session of a connection\<close>

context transport_laws
begin

lemma event_socket_session:
  assumes "socket_event V T X (Worker ev) (task, c)" and "\<not> new_session (Worker ev) (task, c)"
    and "event_socket ev = Some k'"
  shows "\<exists>k. cn_socket c = Some k \<and> sk_session k' = sk_session k"
  using assms(1)
proof cases
  case (by_send k t res k'')
  then show ?thesis
    using assms(3) sendMessage_session by auto
next
  case (by_timer k t res k'')
  then show ?thesis
    using assms(3) step_session [OF step_timer] by auto
next
  case (by_receive k t msg k'')
  then show ?thesis
    using assms(3) step_session [OF step_receive] by auto
next
  case (by_waiting k t k'')
  then show ?thesis
    using assms(3) step_session [OF step_receive] by auto
next
  case (by_reconnect k clocks t transport opts older k'' timeout)
  then show ?thesis
    using assms(3) reconnect_takes_session by auto
next
  case (by_close k t res k'')
  then show ?thesis
    using assms(3) step_session [OF step_close] by auto
next
  case by_worker
  then show ?thesis
    using assms(3) by (cases ev) auto
qed (use assms in auto)

lemma happen_session:
  assumes "happen E ev (task, c) = Some w"
    and "socket_event V T X ev (task, c)" and "\<not> new_session ev (task, c)"
    and "among {k. sk_session k = x} c"
  shows "among {k. sk_session k = x} (snd w)"
proof (cases ev)
  case (Worker wev)
  have "sk_session k' = x" if "event_socket wev = Some k'" for k'
    using event_socket_session [of T X wev task c k'] assms that Worker by (auto simp: among_def)
  then show ?thesis
    using resume_among [of E wev task c w] assms Worker by (auto simp: among_def)
next
  case (User call)
  then show ?thesis
    using assms callUser_among by auto
qed

lemma run_session:
  assumes "reaches E (\<lambda>ev w. socket_event V T X ev w \<and> \<not> new_session ev w) w w'"
    and "among {k. sk_session k = x} (snd w)"
  shows "among {k. sk_session k = x} (snd w')"
  using assms
proof (induction rule: reaches.induct)
  case (move w1 ev w2)
  then show ?case
    using happen_session [of E ev "fst w1" "snd w1" w2 T X x] by simp
qed

end

text \<open>C15 (invariant).  The session of a connection (its id, its size limit, its compressors with their
  dictionaries) survives whatever happens to the connection: messages, timers, errors, lost connections, failed
  attempts and any number of reconnects, over transports of any kind, whatever the user does meanwhile.  As long as no
  new session begins (by connecting, or reconnecting without the state of the old), the worker has the old session or
  no socket.\<close>

theorem session_survives:
  assumes "ws_client_laws ops"
    and "reaches E (\<lambda>ev w. socket_event (all_transports N D B Q others ops) T X ev w \<and> \<not> new_session ev w)
      (task, c) (task', c')"
    and "cn_socket c = Some k" and "cn_socket c' = Some k'"
  shows "vt_session (all_transports N D B Q others ops) (sk_transport k') =
    vt_session (all_transports N D B Q others ops) (sk_transport k)"
  using transport_laws.run_session [OF all_transports_laws [OF assms(1)] assms(2),
      of "vt_session (all_transports N D B Q others ops) (sk_transport k)"] assms(3,4)
  by (simp add: among_def)

section \<open>A lost connection\<close>

text \<open>The sockets of the samples have the address \<open>()\<close>.\<close>

definition local_conn :: "(unit, unit, nat, nat, nat, unit) conn_env" where
  "local_conn = \<lparr>ve_addr = \<lparr>ad_make = (\<lambda>_ _. ()), ad_setPort = (\<lambda>_ _. ()), ad_isV4 = (\<lambda>_. True), ad_isV6 = (\<lambda>_. False),
       ad_v4Bits = (\<lambda>_. 0), ad_v6Octets = (\<lambda>_. []), ad_toString = (\<lambda>_. ''local''), ad_parseIp = (\<lambda>_. Some ()),
       ad_isIpv6Text = (\<lambda>_. False)\<rparr>,
     ve_time = nat_time, ve_absDiff = (\<lambda>a b. if a < b then b - a else a - b), ve_instantPlus = (+), ve_instantLess = (<),
     ve_tls = ve_tls sample_conn, ve_tlsSupport = True, ve_quicSupport = True, ve_wsSupport = True,
     ve_qsoxSuccess = ''success'', ve_fmt = (\<lambda>n. decimal (unat n))\<rparr>"

text \<open>A connection that is established over the socket \<open>k\<close>.\<close>

definition over_socket :: "(sample_state, unit, nat) Socket \<Rightarrow>
    (unit, (sample_state, unit, nat) Socket, nat, nat, nat, unit) Connection" where
  "over_socket k = (Connection_create nat_time)\<lparr>cn_connState := Connected, cn_socket := Some k,
     cn_data := ConnectionData_new\<lparr>cd_address := Some (), cd_connType := WebSocket\<rparr>\<rparr>"

lemma over_socket_simps [simp]:
  "cn_socket (over_socket k) = Some k" "(over_socket k)\<lparr>cn_socket := Some k\<rparr> = over_socket k"
  by (simp_all add: over_socket_def)

lemma local_conn_fields [simp]:
  "ve_time local_conn = nat_time" "ve_tlsSupport local_conn" "ve_quicSupport local_conn" "ve_wsSupport local_conn"
  "ve_qsoxSuccess local_conn = ''success''"
  by (simp_all add: local_conn_def)

lemma any_reconnect:
  fixes options :: "(unit, nat, nat, 'x) TransportOptions" and k :: "(sample_state, unit, nat) Socket"
  assumes "10000000 \<le> to_timeout options"
  shows "\<exists>older k'. Socket_reconnect sample_transports nat_time sample_clocks sample_call
     (Ok (sample_websocket [WsBinary [14]])) options k = Some (Ok (), older, Some k')"
proof -
  define w where "w = ws_on_base (\<lambda>b. b\<lparr>bt_tracker := onConnected 3
        (setEnabled (do_recordStats (co_debug (to_connOptions options))) (onStartedConnection 1 (StatTracker_new 1)))\<rparr>)
      (WsTransport_new 0 \<lparr>sc_open = True, sc_sent = [], sc_coming = [WsBinary [14]]\<rparr>
        :: (sample_client, bytes, bytes, nat, nat) WsTransport)"
  have cs: "createSocket sample_transports nat_time sample_clocks sample_call
      (Ok (sample_websocket [WsBinary [14]])) options =
      ((Ok (Socket_new (WsT w) (), to_timeout options - 3), None) ::
        ((sample_state, unit, nat) Socket \<times> nat) TransportResult \<times> sample_state option)"
    using assms by (simp add: createSocket_def sample_clocks_def sample_websocket_def w_def tm_elapsed_def Let_def)
  have "sc_open (ws_client w)" "sc_coming (ws_client w) = [WsBinary [14]]"
    by (simp_all add: w_def ws_on_base_def WsTransport_new_def)
  from sample_reconnect_answer [OF this, of 5 6 "bt_connectionId (vt_base sample_transports (sk_transport k))"] obtain w' where
    "WsTransport_performReconnect plain_env sample_ws 5 6 (bt_connectionId (vt_base sample_transports (sk_transport k))) w =
      (Some (Ok ReconnectSuccessMessage), w')"
    by blast
  then show ?thesis
    by (simp add: Socket_reconnect_def cs Socket_new_def through_def onReconnectSuccess_def
        closeUnlessOk_def Let_def split: prod.split)
qed

text \<open>The timer reports that the server has gone silent, and the worker reconnects.\<close>

definition silent_socket :: "(sample_state, unit, nat) Socket" where
  "silent_socket = sk_on (vt_on_base sample_transports (\<lambda>b. b\<lparr>bt_unackedKeepalives := 6\<rparr>)) (sample_socket 77)"

lemma silent_timer: "Socket_handleTimerExpiry sample_transports sample_call silent_socket = Some (Err (CustomKind TimedOut), silent_socket)"
proof -
  have "5 < vt_unacked sample_transports (sk_transport silent_socket)"
    by (simp add: silent_socket_def sk_on_def sample_socket_def sample_websocket_def ws_on_base_def)
  from any_keepalives.timer_gives_up [OF this, of sample_call] show ?thesis
    by (simp add: Socket_handleTimerExpiry_def)
qed

lemma sample_loss:
  "\<exists>c' k'. reaches local_conn (\<lambda>ev w. socket_event sample_transports nat_time sample_socket_env ev w \<and> \<not> new_session ev w)
      (AwaitEvent, over_socket silent_socket) (AtLoop, c') \<and> cn_socket c' = Some k' \<and> cn_connState c' = Connected"
proof -
  let ?allowed = "\<lambda>ev w. socket_event sample_transports nat_time sample_socket_env ev w \<and> \<not> new_session ev w"
  define c1 where "c1 = onFatalError (TransportFailed (CustomKind TimedOut)) (over_socket silent_socket)"
  have c1: "cn_connState c1 = Reconnecting" "cn_socket c1 = Some silent_socket"
      "cn_data c1 = ConnectionData_new\<lparr>cd_address := Some (), cd_connType := WebSocket\<rparr>" "\<not> cn_disconnectReq c1"
      "cn_settings c1 = ConnectionSettings_new nat_time"
    by (simp_all add: c1_def onFatalError_def Let_def askShouldReconnect_def over_socket_def Connection_create_def
        Connection_state_def setState_def)
  let ?first = "(Worker (TimerHandled silent_socket (Err (CustomKind TimedOut)))
    :: (unit, nat, nat, nat, nat, (sample_state, unit, nat) Socket) Event)"
  have "?allowed ?first (AwaitEvent, over_socket silent_socket)"
    by (simp add: by_timer [OF _ silent_timer])
  moreover have "happen local_conn ?first (AwaitEvent, over_socket silent_socket) = Some (AtLoop, c1)"
    by (simp add: resume_def onSocketOutcome_def onConnectionError_def c1_def)
  ultimately have r1: "reaches local_conn ?allowed (AwaitEvent, over_socket silent_socket) (AtLoop, c1)"
    by (rule reaches.move [OF reaches.stay])
  let ?c = "c1\<lparr>cn_data := (cn_data c1)\<lparr>cd_reconnectAttempt := 1\<rparr>\<rparr>"
  obtain opts where opts: "makeOptions local_conn () WebSocket True ?c = Ok opts" "to_timeout opts = cs_connTimeout (cn_settings c1)"
    by (simp add: makeOptions_def getTlsForConnection_def)
  define c2 where "c2 = newWaiter ?c"
  have "threadTryReconnect local_conn False ?c = Ok opts"
    using c1(2,3) opts(1) by (simp add: threadTryReconnect_def threadConnectSocket_def)
  then have "workerThreadLoop local_conn c1 = (AwaitReconnect opts False (tm_fromSecs nat_time 5), c2)"
    using c1 by (simp add: workerThreadLoop_def Connection_state_def loopReconnecting_def Let_def c2_def
        ConnectionData_new_def word_le_nat_alt word_less_nat_alt)
  then have "happen local_conn (Worker Start) (AtLoop, c1) = Some (AwaitReconnect opts False (tm_fromSecs nat_time 5), c2)"
    by (simp add: resume_def)
  moreover have "?allowed (Worker Start) (AtLoop, c1)"
    by (simp add: by_worker)
  ultimately have r2: "reaches local_conn ?allowed (AwaitEvent, over_socket silent_socket)
      (AwaitReconnect opts False (tm_fromSecs nat_time 5), c2)"
    using reaches.move [OF r1] by blast
  obtain older k' where k': "Socket_reconnect sample_transports nat_time sample_clocks sample_call
     (Ok (sample_websocket [WsBinary [14]])) opts silent_socket = Some (Ok (), older, Some k')"
    using any_reconnect [of opts silent_socket] opts(2) c1(5) by (auto simp: ConnectionSettings_new_def)
  have "?allowed (Worker (SocketAnswered (Ok k'))) (AwaitReconnect opts False (tm_fromSecs nat_time 5), c2)"
    using c1(2) by (simp add: c2_def by_reconnect [OF _ k'])
  moreover obtain c3 where "happen local_conn (Worker (SocketAnswered (Ok k')))
      (AwaitReconnect opts False (tm_fromSecs nat_time 5), c2) = Some (AtLoop, c3)"
    "cn_socket c3 = Some k'" "cn_connState c3 = Connected"
    by (simp add: resume_def orCancelled_def onReconnectResult_def Let_def)
  ultimately show ?thesis
    using reaches.move [OF r2] by blast
qed

theorem session_survives_witness:
  "\<exists>c' k'. reaches local_conn (\<lambda>ev w. socket_event sample_transports nat_time sample_socket_env ev w \<and> \<not> new_session ev w)
      (AwaitEvent, over_socket silent_socket) (AtLoop, c') \<and> cn_socket c' = Some k' \<and> cn_connState c' = Connected \<and>
    fst (vt_session sample_transports (sk_transport k')) = 77"
proof -
  obtain c' k' where r: "reaches local_conn (\<lambda>ev w. socket_event sample_transports nat_time sample_socket_env ev w \<and> \<not> new_session ev w)
      (AwaitEvent, over_socket silent_socket) (AtLoop, c')" "cn_socket c' = Some k'" "cn_connState c' = Connected"
    using sample_loss by blast
  have "fst (vt_session sample_transports (sk_transport silent_socket)) = 77"
    by (simp add: silent_socket_def sk_on_def sample_socket_def sample_websocket_def ws_on_base_def session_def setConnectionId_def)
  then show ?thesis
    using session_survives [OF sample_ws.ws_client_laws_axioms r(1) _ r(2), of silent_socket] r by auto
qed

section \<open>A silent server\<close>

definition wants_reconnect :: "'a ConnectionError \<Rightarrow> ('a, 's, 'd, 'f, 'p, 'x) Connection \<Rightarrow> bool" where
  "wants_reconnect err c = (case cb_shouldReconnect (cn_callbacks c) of Some cb \<Rightarrow> cb err | None \<Rightarrow> True)"

lemma onFatalError_lost:
  assumes "cn_connState c = Connected"
  shows "cn_lastError (onFatalError err c) = err"
    and "wants_reconnect err c \<Longrightarrow> cn_connState (onFatalError err c) = Reconnecting \<and> cn_socket (onFatalError err c) = cn_socket c"
    and "\<not> wants_reconnect err c \<Longrightarrow> cn_connState (onFatalError err c) = Disconnected \<and> cn_socket (onFatalError err c) = None"
  using assms
  by (auto simp: onFatalError_def Let_def askShouldReconnect_def Connection_state_def wants_reconnect_def
      resetConnectionState_def split: option.splits)

lemma timer_loss:
  assumes "cn_connState c = Connected" and "cn_socket c = Some k"
  defines "err \<equiv> TransportFailed (CustomKind TimedOut)"
  shows "\<exists>c'. resume E (TimerHandled k (Err (CustomKind TimedOut))) (AwaitEvent, c) = Some (AtLoop, c') \<and>
    cn_lastError c' = err \<and>
    (if wants_reconnect err c then cn_connState c' = Reconnecting \<and> cn_socket c' = Some k
     else cn_connState c' = Disconnected \<and> cn_socket c' = None)"
proof -
  let ?c = "c\<lparr>cn_socket := Some k\<rparr>"
  have "resume E (TimerHandled k (Err (CustomKind TimedOut))) (AwaitEvent, c) = Some (AtLoop, onFatalError err ?c)"
    using assms(2) by (simp add: resume_def onSocketOutcome_def onConnectionError_def err_def)
  moreover have "wants_reconnect err ?c = wants_reconnect err c"
    by (simp add: wants_reconnect_def)
  ultimately show ?thesis
    using onFatalError_lost [of ?c err] assms(1) by simp
qed

text \<open>C23 (liveness).  A server that has gone silent is noticed: while nothing is received, whatever is sent meanwhile,
  at most six timers that find a keepalive due succeed, over UDP, TCP and WebSocket.  After six, the next timer makes
  the worker leave the established state with a timeout: it reconnects with its socket, or disconnects if the user does
  not want that.  (Over QUIC no keepalive is ever due, and it is left to ngtcp2 to notice.)\<close>

theorem silent_server_is_noticed:
  assumes "ws_client_laws ops"
    and "silent_run (all_transports N D B Q others ops) (keepalive_due N) T X n k k'"
    and "cn_connState c = Connected" and "cn_socket c = Some k'"
    and "socket_event (all_transports N D B Q others ops) T X (Worker (TimerHandled k'' res)) (AwaitEvent, c)"
  shows "n \<le> 6 \<and> (n = 6 \<longrightarrow> (\<exists>c'. resume E (TimerHandled k'' res) (AwaitEvent, c) = Some (AtLoop, c') \<and>
    cn_lastError c' = TransportFailed (CustomKind TimedOut) \<and>
    (if wants_reconnect (TransportFailed (CustomKind TimedOut)) c
     then cn_connState c' = Reconnecting \<and> cn_socket c' = Some k'
     else cn_connState c' = Disconnected \<and> cn_socket c' = None)))"
proof -
  note noticed = keepalive_laws.silence_is_noticed [OF all_keepalive_laws [OF assms(1)] assms(2)]
  obtain t where t: "Socket_handleTimerExpiry (all_transports N D B Q others ops) t k' = Some (res, k'')"
    using assms(4,5) by (auto elim: timer_eventE)
  have "res = Err (CustomKind TimedOut)" "k'' = k'" if "n = 6"
    using noticed(2) [OF that, of t] t by simp_all
  then show ?thesis
    using noticed(1) timer_loss [OF assms(3,4), of E] by simp
qed

theorem silent_server_is_noticed_witness:
  "\<exists>k' c'. silent_run sample_transports (keepalive_due plain_env) nat_time sample_socket_env 6
      (Socket_new (sample_websocket []) () :: (sample_state, unit, nat) Socket) k' \<and>
    resume local_conn (TimerHandled k' (Err (CustomKind TimedOut))) (AwaitEvent, over_socket k') = Some (AtLoop, c') \<and>
    cn_connState c' = Reconnecting"
proof -
  obtain w where w: "silent_run sample_transports (keepalive_due plain_env) nat_time sample_socket_env 6
      (Socket_new (sample_websocket []) () :: (sample_state, unit, nat) Socket) (Socket_new (WsT w) ())" "ws_unacked w = 6"
    using sample_silence [of 6] by auto
  let ?k = "Socket_new (WsT w) () :: (sample_state, unit, nat) Socket"
  have "5 < vt_unacked sample_transports (sk_transport ?k)"
    using w(2) by (simp add: dispatch_kinds)
  from any_keepalives.timer_gives_up [OF this, of sample_call]
  have "Socket_handleTimerExpiry sample_transports sample_call ?k = Some (Err (CustomKind TimedOut), ?k)"
    by (simp add: Socket_handleTimerExpiry_def)
  then have ev: "socket_event sample_transports nat_time sample_socket_env
      (Worker (TimerHandled ?k (Err (CustomKind TimedOut)))) (AwaitEvent, over_socket ?k)"
    by (intro by_timer) simp_all
  have c: "cn_connState (over_socket ?k) = Connected" "cn_socket (over_socket ?k) = Some ?k"
    "wants_reconnect err (over_socket ?k)" for err
    by (simp_all add: over_socket_def wants_reconnect_def Connection_create_def)
  show ?thesis
    using silent_server_is_noticed [OF sample_ws.ws_client_laws_axioms w(1) c(1,2) ev, of local_conn] w(1) c(3) by auto
qed

end
