(* ===== verification/Quic_Setup.thy ===== *)
theory Quic_Setup
  imports Quic_Connection
begin

text \<open>
  The random numbers with which a QUIC connection starts (\<open>secureRandom\<close>, \<open>fillRandom\<close> and
  \<open>QuicConnection::connect\<close> in \<open>transport/quic/QuicConnection.cpp\<close>): the connection ids, the tokens and
  the first packet number.  The n-th draw of the system is \<open>dev n\<close>, that of the fast generator \<open>fast n\<close>;
  \<open>raw\<close> gives the bytes of a number in memory.
\<close>

record ('u, 'v) random_source =
  rs_dev :: "nat \<Rightarrow> 'u"
  rs_raw4 :: "'u \<Rightarrow> bytes"
  rs_fast :: "nat \<Rightarrow> 'v"
  rs_raw8 :: "'v \<Rightarrow> bytes"

type_synonym randoms = "(u32, u64) random_source"

function secureRandom_loop :: "randoms \<Rightarrow> nat \<Rightarrow> nat \<Rightarrow> nat \<Rightarrow> bytes" where
  "secureRandom_loop R n i len =
     (if i < len then
        let rem = min (len - i) 4
        in take rem (rs_raw4 R (rs_dev R n)) @ secureRandom_loop R (n + 1) (i + rem) len
      else [])"
  by pat_completeness auto
termination
  by (relation "measure (\<lambda>(R, n, i, len). len - i)") auto

declare secureRandom_loop.simps [simp del]

text \<open>\<open>valid\<close>: the buffer is not null.\<close>

definition secureRandom :: "randoms \<Rightarrow> bool \<Rightarrow> nat \<Rightarrow> bytes option" where
  "secureRandom R valid len = (if \<not> valid \<or> len = 0 then None else Some (secureRandom_loop R 0 0 len))"

fun fastRandom_rest :: "randoms \<Rightarrow> nat \<Rightarrow> nat \<Rightarrow> bytes" where
  "fastRandom_rest R n 0 = []"
| "fastRandom_rest R n (Suc len) = ucast (rs_fast R n mod 256) # fastRandom_rest R (n + 1) len"

function fastRandom :: "randoms \<Rightarrow> nat \<Rightarrow> nat \<Rightarrow> bytes" where
  "fastRandom R n len =
     (if 8 < len then take 8 (rs_raw8 R (rs_fast R n)) @ fastRandom R (n + 1) (len - 8)
      else fastRandom_rest R n len)"
  by pat_completeness auto
termination
  by (relation "measure (\<lambda>(R, n, len). len)") auto

declare fastRandom.simps [simp del]

definition fillRandom :: "randoms \<Rightarrow> bool \<Rightarrow> nat \<Rightarrow> bytes" where
  "fillRandom R valid len = (case secureRandom R valid len of Some bytes \<Rightarrow> bytes | None \<Rightarrow> fastRandom R 0 len)"

text \<open>\<open>fillRandom<uint32_t>\<close>; \<open>unraw\<close> reads a number from memory.\<close>

definition fillRandom_u32 :: "(bytes \<Rightarrow> u32) \<Rightarrow> randoms \<Rightarrow> u32" where
  "fillRandom_u32 unraw R = unraw (fillRandom R True 4)"

text \<open>The ids of a connection, and what the callbacks of ngtcp2 draw.\<close>

record ngtcp2_cid =
  ci_data :: bytes
  ci_datalen :: nat

definition SOURCE_ID_LEN :: nat where "SOURCE_ID_LEN = 8"

definition DEST_ID_LEN :: nat where "DEST_ID_LEN = 8"

definition connectionIds :: "randoms \<Rightarrow> randoms \<Rightarrow> ngtcp2_cid \<times> ngtcp2_cid" where
  "connectionIds R1 R2 =
     (\<lparr>ci_data = fillRandom R1 True SOURCE_ID_LEN, ci_datalen = SOURCE_ID_LEN\<rparr>,
      \<lparr>ci_data = fillRandom R2 True DEST_ID_LEN, ci_datalen = DEST_ID_LEN\<rparr>)"

definition get_new_connection_id :: "randoms \<Rightarrow> randoms \<Rightarrow> nat \<Rightarrow> ngtcp2_cid \<times> bytes" where
  "get_new_connection_id R1 R2 cidlen =
     (\<lparr>ci_data = fillRandom R1 True cidlen, ci_datalen = cidlen\<rparr>, fillRandom R2 True 16)"

section \<open>Every byte is filled\<close>

definition native :: "(bytes \<Rightarrow> u32) \<Rightarrow> randoms \<Rightarrow> bool" where
  "native unraw R \<longleftrightarrow> (\<forall>w. length (rs_raw4 R w) = 4 \<and> unraw (rs_raw4 R w) = w) \<and> (\<forall>v. length (rs_raw8 R v) = 8)"

lemma secureRandom_loop_length:
  assumes "\<And>w. length (rs_raw4 R w) = 4"
  shows "length (secureRandom_loop R n i len) = len - i"
proof (induction "len - i" arbitrary: n i rule: less_induct)
  case less
  then show ?case
    by (subst secureRandom_loop.simps) (auto simp: Let_def assms)
qed

lemma fillRandom_length:
  assumes "native unraw R" and "0 < len"
  shows "length (fillRandom R True len) = len"
  using assms by (simp add: fillRandom_def secureRandom_def secureRandom_loop_length native_def)

lemma fillRandom_u32_draw: "native unraw R \<Longrightarrow> fillRandom_u32 unraw R = rs_dev R 0"
  by (simp add: fillRandom_u32_def fillRandom_def secureRandom_def native_def secureRandom_loop.simps Let_def)

text \<open>A connection starts with two ids of eight bytes.  Its first packet number is at most
  \<open>INT32_MAX\<close>, as ngtcp2 demands, for every draw but the largest, for which it is one more.\<close>

lemma unat_lt: "unat (r :: u32) < 4294967296"
  using unsigned_less [of r] by simp

lemma reduced_number:
  fixes r :: u32
  shows "unat (if 2147483647 < r then r - 2147483647 else r) \<le> 2147483647 + (if r = 4294967295 then 1 else 0)"
proof (cases "2147483647 < r \<and> r \<noteq> 4294967295")
  case True
  then have "unat (r - 2147483647) = unat r - 2147483647"
    by (simp add: unat_sub order.strict_implies_order)
  moreover have "unat r \<noteq> 4294967295"
    using True by (simp add: word_unat_eq_iff)
  ultimately have "unat (r - 2147483647) \<le> 2147483647"
    using unat_lt [of r] by linarith
  then show ?thesis
    using True by simp
next
  case False
  then consider "r = 4294967295" | "\<not> 2147483647 < r" "unat r \<le> 2147483647"
    by (cases "r = 4294967295") (simp_all add: not_less word_le_nat_alt)
  then show ?thesis
    by cases simp_all
qed

lemma quic_first_packet_number:
  assumes "native unraw R"
    and "pkt = qs_initialPktNum (quicSettings now timeout (fillRandom_u32 unraw R) verbose)"
  shows "unat pkt \<le> 2147483647 + (if rs_dev R 0 = 4294967295 then 1 else 0)"
    and "rs_dev R 0 = 4294967295 \<Longrightarrow> unat pkt = 2147483648"
  using reduced_number [of "rs_dev R 0"]
  by (simp_all add: assms(2) quicSettings_def fillRandom_u32_draw [OF assms(1)])

lemma connection_ids_filled:
  assumes "native unraw1 R1" and "native unraw2 R2" and "connectionIds R1 R2 = (scid, dcid)"
  shows "length (ci_data scid) = ci_datalen scid" and "length (ci_data dcid) = ci_datalen dcid"
    and "ci_datalen scid = 8" and "ci_datalen dcid = 8"
  using assms fillRandom_length [OF assms(1), of 8] fillRandom_length [OF assms(2), of 8]
  by (auto simp: connectionIds_def SOURCE_ID_LEN_def DEST_ID_LEN_def)

end
