(* ===== verification/Udp_Order.thy ===== *)
theory Udp_Order
  imports Message_Types Transport_Session
begin

text \<open>
  What a UDP transport hands on of the datagrams that reach it, in whatever order, lost or twice:
  the iteration over a datagram, the reliability layer, the two queues of \<open>receiveMessageInner\<close> and
  the decompression, together.
\<close>

section \<open>The messages in a datagram\<close>

function datagram_items :: "'r byte_reader \<Rightarrow> QunetUdpMessageIter \<Rightarrow>
    (MessageDecodeError, QunetMessageMeta) outcome list" where
  "datagram_items R it =
     (case QunetUdpMessageIter_next R it of
        (Some (Inr meta), it') \<Rightarrow> Inr meta # datagram_items R it'
      | (Some (Inl e), _) \<Rightarrow> [Inl e]
      | (None, _) \<Rightarrow> [])"
  by pat_completeness auto
termination
  by (relation "measure (\<lambda>(R, it). length (it_data it) - it_pos it)")
    (auto dest!: next_advances [OF sym] intro: diff_less_mono2)

declare datagram_items.simps [simp del]

text \<open>A message that brings no data: a control message, or an empty data message that carries only
  acknowledgements.\<close>

definition quiet :: "QunetMessageMeta \<Rightarrow> bool" where
  "quiet meta \<longleftrightarrow> mm_type meta \<noteq> MSG_DATA \<or>
     mm_fragmentationHeader meta = None \<and> mm_compressionHeader meta = None \<and> relId meta = 0 \<and> mm_data meta = []"

text \<open>The data that the user gets of some messages: empty messages are not handed on.\<close>

fun data_of :: "QunetMessage list \<Rightarrow> bytes list" where
  "data_of [] = []"
| "data_of (Data m # ms) = (if dm_data m = [] then data_of ms else dm_data m # data_of ms)"
| "data_of (_ # ms) = data_of ms"

lemma data_of_append [simp]: "data_of (ms @ ms') = data_of ms @ data_of ms'"
  by (induction ms rule: data_of.induct) simp_all

lemma data_of_Cons: "data_of (m # ms) = data_of [m] @ data_of ms"
  using data_of_append [of "[m]" ms] by simp

text \<open>An incoming acknowledgement only removes what was unacknowledged.\<close>

definition acked :: "'i ReliableStore \<Rightarrow> 'i ReliableStore \<Rightarrow> bool" where
  "acked st st' \<longleftrightarrow> (\<exists>q. set q \<subseteq> set (rs_localUnacked st) \<and> st' = st\<lparr>rs_localUnacked := q\<rparr>)"

lemma acked_refl [simp]: "acked st st"
  by (auto simp: acked_def intro: exI [of _ "rs_localUnacked st"])

lemma acked_trans:
  assumes "acked st st'" and "acked st' st''"
  shows "acked st st''"
proof -
  obtain q q' where "set q \<subseteq> set (rs_localUnacked st)" "st' = st\<lparr>rs_localUnacked := q\<rparr>"
    "set q' \<subseteq> set (rs_localUnacked st')" "st'' = st'\<lparr>rs_localUnacked := q'\<rparr>"
    using assms unfolding acked_def by blast
  then show ?thesis
    unfolding acked_def by (intro exI [of _ q']) auto
qed

lemma set_remove_first: "set (remove_first P xs) \<subseteq> set xs"
  by (induction xs) auto

lemma processAcks_acked:
  assumes "processAcks h st = (r, st')"
  shows "acked st st'"
proof -
  have "acked st st'" if "processAcks_loop acks i n st = (r, st')" for acks i n r st'
    using that
  proof (induction n arbitrary: i st)
    case (Suc n)
    have "acked st (ackLocal a st)" for a
      unfolding acked_def ackLocal_def by (rule exI, rule conjI, rule set_remove_first, rule refl)
    then show ?case
      using Suc by (auto split: sum.splits intro: acked_trans)
  qed simp
  then show ?thesis
    using assms unfolding processAcks_def by blast
qed

lemma quiet_accepted:
  assumes "quiet meta" and "mm_type meta = MSG_DATA" and "acceptReliable now meta s = (r, s')"
  shows "\<exists>st. acked (ut_relStore s) st \<and> s' = s\<lparr>ut_relStore := st\<rparr> \<and> (r = Ok True \<or> (\<exists>e. r = Inl e))"
proof (cases "mm_reliabilityHeader meta")
  case None
  then show ?thesis
    using assms by (auto simp: acceptReliable_def intro: exI [of _ "ut_relStore s"])
next
  case (Some h)
  then have id0: "rh_messageId h = 0"
    using assms by (simp add: quiet_def relId_def)
  obtain r0 st where st: "processAcks h (ut_relStore s) = (r0, st)"
    by fastforce
  then show ?thesis
    using assms Some id0 processAcks_acked [OF st]
    by (cases r0) (auto simp: acceptReliable_def handleIncoming_def)
qed

text \<open>\<open>same_receiver s s'\<close>: only acknowledgements, statistics and the queue of messages differ.\<close>

definition same_receiver :: "('cd, 'dd, 'd, 'i, 'f) UdpTransport \<Rightarrow> ('cd, 'dd, 'd, 'i, 'f) UdpTransport \<Rightarrow> bool" where
  "same_receiver s s' \<longleftrightarrow> acked (ut_relStore s) (ut_relStore s') \<and> udp_session s' = udp_session s"

lemma same_receiver_refl [simp]: "same_receiver s s"
  by (simp add: same_receiver_def)

lemma same_receiver_trans: "same_receiver s s' \<Longrightarrow> same_receiver s' s'' \<Longrightarrow> same_receiver s s''"
  by (auto simp: same_receiver_def intro: acked_trans)

lemma processOne_quiet:
  assumes "quiet meta" and "processOne E now meta s = (r, s')"
  shows "same_receiver s s' \<and> ut_pendingMessages s' = ut_pendingMessages s \<and>
    ((\<exists>e. r = Inl e) \<or> (\<exists>m. r = Ok (Some m) \<and> data_of [m] = []))"
proof (cases "mm_type meta = MSG_DATA")
  case False
  have "data_of [m] = []" if "decodeWithMeta (en_reader E) meta = Ok m" for m
    using decoded_type(1) [OF that] False by (cases m) (simp_all add: headerByte.simps)
  then show ?thesis
    using assms(2) False
    by (auto simp: processOne_def step_then_def Let_def same_receiver_def clearUnackedKeepalives_def on_tracker_def
        on_base_def session_def split: sum.splits QunetMessage.splits)
next
  case True
  obtain r1 s1 where acc: "acceptReliable now meta s = (r1, s1)"
    by fastforce
  then obtain st where st: "acked (ut_relStore s) st" "s1 = s\<lparr>ut_relStore := st\<rparr>" "r1 = Ok True \<or> (\<exists>e. r1 = Inl e)"
    using quiet_accepted [OF assms(1) True acc] by blast
  have q: "mm_fragmentationHeader meta = None" "mm_compressionHeader meta = None" "mm_data meta = []"
    using assms(1) True by (simp_all add: quiet_def)
  then show ?thesis
    using assms(2) True acc st
    by (auto simp: processOne_def collectFragment_def decodeFinal_def decodePreFinalDataMessage_def same_receiver_def
        Let_def session_def)
qed

section \<open>A reliable message\<close>

text \<open>What was received, handed on or not.\<close>

definition got :: "'i ReliableStore \<Rightarrow> nat set" where
  "got st = {1..<unat (rs_nextRemoteId st)} \<union> stored_ids st"

lemma got_inv: "rel_mid sent M n st \<Longrightarrow> got st = {1..n} \<union> stored_ids st"
  using unat_of_nat_u16 [of "n + 1"] by (auto simp: got_def rel_mid_def)

lemma acked_same:
  assumes "acked st st'"
  shows "rel_mid sent M n st' = rel_mid sent M n st" and "stored_ids st' = stored_ids st"
    and "rel_inv sent M n st' = rel_inv sent M n st" and "got st' = got st"
    and "rs_remoteDelayedQueue st' = rs_remoteDelayedQueue st" and "rs_nextLocalId st' = rs_nextLocalId st"
    and "set (rs_localUnacked st') \<subseteq> set (rs_localUnacked st)"
    and "acked (st\<lparr>rs_remoteDelayedQueue := d\<rparr>) (st'\<lparr>rs_remoteDelayedQueue := d\<rparr>)"
  using assms by (auto simp: acked_def rel_inv_def got_def)

lemma handleIncoming_error:
  assumes "handleIncoming now meta st = (Inl e, st')"
  shows "acked st st'"
proof (cases "mm_reliabilityHeader meta")
  case (Some h)
  obtain r0 st0 where st0: "processAcks h st = (r0, st0)"
    by fastforce
  have "st1 = st0" if "storeRemoteOutOfOrder now meta st0 = (Inl e', st1)" for e' st1
    using that by (auto simp: storeRemoteOutOfOrder_def split: if_splits)
  then show ?thesis
    using assms Some st0 processAcks_acked [OF st0]
    by (auto simp: handleIncoming_def Let_def split: sum.splits if_splits prod.splits)
qed (use assms in \<open>simp add: handleIncoming_def\<close>)

lemma handleIncoming_step:
  assumes inv: "rel_inv sent M n st" and arr: "arrives sent M i meta"
    and run: "handleIncoming now meta st = (Ok accepted, st')"
  shows "\<exists>n'. rel_inv sent M n' (st'\<lparr>rs_remoteDelayedQueue := []\<rparr>) \<and> n \<le> n' \<and>
    map content ((if accepted then [meta] else []) @ rs_remoteDelayedQueue st') = map sent [n + 1..<n' + 1] \<and>
    got st' = got st \<union> {i}"
proof -
  have rr: "rel_receive now meta st =
      (Ok ((if accepted then [meta] else []) @ rs_remoteDelayedQueue st'), st'\<lparr>rs_remoteDelayedQueue := []\<rparr>)"
    using run by (simp add: rel_receive_def drainDelayed_all)
  obtain n' where "progress sent M n {i} st ((if accepted then [meta] else []) @ rs_remoteDelayedQueue st') n'
      (st'\<lparr>rs_remoteDelayedQueue := []\<rparr>)"
    using rel_receive_step [OF inv _ _ _ _ _ rr, of i] arr by (auto simp: arrives_def)
  note p = progressD [OF this]
  have "got st = {1..n} \<union> stored_ids st"
    using inv got_inv [of sent M n st] by (simp add: rel_inv_def)
  moreover have "got (st'\<lparr>rs_remoteDelayedQueue := []\<rparr>) = {1..n'} \<union> stored_ids (st'\<lparr>rs_remoteDelayedQueue := []\<rparr>)"
    using p(2) got_inv [of sent M n' "st'\<lparr>rs_remoteDelayedQueue := []\<rparr>"] by (simp add: rel_inv_def)
  moreover have "got (st'\<lparr>rs_remoteDelayedQueue := []\<rparr>) = got st'"
    by (simp add: got_def)
  ultimately show ?thesis
    using p by (intro exI [of _ n']) simp
qed

text \<open>The data of a message once it is decompressed.\<close>

definition opens :: "('r, 'w, 'cd, 'dd, 'd, 'i, 'f) qn_env \<Rightarrow> ('cd, 'dd, 'd, 'i, 'f) UdpTransport \<Rightarrow>
    CompressionHeader option \<times> bytes \<Rightarrow> bytes \<Rightarrow> bool" where
  "opens E s c bytes \<longleftrightarrow> bytes \<noteq> [] \<and>
     (\<forall>now meta. content meta = c \<longrightarrow>
        fst (decodePreFinalDataMessage (en_time E) (en_zstd E) (en_lz4 E) now meta (ut_base s)) =
          Ok (Data \<lparr>dm_data = bytes, dm_compHeader = None, dm_relHeader = None\<rparr>))"

lemma opens_plain: "bytes \<noteq> [] \<Longrightarrow> opens E s (None, bytes) bytes"
  by (simp add: opens_def content_def decodePreFinalDataMessage_def Let_def)

lemma decodePreFinal_by_session:
  assumes "session b' = session b"
  shows "fst (decodePreFinalDataMessage T Z L now meta b') = fst (decodePreFinalDataMessage T Z L now meta b)"
  using assms
  by (simp add: decodePreFinalDataMessage_def Let_def session_def split: option.split CompressionType.split)

lemma opens_session: "udp_session s' = udp_session s \<Longrightarrow> opens E s' c bytes = opens E s c bytes"
  by (simp add: opens_def decodePreFinal_by_session [of "ut_base s'" "ut_base s"])

lemma decodeFinal_opens:
  assumes "opens E s (content meta) bytes" and "decodeFinal E now meta s = (r, s')"
  shows "r = Ok (Data \<lparr>dm_data = bytes, dm_compHeader = None, dm_relHeader = None\<rparr>)" and "bytes \<noteq> []"
    and "ut_relStore s' = ut_relStore s" and "udp_session s' = udp_session s"
    and "ut_pendingMessages s' = ut_pendingMessages s"
proof -
  obtain r0 b where d: "decodePreFinalDataMessage (en_time E) (en_zstd E) (en_lz4 E) now meta (ut_base s) = (r0, b)"
    by fastforce
  have "session b = udp_session s"
    using session_decodePreFinal [of "en_time E" "en_zstd E" "en_lz4 E" now meta "ut_base s"] d by simp
  then show "udp_session s' = udp_session s"
    using assms(2) d by (auto simp: decodeFinal_def)
  have "fst (decodePreFinalDataMessage (en_time E) (en_zstd E) (en_lz4 E) now meta (ut_base s)) =
      Ok (Data \<lparr>dm_data = bytes, dm_compHeader = None, dm_relHeader = None\<rparr>)"
    using assms(1) by (simp add: opens_def)
  then show "r = Ok (Data \<lparr>dm_data = bytes, dm_compHeader = None, dm_relHeader = None\<rparr>)"
    using assms(2) d by (simp add: decodeFinal_def)
  show "bytes \<noteq> []" "ut_relStore s' = ut_relStore s" "ut_pendingMessages s' = ut_pendingMessages s"
    using assms d by (auto simp: decodeFinal_def opens_def)
qed

section \<open>The state of the receiving side\<close>

text \<open>\<open>recv_state\<close>: the user has the first \<open>n\<close> messages of the peer, and what waits (\<open>out\<close> and the queue of
  the reliability layer) continues them.\<close>

definition opens_all :: "('r, 'w, 'cd, 'dd, 'd, 'i, 'f) qn_env \<Rightarrow> ('cd, 'dd, 'd, 'i, 'f) UdpTransport \<Rightarrow>
    (nat \<Rightarrow> CompressionHeader option \<times> bytes) \<Rightarrow> (nat \<Rightarrow> bytes) \<Rightarrow> nat \<Rightarrow> bool" where
  "opens_all E s sent payload M \<longleftrightarrow> (\<forall>i\<in>{1..M}. opens E s (sent i) (payload i))"

definition recv_state :: "(nat \<Rightarrow> CompressionHeader option \<times> bytes) \<Rightarrow> (nat \<Rightarrow> bytes) \<Rightarrow> nat \<Rightarrow> nat \<Rightarrow>
    'i ReliableStore \<Rightarrow> QunetMessage list \<Rightarrow> bool" where
  "recv_state sent payload M n st out \<longleftrightarrow> (\<exists>k n1. n \<le> k \<and> k \<le> n1 \<and> data_of out = map payload [n + 1..<k + 1] \<and>
     map content (rs_remoteDelayedQueue st) = map sent [k + 1..<n1 + 1] \<and>
     rel_inv sent M n1 (st\<lparr>rs_remoteDelayedQueue := []\<rparr>))"

lemma recv_stateI:
  assumes "n \<le> k" "k \<le> n1" "data_of out = map payload [n + 1..<k + 1]"
    and "map content (rs_remoteDelayedQueue st) = map sent [k + 1..<n1 + 1]"
    and "rel_inv sent M n1 (st\<lparr>rs_remoteDelayedQueue := []\<rparr>)"
  shows "recv_state sent payload M n st out"
  using assms unfolding recv_state_def by blast

lemma recv_state_data:
  "data_of out' = data_of out \<Longrightarrow> recv_state sent payload M n st out' = recv_state sent payload M n st out"
  by (simp add: recv_state_def)

fun returned :: "('e, QunetMessage option) outcome \<Rightarrow> QunetMessage list" where
  "returned (Inr (Some m)) = [m]"
| "returned _ = []"

text \<open>A data message that is not fragmented, and the reliable message \<open>i\<close> of the peer.\<close>

definition brings :: "(nat \<Rightarrow> CompressionHeader option \<times> bytes) \<Rightarrow> nat \<Rightarrow> nat \<Rightarrow> QunetMessageMeta \<Rightarrow> bool" where
  "brings sent M i meta \<longleftrightarrow> mm_type meta = MSG_DATA \<and> mm_fragmentationHeader meta = None \<and> arrives sent M i meta"

lemma delayed_empty_state:
  "rel_inv sent M n st \<Longrightarrow> data_of out = [] \<Longrightarrow> recv_state sent payload M n st out"
  unfolding recv_state_def
  by (rule exI [of _ n], rule exI [of _ n]) (simp add: rel_inv_def)

lemma processOne_brings:
  assumes "brings sent M i meta" and "rel_inv sent M n (ut_relStore s)" and "opens_all E s sent payload M"
    and "processOne E now meta s = (r, s')"
  shows "udp_session s' = udp_session s \<and> ut_pendingMessages s' = ut_pendingMessages s \<and>
    recv_state sent payload M n (ut_relStore s') (returned r) \<and>
    ((\<exists>e. r = Inl e) \<or> got (ut_relStore s') = got (ut_relStore s) \<union> {i})"
proof -
  obtain r1 st where hi: "handleIncoming now meta (ut_relStore s) = (r1, st)"
    by fastforce
  have rel: "mm_reliabilityHeader meta \<noteq> None"
    using assms(1) by (auto simp: brings_def arrives_def acks_ok_def split: option.splits)
  have arr: "arrives sent M i meta" and ty: "mm_type meta = MSG_DATA" "mm_fragmentationHeader meta = None"
    using assms(1) by (simp_all add: brings_def)
  note one = assms(4) [unfolded processOne_def collectFragment_def acceptReliable_def]
  show ?thesis
  proof (cases r1)
    case (Inl e)
    have "acked (ut_relStore s) st"
      using hi Inl by (simp add: handleIncoming_error)
    then have "rel_inv sent M n st"
      using assms(2) acked_same(3) by blast
    then show ?thesis
      using one hi Inl rel ty assms(2) by (auto intro!: delayed_empty_state)
  next
    case (Inr accepted)
    obtain n' where n': "rel_inv sent M n' (st\<lparr>rs_remoteDelayedQueue := []\<rparr>)" "n \<le> n'"
      "map content ((if accepted then [meta] else []) @ rs_remoteDelayedQueue st) = map sent [n + 1..<n' + 1]"
      "got st = got (ut_relStore s) \<union> {i}"
      using handleIncoming_step [OF assms(2) arr hi [unfolded Inr]] by blast
    show ?thesis
    proof (cases accepted)
      case False
      have "recv_state sent payload M n st []"
        unfolding recv_state_def using n' False by (intro exI [of _ n] exI [of _ n']) simp
      then show ?thesis
        using one hi Inr False rel ty n'(4) by auto
    next
      case True
      have ne: "n + 1 \<le> n'"
        using n'(2,3) True by (cases "n = n'") auto
      have range: "[n + 1..<n' + 1] = (n + 1) # [n + 2..<n' + 1]"
        using ne by (simp add: upt_conv_Cons)
      have c: "content meta = sent (n + 1)" "map content (rs_remoteDelayedQueue st) = map sent [n + 2..<n' + 1]"
        using n'(3) True unfolding range by simp_all
      have "n' \<le> M"
        using n'(1) by (simp add: rel_inv_def rel_mid_def)
      then have op: "opens E (s\<lparr>ut_relStore := st\<rparr>) (content meta) (payload (n + 1))"
        using assms(3) ne c(1) opens_session [of "s\<lparr>ut_relStore := st\<rparr>" s E] by (simp add: opens_all_def)
      obtain r2 s2 where d: "decodeFinal E now meta (s\<lparr>ut_relStore := st\<rparr>) = (r2, s2)"
        by fastforce
      note fin = decodeFinal_opens [OF op d]
      have "recv_state sent payload M n st [Data \<lparr>dm_data = payload (n + 1), dm_compHeader = None, dm_relHeader = None\<rparr>]"
        unfolding recv_state_def using n'(1) ne c(2) fin(2)
        by (intro exI [of _ "n + 1"] exI [of _ n']) simp
      then show ?thesis
        using one hi Inr True rel ty n'(4) d fin by auto
    qed
  qed
qed

section \<open>A datagram\<close>

text \<open>A datagram with the reliable message \<open>i\<close>, after quiet ones, or (None) without data.\<close>

definition carries_items :: "(nat \<Rightarrow> CompressionHeader option \<times> bytes) \<Rightarrow> nat \<Rightarrow> nat option \<Rightarrow>
    ('e, QunetMessageMeta) outcome list \<Rightarrow> bool" where
  "carries_items sent M A ms =
     (case A of
        None \<Rightarrow> \<forall>m. Inr m \<in> set ms \<longrightarrow> quiet m
      | Some i \<Rightarrow> \<exists>qs meta. ms = map Inr (qs @ [meta]) \<and> list_all quiet qs \<and> brings sent M i meta)"

lemma carries_items_Nil [simp]: "carries_items sent M A [] \<longleftrightarrow> A = None"
  by (cases A) (simp_all add: carries_items_def)

lemma carries_items_error [simp]: "carries_items sent M A [Inl e] \<longleftrightarrow> A = None"
  by (cases A) (auto simp: carries_items_def map_eq_Cons_conv Cons_eq_append_conv)

lemma carries_items_Cons:
  assumes "carries_items sent M A (Inr m # ms)"
  obtains (quiet) "quiet m" "carries_items sent M A ms"
  | (brings) i where "A = Some i" "ms = []" "brings sent M i m"
  using assms
  by (cases A) (auto simp: carries_items_def Cons_eq_map_conv Cons_eq_append_conv)

lemma processItems_end:
  assumes "datagram_items (en_reader E) it = []"
  shows "processItems E now it tr s = (Ok tr, s)"
  using assms
  by (subst (asm) datagram_items.simps, subst processItems.simps) (auto split: prod.splits option.splits sum.splits)

lemma processItems_order:
  assumes "processItems E now it tr s = (r, s')" and "carries_items sent M A (datagram_items (en_reader E) it)"
    and "rel_inv sent M n (ut_relStore s)" and "opens_all E s sent payload M"
    and "data_of (ut_pendingMessages s) = []" and "data_of (returned (Ok tr :: (unit, _) outcome)) = []"
  shows "udp_session s' = udp_session s \<and>
    recv_state sent payload M n (ut_relStore s') (returned r @ ut_pendingMessages s') \<and>
    ((\<exists>e. r = Inl e) \<or> got (ut_relStore s') = got (ut_relStore s) \<union> set_option A)"
  using assms
proof (induction E now it tr s arbitrary: r s' rule: processItems.induct)
  case (1 E now iter tr s)
  obtain item iter' where item: "QunetUdpMessageIter_next (en_reader E) iter = (item, iter')"
    by (cases "QunetUdpMessageIter_next (en_reader E) iter")
  note items = "1.prems"(2) [unfolded datagram_items.simps [of "en_reader E" iter] item]
  show ?case
  proof (cases item)
    case None
    then show ?thesis
      using "1.prems" items item
      by (cases tr) (auto simp: processItems.simps [of E now iter] data_of_Cons [of _ "ut_pendingMessages s'"]
          intro!: delayed_empty_state)
  next
    case (Some x)
    show ?thesis
    proof (cases x)
      case (Inl e)
      then show ?thesis
        using "1.prems" items item Some
        by (cases e) (auto simp: processItems.simps [of E now iter] intro!: delayed_empty_state)
    next
      case (Inr meta)
      note unfold = processItems.simps [of E now iter] item Some Inr
      obtain q s1 where q: "processOne E now meta s = (q, s1)"
        by (cases "processOne E now meta s")
      have "carries_items sent M A (Inr meta # datagram_items (en_reader E) iter')"
        using items Some Inr by simp
      then show ?thesis
      proof (cases rule: carries_items_Cons)
        case quiet
        note one = processOne_quiet [OF quiet(1) q]
        have inv: "rel_inv sent M n (ut_relStore s1)" "got (ut_relStore s1) = got (ut_relStore s)"
          "udp_session s1 = udp_session s" "opens_all E s1 sent payload M" "data_of (ut_pendingMessages s1) = []"
          using one "1.prems"(3-5) opens_session [of s1 s E] acked_same(3,4) [of "ut_relStore s" "ut_relStore s1"]
          by (simp_all add: same_receiver_def opens_all_def)
        show ?thesis
        proof (cases "mm_type meta = MSG_PADDING")
          case True
          then show ?thesis
            using "1.IH"(1) [OF item [symmetric, unfolded Some Inr] refl refl True _ quiet(2) "1.prems"(3-6)] "1.prems"(1)
            by (simp add: unfold)
        next
          case False
          show ?thesis
          proof (cases q)
            case (Inl e)
            then show ?thesis
              using "1.prems"(1) False q inv by (auto simp: unfold intro!: delayed_empty_state)
          next
            case (Inr out)
            then obtain m where m: "out = Some m" "data_of [m] = []"
              using one by auto
            note IH = "1.IH"(3,4) [OF item [symmetric, unfolded Some \<open>x = Inr meta\<close>] refl refl False q [symmetric] Inr m(1)]
            show ?thesis
            proof (cases "tr = None")
              case True
              then show ?thesis
                using IH(1) [OF True _ quiet(2) inv(1,4,5)] "1.prems"(1) False q Inr m inv(2,3) by (simp add: unfold)
            next
              case tr: False
              let ?s = "s1\<lparr>ut_pendingMessages := ut_pendingMessages s1 @ [m]\<rparr>"
              have "rel_inv sent M n (ut_relStore ?s)" "opens_all E ?s sent payload M" "data_of (ut_pendingMessages ?s) = []"
                using inv m(2) by (simp_all add: opens_all_def opens_session [of ?s s1])
              from IH(2) [OF tr _ quiet(2) this "1.prems"(6)] show ?thesis
                using "1.prems"(1) False q Inr m tr inv(2,3) by (simp add: unfold del: not_None_eq)
            qed
          qed
        qed
      next
        case (brings i)
        note one = processOne_brings [OF brings(3) "1.prems"(3,4) q]
        have ty: "mm_type meta \<noteq> MSG_PADDING"
          using brings(3) by (simp add: brings_def)
        have fin: "s' = (case q of Inr (Some m) \<Rightarrow> if tr = None then s1
              else s1\<lparr>ut_pendingMessages := ut_pendingMessages s1 @ [m]\<rparr> | _ \<Rightarrow> s1) \<and>
            data_of (returned r @ ut_pendingMessages s') = data_of (returned q) \<and>
            ((\<exists>e. r = Inl e) \<longleftrightarrow> (\<exists>e. q = Inl e))"
        proof (cases q)
          case (Inl e)
          then show ?thesis
            using "1.prems"(1,5) ty q one by (auto simp: unfold)
        next
          case (Inr out)
          then show ?thesis
            using "1.prems"(1,5,6) ty q one brings(2)
            by (cases out; cases tr) (auto simp: unfold processItems_end data_of_Cons [of _ "ut_pendingMessages s"])
        qed
        then have "ut_relStore s' = ut_relStore s1" "udp_session s' = udp_session s1"
          by (auto split: sum.splits option.splits if_splits)
        then show ?thesis
          using fin one brings(1) recv_state_data [of "returned r @ ut_pendingMessages s'" "returned q" sent payload M n]
          by auto
      qed
    qed
  qed
qed

section \<open>receiveMessage\<close>

text \<open>What the socket returns: an error, or a datagram with the reliable message \<open>i\<close> or without data.\<close>

definition arrives_as :: "('r, 'w, 'cd, 'dd, 'd, 'i, 'f) qn_env \<Rightarrow> (nat \<Rightarrow> CompressionHeader option \<times> bytes) \<Rightarrow> nat \<Rightarrow>
    nat option \<Rightarrow> bytes TransportResult \<Rightarrow> bool" where
  "arrives_as E sent M A recv =
     (case recv of
        Inl _ \<Rightarrow> A = None
      | Inr d \<Rightarrow> carries_items sent M A (datagram_items (en_reader E) (QunetUdpMessageIter_new d False)))"

lemma receiveDatagram_order:
  assumes "receiveDatagram E now recv s = (r, s')" and "arrives_as E sent M A recv"
    and "rel_inv sent M n (ut_relStore s)" and "opens_all E s sent payload M" and "ut_pendingMessages s = []"
  shows "udp_session s' = udp_session s \<and>
    recv_state sent payload M n (ut_relStore s') (returned r @ ut_pendingMessages s') \<and>
    ((\<exists>e. r = Inl e) \<or> got (ut_relStore s') = got (ut_relStore s) \<union> set_option A)"
proof (cases recv)
  case (Inl e)
  then show ?thesis
    using assms by (auto simp: receiveDatagram_def intro!: delayed_empty_state)
next
  case (Inr d)
  show ?thesis
  proof (cases "d = []")
    case True
    then show ?thesis
      using assms Inr by (auto simp: receiveDatagram_def intro!: delayed_empty_state)
  next
    case False
    let ?s = "on_tracker (onDownPacket now (length d)) s"
    have same: "udp_session ?s = udp_session s" "ut_relStore ?s = ut_relStore s" "ut_pendingMessages ?s = ut_pendingMessages s"
      by (simp_all add: keeps_pending) (simp add: on_tracker_def on_base_def)
    then have op: "opens_all E ?s sent payload M"
      using assms(4) opens_session [of ?s s E] by (simp add: opens_all_def)
    have "processItems E now (QunetUdpMessageIter_new d False) None ?s = (r, s')"
      using assms(1) Inr False by (simp add: receiveDatagram_def Let_def)
    from processItems_order [OF this _ _ op] show ?thesis
      using assms(2,3,5) Inr same by (simp add: arrives_as_def)
  qed
qed

lemma recv_state_take:
  assumes "recv_state sent payload M n st (m # out)"
  shows "\<exists>n'. n \<le> n' \<and> data_of [m] = map payload [n + 1..<n' + 1] \<and> recv_state sent payload M n' st out"
proof -
  obtain k n1 where k: "n \<le> k" "k \<le> n1" "data_of (m # out) = map payload [n + 1..<k + 1]"
    and rest: "map content (rs_remoteDelayedQueue st) = map sent [k + 1..<n1 + 1]"
      "rel_inv sent M n1 (st\<lparr>rs_remoteDelayedQueue := []\<rparr>)"
    using assms unfolding recv_state_def by blast
  show ?thesis
  proof (cases "data_of [m] = []")
    case True
    then have "data_of out = data_of (m # out)"
      by (simp add: data_of_Cons [of m out])
    then have "recv_state sent payload M n st out"
      using assms recv_state_data by blast
    then show ?thesis
      using True by (intro exI [of _ n]) simp
  next
    case False
    then obtain d where d: "data_of [m] = [d]"
      by (cases m) (auto split: if_splits)
    then have c: "d # data_of out = map payload [n + 1..<k + 1]"
      using k(3) by (simp add: data_of_Cons [of m out])
    then have ne: "n + 1 \<le> k"
      using k(1) by (cases "n = k") auto
    have "[n + 1..<k + 1] = (n + 1) # [n + 1 + 1..<k + 1]"
      using ne upt_conv_Cons [of "n + 1" "k + 1"] by (simp del: upt_Suc)
    then have "d = payload (n + 1)" "data_of out = map payload [n + 1 + 1..<k + 1]"
      using c by simp_all
    then show ?thesis
      using d ne k(2) rest unfolding recv_state_def
      by (intro exI [of _ "n + 1"] conjI exI [of _ k] exI [of _ n1]) simp_all
  qed
qed

lemma receiveQueued_order:
  assumes "receiveQueued E now s = Some (r, s')" and "recv_state sent payload M n (ut_relStore s) (ut_pendingMessages s)"
    and "opens_all E s sent payload M"
  shows "\<exists>m. r = Ok m \<and> udp_session s' = udp_session s \<and> got (ut_relStore s') = got (ut_relStore s) \<and>
    recv_state sent payload M n (ut_relStore s') (m # ut_pendingMessages s')"
proof (cases "ut_pendingMessages s")
  case (Cons m rest)
  then show ?thesis
    using assms by (auto simp: receiveQueued_def)
next
  case Nil
  then obtain n1 where n1: "n \<le> n1" "map content (rs_remoteDelayedQueue (ut_relStore s)) = map sent [n + 1..<n1 + 1]"
      "rel_inv sent M n1 ((ut_relStore s)\<lparr>rs_remoteDelayedQueue := []\<rparr>)"
    using assms(2) unfolding recv_state_def by (auto simp del: upt_Suc)
  obtain meta rest where q: "rs_remoteDelayedQueue (ut_relStore s) = meta # rest"
    using assms(1) Nil by (cases "rs_remoteDelayedQueue (ut_relStore s)") (auto simp: receiveQueued_def popDelayedMessage_def)
  let ?s = "s\<lparr>ut_relStore := (ut_relStore s)\<lparr>rs_remoteDelayedQueue := rest\<rparr>\<rparr>"
  have d: "decodeFinal E now meta ?s = (r, s')"
    using assms(1) Nil q by (simp add: receiveQueued_def popDelayedMessage_def)
  have ne: "n + 1 \<le> n1"
    using n1(1,2) q by (cases "n = n1") auto
  have range: "[n + 1..<n1 + 1] = (n + 1) # [n + 1 + 1..<n1 + 1]"
    using ne upt_conv_Cons [of "n + 1" "n1 + 1"] by (simp del: upt_Suc)
  have c: "content meta = sent (n + 1)" "map content rest = map sent [n + 1 + 1..<n1 + 1]"
    using n1(2) q unfolding range by simp_all
  have "n1 \<le> M"
    using n1(3) by (simp add: rel_inv_def rel_mid_def)
  then have op: "opens E ?s (content meta) (payload (n + 1))"
    using assms(3) ne c(1) opens_session [of ?s s E] by (simp add: opens_all_def)
  note fin = decodeFinal_opens [OF op d]
  have "recv_state sent payload M n (ut_relStore s') (Data \<lparr>dm_data = payload (n + 1), dm_compHeader = None, dm_relHeader = None\<rparr>
      # ut_pendingMessages s')"
    by (rule recv_stateI [of n "n + 1" n1]) (use ne c(2) n1(3) fin(2,3,5) Nil in simp_all)
  then show ?thesis
    using fin by (simp add: got_def stored_ids_def)
qed

text \<open>The result of one call: the data it hands on, and the ids in what the network still holds.\<close>

fun handed :: "QunetMessage TransportResult option \<Rightarrow> bytes list" where
  "handed (Some (Inr m)) = data_of [m]"
| "handed _ = []"

definition ids_in :: "nat option list \<Rightarrow> nat set" where
  "ids_in As = {i. Some i \<in> set As}"

lemma ids_in_simps [simp]: "ids_in [] = {}" "ids_in (A # As) = set_option A \<union> ids_in As"
  by (cases A) (auto simp: ids_in_def)

lemma queued_none_inv:
  assumes "receiveQueued E now s = None" and "recv_state sent payload M n (ut_relStore s) (ut_pendingMessages s)"
  shows "rel_inv sent M n (ut_relStore s)" and "ut_pendingMessages s = []"
proof -
  have q: "ut_pendingMessages s = []" "rs_remoteDelayedQueue (ut_relStore s) = []"
    using assms(1)
    by (auto simp: receiveQueued_def popDelayedMessage_def split: list.splits)
  then show "ut_pendingMessages s = []"
    by simp
  obtain k n1 where "n \<le> k" "k \<le> n1" "map payload [n + 1..<k + 1] = []" "map sent [k + 1..<n1 + 1] = []"
    "rel_inv sent M n1 ((ut_relStore s)\<lparr>rs_remoteDelayedQueue := []\<rparr>)"
    using assms(2) q unfolding recv_state_def by (auto simp del: upt_Suc)
  moreover from this have "n1 = n"
    by (simp split: if_splits)
  ultimately show "rel_inv sent M n (ut_relStore s)"
    using q(2) by (simp add: rel_inv_def)
qed

lemma receiveMessage_order:
  assumes "UdpTransport_receiveMessage E now recvs s = (r, recvs', s')"
    and "list_all2 (\<lambda>A recv. arrives_as E sent M A (snd recv)) As recvs"
    and "recv_state sent payload M n (ut_relStore s) (ut_pendingMessages s)" and "opens_all E s sent payload M"
  shows "udp_session s' = udp_session s \<and>
    (\<exists>n' As'. n \<le> n' \<and> handed r = map payload [n + 1..<n' + 1] \<and>
      list_all2 (\<lambda>A recv. arrives_as E sent M A (snd recv)) As' recvs' \<and>
      recv_state sent payload M n' (ut_relStore s') (ut_pendingMessages s') \<and>
      ((\<exists>e. r = Some (Inl e)) \<or> got (ut_relStore s) \<union> ids_in As \<subseteq> got (ut_relStore s') \<union> ids_in As') \<and>
      (r = None \<longrightarrow> recvs' = [] \<and> rel_inv sent M n' (ut_relStore s')))"
  using assms
proof (induction recvs arbitrary: now s As)
  case Nil
  show ?case
  proof (cases "receiveQueued E now s")
    case None
    then show ?thesis
      using Nil queued_none_inv [OF None Nil(3)]
      by (intro conjI exI [of _ n] exI [of _ "[]"]) (auto simp: UdpTransport_receiveMessage.simps)
  next
    case (Some p)
    obtain r1 s1 where rs: "p = (r1, s1)"
      by (cases p)
    obtain m where p: "p = (Ok m, s1)" "udp_session s1 = udp_session s" "got (ut_relStore s1) = got (ut_relStore s)"
      "recv_state sent payload M n (ut_relStore s1) (m # ut_pendingMessages s1)"
      using receiveQueued_order [OF Some [unfolded rs] Nil(3,4)] rs by blast
    then show ?thesis
      using Nil(1,2) Some recv_state_take [OF p(4)] by (auto simp: UdpTransport_receiveMessage.simps)
  qed
next
  case (Cons recv recvs)
  obtain A As0 where As: "As = A # As0" "arrives_as E sent M A (snd recv)"
      "list_all2 (\<lambda>A recv. arrives_as E sent M A (snd recv)) As0 recvs"
    using Cons.prems(2) by (auto simp: list_all2_Cons2)
  obtain t bytes where recv: "recv = (t, bytes)"
    by (cases recv)
  note unfold = UdpTransport_receiveMessage.simps [of E now "recv # recvs" s]
  show ?case
  proof (cases "receiveQueued E now s")
    case (Some p)
    obtain r1 s1 where rs: "p = (r1, s1)"
      by (cases p)
    obtain m where p: "p = (Ok m, s1)" "udp_session s1 = udp_session s" "got (ut_relStore s1) = got (ut_relStore s)"
      "recv_state sent payload M n (ut_relStore s1) (m # ut_pendingMessages s1)"
      using receiveQueued_order [OF Some [unfolded rs] Cons.prems(3,4)] rs by blast
    have "r = Some (Ok m)" "recvs' = recv # recvs" "s' = s1"
      using Cons.prems(1) Some p(1) unfold by auto
    then show ?thesis
      using Cons.prems(2) p(2,3) recv_state_take [OF p(4)] by auto
  next
    case None
    obtain q s1 where q: "receiveDatagram E t bytes s = (q, s1)"
      by fastforce
    note inv = queued_none_inv [OF None Cons.prems(3)]
    have one: "udp_session s1 = udp_session s"
      "recv_state sent payload M n (ut_relStore s1) (returned q @ ut_pendingMessages s1)"
      "(\<exists>e. q = Inl e) \<or> got (ut_relStore s1) = got (ut_relStore s) \<union> set_option A"
      using receiveDatagram_order [OF q _ inv(1) Cons.prems(4) inv(2), of A] As(2) recv by simp_all
    have op: "opens_all E s1 sent payload M"
      using Cons.prems(4) opens_session [OF one(1), of E] by (simp add: opens_all_def)
    consider e where "q = Inl e" | m where "q = Inr (Some m)" | "q = Inr None"
      by (cases q rule: returned.cases) blast+
    then show ?thesis
    proof cases
      case 1
      then have "r = Some (Inl e)" "recvs' = recvs" "s' = s1"
        using Cons.prems(1) None q recv unfold by auto
      then show ?thesis
        using one 1 As(3) by (intro conjI exI [of _ n] exI [of _ As0]) auto
    next
      case 2
      then have "r = Some (Inr m)" "recvs' = recvs" "s' = s1"
        using Cons.prems(1) None q recv unfold by auto
      then show ?thesis
        using one 2 As recv_state_take [of sent payload M n "ut_relStore s1" m "ut_pendingMessages s1"]
        by (auto simp: subset_iff)
    next
      case 3
      then have run: "UdpTransport_receiveMessage E t recvs s1 = (r, recvs', s')"
        using Cons.prems(1) None q recv unfold by simp
      have "recv_state sent payload M n (ut_relStore s1) (ut_pendingMessages s1)"
        using one(2) 3 by simp
      from Cons.IH [OF run As(3) this op] show ?thesis
        using one 3 As(1) by auto
    qed
  qed
qed

section \<open>Datagrams of the encoder\<close>

text \<open>The datagram of a data message that is not fragmented, without a connection id.\<close>

definition data_datagram :: "'w byte_writer \<Rightarrow> DataMessage \<Rightarrow> bytes" where
  "data_datagram W m =
     (case encodeDataHeader W (Data m) 0 False (bw_new W) of
        Inr w \<Rightarrow> bw_written W (bw_writeBytes W w (dm_data m))
      | Inl _ \<Rightarrow> [])"

lemma data_datagram_items:
  assumes D: "dbuf_laws C R rst adv W" and wf: "wf_comp (dm_compHeader m)" "sendable_rel (dm_relHeader m)"
  shows "\<exists>off. datagram_items R (QunetUdpMessageIter_new (data_datagram W m) False) =
    [Inr \<lparr>mm_type = MSG_DATA, mm_compressionHeader = dm_compHeader m, mm_reliabilityHeader = acked_rel (dm_relHeader m),
      mm_fragmentationHeader = None, mm_data = dm_data m, mm_dataOffset = off\<rparr>]"
proof -
  obtain w where w: "encodeDataHeader W (Data m) 0 False (bw_new W) = Ok w"
    "decodeMeta R (bw_written W (bw_writeBytes W w (dm_data m))) True False =
       Ok \<lparr>mm_type = MSG_DATA, mm_compressionHeader = dm_compHeader m,
           mm_reliabilityHeader = acked_rel (dm_relHeader m), mm_fragmentationHeader = None,
           mm_data = dm_data m, mm_dataOffset = length (bw_written W w)\<rparr>"
    "bw_written W (bw_writeBytes W w (dm_data m)) = bw_written W w @ dm_data m"
    using dbuf_laws.data_roundtrip [OF D wf, of 0 True] by auto
  let ?d = "data_datagram W m"
  have d: "?d = bw_written W w @ dm_data m"
    using w by (simp add: data_datagram_def)
  have dec: "decodeMeta R ?d True False =
       Ok \<lparr>mm_type = MSG_DATA, mm_compressionHeader = dm_compHeader m,
           mm_reliabilityHeader = acked_rel (dm_relHeader m), mm_fragmentationHeader = None,
           mm_data = dm_data m, mm_dataOffset = length (bw_written W w)\<rparr>"
    using w(2,3) d by simp
  then have "?d \<noteq> []"
    by (auto simp: decodeMeta_def)
  then show ?thesis
    using dec d
    by (subst datagram_items.simps, subst datagram_items.simps)
      (simp add: QunetUdpMessageIter_next_def QunetUdpMessageIter_new_def)
qed

text \<open>The message \<open>i\<close> of a log of contents, and a datagram that holds at most one of the messages.\<close>

definition entry :: "'c list \<Rightarrow> nat \<Rightarrow> 'c" where
  "entry L i = L ! (i - 1)"

definition numbered :: "(CompressionHeader option \<times> bytes) list \<Rightarrow> DataMessage \<Rightarrow> bool" where
  "numbered L m \<longleftrightarrow> wf_comp (dm_compHeader m) \<and> sendable_rel (dm_relHeader m) \<and>
     (\<exists>i rh. dm_relHeader m = Some rh \<and> 1 \<le> i \<and> i \<le> length L \<and> rh_messageId rh = of_nat i \<and>
       (dm_compHeader m, dm_data m) = entry L i)"

definition ack_message :: "DataMessage \<Rightarrow> bool" where
  "ack_message m \<longleftrightarrow> dm_data m = [] \<and> dm_compHeader m = None \<and> sendable_rel (dm_relHeader m) \<and>
     (\<exists>rh. dm_relHeader m = Some rh \<and> rh_messageId rh = 0)"

definition datagram_ok :: "'r byte_reader \<Rightarrow> (CompressionHeader option \<times> bytes) list \<Rightarrow> bytes \<Rightarrow> bool" where
  "datagram_ok R L d \<longleftrightarrow>
     (\<exists>A. carries_items (entry L) (length L) A (datagram_items R (QunetUdpMessageIter_new d False)))"

lemma numbered_datagram:
  assumes "dbuf_laws C R rst adv W" and "numbered L m" and "length L \<le> 16383"
  shows "datagram_ok R L (data_datagram W m)"
proof -
  obtain i rh where i: "dm_relHeader m = Some rh" "1 \<le> i" "i \<le> length L" "rh_messageId rh = of_nat i"
    "(dm_compHeader m, dm_data m) = entry L i"
    using assms(2) by (auto simp: numbered_def)
  have wf: "wf_comp (dm_compHeader m)" "sendable_rel (dm_relHeader m)"
    using assms(2) by (simp_all add: numbered_def)
  obtain off where items: "datagram_items R (QunetUdpMessageIter_new (data_datagram W m) False) =
    [Inr \<lparr>mm_type = MSG_DATA, mm_compressionHeader = dm_compHeader m, mm_reliabilityHeader = acked_rel (dm_relHeader m),
      mm_fragmentationHeader = None, mm_data = dm_data m, mm_dataOffset = off\<rparr>]"
    using data_datagram_items [OF assms(1) wf] by blast
  have "carries_items (entry L) (length L) (Some i) (datagram_items R (QunetUdpMessageIter_new (data_datagram W m) False))"
    using i wf(2) assms(3) unfolding items carries_items_def
    by (auto simp: brings_def arrives_def carries_def acks_ok_def relId_def content_def acked_rel_def sent_acks_def
        sendable_rel_def intro!: exI [of _ "[]"])
  then show ?thesis
    unfolding datagram_ok_def ..
qed

lemma ack_datagram:
  assumes "dbuf_laws C R rst adv W" and "ack_message m"
  shows "datagram_ok R L (data_datagram W m)"
proof -
  obtain off where items: "datagram_items R (QunetUdpMessageIter_new (data_datagram W m) False) =
    [Inr \<lparr>mm_type = MSG_DATA, mm_compressionHeader = dm_compHeader m, mm_reliabilityHeader = acked_rel (dm_relHeader m),
      mm_fragmentationHeader = None, mm_data = dm_data m, mm_dataOffset = off\<rparr>]"
    using data_datagram_items [OF assms(1), of m] assms(2) by (auto simp: ack_message_def wf_comp_def)
  have "carries_items (entry L) (length L) None (datagram_items R (QunetUdpMessageIter_new (data_datagram W m) False))"
    using assms(2) unfolding items
    by (auto simp: carries_items_def quiet_def ack_message_def acked_rel_def relId_def)
  then show ?thesis
    unfolding datagram_ok_def ..
qed

text \<open>A log only grows.\<close>

lemma entry_append: "1 \<le> i \<Longrightarrow> i \<le> length L \<Longrightarrow> entry (L @ L') i = entry L i"
  by (cases i) (simp_all add: entry_def nth_append)

lemma numbered_grows: "numbered L m \<Longrightarrow> numbered (L @ L') m"
  unfolding numbered_def by (metis entry_append length_append trans_le_add1)

lemma datagram_ok_grows:
  assumes "datagram_ok R L d" and "length (L @ L') \<le> 16383"
  shows "datagram_ok R (L @ L') d"
proof -
  obtain A where A: "carries_items (entry L) (length L) A (datagram_items R (QunetUdpMessageIter_new d False))"
    using assms(1) unfolding datagram_ok_def ..
  have "brings (entry (L @ L')) (length (L @ L')) i meta" if "brings (entry L) (length L) i meta" for i meta
    using that assms(2) entry_append [of i L L'] by (auto simp: brings_def arrives_def carries_def)
  then have "carries_items (entry (L @ L')) (length (L @ L')) A (datagram_items R (QunetUdpMessageIter_new d False))"
    using A by (cases A) (auto simp: carries_items_def)
  then show ?thesis
    unfolding datagram_ok_def ..
qed

lemma rel_inv_grows:
  assumes "rel_inv (entry L) (length L) n st" and "length (L @ L') \<le> 16383"
  shows "rel_inv (entry (L @ L')) (length (L @ L')) n st"
proof -
  have grows: "\<exists>i. n < i \<and> i \<le> length (L @ L') \<and> carries (entry (L @ L')) i (so_meta m)"
    if mem: "m \<in> set (rs_remoteOutOfOrder st)" for m
  proof -
    obtain i where i: "n < i" "i \<le> length L" "carries (entry L) i (so_meta m)"
      using mem assms(1) rel_mid_id [of "entry L" "length L" n st m] by (auto simp: rel_inv_def)
    have "entry (L @ L') i = entry L i"
      using i(1,2) by (intro entry_append) simp_all
    then have "carries (entry (L @ L')) i (so_meta m)"
      using i(3) by (simp only: carries_def)
    moreover have "i \<le> length (L @ L')"
      using i(2) by simp
    ultimately show ?thesis
      using i(1) by blast
  qed
  have "n \<le> length (L @ L')" "length (L @ L') \<le> 65534"
    using assms by (simp_all add: rel_inv_def rel_mid_def)
  then show ?thesis
    using assms(1) grows by (simp add: rel_inv_def rel_mid_def)
qed

lemma recv_state_grows:
  assumes "recv_state (entry L) payload (length L) n st out" and "length (L @ L') \<le> 16383"
  shows "recv_state (entry (L @ L')) payload (length (L @ L')) n st out"
proof -
  obtain k n1 where k: "n \<le> k" "k \<le> n1" "data_of out = map payload [n + 1..<k + 1]"
    "map content (rs_remoteDelayedQueue st) = map (entry L) [k + 1..<n1 + 1]"
    "rel_inv (entry L) (length L) n1 (st\<lparr>rs_remoteDelayedQueue := []\<rparr>)"
    using assms(1) unfolding recv_state_def by blast
  have "n1 \<le> length L"
    using k(5) by (simp add: rel_inv_def rel_mid_def)
  then have "map (entry L) [k + 1..<n1 + 1] = map (entry (L @ L')) [k + 1..<n1 + 1]"
    by (intro map_cong refl) (auto simp: entry_append)
  then show ?thesis
    using k rel_inv_grows [OF k(5) assms(2)] by (intro recv_stateI [of n k n1]) simp_all
qed

end
