(* ===== verification/Udp_Pair.thy ===== *)
theory Udp_Pair
  imports Udp_Order Qunet_Socket
begin

text \<open>
  Two UDP transports and a network between them that loses, repeats and reorders datagrams: whatever
  both sides send, receive, acknowledge and send again, each hands on the reliable messages of the
  other in order and once.
\<close>

section \<open>What sending keeps\<close>

definition fits :: "nat \<Rightarrow> DataMessage \<Rightarrow> bool" where
  "fits mtu m \<longleftrightarrow> commonHdrSize + relHdrSize m + compHdrSize m + length (dm_data m) \<le> mtu"

text \<open>The sender: its unacknowledged messages and the datagrams that it sent hold messages of its log.\<close>

definition send_inv :: "'r byte_reader \<Rightarrow> (CompressionHeader option \<times> bytes) list \<Rightarrow>
    ('cd, 'dd, 'd, 'i, 'f) UdpTransport \<Rightarrow> bool" where
  "send_inv R L s \<longleftrightarrow> length L \<le> 16383 \<and> 29 \<le> ut_mtu s \<and> bt_connectionId (ut_base s) = 0 \<and>
     rs_nextLocalId (ut_relStore s) = of_nat (Suc (length L)) \<and>
     (\<forall>u\<in>set (rs_localUnacked (ut_relStore s)). \<exists>m. ul_msg u = Data m \<and> numbered L m \<and> fits (ut_mtu s) m) \<and>
     (\<forall>d\<in>set (ut_wire s). datagram_ok R L d)"

text \<open>What concerns the receiving side only.\<close>

definition recv_part :: "('cd, 'dd, 'd, 'i, 'f) UdpTransport \<Rightarrow> _" where
  "recv_part s = (rs_nextRemoteId (ut_relStore s), rs_remoteOutOfOrder (ut_relStore s),
     rs_remoteDelayedQueue (ut_relStore s), ut_pendingMessages s, udp_session s)"

lemma recv_part_state:
  assumes "recv_part s' = recv_part s"
  shows "recv_state sent payload M n (ut_relStore s') (ut_pendingMessages s') =
    recv_state sent payload M n (ut_relStore s) (ut_pendingMessages s)" and "udp_session s' = udp_session s"
  using assms by (simp_all add: recv_part_def recv_state_def rel_inv_def rel_mid_def stored_ids_def)

definition sends_ok :: "'r byte_reader \<Rightarrow> (CompressionHeader option \<times> bytes) list \<Rightarrow>
    ('cd, 'dd, 'd, 'i, 'f) UdpTransport \<Rightarrow> ('cd, 'dd, 'd, 'i, 'f) UdpTransport \<Rightarrow> bool" where
  "sends_ok R L s s' \<longleftrightarrow> send_inv R L s' \<and> recv_part s' = recv_part s"

lemma socketSend_effect:
  assumes "socketSend E data s = (r, s')"
  shows "recv_part s' = recv_part s" and "ut_relStore s' = ut_relStore s" and "ut_base s' = ut_base s"
    and "ut_mtu s' = ut_mtu s" and "set (ut_wire s') \<subseteq> insert data (set (ut_wire s))"
  using assms by (auto simp: socketSend_def recv_part_def Let_def split: sum.splits if_splits)

lemma send_inv_base [simp]:
  "send_inv R L (on_base (updateLastActivity now) s) = send_inv R L s"
  "send_inv R L (on_base (updateLastSentKeepalive now) s) = send_inv R L s"
  "send_inv R L (on_base (logOutgoingMessage T now hb ctx) s) = send_inv R L s"
  "send_inv R L (on_tracker g s) = send_inv R L s"
  "send_inv R L (s\<lparr>ut_padRng := rng\<rparr>) = send_inv R L s"
  by (simp_all add: send_inv_def on_tracker_def on_base_def updateLastActivity_def updateLastSentKeepalive_def
      logOutgoingMessage_def)

lemma recv_part_base [simp]:
  "recv_part (on_base (updateLastActivity now) s) = recv_part s"
  "recv_part (on_base (updateLastSentKeepalive now) s) = recv_part s"
  "recv_part (on_base (logOutgoingMessage T now hb ctx) s) = recv_part s"
  "recv_part (on_tracker g s) = recv_part s"
  "recv_part (s\<lparr>ut_padRng := rng\<rparr>) = recv_part s"
  by (simp_all add: recv_part_def on_tracker_def on_base_def)

lemma sends_ok_refl: "send_inv R L s \<Longrightarrow> sends_ok R L s s"
  by (simp add: sends_ok_def)

lemma sends_ok_trans: "sends_ok R L s s' \<Longrightarrow> sends_ok R L s' s'' \<Longrightarrow> sends_ok R L s s''"
  by (simp add: sends_ok_def)

lemma sent_datagram:
  assumes "send_inv R L s" and "socketSend E data s = (r, s')" and "datagram_ok R L data"
  shows "sends_ok R L s s'"
  using assms(1,3) socketSend_effect [OF assms(2)] by (auto simp: sends_ok_def send_inv_def)

text \<open>A message that was numbered before, or acknowledgements.\<close>

lemma doSend_ok:
  assumes D: "dbuf_laws C R rst adv (en_writer E)" and inv: "send_inv R L s"
    and m: "numbered L m \<or> ack_message m" and fit: "fits (ut_mtu s) m"
    and run: "doSendUnfragmentedData E now (Data m) ctx again s = Some (r, s')"
  shows "sends_ok R L s s'"
proof -
  have wf: "wf_comp (dm_compHeader m)" "sendable_rel (dm_relHeader m)"
    using m by (auto simp: numbered_def ack_message_def wf_comp_def)
  obtain w where w: "encodeDataHeader (en_writer E) (Data m) 0 False (bw_new (en_writer E)) = Ok w"
    using dbuf_laws.data_roundtrip [OF D wf, of 0] by auto
  then have dg: "bw_written (en_writer E) (bw_writeBytes (en_writer E) w (dm_data m)) = data_datagram (en_writer E) m"
    by (simp add: data_datagram_def)
  have len: "length L \<le> 16383" and cid: "bt_connectionId (ut_base s) = 0"
    using inv by (simp_all add: send_inv_def)
  have ok: "datagram_ok R L (data_datagram (en_writer E) m)"
    using m numbered_datagram [OF D _ len] ack_datagram [OF D] by blast
  let ?rel = "case dm_relHeader m of None \<Rightarrow> False | Some rh \<Rightarrow> rh_messageId rh \<noteq> 0 \<and> \<not> again"
  obtain r1 s1 where s1: "socketSend E (data_datagram (en_writer E) m) s = (r1, s1)"
    by fastforce
  have sent: "sends_ok R L s s1"
    by (rule sent_datagram [OF inv s1 ok])
  have mtu: "ut_mtu s1 = ut_mtu s"
    by (rule socketSend_effect(4) [OF s1])
  obtain r2 s2 where s2: "rememberUnacked now ?rel m s1 = (r2, s2)"
    by fastforce
  have kept: "sends_ok R L s1 s2"
  proof (cases ?rel)
    case True
    then have "numbered L m"
      using m by (auto simp: ack_message_def split: option.splits)
    then show ?thesis
      using s2 True sent fit mtu
      by (auto simp: rememberUnacked_def pushLocalUnacked_def sends_ok_def send_inv_def recv_part_def Let_def
          split: if_splits)
  next
    case False
    then show ?thesis
      using s2 sent by (auto simp: rememberUnacked_def sends_ok_def)
  qed
  show ?thesis
    using run fit w dg cid s1 s2 sends_ok_trans [OF sent kept] sent kept
    by (auto simp: doSendUnfragmentedData_def Let_def fits_def step_then_def must_def sends_ok_def
        split: sum.splits option.splits)
qed

section \<open>Timers\<close>

lemma retransmit_queue:
  assumes "maybeRetransmit_loop T now st q = (r, q')"
  shows "map ul_msg q' = map ul_msg q" and "r = Ok (Some msg) \<Longrightarrow> msg \<in> ul_msg ` set q"
  using assms
proof (induction q arbitrary: q')
  case (Cons u q)
  {
    case 1
    then show ?case
      using Cons.IH(1) by (auto simp: Let_def split: if_splits prod.splits)
  next
    case 2
    then show ?case
      using Cons.IH(2) by (auto simp: Let_def split: if_splits prod.splits)
  }
qed simp_all

lemma maybeRetransmit_ok:
  assumes "send_inv R L s" and "maybeRetransmit T now (ut_relStore s) = (r, st)"
  shows "sends_ok R L s (s\<lparr>ut_relStore := st\<rparr>)"
    and "r = Ok (Some msg) \<Longrightarrow> \<exists>m. msg = Data m \<and> numbered L m \<and> fits (ut_mtu s) m"
proof -
  obtain q where q: "maybeRetransmit_loop T now (ut_relStore s) (rs_localUnacked (ut_relStore s)) = (r, q)"
    "st = (ut_relStore s)\<lparr>rs_localUnacked := q\<rparr>"
    using assms(2) by (auto simp: maybeRetransmit_def Let_def split: prod.splits)
  have held: "\<forall>x\<in>ul_msg ` set (rs_localUnacked (ut_relStore s)). \<exists>m. x = Data m \<and> numbered L m \<and> fits (ut_mtu s) m"
    using assms(1) by (simp add: send_inv_def)
  have "\<forall>x\<in>ul_msg ` set q. \<exists>m. x = Data m \<and> numbered L m \<and> fits (ut_mtu s) m"
    using held retransmit_queue(1) [OF q(1), THEN arg_cong, of set] by simp
  then show "sends_ok R L s (s\<lparr>ut_relStore := st\<rparr>)"
    using assms(1) q(2) by (simp add: sends_ok_def send_inv_def recv_part_def)
  show "r = Ok (Some msg) \<Longrightarrow> \<exists>m. msg = Data m \<and> numbered L m \<and> fits (ut_mtu s) m"
    using held retransmit_queue(2) [OF q(1)] by blast
qed

lemma logOutgoing_ok:
  assumes "send_inv R L s" and "logOutgoing E now msg ctx s = (r, s')"
  shows "sends_ok R L s s'"
  using assms by (auto simp: logOutgoing_def step_then_def sends_ok_def split: sum.splits)

lemma sends_ok_inv: "sends_ok R L s s' \<Longrightarrow> send_inv R L s'"
  by (simp add: sends_ok_def)

lemma io_then_ok:
  assumes "io_then m f = Some (r, s')" and "send_inv R L s"
    and "\<And>r1 s1. m = Some (r1, s1) \<Longrightarrow> sends_ok R L s s1"
    and "\<And>a s1. m = Some (Ok a, s1) \<Longrightarrow> send_inv R L s1 \<Longrightarrow> f a s1 = Some (r, s') \<Longrightarrow> sends_ok R L s1 s'"
  shows "sends_ok R L s s'"
proof -
  obtain r1 s1 where m: "m = Some (r1, s1)"
    using assms(1) by (cases m) auto
  then have s1: "sends_ok R L s s1"
    by (rule assms(3))
  show ?thesis
  proof (cases r1)
    case (Inl e)
    then show ?thesis
      using assms(1) m s1 by simp
  next
    case (Inr a)
    then have "sends_ok R L s1 s'"
      using assms(1) m s1 by (intro assms(4) [of a]) (simp_all add: sends_ok_inv)
    then show ?thesis
      by (rule sends_ok_trans [OF s1])
  qed
qed

lemma retransmitDue_ok_raw:
  fixes E :: "('r, 'w, 'cd, 'dd, 'd, 'i, 'f) qn_env"
  assumes "retransmitDue E now s = Some p"
  shows "dbuf_laws C R rst adv (en_writer E) \<longrightarrow> send_inv R L s \<longrightarrow>
    sends_ok R L s (snd p)"
proof (rule retransmitDue.raw_induct [OF _ assms, where P = "\<lambda>E now s p. dbuf_laws C R rst adv (en_writer E) \<longrightarrow>
    send_inv R L s \<longrightarrow> sends_ok R L s (snd p)"], intro impI)
  fix rd and E :: "('r, 'w, 'cd, 'dd, 'd, 'i, 'f) qn_env" and now s p
  assume ih: "\<And>E now s p. rd E now s = Some p \<Longrightarrow> dbuf_laws C R rst adv (en_writer E) \<longrightarrow>
      send_inv R L s \<longrightarrow> sends_ok R L s (snd p)"
    and run: "(let (r, st) = maybeRetransmit (en_time E) now (ut_relStore s); s = s\<lparr>ut_relStore := st\<rparr>
      in io_then (Some (r, s)) (\<lambda>due s. case due of None \<Rightarrow> Some (Ok (), s)
         | Some msg \<Rightarrow> io_then (doSendUnfragmentedData E now msg SentMessageContext_new True s) (\<lambda>ctx s.
             io_then (Some (logOutgoing E now msg ctx s)) (\<lambda>_ s. rd E now s)))) = Some p"
    and D: "dbuf_laws C R rst adv (en_writer E)" and inv: "send_inv R L s"
  obtain r st where st: "maybeRetransmit (en_time E) now (ut_relStore s) = (r, st)"
    by fastforce
  obtain r' s' where p: "p = (r', s')"
    by (cases p)
  note mr = maybeRetransmit_ok [OF inv st]
  show "sends_ok R L s (snd p)"
    unfolding p snd_conv
  proof (rule io_then_ok [OF run [unfolded st p Let_def prod.case] inv])
    fix due s1
    assume due: "Some (r, s\<lparr>ut_relStore := st\<rparr>) = Some (Ok due, s1)" and inv1: "send_inv R L s1"
      and go: "(case due of None \<Rightarrow> Some (Ok (), s1)
         | Some msg \<Rightarrow> io_then (doSendUnfragmentedData E now msg SentMessageContext_new True s1) (\<lambda>ctx s.
             io_then (Some (logOutgoing E now msg ctx s)) (\<lambda>_ s. rd E now s))) = Some (r', s')"
    show "sends_ok R L s1 s'"
    proof (cases due)
      case None
      then show ?thesis
        using go inv1 by (simp add: sends_ok_refl)
    next
      case (Some msg)
      obtain m where m: "msg = Data m" "numbered L m" "fits (ut_mtu s) m"
        using mr(2) due Some by auto
      have mtu: "ut_mtu s1 = ut_mtu s"
        using due by auto
      show ?thesis
      proof (rule io_then_ok [OF go [unfolded Some option.case] inv1])
        fix r2 s2
        assume sent: "doSendUnfragmentedData E now msg SentMessageContext_new True s1 = Some (r2, s2)"
        have fit: "fits (ut_mtu s1) m"
          using m(3) mtu by simp
        show "sends_ok R L s1 s2"
          by (rule doSend_ok [OF D inv1 disjI1 [OF m(2)] fit sent [unfolded m(1)]])
      next
        fix ctx s2
        assume inv2: "send_inv R L s2"
          and go2: "io_then (Some (logOutgoing E now msg ctx s2)) (\<lambda>_ s. rd E now s) = Some (r', s')"
        show "sends_ok R L s2 s'"
          using logOutgoing_ok [OF inv2] ih D by (intro io_then_ok [OF go2 inv2]) force+
      qed
    qed
  qed (use mr(1) in auto)
qed


lemma retransmitDue_ok:
  assumes "dbuf_laws C R rst adv (en_writer E)" and "send_inv R L s" and "retransmitDue E now s = Some (r, s')"
  shows "sends_ok R L s s'"
  using retransmitDue_ok_raw [OF assms(3), THEN mp, THEN mp, OF assms(1,2)] by simp

text \<open>The acknowledgements of a message: at most eight, which leaves 29 bytes of a datagram enough.\<close>

lemma takeOutgoingAcks_ok:
  assumes "takeOutgoingAcks s = (h, s')"
  shows "rh_messageId h = 0" and "sendable_rel (Some h)" and "recv_part s' = recv_part s"
    and "send_inv R L s' = send_inv R L s" and "ut_mtu s' = ut_mtu s"
    and "rs_nextLocalId (ut_relStore s') = rs_nextLocalId (ut_relStore s)"
proof -
  obtain st where st: "setOutgoingAcks_loop 0 8 (emptyRelHeader\<lparr>rh_ackCount := 0\<rparr>) (ut_relStore s) = (h, st)"
    "s' = s\<lparr>ut_relStore := st\<rparr>"
    using assms by (auto simp: takeOutgoingAcks_def setOutgoingAcks_def split: prod.splits)
  note spec = setOutgoingAcks_loop_spec [OF _ _ st(1)]
  show "rh_messageId h = 0" "sendable_rel (Some h)" "recv_part s' = recv_part s"
    "send_inv R L s' = send_inv R L s" "ut_mtu s' = ut_mtu s"
    "rs_nextLocalId (ut_relStore s') = rs_nextLocalId (ut_relStore s)"
    using spec st(2) by (simp_all add: emptyRelHeader_def sendable_rel_def recv_part_def send_inv_def)
qed

lemma sendUrgentAcks_ok:
  fixes E :: "('r, 'w, 'cd, 'dd, 'd, 'i, 'f) qn_env"
  assumes D: "dbuf_laws C R rst adv (en_writer E)" and inv: "send_inv R L s"
    and run: "sendUrgentAcks E now s = Some (r, s')"
  shows "sends_ok R L s s'"
proof (cases "hasUrgentOutgoingAcks (en_time E) now (ut_relStore s)")
  case False
  then show ?thesis
    using run inv by (simp add: sendUrgentAcks_def sends_ok_refl)
next
  case True
  obtain h s1 where h: "takeOutgoingAcks s = (h, s1)"
    by fastforce
  note a = takeOutgoingAcks_ok [OF h]
  let ?m = "\<lparr>dm_data = [], dm_compHeader = None, dm_relHeader = Some h\<rparr>"
  have inv1: "send_inv R L s1"
    using inv by (simp add: a(4))
  have m: "ack_message ?m"
    using a(1,2) by (simp add: ack_message_def)
  have fit: "fits (ut_mtu s1) ?m"
    using a(2) inv1 by (simp add: fits_def relHdrSize_def compHdrSize_def sendable_rel_def send_inv_def)
  have go: "io_then (doSendUnfragmentedData E now (Data ?m) SentMessageContext_new False s1)
      (\<lambda>ctx s. Some (logOutgoing E now (Data ?m) ctx s)) = Some (r, s')"
    using run True h by (simp add: sendUrgentAcks_def Let_def)
  have "sends_ok R L s1 s'"
  proof (rule io_then_ok [OF go inv1])
    fix r2 s2
    assume "doSendUnfragmentedData E now (Data ?m) SentMessageContext_new False s1 = Some (r2, s2)"
    then show "sends_ok R L s1 s2"
      by (rule doSend_ok [OF D inv1 disjI2 [OF m] fit])
  next
    fix ctx s2
    assume "send_inv R L s2" "Some (logOutgoing E now (Data ?m) ctx s2) = Some (r, s')"
    then show "sends_ok R L s2 s'"
      by (auto intro: logOutgoing_ok)
  qed
  then show ?thesis
    using a(3) by (simp add: sends_ok_def)
qed

text \<open>A keepalive and its padding bring no data.\<close>

lemma items_step:
  assumes "n < length d" and "decodeMeta R (drop n d) True False = Ok meta"
  shows "datagram_items R \<lparr>it_data = d, it_pos = n, it_eof = False, it_server = False\<rparr> = Inr meta #
    datagram_items R \<lparr>it_data = d, it_pos = n + (mm_dataOffset meta + length (mm_data meta)), it_eof = False,
      it_server = False\<rparr>"
  using assms by (subst datagram_items.simps) (simp add: QunetUdpMessageIter_next_def)

lemma items_end:
  "length d \<le> n \<Longrightarrow> datagram_items R \<lparr>it_data = d, it_pos = n, it_eof = False, it_server = False\<rparr> = []"
  by (subst datagram_items.simps) (simp add: QunetUdpMessageIter_next_def)

lemma keepalive_datagram:
  assumes D: "dbuf_laws C R rst adv W" and raw: "\<And>x. length (raw x) = 8"
    and enc: "encodeControlMsg W (KeepaliveMessage t) 0 (bw_new W) = Ok w"
    and pad: "padMessageToMinimum W raw rng w = Ok (rng', w')"
  shows "datagram_ok R L (bw_written W w')"
proof -
  have C: "codec_laws C"
    using D by (rule dbuf_laws.axioms)
  have "bw_written W w = 3 # put64 C t @ [0]"
    using dbuf_laws.control_framing [OF D, of "KeepaliveMessage t" 3 "put64 C t @ [0]" 0] enc
    by (simp add: dbuf_laws.encode_bodies [OF D] lengthForNonData_simps codec_laws.len64 [OF C] wire_conn_def
        del: QunetMessage_encode.simps)
  moreover obtain p where p: "bw_written W w' = bw_written W w @ p" "p = [] \<or> hd p = MSG_PADDING"
    using dbuf_laws.padMessageToMinimum_holds [OF D, of raw w "bw_written W w" rng] raw pad by auto
  ultimately have dg: "bw_written W w' = 3 # [] @ (put64 C t @ [0] @ p)"
    by simp
  let ?d = "bw_written W w'"
  have len: "length (put64 C t) = 8"
    by (rule codec_laws.len64 [OF C])
  have one: "decodeMeta R ?d True False = Ok \<lparr>mm_type = 3, mm_compressionHeader = None,
      mm_reliabilityHeader = None, mm_fragmentationHeader = None, mm_data = put64 C t @ [0], mm_dataOffset = 1\<rparr>"
    unfolding dg by (subst decodeMeta_control) (simp_all add: lengthForNonData_simps len)
  have two: "decodeMeta R p True False = Ok \<lparr>mm_type = 127, mm_compressionHeader = None,
      mm_reliabilityHeader = None, mm_fragmentationHeader = None, mm_data = tl p, mm_dataOffset = 1\<rparr>" if ne: "p \<noteq> []"
  proof -
    obtain cs where cs: "p = 127 # [] @ cs"
      using ne p(2) by (cases p) auto
    have "br_remainingSize R (br_open R cs) = length cs"
      using dbuf_laws.axioms(2) [OF D] by (simp add: byte_reader_laws.remainingSize byte_reader_laws.rest_open)
    then show ?thesis
      unfolding cs by (subst decodeMeta_control) (simp_all add: lengthForNonData_simps)
  qed
  let ?it = "\<lambda>n. \<lparr>it_data = ?d, it_pos = n, it_eof = False, it_server = False\<rparr>"
  have start: "datagram_items R (?it 0) = Inr \<lparr>mm_type = 3, mm_compressionHeader = None,
      mm_reliabilityHeader = None, mm_fragmentationHeader = None, mm_data = put64 C t @ [0], mm_dataOffset = 1\<rparr>
      # datagram_items R (?it 10)"
    using items_step [of 0 ?d R] one dg len by simp
  have "drop 10 ?d = p" "length ?d = 10 + length p"
    using dg len by simp_all
  then have rest: "datagram_items R (?it 10) = (if p = [] then [] else [Inr \<lparr>mm_type = 127, mm_compressionHeader = None,
      mm_reliabilityHeader = None, mm_fragmentationHeader = None, mm_data = tl p, mm_dataOffset = 1\<rparr>])"
    using items_step [of 10 ?d R] items_end [of ?d 10 R] items_end [of ?d "length ?d" R] two by simp
  have "\<forall>m. Inr m \<in> set (datagram_items R (QunetUdpMessageIter_new ?d False)) \<longrightarrow> quiet m"
    unfolding QunetUdpMessageIter_new_def start rest by (simp add: quiet_def)
  then show ?thesis
    unfolding datagram_ok_def by (intro exI [of _ None]) (simp add: carries_items_def)
qed


lemma sendKeepalive_ok:
  assumes D: "dbuf_laws C R rst adv (en_writer E)" and raw: "\<And>x. length (en_raw E x) = 8" and inv: "send_inv R L s"
    and run: "UdpTransport_sendPlain E now stamp (KeepaliveMessage t) False s = Some (r, s')"
  shows "sends_ok R L s s'"
proof -
  let ?s = "on_base (updateLastSentKeepalive now) s"
  have start: "send_inv R L ?s" "recv_part ?s = recv_part s"
    using inv by simp_all
  have cid: "bt_connectionId (ut_base ?s) = 0"
    using start(1) by (simp add: send_inv_def)
  have sent: "sends_ok R L s s2" if c: "sendControl E now stamp (KeepaliveMessage t) s = (r2, s2)" for r2 s2
  proof (cases "encodeControlMsg (en_writer E) (KeepaliveMessage stamp) 0 (bw_new (en_writer E))")
    case (Inl e)
    then show ?thesis
      using c start cid by (cases e) (auto simp: sendControl_def Let_def sends_ok_def step_then_def)
  next
    case (Inr w)
    show ?thesis
    proof (cases "padMessageToMinimum (en_writer E) (en_raw E) (ut_padRng ?s) w")
      case (Inl e)
      then show ?thesis
          using c start cid Inr by (cases e) (auto simp: sendControl_def Let_def sends_ok_def step_then_def must_def)
    next
      case pad: (Inr q)
      obtain rng w' where q: "q = (rng, w')"
        by (cases q)
      let ?s1 = "?s\<lparr>ut_padRng := rng\<rparr>"
      obtain r3 s3 where s3: "socketSend E (bw_written (en_writer E) w') ?s1 = (r3, s3)"
        by fastforce
      have ok: "datagram_ok R L (bw_written (en_writer E) w')"
        by (rule keepalive_datagram [OF D raw Inr pad [unfolded q]])
      have inv1: "send_inv R L ?s1"
        using start by simp
      have "sends_ok R L ?s1 s3"
        by (rule sent_datagram [OF inv1 s3 ok])
      then have "send_inv R L s3" "recv_part s3 = recv_part s"
        by (simp_all add: sends_ok_def)
      then show ?thesis
        using c cid Inr pad q s3
        by (auto simp: sendControl_def Let_def sends_ok_def must_def step_then_def split: sum.splits)
    qed
  qed
  show ?thesis
  proof (rule io_then_ok [OF run [unfolded UdpTransport_sendPlain_def] inv])
    fix r2 s2
    assume "UdpTransport_sendMessage E now stamp (KeepaliveMessage t) (SentMessageContext_new\<lparr>cx_reliable := False\<rparr>) s =
      Some (r2, s2)"
    then show "sends_ok R L s s2"
      using sent by (auto simp: UdpTransport_sendMessage_def step_then_def split: prod.splits sum.splits)
  next
    fix ctx s2
    assume "send_inv R L s2" "Some (logOutgoing E now (KeepaliveMessage t) ctx s2) = Some (r, s')"
    then show "sends_ok R L s2 s'"
      by (auto intro: logOutgoing_ok)
  qed
qed

lemma timer_ok:
  fixes E :: "('r, 'w, 'cd, 'dd, 'd, 'i, 'f) qn_env"
  assumes D: "dbuf_laws C R rst adv (en_writer E)" and raw: "\<And>x. length (en_raw E x) = 8" and inv: "send_inv R L s"
    and run: "UdpTransport_handleTimerExpiry E now stamp s = Some (r, s')"
  shows "sends_ok R L s s'"
proof (rule io_then_ok [OF run [unfolded UdpTransport_handleTimerExpiry_def] inv])
  fix r1 s1
  assume "Some (BaseTransport_handleTimerExpiry (ut_base s), s) = Some (r1, s1)"
  then show "sends_ok R L s s1"
    using inv by (auto simp: sends_ok_refl)
next
  fix a s1
  assume inv1: "send_inv R L s1"
    and go: "io_then (retransmitDue E now s1) (\<lambda>_ s. io_then (sendUrgentAcks E now s) (\<lambda>_ s.
       if tm_isZero (en_time E) (untilKeepalive (en_time E) now s)
       then UdpTransport_sendPlain E now stamp (KeepaliveMessage 0) False s else Some (Ok (), s))) = Some (r, s')"
  show "sends_ok R L s1 s'"
  proof (rule io_then_ok [OF go inv1])
    fix r2 s2
    assume "retransmitDue E now s1 = Some (r2, s2)"
    then show "sends_ok R L s1 s2"
      by (rule retransmitDue_ok [OF D inv1])
  next
    fix a2 s2
    assume inv2: "send_inv R L s2"
      and go2: "io_then (sendUrgentAcks E now s2) (\<lambda>_ s. if tm_isZero (en_time E) (untilKeepalive (en_time E) now s)
         then UdpTransport_sendPlain E now stamp (KeepaliveMessage 0) False s else Some (Ok (), s)) = Some (r, s')"
    show "sends_ok R L s2 s'"
    proof (rule io_then_ok [OF go2 inv2])
      fix r3 s3
      assume "sendUrgentAcks E now s2 = Some (r3, s3)"
      then show "sends_ok R L s2 s3"
        by (rule sendUrgentAcks_ok [OF D inv2])
    next
      fix a3 s3
      assume inv3: "send_inv R L s3"
        and "(if tm_isZero (en_time E) (untilKeepalive (en_time E) now s3)
           then UdpTransport_sendPlain E now stamp (KeepaliveMessage 0) False s3 else Some (Ok (), s3)) = Some (r, s')"
      then show "sends_ok R L s3 s'"
        using sendKeepalive_ok [OF D raw inv3, of now stamp 0 r s'] by (auto simp: sends_ok_refl split: if_splits)
    qed
  qed
qed

lemma latency_ok:
  assumes "send_inv R L s"
  shows "sends_ok R L s (UdpTransport_updateLatency T D rtt s)"
  using assms
  by (auto simp: UdpTransport_updateLatency_def BaseTransport_updateLatency_def on_base_def updateRtt_def Let_def
      sends_ok_def send_inv_def recv_part_def session_def)

section \<open>Sending a reliable message\<close>

lemma nonzero_u16: "0 < k \<Longrightarrow> k < 65536 \<Longrightarrow> (of_nat k :: u16) \<noteq> 0"
  using unat_of_nat_u16 [of k] by (metis less_numeral_extra(3) unat_0)

definition sendable :: "nat \<Rightarrow> DataMessage \<Rightarrow> bool" where
  "sendable mtu m \<longleftrightarrow> wf_comp (dm_compHeader m) \<and> 29 + compHdrSize m + length (dm_data m) \<le> mtu"

lemma send_inv_grows:
  assumes "send_inv R L s" and "length L < 16383"
  shows "send_inv R (L @ [c]) (s\<lparr>ut_relStore := (ut_relStore s)\<lparr>rs_nextLocalId := of_nat (Suc (Suc (length L)))\<rparr>\<rparr>)"
  using assms numbered_grows [of L _ "[c]"] datagram_ok_grows [of R L _ "[c]"] by (fastforce simp: send_inv_def)

lemma send_ok:
  fixes E :: "('r, 'w, 'cd, 'dd, 'd, 'i, 'f) qn_env"
  assumes D: "dbuf_laws C R rst adv (en_writer E)" and inv: "send_inv R L s" and len: "length L < 16383"
    and m: "sendable (ut_mtu s) m" and rel: "cx_reliable ctx"
    and run: "UdpTransport_sendMessage E now stamp (Data m) ctx s = Some (r, s')"
  shows "send_inv R (L @ [(dm_compHeader m, dm_data m)]) s'" and "recv_part s' = recv_part s"
proof -
  obtain h s1 where h: "takeOutgoingAcks s = (h, s1)"
    by fastforce
  note a = takeOutgoingAcks_ok [OF h]
  let ?L = "L @ [(dm_compHeader m, dm_data m)]"
  let ?n = "of_nat (Suc (length L)) :: u16"
  let ?s2 = "s1\<lparr>ut_relStore := (ut_relStore s1)\<lparr>rs_nextLocalId := of_nat (Suc (Suc (length L)))\<rparr>\<rparr>"
  let ?m = "m\<lparr>dm_relHeader := Some (h\<lparr>rh_messageId := ?n\<rparr>)\<rparr>"
  let ?n2 = "of_nat (Suc (Suc (length L))) :: u16"
  have n: "?n \<noteq> 0" "?n2 \<noteq> 0"
    using len by (intro nonzero_u16; simp)+
  have nid: "rs_nextLocalId (ut_relStore s1) = ?n"
    using inv a(6) by (simp only: send_inv_def)
  have "?n + 1 = ?n2"
    by (simp only: of_nat_Suc add.commute)
  then have run2: "doSendUnfragmentedData E now (Data ?m) ctx False ?s2 = Some (r, s')"
    using run h rel n nid by (simp add: UdpTransport_sendMessage_def ReliableStore_nextMessageId_def Let_def del: of_nat_Suc)
  have "send_inv R L s1"
    using inv by (simp add: a(4))
  then have inv2: "send_inv R ?L ?s2"
    by (rule send_inv_grows [OF _ len])
  have rh: "sendable_rel (dm_relHeader ?m)" "rh_ackCount h \<le> 8"
    using a(2) by (simp_all add: sendable_rel_def)
  have "numbered ?L ?m"
    using m rh(1) unfolding numbered_def sendable_def
    by (auto simp: entry_def intro!: exI [of _ "Suc (length L)"])
  then have num: "numbered ?L ?m \<or> ack_message ?m" ..
  have fit: "fits (ut_mtu ?s2) ?m"
    using m rh(2) a(5) by (simp add: fits_def sendable_def relHdrSize_def compHdrSize_def)
  have "sends_ok R ?L ?s2 s'"
    by (rule doSend_ok [OF D inv2 num fit run2])
  then show "send_inv R ?L s'" "recv_part s' = recv_part s"
    using a(3) by (simp_all add: sends_ok_def recv_part_def)
qed

section \<open>Receiving\<close>

text \<open>Receiving changes the sending side by removing unacknowledged messages only.\<close>

definition send_part :: "('cd, 'dd, 'd, 'i, 'f) UdpTransport \<Rightarrow> _" where
  "send_part s = (rs_nextLocalId (ut_relStore s), ut_mtu s, ut_wire s, bt_connectionId (ut_base s))"

definition same_sender :: "('cd, 'dd, 'd, 'i, 'f) UdpTransport \<Rightarrow> ('cd, 'dd, 'd, 'i, 'f) UdpTransport \<Rightarrow> bool" where
  "same_sender s s' \<longleftrightarrow> send_part s' = send_part s \<and>
     set (rs_localUnacked (ut_relStore s')) \<subseteq> set (rs_localUnacked (ut_relStore s))"

lemma same_sender_refl [simp]: "same_sender s s"
  by (simp add: same_sender_def)

lemma same_sender_trans: "same_sender s s' \<Longrightarrow> same_sender s' s'' \<Longrightarrow> same_sender s s''"
  by (auto simp: same_sender_def)

lemma same_sender_inv: "same_sender s s' \<Longrightarrow> send_inv R L s \<Longrightarrow> send_inv R L s'"
  by (auto simp: same_sender_def send_part_def send_inv_def)

lemma incoming_sender:
  assumes "handleIncoming now meta st = (r, st')"
  shows "rs_nextLocalId st' = rs_nextLocalId st \<and> set (rs_localUnacked st') \<subseteq> set (rs_localUnacked st)"
proof (cases "mm_reliabilityHeader meta")
  case (Some h)
  obtain r0 st0 where st0: "processAcks h st = (r0, st0)"
    by fastforce
  have "rs_nextLocalId st0 = rs_nextLocalId st" "set (rs_localUnacked st0) \<subseteq> set (rs_localUnacked st)"
    using processAcks_acked [OF st0] by (auto simp: acked_def)
  then show ?thesis
    using assms Some st0
    by (auto simp: handleIncoming_def Let_def storeRemoteOutOfOrder_def pushRemoteDuplicate_def
        pushRemoteUnackedWithId.simps pushRemoteUnacked_eq restore_frame split: sum.splits if_splits)
qed (use assms in \<open>simp add: handleIncoming_def\<close>)

lemma decodeFinal_sender:
  assumes "decodeFinal E now meta s = (r, s')"
  shows "same_sender s s'"
proof -
  obtain r0 b where d: "decodePreFinalDataMessage (en_time E) (en_zstd E) (en_lz4 E) now meta (ut_base s) = (r0, b)"
    by fastforce
  have "session b = session (ut_base s)"
    using session_decodePreFinal [of "en_time E" "en_zstd E" "en_lz4 E" now meta "ut_base s"] d by simp
  then show ?thesis
    using assms d by (auto simp: decodeFinal_def same_sender_def send_part_def session_def)
qed

lemma processOne_sender:
  assumes "processOne E now meta s = (r, s')"
  shows "same_sender s s'"
proof -
  have fragment: "same_sender s s1" if "collectFragment E now meta s = (r1, s1)" for r1 s1
    using that by (auto simp: collectFragment_def same_sender_def send_part_def Let_def split: option.splits prod.splits)
  have accept: "same_sender s1 s2" if "acceptReliable now meta s1 = (r2, s2)" for meta s1 r2 s2
    using that incoming_sender [of now meta "ut_relStore s1"]
    by (auto simp: acceptReliable_def same_sender_def send_part_def Let_def split: option.splits prod.splits)
  have final: "same_sender s2 s3" if "decodeFinal E now meta s2 = (r3, s3)" for meta s2 r3 s3
    by (rule decodeFinal_sender [OF that])
  show ?thesis
  proof (cases "mm_type meta = MSG_DATA")
    case data: True
    obtain r1 s1 where s1: "collectFragment E now meta s = (r1, s1)"
      by fastforce
    note one = fragment [OF s1]
    show ?thesis
    proof (cases "\<exists>whole. r1 = Ok (Some whole)")
      case True
      then obtain whole where whole: "r1 = Ok (Some whole)" ..
      obtain r2 s2 where s2: "acceptReliable now whole s1 = (r2, s2)"
        by fastforce
      obtain r3 s3 where s3: "decodeFinal E now whole s2 = (r3, s3)"
        by fastforce
      note two = same_sender_trans [OF one accept [OF s2]]
      have "s' = s2 \<or> s' = s3"
        using assms data s1 whole s2 s3 by (auto simp: processOne_def step_then_def split: sum.splits if_splits)
      then show ?thesis
        using two same_sender_trans [OF two final [OF s3]] by blast
    next
      case False
      then have "s' = s1"
        using assms data s1 by (auto simp: processOne_def step_then_def split: sum.splits option.splits)
      then show ?thesis
        using one by simp
    qed
  next
    case False
    then show ?thesis
      using assms
      by (auto simp: processOne_def step_then_def Let_def same_sender_def send_part_def clearUnackedKeepalives_def
          on_tracker_def on_base_def split: sum.splits QunetMessage.splits)
  qed
qed


lemma processItems_sender:
  "processItems E now it tr s = (r, s') \<Longrightarrow> same_sender s s'"
proof (induction E now it tr s arbitrary: r s' rule: processItems.induct)
  case (1 E now it tr s)
  note run = "1.prems" [unfolded processItems.simps [of E now it]]
  obtain x it' where nx: "QunetUdpMessageIter_next (en_reader E) it = (x, it')"
    by fastforce
  show ?case
  proof (cases "\<exists>meta. x = Some (Inr meta)")
    case False
    then show ?thesis
      using run nx by (cases x) (auto split: sum.splits)
  next
    case True
    then obtain meta where x: "x = Some (Inr meta)" ..
    show ?thesis
    proof (cases "mm_type meta = MSG_PADDING")
      case True
      then show ?thesis
        using run nx x "1.IH"(1) [OF nx [symmetric] x refl True] by simp
    next
      case pad: False
      obtain r1 s1 where one: "processOne E now meta s = (r1, s1)"
        by fastforce
      note kept = processOne_sender [OF one]
      show ?thesis
      proof (cases r1)
        case (Inl e)
        then show ?thesis
          using run nx x pad one kept by simp
      next
        case (Inr m)
        show ?thesis
        proof (cases m)
          case None
          then show ?thesis
            using run nx x pad one Inr "1.IH"(2) [OF nx [symmetric] x refl pad one [symmetric] Inr None]
              same_sender_trans [OF kept] by simp
        next
          case (Some msg)
          have "same_sender s (s1\<lparr>ut_pendingMessages := ut_pendingMessages s1 @ [msg]\<rparr>)"
            using kept by (simp add: same_sender_def send_part_def)
          then show ?thesis
            using run nx x pad one Inr Some "1.IH"(3) [OF nx [symmetric] x refl pad one [symmetric] Inr Some]
              "1.IH"(4) [OF nx [symmetric] x refl pad one [symmetric] Inr Some]
              same_sender_trans [OF kept] same_sender_trans by (fastforce split: if_splits)
        qed
      qed
    qed
  qed
qed

lemma receiveQueued_sender:
  "receiveQueued E now s = Some (r, s') \<Longrightarrow> same_sender s s'"
  using decodeFinal_sender
  by (fastforce simp: receiveQueued_def popDelayedMessage_def same_sender_def send_part_def split: list.splits)

lemma receiveDatagram_sender:
  assumes "receiveDatagram E now recv s = (r, s')"
  shows "same_sender s s'"
proof (cases recv)
  case (Inr d)
  have "same_sender s (on_tracker (onDownPacket now (length d)) s)"
    by (simp add: same_sender_def send_part_def on_tracker_def on_base_def)
  then show ?thesis
    using assms Inr same_sender_trans [OF _ processItems_sender]
    by (auto simp: receiveDatagram_def step_then_def Let_def split: if_splits)
qed (use assms in \<open>simp add: receiveDatagram_def step_then_def\<close>)

lemma receiveMessage_sender:
  "UdpTransport_receiveMessage E now recvs s = (r, recvs', s') \<Longrightarrow> same_sender s s'"
proof (induction recvs arbitrary: now s)
  case Nil
  then show ?case
    using receiveQueued_sender [of E now s]
    by (auto simp: UdpTransport_receiveMessage.simps split: option.splits)
next
  case (Cons recv recvs)
  then show ?case
    using receiveQueued_sender [of E now s] receiveDatagram_sender [of E "fst recv" "snd recv" s] same_sender_trans
    by (subst (asm) (2) UdpTransport_receiveMessage.simps)
      (fastforce split: option.splits prod.splits sum.splits)
qed


section \<open>Two transports\<close>

text \<open>A peer with what its user sent and got.  A step of it: its user sends a reliable message, a timer
  runs out, the round trip time is measured, or it waits for a message and its socket gives datagrams
  of the network, or errors.\<close>

record ('cd, 'dd, 'd, 'i, 'f) udp_peer =
  up_transport :: "('cd, 'dd, 'd, 'i, 'f) UdpTransport"
  up_sent :: "(CompressionHeader option \<times> bytes) list"
  up_got :: "bytes list"

inductive udp_step :: "('r, 'w, 'cd, 'dd, 'd, 'i, 'f) qn_env \<Rightarrow> 'g double_ops \<Rightarrow> bytes set \<Rightarrow>
    ('cd, 'dd, 'd, 'i, 'f) udp_peer \<Rightarrow> ('cd, 'dd, 'd, 'i, 'f) udp_peer \<Rightarrow> bool" for E F net where
  send: "UdpTransport_sendMessage E now stamp (Data m) ctx (up_transport p) = Some (r, s') \<Longrightarrow>
     cx_reliable ctx \<Longrightarrow> sendable (ut_mtu (up_transport p)) m \<Longrightarrow>
     udp_step E F net p (p\<lparr>up_transport := s', up_sent := up_sent p @ [(dm_compHeader m, dm_data m)]\<rparr>)"
| timer: "UdpTransport_handleTimerExpiry E now stamp (up_transport p) = Some (r, s') \<Longrightarrow>
     udp_step E F net p (p\<lparr>up_transport := s'\<rparr>)"
| latency: "udp_step E F net p (p\<lparr>up_transport := UdpTransport_updateLatency (en_time E) F rtt (up_transport p)\<rparr>)"
| receive: "UdpTransport_receiveMessage E now recvs (up_transport p) = (r, rest, s') \<Longrightarrow>
     \<forall>t d. (t, Ok d) \<in> set recvs \<longrightarrow> d \<in> net \<Longrightarrow>
     udp_step E F net p (p\<lparr>up_transport := s', up_got := up_got p @ handed r\<rparr>)"

text \<open>The network loses, repeats and reorders: it gives a peer whatever the other one sent so far.  Both
  start with an empty reliability layer and without a connection id.\<close>

definition udp_start :: "('cd, 'dd, 'd, 'i) BaseTransport \<Rightarrow> 'i \<Rightarrow> QunetPadRNG \<Rightarrow> 'f \<Rightarrow> 'd option \<Rightarrow>
    ('cd, 'dd, 'd, 'i, 'f) udp_peer" where
  "udp_start b t0 rng loss interval =
     \<lparr>up_transport = (UdpTransport_new t0 rng loss interval)\<lparr>ut_base := b\<rparr>, up_sent = [], up_got = []\<rparr>"

inductive udp_pair for E1 E2 F where
  start: "bt_connectionId b1 = 0 \<Longrightarrow> bt_connectionId b2 = 0 \<Longrightarrow>
     udp_pair E1 E2 F (udp_start b1 t1 rng1 loss1 i1) (udp_start b2 t2 rng2 loss2 i2)"
| left: "udp_pair E1 E2 F p q \<Longrightarrow> udp_step E1 F (set (ut_wire (up_transport q))) p p' \<Longrightarrow> udp_pair E1 E2 F p' q"
| right: "udp_pair E1 E2 F p q \<Longrightarrow> udp_step E2 F (set (ut_wire (up_transport p))) q q' \<Longrightarrow> udp_pair E1 E2 F p q'"

lemma udp_pair_swap: "udp_pair E1 E2 F p q \<Longrightarrow> udp_pair E2 E1 F q p"
  by (induction rule: udp_pair.induct) (auto intro: udp_pair.intros)

lemma step_sends:
  fixes E :: "('r, 'w, 'cd, 'dd, 'd, 'i, 'f) qn_env"
  assumes "udp_step E F net p p'" and D: "dbuf_laws C R rst adv (en_writer E)" and raw: "\<And>x. length (en_raw E x) = 8"
    and "send_inv R (up_sent p) (up_transport p)" and "length (up_sent p') \<le> 16383"
  shows "send_inv R (up_sent p') (up_transport p')"
  using assms(1)
proof cases
  case (send now stamp m ctx r s')
  then show ?thesis
    using send_ok(1) [OF D assms(4) _ send(4,3,2)] assms(5) by simp
next
  case (timer now stamp r s')
  then show ?thesis
    using timer_ok [OF D raw assms(4) timer(2)] by (simp add: sends_ok_def)
next
  case (latency rtt)
  then show ?thesis
    by (simp add: latency_ok [OF assms(4), unfolded sends_ok_def])
next
  case (receive now recvs r rest s')
  then show ?thesis
    using same_sender_inv [OF receiveMessage_sender [OF receive(2)] assms(4)] by simp
qed

lemma step_log: "udp_step E F net p p' \<Longrightarrow> \<exists>L. up_sent p' = up_sent p @ L"
  by (induction rule: udp_step.induct) simp_all

text \<open>The receiving side: what its user has is what was sent first.\<close>

definition recv_inv :: "(CompressionHeader option \<times> bytes \<Rightarrow> bytes) \<Rightarrow> (CompressionHeader option \<times> bytes) list \<Rightarrow>
    ('cd, 'dd, 'd, 'i, 'f) udp_peer \<Rightarrow> nat \<Rightarrow> bool" where
  "recv_inv pay L q n \<longleftrightarrow> up_got q = map pay (take n L) \<and>
     recv_state (entry L) (\<lambda>i. pay (entry L i)) (length L) n (ut_relStore (up_transport q))
       (ut_pendingMessages (up_transport q))"

lemma recv_state_bound:
  assumes "recv_state sent payload M n st out"
  shows "n \<le> M"
proof -
  obtain k n1 where "n \<le> k" "k \<le> n1" "rel_inv sent M n1 (st\<lparr>rs_remoteDelayedQueue := []\<rparr>)"
    using assms unfolding recv_state_def by blast
  moreover from this have "n1 \<le> M"
    by (simp add: rel_inv_def rel_mid_def)
  ultimately show ?thesis
    by simp
qed

lemma recv_inv_grows:
  assumes "recv_inv pay L q n" and "length (L @ L') \<le> 16383"
  shows "recv_inv pay (L @ L') q n"
proof -
  let ?p = "\<lambda>L i. pay (entry L i)" and ?st = "ut_relStore (up_transport q)"
    and ?out = "ut_pendingMessages (up_transport q)"
  have st: "recv_state (entry L) (?p L) (length L) n ?st ?out"
    using assms(1) by (simp add: recv_inv_def)
  note n = recv_state_bound [OF st]
  obtain k n1 where k: "n \<le> k" "k \<le> n1" "data_of ?out = map (?p L) [n + 1..<k + 1]"
    "map content (rs_remoteDelayedQueue ?st) = map (entry L) [k + 1..<n1 + 1]"
    "rel_inv (entry L) (length L) n1 (?st\<lparr>rs_remoteDelayedQueue := []\<rparr>)"
    using st unfolding recv_state_def by blast
  have "n1 \<le> length L"
    using k(5) by (simp add: rel_inv_def rel_mid_def)
  then have "map (?p L) [n + 1..<k + 1] = map (?p (L @ L')) [n + 1..<k + 1]"
    using k(2) by (intro map_cong refl) (auto simp: entry_append simp del: upt_Suc)
  then have "recv_state (entry L) (?p (L @ L')) (length L) n ?st ?out"
    using k by (intro recv_stateI [of n k n1]) simp_all
  then have "recv_state (entry (L @ L')) (?p (L @ L')) (length (L @ L')) n ?st ?out"
    using recv_state_grows assms(2) by blast
  then show ?thesis
    using assms(1) n by (simp add: recv_inv_def)
qed

lemma map_entries:
  assumes "n \<le> n'" "n' \<le> length L"
  shows "map pay (take n L) @ map (\<lambda>i. pay (entry L i)) [n + 1..<n' + 1] = map pay (take n' L)"
  using assms
proof (induction n' rule: dec_induct)
  case (step m)
  then show ?case
    by (simp add: entry_def take_Suc_conv_app_nth)
qed simp

lemma arrive_all:
  assumes "\<forall>t d. (t, Ok d) \<in> set recvs \<longrightarrow> datagram_ok (en_reader E) L d"
  shows "\<exists>As. list_all2 (\<lambda>A recv. arrives_as E (entry L) (length L) A (snd recv)) As recvs"
  using assms
proof (induction recvs)
  case (Cons recv recvs)
  obtain As where As: "list_all2 (\<lambda>A recv. arrives_as E (entry L) (length L) A (snd recv)) As recvs"
    using Cons by auto
  have "\<exists>A. arrives_as E (entry L) (length L) A (snd recv)"
    using Cons.prems by (cases recv; cases "snd recv") (auto simp: arrives_as_def datagram_ok_def)
  then show ?case
    using As by blast
qed (auto intro: exI [of _ "[]"])


lemma recv_inv_same:
  assumes "recv_inv pay L p n" and "recv_part s' = recv_part (up_transport p)"
  shows "recv_inv pay L (p\<lparr>up_transport := s'\<rparr>) n" and "recv_inv pay L (p\<lparr>up_transport := s', up_sent := xs\<rparr>) n"
  using assms(1) by (simp_all add: recv_inv_def recv_part_state(1) [OF assms(2)])

text \<open>What a step keeps of the receiving side: all but \<open>receive\<close> leave it as it is.\<close>

lemma step_receives:
  fixes E :: "('r, 'w, 'cd, 'dd, 'd, 'i, 'f) qn_env"
  assumes "udp_step E F net p p'" and D: "dbuf_laws C R rst adv (en_writer E)" and raw: "\<And>x. length (en_raw E x) = 8"
    and inv: "send_inv R (up_sent p) (up_transport p)" and "length (up_sent p') \<le> 16383"
    and net: "\<forall>d\<in>net. datagram_ok (en_reader E) L d"
  shows "udp_session (up_transport p') = udp_session (up_transport p) \<and>
    (recv_inv pay L p n \<longrightarrow> (\<forall>c\<in>set L. opens E (up_transport p) c (pay c)) \<longrightarrow> (\<exists>n'. recv_inv pay L p' n'))"
  using assms(1)
proof cases
  case (send now stamp m ctx r s')
  have "recv_part s' = recv_part (up_transport p)"
    using send_ok(2) [OF D inv _ send(4,3,2)] assms(5) send(1) by simp
  then show ?thesis
    using send(1) recv_inv_same(2) recv_part_state(2) by fastforce
next
  case (timer now stamp r s')
  have "recv_part s' = recv_part (up_transport p)"
    using timer_ok [OF D raw inv timer(2)] by (simp add: sends_ok_def)
  then show ?thesis
    using timer(1) recv_inv_same(1) recv_part_state(2) by fastforce
next
  case (latency rtt)
  have "recv_part (UdpTransport_updateLatency (en_time E) F rtt (up_transport p)) = recv_part (up_transport p)"
    using latency_ok [OF inv, of "en_time E" F rtt] by (simp add: sends_ok_def)
  then show ?thesis
    using latency(1) recv_inv_same(1) recv_part_state(2) by fastforce
next
  case (receive now recvs r rest s')
  let ?pay = "\<lambda>i. pay (entry L i)"
  have "udp_session s' = udp_session (up_transport p)"
    by (rule UdpTransport_receiveMessage_session [OF receive(2)])
  moreover have "\<exists>n'. recv_inv pay L p' n'" if rin: "recv_inv pay L p n"
    and op: "\<forall>c\<in>set L. opens E (up_transport p) c (pay c)"
  proof -
    obtain As where As: "list_all2 (\<lambda>A recv. arrives_as E (entry L) (length L) A (snd recv)) As recvs"
      using arrive_all [of recvs E L] receive(3) net by blast
    have st: "recv_state (entry L) ?pay (length L) n (ut_relStore (up_transport p)) (ut_pendingMessages (up_transport p))"
      using rin by (simp add: recv_inv_def)
    have "opens_all E (up_transport p) (entry L) ?pay (length L)"
      using op by (auto simp: opens_all_def entry_def)
    then obtain n' where n': "n \<le> n'" "handed r = map ?pay [n + 1..<n' + 1]"
      "recv_state (entry L) ?pay (length L) n' (ut_relStore s') (ut_pendingMessages s')"
      using receiveMessage_order [OF receive(2) As st] by blast
    have "up_got p @ handed r = map pay (take n' L)"
      using rin map_entries [OF n'(1) recv_state_bound [OF n'(3)], of pay] n'(2) by (simp add: recv_inv_def)
    then show ?thesis
      using n'(3) receive(1) by (intro exI [of _ n']) (simp add: recv_inv_def)
  qed
  ultimately show ?thesis
    using receive(1) by simp
qed


lemma rel_inv_fresh: "rel_inv sent 0 0 ReliableStore_new"
  by (simp add: rel_inv_def rel_mid_def ReliableStore_new_def stored_ids_def)

lemma start_inv:
  assumes "bt_connectionId b = 0"
  shows "send_inv R (up_sent (udp_start b t0 rng loss i)) (up_transport (udp_start b t0 rng loss i))"
    and "recv_inv pay [] (udp_start b t0 rng loss i) 0"
proof -
  let ?s = "up_transport (udp_start b t0 rng loss i)"
  have st: "ut_relStore ?s = ReliableStore_new" "ut_pendingMessages ?s = []" "ut_wire ?s = []" "ut_base ?s = b"
    "29 \<le> ut_mtu ?s" "up_sent (udp_start b t0 rng loss i) = []" "up_got (udp_start b t0 rng loss i) = []"
    by (simp_all add: udp_start_def UdpTransport_new_def UDP_SAFE_MTU_def)
  then show "send_inv R (up_sent (udp_start b t0 rng loss i)) ?s"
    using assms by (simp add: send_inv_def ReliableStore_new_def)
  show "recv_inv pay [] (udp_start b t0 rng loss i) 0"
    unfolding recv_inv_def st by (simp add: delayed_empty_state [OF rel_inv_fresh])
qed

lemma pair_inv:
  assumes "udp_pair E1 E2 F p q"
    and D1: "dbuf_laws C1 (en_reader E2) rst1 adv1 (en_writer E1)"
    and D2: "dbuf_laws C2 (en_reader E1) rst2 adv2 (en_writer E2)"
    and raw: "\<And>x. length (en_raw E1 x) = 8" "\<And>x. length (en_raw E2 x) = 8"
    and len: "length (up_sent p) \<le> 16383" "length (up_sent q) \<le> 16383"
  shows "send_inv (en_reader E2) (up_sent p) (up_transport p) \<and> send_inv (en_reader E1) (up_sent q) (up_transport q) \<and>
    ((\<forall>c\<in>set (up_sent p). opens E2 (up_transport q) c (pay c)) \<longrightarrow> (\<exists>n. recv_inv pay (up_sent p) q n))"
  using assms(1) len
proof (induction rule: udp_pair.induct)
  case (start b1 b2 t1 rng1 loss1 i1 t2 rng2 loss2 i2)
  have "up_sent (udp_start b1 t1 rng1 loss1 i1) = []"
    by (simp add: udp_start_def)
  then show ?case
    using start_inv(1) [OF start(1), of "en_reader E2" t1 rng1 loss1 i1] start_inv(1) [OF start(2), of "en_reader E1" t2 rng2 loss2 i2]
      start_inv(2) [OF start(2), of pay t2 rng2 loss2 i2] by auto
next
  case (left p q p')
  obtain L where L: "up_sent p' = up_sent p @ L"
    using step_log [OF left(2)] by blast
  have ih: "send_inv (en_reader E2) (up_sent p) (up_transport p)" "send_inv (en_reader E1) (up_sent q) (up_transport q)"
    "(\<forall>c\<in>set (up_sent p). opens E2 (up_transport q) c (pay c)) \<longrightarrow> (\<exists>n. recv_inv pay (up_sent p) q n)"
    using left L by simp_all
  have "send_inv (en_reader E2) (up_sent p') (up_transport p')"
    by (rule step_sends [OF left(2) D1 raw(1) ih(1) left(4)])
  then show ?case
    using ih(2,3) recv_inv_grows [of pay "up_sent p" q _ L] left(4) L by auto
next
  case (right p q q')
  obtain L where L: "up_sent q' = up_sent q @ L"
    using step_log [OF right(2)] by blast
  have ih: "send_inv (en_reader E2) (up_sent p) (up_transport p)" "send_inv (en_reader E1) (up_sent q) (up_transport q)"
    "(\<forall>c\<in>set (up_sent p). opens E2 (up_transport q) c (pay c)) \<longrightarrow> (\<exists>n. recv_inv pay (up_sent p) q n)"
    using right L by simp_all
  have net: "\<forall>d\<in>set (ut_wire (up_transport p)). datagram_ok (en_reader E2) (up_sent p) d"
    using ih(1) by (simp add: send_inv_def)
  note step = step_receives [OF right(2) D2 raw(2) ih(2) right(5) net, of pay]
  have "send_inv (en_reader E1) (up_sent q') (up_transport q')"
    by (rule step_sends [OF right(2) D2 raw(2) ih(2) right(5)])
  moreover have "opens E2 (up_transport q') c (pay c) = opens E2 (up_transport q) c (pay c)" for c
    using step [of 0] opens_session by blast
  ultimately show ?case
    using ih(1,3) step by simp blast
qed

text \<open>C1 (safety).  Between two UDP transports without connection ids, over a network that loses, repeats
  and reorders datagrams, and whatever the two users send, the timers send again and acknowledge, and the
  sockets fail: what one user has got is the beginning of the reliable messages that the other sent, each
  once and in order, and nothing that can be handed on is held back: when no message is queued, the id after
  those that were handed on is not among the stored ones.  The messages are not fragmented, open at the
  receiver (the compressed ones decompress), and are at most 16383, before ids repeat.\<close>

theorem udp_messages_in_order:
  assumes "udp_pair E1 E2 F p q"
    and "dbuf_laws C1 (en_reader E2) rst1 adv1 (en_writer E1)"
    and "dbuf_laws C2 (en_reader E1) rst2 adv2 (en_writer E2)"
    and "\<And>x. length (en_raw E1 x) = 8" and "\<And>x. length (en_raw E2 x) = 8"
    and "length (up_sent p) \<le> 16383" and "length (up_sent q) \<le> 16383"
    and "\<And>c. c \<in> set (up_sent p) \<Longrightarrow> opens E2 (up_transport q) c (pay c)"
  shows "\<exists>n\<le>length (up_sent p). up_got q = map pay (take n (up_sent p)) \<and>
    (receiveQueued E2 now (up_transport q) = None \<longrightarrow>
      rs_nextRemoteId (ut_relStore (up_transport q)) = of_nat (Suc n) \<and>
      Suc n \<notin> stored_ids (ut_relStore (up_transport q)))"
proof -
  obtain n where n: "recv_inv pay (up_sent p) q n"
    using pair_inv [OF assms(1-7), of pay] assms(8) by blast
  have st: "recv_state (entry (up_sent p)) (\<lambda>i. pay (entry (up_sent p) i)) (length (up_sent p)) n
      (ut_relStore (up_transport q)) (ut_pendingMessages (up_transport q))"
    using n by (simp add: recv_inv_def)
  show ?thesis
    using n recv_state_bound [OF st] queued_none_inv(1) [OF _ st, of E2 now]
    by (intro exI [of _ n]) (auto simp: recv_inv_def rel_inv_def rel_mid_def)
qed


text \<open>One message, sent and received.\<close>

lemma no_acks: "rs_remoteUnacked st = [] \<Longrightarrow> setOutgoingAcks_loop i n h st = (h, st)"
  by (cases n) simp_all

lemma put_two: "put_le 2 x = [ucast x, ucast (drop_bit 8 x)]"
  by (simp add: numeral_2_eq_2)

lemma sample_send:
  "\<exists>r s'. UdpTransport_sendMessage plain_env 0 0 (Data \<lparr>dm_data = [7], dm_compHeader = None, dm_relHeader = None\<rparr>)
     (SentMessageContext_new\<lparr>cx_reliable := True\<rparr>) plain_udp = Some (r, s') \<and> ut_wire s' = [[144, 1, 0, 0, 0, 7]]"
  by (simp add: UdpTransport_sendMessage_def takeOutgoingAcks_def setOutgoingAcks_def no_acks plain_udp_def UdpTransport_new_def
    ReliableStore_new_def ReliableStore_nextMessageId_def doSendUnfragmentedData_def Let_def emptyRelHeader_def
    relHdrSize_def compHdrSize_def UDP_SAFE_MTU_def encodeDataHeader_def BaseTransport_new_def
    socketSend_def shouldLosePacket_def rememberUnacked_def pushLocalUnacked_def on_tracker_def on_base_def
    le_codec_def put_two)

lemma sample_receive:
  "\<exists>s'. UdpTransport_receiveMessage plain_env 0 [(1, Ok [144, 1, 0, 0, 0, 7])] plain_udp =
      (Some (Ok (Data \<lparr>dm_data = [7], dm_compHeader = None, dm_relHeader = None\<rparr>)), [], s')"
proof -
  let ?meta = "\<lparr>mm_type = MSG_DATA, mm_compressionHeader = None, mm_reliabilityHeader =
       Some \<lparr>rh_messageId = 1, rh_ackCount = 0, rh_acks = []\<rparr>,
      mm_fragmentationHeader = None, mm_data = [7], mm_dataOffset = 5\<rparr>"
  let ?it = "\<lparr>it_data = [144, 1, 0, 0, 0, 7], it_pos = 6, it_eof = False, it_server = False\<rparr>"
  have next1: "QunetUdpMessageIter_next list_reader (QunetUdpMessageIter_new [144, 1, 0, 0, 0, 7] False) = (Some (Ok ?meta), ?it)"
    by (simp add: QunetUdpMessageIter_new_def QunetUdpMessageIter_next_def decodeMeta_def decodeDataMeta_def compressionOf_def Let_def
      list_reader_def list_take_def le_codec_def)
  have next2: "QunetUdpMessageIter_next list_reader ?it = (None, ?it)"
    by (simp add: QunetUdpMessageIter_next_def)
  show ?thesis
    by (simp add: UdpTransport_receiveMessage.simps receiveQueued_def plain_udp_def UdpTransport_new_def ReliableStore_new_def
        popDelayedMessage_def receiveDatagram_def processItems.simps [of _ _ "QunetUdpMessageIter_new b s" for b s]
        processItems.simps [of _ _ ?it] next1 next2
        processOne_def collectFragment_def acceptReliable_def decodeFinal_def Let_def handleIncoming_def processAcks_def
        pushRemoteUnacked_eq
        decodePreFinalDataMessage_def on_tracker_def on_base_def MSG_DATA_def MSG_PADDING_def)
qed


theorem udp_messages_in_order_witness:
  "\<exists>p q n. udp_pair plain_env plain_env sample_double p q \<and> up_sent p = [(None, [7])] \<and> up_got q = [[7]] \<and>
     n \<le> 1 \<and> up_got q = map snd (take n (up_sent p))"
proof -
  let ?m = "\<lparr>dm_data = [7], dm_compHeader = None, dm_relHeader = None\<rparr>"
  let ?p = "udp_start (BaseTransport_new 0) 0 \<lparr>pr_x = 1, pr_y = 2, pr_z = 3\<rparr> 0 None ::
    (bytes, bytes, nat, nat, nat) udp_peer"
  have fresh: "up_transport ?p = plain_udp" "up_sent ?p = []" "up_got ?p = []"
    by (simp_all add: udp_start_def plain_udp_def UdpTransport_new_def)
  have base: "bt_connectionId (BaseTransport_new 0 :: (bytes, bytes, nat, nat) BaseTransport) = 0"
    by (simp add: BaseTransport_new_def)
  obtain r s where s: "UdpTransport_sendMessage plain_env 0 0 (Data ?m) (SentMessageContext_new\<lparr>cx_reliable := True\<rparr>)
      plain_udp = Some (r, s)" "ut_wire s = [[144, 1, 0, 0, 0, 7]]"
    using sample_send by blast
  let ?p1 = "?p\<lparr>up_transport := s, up_sent := up_sent ?p @ [(dm_compHeader ?m, dm_data ?m)]\<rparr>"
  obtain s' where s': "UdpTransport_receiveMessage plain_env 0 [(1, Ok [144, 1, 0, 0, 0, 7])] plain_udp = (Some (Ok (Data ?m)), [], s')"
    using sample_receive by blast
  let ?q1 = "?p\<lparr>up_transport := s', up_got := up_got ?p @ handed (Some (Ok (Data ?m)))\<rparr>"
  have "udp_step plain_env sample_double (set (ut_wire (up_transport ?p))) ?p ?p1"
    by (rule udp_step.send [OF s(1) [folded fresh(1)]])
      (simp_all add: fresh sendable_def wf_comp_def compHdrSize_def plain_udp_def UdpTransport_new_def UDP_SAFE_MTU_def)
  with udp_pair.start [OF base base] have "udp_pair plain_env plain_env sample_double ?p1 ?p"
    by (rule udp_pair.left)
  moreover have "udp_step plain_env sample_double (set (ut_wire (up_transport ?p1))) ?p ?q1"
    by (rule udp_step.receive [OF s' [folded fresh(1)]]) (simp add: s(2))
  ultimately have pair: "udp_pair plain_env plain_env sample_double ?p1 ?q1"
    by (rule udp_pair.right)
  have opens: "opens plain_env (up_transport ?q1) c (snd c)" if "c \<in> set (up_sent ?p1)" for c
    using that opens_plain [of "[7]" plain_env s'] fresh by simp
  have "\<exists>n\<le>length (up_sent ?p1). up_got ?q1 = map snd (take n (up_sent ?p1)) \<and>
    (receiveQueued plain_env 0 (up_transport ?q1) = None \<longrightarrow>
      rs_nextRemoteId (ut_relStore (up_transport ?q1)) = of_nat (Suc n) \<and>
      Suc n \<notin> stored_ids (ut_relStore (up_transport ?q1)))"
    by (rule udp_messages_in_order [OF pair _ _ _ _ _ _ opens])
      (use ref.dbuf_laws_axioms fresh in simp_all)
  then show ?thesis
    using pair fresh by (intro exI [of _ ?p1] exI [of _ ?q1]) auto
qed

end
