(* ===== verification/Spec2Isabelle.thy ===== *)
theory Spec2Isabelle
  imports Message_Codec Message_Ids Fragment_Store Reliable_Store Sliding_Buffer Two_Span_Source
    Padding Stat_Tracker Compression Qunet_Database Base_Transport Effects Udp_Transport Udp_Sending Udp_Handshake Connection_Safety Connection_Runs Qunet_Socket
    Quic_Transport Dns_Resolver Message_Types Qdb_Files Accessors End_To_End Quic_End_To_End Connection_Sockets
    Quic_Setup Udp_Pair
begin

text \<open>
  A verification library for qunet, the client side of a game networking protocol over UDP, TCP,
  WebSocket and QUIC.

  \<^bold>\<open>The program.\<close>  A user has a \<open>Connection\<close> (\<open>src/Connection.cpp\<close>).  Its calls change settings or put
  addresses and messages into channels; a worker coroutine resolves the address (\<open>src/dns\<close>), asks the
  servers which protocols they speak (\<open>src/Pinger.cpp\<close>), tries the candidates in order, and then moves
  messages between the channels, the callbacks and a \<open>Socket\<close> (\<open>src/socket/Socket.cpp\<close>) until the
  connection is closed or lost, in which case it reconnects.  The socket performs the handshake, looks
  after the compression database (\<open>src/database\<close>) and compresses (\<open>src/compression\<close>); it works on a
  transport (\<open>src/socket/transport\<close>), which encodes messages (\<open>src/socket/message\<close>) and either frames
  them on a byte stream (TCP, QUIC), leaves that to a WebSocket client, or sends datagrams with its own
  fragmentation, acknowledgements and ordering (UDP).

  \<^bold>\<open>Conventions.\<close>  A class is a record of its fields, an enumeration or variant a datatype, a fixed-width
  integer a word, \<open>size_t\<close> a natural number where it cannot wrap and a 64-bit word where the code lets
  it wrap.  A function returns an \<open>outcome\<close> (\<open>Qn_Prelude\<close>): a value, a returned error, a thrown
  exception or failed assertion, or undefined behaviour; out-of-range accesses are values of the model
  and not left unspecified.  A method takes and returns the state.  A coroutine that may wait for ever or
  loop for ever returns an option (None is not returning), with \<open>partial_function\<close> for its loop, or is
  cut at its suspension points into a step relation.  Locks are the atomicity of these steps.
  Debug assertions are those of a release build.  Third-party code (dbuf, zstd, LZ4, ngtcp2, c-ares, wsx,
  qsox, xtls, asp, BLAKE3) and the operating system are parameters: records of operations over abstract
  states, and locales for the laws that their documentation states, each with an instance.  The clock, the
  random numbers and what the network delivers are arguments.

  \<^bold>\<open>Theories.\<close>
  \<^item> \<open>Qn_Prelude\<close>, \<open>Effects\<close>: outcomes, lists, words; sequencing of steps, and the calculus \<open>keeps\<close> for
    operations that leave a part of the state alone.  \<open>Dbuf\<close>: readers and writers of bytes.
  \<^item> \<open>Protocol\<close>, \<open>Messages\<close>, \<open>Qunet_Message\<close>: constants, message types, codecs, the iteration over the
    messages of a datagram (\<open>protocol/constants.hpp\<close>, \<open>protocol/errors.cpp\<close>, \<open>messages.hpp\<close>, \<open>meta.hpp\<close>,
    \<open>QunetMessage.cpp\<close>).  \<open>Message_Codec\<close>: the layout of every message, round trips, framing, and
    where the code reads what it did not write.  \<open>Message_Types\<close>: what is delivered is a message that
    \<open>decodeWithMeta\<close> knows.
  \<^item> \<open>Message_Ids\<close>, \<open>Fragment_Store\<close>, \<open>Reliable_Store\<close>, \<open>Padding\<close>, \<open>Sliding_Buffer\<close>, \<open>Two_Span_Source\<close>,
    \<open>Stat_Tracker\<close>, \<open>Compression\<close>: the parts that the transports are made of
    (\<open>transport/udp\<close>, \<open>include/qunet/util\<close>, \<open>util/StatTracker.cpp\<close>, \<open>compression\<close>).  Each has an invariant
    that its operations preserve, and its contract: fragments in any order are reassembled, reliable
    messages are delivered in order and once, a buffer is a queue of bytes.
  \<^item> \<open>Qunet_Database\<close>, \<open>Qdb_Files\<close>: the database format and its files (\<open>QunetDatabase.cpp\<close>, \<open>hash.cpp\<close>).
  \<^item> \<open>Transport_Error\<close>, \<open>Base_Transport\<close>: errors, and what all transports share (\<open>BaseTransport.cpp\<close>).
  \<^item> \<open>Udp_Transport\<close>, \<open>Udp_Sending\<close>, \<open>Udp_Handshake\<close> (\<open>UdpTransport.cpp\<close>): operations and timers; a
    fragmented message arrives; the chunked handshake.
    \<open>Udp_Order\<close>: what a transport hands on of the datagrams it receives; \<open>Udp_Pair\<close>: two of them and a
    network that loses, repeats and reorders datagrams (\<open>udp_step\<close>, \<open>udp_pair\<close>).
  \<^item> \<open>Stream_Common\<close>, \<open>Tcp_Transport\<close>, \<open>Ws_Transport\<close> (\<open>Common.hpp\<close>, \<open>TcpTransport.cpp\<close>,
    \<open>WsTransport.cpp\<close>): framing over a circular buffer, received in whatever pieces.
  \<^item> \<open>Quic_Stream\<close>, \<open>Quic_Connection\<close>, \<open>Quic_Setup\<close>, \<open>Quic_Safety\<close>, \<open>Quic_Transport\<close> (\<open>transport/quic\<close>,
    \<open>QuicTransport.cpp\<close>): streams with every interleaving of user and worker (\<open>stream_step\<close>),
    the connection and its worker, the random ids it starts with, what reaches ngtcp2 (\<open>conn_step\<close>), and
    messages over it.
  \<^item> \<open>Transport_Session\<close>, \<open>Transport_Ops\<close>, \<open>Quic_Ops\<close>, \<open>Any_Transport\<close>: the virtual functions of the base
    class as a record, the locale \<open>transport_laws\<close> with each of the four transports as an instance
    (\<open>closing_laws\<close> for those that \<open>close\<close> always closes), the dispatch over them and \<open>createTransport\<close>.
  \<^item> \<open>Qunet_Socket\<close>: connecting, reconnecting, compressing, sending, receiving (\<open>Socket.cpp\<close>).
    \<open>Keepalives\<close>: the locale \<open>keepalive_laws\<close> with each transport as an instance: how many timers succeed
    when nothing is received.
  \<^item> \<open>Net_Address\<close>, \<open>Url_Parser\<close>, \<open>Dns_Resolver\<close>, \<open>Pinger\<close>: addresses, their texts, resolvers, pings.
  \<^item> \<open>Connection\<close>, \<open>Connection_Worker\<close>, \<open>Connection_Safety\<close>, \<open>Connection_Runs\<close>: calls of the user and the
    state variable; the worker as tasks and events; the invariant \<open>world_ok\<close> of every reachable
    world; whole runs.  \<open>Connection_Sockets\<close>: the worker over the sockets of \<open>Qunet_Socket\<close>
    (\<open>socket_event\<close>): its session survives errors and reconnects, and it notices a silent server.
    \<open>Accessors\<close>: getters and comparisons.
  \<^item> \<open>End_To_End\<close>, \<open>Quic_End_To_End\<close>: the locale \<open>data_channel\<close> (two transports between which a data message
    arrives; \<open>sure_channel\<close> when sending never has to wait), TCP, WebSocket and QUIC as instances, and the
    way of a message from one user's call to the other user's callback.

  \<^bold>\<open>Bounds and fuel.\<close>  No definition has fuel.  Loops over data are structural or have a measure; loops that
  wait take the list of what they are woken with, and return None when it is used up; \<open>partial_function\<close>
  is used for the retransmission loop, the fragments of a message, the reading of a stream and the growth
  of a buffer, and the theorems on them prove that they return.  The numeric hypotheses of the theorems
  are those of the code's widths: messages below \<open>2 ^ 30\<close> bytes for LZ4, below \<open>2 ^ 32\<close> for a frame,
  fewer than \<open>2 ^ 63\<close> bytes on a QUIC stream.

  \<^bold>\<open>Not modelled.\<close>  Creating a TLS session for QUIC (\<open>QuicTlsSession.cpp\<close>), logging (\<open>Log.cpp\<close>), questions to
  the platform (\<open>Platform.cpp\<close>, \<open>shutdown.cpp\<close>), the thread-local random generator (\<open>rng.hpp\<close>), and of the
  resolver on c-ares the global initialisation and the registry of Windows: these only call foreign code.
  In a QUIC connection the log callback of ngtcp2 and the storage of socket addresses are left out.
  Single and double precision arithmetic (statistics, smoothing of latencies) is a parameter.

  \<^bold>\<open>Limits of the theorems.\<close>  The server is not part of the repository.  The way from user to user is proved
  with this code on both sides.  A lossy UDP transport is no \<open>data_channel\<close>; \<open>Udp_Pair\<close> has two of them
  with the messages that fit a datagram, at most 16383 in each direction (ids are 16 bits wide and
  compared without wrap-around), and without connection ids, which a server strips and a client never
  receives.  Keepalives are counted by the timers that find one
  due, not by seconds.  The worker is safe under \<open>well_behaved\<close>, whose conditions (an SRV answer that is not
  empty, pongs that name a known protocol and come from a pinged address, no text that starts with a colon, no
  \<open>simulateConnectionDrop\<close>, no failed assertion inside the socket) the code does not check; what happens
  without the condition on pongs is \<open>unknown_protocols_crash\<close>.  A data message that is compressed does not
  survive the encoding with a connection id (\<open>compressed_message_with_connection_id\<close>), so the round trips of
  data messages exclude that case.  A stream receiver whose buffer has reached 1 MiB and is full reports
  \<open>NoBufferSpace\<close> instead of a message; the theorems on streams and from user to user name that case.
\<close>

end
